(* ===== verification/Types.thy ===== *)
theory Types
  imports Prelude
begin

text \<open>
  \<^verbatim>\<open>internal/sets/sets.go\<close>, \<^verbatim>\<open>internal/types/types.go\<close> and the configuration records of
  \<^verbatim>\<open>internal/config\<close>. A Go \<open>Set[T]\<close> (a map with empty values) is a finite set \<open>'a fset\<close>; the
  string-typed enumerations keep their string values, so that a value outside the enumeration
  stays representable, as it is in the code.
\<close>

section \<open>Sets\<close>

definition set_new :: "'a list \<Rightarrow> 'a fset" where
  "set_new values = foldl (\<lambda>s v. finsert v s) {||} values"

definition set_add :: "'a fset \<Rightarrow> 'a \<Rightarrow> 'a fset" where
  "set_add s v = finsert v s"

definition set_remove :: "'a fset \<Rightarrow> 'a \<Rightarrow> 'a fset" where
  "set_remove s v = s |-| {|v|}"

definition set_contains :: "'a fset \<Rightarrow> 'a \<Rightarrow> bool" where
  "set_contains s v \<longleftrightarrow> v |\<in>| s"

text \<open>\<open>Equal\<close>: the sizes first, then every key of the one looked up in the other.\<close>

definition set_equal :: "'a fset \<Rightarrow> 'a fset \<Rightarrow> bool" where
  "set_equal s other = (if fcard s \<noteq> fcard other then False else fBall s (\<lambda>k. k |\<in>| other))"

lemma foldl_finsert: "foldl (\<lambda>s v. finsert v s) a xs = a |\<union>| fset_of_list xs"
  by (induction xs arbitrary: a) auto

lemma set_new_fset_of_list: "set_new xs = fset_of_list xs"
  by (simp add: set_new_def foldl_finsert)

lemma fcard_eq_subset: "s |\<subseteq>| t \<Longrightarrow> fcard s = fcard t \<Longrightarrow> s = t"
  by (metis card_subset_eq fcard.rep_eq finite_fset fset_inject less_eq_fset.rep_eq)

lemma set_equal_iff: "set_equal s t \<longleftrightarrow> s = t"
  using fcard_eq_subset [of s t] by (auto simp: set_equal_def)

lemma set_contains_new [simp]: "set_contains (set_new xs) v \<longleftrightarrow> v \<in> set xs"
  by (simp add: set_contains_def set_new_fset_of_list fset_of_list_elem)

lemma set_contains_add [simp]: "set_contains (set_add s v) w \<longleftrightarrow> w = v \<or> set_contains s w"
  by (auto simp: set_contains_def set_add_def)


section \<open>Flags, modes and payload names\<close>

type_synonym flag = string
type_synonym flag_set = "string fset"
type_synonym payload_name = string

definition TCPFlagFIN :: flag where "TCPFlagFIN = ''F''"
definition TCPFlagSYN :: flag where "TCPFlagSYN = ''S''"
definition TCPFlagRST :: flag where "TCPFlagRST = ''R''"
definition TCPFlagPSH :: flag where "TCPFlagPSH = ''P''"
definition TCPFlagACK :: flag where "TCPFlagACK = ''A''"
definition TCPFlagURG :: flag where "TCPFlagURG = ''U''"
definition TCPFlagECE :: flag where "TCPFlagECE = ''E''"
definition TCPFlagCWR :: flag where "TCPFlagCWR = ''C''"
definition TCPFlagNS :: flag where "TCPFlagNS = ''N''"

lemmas tcp_flag_defs = TCPFlagFIN_def TCPFlagSYN_def TCPFlagRST_def TCPFlagPSH_def
  TCPFlagACK_def TCPFlagURG_def TCPFlagECE_def TCPFlagCWR_def TCPFlagNS_def

definition DNSFlagQR :: flag where "DNSFlagQR = ''QR''"
definition DNSFlagAA :: flag where "DNSFlagAA = ''AA''"
definition DNSFlagTC :: flag where "DNSFlagTC = ''TC''"
definition DNSFlagRD :: flag where "DNSFlagRD = ''RD''"
definition DNSFlagRA :: flag where "DNSFlagRA = ''RA''"

definition SynAckFlagSet :: flag_set where "SynAckFlagSet = set_new [TCPFlagSYN, TCPFlagACK]"
definition AckFlagSet :: flag_set where "AckFlagSet = set_new [TCPFlagACK]"

definition MeasurementModeFixedInterval :: string where
  "MeasurementModeFixedInterval = ''fixed-interval''"
definition MeasurementModeRTBased :: string where
  "MeasurementModeRTBased = ''rt-based''"

lemma modes_differ [simp]: "MeasurementModeFixedInterval \<noteq> MeasurementModeRTBased"
  by (simp add: MeasurementModeFixedInterval_def MeasurementModeRTBased_def)

definition PayloadICMP :: payload_name where "PayloadICMP = ''icmp''"
definition PayloadTCP :: payload_name where "PayloadTCP = ''tcp''"
definition PayloadUDPDNS :: payload_name where "PayloadUDPDNS = ''udp-dns''"

lemmas payload_name_defs = PayloadICMP_def PayloadTCP_def PayloadUDPDNS_def

lemma payload_names_distinct [simp]:
  "PayloadICMP \<noteq> PayloadTCP" "PayloadICMP \<noteq> PayloadUDPDNS" "PayloadTCP \<noteq> PayloadUDPDNS"
  "PayloadTCP \<noteq> PayloadICMP" "PayloadUDPDNS \<noteq> PayloadICMP" "PayloadUDPDNS \<noteq> PayloadTCP"
  by (simp_all add: payload_name_defs)


section \<open>Configuration records\<close>

text \<open>
  Durations are nanoseconds as integers (\<open>time.Duration\<close>); the reply rate, a \<open>float64\<close> in the
  code, is a rational number.
\<close>

record interface_pair =
  if_name :: string
  IPA :: string
  IPB :: string

record fixed_interval_config =
  RequestInterval :: int
  MinimumReplyRate :: rat

record tcp_config =
  EstablishConnection :: bool
  RequestFlags :: flag_set
  ReplyFlags :: "flag_set list"

record upload_config =
  UploadEnable :: bool
  S3Destination :: string
  DeleteLocal :: bool

record analysis_workflow_config =
  WorkflowEnable :: bool
  S3Prefix :: string
  PollInterval :: int
  WorkflowTimeout :: int

record ipid_config =
  ZMapPayload :: payload_name
  ZMapPort :: "u16 option"
  ConnectionCount :: u16
  RequestsPerConnection :: u16
  MeasurementMode :: string
  FixedIntervalConfig :: fixed_interval_config
  TCPConfig :: tcp_config
  RequestIPIDs :: "u16 list"
  MaximumToleratedRTT :: int
  Bandwidth :: "u64 option"
  PacketsPerSecond :: "u64 option"
  NumberOfInflightProbes :: u64
  Interfaces :: interface_pair
  GoMemoryLimit :: "u64 option"
  UploadConfig :: upload_config
  AnalysisWorkflowConfig :: analysis_workflow_config

end
