(* ===== verification/Measurement.thy ===== *)
theory Measurement
  imports Types
begin

text \<open>
  The measurement context and the layout of a probe: \<^verbatim>\<open>ipid/measurement/measurement.go\<close> (the
  package variables set by \<open>Run\<close> and the sequence expansion of inter-protocol runs),
  \<^verbatim>\<open>ipid/seqnum/seqnum.go\<close>, \<^verbatim>\<open>ipid/port/port.go\<close>, the sender choice of
  \<^verbatim>\<open>ipid/sender/sender.go\<close> and the payload table of \<^verbatim>\<open>ipid/payload/payload.go\<close>.

  A request has a sequence number below \<open>RequestCount\<close>; its logical position is the connection
  index and the request index, and its source address, source port, IP-ID and protocol are
  functions of it. The properties are that the layout is a bijection and that a reply's
  recovered fields lead back to the request they answer.
\<close>

section \<open>The measurement context\<close>

text \<open>
  The package-level variables of \<open>measurement\<close>, \<open>payload\<close> and \<open>sender\<close>. They are written during
  start-up only, so the operations below read them from a record.
\<close>

datatype payload = ICMP | TCP | UdpDns

record mctx =
  Config :: ipid_config
  RequestCount :: u16
  TcpSequenceNumOffset :: u32
  TcpEstablishConnection :: bool
  HasPorts :: bool
  InterProtocols :: "payload_name list"
  InterProtocolPorts :: "payload_name \<rightharpoonup> u16"
  Active :: "payload option"
  SenderA :: ip4
  SenderB :: ip4

definition IsInterProtocol :: "mctx \<Rightarrow> bool" where
  "IsInterProtocol g \<longleftrightarrow> length (InterProtocols g) > 0"

definition BaseSequenceIndex :: "mctx \<Rightarrow> u16 \<Rightarrow> u16" where
  "BaseSequenceIndex g seqNum =
     (if \<not> IsInterProtocol g then seqNum
      else seqNum div of_nat (length (InterProtocols g)))"

definition ProtocolForSequence :: "mctx \<Rightarrow> u16 \<Rightarrow> payload_name" where
  "ProtocolForSequence g seqNum =
     (if \<not> IsInterProtocol g then ZMapPayload (Config g)
      else InterProtocols g ! (unat seqNum mod length (InterProtocols g)))"

definition PortForPayload :: "mctx \<Rightarrow> payload_name \<Rightarrow> u16 option" where
  "PortForPayload g protocol =
     (if IsInterProtocol g then InterProtocolPorts g protocol else ZMapPort (Config g))"

text \<open>\<open>RequestCount\<close> as \<open>Run\<close> computes it, in 16-bit arithmetic.\<close>

definition request_count :: "ipid_config \<Rightarrow> payload_name list \<Rightarrow> u16" where
  "request_count c protocols =
     (let n = ConnectionCount c * RequestsPerConnection c
      in if length protocols > 0 then n * of_nat (length protocols) else n)"

text \<open>\<open>TcpSequenceNumOffset\<close> from the random 64-bit number \<open>Run\<close> draws.\<close>

definition tcp_offset :: "u64 \<Rightarrow> u16 \<Rightarrow> u32" where
  "tcp_offset r n = ucast (r mod (4294967295 - ucast n))"


section \<open>Payloads\<close>

definition ProtocolID :: "payload \<Rightarrow> u8" where
  "ProtocolID p = (case p of ICMP \<Rightarrow> 1 | TCP \<Rightarrow> 6 | UdpDns \<Rightarrow> 17)"

definition payload_ID :: "payload \<Rightarrow> payload_name" where
  "payload_ID p = (case p of ICMP \<Rightarrow> PayloadICMP | TCP \<Rightarrow> PayloadTCP | UdpDns \<Rightarrow> PayloadUDPDNS)"

definition payloads :: "payload_name \<rightharpoonup> payload" where
  "payloads = [PayloadICMP \<mapsto> ICMP, PayloadTCP \<mapsto> TCP, PayloadUDPDNS \<mapsto> UdpDns]"

text \<open>A lookup that misses gives the nil pointer, here \<open>None\<close>; using it panics.\<close>

definition ForSequence :: "mctx \<Rightarrow> u16 \<Rightarrow> payload option" where
  "ForSequence g seqNum =
     (if \<not> IsInterProtocol g then Active g else payloads (ProtocolForSequence g seqNum))"

text \<open>
  \<open>payload.Setup\<close>: selects the active payload and the two derived flags. In a single-protocol
  run an unknown payload name leaves \<open>Active\<close> nil, and reading its \<open>ProtocolID\<close> panics.
\<close>

definition payload_setup :: "mctx \<Rightarrow> mctx option" where
  "payload_setup g =
     (if IsInterProtocol g
      then Some (g\<lparr>Active := None, TcpEstablishConnection := False, HasPorts := True\<rparr>)
      else do {
        a \<leftarrow> payloads (ZMapPayload (Config g));
        Some (g\<lparr>Active := Some a,
                TcpEstablishConnection :=
                  ProtocolID a = 6 \<and> EstablishConnection (TCPConfig (Config g)),
                HasPorts := (ProtocolID a = 6 \<or> ProtocolID a = 17)\<rparr>)
      })"

lemma ProtocolID_simps [simp]:
  "ProtocolID ICMP = 1" "ProtocolID TCP = 6" "ProtocolID UdpDns = 17"
  by (simp_all add: ProtocolID_def)

lemma payloads_simps [simp]:
  "payloads PayloadICMP = Some ICMP" "payloads PayloadTCP = Some TCP"
  "payloads PayloadUDPDNS = Some UdpDns"
  by (simp_all add: payloads_def)

lemma payloads_payload_ID [simp]: "payloads (payload_ID p) = Some p"
  by (cases p) (simp_all add: payload_ID_def)

lemma payloads_Some_iff: "payloads n = Some p \<longleftrightarrow> n = payload_ID p"
  by (cases p) (auto simp: payloads_def payload_ID_def)


section \<open>Sequence numbers, ports and senders\<close>

definition GetConnectionIndex :: "mctx \<Rightarrow> u16 \<Rightarrow> u16" where
  "GetConnectionIndex g seqNum = BaseSequenceIndex g seqNum mod ConnectionCount (Config g)"

definition GetRequestIndex :: "mctx \<Rightarrow> u16 \<Rightarrow> u16" where
  "GetRequestIndex g seqNum = BaseSequenceIndex g seqNum div ConnectionCount (Config g)"

definition TCPSequenceNumber :: "u32 \<Rightarrow> u16 \<Rightarrow> u16 \<Rightarrow> u32" where
  "TCPSequenceNumber offset seqNum connectionCount =
     (let connectionIndex = ucast (seqNum mod connectionCount);
          requestIndex = ucast (seqNum div connectionCount)
      in offset + connectionIndex + requestIndex)"

definition FromTCPAcknowledgment :: "u32 \<Rightarrow> u32 \<Rightarrow> u16 \<Rightarrow> u16 \<Rightarrow> u16 \<Rightarrow> u16 \<Rightarrow> u16 option" where
  "FromTCPAcknowledgment acknowledgment offset destinationPort basePort connectionCount
       requestsPerConnection =
     (if connectionCount = 0 \<or> destinationPort < basePort then None
      else let connectionIndex = destinationPort - basePort in
        if connectionCount \<le> connectionIndex then None
        else let minimumAcknowledgment = offset + ucast connectionIndex + 1 in
          if acknowledgment < minimumAcknowledgment then None
          else let requestIndex = acknowledgment - minimumAcknowledgment in
            if ucast requestsPerConnection \<le> requestIndex then None
            else Some (ucast (requestIndex * ucast connectionCount + ucast connectionIndex :: u32)))"

definition GetSrcPort :: "mctx \<Rightarrow> u16 \<Rightarrow> u16 \<Rightarrow> u16" where
  "GetSrcPort g seqNum basePort =
     basePort + BaseSequenceIndex g seqNum mod ConnectionCount (Config g)"

definition GetSender :: "mctx \<Rightarrow> u16 \<Rightarrow> ip4" where
  "GetSender g seqNum =
     (if BaseSequenceIndex g seqNum mod 2 = 0 then SenderA g else SenderB g)"


section \<open>Well-formed contexts\<close>

text \<open>
  What start-up guarantees. The code divides by \<open>ConnectionCount\<close> and by the number of protocols,
  so a context with a zero count is outside the domain of the operations above; \<open>wf_context\<close>
  excludes it, and the lemma \<open>run_setup_wf\<close> below shows that \<open>Run\<close> establishes \<open>wf_context\<close> for every
  configuration with the validated counts.
\<close>

abbreviation conns :: "mctx \<Rightarrow> nat" where
  "conns g \<equiv> unat (ConnectionCount (Config g))"

abbreviation reqs :: "mctx \<Rightarrow> nat" where
  "reqs g \<equiv> unat (RequestsPerConnection (Config g))"

abbreviation width :: "mctx \<Rightarrow> nat" where
  "width g \<equiv> max 1 (length (InterProtocols g))"

definition wf_context :: "mctx \<Rightarrow> bool" where
  "wf_context g \<longleftrightarrow>
     2 \<le> conns g \<and> 0 < reqs g \<and> length (InterProtocols g) \<le> 3
   \<and> unat (RequestCount g) = conns g * reqs g * width g
   \<and> unat (TcpSequenceNumOffset g) + unat (RequestCount g) + 1 < 2 ^ 32
   \<and> (\<forall>n \<in> set (InterProtocols g). payloads n \<noteq> None)
   \<and> (\<not> IsInterProtocol g \<longrightarrow> Active g \<noteq> None)
   \<and> (case Active g of None \<Rightarrow> True | Some a \<Rightarrow> HasPorts g \<longleftrightarrow> ProtocolID a = 6 \<or> ProtocolID a = 17)
   \<and> (TcpEstablishConnection g \<longrightarrow> \<not> IsInterProtocol g \<and> Active g = Some TCP)"

text \<open>The part of \<open>Run\<close> that fills in the context before any goroutine starts.\<close>

definition run_setup ::
  "ipid_config \<Rightarrow> payload_name list \<Rightarrow> (payload_name \<rightharpoonup> u16) \<Rightarrow> u64 \<Rightarrow> ip4 \<Rightarrow> ip4 \<Rightarrow> mctx option" where
  "run_setup c protocols ports random ipA ipB =
     payload_setup
       \<lparr>Config = c, RequestCount = request_count c protocols,
        TcpSequenceNumOffset = tcp_offset random (request_count c protocols),
        TcpEstablishConnection = False, HasPorts = False,
        InterProtocols = protocols, InterProtocolPorts = ports, Active = None,
        SenderA = ipA, SenderB = ipB\<rparr>"

lemma request_count_no_wrap:
  assumes "unat (ConnectionCount c) \<le> 16" "unat (RequestsPerConnection c) \<le> 100"
    and "length protocols \<le> 3"
  shows "unat (request_count c protocols) =
    unat (ConnectionCount c) * unat (RequestsPerConnection c) * max 1 (length protocols)"
proof -
  have m: "unat (ConnectionCount c) * unat (RequestsPerConnection c) \<le> 1600"
    using mult_le_mono [OF assms(1,2)] by simp
  then have n: "unat (ConnectionCount c * RequestsPerConnection c) =
      unat (ConnectionCount c) * unat (RequestsPerConnection c)"
    by (intro unat_mult_no_wrap) simp
  have l: "unat (of_nat (length protocols) :: u16) = length protocols"
    using assms(3) by (simp add: unat_of_nat take_bit_nat_eq_self)
  have "unat (ConnectionCount c) * unat (RequestsPerConnection c) * length protocols < 65536"
    using mult_le_mono [OF m assms(3)] by simp
  then have "unat (ConnectionCount c * RequestsPerConnection c * of_nat (length protocols)) =
      unat (ConnectionCount c) * unat (RequestsPerConnection c) * length protocols"
    using n l by (subst unat_mult_no_wrap) simp_all
  then show ?thesis
    using n by (cases protocols) (auto simp: request_count_def Let_def)
qed

lemma tcp_offset_bound: "unat (tcp_offset r n) + unat n + 1 < 2 ^ 32"
proof -
  have k: "unat (4294967295 - ucast n :: u64) = 4294967295 - unat n"
  proof -
    have "unat (ucast n :: u64) = unat n"
      using unat_u16_less [of n]
      by (simp add: unsigned_ucast_eq take_bit_nat_eq_self_iff del: unat_u16_less)
    then show ?thesis
      by (subst unat_sub) (simp_all add: word_le_nat_alt le_trans [OF unat_u16_le])
  qed
  have "unat (r mod (4294967295 - ucast n)) < 4294967295 - unat n"
    using unat_u16_le [of n] by (simp add: unat_mod k del: unat_u16_le)
  moreover from this have "unat (tcp_offset r n) = unat (r mod (4294967295 - ucast n))"
    by (simp add: tcp_offset_def unsigned_ucast_eq take_bit_nat_eq_self_iff)
  ultimately show ?thesis by simp
qed

lemma run_setup_wf:
  assumes "2 \<le> unat (ConnectionCount c)" "unat (ConnectionCount c) \<le> 16"
    and "1 \<le> unat (RequestsPerConnection c)" "unat (RequestsPerConnection c) \<le> 100"
    and "length protocols \<le> 3" "\<forall>n \<in> set protocols. payloads n \<noteq> None"
    and "run_setup c protocols ports random ipA ipB = Some g"
  shows "wf_context g"
proof -
  have n: "unat (request_count c protocols) =
      unat (ConnectionCount c) * unat (RequestsPerConnection c) * max 1 (length protocols)"
    using assms by (intro request_count_no_wrap)
  show ?thesis
    using assms n tcp_offset_bound [of random "request_count c protocols"]
    by (auto simp: run_setup_def payload_setup_def wf_context_def IsInterProtocol_def payloads_Some_iff
        payload_ID_def split: if_splits payload.splits bind_splits)
qed


section \<open>The layout of a probe\<close>

lemma unat_base:
  assumes "length (InterProtocols g) \<le> 3"
  shows "unat (BaseSequenceIndex g s) = unat s div width g"
proof -
  have "unat (of_nat (length (InterProtocols g)) :: u16) = length (InterProtocols g)"
    using assms by (simp add: unat_of_nat take_bit_nat_eq_self)
  then show ?thesis
    by (cases "InterProtocols g") (auto simp: BaseSequenceIndex_def IsInterProtocol_def unat_div)
qed

lemma unat_connection: "length (InterProtocols g) \<le> 3 \<Longrightarrow>
    unat (GetConnectionIndex g s) = unat s div width g mod conns g"
  by (simp add: GetConnectionIndex_def unat_mod unat_base)

lemma unat_request: "length (InterProtocols g) \<le> 3 \<Longrightarrow>
    unat (GetRequestIndex g s) = unat s div width g div conns g"
  by (simp add: GetRequestIndex_def unat_div unat_base)

lemma wf_contextD:
  assumes "wf_context g"
  shows "2 \<le> conns g" "0 < reqs g" "length (InterProtocols g) \<le> 3"
    "unat (RequestCount g) = conns g * reqs g * width g"
    "unat (TcpSequenceNumOffset g) + unat (RequestCount g) + 1 < 4294967296"
  using assms by (auto simp: wf_context_def)

lemma wf_connection_less: "wf_context g \<Longrightarrow> unat (GetConnectionIndex g s) < conns g"
  using wf_contextD [of g] by (simp add: unat_connection)

lemma wf_request_less:
  assumes "wf_context g" "unat s < unat (RequestCount g)"
  shows "unat (GetRequestIndex g s) < reqs g"
proof -
  note wf = wf_contextD [OF assms(1)]
  have "unat s < reqs g * conns g * width g"
    using assms(2) wf(4) by (simp add: ac_simps)
  from less_mult_imp_div_less [OF this]
  have "unat s div width g < reqs g * conns g" .
  from less_mult_imp_div_less [OF this]
  have "unat s div width g div conns g < reqs g" .
  then show ?thesis
    using wf by (simp add: unat_request)
qed

lemma position_of_sequence:
  assumes "wf_context g"
  shows "unat s = (unat (GetRequestIndex g s) * conns g + unat (GetConnectionIndex g s)) * width g
           + unat s mod width g"
  using wf_contextD(3) [OF assms] by (simp only: unat_connection unat_request div_mult_mod_eq)

text \<open>
  The sequence layout is a bijection. Every sequence number below the request count splits
  into a connection index below the connection count, a request index below the requests per
  connection and a protocol position, and two sequence numbers that agree in all three are equal.
\<close>

theorem sequence_layout:
  assumes "wf_context g" "s < RequestCount g"
  shows "unat (GetConnectionIndex g s) < conns g \<and> unat (GetRequestIndex g s) < reqs g
    \<and> unat s = (unat (GetRequestIndex g s) * conns g + unat (GetConnectionIndex g s)) * width g
                + unat s mod width g
    \<and> (\<forall>s'. GetConnectionIndex g s' = GetConnectionIndex g s
            \<and> GetRequestIndex g s' = GetRequestIndex g s
            \<and> unat s' mod width g = unat s mod width g \<longrightarrow> s' = s)"
proof (intro conjI allI impI)
  show "unat (GetRequestIndex g s) < reqs g"
    using assms by (intro wf_request_less) (simp_all add: word_less_nat_alt)
next
  fix s'
  assume "GetConnectionIndex g s' = GetConnectionIndex g s
    \<and> GetRequestIndex g s' = GetRequestIndex g s \<and> unat s' mod width g = unat s mod width g"
  then show "s' = s"
    using position_of_sequence [OF assms(1), of s'] position_of_sequence [OF assms(1), of s]
    by (intro u16_eqI) simp
qed (use assms wf_connection_less position_of_sequence in blast)+

definition demo_config :: ipid_config where
  "demo_config = \<lparr>ZMapPayload = PayloadTCP, ZMapPort = Some 80, ConnectionCount = 4,
     RequestsPerConnection = 4, MeasurementMode = MeasurementModeRTBased,
     FixedIntervalConfig = \<lparr>RequestInterval = 20000000, MinimumReplyRate = 4 / 5\<rparr>,
     TCPConfig = \<lparr>EstablishConnection = False, RequestFlags = set_new [TCPFlagSYN],
       ReplyFlags = [SynAckFlagSet]\<rparr>,
     RequestIPIDs = [7, 9], MaximumToleratedRTT = 1000000000,
     Bandwidth = None, PacketsPerSecond = Some 1000, NumberOfInflightProbes = 10,
     Interfaces = \<lparr>if_name = ''eth0'', IPA = ''192.0.2.1'', IPB = ''192.0.2.2''\<rparr>,
     GoMemoryLimit = None,
     UploadConfig = \<lparr>UploadEnable = False, S3Destination = [], DeleteLocal = False\<rparr>,
     AnalysisWorkflowConfig = \<lparr>WorkflowEnable = False, S3Prefix = [], PollInterval = 0,
       WorkflowTimeout = 0\<rparr>\<rparr>"

definition demo_context :: mctx where
  "demo_context = \<lparr>Config = demo_config, RequestCount = 16, TcpSequenceNumOffset = 1000,
     TcpEstablishConnection = False, HasPorts = True, InterProtocols = [],
     InterProtocolPorts = Map.empty, Active = Some TCP,
     SenderA = (192, 0, 2, 1), SenderB = (192, 0, 2, 2)\<rparr>"

lemmas demo_defs = demo_context_def demo_config_def

lemma wf_demo: "wf_context demo_context"
  by (simp add: wf_context_def demo_defs IsInterProtocol_def)

theorem sequence_layout_witness:
  "unat (GetConnectionIndex demo_context 6) = 2 \<and> unat (GetRequestIndex demo_context 6) = 1
   \<and> unat (GetConnectionIndex demo_context 6) < conns demo_context"
  using sequence_layout [OF wf_demo, of 6]
  by (simp add: demo_defs unat_connection unat_request)

text \<open>
  With an even connection count (the configuration demands it) the sender alternates between
  the two source addresses from connection to connection, and every request of one connection,
  whatever its request index and its protocol, leaves from the same source address and port.
\<close>

theorem connection_sender_port:
  assumes "wf_context g" "even (conns g)"
  shows "GetSender g s = (if even (unat (GetConnectionIndex g s)) then SenderA g else SenderB g)
    \<and> GetSrcPort g s basePort = basePort + GetConnectionIndex g s"
proof -
  have "even (unat (GetConnectionIndex g s)) \<longleftrightarrow> even (unat (BaseSequenceIndex g s))"
    using assms(2) by (simp add: GetConnectionIndex_def unat_mod dvd_mod_iff)
  moreover have "BaseSequenceIndex g s mod 2 = 0 \<longleftrightarrow> even (unat (BaseSequenceIndex g s))"
    by (simp add: word_unat_eq_iff unat_mod even_iff_mod_2_eq_zero)
  ultimately show ?thesis
    by (simp add: GetSender_def GetSrcPort_def GetConnectionIndex_def)
qed

theorem connection_sender_port_witness:
  "GetSender demo_context 6 = (192, 0, 2, 1) \<and> GetSrcPort demo_context 7 40000 = 40003"
  using connection_sender_port [OF wf_demo, of 6 40000] connection_sender_port [OF wf_demo, of 7 40000]
  by (simp add: demo_defs GetConnectionIndex_def BaseSequenceIndex_def IsInterProtocol_def)


section \<open>TCP acknowledgments\<close>

text \<open>
  The range conditions under which the sequence space of a target does not wrap: they follow from
  \<open>wf_context\<close> and from the way the port pool is built.
\<close>

definition ack_range :: "u32 \<Rightarrow> u16 \<Rightarrow> u16 \<Rightarrow> u16 \<Rightarrow> bool" where
  "ack_range offset basePort connectionCount requestsPerConnection \<longleftrightarrow>
     0 < unat connectionCount
   \<and> unat basePort + unat connectionCount \<le> 65536
   \<and> unat connectionCount * unat requestsPerConnection < 65536
   \<and> unat offset + unat connectionCount + unat requestsPerConnection < 4294967296"

lemma unat_TCPSequenceNumber:
  assumes "ack_range offset b c r" "unat q < unat c * unat r"
  shows "unat (TCPSequenceNumber offset q c) = unat offset + unat q mod unat c + unat q div unat c"
proof -
  have c: "0 < unat c" "unat offset + unat c + unat r < 4294967296"
    using assms(1) by (simp_all add: ack_range_def)
  have m: "unat q mod unat c < unat c"
    using c by simp
  have d: "unat q div unat c < unat r"
    using less_mult_imp_div_less [of "unat q" "unat r" "unat c"] assms(2) by (simp add: mult.commute)
  have "unat (offset + ucast (q mod c)) = unat offset + unat q mod unat c"
    using c m by (subst unat_add_no_wrap) (simp_all add: unat_mod)
  then show ?thesis
    using c m d unfolding TCPSequenceNumber_def Let_def
    by (subst unat_add_no_wrap) (simp_all add: unat_div)
qed

lemma FromTCPAcknowledgment_nat:
  assumes range: "ack_range offset b c r"
  shows "FromTCPAcknowledgment a offset d b c r =
    (if unat b \<le> unat d \<and> unat d - unat b < unat c
        \<and> unat offset + (unat d - unat b) + 1 \<le> unat a
        \<and> unat a - (unat offset + (unat d - unat b) + 1) < unat r
     then Some (of_nat ((unat a - (unat offset + (unat d - unat b) + 1)) * unat c
                        + (unat d - unat b)))
     else None)"
proof (cases "unat b \<le> unat d \<and> unat d - unat b < unat c")
  case False
  have "b \<le> d \<Longrightarrow> unat (d - b) = unat d - unat b"
    by (simp add: unat_sub_no_wrap)
  then show ?thesis
    using False
    by (auto simp: FromTCPAcknowledgment_def Let_def word_less_nat_alt word_le_nat_alt)
next
  case True
  have c: "0 < unat c" "unat offset + unat c + unat r < 4294967296" "unat c * unat r < 65536"
    using range by (simp_all add: ack_range_def)
  have k: "unat (d - b) = unat d - unat b"
    using True by (intro unat_sub_no_wrap) (simp add: word_le_nat_alt)
  have m: "unat (offset + ucast (d - b) + 1) = unat offset + (unat d - unat b) + 1"
  proof -
    obtain K where K: "unat d - unat b = K" "K < unat c" "unat (d - b) = K"
      using True k by blast
    have "unat (offset + ucast (d - b)) = unat offset + K"
      using c K by (subst unat_add_no_wrap) simp_all
    then show ?thesis
      using c K by (subst unat_add_no_wrap) simp_all
  qed
  show ?thesis
  proof (cases "unat offset + (unat d - unat b) + 1 \<le> unat a
        \<and> unat a - (unat offset + (unat d - unat b) + 1) < unat r")
    case False
    have "offset + ucast (d - b) + 1 \<le> a \<Longrightarrow>
        unat (a - (offset + ucast (d - b) + 1)) = unat a - (unat offset + (unat d - unat b) + 1)"
      using m by (simp add: unat_sub_no_wrap)
    then show ?thesis
      using True False k c m
      by (auto simp: FromTCPAcknowledgment_def Let_def word_less_nat_alt word_le_nat_alt
          word_unat_eq_iff)
  next
    case inner: True
    define q where "q = unat a - (unat offset + (unat d - unat b) + 1)"
    have q: "unat (a - (offset + ucast (d - b) + 1)) = q"
      using inner m by (simp add: q_def unat_sub_no_wrap word_le_nat_alt)
    have "Suc q * unat c \<le> unat r * unat c"
      using inner by (intro mult_le_mono1) (simp add: q_def)
    then have lim: "q * unat c + unat c \<le> unat c * unat r"
      by (simp add: mult.commute)
    have "unat ((a - (offset + ucast (d - b) + 1)) * ucast c + ucast (d - b)) =
        q * unat c + (unat d - unat b)"
    proof -
      have "unat ((a - (offset + ucast (d - b) + 1)) * ucast c) = q * unat c"
        using q lim c by (subst unat_mult_no_wrap) simp_all
      moreover obtain K where "unat d - unat b = K" "K < unat c" "unat (d - b) = K"
        using True k by blast
      ultimately show ?thesis
        using lim c by (subst unat_add_no_wrap) simp_all
    qed
    then have "ucast ((a - (offset + ucast (d - b) + 1)) * ucast c + ucast (d - b) :: u32) =
        (of_nat (q * unat c + (unat d - unat b)) :: u16)"
      by (metis of_nat_unat)
    then show ?thesis
      using True inner k c m q q_def
      by (auto simp: FromTCPAcknowledgment_def Let_def word_less_nat_alt word_le_nat_alt
          word_unat_eq_iff)
  qed
qed

lemma ack_recovered:
  assumes range: "ack_range offset b c r" and L: "FromTCPAcknowledgment a offset d b c r = Some q"
  shows "unat q < unat c * unat r" "d = b + q mod c" "a = TCPSequenceNumber offset q c + 1"
proof -
  have c: "0 < unat c" "unat offset + unat c + unat r < 4294967296" "unat c * unat r < 65536"
    "unat b + unat c \<le> 65536"
    using range by (simp_all add: ack_range_def)
  define k n where "k = unat d - unat b" and "n = unat a - (unat offset + k + 1)"
  have "(if unat b \<le> unat d \<and> k < unat c \<and> unat offset + k + 1 \<le> unat a \<and> n < unat r
      then Some (of_nat (n * unat c + k)) else None) = Some q"
    using L unfolding FromTCPAcknowledgment_nat [OF range] k_def n_def .
  then have g: "unat b \<le> unat d" "k < unat c" "unat offset + k + 1 \<le> unat a" "n < unat r"
    and q: "q = of_nat (n * unat c + k)"
    by (simp_all split: if_splits del: of_nat_add of_nat_mult)
  have "Suc n * unat c \<le> unat r * unat c"
    using g by (intro mult_le_mono1) simp
  then have lim: "n * unat c + k < unat c * unat r"
    using g(2) by (simp add: mult.commute)
  then have uq: "unat q = n * unat c + k"
    using q c by (simp add: unat_of_nat take_bit_nat_eq_self del: of_nat_add of_nat_mult)
  have qm: "unat q mod unat c = k" "unat q div unat c = n"
    using uq g(2) by simp_all
  have "unat (b + q mod c) = unat b + k"
    using qm(1) g(2) c by (subst unat_add_no_wrap) (simp_all add: unat_mod)
  then show "d = b + q mod c"
    using g(1) by (intro u16_eqI) (simp add: k_def)
  have "unat (TCPSequenceNumber offset q c + 1) = unat offset + k + n + 1"
    using unat_TCPSequenceNumber [OF range, of q] uq lim qm c g
    by (subst unat_add_no_wrap) simp_all
  then show "a = TCPSequenceNumber offset q c + 1"
    using g by (intro u32_eqI) (simp add: n_def)
  show "unat q < unat c * unat r"
    using uq lim by simp
qed

lemma ack_recovers:
  assumes range: "ack_range offset b c r" and q: "unat q < unat c * unat r"
  shows "FromTCPAcknowledgment (TCPSequenceNumber offset q c + 1) offset (b + q mod c) b c r = Some q"
proof -
  have c: "0 < unat c" "unat offset + unat c + unat r < 4294967296" "unat b + unat c \<le> 65536"
    using range by (simp_all add: ack_range_def)
  have m: "unat q mod unat c < unat c" and d: "unat q div unat c < unat r"
    using q c less_mult_imp_div_less [of "unat q" "unat r" "unat c"] by (simp_all add: mult.commute)
  have "unat b + unat q mod unat c < 65536"
    using m c by linarith
  then have ud: "unat (b + q mod c) = unat b + unat q mod unat c"
    by (subst unat_add_no_wrap) (simp_all add: unat_mod)
  have "unat offset + unat q mod unat c + unat q div unat c + 1 < 4294967296"
    using m d c by linarith
  then have ua: "unat (TCPSequenceNumber offset q c + 1) = unat offset + unat q mod unat c + unat q div unat c + 1"
    using q unat_TCPSequenceNumber [OF range, of q] by (subst unat_add_no_wrap) simp_all
  show ?thesis
    using m d by (simp add: FromTCPAcknowledgment_nat [OF range] ud ua div_mult_mod_eq)
qed

text \<open>
  A TCP acknowledgment and destination port are mapped back to a request exactly when they are
  the ones that request provokes: the port is the request's source port and the acknowledgment is
  one past the sequence number the request was sent with. Any other pair is rejected.
\<close>

theorem FromTCPAcknowledgment_inverse:
  assumes "ack_range offset b c r"
  shows "FromTCPAcknowledgment a offset d b c r = Some q \<longleftrightarrow>
    unat q < unat c * unat r \<and> d = b + q mod c \<and> a = TCPSequenceNumber offset q c + 1"
  using ack_recovered [OF assms, of a d q] ack_recovers [OF assms, of q] by blast

theorem FromTCPAcknowledgment_inverse_witness:
  "FromTCPAcknowledgment 1004 1000 40002 40000 4 4 = Some 6"
proof -
  have "ack_range 1000 40000 4 4" by (simp add: ack_range_def)
  from FromTCPAcknowledgment_inverse [OF this, of 1004 40002 6] show ?thesis
    by (simp add: TCPSequenceNumber_def)
qed

end
