(* ===== verification/Port.thy ===== *)
theory Port
  imports Measurement
begin

text \<open>
  \<^verbatim>\<open>ipid/port/port.go\<close>: the pool of source base ports. \<open>Setup\<close> lists every base port whose
  connection range still fits below 65536 and shuffles the list; \<open>Next\<close> hands the ports out
  round-robin through an atomic 64-bit counter. The draws of \<open>rand.Shuffle\<close> are a parameter: for
  each position \<open>i\<close>, a number that the library reduces below \<open>i + 1\<close>.
\<close>

section \<open>The pool\<close>

record port_pool =
  pool_ports :: "u16 list"
  pool_index :: u64

definition swap :: "'a list \<Rightarrow> nat \<Rightarrow> nat \<Rightarrow> 'a list" where
  "swap xs i j = xs[i := xs ! j, j := xs ! i]"

text \<open>\<open>rand.Shuffle\<close> (Fisher-Yates): positions \<open>n\<close>, \<open>n - 1\<close>, \<dots>, 1.\<close>

fun shuffle_from :: "(nat \<Rightarrow> nat) \<Rightarrow> nat \<Rightarrow> 'a list \<Rightarrow> 'a list" where
  "shuffle_from draw 0 xs = xs"
| "shuffle_from draw (Suc i) xs =
     shuffle_from draw i (swap xs (Suc i) (draw (Suc i) mod Suc (Suc i)))"

definition max_base_port :: "u16 \<Rightarrow> u16" where
  "max_base_port connectionCount = 65535 - (connectionCount - 1)"

definition port_setup :: "(nat \<Rightarrow> nat) \<Rightarrow> u16 \<Rightarrow> port_pool" where
  "port_setup draw connectionCount =
     (let minPort = 1024 :: u16;
          maxPort = max_base_port connectionCount;
          size = unat (maxPort - minPort) + 1;
          ports = map (\<lambda>i. minPort + of_nat i) [0..<size]
      in \<lparr>pool_ports = shuffle_from draw (size - 1) ports, pool_index = 0\<rparr>)"

text \<open>\<open>Next\<close>: the atomic increment returns the new value; an empty pool would divide by zero.\<close>

definition port_next :: "port_pool \<Rightarrow> (u16 \<times> port_pool) option" where
  "port_next p =
     (let i = pool_index p + 1 - 1; n = of_nat (length (pool_ports p)) :: u64
      in if n = 0 then None
         else do {
           port \<leftarrow> nth_opt (pool_ports p) (unat (i mod n));
           Some (port, p\<lparr>pool_index := pool_index p + 1\<rparr>)
         })"

fun port_take :: "nat \<Rightarrow> port_pool \<Rightarrow> (u16 list \<times> port_pool) option" where
  "port_take 0 p = Some ([], p)"
| "port_take (Suc n) p = do {
     (x, p') \<leftarrow> port_next p;
     (xs, p'') \<leftarrow> port_take n p';
     Some (x # xs, p'')
   }"


section \<open>What the pool hands out\<close>

lemma length_swap [simp]: "length (swap xs i j) = length xs"
  by (simp add: swap_def)

lemma length_shuffle [simp]: "length (shuffle_from draw n xs) = length xs"
  by (induction draw n xs rule: shuffle_from.induct) auto

lemma swap_distinct_set:
  "i < length xs \<Longrightarrow> j < length xs \<Longrightarrow>
     distinct (swap xs i j) = distinct xs \<and> set (swap xs i j) = set xs"
  by (simp add: swap_def distinct_swap)

lemma shuffle_distinct_set:
  "n < length xs \<Longrightarrow>
     distinct (shuffle_from draw n xs) = distinct xs \<and> set (shuffle_from draw n xs) = set xs"
proof (induction n arbitrary: xs)
  case 0
  then show ?case by simp
next
  case (Suc n)
  define j where "j = draw (Suc n) mod Suc (Suc n)"
  have "j < Suc (Suc n)" by (simp add: j_def)
  then have j: "j < length xs" using Suc.prems by linarith
  show ?case
    using Suc.IH [of "swap xs (Suc n) j"] Suc.prems swap_distinct_set [OF Suc.prems j]
    by (simp add: j_def)
qed

lemma unat_max_base_port:
  assumes "2 \<le> unat c" "unat c \<le> 16"
  shows "unat (max_base_port c) = 65536 - unat c"
proof -
  have "unat (c - 1) = unat c - 1"
    using assms by (subst unat_sub_no_wrap) (simp_all add: word_le_nat_alt)
  then show ?thesis
    using assms unfolding max_base_port_def
    by (subst unat_sub_no_wrap) (simp_all add: word_le_nat_alt)
qed

lemma pool_of_setup:
  assumes "2 \<le> unat c" "unat c \<le> 16"
  shows "distinct (pool_ports (port_setup draw c))
    \<and> set (pool_ports (port_setup draw c)) = {p. 1024 \<le> unat p \<and> unat p + unat c \<le> 65536}
    \<and> length (pool_ports (port_setup draw c)) = 64513 - unat c"
proof -
  define size where "size = 64513 - unat c"
  define ports :: "u16 list" where "ports = map (\<lambda>i. 1024 + of_nat i) [0..<size]"
  have un: "unat (1024 + of_nat i :: u16) = 1024 + i" if "i < size" for i
    using that assms by (simp add: unat_add_no_wrap unat_of_nat take_bit_nat_eq_self size_def)
  have sz: "unat (max_base_port c - 1024) + 1 = size"
    using assms unat_max_base_port [OF assms]
    by (subst unat_sub_no_wrap) (simp_all add: word_le_nat_alt size_def)
  have s: "pool_ports (port_setup draw c) = shuffle_from draw (size - 1) ports"
    unfolding port_setup_def Let_def sz ports_def by simp
  have "inj_on (\<lambda>i. 1024 + of_nat i :: u16) {0..<size}"
    using un by (intro inj_onI) (metis add_left_cancel atLeastLessThan_iff)
  then have d: "distinct ports"
    by (simp add: ports_def distinct_map)
  have "set ports = {p. 1024 \<le> unat p \<and> unat p + unat c \<le> 65536}"
  proof (intro set_eqI iffI)
    fix p assume "p \<in> set ports"
    then show "p \<in> {p. 1024 \<le> unat p \<and> unat p + unat c \<le> 65536}"
      using un assms by (auto simp: ports_def size_def)
  next
    fix p :: u16 assume p: "p \<in> {p. 1024 \<le> unat p \<and> unat p + unat c \<le> 65536}"
    then have i: "unat p - 1024 < size" using assms by (auto simp: size_def)
    then have "p = 1024 + of_nat (unat p - 1024)"
      using un [OF i] p by (intro u16_eqI) simp
    then show "p \<in> set ports"
      using i unfolding ports_def by force
  qed
  moreover have "size - 1 < length ports"
    using assms by (simp add: ports_def size_def)
  ultimately show ?thesis
    using d s shuffle_distinct_set [of "size - 1" ports draw] by (simp add: ports_def size_def)
qed

lemma port_next_setup:
  assumes "pool_ports p \<noteq> []" "length (pool_ports p) < 2 ^ 64"
  shows "port_next p =
    Some (pool_ports p ! (unat (pool_index p) mod length (pool_ports p)),
          p\<lparr>pool_index := pool_index p + 1\<rparr>)"
proof -
  have n: "unat (of_nat (length (pool_ports p)) :: u64) = length (pool_ports p)"
    using assms(2) by (simp add: unat_of_nat take_bit_nat_eq_self)
  then have "(of_nat (length (pool_ports p)) :: u64) \<noteq> 0"
    using assms(1) by (metis length_0_conv unat_0)
  then show ?thesis
    using n assms(1) by (simp add: port_next_def Let_def unat_mod)
qed

lemma port_take_ports:
  assumes "pool_ports p \<noteq> []" "length (pool_ports p) < 2 ^ 64"
    and "unat (pool_index p) + n < 2 ^ 64"
  shows "\<exists>p'. port_take n p =
    Some (map (\<lambda>k. pool_ports p ! ((unat (pool_index p) + k) mod length (pool_ports p))) [0..<n], p')"
  using assms
proof (induction n arbitrary: p)
  case 0
  then show ?case by simp
next
  case (Suc n)
  let ?p = "p\<lparr>pool_index := pool_index p + 1\<rparr>"
  have i: "unat (pool_index p + 1) = unat (pool_index p) + 1"
    using Suc.prems(3) by (subst unat_add_no_wrap) simp_all
  then obtain p' where "port_take n ?p =
      Some (map (\<lambda>k. pool_ports p ! ((unat (pool_index p) + 1 + k) mod length (pool_ports p))) [0..<n], p')"
    using Suc.IH [of ?p] Suc.prems by auto
  moreover have "map (\<lambda>k. pool_ports p ! ((unat (pool_index p) + k) mod length (pool_ports p))) [0..<Suc n] =
      pool_ports p ! (unat (pool_index p) mod length (pool_ports p))
      # map (\<lambda>k. pool_ports p ! ((unat (pool_index p) + 1 + k) mod length (pool_ports p))) [0..<n]"
    by (simp only: map_upt_Suc) simp
  ultimately show ?case
    using port_next_setup [OF Suc.prems(1,2)] by (simp del: upt_Suc)
qed

text \<open>
  A freshly set-up pool gives out, over one round of as many calls as it has ports, every base
  port exactly once, and none other than the ports from 1024 on whose whole connection range lies
  below 65536, whatever the shuffle drew. So the source port of no connection wraps around.
\<close>

theorem port_pool_round:
  assumes "2 \<le> unat c" "unat c \<le> 16"
  shows "\<exists>ps p'. port_take (64513 - unat c) (port_setup draw c) = Some (ps, p') \<and> distinct ps
    \<and> set ps = {p. 1024 \<le> unat p \<and> unat p + unat c \<le> 65536}"
proof -
  let ?p = "port_setup draw c"
  note pool = pool_of_setup [OF assms, of draw]
  have "0 < length (pool_ports ?p)" "length (pool_ports ?p) < 2 ^ 64"
    using pool assms by simp_all
  moreover have "pool_index ?p = 0"
    by (simp add: port_setup_def Let_def)
  ultimately have ne: "pool_ports ?p \<noteq> []" "length (pool_ports ?p) < 2 ^ 64" "pool_index ?p = 0"
    by simp_all
  then obtain p' where "port_take (length (pool_ports ?p)) ?p =
      Some (map (\<lambda>k. pool_ports ?p ! (k mod length (pool_ports ?p))) [0..<length (pool_ports ?p)], p')"
    using port_take_ports [of ?p "length (pool_ports ?p)"] by auto
  moreover have "map (\<lambda>k. pool_ports ?p ! (k mod length (pool_ports ?p))) [0..<length (pool_ports ?p)]
      = pool_ports ?p"
    by (rule nth_equalityI) simp_all
  ultimately show ?thesis
    using pool by auto
qed

theorem port_pool_round_witness:
  "\<exists>ps p'. port_take 64509 (port_setup (\<lambda>i. 3 * i + 1) 4) = Some (ps, p') \<and> distinct ps
    \<and> set ps = {p. 1024 \<le> unat p \<and> unat p + 4 \<le> 65536}"
  using port_pool_round [of 4 "\<lambda>i. 3 * i + 1"] by simp

end
