(* ===== verification/Checksum.thy ===== *)
theory Checksum
  imports Prelude
begin

unbundle bit_operations_syntax

text \<open>
  \<^verbatim>\<open>ipid/checksum/checksum.go\<close>: the Internet checksum of RFC 1071, with its 32-bit accumulator,
  its carry loop and its complement. It is related to an arithmetic specification (the
  one's-complement sum of the big-endian 16-bit words) and shown to verify to zero once the field
  is filled in.
\<close>

section \<open>The code\<close>

text \<open>The two summing steps: all 16-bit words, then the last byte of an odd-length input.\<close>

fun sum_words :: "u32 \<Rightarrow> u8 list \<Rightarrow> u32" where
  "sum_words s (x # y # rest) = sum_words (s + (push_bit 8 (ucast x) + ucast y)) rest"
| "sum_words s [x] = s + push_bit 8 (ucast x)"
| "sum_words s [] = s"

function fold_carry :: "u32 \<Rightarrow> u32" where
  "fold_carry s = (if drop_bit 16 s \<noteq> 0 then fold_carry ((s AND 0xFFFF) + drop_bit 16 s) else s)"
  by pat_completeness auto

lemma and_mask16: "unat ((s :: u32) AND 0xFFFF) = unat s mod 65536"
proof -
  have "s AND 0xFFFF = take_bit 16 s"
    by (simp add: take_bit_eq_mask mask_eq_exp_minus_1)
  then show ?thesis
    by (simp add: take_bit_eq_mod unat_mod)
qed

lemma drop16: "unat (drop_bit 16 (s :: u32)) = unat s div 65536"
  by (simp add: drop_bit_eq_div unat_div)

lemma carry_step: "unat ((s AND 0xFFFF) + drop_bit 16 (s :: u32)) = unat s mod 65536 + unat s div 65536"
proof -
  have "unat s div 65536 < 65536"
    by (rule less_mult_imp_div_less) simp
  then show ?thesis
    by (subst unat_add_no_wrap) (simp_all add: and_mask16 drop16)
qed

lemma drop16_zero_iff: "drop_bit 16 (s :: u32) = 0 \<longleftrightarrow> unat s < 65536"
  by (simp add: word_unat_eq_iff drop16 div_eq_0_iff)

termination fold_carry
proof (relation "measure unat")
  fix s :: u32
  assume "drop_bit 16 s \<noteq> 0"
  then have "65536 \<le> unat s" by (simp add: drop16_zero_iff)
  define q r where "q = unat s div 65536" and "r = unat s mod 65536"
  have "unat s = 65536 * q + r" "1 \<le> q"
    using \<open>65536 \<le> unat s\<close> by (simp_all add: q_def r_def)
  then have "unat s mod 65536 + unat s div 65536 < unat s"
    unfolding q_def [symmetric] r_def [symmetric] by linarith
  then show "((s AND 0xFFFF) + drop_bit 16 s, s) \<in> measure unat"
    by (simp add: carry_step)
qed simp

declare fold_carry.simps [simp del]

definition Compute :: "u8 list \<Rightarrow> u16" where
  "Compute data = ucast (NOT (fold_carry (sum_words 0 data)))"


section \<open>The one's-complement sum\<close>

text \<open>The specification: big-endian words added as natural numbers, reduced by end-around carry.\<close>

fun word_sum :: "u8 list \<Rightarrow> nat" where
  "word_sum (x # y # rest) = 256 * unat x + unat y + word_sum rest"
| "word_sum [x] = 256 * unat x"
| "word_sum [] = 0"

definition ones_sum :: "nat \<Rightarrow> nat" where
  "ones_sum v = (if v = 0 then 0 else (v - 1) mod 65535 + 1)"

lemma word_sum_bound: "word_sum d \<le> 65535 * ((length d + 1) div 2)"
proof (induction d rule: word_sum.induct)
  case (1 x y rest)
  have "256 * unat x + unat y \<le> 65535"
    using unat_u8_le [of x] unat_u8_le [of y] by linarith
  then show ?case using "1" by simp
next
  case (2 x)
  have "256 * unat x \<le> 65535"
    using unat_u8_le [of x] by linarith
  then show ?case by simp
next
  case 3
  then show ?case by simp
qed

lemma unat_push8: "unat (push_bit 8 (ucast (x :: u8)) :: u32) = 256 * unat x"
proof -
  have "256 * unat x < 4294967296"
    using unat_u8_le [of x] by linarith
  moreover have "push_bit 8 (ucast x :: u32) = 256 * ucast x"
    by (simp add: push_bit_eq_mult mult.commute)
  ultimately show ?thesis
    by (simp add: unat_mult_no_wrap)
qed

lemma unat_sum_words:
  "unat s + word_sum d < 4294967296 \<Longrightarrow> unat (sum_words s d) = unat s + word_sum d"
proof (induction s d rule: sum_words.induct)
  case (1 s x y rest)
  have "unat (push_bit 8 (ucast x) + ucast y :: u32) = 256 * unat x + unat y"
    using "1.prems" by (subst unat_add_no_wrap) (simp_all add: unat_push8)
  then have "unat (s + (push_bit 8 (ucast x) + ucast y)) = unat s + (256 * unat x + unat y)"
    using "1.prems" by (subst unat_add_no_wrap) simp_all
  then show ?case using "1" by simp
next
  case (2 s x)
  then show ?case by (simp add: unat_add_no_wrap unat_push8)
next
  case (3 s)
  then show ?case by simp
qed

lemma ones_sum_carry: "65536 \<le> v \<Longrightarrow> ones_sum (v mod 65536 + v div 65536) = ones_sum v"
proof -
  assume v: "65536 \<le> v"
  define q r where "q = v div 65536" and "r = v mod 65536"
  have "v = 65536 * q + r" and q: "1 \<le> q" using v by (simp_all add: q_def r_def)
  then have "v - 1 = (r + q - 1) + 65535 * q" by simp
  then have "(v - 1) mod 65535 = (r + q - 1) mod 65535" by (metis mod_mult_self2)
  then show ?thesis using v q unfolding ones_sum_def q_def [symmetric] r_def [symmetric] by simp
qed

lemma unat_fold_carry: "unat (fold_carry s) = ones_sum (unat s)"
proof (induction s rule: fold_carry.induct)
  case (1 s)
  show ?case
  proof (cases "unat s < 65536")
    case True
    then have "fold_carry s = s"
      using drop16_zero_iff [of s] by (simp add: fold_carry.simps [of s])
    then show ?thesis using True by (simp add: ones_sum_def)
  next
    case False
    then have "fold_carry s = fold_carry ((s AND 0xFFFF) + drop_bit 16 s)"
      using drop16_zero_iff [of s] by (simp add: fold_carry.simps [of s])
    then show ?thesis
      using "1" False drop16_zero_iff [of s] ones_sum_carry [of "unat s"] by (simp add: carry_step)
  qed
qed

lemma ones_sum_le: "ones_sum v \<le> 65535"
proof -
  have "(v - 1) mod 65535 < 65535"
    by (rule mod_less_divisor) simp
  then have "(v - 1) mod 65535 + 1 \<le> 65535" by linarith
  then show ?thesis unfolding ones_sum_def by presburger
qed

lemma unat_not: "unat (NOT w) = 2 ^ LENGTH('a) - 1 - unat w" for w :: "'a::len word"
proof -
  have "NOT w = - 1 - w"
    by (simp add: not_eq_complement)
  moreover have "w \<le> - 1" by simp
  moreover have "unat (- 1 :: 'a word) = 2 ^ LENGTH('a) - 1"
    by (simp add: unsigned_minus_1_eq_mask mask_eq_exp_minus_1)
  ultimately show ?thesis
    by (simp only: unat_sub_no_wrap)
qed

lemma unat_ucast_not: "unat (ucast (NOT (s :: u32)) :: u16) = 65535 - unat s mod 65536"
proof -
  have "ucast (NOT s) = NOT (ucast s :: u16)"
    by (rule bit_word_eqI) (simp add: bit_simps)
  moreover have "unat (ucast s :: u16) = unat s mod 65536"
    by (simp add: unsigned_ucast_eq take_bit_eq_mod)
  ultimately show ?thesis
    by (simp add: unat_not)
qed


text \<open>
  For every input of at most 65535 bytes (an IPv4 packet) the checksum is the complement of the
  one's-complement sum of its 16-bit words; the 32-bit accumulator does not overflow.
\<close>

theorem Compute_spec:
  assumes "length data \<le> 65535"
  shows "unat (Compute data) = 65535 - ones_sum (word_sum data)"
proof -
  have "(length data + 1) div 2 \<le> 32768"
    using assms by linarith
  then have "word_sum data \<le> 65535 * 32768"
    using word_sum_bound [of data] mult_le_mono2 [of "(length data + 1) div 2" 32768 65535] by linarith
  then have "unat (sum_words 0 data) = word_sum data"
    using unat_sum_words [of 0 data] by simp
  then have "unat (fold_carry (sum_words 0 data)) = ones_sum (word_sum data)"
    by (simp add: unat_fold_carry)
  moreover have "ones_sum (word_sum data) mod 65536 = ones_sum (word_sum data)"
    using ones_sum_le [of "word_sum data"] by simp
  ultimately show ?thesis
    by (simp add: Compute_def unat_ucast_not)
qed

theorem Compute_spec_witness:
  "unat (Compute [0x45, 0, 0, 0x1c, 0xff, 0xff, 0x80]) = 15075"
  using Compute_spec [of "[0x45, 0, 0, 0x1c, 0xff, 0xff, 0x80]"] by (simp add: ones_sum_def)


section \<open>Filling in the field\<close>

text \<open>Writing a big-endian 16-bit value at an even offset changes one word of the sum.\<close>

definition hi8 :: "u16 \<Rightarrow> u8" where "hi8 v = ucast (drop_bit 8 v)"
definition lo8 :: "u16 \<Rightarrow> u8" where "lo8 v = ucast v"

lemma unat_hi8: "unat (hi8 v) = unat v div 256"
proof -
  have "unat v div 256 < 256"
    by (rule less_mult_imp_div_less) simp
  then show ?thesis
    by (simp add: hi8_def unsigned_ucast_eq drop_bit_eq_div unat_div take_bit_nat_eq_self)
qed

lemma unat_lo8: "unat (lo8 v) = unat v mod 256"
  by (simp add: lo8_def unsigned_ucast_eq take_bit_eq_mod)

lemma word_sum_update:
  "even k \<Longrightarrow> Suc k < length d \<Longrightarrow>
   word_sum (d[k := hi8 v, Suc k := lo8 v]) + (256 * unat (d ! k) + unat (d ! Suc k)) =
   word_sum d + unat v"
proof (induction d arbitrary: k rule: word_sum.induct)
  case (1 x y rest)
  show ?case
  proof (cases k)
    case 0
    then show ?thesis by (simp add: unat_hi8 unat_lo8)
  next
    case (Suc m)
    then obtain j where j: "k = Suc (Suc j)" "even j"
      using "1.prems"(1) by (cases m) auto
    then show ?thesis using "1.IH" [of j] "1.prems"(2) by simp
  qed
qed auto

lemma word_sum_append: "even (length xs) \<Longrightarrow> word_sum (xs @ ys) = word_sum xs + word_sum ys"
  by (induction xs rule: word_sum.induct) auto

lemma ones_sum_complement: "ones_sum (v + (65535 - ones_sum v)) = 65535"
proof (cases "v = 0")
  case True
  then show ?thesis by (simp add: ones_sum_def)
next
  case False
  define q r where "q = (v - 1) div 65535" and "r = (v - 1) mod 65535"
  have "v = 65535 * q + r + 1" "r < 65535" "ones_sum v = r + 1"
    using False by (simp_all add: q_def r_def ones_sum_def)
  then have "v + (65535 - ones_sum v) - 1 = 65534 + 65535 * q" by simp
  then have "(v + (65535 - ones_sum v) - 1) mod 65535 = 65534"
    by (simp only: mod_mult_self2) simp
  then show ?thesis using False by (simp add: ones_sum_def [of "v + (65535 - ones_sum v)"])
qed

text \<open>
  A packet area that carries its own checksum verifies: computing the checksum with the 16-bit
  field at an even offset set to zero and storing the result there, big-endian, makes the checksum
  of the whole area zero, which is what a receiver tests.
\<close>

theorem Compute_verifies:
  assumes "length data \<le> 65535" "even k" "Suc k < length data"
    and zero: "data ! k = 0" "data ! Suc k = 0"
  shows "Compute (data[k := hi8 (Compute data), Suc k := lo8 (Compute data)]) = 0"
proof -
  let ?d = "data[k := hi8 (Compute data), Suc k := lo8 (Compute data)]"
  have "word_sum ?d = word_sum data + (65535 - ones_sum (word_sum data))"
    using word_sum_update [OF assms(2,3), of "Compute data"] zero Compute_spec [OF assms(1)] by simp
  then have "ones_sum (word_sum ?d) = 65535"
    by (simp add: ones_sum_complement)
  then have "unat (Compute ?d) = 0"
    using Compute_spec [of ?d] assms(1) by simp
  then show ?thesis by (simp add: word_unat_eq_iff)
qed

theorem Compute_verifies_witness:
  "let d = [0x45, 0, 0, 0, 0xab, 0xcd, 7 :: u8] in
     Compute (d[2 := hi8 (Compute d), Suc 2 := lo8 (Compute d)]) = 0"
  using Compute_verifies [of "[0x45, 0, 0, 0, 0xab, 0xcd, 7]" 2] by (simp add: Let_def)

end
