(* ===== verification/Layers.thy ===== *)
theory Layers
  imports Measurement
begin

text \<open>
  The protocol layers a request is made of: \<^verbatim>\<open>ipid/ip/ip.go\<close>, \<^verbatim>\<open>ipid/tcp/tcp.go\<close>,
  \<^verbatim>\<open>ipid/udp/udp.go\<close>, \<^verbatim>\<open>ipid/icmp/icmp.go\<close>, \<^verbatim>\<open>ipid/dns/dns.go\<close> and the payload packages under
  \<^verbatim>\<open>ipid/payload\<close>. The layer structs belong to gopacket; the records hold the fields the code
  writes or reads. Turning layers into bytes is gopacket's own work and stays a parameter
  (\<open>serialize\<close>) of the packet templates.
\<close>

section \<open>Layer structs\<close>

record ipv4_layer =
  ip_Version :: u8
  ip_TTL :: u8
  ip_Id :: u16
  ip_Flags :: u8
  ip_Protocol :: u8
  ip_SrcIP :: ip4
  ip_DstIP :: ip4

record tcp_layer =
  tcp_SrcPort :: u16
  tcp_DstPort :: u16
  tcp_Seq :: u32
  tcp_Ack :: u32
  FIN :: bool
  SYN :: bool
  RST :: bool
  PSH :: bool
  ACK :: bool
  URG :: bool
  ECE :: bool
  CWR :: bool
  NS :: bool
  Window :: u16

record udp_layer =
  udp_SrcPort :: u16
  udp_DstPort :: u16

record icmp_layer =
  icmp_Type :: u8
  icmp_Code :: u8
  icmp_Seq :: u16

record dns_layer =
  dns_ID :: u16
  dns_QR :: bool
  dns_AA :: bool
  dns_TC :: bool
  dns_RD :: bool
  dns_RA :: bool
  dns_QName :: string

datatype layer =
    IPv4Layer ipv4_layer
  | TCPLayer tcp_layer
  | UDPLayer udp_layer
  | ICMPLayer icmp_layer
  | DNSLayer dns_layer
  | PayloadLayer "u8 list"


section \<open>Building layers\<close>

definition ip_Layer :: "u16 \<Rightarrow> ip4 \<Rightarrow> u8 \<Rightarrow> ipv4_layer" where
  "ip_Layer ipID senderIP protocol =
     \<lparr>ip_Version = 4, ip_TTL = 64, ip_Id = ipID, ip_Flags = 0, ip_Protocol = protocol,
      ip_SrcIP = senderIP, ip_DstIP = (0, 0, 0, 0)\<rparr>"

text \<open>The bytes of the HTTP request the established connections send one by one.\<close>

definition http_payload :: "u8 list" where
  "http_payload = map of_char ''GET / HTTP/1.1'' @ [13, 10, 13, 10]"

definition tcp_Payload :: "u16 \<Rightarrow> u8" where
  "tcp_Payload seqNum = http_payload ! (unat seqNum mod length http_payload)"

text \<open>
  \<open>tcp.Layer\<close>: \<open>None\<close> for the overwritten flags is the nil set, and a context without a TCP port is
  the nil pointer the code would dereference.
\<close>

definition tcp_Layer :: "mctx \<Rightarrow> u16 \<Rightarrow> flag_set option \<Rightarrow> tcp_layer option" where
  "tcp_Layer g seqNum overwriteRequestFlags =
     (let flags = (case overwriteRequestFlags of
                     None \<Rightarrow> RequestFlags (TCPConfig (Config g)) | Some f \<Rightarrow> f);
          tcpSequenceNumber =
            (if TcpEstablishConnection g
             then TCPSequenceNumber (TcpSequenceNumOffset g) seqNum (ConnectionCount (Config g))
             else TcpSequenceNumOffset g + ucast seqNum)
      in do {
        port \<leftarrow> PortForPayload g PayloadTCP;
        Some \<lparr>tcp_SrcPort = 0, tcp_DstPort = port, tcp_Seq = tcpSequenceNumber, tcp_Ack = 0,
          FIN = set_contains flags TCPFlagFIN, SYN = set_contains flags TCPFlagSYN,
          RST = set_contains flags TCPFlagRST, PSH = set_contains flags TCPFlagPSH,
          ACK = set_contains flags TCPFlagACK, URG = set_contains flags TCPFlagURG,
          ECE = set_contains flags TCPFlagECE, CWR = set_contains flags TCPFlagCWR,
          NS = set_contains flags TCPFlagNS, Window = 512\<rparr>
      })"

definition add_flag :: "bool \<Rightarrow> flag \<Rightarrow> flag_set \<Rightarrow> flag_set" where
  "add_flag enabled f flags = (if enabled then set_add flags f else flags)"

definition tcp_GetFlags :: "tcp_layer \<Rightarrow> flag_set" where
  "tcp_GetFlags t =
     add_flag (NS t) TCPFlagNS (add_flag (CWR t) TCPFlagCWR (add_flag (ECE t) TCPFlagECE
    (add_flag (URG t) TCPFlagURG (add_flag (ACK t) TCPFlagACK (add_flag (PSH t) TCPFlagPSH
    (add_flag (RST t) TCPFlagRST (add_flag (SYN t) TCPFlagSYN (add_flag (FIN t) TCPFlagFIN
      (set_new [])))))))))"

definition udp_Layer :: "mctx \<Rightarrow> udp_layer option" where
  "udp_Layer g = do {
     port \<leftarrow> PortForPayload g PayloadUDPDNS;
     Some \<lparr>udp_SrcPort = 0, udp_DstPort = port\<rparr>
   }"

definition icmp_Layer :: "u16 \<Rightarrow> icmp_layer" where
  "icmp_Layer seqNum = \<lparr>icmp_Type = 8, icmp_Code = 0, icmp_Seq = seqNum\<rparr>"

definition dns_Layer :: "u16 \<Rightarrow> dns_layer" where
  "dns_Layer seqNum =
     \<lparr>dns_ID = seqNum, dns_QR = False, dns_AA = False, dns_TC = False, dns_RD = False,
      dns_RA = False, dns_QName = dec_of_nat (unat seqNum) @ ''.'' @ ''example.com''\<rparr>"

definition dns_GetFlags :: "dns_layer \<Rightarrow> flag_set" where
  "dns_GetFlags d =
     add_flag (dns_RA d) DNSFlagRA (add_flag (dns_RD d) DNSFlagRD (add_flag (dns_TC d) DNSFlagTC
    (add_flag (dns_AA d) DNSFlagAA (add_flag (dns_QR d) DNSFlagQR (set_new [])))))"

text \<open>The \<open>Layer\<close> functions of the three payloads.\<close>

definition payload_icmp_Layer :: "u16 \<Rightarrow> layer list option" where
  "payload_icmp_Layer seqNum = Some [ICMPLayer (icmp_Layer seqNum)]"

definition payload_tcp_Layer :: "mctx \<Rightarrow> u16 \<Rightarrow> layer list option" where
  "payload_tcp_Layer g seqNum =
     (if TcpEstablishConnection g then
        let requestIndex = GetRequestIndex g seqNum in
        if requestIndex = 0 then do {
          t \<leftarrow> tcp_Layer g seqNum (Some (set_new [TCPFlagSYN]));
          Some [TCPLayer t]
        } else do {
          t \<leftarrow> tcp_Layer g seqNum (Some (set_new [TCPFlagPSH, TCPFlagACK]));
          Some [TCPLayer t, PayloadLayer [tcp_Payload (requestIndex - 1)]]
        }
      else do { t \<leftarrow> tcp_Layer g seqNum None; Some [TCPLayer t] })"

definition payload_udp_dns_Layer :: "mctx \<Rightarrow> u16 \<Rightarrow> layer list option" where
  "payload_udp_dns_Layer g seqNum = do {
     u \<leftarrow> udp_Layer g;
     Some [UDPLayer u, DNSLayer (dns_Layer seqNum)]
   }"

definition payload_Layer :: "mctx \<Rightarrow> payload \<Rightarrow> u16 \<Rightarrow> layer list option" where
  "payload_Layer g p seqNum =
     (case p of ICMP \<Rightarrow> payload_icmp_Layer seqNum
      | TCP \<Rightarrow> payload_tcp_Layer g seqNum
      | UdpDns \<Rightarrow> payload_udp_dns_Layer g seqNum)"


section \<open>Properties\<close>

lemma set_contains_add_flag [simp]:
  "set_contains (add_flag b f s) v \<longleftrightarrow> (b \<and> v = f) \<or> set_contains s v"
  by (auto simp: add_flag_def)

definition all_tcp_flags :: "flag_set" where
  "all_tcp_flags = set_new [TCPFlagFIN, TCPFlagSYN, TCPFlagRST, TCPFlagPSH, TCPFlagACK,
     TCPFlagURG, TCPFlagECE, TCPFlagCWR, TCPFlagNS]"

lemma fset_eq_by_contains: "(\<And>v. set_contains s v = set_contains t v) \<Longrightarrow> s = t"
  unfolding set_contains_def by (intro fset_eqI) simp

lemma tcp_GetFlags_contains:
  "set_contains (tcp_GetFlags t) v \<longleftrightarrow>
     (FIN t \<and> v = TCPFlagFIN) \<or> (SYN t \<and> v = TCPFlagSYN) \<or> (RST t \<and> v = TCPFlagRST) \<or>
     (PSH t \<and> v = TCPFlagPSH) \<or> (ACK t \<and> v = TCPFlagACK) \<or> (URG t \<and> v = TCPFlagURG) \<or>
     (ECE t \<and> v = TCPFlagECE) \<or> (CWR t \<and> v = TCPFlagCWR) \<or> (NS t \<and> v = TCPFlagNS)"
  unfolding tcp_GetFlags_def set_contains_add_flag set_contains_new by simp blast

lemma tcp_Layer_fields:
  assumes "tcp_Layer g q (Some flags) = Some t"
  shows "FIN t = set_contains flags TCPFlagFIN" "SYN t = set_contains flags TCPFlagSYN"
    "RST t = set_contains flags TCPFlagRST" "PSH t = set_contains flags TCPFlagPSH"
    "ACK t = set_contains flags TCPFlagACK" "URG t = set_contains flags TCPFlagURG"
    "ECE t = set_contains flags TCPFlagECE" "CWR t = set_contains flags TCPFlagCWR"
    "NS t = set_contains flags TCPFlagNS"
    "tcp_Seq t = (if TcpEstablishConnection g
       then TCPSequenceNumber (TcpSequenceNumOffset g) q (ConnectionCount (Config g))
       else TcpSequenceNumOffset g + ucast q)"
  using assms by (auto simp: tcp_Layer_def Let_def split: bind_splits)

text \<open>
  Reading the flags of a TCP layer the code built gives back exactly the flags it was built
  from, for every flag set that configuration accepts (a subset of the nine TCP flags); and the
  layer carries the sequence number whose acknowledgment identifies the request.
\<close>

theorem tcp_flags_roundtrip:
  assumes "flags |\<subseteq>| all_tcp_flags" "tcp_Layer g q (Some flags) = Some t"
  shows "tcp_GetFlags t = flags \<and> tcp_Seq t =
    (if TcpEstablishConnection g
     then TCPSequenceNumber (TcpSequenceNumOffset g) q (ConnectionCount (Config g))
     else TcpSequenceNumOffset g + ucast q)"
proof
  have "set_contains flags v \<Longrightarrow> set_contains all_tcp_flags v" for v
    using assms(1) by (auto simp: set_contains_def)
  then have sub: "set_contains flags v \<Longrightarrow> v \<in> {TCPFlagFIN, TCPFlagSYN, TCPFlagRST, TCPFlagPSH,
      TCPFlagACK, TCPFlagURG, TCPFlagECE, TCPFlagCWR, TCPFlagNS}" for v
    by (simp add: all_tcp_flags_def)
  show "tcp_GetFlags t = flags"
  proof (rule fset_eq_by_contains)
    fix v
    show "set_contains (tcp_GetFlags t) v = set_contains flags v"
      unfolding tcp_GetFlags_contains tcp_Layer_fields [OF assms(2)]
      using sub [of v] by blast
  qed
qed (rule tcp_Layer_fields(10) [OF assms(2)])

theorem tcp_flags_roundtrip_witness:
  "\<exists>t. tcp_Layer demo_context 5 (Some SynAckFlagSet) = Some t
     \<and> tcp_GetFlags t = SynAckFlagSet \<and> tcp_Seq t = 1005"
proof -
  have "SynAckFlagSet |\<subseteq>| all_tcp_flags"
    by (simp add: SynAckFlagSet_def all_tcp_flags_def set_new_fset_of_list)
  moreover obtain t where t: "tcp_Layer demo_context 5 (Some SynAckFlagSet) = Some t"
    by (simp add: tcp_Layer_def demo_defs PortForPayload_def IsInterProtocol_def)
  ultimately have "tcp_GetFlags t = SynAckFlagSet \<and> tcp_Seq t = 1005"
    using tcp_flags_roundtrip [of SynAckFlagSet demo_context 5 t] by (simp add: demo_defs)
  then show ?thesis using t by blast
qed

end
