(* ===== verification/Packet.thy ===== *)
theory Packet
  imports Checksum Layers
begin

text \<open>
  \<^verbatim>\<open>ipid/packet/packet.go\<close> and the three \<open>SetChecksum\<close> functions of \<^verbatim>\<open>ipid/tcp\<close>,
  \<^verbatim>\<open>ipid/udp\<close> and \<^verbatim>\<open>ipid/icmp\<close>: the raw packet templates, the per-target patching of
  destination address, source port and checksums, and the ACK and RST packets of established
  connections. Packets are byte lists; a write or a slice outside the packet is the run-time panic
  \<open>None\<close>. The serialisation of layers is gopacket's and enters as the parameter \<open>serialize\<close>.

  The locale \<open>l4_checksum\<close> states what the three checksum routines share (a field at an even
  offset behind the IP header, and a pseudo header that does not read it); it is interpreted on the
  TCP, UDP and ICMP routines.
\<close>

section \<open>Bytes of a packet\<close>

definition be16 :: "u16 \<Rightarrow> u8 list" where
  "be16 v = [hi8 v, lo8 v]"

definition be32 :: "u32 \<Rightarrow> u8 list" where
  "be32 v = [ucast (drop_bit 24 v), ucast (drop_bit 16 v), ucast (drop_bit 8 v), ucast v]"

text \<open>\<open>copy(p[k:k+n], bs)\<close> for \<open>n = length bs\<close>, and \<open>binary.BigEndian.PutUint16/32\<close>.\<close>

definition put_bytes :: "nat \<Rightarrow> u8 list \<Rightarrow> u8 list \<Rightarrow> u8 list option" where
  "put_bytes k bs p =
     (if k + length bs \<le> length p then Some (take k p @ bs @ drop (k + length bs) p) else None)"

definition PutUint16 :: "nat \<Rightarrow> u16 \<Rightarrow> u8 list \<Rightarrow> u8 list option" where
  "PutUint16 k v p = put_bytes k (be16 v) p"

definition PutUint32 :: "nat \<Rightarrow> u32 \<Rightarrow> u8 list \<Rightarrow> u8 list option" where
  "PutUint32 k v p = put_bytes k (be32 v) p"

definition slice :: "nat \<Rightarrow> nat \<Rightarrow> u8 list \<Rightarrow> u8 list option" where
  "slice a b p = (if a \<le> b \<and> b \<le> length p then Some (take (b - a) (drop a p)) else None)"

text \<open>The 16- or 32-bit field a receiver reads at an offset.\<close>

definition field :: "nat \<Rightarrow> nat \<Rightarrow> u8 list \<Rightarrow> u8 list" where
  "field k n p = take n (drop k p)"


section \<open>Transport checksums\<close>

definition tcp_SetChecksum :: "u8 list \<Rightarrow> u8 list option" where
  "tcp_SetChecksum packet = do {
     p \<leftarrow> PutUint16 36 0 packet;
     ipSrc \<leftarrow> slice 12 16 p;
     ipDst \<leftarrow> slice 16 20 p;
     tcpData \<leftarrow> slice 20 (length p) p;
     let pseudoHeader = ipSrc @ ipDst @ [0, 6] @ be16 (of_nat (length tcpData));
     PutUint16 36 (Compute (pseudoHeader @ tcpData)) p
   }"

definition udp_SetChecksum :: "u8 list \<Rightarrow> u8 list option" where
  "udp_SetChecksum packet = do {
     p \<leftarrow> PutUint16 26 0 packet;
     ipSrc \<leftarrow> slice 12 16 p;
     ipDst \<leftarrow> slice 16 20 p;
     udpData \<leftarrow> slice 20 (length p) p;
     let pseudoHeader = ipSrc @ ipDst @ [0, 17] @ be16 (of_nat (length udpData));
     PutUint16 26 (Compute (pseudoHeader @ udpData)) p
   }"

definition icmp_SetChecksum :: "u8 list \<Rightarrow> u8 list option" where
  "icmp_SetChecksum packet = do {
     p \<leftarrow> PutUint16 22 0 packet;
     icmpData \<leftarrow> slice 20 (length p) p;
     PutUint16 22 (Compute icmpData) p
   }"

definition SetChecksum :: "payload \<Rightarrow> u8 list \<Rightarrow> u8 list option" where
  "SetChecksum a packet =
     (case a of ICMP \<Rightarrow> icmp_SetChecksum packet
      | TCP \<Rightarrow> tcp_SetChecksum packet
      | UdpDns \<Rightarrow> udp_SetChecksum packet)"


section \<open>Templates and per-target packets\<close>

text \<open>
  \<open>Setup\<close>: the raw template of one request. An empty list of request IP-IDs divides by zero, a nil
  payload and a failed serialisation panic.
\<close>

definition raw_packet :: "(layer list \<Rightarrow> u8 list option) \<Rightarrow> mctx \<Rightarrow> u16 \<Rightarrow> u8 list option" where
  "raw_packet serialize g seqNum =
     (let ids = RequestIPIDs (Config g) in
      if ids = [] then None
      else do {
        let ipID = ids ! (unat (BaseSequenceIndex g seqNum) mod length ids);
        active \<leftarrow> ForSequence g seqNum;
        let ipLayer = ip_Layer ipID (GetSender g seqNum) (ProtocolID active);
        payloadLayers \<leftarrow> payload_Layer g active seqNum;
        serialize (IPv4Layer ipLayer # payloadLayers)
      })"

fun all_some :: "'a option list \<Rightarrow> 'a list option" where
  "all_some [] = Some []"
| "all_some (x # xs) = do { y \<leftarrow> x; ys \<leftarrow> all_some xs; Some (y # ys) }"

definition packet_Setup :: "(layer list \<Rightarrow> u8 list option) \<Rightarrow> mctx \<Rightarrow> u8 list list option" where
  "packet_Setup serialize g =
     (if Active g = None \<and> \<not> IsInterProtocol g then None
      else all_some (map (\<lambda>s. raw_packet serialize g (of_nat s)) [0..<unat (RequestCount g)]))"

text \<open>One iteration of \<open>BuildPacketsInto\<close>; the reused buffer is overwritten completely.\<close>

definition build_packet :: "mctx \<Rightarrow> u8 list \<Rightarrow> u16 \<Rightarrow> ip4 \<Rightarrow> u16 \<Rightarrow> u8 list option" where
  "build_packet g raw seqNum dst4 basePort = do {
     let srcPort = GetSrcPort g seqNum basePort;
     p1 \<leftarrow> put_bytes 16 (bytes_of_ip4 dst4) raw;
     p2 \<leftarrow> PutUint16 10 0 p1;
     header \<leftarrow> slice 0 20 p2;
     p3 \<leftarrow> PutUint16 10 (Compute header) p2;
     active \<leftarrow> ForSequence g seqNum;
     p4 \<leftarrow> (if ProtocolID active = 6 \<or> ProtocolID active = 17 then PutUint16 20 srcPort p3
            else Some p3);
     SetChecksum active p4
   }"

definition BuildPacketsInto :: "mctx \<Rightarrow> u8 list list \<Rightarrow> ip4 \<Rightarrow> u16 \<Rightarrow> u8 list list option" where
  "BuildPacketsInto g rawPackets dst4 basePort =
     all_some (map (\<lambda>s. do {
         raw \<leftarrow> nth_opt rawPackets s;
         build_packet g raw (of_nat s) dst4 basePort
       }) [0..<unat (RequestCount g)])"

definition SetTCPAcknowledgment :: "mctx \<Rightarrow> u8 list \<Rightarrow> u32 \<Rightarrow> u8 list option" where
  "SetTCPAcknowledgment g packet acknowledgment = do {
     p \<leftarrow> PutUint32 28 acknowledgment packet;
     active \<leftarrow> Active g;
     SetChecksum active p
   }"

definition BuildTCPACK :: "mctx \<Rightarrow> u8 list \<Rightarrow> u32 \<Rightarrow> u32 \<Rightarrow> u8 list option" where
  "BuildTCPACK g syn sequence acknowledgment = do {
     p \<leftarrow> PutUint32 24 sequence syn;
     ack \<leftarrow> upd_opt p 33 0x10;
     SetTCPAcknowledgment g ack acknowledgment
   }"

text \<open>
  \<open>BuildTCPResetPacket\<close>: the RST+ACK of a connection. The outer option is a panic, the inner one the
  error return (a failed serialisation).
\<close>

definition BuildTCPResetPacket ::
  "(layer list \<Rightarrow> u8 list option) \<Rightarrow> mctx \<Rightarrow> ip4 \<Rightarrow> ip4 \<Rightarrow> u16 \<Rightarrow> u16 \<Rightarrow> u16 \<Rightarrow> u32 \<Rightarrow>
   u8 list option option" where
  "BuildTCPResetPacket serialize g dstIP srcIP srcPort connectionIndex nextRequestIndex
       acknowledgment =
     (let seqNum = nextRequestIndex * ConnectionCount (Config g) + connectionIndex;
          ids = RequestIPIDs (Config g)
      in if ids = [] then None
         else do {
           let ipID = ids ! (unat seqNum mod length ids);
           active \<leftarrow> Active g;
           let ipLayer = (ip_Layer ipID srcIP (ProtocolID active))\<lparr>ip_DstIP := dstIP\<rparr>;
           t \<leftarrow> tcp_Layer g seqNum (Some (set_new [TCPFlagRST, TCPFlagACK]));
           let tcpLayer = t\<lparr>tcp_SrcPort := srcPort, tcp_Ack := acknowledgment\<rparr>;
           case serialize [IPv4Layer ipLayer, TCPLayer tcpLayer] of
             None \<Rightarrow> Some None
           | Some bytes \<Rightarrow> do {
               header \<leftarrow> slice 0 20 bytes;
               p \<leftarrow> PutUint16 10 (Compute header) bytes;
               q \<leftarrow> tcp_SetChecksum p;
               Some (Some q)
             }
         })"


section \<open>Writing and reading bytes\<close>

lemma length_be16 [simp]: "length (be16 v) = 2"
  by (simp add: be16_def)

lemma length_be32 [simp]: "length (be32 v) = 4"
  by (simp add: be32_def)

lemma length_bytes_of_ip4 [simp]: "length (bytes_of_ip4 a) = 4"
  by (simp split: prod.splits)

lemma put_bytes_in: "k + length bs \<le> length p \<Longrightarrow>
    put_bytes k bs p = Some (take k p @ bs @ drop (k + length bs) p)"
  by (simp add: put_bytes_def)

lemma put_bytes_length: "put_bytes k bs p = Some q \<Longrightarrow> length q = length p"
  by (auto simp: put_bytes_def split: if_splits)

lemma put_bytes_range: "put_bytes k bs p = Some q \<Longrightarrow> k + length bs \<le> length p"
  by (simp add: put_bytes_def split: if_splits)

lemma put_bytes_field: "put_bytes k bs p = Some q \<Longrightarrow> field k (length bs) q = bs"
  by (auto simp: put_bytes_def field_def split: if_splits)

lemma put_bytes_nth:
  assumes "put_bytes k bs p = Some q" "i < length p"
  shows "q ! i = (if k \<le> i \<and> i < k + length bs then bs ! (i - k) else p ! i)"
proof -
  have q: "q = take k p @ bs @ drop (k + length bs) p" and r: "k + length bs \<le> length p"
    using assms by (simp_all add: put_bytes_def split: if_splits)
  show ?thesis
    using r assms(2) by (auto simp: q nth_append min_def not_less)
qed

lemma put_bytes_field_other:
  assumes "put_bytes k bs p = Some q" "j + n \<le> k \<or> k + length bs \<le> j"
  shows "field j n q = field j n p"
proof (rule nth_equalityI)
  show "length (field j n q) = length (field j n p)"
    using put_bytes_length [OF assms(1)] by (simp add: field_def)
  fix i assume "i < length (field j n q)"
  then show "field j n q ! i = field j n p ! i"
    using assms(2) put_bytes_nth [OF assms(1), of "j + i"] put_bytes_length [OF assms(1)]
    by (auto simp: field_def)
qed

lemmas put_defs = PutUint16_def PutUint32_def

lemma slice_to_end: "a \<le> length p \<Longrightarrow> slice a (length p) p = Some (drop a p)"
  by (simp add: slice_def)

lemma slice_SomeD: "slice a b p = Some q \<Longrightarrow> q = field a (b - a) p \<and> a \<le> b \<and> b \<le> length p"
  by (simp add: slice_def field_def split: if_splits)


lemma PutUint16_update:
  assumes "k + 2 \<le> length p"
  shows "PutUint16 k v p = Some (p[k := hi8 v, Suc k := lo8 v])"
proof -
  obtain xs y z zs where p: "p = xs @ y # z # zs" and k: "k = length xs"
  proof
    show "p = take k p @ p ! k # p ! Suc k # drop (Suc (Suc k)) p"
      using assms by (simp add: Cons_nth_drop_Suc)
    show "k = length (take k p)"
      using assms by simp
  qed
  show ?thesis
    by (simp add: p k PutUint16_def put_bytes_def be16_def list_update_append)
qed

section \<open>The contract of the transport checksums\<close>

locale l4_checksum =
  fixes off :: nat
    and pseudo :: "u8 list \<Rightarrow> u8 list"
    and set_checksum :: "u8 list \<Rightarrow> u8 list option"
  assumes even_off: "even off"
    and off_behind_ip: "20 \<le> off"
    and even_pseudo: "20 \<le> length p \<Longrightarrow> even (length (pseudo p))"
    and pseudo_short: "length (pseudo p) \<le> 12"
    and pseudo_frame: "length q = length p \<Longrightarrow> take 20 q = take 20 p \<Longrightarrow> pseudo q = pseudo p"
    and set_checksum_eq: "off + 2 \<le> length p \<Longrightarrow> set_checksum p =
      do { q \<leftarrow> PutUint16 off 0 p; PutUint16 off (Compute (pseudo q @ drop 20 q)) q }"
begin

lemma checksum_verifies:
  assumes "off + 2 \<le> length p" "length p \<le> 65535"
  shows "\<exists>q. set_checksum p = Some q \<and> length q = length p
    \<and> Compute (pseudo q @ drop 20 q) = 0
    \<and> (\<forall>i < length p. (i < off \<or> off + 2 \<le> i) \<longrightarrow> q ! i = p ! i)"
proof -
  define z where "z = p[off := 0, Suc off := 0]"
  define v where "v = Compute (pseudo z @ drop 20 z)"
  define q where "q = z[off := hi8 v, Suc off := lo8 v]"
  obtain m where m: "off = 20 + m"
    using off_behind_ip le_Suc_ex by blast
  define k where "k = length (pseudo z) + m"
  let ?d = "pseudo z @ drop 20 z"
  have zero: "hi8 0 = 0" "lo8 0 = 0" by (simp_all add: hi8_def lo8_def)
  have len: "length z = length p" "length q = length p"
    by (simp_all add: z_def q_def)
  have "set_checksum p = Some q"
    using assms(1) by (simp add: set_checksum_eq PutUint16_update zero z_def v_def q_def)
  moreover have "take 20 q = take 20 z"
    using off_behind_ip by (simp add: q_def take_update_cancel)
  then have ps: "pseudo q = pseudo z"
    using len by (intro pseudo_frame) simp_all
  have "Compute (?d[k := hi8 v, Suc k := lo8 v]) = 0"
    unfolding v_def
  proof (rule Compute_verifies)
    show "length ?d \<le> 65535"
      using assms pseudo_short [of z] len off_behind_ip by simp
    show "even k"
      using even_pseudo [of z] even_off assms(1) len by (simp add: k_def m)
    show "Suc k < length ?d" "?d ! k = 0" "?d ! Suc k = 0"
      using assms(1) len by (simp_all add: k_def z_def m nth_append)
  qed
  moreover have "?d[k := hi8 v, Suc k := lo8 v] = pseudo q @ drop 20 q"
    using ps by (simp add: k_def q_def m list_update_append drop_update_swap)
  moreover have "\<forall>i < length p. (i < off \<or> off + 2 \<le> i) \<longrightarrow> q ! i = p ! i"
    by (auto simp: q_def z_def nth_list_update)
  ultimately show ?thesis using len by auto
qed

end

definition ip_pseudo :: "u8 \<Rightarrow> u8 list \<Rightarrow> u8 list" where
  "ip_pseudo protocol p =
     field 12 4 p @ field 16 4 p @ [0, protocol] @ be16 (of_nat (length p - 20))"

lemma field_take:
  assumes "k + n \<le> m" "take m q = take m p"
  shows "field k n q = field k n p"
proof -
  have "field k n x = drop k (take (n + k) (take m x))" for x
    using assms(1) by (simp add: field_def take_drop min_def)
  then show ?thesis by (simp only: assms(2))
qed

lemma ip_pseudo_laws:
  "20 \<le> length p \<Longrightarrow> even (length (ip_pseudo protocol p))"
  "length (ip_pseudo protocol p) \<le> 12"
  "length q = length p \<Longrightarrow> take 20 q = take 20 p \<Longrightarrow> ip_pseudo protocol q = ip_pseudo protocol p"
proof -
  assume "length q = length p" "take 20 q = take 20 p"
  then show "ip_pseudo protocol q = ip_pseudo protocol p"
    using field_take [of 12 4 20 q p] field_take [of 16 4 20 q p] by (simp add: ip_pseudo_def)
qed (simp_all add: ip_pseudo_def field_def)

lemma tcp_SetChecksum_eq:
  "38 \<le> length p \<Longrightarrow> tcp_SetChecksum p =
     do { q \<leftarrow> PutUint16 36 0 p; PutUint16 36 (Compute (ip_pseudo 6 q @ drop 20 q)) q }"
  by (simp add: tcp_SetChecksum_def PutUint16_update slice_def ip_pseudo_def field_def Let_def)

lemma udp_SetChecksum_eq:
  "28 \<le> length p \<Longrightarrow> udp_SetChecksum p =
     do { q \<leftarrow> PutUint16 26 0 p; PutUint16 26 (Compute (ip_pseudo 17 q @ drop 20 q)) q }"
  by (simp add: udp_SetChecksum_def PutUint16_update slice_def ip_pseudo_def field_def Let_def)

lemma icmp_SetChecksum_eq:
  "24 \<le> length p \<Longrightarrow> icmp_SetChecksum p =
     do { q \<leftarrow> PutUint16 22 0 p; PutUint16 22 (Compute ([] @ drop 20 q)) q }"
  by (simp add: icmp_SetChecksum_def PutUint16_update slice_def Let_def)

interpretation tcp_checksum: l4_checksum 36 "ip_pseudo 6" tcp_SetChecksum
  by unfold_locales (auto intro!: ip_pseudo_laws simp: tcp_SetChecksum_eq)

interpretation udp_checksum: l4_checksum 26 "ip_pseudo 17" udp_SetChecksum
  by unfold_locales (auto intro!: ip_pseudo_laws simp: udp_SetChecksum_eq)

interpretation icmp_checksum: l4_checksum 22 "\<lambda>_. []" icmp_SetChecksum
  by unfold_locales (auto simp: icmp_SetChecksum_eq)


section \<open>What a request packet looks like\<close>

text \<open>The test a receiver applies to the transport part, and the size it needs.\<close>

definition transport_ok :: "payload \<Rightarrow> u8 list \<Rightarrow> bool" where
  "transport_ok a p \<longleftrightarrow>
     (case a of ICMP \<Rightarrow> Compute (drop 20 p) = 0
      | TCP \<Rightarrow> Compute (ip_pseudo 6 p @ drop 20 p) = 0
      | UdpDns \<Rightarrow> Compute (ip_pseudo 17 p @ drop 20 p) = 0)"

definition checksum_offset :: "payload \<Rightarrow> nat" where
  "checksum_offset a = (case a of ICMP \<Rightarrow> 22 | TCP \<Rightarrow> 36 | UdpDns \<Rightarrow> 26)"

lemma SetChecksum_verifies:
  assumes "checksum_offset a + 2 \<le> length p" "length p \<le> 65535"
  shows "\<exists>q. SetChecksum a p = Some q \<and> length q = length p \<and> transport_ok a q
    \<and> (\<forall>i < length p. (i < checksum_offset a \<or> checksum_offset a + 2 \<le> i) \<longrightarrow> q ! i = p ! i)"
  using tcp_checksum.checksum_verifies [of p] udp_checksum.checksum_verifies [of p]
    icmp_checksum.checksum_verifies [of p] assms
  by (cases a) (simp_all add: checksum_offset_def SetChecksum_def transport_ok_def)

lemma take_eqI:
  "length q = length p \<Longrightarrow> (\<And>i. i < n \<Longrightarrow> i < length p \<Longrightarrow> q ! i = p ! i) \<Longrightarrow> take n q = take n p"
  by (rule nth_equalityI) simp_all

lemma field_eqI:
  "length q = length p \<Longrightarrow> (\<And>i. k \<le> i \<Longrightarrow> i < k + n \<Longrightarrow> i < length p \<Longrightarrow> q ! i = p ! i) \<Longrightarrow>
   field k n q = field k n p"
  unfolding field_def by (rule nth_equalityI) (auto simp: less_diff_conv)

lemma header_checksum:
  assumes "20 \<le> length p"
  shows "\<exists>q. (do { p2 \<leftarrow> PutUint16 10 0 p; header \<leftarrow> slice 0 20 p2; PutUint16 10 (Compute header) p2 })
      = Some q \<and> length q = length p \<and> Compute (take 20 q) = 0
    \<and> (\<forall>i < length p. i \<noteq> 10 \<and> i \<noteq> 11 \<longrightarrow> q ! i = p ! i)"
proof -
  define z where "z = p[10 := 0, 11 := 0 :: u8]"
  define v where "v = Compute (take 20 z)"
  define q where "q = z[10 := hi8 v, 11 := lo8 v]"
  have "(do { p2 \<leftarrow> PutUint16 10 0 p; header \<leftarrow> slice 0 20 p2; PutUint16 10 (Compute header) p2 })
      = Some q"
    using assms by (simp add: PutUint16_update slice_def z_def q_def v_def hi8_def lo8_def)
  moreover have "take 20 q = (take 20 z)[10 := hi8 v, Suc 10 := lo8 v]"
    by (simp add: q_def take_update_swap)
  moreover have "Compute ((take 20 z)[10 := hi8 v, Suc 10 := lo8 v]) = 0"
    unfolding v_def using assms by (intro Compute_verifies) (simp_all add: z_def)
  ultimately show ?thesis
    by (auto simp: q_def z_def nth_list_update)
qed

definition has_ports :: "payload \<Rightarrow> bool" where
  "has_ports a \<longleftrightarrow> ProtocolID a = 6 \<or> ProtocolID a = 17"

lemma port_patch:
  assumes "checksum_offset a + 2 \<le> length p3"
  shows "\<exists>p4. (if has_ports a then PutUint16 20 port p3 else Some p3) = Some p4
    \<and> length p4 = length p3 \<and> (has_ports a \<longrightarrow> field 20 2 p4 = be16 port)
    \<and> (\<forall>i < length p3. i \<notin> (if has_ports a then {20, 21} else {}) \<longrightarrow> p4 ! i = p3 ! i)"
proof (cases "has_ports a")
  case True
  then have "26 \<le> checksum_offset a"
    by (cases a) (simp_all add: checksum_offset_def has_ports_def)
  then obtain p4 where w: "put_bytes 20 (be16 port) p3 = Some p4"
    using assms by (simp add: put_bytes_in)
  have "p4 ! i = p3 ! i" if "i < length p3" "i \<noteq> 20" "i \<noteq> 21" for i
    using put_bytes_nth [OF w that(1)] that(2,3) by simp linarith
  then show ?thesis
    using True w put_bytes_length [OF w] put_bytes_field [OF w] by (simp add: PutUint16_def)
qed simp

lemma built_packet:
  assumes "ForSequence g s = Some a"
    and "checksum_offset a + 2 \<le> length raw" "length raw \<le> 65535"
  shows "\<exists>p. build_packet g raw s dst basePort = Some p \<and> length p = length raw
    \<and> field 16 4 p = bytes_of_ip4 dst \<and> Compute (take 20 p) = 0 \<and> transport_ok a p
    \<and> (has_ports a \<longrightarrow> field 20 2 p = be16 (GetSrcPort g s basePort))
    \<and> (\<forall>i < length raw. i \<notin> {10, 11} \<union> {16..<20} \<union> (if has_ports a then {20, 21} else {})
          \<union> {checksum_offset a, checksum_offset a + 1} \<longrightarrow> p ! i = raw ! i)"
proof -
  let ?o = "checksum_offset a"
  have o: "22 \<le> ?o" "has_ports a \<Longrightarrow> 26 \<le> ?o"
    by (cases a; simp add: checksum_offset_def has_ports_def)+
  obtain p1 where p1: "put_bytes 16 (bytes_of_ip4 dst) raw = Some p1"
    using assms(2) o(1) by (simp add: put_bytes_in)
  note l1 = put_bytes_length [OF p1]
  obtain p3 where p3: "(do { p2 \<leftarrow> PutUint16 10 0 p1; header \<leftarrow> slice 0 20 p2;
        PutUint16 10 (Compute header) p2 }) = Some p3" "length p3 = length p1"
      "Compute (take 20 p3) = 0" "\<forall>i < length p1. i \<noteq> 10 \<and> i \<noteq> 11 \<longrightarrow> p3 ! i = p1 ! i"
    using header_checksum [of p1] l1 assms(2) o(1) by auto
  define port where "port = GetSrcPort g s basePort"
  obtain p4 where p4: "(if has_ports a then PutUint16 20 port p3 else Some p3) = Some p4"
      "length p4 = length p3" "has_ports a \<Longrightarrow> field 20 2 p4 = be16 port"
      "\<forall>i < length p3. i \<notin> (if has_ports a then {20, 21} else {}) \<longrightarrow> p4 ! i = p3 ! i"
    using port_patch [of a p3 port] assms(2) l1 p3(2) by auto
  obtain p where p: "SetChecksum a p4 = Some p" "length p = length p4" "transport_ok a p"
      "\<forall>i < length p4. (i < ?o \<or> ?o + 2 \<le> i) \<longrightarrow> p ! i = p4 ! i"
    using SetChecksum_verifies [of a p4] assms(2,3) l1 p3(2) p4(2) by auto
  obtain p2 h where "PutUint16 10 0 p1 = Some p2" "slice 0 20 p2 = Some h"
      "PutUint16 10 (Compute h) p2 = Some p3"
    using p3(1) by (auto simp: bind_eq_Some_conv)
  then have built: "build_packet g raw s dst basePort = Some p"
    using assms(1) p1 p4(1) p(1)
    by (cases "has_ports a") (auto simp: build_packet_def port_def has_ports_def)
  have len: "length p = length raw"
    using l1 p3(2) p4(2) p(2) by simp
  have at: "p ! i = p3 ! i" if "i < 20" "i < length raw" for i
    using that p(4) p4(4) o l1 p3(2) p4(2) by auto
  have "field 16 4 p = field 16 4 p1"
    using at p3 l1 len by (intro field_eqI) auto
  then have dst: "field 16 4 p = bytes_of_ip4 dst"
    using put_bytes_field [OF p1] by simp
  have "take 20 p = take 20 p3"
    using at p3 l1 len by (intro take_eqI) auto
  then have head: "Compute (take 20 p) = 0"
    using p3(3) by simp
  have ports: "field 20 2 p = be16 port" if "has_ports a"
  proof -
    have "field 20 2 p = field 20 2 p4"
      using that o(2) p(2,4) by (intro field_eqI) auto
    then show ?thesis using p4(3) [OF that] by simp
  qed
  have "p ! i = raw ! i"
    if "i < length raw" "i \<notin> {10, 11} \<union> {16..<20} \<union> (if has_ports a then {20, 21} else {})
          \<union> {?o, ?o + 1}" for i
    using that p(4) p4(4) p3(4) put_bytes_nth [OF p1, of i] l1 p3(2) p4(2) by auto
  then show ?thesis
    using built len dst head p(3) ports by (auto simp: port_def)
qed


text \<open>
  C35: \<open>BuildPacketsInto\<close> turns a template into a well-formed packet for its target: it carries the
  target's address, a header checksum and a transport checksum that both verify at the receiver,
  and (TCP and UDP) the source port of the request's connection; every other byte of the template
  is unchanged, so the IP-ID, the protocol fields and the sequence number survive.
\<close>

theorem build_packet_well_formed:
  assumes "ForSequence g s = Some a"
    and "checksum_offset a + 2 \<le> length raw" "length raw \<le> 65535"
  shows "\<exists>p. build_packet g raw s dst basePort = Some p \<and> length p = length raw
    \<and> field 16 4 p = bytes_of_ip4 dst \<and> Compute (take 20 p) = 0 \<and> transport_ok a p
    \<and> (has_ports a \<longrightarrow> field 20 2 p = be16 (GetSrcPort g s basePort))
    \<and> (\<forall>i < length raw. i \<notin> {10, 11} \<union> {16..<20} \<union> (if has_ports a then {20, 21} else {})
          \<union> {checksum_offset a, checksum_offset a + 1} \<longrightarrow> p ! i = raw ! i)"
  by (rule built_packet [OF assms])

theorem build_packet_well_formed_witness:
  "\<exists>p. build_packet demo_context (replicate 40 0) 5 (198, 51, 100, 7) 40000 = Some p
     \<and> field 16 4 p = [198, 51, 100, 7] \<and> Compute (take 20 p) = 0 \<and> transport_ok TCP p
     \<and> field 20 2 p = be16 40001"
  using build_packet_well_formed [of demo_context 5 TCP "replicate 40 0" "(198, 51, 100, 7)" 40000]
  by (auto simp: demo_defs ForSequence_def IsInterProtocol_def checksum_offset_def has_ports_def
      GetSrcPort_def BaseSequenceIndex_def)

lemma ack_segment:
  assumes "Active g = Some TCP" "40 \<le> length syn" "length syn \<le> 65535"
  shows "\<exists>p. BuildTCPACK g syn sequence acknowledgment = Some p \<and> length p = length syn
    \<and> field 24 4 p = be32 sequence \<and> field 28 4 p = be32 acknowledgment \<and> p ! 33 = 0x10
    \<and> transport_ok TCP p
    \<and> (\<forall>i < length syn. i \<notin> {24..<32} \<union> {33, 36, 37} \<longrightarrow> p ! i = syn ! i)"
proof -
  obtain p1 where p1: "put_bytes 24 (be32 sequence) syn = Some p1"
    using assms(2) by (simp add: put_bytes_in)
  note l1 = put_bytes_length [OF p1]
  define p2 where "p2 = p1[33 := 0x10]"
  obtain p3 where p3: "put_bytes 28 (be32 acknowledgment) p2 = Some p3"
    using assms(2) l1 by (simp add: put_bytes_in p2_def)
  note l3 = put_bytes_length [OF p3]
  obtain p where p: "SetChecksum TCP p3 = Some p" "length p = length p3" "transport_ok TCP p"
      "\<forall>i < length p3. (i < 36 \<or> 38 \<le> i) \<longrightarrow> p ! i = p3 ! i"
    using SetChecksum_verifies [of TCP p3] assms(2,3) l1 l3
    by (auto simp: checksum_offset_def p2_def)
  have len: "length p = length syn"
    using l1 l3 p(2) by (simp add: p2_def)
  have "BuildTCPACK g syn sequence acknowledgment = Some p"
    using p1 p3 p(1) assms(1,2) l1
    by (simp add: BuildTCPACK_def SetTCPAcknowledgment_def PutUint32_def p2_def)
  moreover have "field 28 4 p = field 28 4 p3"
    using p(2,4) by (intro field_eqI) auto
  then have "field 28 4 p = be32 acknowledgment"
    using put_bytes_field [OF p3] by simp
  moreover have "field 24 4 p = field 24 4 p1"
    using p(4) put_bytes_nth [OF p3] l1 l3 len by (intro field_eqI) (auto simp: p2_def)
  then have "field 24 4 p = be32 sequence"
    using put_bytes_field [OF p1] by simp
  moreover have "p ! 33 = 0x10"
    using p(4) put_bytes_nth [OF p3, of 33] l1 l3 assms(2) by (simp add: p2_def)
  moreover have "p ! i = syn ! i" if "i < length syn" "i \<notin> {24..<32} \<union> {33, 36, 37}" for i
    using that p(4) put_bytes_nth [OF p3, of i] put_bytes_nth [OF p1, of i] l1 l3
    by (auto simp: p2_def)
  ultimately show ?thesis
    using len p(3) by blast
qed

text \<open>
  The acknowledgment of an established connection is the SYN packet with its sequence and
  acknowledgment numbers replaced and its flags set to a bare ACK, under a fresh transport checksum
  that verifies; addresses, IP header and ports stay those of the connection.
\<close>

theorem BuildTCPACK_segment:
  assumes "Active g = Some TCP" "40 \<le> length syn" "length syn \<le> 65535"
  shows "\<exists>p. BuildTCPACK g syn sequence acknowledgment = Some p \<and> length p = length syn
    \<and> field 24 4 p = be32 sequence \<and> field 28 4 p = be32 acknowledgment \<and> p ! 33 = 0x10
    \<and> transport_ok TCP p
    \<and> (\<forall>i < length syn. i \<notin> {24..<32} \<union> {33, 36, 37} \<longrightarrow> p ! i = syn ! i)"
  by (rule ack_segment [OF assms])

theorem BuildTCPACK_segment_witness:
  "\<exists>p. BuildTCPACK demo_context (replicate 40 0) 1005 0xDEADBEEF = Some p
     \<and> field 24 4 p = [0, 0, 3, 0xED] \<and> field 28 4 p = [0xDE, 0xAD, 0xBE, 0xEF] \<and> transport_ok TCP p"
  using BuildTCPACK_segment [of demo_context "replicate 40 0" 1005 "0xDEADBEEF"]
  by (auto simp: demo_defs be32_def drop_bit_eq_div)

text \<open>
  In every template the request's IP-ID is selected by the logical position alone: in an
  inter-protocol run all protocols of one position send the same IP-ID, from the same source
  address, and the protocol field is that of the position in the protocol order.
\<close>

theorem request_ipid_is_logical:
  assumes "length (InterProtocols g) \<le> 3" "raw_packet serialize g s = Some bytes"
  shows "\<exists>a ip rest. ForSequence g s = Some a \<and> payload_Layer g a s = Some rest
    \<and> serialize (IPv4Layer ip # rest) = Some bytes
    \<and> ip_Id ip = RequestIPIDs (Config g) ! (unat s div width g mod length (RequestIPIDs (Config g)))
    \<and> ip_SrcIP ip = (if even (unat s div width g) then SenderA g else SenderB g)
    \<and> ip_Protocol ip = ProtocolID a"
proof -
  let ?ids = "RequestIPIDs (Config g)"
  let ?pos = "unat (BaseSequenceIndex g s)"
  from assms(2) obtain a rest where a: "ForSequence g s = Some a" "payload_Layer g a s = Some rest"
      "serialize (IPv4Layer (ip_Layer (?ids ! (?pos mod length ?ids)) (GetSender g s) (ProtocolID a)) # rest)
        = Some bytes"
    by (auto simp: raw_packet_def Let_def bind_eq_Some_conv split: if_splits)
  have "BaseSequenceIndex g s mod 2 = 0 \<longleftrightarrow> even ?pos"
    by (simp add: word_unat_eq_iff unat_mod even_iff_mod_2_eq_zero)
  then show ?thesis
    using a unat_base [OF assms(1), of s] by (auto simp: ip_Layer_def GetSender_def)
qed

definition demo_serialize :: "layer list \<Rightarrow> u8 list option" where
  "demo_serialize ls =
     (case ls of IPv4Layer ip # rest \<Rightarrow> Some (be16 (ip_Id ip) @ replicate 38 0) | _ \<Rightarrow> None)"

definition demo_inter :: mctx where
  "demo_inter = demo_context\<lparr>RequestCount := 48, Active := None,
     InterProtocols := [PayloadICMP, PayloadTCP, PayloadUDPDNS],
     InterProtocolPorts := [PayloadTCP \<mapsto> 80, PayloadUDPDNS \<mapsto> 53]\<rparr>"

theorem request_ipid_is_logical_witness:
  "\<exists>a ip rest. ForSequence demo_inter 5 = Some a
    \<and> demo_serialize (IPv4Layer ip # rest) = Some (be16 9 @ replicate 38 0)
    \<and> ip_Id ip = 9 \<and> ip_SrcIP ip = SenderB demo_inter"
proof -
  have "ForSequence demo_inter 5 = Some UdpDns"
    by (simp add: demo_inter_def demo_defs ForSequence_def ProtocolForSequence_def IsInterProtocol_def
        payload_ID_def payloads_def)
  moreover have "payload_Layer demo_inter UdpDns 5 \<noteq> None"
    by (simp add: demo_inter_def demo_defs payload_Layer_def payload_udp_dns_Layer_def udp_Layer_def
        PortForPayload_def IsInterProtocol_def)
  moreover have "BaseSequenceIndex demo_inter 5 = 1"
    by (simp add: demo_inter_def demo_defs BaseSequenceIndex_def IsInterProtocol_def)
  ultimately have "raw_packet demo_serialize demo_inter 5 = Some (be16 9 @ replicate 38 0)"
    by (auto simp: raw_packet_def demo_serialize_def demo_inter_def demo_defs ip_Layer_def)
  from request_ipid_is_logical [OF _ this] show ?thesis
    by (auto simp: demo_inter_def demo_defs)
qed

end
