(* ===== verification/Inflight.thy ===== *)
theory Inflight
  imports Measurement
begin

text \<open>
  \<^verbatim>\<open>ipid/probe/inflight.go\<close>: the registry that leads a captured reply to the probe it answers.
  Pointers to entries are indices into a store of entries; the registry is an array of shards,
  each a map from target address to entry, and the shard of an address is chosen by the low bits
  of a 64-bit hash. The hash is library code and a parameter without any hypothesis: the registry
  is right for every hash. Each operation holds the shard's lock from start to end, so the
  operations are atomic steps here.

  The interface \<open>inflight_map\<close> states the laws the callers use. The sharded array satisfies them, and
  the client lemmas (who is found, who has been woken) are proved once from the laws.
\<close>

section \<open>Entries\<close>

datatype FlagExpectation = FlagsDefault | FlagsSynAck | FlagsAck

record entry =
  entry_Probe :: nat
  expectedCount :: u16
  expectedDsts :: "ip4 \<times> ip4"
  expectedMinPort :: u16
  expectedMaxPort :: u16
  basePort :: u16
  expectedFlags :: FlagExpectation
  expectedMinSeq :: u16
  expectedMaxSeq :: u16
  validCount :: u32
  entry_done :: bool

text \<open>\<open>markDone\<close>: \<open>doneOnce\<close> makes a second close a no-op.\<close>

definition markDone :: "entry \<Rightarrow> entry" where
  "markDone e = e\<lparr>entry_done := True\<rparr>"

definition mark_done_at :: "nat \<Rightarrow> entry list \<Rightarrow> entry list" where
  "mark_done_at i es = (if i < length es then es[i := markDone (es ! i)] else es)"

lemma markDone_done [simp]: "entry_done (markDone e)"
  by (simp add: markDone_def)

lemma length_mark_done_at [simp]: "length (mark_done_at i es) = length es"
  by (simp add: mark_done_at_def)

lemma mark_done_at_done: "i < length es \<Longrightarrow> entry_done (mark_done_at i es ! i)"
  by (simp add: mark_done_at_def)

lemma mark_done_at_mono: "entry_done (es ! j) \<Longrightarrow> entry_done (mark_done_at i es ! j)"
  by (cases "i = j") (simp_all add: mark_done_at_def)

lemma mark_done_at_other: "j \<noteq> i \<Longrightarrow> mark_done_at i es ! j = es ! j"
  by (simp add: mark_done_at_def)


section \<open>The sharded registry\<close>

type_synonym shard = "ip4 \<rightharpoonup> nat"
type_synonym inflight = "shard list"

definition numInflightShards :: nat where
  "numInflightShards = 1024"

definition inflightShardMask :: u64 where
  "inflightShardMask = of_nat numInflightShards - 1"

definition Inflight_new :: inflight where
  "Inflight_new = replicate numInflightShards Map.empty"

definition shardFor :: "(ip4 \<Rightarrow> u64) \<Rightarrow> ip4 \<Rightarrow> nat" where
  "shardFor hash ip = unat (and (hash ip) inflightShardMask)"

definition Lookup :: "(ip4 \<Rightarrow> u64) \<Rightarrow> inflight \<Rightarrow> ip4 \<Rightarrow> nat option" where
  "Lookup hash r target = (r ! shardFor hash target) target"

text \<open>The write of \<open>Register\<close> and the conditional delete of \<open>Deregister\<close> on the shard's map.\<close>

definition shard_put :: "(ip4 \<Rightarrow> u64) \<Rightarrow> inflight \<Rightarrow> ip4 \<Rightarrow> nat \<Rightarrow> inflight" where
  "shard_put hash r target e =
     (let i = shardFor hash target in r[i := (r ! i)(target \<mapsto> e)])"

definition Deregister :: "(ip4 \<Rightarrow> u64) \<Rightarrow> inflight \<Rightarrow> ip4 \<Rightarrow> nat \<Rightarrow> inflight" where
  "Deregister hash r target e =
     (let i = shardFor hash target
      in if (r ! i) target = Some e then r[i := (r ! i)(target := None)] else r)"

definition Register ::
  "(ip4 \<Rightarrow> u64) \<Rightarrow> inflight \<times> entry list \<Rightarrow> ip4 \<Rightarrow> nat \<Rightarrow> inflight \<times> entry list" where
  "Register hash st target e =
     (let (r, es) = st;
          es' = (case (r ! shardFor hash target) target of
                   Some prev \<Rightarrow> mark_done_at prev es
                 | None \<Rightarrow> es)
      in (shard_put hash r target e, es'))"

definition inflight_ok :: "inflight \<Rightarrow> bool" where
  "inflight_ok r \<longleftrightarrow> length r = numInflightShards"

lemma shardFor_less: "shardFor hash ip < numInflightShards"
proof -
  have "and (hash ip) inflightShardMask = take_bit 10 (hash ip)"
    by (simp add: inflightShardMask_def numInflightShards_def take_bit_eq_mask mask_eq_exp_minus_1)
  then show ?thesis
    by (simp add: shardFor_def numInflightShards_def take_bit_eq_mod unat_mod)
qed


section \<open>The interface of the registry\<close>

text \<open>
  The laws the callers rely on. \<open>put\<close> replaces whatever the target had; \<open>remove\<close> takes effect only
  for the entry that is still the target's current one.
\<close>

locale inflight_map =
  fixes start :: 'r
    and ok :: "'r \<Rightarrow> bool"
    and find :: "'r \<Rightarrow> ip4 \<Rightarrow> nat option"
    and put :: "'r \<Rightarrow> ip4 \<Rightarrow> nat \<Rightarrow> 'r"
    and remove :: "'r \<Rightarrow> ip4 \<Rightarrow> nat \<Rightarrow> 'r"
  assumes ok_start: "ok start"
    and ok_put: "ok r \<Longrightarrow> ok (put r t e)"
    and ok_remove: "ok r \<Longrightarrow> ok (remove r t e)"
    and find_start: "find start t = None"
    and find_put: "ok r \<Longrightarrow> find (put r t e) t' = (if t' = t then Some e else find r t')"
    and find_remove:
      "ok r \<Longrightarrow> find (remove r t e) t' = (if t' = t \<and> find r t = Some e then None else find r t')"

datatype inflight_op = OpRegister ip4 nat | OpDeregister ip4 nat

fun op_entry :: "inflight_op \<Rightarrow> nat" where
  "op_entry (OpRegister t e) = e"
| "op_entry (OpDeregister t e) = e"

text \<open>
  The owners that are waiting: registered and not yet deregistered by their own \<open>Deregister\<close>.
\<close>

fun pending_step :: "(ip4 \<times> nat) set \<Rightarrow> inflight_op \<Rightarrow> (ip4 \<times> nat) set" where
  "pending_step P (OpRegister t e) = insert (t, e) P"
| "pending_step P (OpDeregister t e) = P - {(t, e)}"

definition pending :: "inflight_op list \<Rightarrow> (ip4 \<times> nat) set" where
  "pending ops = foldl pending_step {} ops"

context inflight_map
begin

fun step :: "'r \<times> entry list \<Rightarrow> inflight_op \<Rightarrow> 'r \<times> entry list" where
  "step (r, es) (OpRegister t e) =
     (put r t e, case find r t of Some prev \<Rightarrow> mark_done_at prev es | None \<Rightarrow> es)"
| "step (r, es) (OpDeregister t e) = (remove r t e, es)"

text \<open>No waiting owner is stranded: it is the one its target leads to, or it has been woken.\<close>

definition reachable_or_woken :: "(ip4 \<times> nat) set \<Rightarrow> 'r \<times> entry list \<Rightarrow> bool" where
  "reachable_or_woken P st \<longleftrightarrow>
     (\<forall>t e. (t, e) \<in> P \<longrightarrow>
        e < length (snd st) \<and> (find (fst st) t = Some e \<or> entry_done (snd st ! e)))
   \<and> (\<forall>t e. find (fst st) t = Some e \<longrightarrow> (t, e) \<in> P)"

lemma step_ok: "ok (fst st) \<Longrightarrow> ok (fst (step st op))"
  by (cases "(st, op)" rule: step.cases) (auto simp: ok_put ok_remove)

lemma step_length: "length (snd (step st op)) = length (snd st)"
  by (cases "(st, op)" rule: step.cases) (auto split: option.splits)

lemma step_reachable_or_woken:
  assumes "ok (fst st)" "reachable_or_woken P st" "op_entry op < length (snd st)"
  shows "reachable_or_woken (pending_step P op) (step st op)"
proof (cases "(st, op)" rule: step.cases)
  case (1 r es t e)
  define es' where "es' = (case find r t of Some prev \<Rightarrow> mark_done_at prev es | None \<Rightarrow> es)"
  have mono: "entry_done (es ! i) \<Longrightarrow> entry_done (es' ! i)" for i
    by (simp add: es'_def mark_done_at_mono split: option.split)
  have woken: "find r t = Some i \<Longrightarrow> i < length es \<Longrightarrow> entry_done (es' ! i)" for i
    by (simp add: es'_def mark_done_at_done)
  have len: "length es' = length es"
    by (simp add: es'_def split: option.split)
  have inv: "(t', i) \<in> P \<Longrightarrow> i < length es \<and> (find r t' = Some i \<or> entry_done (es ! i))"
    "find r t' = Some i \<Longrightarrow> (t', i) \<in> P" for t' i
    using assms(2) 1 unfolding reachable_or_woken_def by (simp_all del: split_paired_All)
  have "reachable_or_woken (insert (t, e) P) (put r t e, es')"
    unfolding reachable_or_woken_def
  proof (intro conjI allI impI)
    fix t' i
    assume "(t', i) \<in> insert (t, e) P"
    then show "i < length (snd (put r t e, es'))"
      using inv(1) [of t' i] assms(3) 1 len by auto
    show "find (fst (put r t e, es')) t' = Some i \<or> entry_done (snd (put r t e, es') ! i)"
      using \<open>(t', i) \<in> insert (t, e) P\<close> inv(1) [of t' i] mono [of i] woken [of i] assms(1) 1
      by (cases "t' = t") (auto simp: find_put)
  next
    fix t' i
    assume "find (fst (put r t e, es')) t' = Some i"
    then show "(t', i) \<in> insert (t, e) P"
      using inv(2) [of t' i] assms(1) 1 by (simp add: find_put split: if_splits)
  qed
  then show ?thesis
    using 1 by (simp add: es'_def)
next
  case (2 r es t e)
  then show ?thesis
    using assms by (simp add: reachable_or_woken_def find_remove del: split_paired_All) fastforce
qed

lemma steps_invariant:
  assumes "\<forall>op \<in> set ops. op_entry op < length es"
  shows "ok (fst (foldl step (start, es) ops)) \<and> length (snd (foldl step (start, es) ops)) = length es
    \<and> reachable_or_woken (pending ops) (foldl step (start, es) ops)"
  using assms
proof (induction ops rule: rev_induct)
  case Nil
  then show ?case
    by (simp add: pending_def reachable_or_woken_def ok_start find_start)
next
  case (snoc op ops)
  then show ?case
    by (simp add: pending_def step_ok step_length step_reachable_or_woken)
qed

lemma superseded_survives:
  "\<lbrakk>ok r; e \<noteq> e'\<rbrakk> \<Longrightarrow> find (remove (put r t e') t e) t = Some e'"
  by (simp add: find_remove find_put ok_put)

lemma bracket_restores:
  "\<lbrakk>ok r; find r t = None\<rbrakk> \<Longrightarrow> find (remove (put r t e) t e) t' = find r t'"
  by (simp add: find_remove find_put ok_put)

end

interpretation sharded: inflight_map Inflight_new inflight_ok "Lookup hash" "shard_put hash" "Deregister hash"
  for hash :: "ip4 \<Rightarrow> u64"
proof unfold_locales
  fix r t e t'
  assume ok: "inflight_ok r"
  have less: "shardFor hash t < length r" for t
    using ok shardFor_less by (simp add: inflight_ok_def)
  show "Lookup hash (shard_put hash r t e) t' = (if t' = t then Some e else Lookup hash r t')"
    using less by (simp add: Lookup_def shard_put_def Let_def nth_list_update)
  show "Lookup hash (Deregister hash r t e) t' =
    (if t' = t \<and> Lookup hash r t = Some e then None else Lookup hash r t')"
    using less by (simp add: Lookup_def Deregister_def Let_def nth_list_update)
next
  show "Lookup hash Inflight_new t = None" for t
    using shardFor_less by (simp add: Lookup_def Inflight_new_def)
qed (simp_all add: inflight_ok_def Inflight_new_def shard_put_def Deregister_def Let_def)


section \<open>Properties\<close>

fun run_op :: "(ip4 \<Rightarrow> u64) \<Rightarrow> inflight \<times> entry list \<Rightarrow> inflight_op \<Rightarrow> inflight \<times> entry list" where
  "run_op hash st (OpRegister t e) = Register hash st t e"
| "run_op hash st (OpDeregister t e) = (Deregister hash (fst st) t e, snd st)"

lemma run_op_step: "run_op hash st op = sharded.step hash st op"
  by (cases op; cases st) (simp_all add: Register_def Lookup_def split: option.splits)

lemma run_ops_steps: "foldl (run_op hash) st ops = foldl (sharded.step hash) st ops"
  by (induction ops arbitrary: st) (simp_all add: run_op_step)

text \<open>
  C21: Whatever registrations and deregistrations happen, in whatever order, and for every hash
  function, no prober waits in vain: each one that has registered an entry and has not
  deregistered it is either the one its target's replies are handed to, or its \<open>done\<close> channel has
  been closed because a later probe of the same target took its place; and replies are never
  handed to an entry whose owner has left.
\<close>

theorem inflight_never_strands:
  assumes "\<forall>op \<in> set ops. op_entry op < length es"
    and "foldl (run_op hash) (Inflight_new, es) ops = (r, es')"
  shows "(\<forall>t e. (t, e) \<in> pending ops \<longrightarrow> Lookup hash r t = Some e \<or> entry_done (es' ! e))
    \<and> (\<forall>t e. Lookup hash r t = Some e \<longrightarrow> (t, e) \<in> pending ops)"
  using sharded.steps_invariant [OF assms(1), of hash] assms(2)
  by (auto simp: run_ops_steps sharded.reachable_or_woken_def)

definition demo_entry :: entry where
  "demo_entry = \<lparr>entry_Probe = 0, expectedCount = 1, expectedDsts = ((192, 0, 2, 1), (192, 0, 2, 1)),
     expectedMinPort = 40000, expectedMaxPort = 40003, basePort = 40000, expectedFlags = FlagsDefault,
     expectedMinSeq = 0, expectedMaxSeq = 15, validCount = 0, entry_done = False\<rparr>"

theorem inflight_never_strands_witness:
  "Lookup (\<lambda>_. 5) (fst (foldl (run_op (\<lambda>_. 5)) (Inflight_new, [demo_entry, demo_entry])
      [OpRegister (198, 51, 100, 7) 0, OpRegister (198, 51, 100, 7) 1, OpDeregister (198, 51, 100, 7) 0]))
      (198, 51, 100, 7) = Some 1
   \<or> entry_done (snd (foldl (run_op (\<lambda>_. 5)) (Inflight_new, [demo_entry, demo_entry])
      [OpRegister (198, 51, 100, 7) 0, OpRegister (198, 51, 100, 7) 1, OpDeregister (198, 51, 100, 7) 0]) ! 1)"
  (is "Lookup _ (fst ?st) _ = _ \<or> _")
proof -
  have "?st = (fst ?st, snd ?st)" by simp
  from inflight_never_strands [OF _ this] show ?thesis
    by (simp add: pending_def)
qed

text \<open>
  A late \<open>Deregister\<close> of a superseded probe leaves its successor registered, and a prober that
  registers on a free target and deregisters leaves every lookup as it was.
\<close>

theorem deregister_only_own:
  assumes "inflight_ok r"
  shows "(e \<noteq> e' \<longrightarrow>
      Lookup hash (Deregister hash (fst (Register hash (r, es) t e')) t e) t = Some e')
    \<and> (Lookup hash r t = None \<longrightarrow>
      Lookup hash (Deregister hash (fst (Register hash (r, es) t e)) t e) t' = Lookup hash r t')"
  using assms sharded.superseded_survives [of r e e' hash t] sharded.bracket_restores [of r hash t e t']
  by (simp add: Register_def)

theorem deregister_only_own_witness:
  "Lookup (\<lambda>_. 77) (Deregister (\<lambda>_. 77) (fst (Register (\<lambda>_. 77) (Inflight_new, []) (1, 2, 3, 4) 8))
     (1, 2, 3, 4) 7) (1, 2, 3, 4) = Some 8"
  using deregister_only_own [of Inflight_new 7 8 "\<lambda>_. 77" "[]" "(1, 2, 3, 4)"]
  by (simp add: inflight_ok_def Inflight_new_def)

end
