(* ===== verification/Stats.thy ===== *)
theory Stats
  imports Types
begin

text \<open>
  \<^verbatim>\<open>ipid/stats/stats.go\<close> and \<^verbatim>\<open>ipid/stats/tcp_flags.go\<close>: the atomic counters of a run. The
  package variables become the constructors of \<open>counter\<close>, a state of all counters is a function, and
  \<open>atomic.AddInt64(c, 1)\<close> is \<open>bump c\<close>. The counters are unbounded integers here; an \<open>int64\<close> would need
  more than 9 * 10^18 events to differ. The progress line of \<open>Log\<close> (rates, times, memory) is not
  modelled; the counter summaries it prints are.
\<close>

section \<open>Counters\<close>

datatype TCPReplyPhase = TCPNoConnection | TCPHandshake | TCPData

datatype counter =
    AbortProto | CapturePackets | CaptureDrops | CaptureStatsErrors | DropUnsent
  | AbortBadDst | AbortBadPort | AbortSeqOOR | AbortUnsent | AbortReset | AbortBadFlags
  | AbortDup | AbortLate | DropTCPSequence | AbortTCPSequence
  | NumberOfTargetIPAddresses | ValidProbes | ProbeCount
  | InFlightProbes | SentBytes | SentPackets | MatchedReplies
  | DropDecode | DropProto | DropNoEntry | DropBadDst | DropBadPort | DropBadFlags | DropSeqOOR
  | DropLate | DropDup
  | DropBadTarget | DropLimiterStop | DropSendErr | DropTimeout | DropInterrupt | DropNotRecv
  | DropRateLow
  | ProbesReachedSeq u16
  | tcpBadFlags TCPReplyPhase nat

type_synonym stats = "counter \<Rightarrow> int"

definition add_to :: "counter \<Rightarrow> int \<Rightarrow> stats \<Rightarrow> stats" where
  "add_to c n s = s(c := s c + n)"

abbreviation bump :: "counter \<Rightarrow> stats \<Rightarrow> stats" where
  "bump c \<equiv> add_to c 1"

definition bump_opt :: "counter option \<Rightarrow> stats \<Rightarrow> stats" where
  "bump_opt c s = (case c of None \<Rightarrow> s | Some c \<Rightarrow> bump c s)"

lemma add_to_apply [simp]: "add_to c n s c' = (if c' = c then s c + n else s c')"
  by (simp add: add_to_def)

lemma bump_opt_simps [simp]: "bump_opt None s = s" "bump_opt (Some c) s = bump c s"
  by (simp_all add: bump_opt_def)

text \<open>
  The reasons for which the receiver drops a single packet, and the reasons for which a probe is
  given up.
\<close>

definition reply_drop_counters :: "(string \<times> counter) list" where
  "reply_drop_counters =
     [(''decode'', DropDecode), (''proto'', DropProto), (''no_entry'', DropNoEntry),
      (''bad_dst'', DropBadDst), (''bad_port'', DropBadPort), (''bad_flags'', DropBadFlags),
      (''seq_oor'', DropSeqOOR), (''late'', DropLate), (''dup'', DropDup),
      (''unsent'', DropUnsent), (''tcp_seq'', DropTCPSequence)]"

definition probe_drop_counters :: "(string \<times> counter) list" where
  "probe_drop_counters =
     [(''proto'', AbortProto), (''bad_target'', DropBadTarget), (''limiter_stop'', DropLimiterStop),
      (''send_err'', DropSendErr), (''timeout'', DropTimeout), (''interrupt'', DropInterrupt),
      (''not_recv'', DropNotRecv), (''rate_low'', DropRateLow), (''bad_dst'', AbortBadDst),
      (''bad_port'', AbortBadPort), (''seq_oor'', AbortSeqOOR), (''unsent'', AbortUnsent),
      (''reset'', AbortReset), (''bad_flags'', AbortBadFlags), (''dup'', AbortDup),
      (''late'', AbortLate), (''tcp_seq'', AbortTCPSequence)]"

text \<open>The text of one \<open>strings.Builder\<close> after appending an item, with a space between items.\<close>

definition append_item :: "string \<Rightarrow> string \<Rightarrow> string" where
  "append_item sb s = (if length sb > 0 then sb @ '' '' else sb) @ s"

fun join_items :: "string \<Rightarrow> (string \<times> int) list \<Rightarrow> string" where
  "join_items sb [] = sb"
| "join_items sb ((name, val) # items) =
     (if val = 0 then join_items sb items
      else join_items (append_item sb (name @ ''='' @ dec_of_int val)) items)"

definition joinNonZero :: "(string \<times> int) list \<Rightarrow> string" where
  "joinNonZero items = (let sb = join_items [] items in if length sb = 0 then ''none'' else sb)"

definition replyDropSummary :: "stats \<Rightarrow> string" where
  "replyDropSummary s = joinNonZero (map (\<lambda>(n, c). (n, s c)) reply_drop_counters)"

definition probeDropSummary :: "stats \<Rightarrow> string" where
  "probeDropSummary s = joinNonZero (map (\<lambda>(n, c). (n, s c)) probe_drop_counters)"

definition captureSummary :: "stats \<Rightarrow> string" where
  "captureSummary s = ''packets='' @ dec_of_int (s CapturePackets) @ '' dropped=''
     @ dec_of_int (s CaptureDrops) @ '' errors='' @ dec_of_int (s CaptureStatsErrors)"


section \<open>TCP flag histograms\<close>

definition tcpFlagNames :: "flag list" where
  "tcpFlagNames = [TCPFlagFIN, TCPFlagSYN, TCPFlagRST, TCPFlagPSH, TCPFlagACK, TCPFlagURG,
     TCPFlagECE, TCPFlagCWR, TCPFlagNS]"

definition flags_mask :: "flag_set \<Rightarrow> nat" where
  "flags_mask flags =
     foldl (\<lambda>m (b, flag). if set_contains flags flag then or m (push_bit b 1) else m)
       0 (enumerate 0 tcpFlagNames)"

definition RecordTCPBadFlags :: "TCPReplyPhase \<Rightarrow> flag_set \<Rightarrow> stats \<Rightarrow> stats" where
  "RecordTCPBadFlags phase flags s = bump (tcpBadFlags phase (flags_mask flags)) s"

definition mask_flags :: "nat \<Rightarrow> flag list" where
  "mask_flags m =
     map snd (filter (\<lambda>(b, flag). and m (push_bit b 1) \<noteq> 0) (enumerate 0 tcpFlagNames))"

definition bad_flags_item :: "string \<Rightarrow> nat \<Rightarrow> int \<Rightarrow> string" where
  "bad_flags_item name m count =
     name @ '':'' @ (concat (mask_flags m) @ (if m = 0 then ''NONE'' else []))
       @ ''='' @ dec_of_int count"

definition phase_names :: "(TCPReplyPhase \<times> string) list" where
  "phase_names = [(TCPNoConnection, ''no_connection''), (TCPHandshake, ''handshake''), (TCPData, ''data'')]"

definition TCPBadFlagsSummary :: "stats \<Rightarrow> string" where
  "TCPBadFlagsSummary s =
     foldl (\<lambda>result ((phase, name), m).
         let count = s (tcpBadFlags phase m)
         in if count = 0 then result else append_item result (bad_flags_item name m count))
       [] (List.product phase_names [0..<512])"


section \<open>Properties\<close>

lemma join_items_equals_sign:
  "CHR ''='' \<in> set sb \<or> (\<exists>(n, v) \<in> set items. v \<noteq> 0) \<Longrightarrow> CHR ''='' \<in> set (join_items sb items)"
  by (induction sb items rule: join_items.induct) (auto simp: append_item_def)

lemma join_items_zero: "\<forall>(n, v) \<in> set items. v = 0 \<Longrightarrow> join_items sb items = sb"
  by (induction sb items rule: join_items.induct) auto

lemma joinNonZero_none_iff: "joinNonZero items = ''none'' \<longleftrightarrow> (\<forall>(n, v) \<in> set items. v = 0)"
proof
  assume none: "joinNonZero items = ''none''"
  show "\<forall>(n, v) \<in> set items. v = 0"
  proof (rule ccontr)
    assume "\<not> (\<forall>(n, v) \<in> set items. v = 0)"
    then have "CHR ''='' \<in> set (join_items [] items)"
      by (intro join_items_equals_sign) auto
    then show False
      using none by (auto simp: joinNonZero_def Let_def split: if_splits)
  qed
qed (simp add: joinNonZero_def join_items_zero)

text \<open>
  The log line says \<open>none\<close> for dropped packets exactly when none was dropped for any reason: every
  counter a dropped packet can go to is part of the summary.
\<close>

theorem replyDropSummary_none_iff:
  "replyDropSummary s = ''none'' \<longleftrightarrow>
     s DropDecode = 0 \<and> s DropProto = 0 \<and> s DropNoEntry = 0 \<and> s DropBadDst = 0 \<and> s DropBadPort = 0
   \<and> s DropBadFlags = 0 \<and> s DropSeqOOR = 0 \<and> s DropLate = 0 \<and> s DropDup = 0 \<and> s DropUnsent = 0
   \<and> s DropTCPSequence = 0"
  by (simp add: replyDropSummary_def joinNonZero_none_iff reply_drop_counters_def)

lemma bit_flags_fold:
  "bit (foldl (\<lambda>m (b, flag). if set_contains F flag then or m (push_bit b 1) else m) (m :: nat)
      (enumerate k xs)) i
   \<longleftrightarrow> bit m i \<or> (k \<le> i \<and> i < k + length xs \<and> set_contains F (xs ! (i - k)))"
proof (induction xs arbitrary: m k)
  case Nil
  then show ?case by auto
next
  case (Cons x xs)
  let ?m = "if set_contains F x then or m (push_bit k 1) else m"
  have head: "bit ?m i \<longleftrightarrow> bit m i \<or> (i = k \<and> set_contains F x)"
    by (auto simp: bit_simps)
  have tail: "Suc k \<le> i \<Longrightarrow> (x # xs) ! (i - k) = xs ! (i - Suc k)"
    by (simp add: nth_Cons')
  have "bit (foldl (\<lambda>m (b, flag). if set_contains F flag then or m (push_bit b 1) else m) ?m
        (enumerate (Suc k) xs)) i
    \<longleftrightarrow> bit ?m i \<or> (Suc k \<le> i \<and> i < Suc k + length xs \<and> set_contains F (xs ! (i - Suc k)))"
    by (rule Cons.IH)
  also have "\<dots> \<longleftrightarrow> bit m i \<or> (k \<le> i \<and> i < k + length (x # xs) \<and> set_contains F ((x # xs) ! (i - k)))"
    unfolding head using tail by (cases "i = k") auto
  finally show ?case by simp
qed

lemma bit_flags_mask:
  "bit (flags_mask F) i \<longleftrightarrow> i < length tcpFlagNames \<and> set_contains F (tcpFlagNames ! i)"
  by (simp add: flags_mask_def bit_flags_fold)

text \<open>
  The histogram bucket of a reply with unexpected TCP flags lies within the 512 buckets of its
  phase, and its label names exactly the flags of the reply, each once, in the fixed flag order.
\<close>

theorem tcp_bad_flags_bucket:
  "flags_mask F < 2 ^ length tcpFlagNames
   \<and> mask_flags (flags_mask F) = filter (set_contains F) tcpFlagNames"
proof
  have "flags_mask F = take_bit 9 (flags_mask F)"
    by (rule bit_eqI) (auto simp: bit_flags_mask bit_simps tcpFlagNames_def)
  then show "flags_mask F < 2 ^ length tcpFlagNames"
    using take_bit_nat_less_exp [of 9 "flags_mask F"] by (simp add: tcpFlagNames_def)
next
  have "and (flags_mask F) (push_bit b 1) \<noteq> 0 \<longleftrightarrow> bit (flags_mask F) b" for b
    by (simp add: push_bit_eq_mult and_exp_eq_0_iff_not_bit)
  then show "mask_flags (flags_mask F) = filter (set_contains F) tcpFlagNames"
    by (simp add: mask_flags_def bit_flags_mask)
       (simp add: tcpFlagNames_def enumerate_eq_zip)
qed

end
