(* ===== verification/Probe.thy ===== *)
theory Probe
  imports Inflight Stats Packet
begin

text \<open>
  The receiver's side of a probe: \<^verbatim>\<open>ipid/probe/probe.go\<close> (samples, \<open>FulfillReply\<close>, flag checks) and
  \<^verbatim>\<open>ipid/probe/base.go\<close> (the strict protocol of the 4 x 4 base measurement). A captured reply is
  handed to the entry of its source address; it either fills exactly one sample or is dropped under
  exactly one counter, and in a strict probe a drop gives the whole probe up.

  Every operation is one step on the entry, the probe and the counters. For a strict probe the code has this by the
  probe's mutex. A lenient probe has no lock: \<open>FulfillReply\<close> is a sequence of atomic accesses there, and taking it
  for one step is an abstraction. What decides is the compare-and-swap of \<open>TryFill\<close>, which lets one reply in;
  \<^verbatim>\<open>Sample_Race.thy\<close> splits the accesses to a sample into single loads and stores. After the swap come the
  acknowledgment number, the queue and the handshake count of a connection, then the count of the entry, and last its
  \<open>done\<close> channel: a prober woken by \<open>done\<close> finds all of them written. What a goroutine that does not
  wait for \<open>done\<close> may see between these writes is not modelled; here the reply arrives before or after. \<open>None\<close> stands for what a Go program cannot return
  from: a run-time panic (index, nil dereference, double close) or a send on a full channel that
  nobody empties. The theorems show that well-formed probes never get there.
\<close>

section \<open>Samples\<close>

datatype SampleState = SampleEmpty | SampleSent | SampleReceived | SamplePending

record sample =
  sample_state :: SampleState
  SentTime :: int
  ReceiveTime :: int
  IpID :: u16
  DontFragment :: bool
  tcpSequence :: u32

definition empty_sample :: sample where
  "empty_sample = \<lparr>sample_state = SampleEmpty, SentTime = 0, ReceiveTime = 0, IpID = 0,
     DontFragment = False, tcpSequence = 0\<rparr>"

definition MarkSent :: "int \<Rightarrow> sample \<Rightarrow> sample" where
  "MarkSent now s = s\<lparr>SentTime := now, sample_state := SampleSent\<rparr>"

definition TryFill :: "u16 \<Rightarrow> int \<Rightarrow> bool \<Rightarrow> sample \<Rightarrow> bool \<times> sample" where
  "TryFill ipID receiveTime dontFragment s =
     (if sample_state s \<noteq> SampleSent then (False, s)
      else let s = s\<lparr>sample_state := SamplePending\<rparr>;
               s = s\<lparr>IpID := ipID\<rparr>;
               s = s\<lparr>ReceiveTime := receiveTime\<rparr>;
               s = s\<lparr>DontFragment := dontFragment\<rparr>
           in (True, s\<lparr>sample_state := SampleReceived\<rparr>))"

definition IsReceived :: "sample \<Rightarrow> bool" where
  "IsReceived s \<longleftrightarrow> sample_state s = SampleReceived"

definition WasSent :: "sample \<Rightarrow> bool" where
  "WasSent s \<longleftrightarrow> sample_state s \<noteq> SampleEmpty"


section \<open>Probes\<close>

datatype probe_status = probeActive | probeFailed | probeComplete

text \<open>
  A channel that is only ever closed is \<open>None\<close> when nil and \<open>Some closed\<close> otherwise; \<open>replyReady\<close>, of
  capacity one, is \<open>Some\<close> whether it holds its token; \<open>tcpACKReplies\<close> is the queue of its contents.
\<close>

record probe =
  Target :: ip4
  TargetStrategy :: string
  Samples :: "sample list"
  strict :: bool
  status :: probe_status
  failed :: "bool option"
  replyReady :: "bool option"
  tcpAcknowledgments :: "u32 list"
  tcpAckReady :: "bool list"
  tcpHandshakeCount :: u32
  tcpHandshakeDone :: "bool option"
  tcpHandshakeOnce :: bool
  tcpACKReplies :: "u16 list option"

text \<open>Closing a nil or an already closed channel panics.\<close>

definition close_chan :: "bool option \<Rightarrow> bool option option" where
  "close_chan ch = (if ch = Some False then Some (Some True) else None)"

definition failLocked :: "counter option \<Rightarrow> probe \<times> stats \<Rightarrow> (probe \<times> stats) option" where
  "failLocked reason ps =
     (let (p, s) = ps in
      if status p \<noteq> probeActive then Some (p, s)
      else do {
        ch \<leftarrow> close_chan (failed p);
        Some (p\<lparr>status := probeFailed, failed := ch\<rparr>, bump_opt reason s)
      })"

definition fail :: "counter option \<Rightarrow> probe \<times> stats \<Rightarrow> (probe \<times> stats) option" where
  "fail reason ps =
     (let (p, s) = ps in
      if \<not> strict p then Some (p, bump_opt reason s) else failLocked reason (p, s))"

definition complete :: "probe \<Rightarrow> bool \<times> probe" where
  "complete p =
     (if \<not> strict p then (True, p)
      else if status p \<noteq> probeActive then (False, p)
      else (True, p\<lparr>status := probeComplete\<rparr>))"

text \<open>A send on \<open>tcpACKReplies\<close>: skipped when nil, stuck when the buffer is full.\<close>

definition send_ack_reply :: "mctx \<Rightarrow> u16 \<Rightarrow> probe \<Rightarrow> probe option" where
  "send_ack_reply g connection p =
     (case tcpACKReplies p of
        None \<Rightarrow> Some p
      | Some q \<Rightarrow>
          if length q < unat (RequestCount g) then Some (p\<lparr>tcpACKReplies := Some (q @ [connection])\<rparr>)
          else None)"

definition count_handshake :: "mctx \<Rightarrow> probe \<Rightarrow> probe option" where
  "count_handshake g p =
     (let n = tcpHandshakeCount p + 1; p = p\<lparr>tcpHandshakeCount := n\<rparr>
      in if n = ucast (ConnectionCount (Config g)) \<and> \<not> tcpHandshakeOnce p
         then do {
           ch \<leftarrow> close_chan (tcpHandshakeDone p);
           Some (p\<lparr>tcpHandshakeOnce := True, tcpHandshakeDone := ch\<rparr>)
         }
         else Some p)"

definition store_ack :: "u16 \<Rightarrow> u32 \<Rightarrow> probe \<Rightarrow> probe option" where
  "store_ack connection acknowledgment p = do {
     acks \<leftarrow> upd_opt (tcpAcknowledgments p) (unat connection) acknowledgment;
     Some (p\<lparr>tcpAcknowledgments := acks\<rparr>)
   }"

definition set_ack_ready :: "u16 \<Rightarrow> probe \<Rightarrow> probe option" where
  "set_ack_ready connection p = do {
     ready \<leftarrow> upd_opt (tcpAckReady p) (unat connection) True;
     Some (p\<lparr>tcpAckReady := ready\<rparr>)
   }"

text \<open>The handshake bookkeeping of an accepted SYN/ACK, the same in both protocols.\<close>

definition note_handshake :: "mctx \<Rightarrow> u16 \<Rightarrow> u32 \<Rightarrow> probe \<Rightarrow> probe option" where
  "note_handshake g connection acknowledgment p = do {
     p \<leftarrow> store_ack connection acknowledgment p;
     p \<leftarrow> set_ack_ready connection p;
     p \<leftarrow> send_ack_reply g connection p;
     count_handshake g p
   }"


section \<open>Matching a reply\<close>

text \<open>What the receiver decoded from a captured packet: the parameters of \<open>FulfillReply\<close>.\<close>

record reply =
  r_dst :: ip4
  r_protocol :: u8
  r_dstPort :: u16
  r_recoveredSeq :: u32
  r_tcpSeq :: u32
  r_ipID :: u16
  r_flags :: flag_set
  r_receiveTime :: int
  r_payloadLength :: u16
  r_dontFragment :: bool

definition recoverLogicalSequence :: "mctx \<Rightarrow> entry \<Rightarrow> u16 \<Rightarrow> u32 \<Rightarrow> u16 option" where
  "recoverLogicalSequence g e dstPort recoveredSeq =
     (if TcpEstablishConnection g then
        FromTCPAcknowledgment recoveredSeq (TcpSequenceNumOffset g) dstPort (basePort e)
          (ConnectionCount (Config g)) (RequestsPerConnection (Config g))
      else if recoveredSeq > 65535 then None
      else Some (ucast recoveredSeq))"

definition payloadFlagsMatch :: "mctx \<Rightarrow> flag_set \<Rightarrow> payload \<Rightarrow> bool" where
  "payloadFlagsMatch g replyFlags active =
     (if ProtocolID active = 6 then
        list_ex (\<lambda>expected. set_equal replyFlags expected) (ReplyFlags (TCPConfig (Config g)))
      else if ProtocolID active = 17 then set_contains replyFlags DNSFlagQR
      else ProtocolID active = 1)"

text \<open>\<open>defaultFlagsMatch\<close> reads the active payload, nil in an inter-protocol run, after that check.\<close>

definition defaultFlagsMatch :: "mctx \<Rightarrow> flag_set \<Rightarrow> bool option" where
  "defaultFlagsMatch g replyFlags =
     (if IsInterProtocol g then Some False
      else map_option (payloadFlagsMatch g replyFlags) (Active g))"

definition flagsMatch :: "mctx \<Rightarrow> FlagExpectation \<Rightarrow> flag_set \<Rightarrow> bool option" where
  "flagsMatch g mode replyFlags =
     (case mode of
        FlagsSynAck \<Rightarrow> Some (set_equal replyFlags SynAckFlagSet)
      | FlagsAck \<Rightarrow> Some (set_equal replyFlags AckFlagSet)
      | FlagsDefault \<Rightarrow> defaultFlagsMatch g replyFlags)"

definition flagsMatchPayload :: "mctx \<Rightarrow> FlagExpectation \<Rightarrow> flag_set \<Rightarrow> payload \<Rightarrow> bool option" where
  "flagsMatchPayload g mode replyFlags active =
     (if mode \<noteq> FlagsDefault then flagsMatch g mode replyFlags
      else Some (payloadFlagsMatch g replyFlags active))"

definition reply_hasPorts :: "mctx \<Rightarrow> payload \<Rightarrow> bool" where
  "reply_hasPorts g active =
     (if IsInterProtocol g then ProtocolID active = 6 \<or> ProtocolID active = 17 else HasPorts g)"

definition expectedReplyFlags :: "mctx \<Rightarrow> FlagExpectation \<Rightarrow> u16 \<Rightarrow> FlagExpectation" where
  "expectedReplyFlags g mode logicalSeq =
     (if TcpEstablishConnection g
      then if GetRequestIndex g logicalSeq = 0 then FlagsSynAck else FlagsAck
      else mode)"

definition Microseconds :: "int \<Rightarrow> int" where
  "Microseconds d = (if d < 0 then - (- d div 1000) else d div 1000)"


section \<open>The lenient protocol\<close>

text \<open>
  \<open>InflightEntry.FulfillReply\<close> for a probe that is not strict. \<open>lenient_check\<close> is its sequence of
  tests, in the code's order: the counter of the first test that fails, or the recovered sequence
  number with the flag expectation. \<open>lenient_commit\<close> is the rest: fill the sample, note a handshake,
  count the reply.
\<close>

definition lenient_check :: "mctx \<Rightarrow> reply \<Rightarrow> entry \<Rightarrow> probe \<Rightarrow> (counter + u16 \<times> FlagExpectation) option" where
  "lenient_check g r e p =
     (if r_dst r \<noteq> fst (expectedDsts e) \<and> r_dst r \<noteq> snd (expectedDsts e) then Some (Inl DropBadDst)
      else case recoverLogicalSequence g e (r_dstPort r) (r_recoveredSeq r) of
        None \<Rightarrow> Some (Inl DropSeqOOR)
      | Some logicalSeq \<Rightarrow> do {
          active \<leftarrow> ForSequence g logicalSeq;
          if ProtocolID active \<noteq> r_protocol r then Some (Inl DropProto)
          else if IsInterProtocol g \<and> r_dst r \<noteq> GetSender g logicalSeq then Some (Inl DropBadDst)
          else let hasPorts = reply_hasPorts g active in
          if hasPorts \<and> (r_dstPort r < expectedMinPort e \<or> r_dstPort r > expectedMaxPort e)
          then Some (Inl DropBadPort)
          else if IsInterProtocol g \<and> hasPorts \<and> r_dstPort r \<noteq> GetSrcPort g logicalSeq (basePort e)
          then Some (Inl DropBadPort)
          else let expected = expectedReplyFlags g (expectedFlags e) logicalSeq in do {
            flagsOK \<leftarrow> flagsMatchPayload g expected (r_flags r) active;
            if \<not> flagsOK then Some (Inl DropBadFlags)
            else if logicalSeq < expectedMinSeq e \<or> logicalSeq > expectedMaxSeq e
            then Some (Inl DropSeqOOR)
            else do {
              sample \<leftarrow> nth_opt (Samples p) (unat logicalSeq);
              if \<not> WasSent sample then Some (Inl DropDup)
              else if r_receiveTime r < SentTime sample then Some (Inl DropUnsent)
              else if r_receiveTime r - SentTime sample > Microseconds (MaximumToleratedRTT (Config g))
              then Some (Inl DropLate)
              else Some (Inr (logicalSeq, expected))
            }
          }
        })"

definition count_valid :: "entry \<Rightarrow> entry" where
  "count_valid e =
     (let e = e\<lparr>validCount := validCount e + 1\<rparr>
      in if ucast (expectedCount e) \<le> validCount e then markDone e else e)"

definition lenient_commit ::
  "mctx \<Rightarrow> reply \<Rightarrow> u16 \<Rightarrow> FlagExpectation \<Rightarrow> entry \<Rightarrow> probe \<Rightarrow> stats \<Rightarrow>
   (bool \<times> entry \<times> probe \<times> stats) option" where
  "lenient_commit g r logicalSeq expected e p s = do {
     sample \<leftarrow> nth_opt (Samples p) (unat logicalSeq);
     let (filled, sample) = TryFill (r_ipID r) (r_receiveTime r) (r_dontFragment r) sample;
     if \<not> filled then Some (False, e, p, bump DropDup s)
     else do {
       p \<leftarrow> Some (p\<lparr>Samples := (Samples p)[unat logicalSeq := sample]\<rparr>);
       p \<leftarrow> (if TcpEstablishConnection g \<and> expected = FlagsSynAck
            then note_handshake g (GetConnectionIndex g logicalSeq) (r_tcpSeq r + 1) p
            else Some p);
       Some (True, count_valid e, p, bump MatchedReplies s)
     }
   }"


section \<open>The strict protocol of base measurements\<close>

text \<open>
  \<open>fulfillBaseReply\<close>, again as the sequence of tests and the commit. A failed test names the packet's
  counter, the probe's counter, and for unexpected TCP flags the phase of the histogram.
\<close>

type_synonym base_reject = "counter \<times> counter \<times> TCPReplyPhase option"

definition flags_phase :: "FlagExpectation \<Rightarrow> TCPReplyPhase" where
  "flags_phase expected =
     (if expected = FlagsSynAck then TCPHandshake
      else if expected = FlagsAck then TCPData else TCPNoConnection)"

text \<open>A data reply may carry \<open>PSH\<close> beside \<open>ACK\<close>, nothing else.\<close>

definition base_flags_valid :: "mctx \<Rightarrow> FlagExpectation \<Rightarrow> flag_set \<Rightarrow> payload \<Rightarrow> bool option" where
  "base_flags_valid g expected flags active = do {
     valid \<leftarrow> flagsMatchPayload g expected flags active;
     Some (if expected = FlagsAck
       then set_contains flags TCPFlagACK
         \<and> (fcard flags = 1 \<or> fcard flags = 2 \<and> set_contains flags TCPFlagPSH)
       else valid)
   }"

text \<open>
  The window check on a data segment of an established connection: payload must continue the byte
  stream, a bare acknowledgment must lie between the connection's start and its next byte.
\<close>

definition base_segment_bad :: "mctx \<Rightarrow> reply \<Rightarrow> u16 \<Rightarrow> probe \<Rightarrow> bool option" where
  "base_segment_bad g r connection p = do {
     sample \<leftarrow> nth_opt (Samples p) (unat connection);
     next \<leftarrow> nth_opt (tcpAcknowledgments p) (unat connection);
     ready \<leftarrow> nth_opt (tcpAckReady p) (unat connection);
     let start = tcpSequence sample + 1;
     Some (\<not> ready \<or> (r_payloadLength r > 0 \<and> r_tcpSeq r \<noteq> next)
       \<or> (r_payloadLength r = 0 \<and> r_tcpSeq r - start > next - start))
   }"

definition base_check :: "mctx \<Rightarrow> reply \<Rightarrow> entry \<Rightarrow> probe \<Rightarrow> (base_reject + u16 \<times> FlagExpectation) option" where
  "base_check g r e p =
     (if r_dst r \<noteq> fst (expectedDsts e) \<and> r_dst r \<noteq> snd (expectedDsts e)
      then Some (Inl (DropBadDst, AbortBadDst, None))
      else case recoverLogicalSequence g e (r_dstPort r) (r_recoveredSeq r) of
        None \<Rightarrow> Some (Inl (DropSeqOOR, AbortSeqOOR, None))
      | Some q \<Rightarrow>
        if length (Samples p) \<le> unat q then Some (Inl (DropSeqOOR, AbortSeqOOR, None))
        else if r_dst r \<noteq> GetSender g q then Some (Inl (DropBadDst, AbortBadDst, None))
        else do {
          active \<leftarrow> ForSequence g q;
          if ProtocolID active \<noteq> r_protocol r then Some (Inl (DropProto, AbortProto, None))
          else let hasPorts = reply_hasPorts g active in
          if hasPorts \<and> (r_dstPort r < expectedMinPort e \<or> r_dstPort r > expectedMaxPort e)
          then Some (Inl (DropBadPort, AbortBadPort, None))
          else if hasPorts \<and> r_dstPort r \<noteq> GetSrcPort g q (basePort e)
          then Some (Inl (DropBadPort, AbortBadPort, None))
          else do {
            sample \<leftarrow> nth_opt (Samples p) (unat q);
            if sample_state sample = SampleEmpty then Some (Inl (DropUnsent, AbortUnsent, None))
            else if sample_state sample \<noteq> SampleSent then Some (Inl (DropDup, AbortDup, None))
            else if r_receiveTime r < SentTime sample then Some (Inl (DropUnsent, AbortUnsent, None))
            else if TcpEstablishConnection g \<and> set_contains (r_flags r) TCPFlagRST
            then Some (Inl (DropBadFlags, AbortReset, None))
            else let expected = expectedReplyFlags g FlagsDefault q in do {
              flagsOK \<leftarrow> base_flags_valid g expected (r_flags r) active;
              if \<not> flagsOK
              then Some (Inl (DropBadFlags, AbortBadFlags,
                if payload_ID active = PayloadTCP then Some (flags_phase expected) else None))
              else if r_receiveTime r - SentTime sample > Microseconds (MaximumToleratedRTT (Config g))
              then Some (Inl (DropLate, AbortLate, None))
              else if TcpEstablishConnection g \<and> expected = FlagsAck then do {
                bad \<leftarrow> base_segment_bad g r (GetConnectionIndex g q) p;
                if bad then Some (Inl (DropTCPSequence, AbortTCPSequence, None))
                else Some (Inr (q, expected))
              }
              else Some (Inr (q, expected))
            }
          }
        })"

text \<open>\<open>reject\<close>: count the packet, give the probe up.\<close>

definition base_reject :: "reply \<Rightarrow> base_reject \<Rightarrow> entry \<Rightarrow> probe \<Rightarrow> stats \<Rightarrow> (bool \<times> entry \<times> probe \<times> stats) option" where
  "base_reject r rej e p s =
     (case rej of (packetCounter, probeCounter, phase) \<Rightarrow> do {
        s \<leftarrow> Some (case phase of None \<Rightarrow> s | Some ph \<Rightarrow> RecordTCPBadFlags ph (r_flags r) s);
        (p, s) \<leftarrow> failLocked (Some probeCounter) (p, bump packetCounter s);
        Some (False, e, p, s)
      })"

definition note_reply_ready :: "mctx \<Rightarrow> probe \<Rightarrow> probe" where
  "note_reply_ready g p =
     (if MeasurementMode (Config g) = MeasurementModeRTBased \<and> replyReady p = Some False
      then p\<lparr>replyReady := Some True\<rparr> else p)"

definition base_commit ::
  "mctx \<Rightarrow> reply \<Rightarrow> u16 \<Rightarrow> FlagExpectation \<Rightarrow> entry \<Rightarrow> probe \<Rightarrow> stats \<Rightarrow>
   (bool \<times> entry \<times> probe \<times> stats) option" where
  "base_commit g r q expected e p s = do {
     sample \<leftarrow> nth_opt (Samples p) (unat q);
     let (filled, sample) = TryFill (r_ipID r) (r_receiveTime r) (r_dontFragment r)
                              (sample\<lparr>tcpSequence := r_tcpSeq r\<rparr>);
     p \<leftarrow> Some (p\<lparr>Samples := (Samples p)[unat q := sample]\<rparr>);
     if \<not> filled then base_reject r (DropDup, AbortDup, None) e p s
     else let connection = GetConnectionIndex g q; len = ucast (r_payloadLength r) in do {
       p \<leftarrow> (if TcpEstablishConnection g \<and> expected = FlagsSynAck
            then note_handshake g connection (r_tcpSeq r + 1 + len) p
            else if TcpEstablishConnection g \<and> r_payloadLength r > 0 then do {
              p \<leftarrow> store_ack connection (r_tcpSeq r + len) p;
              send_ack_reply g connection p
            }
            else Some p);
       Some (True, count_valid e, note_reply_ready g p, bump MatchedReplies s)
     }
   }"

definition fulfillBaseReply ::
  "mctx \<Rightarrow> reply \<Rightarrow> entry \<Rightarrow> probe \<Rightarrow> stats \<Rightarrow> (bool \<times> entry \<times> probe \<times> stats) option" where
  "fulfillBaseReply g r e p s =
     (if status p \<noteq> probeActive then Some (False, e, p, s)
      else do {
        v \<leftarrow> base_check g r e p;
        case v of
          Inl rej \<Rightarrow> base_reject r rej e p s
        | Inr (q, expected) \<Rightarrow> base_commit g r q expected e p s
      })"

definition FulfillReply ::
  "mctx \<Rightarrow> reply \<Rightarrow> entry \<Rightarrow> probe \<Rightarrow> stats \<Rightarrow> (bool \<times> entry \<times> probe \<times> stats) option" where
  "FulfillReply g r e p s =
     (if strict p then fulfillBaseReply g r e p s
      else do {
        v \<leftarrow> lenient_check g r e p;
        case v of
          Inl c \<Rightarrow> Some (False, e, p, bump c s)
        | Inr (q, expected) \<Rightarrow> lenient_commit g r q expected e p s
      })"

definition AcceptProtocol :: "mctx \<Rightarrow> u8 \<Rightarrow> probe \<Rightarrow> stats \<Rightarrow> (bool \<times> probe \<times> stats) option" where
  "AcceptProtocol g protocol p s = do {
     accepted \<leftarrow> (if IsInterProtocol g
        then Some (list_ex (\<lambda>candidate.
            candidate = PayloadICMP \<and> protocol = 1 \<or> candidate = PayloadTCP \<and> protocol = 6
          \<or> candidate = PayloadUDPDNS \<and> protocol = 17) (InterProtocols g))
        else map_option (\<lambda>active. protocol = ProtocolID active) (Active g));
     if accepted then Some (True, p, s)
     else let s = bump DropProto s in
       if strict p then do {
         (p, s) \<leftarrow> fail (Some AbortProto) (p, s);
         Some (False, p, s)
       }
       else Some (False, p, s)
   }"


section \<open>A new probe\<close>

text \<open>
  The probe \<open>MeasureTarget\<close> allocates: strict exactly for the 4 x 4 base measurement of a
  single-protocol run, with TCP connection state exactly when connections are established.
\<close>

definition new_probe :: "mctx \<Rightarrow> ip4 \<Rightarrow> string \<Rightarrow> probe" where
  "new_probe g target strategy =
     (let p = \<lparr>Target = target, TargetStrategy = strategy,
            Samples = replicate (unat (RequestCount g)) empty_sample, strict = False,
            status = probeActive, failed = None, replyReady = None, tcpAcknowledgments = [],
            tcpAckReady = [], tcpHandshakeCount = 0, tcpHandshakeDone = None,
            tcpHandshakeOnce = False, tcpACKReplies = None\<rparr>
      in if IsInterProtocol g then p
         else let p = (if ConnectionCount (Config g) = 4 \<and> RequestsPerConnection (Config g) = 4
                       then p\<lparr>strict := True, failed := Some False, replyReady := Some False\<rparr> else p)
           in if TcpEstablishConnection g
              then p\<lparr>tcpAcknowledgments := replicate (unat (ConnectionCount (Config g))) 0,
                     tcpAckReady := replicate (unat (ConnectionCount (Config g))) False,
                     tcpHandshakeDone := Some False, tcpACKReplies := Some []\<rparr>
              else p)"

end
