(* ===== verification/Matching.thy ===== *)
theory Matching
  imports Probe
begin

text \<open>
  What the reply handling of \<^verbatim>\<open>Probe.thy\<close> guarantees. A well-formed probe and entry stay well
  formed, and no reply, whatever its fields, makes the receiver panic or block. An accepted reply
  fills exactly one request's sample, one it belongs to; every other reply is counted under
  exactly one reason and, in a strict probe, ends the probe.
\<close>

section \<open>Well-formed probes\<close>

definition received_count :: "probe \<Rightarrow> nat" where
  "received_count p = length (filter IsReceived (Samples p))"

definition handshakes :: "mctx \<Rightarrow> probe \<Rightarrow> nat" where
  "handshakes g p = length (filter IsReceived (take (conns g) (Samples p)))"

text \<open>The state of an established-TCP probe, and of one without connections.\<close>

definition tcp_ok :: "mctx \<Rightarrow> probe \<Rightarrow> bool" where
  "tcp_ok g p \<longleftrightarrow>
     length (tcpAcknowledgments p) = conns g \<and> length (tcpAckReady p) = conns g
   \<and> (\<exists>q. tcpACKReplies p = Some q \<and> length q \<le> received_count p \<and> (\<forall>c \<in> set q. unat c < conns g))
   \<and> unat (tcpHandshakeCount p) = handshakes g p
   \<and> tcpHandshakeDone p = Some (tcpHandshakeOnce p)
   \<and> (tcpHandshakeOnce p \<longleftrightarrow> handshakes g p = conns g)
   \<and> (\<forall>c < conns g. tcpAckReady p ! c \<longleftrightarrow> IsReceived (Samples p ! c))"

definition status_ok :: "probe \<Rightarrow> bool" where
  "status_ok p \<longleftrightarrow>
     (if strict p then failed p = Some (status p = probeFailed) \<and> replyReady p \<noteq> None
      else status p = probeActive)"

definition probe_ok :: "mctx \<Rightarrow> probe \<Rightarrow> bool" where
  "probe_ok g p \<longleftrightarrow>
     length (Samples p) = unat (RequestCount g) \<and> status_ok p
   \<and> (TcpEstablishConnection g \<longrightarrow> tcp_ok g p)
   \<and> (\<not> TcpEstablishConnection g \<longrightarrow> tcpACKReplies p = None)"

definition entry_ok :: "mctx \<Rightarrow> entry \<Rightarrow> probe \<Rightarrow> bool" where
  "entry_ok g e p \<longleftrightarrow>
     unat (expectedMaxSeq e) < unat (RequestCount g) \<and> unat (validCount e) \<le> received_count p"

lemma received_count_le: "received_count p \<le> length (Samples p)"
  by (simp add: received_count_def)

lemma ForSequence_wf: "wf_context g \<Longrightarrow> \<exists>a. ForSequence g q = Some a"
  by (auto simp: wf_context_def ForSequence_def ProtocolForSequence_def IsInterProtocol_def
      dest!: spec dest: bspec nth_mem)

lemma flagsMatchPayload_some [simp]: "\<exists>b. flagsMatchPayload g x fs a = Some b"
  by (cases x) (simp_all add: flagsMatchPayload_def flagsMatch_def)

lemma base_flags_valid_some [simp]: "\<exists>b. base_flags_valid g x fs a = Some b"
proof -
  obtain b where "flagsMatchPayload g x fs a = Some b"
    using flagsMatchPayload_some by blast
  then show ?thesis by (simp add: base_flags_valid_def)
qed

lemma request_index_zero:
  assumes "wf_context g" "TcpEstablishConnection g"
  shows "GetRequestIndex g q = 0 \<longleftrightarrow> unat q < conns g"
    and "unat q < conns g \<Longrightarrow> GetConnectionIndex g q = q"
    and "unat (GetConnectionIndex g q) < conns g"
proof -
  have b: "BaseSequenceIndex g q = q" "0 < conns g"
    using assms by (auto simp: BaseSequenceIndex_def wf_context_def)
  show "GetRequestIndex g q = 0 \<longleftrightarrow> unat q < conns g"
    using b by (simp add: GetRequestIndex_def word_unat_eq_iff unat_div div_eq_0_iff)
  show "unat q < conns g \<Longrightarrow> GetConnectionIndex g q = q"
    using b by (simp add: GetConnectionIndex_def word_unat_eq_iff unat_mod)
  show "unat (GetConnectionIndex g q) < conns g"
    using b by (simp add: GetConnectionIndex_def unat_mod)
qed


lemma filter_replicate_empty [simp]: "filter IsReceived (replicate n empty_sample) = []"
  by (simp add: IsReceived_def empty_sample_def)

lemma conns_le_RequestCount: "wf_context g \<Longrightarrow> conns g \<le> unat (RequestCount g)"
  by (auto simp: wf_context_def)

lemma new_probe_ok:
  assumes "wf_context g"
  shows "probe_ok g (new_probe g target strategy)"
proof -
  have empty: "\<not> IsReceived (replicate (unat (RequestCount g)) empty_sample ! c)" if "c < conns g" for c
    using that conns_le_RequestCount [OF assms] by (simp add: IsReceived_def empty_sample_def)
  moreover have "TcpEstablishConnection g \<Longrightarrow> \<not> IsInterProtocol g" "0 < conns g"
    using assms by (auto simp: wf_context_def)
  ultimately show ?thesis
    by (auto simp: new_probe_def probe_ok_def status_ok_def tcp_ok_def received_count_def handshakes_def
        Let_def)
qed

lemma new_probe_samples [simp]: "Samples (new_probe g target strategy) = replicate (unat (RequestCount g)) empty_sample"
  by (simp add: new_probe_def Let_def)


section \<open>Filling a sample\<close>

definition filled_sample :: "reply \<Rightarrow> sample \<Rightarrow> sample" where
  "filled_sample r s = s\<lparr>sample_state := SampleReceived, ReceiveTime := r_receiveTime r,
     IpID := r_ipID r, DontFragment := r_dontFragment r\<rparr>"

lemma TryFill_sent:
  "sample_state s = SampleSent \<Longrightarrow>
   TryFill (r_ipID r) (r_receiveTime r) (r_dontFragment r) s = (True, filled_sample r s)"
  by (simp add: TryFill_def filled_sample_def)

lemma filled_sample_received [simp]: "IsReceived (filled_sample r s)"
  by (simp add: filled_sample_def IsReceived_def)

lemma fill_counts:
  assumes "i < length (Samples p)" "\<not> IsReceived (Samples p ! i)" "IsReceived s"
  shows "received_count (p\<lparr>Samples := (Samples p)[i := s]\<rparr>) = Suc (received_count p)"
    and "handshakes g (p\<lparr>Samples := (Samples p)[i := s]\<rparr>) =
      (if i < conns g then Suc (handshakes g p) else handshakes g p)"
    and "received_count p < length (Samples p)"
proof -
  show "received_count (p\<lparr>Samples := (Samples p)[i := s]\<rparr>) = Suc (received_count p)"
    using length_filter_update [of i "Samples p" IsReceived s] assms by (simp add: received_count_def)
  show "received_count p < length (Samples p)"
    unfolding received_count_def using assms by (intro length_filter_lt [of "Samples p ! i"]) simp_all
  show "handshakes g (p\<lparr>Samples := (Samples p)[i := s]\<rparr>) =
      (if i < conns g then Suc (handshakes g p) else handshakes g p)"
    using length_filter_update [of i "take (conns g) (Samples p)" IsReceived s] assms
    by (cases "i < conns g") (simp_all add: handshakes_def take_update_swap list_update_beyond)
qed

lemma handshakes_le: "handshakes g p \<le> conns g"
  unfolding handshakes_def by (rule le_trans [OF length_filter_le]) simp

text \<open>The bookkeeping of a handshake neither panics nor blocks, and keeps the probe's TCP state right.\<close>

lemma note_handshake_ok:
  assumes wf: "wf_context g" "TcpEstablishConnection g"
    and p: "tcp_ok g p" "length (Samples p) = unat (RequestCount g)"
    and q: "unat q < conns g" "unat q < length (Samples p)" "\<not> IsReceived (Samples p ! unat q)" "IsReceived s"
  shows "\<exists>p'. note_handshake g q ack (p\<lparr>Samples := (Samples p)[unat q := s]\<rparr>) = Some p' \<and> tcp_ok g p'
    \<and> Samples p' = (Samples p)[unat q := s] \<and> strict p' = strict p \<and> status p' = status p
    \<and> failed p' = failed p \<and> replyReady p' = replyReady p \<and> Target p' = Target p
    \<and> TargetStrategy p' = TargetStrategy p \<and> tcpAcknowledgments p' = (tcpAcknowledgments p)[unat q := ack]"
proof -
  note counts = fill_counts [OF q(2-4)]
  obtain queue where queue: "tcpACKReplies p = Some queue" "length queue \<le> received_count p"
      "\<forall>c \<in> set queue. unat c < conns g"
    using p(1) by (auto simp: tcp_ok_def)
  have n: "unat (tcpHandshakeCount p + 1) = Suc (handshakes g p)"
    using p(1) handshakes_le [of g p] unat_u16_less [of "ConnectionCount (Config g)"]
    by (subst unat_add_no_wrap) (simp_all add: tcp_ok_def del: unat_u16_less)
  have full: "tcpHandshakeCount p + 1 = ucast (ConnectionCount (Config g)) \<longleftrightarrow> Suc (handshakes g p) = conns g"
    using n by (auto simp: word_unat_eq_iff)
  have fresh: "\<not> tcpHandshakeOnce p"
    using p(1) counts(2) handshakes_le [of g "p\<lparr>Samples := (Samples p)[unat q := s]\<rparr>"] q(1)
    by (auto simp: tcp_ok_def)
  have "IsReceived ((Samples p)[unat q := s] ! unat q)"
    using q(2,4) by simp
  then show ?thesis
    using p q(1,4) queue n full fresh counts
    by (auto simp: note_handshake_def store_ack_def set_ack_ready_def send_ack_reply_def
        count_handshake_def Let_def tcp_ok_def close_chan_def nth_list_update received_count_def
        handshakes_def)
qed


section \<open>The tests\<close>

lemma lenient_check_acceptD:
  assumes "lenient_check g r e p = Some (Inr (q, x))"
  shows "r_dst r = fst (expectedDsts e) \<or> r_dst r = snd (expectedDsts e)"
    and "recoverLogicalSequence g e (r_dstPort r) (r_recoveredSeq r) = Some q"
    and "\<exists>a. ForSequence g q = Some a \<and> ProtocolID a = r_protocol r
      \<and> (IsInterProtocol g \<longrightarrow> r_dst r = GetSender g q)
      \<and> (reply_hasPorts g a \<longrightarrow> expectedMinPort e \<le> r_dstPort r \<and> r_dstPort r \<le> expectedMaxPort e
          \<and> (IsInterProtocol g \<longrightarrow> r_dstPort r = GetSrcPort g q (basePort e)))
      \<and> flagsMatchPayload g x (r_flags r) a = Some True"
    and "x = expectedReplyFlags g (expectedFlags e) q"
    and "expectedMinSeq e \<le> q" "q \<le> expectedMaxSeq e" "unat q < length (Samples p)"
    and "WasSent (Samples p ! unat q)" "SentTime (Samples p ! unat q) \<le> r_receiveTime r"
    and "r_receiveTime r - SentTime (Samples p ! unat q) \<le> Microseconds (MaximumToleratedRTT (Config g))"
  using assms
  by (auto simp: lenient_check_def Let_def bind_eq_Some_conv nth_opt_Some_iff not_less not_le
      split: if_splits option.splits)

lemma lenient_check_rejectD:
  assumes "lenient_check g r e p = Some (Inl c)"
  shows "c \<in> {DropBadDst, DropSeqOOR, DropProto, DropBadPort, DropBadFlags, DropDup, DropUnsent, DropLate}"
  using assms by (auto simp: lenient_check_def Let_def bind_eq_Some_conv split: if_splits option.splits)

lemma lenient_check_total:
  assumes "wf_context g" "unat (expectedMaxSeq e) < length (Samples p)"
  shows "\<exists>v. lenient_check g r e p = Some v"
proof -
  have *: "(\<not> q < expectedMinSeq e \<and> \<not> expectedMaxSeq e < q) \<Longrightarrow> unat q < length (Samples p)" for q
    using assms(2) by (auto simp: word_le_nat_alt not_less)
  show ?thesis
  proof (cases "recoverLogicalSequence g e (r_dstPort r) (r_recoveredSeq r)")
    case None
    then show ?thesis by (simp add: lenient_check_def)
  next
    case (Some q)
    obtain a where a: "ForSequence g q = Some a"
      using ForSequence_wf assms(1) by blast
    obtain b where b: "flagsMatchPayload g (expectedReplyFlags g (expectedFlags e) q) (r_flags r) a = Some b"
      using flagsMatchPayload_some by blast
    show ?thesis
      using Some a b * [of q] by (simp add: lenient_check_def Let_def)
  qed
qed

lemma base_check_acceptD:
  assumes "base_check g r e p = Some (Inr (q, x))"
  shows "recoverLogicalSequence g e (r_dstPort r) (r_recoveredSeq r) = Some q"
    and "unat q < length (Samples p)" "r_dst r = GetSender g q"
    and "\<exists>a. ForSequence g q = Some a \<and> ProtocolID a = r_protocol r
      \<and> (reply_hasPorts g a \<longrightarrow> r_dstPort r = GetSrcPort g q (basePort e))
      \<and> base_flags_valid g x (r_flags r) a = Some True"
    and "x = expectedReplyFlags g FlagsDefault q"
    and "sample_state (Samples p ! unat q) = SampleSent"
    and "SentTime (Samples p ! unat q) \<le> r_receiveTime r"
    and "r_receiveTime r - SentTime (Samples p ! unat q) \<le> Microseconds (MaximumToleratedRTT (Config g))"
    and "TcpEstablishConnection g \<Longrightarrow> TCPFlagRST |\<notin>| r_flags r"
    and "TcpEstablishConnection g \<Longrightarrow> x = FlagsAck \<Longrightarrow>
      base_segment_bad g r (GetConnectionIndex g q) p = Some False"
  using assms
  by (auto simp: base_check_def Let_def bind_eq_Some_conv nth_opt_Some_iff not_less not_le set_contains_def
      split: if_splits option.splits)

definition reply_rejects :: "counter set" where
  "reply_rejects = {DropBadDst, DropSeqOOR, DropProto, DropBadPort, DropUnsent, DropDup, DropBadFlags,
     DropLate, DropTCPSequence}"

definition probe_aborts :: "counter set" where
  "probe_aborts = {AbortBadDst, AbortSeqOOR, AbortProto, AbortBadPort, AbortUnsent, AbortDup, AbortReset,
     AbortBadFlags, AbortLate, AbortTCPSequence}"

lemma base_check_rejectD:
  assumes "base_check g r e p = Some (Inl (c, d, ph))"
  shows "c \<in> reply_rejects \<and> d \<in> probe_aborts"
  using assms
  by (auto simp: base_check_def Let_def bind_eq_Some_conv reply_rejects_def probe_aborts_def
      split: if_splits option.splits)

lemma base_check_total:
  assumes wf: "wf_context g" and p: "TcpEstablishConnection g \<longrightarrow> tcp_ok g p"
    "length (Samples p) = unat (RequestCount g)"
  shows "\<exists>v. base_check g r e p = Some v"
proof (cases "recoverLogicalSequence g e (r_dstPort r) (r_recoveredSeq r)")
  case None
  then show ?thesis by (simp add: base_check_def)
next
  case (Some q)
  let ?x = "expectedReplyFlags g FlagsDefault q" and ?c = "GetConnectionIndex g q"
  obtain a where a: "ForSequence g q = Some a"
    using ForSequence_wf wf by blast
  obtain b where b: "base_flags_valid g ?x (r_flags r) a = Some b"
    using base_flags_valid_some by blast
  have "\<exists>bad. base_segment_bad g r ?c p = Some bad" if "TcpEstablishConnection g"
  proof -
    have "unat ?c < conns g"
      using request_index_zero(3) [OF wf that] .
    moreover have "conns g \<le> length (Samples p)"
      using wf p(2) by (auto simp: wf_context_def)
    ultimately show ?thesis
      using p that by (simp add: base_segment_bad_def tcp_ok_def Let_def)
  qed
  then show ?thesis
    using Some a b by (auto simp: base_check_def Let_def)
qed


section \<open>The commits\<close>

text \<open>The sample as a reply leaves it: strict probes also keep the TCP sequence number.\<close>

definition reply_sample :: "reply \<Rightarrow> probe \<Rightarrow> u16 \<Rightarrow> sample" where
  "reply_sample r p q =
     filled_sample r (if strict p then (Samples p ! unat q)\<lparr>tcpSequence := r_tcpSeq r\<rparr>
                      else Samples p ! unat q)"

text \<open>What an accepted reply does to the probe, the entry and the counters.\<close>

definition accepted_as :: "mctx \<Rightarrow> reply \<Rightarrow> u16 \<Rightarrow> entry \<times> probe \<times> stats \<Rightarrow> entry \<times> probe \<times> stats \<Rightarrow> bool" where
  "accepted_as g r q before after \<longleftrightarrow>
     (case (before, after) of ((e, p, s), (e', p', s')) \<Rightarrow>
        Samples p' = (Samples p)[unat q := reply_sample r p q]
      \<and> Target p' = Target p \<and> TargetStrategy p' = TargetStrategy p \<and> strict p' = strict p
      \<and> status p' = status p \<and> failed p' = failed p
      \<and> replyReady p' = (if strict p \<and> MeasurementMode (Config g) = MeasurementModeRTBased
          then Some True else replyReady p)
      \<and> e' = count_valid e \<and> s' = bump MatchedReplies s)"

lemma count_valid_fields [simp]:
  "expectedMaxSeq (count_valid e) = expectedMaxSeq e" "expectedMinSeq (count_valid e) = expectedMinSeq e"
  "validCount (count_valid e) = validCount e + 1" "expectedCount (count_valid e) = expectedCount e"
  "entry_Probe (count_valid e) = entry_Probe e" "expectedDsts (count_valid e) = expectedDsts e"
  "expectedMinPort (count_valid e) = expectedMinPort e" "expectedMaxPort (count_valid e) = expectedMaxPort e"
  "basePort (count_valid e) = basePort e" "expectedFlags (count_valid e) = expectedFlags e"
  by (simp_all add: count_valid_def markDone_def Let_def)

lemma count_valid_ok:
  assumes "entry_ok g e p" "length (Samples p) = unat (RequestCount g)" "received_count p < length (Samples p)"
    and "received_count p' = Suc (received_count p)"
  shows "entry_ok g (count_valid e) p'"
    and "entry_done (count_valid e) \<longleftrightarrow> entry_done e \<or> unat (expectedCount e) \<le> Suc (unat (validCount e))"
proof -
  have "unat (validCount e + 1) = Suc (unat (validCount e))"
    using assms(1,2,3) unat_u16_less [of "RequestCount g"]
    by (subst unat_add_no_wrap) (simp_all add: entry_ok_def del: unat_u16_less)
  then show "entry_ok g (count_valid e) p'"
    and "entry_done (count_valid e) \<longleftrightarrow> entry_done e \<or> unat (expectedCount e) \<le> Suc (unat (validCount e))"
    using assms(1,4)
    by (simp_all add: entry_ok_def count_valid_def Let_def markDone_def word_le_nat_alt)
qed

lemma update_samples_ok:
  assumes "probe_ok g p" "unat q < length (Samples p)" "\<not> IsReceived (Samples p ! unat q)" "IsReceived s"
    and "TcpEstablishConnection g \<Longrightarrow> \<not> unat q < conns g"
    and "Samples p' = (Samples p)[unat q := s]" "strict p' = strict p" "status p' = status p"
    and "failed p' = failed p" "replyReady p' = replyReady p \<or> replyReady p' = Some True"
    and "length (tcpAcknowledgments p') = length (tcpAcknowledgments p)" "tcpAckReady p' = tcpAckReady p"
    and "tcpHandshakeCount p' = tcpHandshakeCount p" "tcpHandshakeDone p' = tcpHandshakeDone p"
    and "tcpHandshakeOnce p' = tcpHandshakeOnce p"
    and "tcpACKReplies p' = tcpACKReplies p
      \<or> (TcpEstablishConnection g \<and> (\<exists>x y. tcpACKReplies p = Some x \<and> tcpACKReplies p' = Some (x @ [y]) \<and> unat y < conns g))"
  shows "probe_ok g p'"
proof -
  note counts = fill_counts [OF assms(2-4)]
  have r: "received_count p' = Suc (received_count p)"
    using counts(1) assms(6) by (simp add: received_count_def)
  have h: "handshakes g p' = handshakes g p" if "TcpEstablishConnection g"
    using counts(2) [of g] assms(5) [OF that] assms(6) by (simp add: handshakes_def)
  have "tcp_ok g p'" if "TcpEstablishConnection g"
  proof -
    have "tcp_ok g p"
      using assms(1) that by (simp add: probe_ok_def)
    then show ?thesis
      using assms(5) [OF that] assms(6-16) r h [OF that]
      by (auto simp: tcp_ok_def nth_list_update)
  qed
  then show ?thesis
    using assms(1,6-10,16) by (auto simp: probe_ok_def status_ok_def)
qed


lemma handshake_request:
  assumes "wf_context g" "TcpEstablishConnection g" "x = expectedReplyFlags g y q"
  shows "x = FlagsSynAck \<longleftrightarrow> unat q < conns g" "x = FlagsAck \<longleftrightarrow> \<not> unat q < conns g"
  using request_index_zero(1) [OF assms(1,2), of q] assms(2,3) by (auto simp: expectedReplyFlags_def)

lemma sent_not_received: "sample_state s = SampleSent \<Longrightarrow> \<not> IsReceived s"
  by (simp add: IsReceived_def)

lemma lenient_commit_ok:
  assumes wf: "wf_context g" and p: "probe_ok g p" "\<not> strict p" and e: "entry_ok g e p"
    and check: "lenient_check g r e p = Some (Inr (q, x))"
    and sent: "sample_state (Samples p ! unat q) = SampleSent"
  shows "\<exists>e' p' s'. lenient_commit g r q x e p s = Some (True, e', p', s')
    \<and> accepted_as g r q (e, p, s) (e', p', s') \<and> probe_ok g p' \<and> entry_ok g e' p'"
proof -
  note c = lenient_check_acceptD [OF check]
  let ?s = "filled_sample r (Samples p ! unat q)"
  let ?p = "p\<lparr>Samples := (Samples p)[unat q := ?s]\<rparr>"
  note q = c(7) sent_not_received [OF sent] filled_sample_received [of r "Samples p ! unat q"]
  note counts = fill_counts [OF q]
  have len: "length (Samples p) = unat (RequestCount g)"
    using p(1) by (simp add: probe_ok_def)
  have entry: "entry_ok g (count_valid e) p'" if "Samples p' = (Samples p)[unat q := ?s]" for p'
    using count_valid_ok(1) [OF e len counts(3), of p'] counts(1) that by (simp add: received_count_def)
  show ?thesis
  proof (cases "TcpEstablishConnection g \<and> x = FlagsSynAck")
    case True
    then have small: "unat q < conns g"
      using handshake_request(1) [OF wf _ c(4)] by simp
    have conn: "GetConnectionIndex g q = q"
      using request_index_zero(2) [OF wf] True small by simp
    obtain p' where p': "note_handshake g q (r_tcpSeq r + 1) ?p = Some p'" "tcp_ok g p'"
        "Samples p' = (Samples p)[unat q := ?s]" "strict p' = strict p" "status p' = status p"
        "failed p' = failed p" "replyReady p' = replyReady p" "Target p' = Target p"
        "TargetStrategy p' = TargetStrategy p"
      using note_handshake_ok [OF wf _ _ len small q, of "r_tcpSeq r + 1"] True p(1)
      by (auto simp: probe_ok_def)
    then show ?thesis
      using True c(7) conn entry [of p'] p sent len
      by (auto simp: lenient_commit_def TryFill_sent accepted_as_def reply_sample_def probe_ok_def
          status_ok_def)
  next
    case False
    then have "\<not> unat q < conns g" if "TcpEstablishConnection g"
      using handshake_request(1) [OF wf that c(4)] that by simp
    then have "probe_ok g ?p"
      by (intro update_samples_ok [OF p(1) q]) simp_all
    then show ?thesis
      using False c(7) entry [of ?p] p sent
      by (auto simp: lenient_commit_def TryFill_sent accepted_as_def reply_sample_def)
  qed
qed

lemma lenient_commit_dup:
  assumes "unat q < length (Samples p)" "sample_state (Samples p ! unat q) \<noteq> SampleSent"
  shows "lenient_commit g r q x e p s = Some (False, e, p, bump DropDup s)"
  using assms by (simp add: lenient_commit_def TryFill_def)

lemma failLocked_ok:
  assumes "status_ok p" "strict p" "status p = probeActive"
  shows "failLocked reason (p, s) =
    Some (p\<lparr>status := probeFailed, failed := Some True\<rparr>, bump_opt reason s)"
  using assms by (simp add: failLocked_def status_ok_def close_chan_def)

lemma base_commit_ok:
  assumes wf: "wf_context g" and p: "probe_ok g p" "strict p" "status p = probeActive"
    and e: "entry_ok g e p"
    and check: "base_check g r e p = Some (Inr (q, x))"
  shows "\<exists>e' p' s'. base_commit g r q x e p s = Some (True, e', p', s')
    \<and> accepted_as g r q (e, p, s) (e', p', s') \<and> probe_ok g p' \<and> entry_ok g e' p'"
proof -
  note c = base_check_acceptD [OF check]
  let ?old = "(Samples p ! unat q)\<lparr>tcpSequence := r_tcpSeq r\<rparr>"
  let ?s = "filled_sample r ?old"
  let ?p = "p\<lparr>Samples := (Samples p)[unat q := ?s]\<rparr>"
  have fills: "TryFill (r_ipID r) (r_receiveTime r) (r_dontFragment r) ?old = (True, ?s)"
    using c(6) by (intro TryFill_sent) simp
  note q = c(2) sent_not_received [OF c(6)] filled_sample_received [of r ?old]
  note counts = fill_counts [OF q]
  have len: "length (Samples p) = unat (RequestCount g)"
    using p(1) by (simp add: probe_ok_def)
  have entry: "entry_ok g (count_valid e) p'" if "Samples p' = (Samples p)[unat q := ?s]" for p'
    using count_valid_ok(1) [OF e len counts(3), of p'] counts(1) that by (simp add: received_count_def)
  have sample: "reply_sample r p q = ?s"
    using p(2) by (simp add: reply_sample_def)
  have ready: "probe_ok g p' \<Longrightarrow> probe_ok g (note_reply_ready g p')"
    "Samples (note_reply_ready g p') = Samples p'" "strict (note_reply_ready g p') = strict p'"
    "status (note_reply_ready g p') = status p'" "failed (note_reply_ready g p') = failed p'"
    "Target (note_reply_ready g p') = Target p'"
    "TargetStrategy (note_reply_ready g p') = TargetStrategy p'" for p'
    by (auto simp: note_reply_ready_def probe_ok_def tcp_ok_def status_ok_def received_count_def
        handshakes_def)
  have *: "\<exists>p'. base_commit g r q x e p s = Some (True, count_valid e, note_reply_ready g p', bump MatchedReplies s)
      \<and> Samples p' = (Samples p)[unat q := ?s] \<and> probe_ok g p' \<and> strict p' = strict p
      \<and> status p' = status p \<and> failed p' = failed p \<and> Target p' = Target p
      \<and> TargetStrategy p' = TargetStrategy p \<and> replyReady p' = replyReady p"
  proof (cases "TcpEstablishConnection g \<and> x = FlagsSynAck")
    case True
    then have small: "unat q < conns g"
      using handshake_request(1) [OF wf _ c(5)] by simp
    have conn: "GetConnectionIndex g q = q"
      using request_index_zero(2) [OF wf] True small by simp
    let ?ack = "r_tcpSeq r + 1 + ucast (r_payloadLength r)"
    obtain p' where p': "note_handshake g q ?ack ?p = Some p'" "tcp_ok g p'"
        "Samples p' = (Samples p)[unat q := ?s]" "strict p' = strict p" "status p' = status p"
        "failed p' = failed p" "replyReady p' = replyReady p" "Target p' = Target p"
        "TargetStrategy p' = TargetStrategy p"
      using note_handshake_ok [OF wf _ _ len small q, of ?ack] True p(1) by (auto simp: probe_ok_def)
    then show ?thesis
      using True c(2) conn p fills len
      by (intro exI [of _ p']) (simp add: base_commit_def probe_ok_def status_ok_def)
  next
    case False
    then have large: "\<not> unat q < conns g" if "TcpEstablishConnection g"
      using handshake_request(1) [OF wf that c(5)] that by simp
    note upd = update_samples_ok [OF p(1) q large]
    show ?thesis
    proof (cases "TcpEstablishConnection g \<and> r_payloadLength r > 0")
      case True
      let ?c = "GetConnectionIndex g q"
      let ?ack = "r_tcpSeq r + ucast (r_payloadLength r)"
      have tcp: "tcp_ok g p"
        using True p(1) by (simp add: probe_ok_def)
      then obtain queue where queue: "tcpACKReplies p = Some queue" "length queue < unat (RequestCount g)"
        using counts(3) len by (auto simp: tcp_ok_def)
      let ?p' = "?p\<lparr>tcpAcknowledgments := (tcpAcknowledgments p)[unat ?c := ?ack],
        tcpACKReplies := Some (queue @ [?c])\<rparr>"
      have "probe_ok g ?p'"
        using True queue request_index_zero(3) [OF wf, of q] by (intro upd) simp_all
      moreover have "base_commit g r q x e p s =
          Some (True, count_valid e, note_reply_ready g ?p', bump MatchedReplies s)"
        using True False c(2) fills tcp queue request_index_zero(3) [OF wf, of q]
        by (simp add: base_commit_def store_ack_def send_ack_reply_def tcp_ok_def Let_def)
      ultimately show ?thesis
        by (intro exI [of _ ?p']) simp
    next
      case no_data: False
      have "probe_ok g ?p"
        by (intro upd) simp_all
      then show ?thesis
        using False no_data c(2) fills
        by (intro exI [of _ ?p]) (auto simp: base_commit_def)
    qed
  qed
  moreover have "replyReady p \<noteq> None"
    using p by (simp add: probe_ok_def status_ok_def)
  then have "replyReady p' = replyReady p \<Longrightarrow> replyReady (note_reply_ready g p') =
      (if MeasurementMode (Config g) = MeasurementModeRTBased then Some True else replyReady p)" for p'
    by (auto simp: note_reply_ready_def)
  ultimately show ?thesis
    using entry ready sample p(2) by (auto simp: accepted_as_def)
qed


section \<open>Properties\<close>

lemma accepting_lenient:
  assumes "\<not> strict p" "FulfillReply g r e p s = Some (True, e', p', s')"
  obtains q x where "lenient_check g r e p = Some (Inr (q, x))"
    and "lenient_commit g r q x e p s = Some (True, e', p', s')"
proof (cases "lenient_check g r e p")
  case None
  then show ?thesis using assms by (simp add: FulfillReply_def)
next
  case (Some v)
  then show ?thesis using assms that by (cases v) (auto simp: FulfillReply_def)
qed

lemma accepting_strict:
  assumes "strict p" "FulfillReply g r e p s = Some (True, e', p', s')"
  obtains q x where "status p = probeActive" "base_check g r e p = Some (Inr (q, x))"
    and "base_commit g r q x e p s = Some (True, e', p', s')"
proof -
  have active: "status p = probeActive"
    using assms by (simp add: FulfillReply_def fulfillBaseReply_def split: if_splits)
  show ?thesis
  proof (cases "base_check g r e p")
    case None
    then show ?thesis using assms active by (simp add: FulfillReply_def fulfillBaseReply_def)
  next
    case (Some v)
    then show ?thesis
      using assms that active
      by (cases v) (auto simp: FulfillReply_def fulfillBaseReply_def base_reject_def bind_eq_Some_conv)
  qed
qed

text \<open>The request \<open>q\<close> of a probe that a reply to it must mirror.\<close>

definition request_open :: "mctx \<Rightarrow> reply \<Rightarrow> probe \<Rightarrow> u16 \<Rightarrow> bool" where
  "request_open g r p q \<longleftrightarrow>
     unat q < length (Samples p) \<and> sample_state (Samples p ! unat q) = SampleSent
   \<and> SentTime (Samples p ! unat q) \<le> r_receiveTime r
   \<and> r_receiveTime r - SentTime (Samples p ! unat q) \<le> Microseconds (MaximumToleratedRTT (Config g))"

lemma FulfillReply_ok:
  assumes "wf_context g" "probe_ok g p" "entry_ok g e p"
  shows "\<exists>b e' p' s'. FulfillReply g r e p s = Some (b, e', p', s') \<and> probe_ok g p' \<and> entry_ok g e' p'"
proof (cases "strict p")
  case False
  have len: "length (Samples p) = unat (RequestCount g)"
    using assms(2) by (simp add: probe_ok_def)
  then obtain v where v: "lenient_check g r e p = Some v"
    using lenient_check_total [OF assms(1), of e p r] assms(3) by (auto simp: entry_ok_def)
  show ?thesis
  proof (cases v)
    case (Inl c)
    then show ?thesis using v False assms by (auto simp: FulfillReply_def)
  next
    case (Inr qx)
    obtain q x where "qx = (q, x)" by (cases qx)
    then have check: "lenient_check g r e p = Some (Inr (q, x))"
      using v Inr by simp
    show ?thesis
    proof (cases "sample_state (Samples p ! unat q) = SampleSent")
      case True
      then show ?thesis
        using lenient_commit_ok [OF assms(1,2) False assms(3) check] check False
        by (fastforce simp: FulfillReply_def)
    next
      case other: False
      then show ?thesis
        using lenient_commit_dup [OF lenient_check_acceptD(7) [OF check] other] check False assms
        by (auto simp: FulfillReply_def)
    qed
  qed
next
  case strict: True
  show ?thesis
  proof (cases "status p = probeActive")
    case False
    then show ?thesis using strict assms by (auto simp: FulfillReply_def fulfillBaseReply_def)
  next
    case active: True
    obtain v where v: "base_check g r e p = Some v"
      using base_check_total [OF assms(1), of p r e] assms(2) by (auto simp: probe_ok_def)
    show ?thesis
    proof (cases v)
      case (Inl rej)
      have "status_ok p" using assms(2) by (simp add: probe_ok_def)
      note fl = failLocked_ok [OF this strict active]
      have "probe_ok g (p\<lparr>status := probeFailed, failed := Some True\<rparr>)"
        "entry_ok g e (p\<lparr>status := probeFailed, failed := Some True\<rparr>)"
        using assms(2,3) strict
        by (auto simp: probe_ok_def status_ok_def tcp_ok_def received_count_def handshakes_def entry_ok_def)
      then show ?thesis
        using v Inl strict active fl
        by (cases rej) (auto simp: FulfillReply_def fulfillBaseReply_def base_reject_def)
    next
      case (Inr qx)
      then show ?thesis
        using v strict active base_commit_ok [OF assms(1,2) strict active assms(3)]
        by (cases qx) (fastforce simp: FulfillReply_def fulfillBaseReply_def)
    qed
  qed
qed

text \<open>
  No captured packet can crash or block the receiver, whatever its addresses, ports, sequence
  numbers and flags: on a well-formed probe and entry \<open>FulfillReply\<close> returns, and leaves probe and
  entry well formed. In particular no slice index is out of range, no channel is closed twice, and
  the buffer for pending TCP acknowledgments always has room.
\<close>

theorem FulfillReply_total:
  assumes "wf_context g" "probe_ok g p" "entry_ok g e p"
  shows "\<exists>b e' p' s'. FulfillReply g r e p s = Some (b, e', p', s') \<and> probe_ok g p' \<and> entry_ok g e' p'"
  by (rule FulfillReply_ok [OF assms])

lemma FulfillReply_accept:
  assumes "wf_context g" "probe_ok g p" "entry_ok g e p"
    and "FulfillReply g r e p s = Some (True, e', p', s')"
  shows "\<exists>q a. accepted_as g r q (e, p, s) (e', p', s') \<and> request_open g r p q
    \<and> recoverLogicalSequence g e (r_dstPort r) (r_recoveredSeq r) = Some q
    \<and> ForSequence g q = Some a \<and> ProtocolID a = r_protocol r
    \<and> (strict p \<or> IsInterProtocol g \<longrightarrow> r_dst r = GetSender g q
        \<and> (reply_hasPorts g a \<longrightarrow> r_dstPort r = GetSrcPort g q (basePort e)))
    \<and> (\<not> strict p \<longrightarrow> expectedMinSeq e \<le> q \<and> q \<le> expectedMaxSeq e
        \<and> (r_dst r = fst (expectedDsts e) \<or> r_dst r = snd (expectedDsts e)))"
proof (cases "strict p")
  case False
  from False assms(4) obtain q x where check: "lenient_check g r e p = Some (Inr (q, x))"
    and commit: "lenient_commit g r q x e p s = Some (True, e', p', s')"
    by (rule accepting_lenient)
  note c = lenient_check_acceptD [OF check]
  have sent: "sample_state (Samples p ! unat q) = SampleSent"
    using lenient_commit_dup [OF c(7)] commit by fastforce
  then have "accepted_as g r q (e, p, s) (e', p', s')"
    using lenient_commit_ok [OF assms(1,2) False assms(3) check, of s] commit by auto
  moreover have "request_open g r p q"
    using sent c(7-10) by (simp add: request_open_def)
  ultimately show ?thesis
    using c(1-3,5,6) False by blast
next
  case True
  from True assms(4) obtain q x where active: "status p = probeActive"
    and check: "base_check g r e p = Some (Inr (q, x))"
    and commit: "base_commit g r q x e p s = Some (True, e', p', s')"
    by (rule accepting_strict)
  note c = base_check_acceptD [OF check]
  have "accepted_as g r q (e, p, s) (e', p', s')"
    using base_commit_ok [OF assms(1,2) True active assms(3) check, of s] commit by auto
  moreover have "request_open g r p q"
    using c by (simp add: request_open_def)
  ultimately show ?thesis
    using c(1,3,4) True by blast
qed


text \<open>
  C2: An accepted reply belongs to the request whose sample it fills: that request was sent and
  unanswered, the reply arrived within the tolerated round-trip time, came from a payload protocol
  equal to the request's, to a source address of the probe (the request's own one in strict and
  inter-protocol probes), and there, for protocols with ports, to the request's own port. Exactly this
  sample changes, it holds the reply's IP-ID, time and DF bit, and exactly one counter moves.
\<close>

theorem FulfillReply_sound:
  assumes "wf_context g" "probe_ok g p" "entry_ok g e p"
    and "FulfillReply g r e p s = Some (True, e', p', s')"
  shows "\<exists>q a. accepted_as g r q (e, p, s) (e', p', s') \<and> request_open g r p q
    \<and> recoverLogicalSequence g e (r_dstPort r) (r_recoveredSeq r) = Some q
    \<and> ForSequence g q = Some a \<and> ProtocolID a = r_protocol r
    \<and> (strict p \<or> IsInterProtocol g \<longrightarrow> r_dst r = GetSender g q
        \<and> (reply_hasPorts g a \<longrightarrow> r_dstPort r = GetSrcPort g q (basePort e)))
    \<and> (\<not> strict p \<longrightarrow> expectedMinSeq e \<le> q \<and> q \<le> expectedMaxSeq e
        \<and> (r_dst r = fst (expectedDsts e) \<or> r_dst r = snd (expectedDsts e)))"
  by (rule FulfillReply_accept [OF assms])

lemma FulfillReply_drop:
  assumes "wf_context g" "probe_ok g p" "entry_ok g e p"
    and "FulfillReply g r e p s = Some (False, e', p', s')"
  shows "e' = e \<and> Samples p' = Samples p
    \<and> (\<not> strict p \<longrightarrow> p' = p \<and> (\<exists>c \<in> reply_rejects. s' = bump c s))
    \<and> (strict p \<and> status p = probeActive \<longrightarrow>
        p' = p\<lparr>status := probeFailed, failed := Some True\<rparr>
      \<and> (\<exists>c \<in> reply_rejects. \<exists>d \<in> probe_aborts. s' = bump d (bump c s)
          \<or> (\<exists>ph. s' = bump d (bump c (RecordTCPBadFlags ph (r_flags r) s)))))
    \<and> (strict p \<and> status p \<noteq> probeActive \<longrightarrow> p' = p \<and> s' = s)"
proof (cases "strict p")
  case False
  then obtain v where v: "lenient_check g r e p = Some v"
    using assms(4) by (cases "lenient_check g r e p") (auto simp: FulfillReply_def)
  show ?thesis
  proof (cases v)
    case (Inl c)
    then show ?thesis
      using v False assms(4) lenient_check_rejectD [of g r e p c]
      by (auto simp: FulfillReply_def reply_rejects_def)
  next
    case (Inr qx)
    obtain q x where qx: "qx = (q, x)" by (cases qx)
    then have check: "lenient_check g r e p = Some (Inr (q, x))"
      using v Inr by simp
    have "sample_state (Samples p ! unat q) \<noteq> SampleSent"
      using lenient_commit_ok [OF assms(1,2) False assms(3) check, of s] assms(4) check False
      by (auto simp: FulfillReply_def)
    then show ?thesis
      using lenient_commit_dup [OF lenient_check_acceptD(7) [OF check], of g r x e s] assms(4) check False
      by (auto simp: FulfillReply_def reply_rejects_def)
  qed
next
  case strict: True
  show ?thesis
  proof (cases "status p = probeActive")
    case False
    then show ?thesis
      using strict assms(4) by (simp add: FulfillReply_def fulfillBaseReply_def)
  next
    case active: True
    then obtain v where v: "base_check g r e p = Some v"
      using assms(4) strict
      by (cases "base_check g r e p") (auto simp: FulfillReply_def fulfillBaseReply_def)
    show ?thesis
    proof (cases v)
      case (Inl rej)
      obtain c d ph where rej: "rej = (c, d, ph)" by (cases rej)
      have "status_ok p" using assms(2) by (simp add: probe_ok_def)
      note fl = failLocked_ok [OF this strict active]
      have cd: "c \<in> reply_rejects" "d \<in> probe_aborts"
        using base_check_rejectD [of g r e p c d ph] v Inl rej by simp_all
      show ?thesis
        using v Inl rej strict active fl assms(4) cd
        by (cases ph) (auto simp: FulfillReply_def fulfillBaseReply_def base_reject_def)
    next
      case (Inr qx)
      then show ?thesis
        using v strict active assms(4) base_commit_ok [OF assms(1,2) strict active assms(3), of r _ _ s]
        by (cases qx) (fastforce simp: FulfillReply_def fulfillBaseReply_def)
    qed
  qed
qed


text \<open>
  C34: A reply that is not accepted changes no sample and is accounted for exactly once. In a lenient
  probe the only effect is one drop counter. In an active strict probe the packet is counted under
  one drop counter, the probe under one abort counter, and the probe is failed with its \<open>failed\<close>
  channel closed. A strict probe that has already failed or completed ignores the packet altogether.
\<close>

theorem FulfillReply_reject:
  assumes "wf_context g" "probe_ok g p" "entry_ok g e p"
    and "FulfillReply g r e p s = Some (False, e', p', s')"
  shows "e' = e \<and> Samples p' = Samples p
    \<and> (\<not> strict p \<longrightarrow> p' = p \<and> (\<exists>c \<in> reply_rejects. s' = bump c s))
    \<and> (strict p \<and> status p = probeActive \<longrightarrow>
        p' = p\<lparr>status := probeFailed, failed := Some True\<rparr>
      \<and> (\<exists>c \<in> reply_rejects. \<exists>d \<in> probe_aborts. s' = bump d (bump c s)
          \<or> (\<exists>ph. s' = bump d (bump c (RecordTCPBadFlags ph (r_flags r) s)))))
    \<and> (strict p \<and> status p \<noteq> probeActive \<longrightarrow> p' = p \<and> s' = s)"
  by (rule FulfillReply_drop [OF assms])

section \<open>Entries of the measuring loops\<close>

text \<open>
  The entry of one outstanding request (\<open>measureRTBased\<close>, \<open>measureInterProtocolRT\<close>) and the entry of
  the whole probe (\<open>measureFixedInterval\<close>, \<open>measureBaseRT\<close>).
\<close>

definition rt_entry :: "mctx \<Rightarrow> nat \<Rightarrow> u16 \<Rightarrow> u16 \<Rightarrow> FlagExpectation \<Rightarrow> entry" where
  "rt_entry g probe seqNum base flags =
     (let sndr = GetSender g seqNum; expectedPort = GetSrcPort g seqNum base
      in \<lparr>entry_Probe = probe, expectedCount = 1, expectedDsts = (sndr, sndr),
          expectedMinPort = expectedPort, expectedMaxPort = expectedPort, basePort = base,
          expectedFlags = flags, expectedMinSeq = seqNum, expectedMaxSeq = seqNum,
          validCount = 0, entry_done = False\<rparr>)"

definition full_entry :: "mctx \<Rightarrow> nat \<Rightarrow> u16 \<Rightarrow> entry" where
  "full_entry g probe base =
     \<lparr>entry_Probe = probe, expectedCount = RequestCount g, expectedDsts = (SenderA g, SenderB g),
      expectedMinPort = base, expectedMaxPort = base + ConnectionCount (Config g) - 1,
      basePort = base, expectedFlags = FlagsDefault, expectedMinSeq = 0,
      expectedMaxSeq = RequestCount g - 1, validCount = 0, entry_done = False\<rparr>"

text \<open>The request lies within everything the entry expects.\<close>

definition entry_covers :: "mctx \<Rightarrow> u16 \<Rightarrow> u16 \<Rightarrow> entry \<Rightarrow> bool" where
  "entry_covers g base q e \<longleftrightarrow>
     basePort e = base \<and> expectedMinSeq e \<le> q \<and> q \<le> expectedMaxSeq e
   \<and> (GetSender g q = fst (expectedDsts e) \<or> GetSender g q = snd (expectedDsts e))
   \<and> expectedMinPort e \<le> GetSrcPort g q base \<and> GetSrcPort g q base \<le> expectedMaxPort e"

lemma unat_GetSrcPort:
  assumes "wf_context g" "unat base + conns g \<le> 65536"
  shows "unat (GetSrcPort g q base) = unat base + unat (GetConnectionIndex g q)"
    and "unat (GetConnectionIndex g q) < conns g"
proof -
  show less: "unat (GetConnectionIndex g q) < conns g"
    using wf_connection_less [OF assms(1)] .
  show "unat (GetSrcPort g q base) = unat base + unat (GetConnectionIndex g q)"
    using assms(2) less unfolding GetSrcPort_def GetConnectionIndex_def
    by (subst unat_add_no_wrap) simp_all
qed

lemma rt_entry_covers: "entry_covers g base q (rt_entry g i q base x)"
  by (simp add: entry_covers_def rt_entry_def Let_def)

lemma full_entry_covers:
  assumes "wf_context g" "unat base + conns g \<le> 65536" "q < RequestCount g"
  shows "entry_covers g base q (full_entry g i base)"
proof -
  note port = unat_GetSrcPort [OF assms(1,2), of q]
  note wf = wf_contextD [OF assms(1)]
  have c: "unat (ConnectionCount (Config g) - 1) = conns g - 1"
    using wf(1) by (subst unat_sub_no_wrap) (simp_all add: word_le_nat_alt)
  have "unat (base + (ConnectionCount (Config g) - 1)) = unat base + (conns g - 1)"
    using assms(2) wf(1) c by (subst unat_add_no_wrap) simp_all
  then have max: "unat (base + ConnectionCount (Config g) - 1) = unat base + (conns g - 1)"
    by (simp add: algebra_simps)
  have "GetSrcPort g q base \<le> base + ConnectionCount (Config g) - 1"
    unfolding word_le_nat_alt max using port by simp
  moreover have "base \<le> GetSrcPort g q base"
    unfolding word_le_nat_alt using port by simp
  moreover have "q \<le> RequestCount g - 1"
    using assms(3) unfolding word_le_nat_alt word_less_nat_alt
    by (subst unat_sub_no_wrap) (simp_all add: word_le_nat_alt)
  ultimately show ?thesis
    by (simp add: entry_covers_def full_entry_def GetSender_def)
qed

lemma recover_mirrored:
  assumes wf: "wf_context g" and b: "unat base + conns g \<le> 65536" "basePort e = base"
    and q: "unat q < unat (RequestCount g)"
    and port: "TcpEstablishConnection g \<Longrightarrow> port = GetSrcPort g q base"
    and n: "n = (if TcpEstablishConnection g
             then TCPSequenceNumber (TcpSequenceNumOffset g) q (ConnectionCount (Config g)) + 1 else ucast q)"
  shows "recoverLogicalSequence g e port n = Some q"
proof (cases "TcpEstablishConnection g")
  case True
  then have inter: "\<not> IsInterProtocol g"
    using wf by (simp add: wf_context_def)
  then have "width g = 1"
    by (cases "InterProtocols g") (simp_all add: IsInterProtocol_def)
  note c = wf_contextD [OF wf]
  have "conns g + reqs g \<le> conns g * reqs g + 1"
    using c(1,2) by (cases "conns g"; cases "reqs g") auto
  then have "ack_range (TcpSequenceNumOffset g) base (ConnectionCount (Config g)) (RequestsPerConnection (Config g))"
    unfolding ack_range_def
    using c b(1) \<open>width g = 1\<close> unat_u16_less [of "RequestCount g"] by (simp del: unat_u16_less)
  from ack_recovers [OF this, of q] show ?thesis
    using True port n b q c \<open>width g = 1\<close> inter
    by (simp add: recoverLogicalSequence_def GetSrcPort_def BaseSequenceIndex_def)
next
  case False
  have "\<not> ucast q > (65535 :: u32)"
    by (simp add: word_less_nat_alt not_less)
  moreover have "ucast (ucast q :: u32) = q"
    by (intro u16_eqI) (simp add: unat_ucast_32_16)
  ultimately show ?thesis
    using False n by (simp add: recoverLogicalSequence_def)
qed

definition mirrors :: "mctx \<Rightarrow> u16 \<Rightarrow> u16 \<Rightarrow> reply \<Rightarrow> payload \<Rightarrow> bool" where
  "mirrors g base q r a \<longleftrightarrow>
     r_dst r = GetSender g q \<and> ForSequence g q = Some a \<and> r_protocol r = ProtocolID a
   \<and> (reply_hasPorts g a \<longrightarrow> r_dstPort r = GetSrcPort g q base)
   \<and> r_recoveredSeq r = (if TcpEstablishConnection g
       then TCPSequenceNumber (TcpSequenceNumOffset g) q (ConnectionCount (Config g)) + 1 else ucast q)"

text \<open>The flags, and in a strict established connection the TCP sequence number, are as demanded.\<close>

definition segment_as_demanded :: "mctx \<Rightarrow> probe \<Rightarrow> u16 \<Rightarrow> reply \<Rightarrow> payload \<Rightarrow> bool" where
  "segment_as_demanded g p q r a \<longleftrightarrow>
     (let x = expectedReplyFlags g FlagsDefault q in
      if strict p
      then base_flags_valid g x (r_flags r) a = Some True
         \<and> (TcpEstablishConnection g \<longrightarrow> \<not> set_contains (r_flags r) TCPFlagRST)
         \<and> (TcpEstablishConnection g \<and> x = FlagsAck \<longrightarrow>
              base_segment_bad g r (GetConnectionIndex g q) p = Some False)
      else flagsMatchPayload g x (r_flags r) a = Some True)"

lemma mirrored_checks:
  assumes wf: "wf_context g" and p: "probe_ok g p"
    and e: "entry_covers g base q e" "TcpEstablishConnection g \<or> strict p \<or> expectedFlags e = FlagsDefault"
    and b: "unat base + conns g \<le> 65536"
    and m: "mirrors g base q r a" and o: "request_open g r p q" and s: "segment_as_demanded g p q r a"
  shows "\<not> strict p \<Longrightarrow> \<exists>x. lenient_check g r e p = Some (Inr (q, x))"
    and "strict p \<Longrightarrow> \<exists>x. base_check g r e p = Some (Inr (q, x))"
proof -
  have q: "unat q < unat (RequestCount g)"
    using o p by (simp add: request_open_def probe_ok_def)
  have ports: "TcpEstablishConnection g \<Longrightarrow> reply_hasPorts g a"
    using wf m by (auto simp: wf_context_def mirrors_def reply_hasPorts_def ForSequence_def)
  have rec: "recoverLogicalSequence g e (r_dstPort r) (r_recoveredSeq r) = Some q"
    using m ports e(1) by (intro recover_mirrored [OF wf b _ q]) (auto simp: mirrors_def entry_covers_def)
  have x: "expectedReplyFlags g (expectedFlags e) q = expectedReplyFlags g FlagsDefault q" if "\<not> strict p"
    using e(2) that by (auto simp: expectedReplyFlags_def)
  note d = m o s e(1) rec
  show "\<exists>x. lenient_check g r e p = Some (Inr (q, x))" if "\<not> strict p"
    using d x [OF that] that
    by (auto simp: lenient_check_def mirrors_def request_open_def segment_as_demanded_def
        entry_covers_def Let_def WasSent_def not_less not_le)
  show "\<exists>x. base_check g r e p = Some (Inr (q, x))" if "strict p"
    using d that
    by (auto simp: base_check_def mirrors_def request_open_def segment_as_demanded_def
        entry_covers_def Let_def not_less not_le)
qed

text \<open>A mirrored reply under any entry that covers the request is accepted.\<close>

lemma covered_reply_accepted:
  assumes "wf_context g" "probe_ok g p" "entry_ok g e p" "unat base + conns g \<le> 65536"
    and active: "strict p \<Longrightarrow> status p = probeActive"
    and covers: "entry_covers g base q e"
    and flags: "TcpEstablishConnection g \<or> strict p \<or> expectedFlags e = FlagsDefault"
    and "mirrors g base q r a" "request_open g r p q" "segment_as_demanded g p q r a"
  shows "\<exists>e' p' s'. FulfillReply g r e p s = Some (True, e', p', s')
    \<and> accepted_as g r q (e, p, s) (e', p', s')"
proof -
  note checks = mirrored_checks [OF assms(1,2) covers flags assms(4,8,9,10)]
  show ?thesis
  proof (cases "strict p")
    case False
    then obtain x where check: "lenient_check g r e p = Some (Inr (q, x))"
      using checks by blast
    then show ?thesis
      using lenient_commit_ok [OF assms(1,2) False assms(3) check, of s] assms(9) False
      by (auto simp: FulfillReply_def request_open_def)
  next
    case True
    then obtain x where check: "base_check g r e p = Some (Inr (q, x))"
      using checks by blast
    then show ?thesis
      using base_commit_ok [OF assms(1,2) True _ assms(3) check, of s] active True
      by (auto simp: FulfillReply_def fulfillBaseReply_def)
  qed
qed

text \<open>
  C16: No genuine reply is lost. A reply that mirrors a request which was sent and is still open (sent
  back to its source address and port, of its protocol, with the sequence number a host derives
  from it, with the demanded flags, in time) is accepted and fills exactly that request's sample,
  both under the entry of the single request and under the entry of the whole probe, for every
  base port the pool can hand out.
\<close>

theorem genuine_reply_accepted:
  assumes "wf_context g" "probe_ok g p" "entry_ok g e p" "unat base + conns g \<le> 65536"
    and "strict p \<Longrightarrow> status p = probeActive"
    and "e = (rt_entry g i q base x)\<lparr>validCount := n, entry_done := b\<rparr> \<and> \<not> strict p
           \<and> (x = FlagsDefault \<or> TcpEstablishConnection g)
       \<or> e = (full_entry g i base)\<lparr>validCount := n, entry_done := b\<rparr>"
    and "mirrors g base q r a" "request_open g r p q" "segment_as_demanded g p q r a"
  shows "\<exists>e' p' s'. FulfillReply g r e p s = Some (True, e', p', s')
    \<and> accepted_as g r q (e, p, s) (e', p', s')"
proof -
  have "q < RequestCount g"
    using assms(2,8) by (simp add: probe_ok_def request_open_def word_less_nat_alt)
  then have covers: "entry_covers g base q e"
    using assms(6) rt_entry_covers [of g base q i x] full_entry_covers [OF assms(1,4), of q i]
    by (auto simp: entry_covers_def)
  have "TcpEstablishConnection g \<or> strict p \<or> expectedFlags e = FlagsDefault"
    using assms(6) by (auto simp: rt_entry_def full_entry_def Let_def)
  from covered_reply_accepted [OF assms(1-5) covers this assms(7-9)] show ?thesis .
qed


section \<open>Concrete instances\<close>

text \<open>A strict probe of the demonstration context with request 5 outstanding, and its genuine reply.\<close>

definition demo_probe :: probe where
  "demo_probe =
     (let p = new_probe demo_context (198, 51, 100, 7) []
      in p\<lparr>Samples := (Samples p)[5 := MarkSent 1000000 empty_sample]\<rparr>)"

definition demo_reply :: reply where
  "demo_reply = \<lparr>r_dst = (192, 0, 2, 2), r_protocol = 6, r_dstPort = 40001, r_recoveredSeq = 5,
     r_tcpSeq = 77, r_ipID = 4711, r_flags = SynAckFlagSet, r_receiveTime = 1000300,
     r_payloadLength = 0, r_dontFragment = True\<rparr>"

lemma demo_facts:
  "strict demo_probe" "status demo_probe = probeActive" "length (Samples demo_probe) = 16"
  "Samples demo_probe ! 5 = MarkSent 1000000 empty_sample"
  by (simp_all add: demo_probe_def new_probe_def demo_defs IsInterProtocol_def Let_def)

lemma demo_probe_ok: "probe_ok demo_context demo_probe"
  by (simp add: demo_probe_def new_probe_def demo_defs IsInterProtocol_def Let_def probe_ok_def status_ok_def)

lemma demo_full_entry_ok: "entry_ok demo_context (full_entry demo_context 0 40000) p"
  by (simp add: entry_ok_def full_entry_def demo_defs)

lemma demo_request_open: "request_open demo_context demo_reply demo_probe 5"
  by (simp add: request_open_def demo_facts MarkSent_def empty_sample_def demo_reply_def demo_defs
      Microseconds_def)

lemma demo_mirrors: "mirrors demo_context 40000 5 demo_reply TCP"
  by (simp add: mirrors_def demo_reply_def demo_defs GetSender_def GetSrcPort_def BaseSequenceIndex_def
      IsInterProtocol_def ForSequence_def)

lemma demo_segment: "segment_as_demanded demo_context demo_probe 5 demo_reply TCP"
  by (simp add: segment_as_demanded_def demo_facts expectedReplyFlags_def base_flags_valid_def
      flagsMatchPayload_def payloadFlagsMatch_def demo_reply_def demo_defs set_equal_iff)

theorem FulfillReply_total_witness:
  "FulfillReply demo_context demo_reply (full_entry demo_context 0 40000) demo_probe (\<lambda>_. 0) \<noteq> None"
  using FulfillReply_total [OF wf_demo demo_probe_ok demo_full_entry_ok, of demo_reply "\<lambda>_. 0"] by auto

theorem genuine_reply_accepted_witness:
  "\<exists>e' p' s'. FulfillReply demo_context demo_reply (full_entry demo_context 0 40000) demo_probe (\<lambda>_. 0)
      = Some (True, e', p', s') \<and> s' MatchedReplies = 1 \<and> IpID (Samples p' ! 5) = 4711"
  using genuine_reply_accepted [OF wf_demo demo_probe_ok demo_full_entry_ok, of 40000 False 0 0 5 FlagsDefault
      demo_reply TCP "\<lambda>_. 0"] demo_mirrors demo_request_open demo_segment
  by (auto simp: accepted_as_def reply_sample_def filled_sample_def demo_facts demo_defs demo_reply_def
      full_entry_def)

lemma demo_accept:
  "\<exists>e' p' s'. FulfillReply demo_context demo_reply (full_entry demo_context 0 40000) demo_probe (\<lambda>_. 0)
      = Some (True, e', p', s')"
proof -
  have "entry_covers demo_context 40000 5 (full_entry demo_context 0 40000)"
    by (intro full_entry_covers wf_demo) (simp_all add: demo_defs)
  then obtain x where "base_check demo_context demo_reply (full_entry demo_context 0 40000) demo_probe
      = Some (Inr (5, x))"
    using mirrored_checks(2) [OF wf_demo demo_probe_ok _ _ _ demo_mirrors demo_request_open demo_segment]
      demo_facts by (auto simp: demo_defs)
  from base_commit_ok [OF wf_demo demo_probe_ok _ _ demo_full_entry_ok this, of "\<lambda>_. 0"] this show ?thesis
    using demo_facts by (auto simp: FulfillReply_def fulfillBaseReply_def)
qed

theorem FulfillReply_sound_witness:
  "\<exists>e' p' s' q. FulfillReply demo_context demo_reply (full_entry demo_context 0 40000) demo_probe (\<lambda>_. 0)
      = Some (True, e', p', s')
    \<and> Samples p' = (Samples demo_probe)[unat q := reply_sample demo_reply demo_probe q]
    \<and> r_dst demo_reply = GetSender demo_context q"
proof -
  obtain e' p' s' where
    *: "FulfillReply demo_context demo_reply (full_entry demo_context 0 40000) demo_probe (\<lambda>_. 0)
      = Some (True, e', p', s')"
    using demo_accept by blast
  from FulfillReply_sound [OF wf_demo demo_probe_ok demo_full_entry_ok *] show ?thesis
    using * demo_facts(1) by (auto simp: accepted_as_def)
qed

text \<open>The same reply sent to the wrong one of the two source addresses.\<close>

lemma demo_reject:
  "FulfillReply demo_context (demo_reply\<lparr>r_dst := (192, 0, 2, 1)\<rparr>) (full_entry demo_context 0 40000)
     demo_probe (\<lambda>_. 0)
   = Some (False, full_entry demo_context 0 40000,
       demo_probe\<lparr>status := probeFailed, failed := Some True\<rparr>, bump AbortBadDst (bump DropBadDst (\<lambda>_. 0)))"
  by (simp add: FulfillReply_def fulfillBaseReply_def demo_facts base_check_def full_entry_def
      recoverLogicalSequence_def demo_reply_def base_reject_def GetSender_def BaseSequenceIndex_def
      IsInterProtocol_def demo_defs failLocked_def close_chan_def demo_probe_def new_probe_def Let_def)

theorem FulfillReply_reject_witness:
  "\<exists>c \<in> reply_rejects. \<exists>d \<in> probe_aborts. \<exists>p'.
     FulfillReply demo_context (demo_reply\<lparr>r_dst := (192, 0, 2, 1)\<rparr>) (full_entry demo_context 0 40000)
       demo_probe (\<lambda>_. 0) = Some (False, full_entry demo_context 0 40000, p', bump d (bump c (\<lambda>_. 0)))
     \<and> status p' = probeFailed \<and> Samples p' = Samples demo_probe"
proof -
  have "Samples (demo_probe\<lparr>status := probeFailed, failed := Some True\<rparr>) = Samples demo_probe"
    using FulfillReply_reject [OF wf_demo demo_probe_ok demo_full_entry_ok demo_reject] by blast
  then show ?thesis
    unfolding demo_reject by (force simp: reply_rejects_def probe_aborts_def)
qed

end
