(* ===== verification/Sample_Race.thy ===== *)
theory Sample_Race
  imports Probe
begin

text \<open>
  The one place where receiver goroutines meet without a lock: in lenient probes several of them,
  and the prober that sends, work on the same \<open>Sample\<close>. \<open>MarkSent\<close> and \<open>TryFill\<close> of
  \<^verbatim>\<open>ipid/probe/probe.go\<close> are split here into their single memory accesses, interleaved in any order,
  for any number of concurrent replies to the same request. The compare-and-swap to \<open>SamplePending\<close>
  makes the winner the only writer; the final store of \<open>SampleReceived\<close> publishes its values.
\<close>

section \<open>Threads\<close>

datatype sender_pc = SetTime | SetState | SenderDone

text \<open>Where a call of \<open>TryFill\<close> stands; \<open>Refused\<close> and \<open>Filled\<close> are its two returns.\<close>

datatype filler_pc = Swap | WriteIpID | WriteTime | WriteDF | StoreReceived | Filled | Refused

record race =
  the_sample :: sample
  sender :: sender_pc
  filler :: "nat \<Rightarrow> filler_pc"

definition race_start :: race where
  "race_start = \<lparr>the_sample = empty_sample, sender = SetTime, filler = (\<lambda>_. Swap)\<rparr>"

text \<open>One atomic access: \<open>now\<close> is the send time, \<open>rs i\<close> the reply of the \<open>i\<close>-th call of \<open>TryFill\<close>.\<close>

inductive race_step :: "int \<Rightarrow> (nat \<Rightarrow> reply) \<Rightarrow> race \<Rightarrow> race \<Rightarrow> bool" for now rs where
  set_time: "sender c = SetTime \<Longrightarrow>
    race_step now rs c (c\<lparr>the_sample := (the_sample c)\<lparr>SentTime := now\<rparr>, sender := SetState\<rparr>)"
| set_state: "sender c = SetState \<Longrightarrow>
    race_step now rs c (c\<lparr>the_sample := (the_sample c)\<lparr>sample_state := SampleSent\<rparr>, sender := SenderDone\<rparr>)"
| swap_fail: "\<lbrakk>filler c i = Swap; sample_state (the_sample c) \<noteq> SampleSent\<rbrakk> \<Longrightarrow>
    race_step now rs c (c\<lparr>filler := (filler c)(i := Refused)\<rparr>)"
| swap_win: "\<lbrakk>filler c i = Swap; sample_state (the_sample c) = SampleSent\<rbrakk> \<Longrightarrow>
    race_step now rs c (c\<lparr>the_sample := (the_sample c)\<lparr>sample_state := SamplePending\<rparr>,
      filler := (filler c)(i := WriteIpID)\<rparr>)"
| write_ipid: "filler c i = WriteIpID \<Longrightarrow>
    race_step now rs c (c\<lparr>the_sample := (the_sample c)\<lparr>IpID := r_ipID (rs i)\<rparr>,
      filler := (filler c)(i := WriteTime)\<rparr>)"
| write_time: "filler c i = WriteTime \<Longrightarrow>
    race_step now rs c (c\<lparr>the_sample := (the_sample c)\<lparr>ReceiveTime := r_receiveTime (rs i)\<rparr>,
      filler := (filler c)(i := WriteDF)\<rparr>)"
| write_df: "filler c i = WriteDF \<Longrightarrow>
    race_step now rs c (c\<lparr>the_sample := (the_sample c)\<lparr>DontFragment := r_dontFragment (rs i)\<rparr>,
      filler := (filler c)(i := StoreReceived)\<rparr>)"
| store_received: "filler c i = StoreReceived \<Longrightarrow>
    race_step now rs c (c\<lparr>the_sample := (the_sample c)\<lparr>sample_state := SampleReceived\<rparr>,
      filler := (filler c)(i := Filled)\<rparr>)"

inductive_cases race_stepE: "race_step now rs c c'"

inductive race_reachable :: "int \<Rightarrow> (nat \<Rightarrow> reply) \<Rightarrow> race \<Rightarrow> bool" for now rs where
  start: "race_reachable now rs race_start"
| step: "\<lbrakk>race_reachable now rs c; race_step now rs c c'\<rbrakk> \<Longrightarrow> race_reachable now rs c'"


section \<open>The invariant\<close>

definition won :: "filler_pc \<Rightarrow> bool" where
  "won pc \<longleftrightarrow> pc \<in> {WriteIpID, WriteTime, WriteDF, StoreReceived, Filled}"

text \<open>The fields the winner has written so far.\<close>

definition written :: "filler_pc \<Rightarrow> reply \<Rightarrow> sample \<Rightarrow> bool" where
  "written pc r s \<longleftrightarrow>
     (pc \<in> {WriteTime, WriteDF, StoreReceived, Filled} \<longrightarrow> IpID s = r_ipID r)
   \<and> (pc \<in> {WriteDF, StoreReceived, Filled} \<longrightarrow> ReceiveTime s = r_receiveTime r)
   \<and> (pc \<in> {StoreReceived, Filled} \<longrightarrow> DontFragment s = r_dontFragment r)"

definition race_inv :: "int \<Rightarrow> (nat \<Rightarrow> reply) \<Rightarrow> race \<Rightarrow> bool" where
  "race_inv now rs c \<longleftrightarrow>
     (sender c = SetTime \<or> SentTime (the_sample c) = now)
   \<and> (case sample_state (the_sample c) of
        SampleEmpty \<Rightarrow> sender c \<noteq> SenderDone \<and> (\<forall>i. \<not> won (filler c i))
      | SampleSent \<Rightarrow> sender c = SenderDone \<and> (\<forall>i. \<not> won (filler c i))
      | SamplePending \<Rightarrow> sender c = SenderDone
          \<and> (\<exists>i. won (filler c i) \<and> filler c i \<noteq> Filled \<and> written (filler c i) (rs i) (the_sample c)
               \<and> (\<forall>j. j \<noteq> i \<longrightarrow> \<not> won (filler c j)))
      | SampleReceived \<Rightarrow> sender c = SenderDone
          \<and> (\<exists>i. filler c i = Filled \<and> written Filled (rs i) (the_sample c)
               \<and> (\<forall>j. j \<noteq> i \<longrightarrow> \<not> won (filler c j))))"

lemma won_simps [simp]:
  "\<not> won Swap" "\<not> won Refused" "won WriteIpID" "won WriteTime" "won WriteDF" "won StoreReceived" "won Filled"
  by (simp_all add: won_def)

lemma race_inv_pendingI:
  "\<lbrakk>sender c = SenderDone; SentTime (the_sample c) = now; sample_state (the_sample c) = SamplePending;
    won (filler c i); filler c i \<noteq> Filled; written (filler c i) (rs i) (the_sample c);
    \<forall>j. j \<noteq> i \<longrightarrow> \<not> won (filler c j)\<rbrakk> \<Longrightarrow> race_inv now rs c"
  unfolding race_inv_def by simp (rule exI [of _ i], simp)

lemma race_inv_receivedI:
  "\<lbrakk>sender c = SenderDone; SentTime (the_sample c) = now; sample_state (the_sample c) = SampleReceived;
    filler c i = Filled; written Filled (rs i) (the_sample c);
    \<forall>j. j \<noteq> i \<longrightarrow> \<not> won (filler c j)\<rbrakk> \<Longrightarrow> race_inv now rs c"
  unfolding race_inv_def by simp (rule exI [of _ i], simp)

lemma race_inv_pendingE:
  assumes "race_inv now rs c" "sample_state (the_sample c) = SamplePending"
  obtains k where "sender c = SenderDone" "SentTime (the_sample c) = now" "won (filler c k)"
    "filler c k \<noteq> Filled" "written (filler c k) (rs k) (the_sample c)" "\<forall>j. j \<noteq> k \<longrightarrow> \<not> won (filler c j)"
  using assms by (auto simp: race_inv_def)

lemma race_inv_receivedE:
  assumes "race_inv now rs c" "sample_state (the_sample c) = SampleReceived"
  obtains k where "sender c = SenderDone" "SentTime (the_sample c) = now" "filler c k = Filled"
    "written Filled (rs k) (the_sample c)" "\<forall>j. j \<noteq> k \<longrightarrow> \<not> won (filler c j)"
  using assms by (auto simp: race_inv_def)

lemma winner_pending:
  assumes inv: "race_inv now rs c" and i: "won (filler c i)" "filler c i \<noteq> Filled"
  shows "sample_state (the_sample c) = SamplePending" "sender c = SenderDone"
    "written (filler c i) (rs i) (the_sample c)" "\<forall>j. j \<noteq> i \<longrightarrow> \<not> won (filler c j)"
    "SentTime (the_sample c) = now"
proof -
  have "sample_state (the_sample c) = SamplePending \<and> sender c = SenderDone
      \<and> written (filler c i) (rs i) (the_sample c) \<and> (\<forall>j. j \<noteq> i \<longrightarrow> \<not> won (filler c j))
      \<and> SentTime (the_sample c) = now"
  proof (cases "sample_state (the_sample c)")
    case SamplePending
    from inv this obtain k where "sender c = SenderDone" "SentTime (the_sample c) = now"
      "written (filler c k) (rs k) (the_sample c)" "\<forall>j. j \<noteq> k \<longrightarrow> \<not> won (filler c j)"
      by (rule race_inv_pendingE)
    moreover from this i have "k = i" by metis
    ultimately show ?thesis using SamplePending by simp
  next
    case SampleReceived
    from inv this obtain k where "filler c k = Filled" "\<forall>j. j \<noteq> k \<longrightarrow> \<not> won (filler c j)"
      by (rule race_inv_receivedE)
    with i show ?thesis by metis
  qed (use inv i in \<open>auto simp: race_inv_def\<close>)
  then show "sample_state (the_sample c) = SamplePending" "sender c = SenderDone"
    "written (filler c i) (rs i) (the_sample c)" "\<forall>j. j \<noteq> i \<longrightarrow> \<not> won (filler c j)"
    "SentTime (the_sample c) = now"
    by blast+
qed

lemma race_inv_refuse:
  assumes "race_inv now rs c" "filler c i = Swap"
  shows "race_inv now rs (c\<lparr>filler := (filler c)(i := Refused)\<rparr>)"
proof -
  define f where "f = (filler c)(i := Refused)"
  have w: "won (f j) \<longleftrightarrow> won (filler c j)" for j
    using assms(2) by (simp add: f_def)
  have same: "f k = filler c k" if "won (filler c k)" for k
    using assms(2) that by (auto simp: f_def)
  have "race_inv now rs (c\<lparr>filler := f\<rparr>)"
  proof (cases "sample_state (the_sample c)")
    case SamplePending
    with assms(1) show ?thesis
    proof (rule race_inv_pendingE)
      fix k
      assume k: "sender c = SenderDone" "SentTime (the_sample c) = now" "won (filler c k)"
        "filler c k \<noteq> Filled" "written (filler c k) (rs k) (the_sample c)" "\<forall>j. j \<noteq> k \<longrightarrow> \<not> won (filler c j)"
      show ?thesis
        by (rule race_inv_pendingI [of _ _ k]) (simp_all add: k SamplePending w same [OF k(3)])
    qed
  next
    case SampleReceived
    with assms(1) show ?thesis
    proof (rule race_inv_receivedE)
      fix k
      assume k: "sender c = SenderDone" "SentTime (the_sample c) = now" "filler c k = Filled"
        "written Filled (rs k) (the_sample c)" "\<forall>j. j \<noteq> k \<longrightarrow> \<not> won (filler c j)"
      have "f k = Filled" using same [of k] k(3) by simp
      then show ?thesis
        by (intro race_inv_receivedI [of _ _ k]) (simp_all add: k SampleReceived w)
    qed
  qed (use assms(1) w in \<open>auto simp: race_inv_def\<close>)
  then show ?thesis by (simp add: f_def)
qed

lemma race_inv_step:
  assumes inv: "race_inv now rs c" and step: "race_step now rs c c'"
  shows "race_inv now rs c'"
  using step
proof (cases rule: race_step.cases)
  case set_time
  then show ?thesis using inv by (auto simp: race_inv_def split: SampleState.splits)
next
  case set_state
  then show ?thesis using inv by (auto simp: race_inv_def split: SampleState.splits)
next
  case (swap_fail i)
  then show ?thesis using inv race_inv_refuse by simp
next
  case (swap_win i)
  then show ?thesis
    using inv by (intro race_inv_pendingI [of _ _ i]) (auto simp: race_inv_def written_def split: if_splits)
next
  case (write_ipid i)
  then show ?thesis
    using winner_pending [OF inv, of i]
    by (intro race_inv_pendingI [of _ _ i]) (auto simp: written_def split: if_splits)
next
  case (write_time i)
  then show ?thesis
    using winner_pending [OF inv, of i]
    by (intro race_inv_pendingI [of _ _ i]) (auto simp: written_def split: if_splits)
next
  case (write_df i)
  then show ?thesis
    using winner_pending [OF inv, of i]
    by (intro race_inv_pendingI [of _ _ i]) (auto simp: written_def split: if_splits)
next
  case (store_received i)
  then show ?thesis
    using winner_pending [OF inv, of i]
    by (intro race_inv_receivedI [of _ _ i]) (auto simp: written_def split: if_splits)
qed

lemma race_inv_reachable: "race_reachable now rs c \<Longrightarrow> race_inv now rs c"
proof (induction rule: race_reachable.induct)
  case start
  then show ?case by (simp add: race_inv_def race_start_def empty_sample_def)
next
  case (step c c')
  then show ?case using race_inv_step by blast
qed


section \<open>Properties\<close>

text \<open>
  C20: However many replies to one request are processed at the same time, and however their memory
  accesses interleave with each other and with the sender, a sample that reads as received is whole:
  its IP-ID, receive time and DF bit all come from one and the same reply, the only one whose
  \<open>TryFill\<close> reports success, its send time is the one \<open>MarkSent\<close> was given, and no later access of
  any thread changes it.
\<close>

theorem received_sample_untorn:
  assumes "race_reachable now rs c" "IsReceived (the_sample c)"
  shows "(\<exists>!i. filler c i = Filled)
    \<and> (\<forall>i. filler c i = Filled \<longrightarrow> the_sample c =
         \<lparr>sample_state = SampleReceived, SentTime = now, ReceiveTime = r_receiveTime (rs i),
          IpID = r_ipID (rs i), DontFragment = r_dontFragment (rs i),
          tcpSequence = tcpSequence (the_sample c)\<rparr>)
    \<and> (\<forall>c'. race_step now rs c c' \<longrightarrow> the_sample c' = the_sample c)"
proof -
  note inv = race_inv_reachable [OF assms(1)]
  from inv assms(2) obtain i where i: "sender c = SenderDone" "SentTime (the_sample c) = now"
      "filler c i = Filled" "written Filled (rs i) (the_sample c)" "\<forall>j. j \<noteq> i \<longrightarrow> \<not> won (filler c j)"
    unfolding IsReceived_def by (rule race_inv_receivedE)
  have only: "filler c j = Filled \<longleftrightarrow> j = i" for j
    using i(3,5) by auto
  have settled: "filler c j \<in> {Swap, Filled, Refused}" for j
    using i(3,5) by (cases "filler c j"; cases "j = i") auto
  have "the_sample c' = the_sample c" if "race_step now rs c c'" for c'
    using that
  proof (cases rule: race_step.cases)
    case (swap_win j)
    then show ?thesis using assms(2) by (simp add: IsReceived_def)
  next
    case (write_ipid j)
    then show ?thesis using settled [of j] by simp
  next
    case (write_time j)
    then show ?thesis using settled [of j] by simp
  next
    case (write_df j)
    then show ?thesis using settled [of j] by simp
  next
    case (store_received j)
    then show ?thesis using settled [of j] by simp
  qed (use i(1) in simp_all)
  moreover have "the_sample c = \<lparr>sample_state = SampleReceived, SentTime = now,
      ReceiveTime = r_receiveTime (rs i), IpID = r_ipID (rs i), DontFragment = r_dontFragment (rs i),
      tcpSequence = tcpSequence (the_sample c)\<rparr>"
    using i(2,4) assms(2) by (simp add: written_def IsReceived_def)
  ultimately show ?thesis
    by (simp only: only) blast
qed

text \<open>Two replies race for the sample; the second one wins.\<close>

definition demo_replies :: "nat \<Rightarrow> reply" where
  "demo_replies i = \<lparr>r_dst = (192, 0, 2, 1), r_protocol = 1, r_dstPort = 0, r_recoveredSeq = 0,
     r_tcpSeq = 0, r_ipID = of_nat (100 + i), r_flags = set_new [], r_receiveTime = 50 + int i,
     r_payloadLength = 0, r_dontFragment = (i = 1)\<rparr>"

definition demo_race :: race where
  "demo_race = \<lparr>the_sample = \<lparr>sample_state = SampleReceived, SentTime = 40, ReceiveTime = 51, IpID = 101,
     DontFragment = True, tcpSequence = 0\<rparr>, sender = SenderDone, filler = (\<lambda>_. Swap)(1 := Filled)\<rparr>"

lemma demo_race_reachable: "race_reachable 40 demo_replies demo_race"
proof -
  note s = race_reachable.step [of 40 demo_replies]
  let ?s0 = "empty_sample\<lparr>SentTime := 40\<rparr>"
  have a: "race_reachable 40 demo_replies (race_start\<lparr>the_sample := ?s0, sender := SetState\<rparr>)"
    using s [OF race_reachable.start set_time] by (simp add: race_start_def)
  have b: "race_reachable 40 demo_replies \<lparr>the_sample = ?s0\<lparr>sample_state := SampleSent\<rparr>,
      sender = SenderDone, filler = \<lambda>_. Swap\<rparr>"
    using s [OF a set_state] by (simp add: race_start_def)
  have c: "race_reachable 40 demo_replies \<lparr>the_sample = ?s0\<lparr>sample_state := SamplePending\<rparr>,
      sender = SenderDone, filler = (\<lambda>_. Swap)(1 := WriteIpID)\<rparr>"
    using s [OF b swap_win [of _ 1]] by simp
  have d: "race_reachable 40 demo_replies \<lparr>the_sample = ?s0\<lparr>sample_state := SamplePending, IpID := 101\<rparr>,
      sender = SenderDone, filler = (\<lambda>_. Swap)(1 := WriteTime)\<rparr>"
    using s [OF c write_ipid [of _ 1]] by (simp add: demo_replies_def)
  have e: "race_reachable 40 demo_replies \<lparr>the_sample = ?s0\<lparr>sample_state := SamplePending, IpID := 101,
      ReceiveTime := 51\<rparr>, sender = SenderDone, filler = (\<lambda>_. Swap)(1 := WriteDF)\<rparr>"
    using s [OF d write_time [of _ 1]] by (simp add: demo_replies_def)
  have f: "race_reachable 40 demo_replies \<lparr>the_sample = ?s0\<lparr>sample_state := SamplePending, IpID := 101,
      ReceiveTime := 51, DontFragment := True\<rparr>, sender = SenderDone,
      filler = (\<lambda>_. Swap)(1 := StoreReceived)\<rparr>"
    using s [OF e write_df [of _ 1]] by (simp add: demo_replies_def)
  show ?thesis
    using s [OF f store_received [of _ 1]] by (simp add: demo_race_def empty_sample_def)
qed

theorem received_sample_untorn_witness:
  "\<exists>!i. filler demo_race i = Filled"
  using received_sample_untorn [OF demo_race_reachable] by (simp add: demo_race_def IsReceived_def)

end
