(* ===== verification/Prober.thy ===== *)
theory Prober
  imports Matching Port
begin

text \<open>
  The prober's side of a probe: \<open>MeasureTarget\<close> and the measuring loops of
  \<^verbatim>\<open>ipid/probe/probe.go\<close> and \<^verbatim>\<open>ipid/probe/base.go\<close>, run by one worker goroutine for one target.
  Around it the receivers, the other workers and the shutdown act at any time. Their actions and the
  outcome of everything the prober waits for are an explicit list of events, the script: each point
  at which the code waits (a \<open>select\<close>, the rate limiter, a socket write) first lets any number of
  environment actions happen and then takes one branch, which must be ready. A run is therefore a
  function of the script, and what holds for all scripts holds for all interleavings.

  The result of a run is \<open>Returns\<close>, or \<open>Crashed\<close> (a run-time panic), or \<open>Waiting\<close>: the script ends,
  or names a branch that is not ready, so the prober is still waiting there.
\<close>

section \<open>Runs\<close>

datatype 'a outcome = Crashed | Waiting | Returns 'a

fun andThen :: "'a outcome \<Rightarrow> ('a \<Rightarrow> 'b outcome) \<Rightarrow> 'b outcome" where
  "andThen Crashed f = Crashed"
| "andThen Waiting f = Waiting"
| "andThen (Returns x) f = f x"

lemma andThen_cong [fundef_cong]:
  "m = m' \<Longrightarrow> (\<And>x. m' = Returns x \<Longrightarrow> f x = f' x) \<Longrightarrow> andThen m f = andThen m' f'"
  by (cases m') simp_all

definition or_crash :: "'a option \<Rightarrow> 'a outcome" where
  "or_crash x = (case x of None \<Rightarrow> Crashed | Some y \<Rightarrow> Returns y)"

text \<open>The branches of the waiting points.\<close>

datatype branch =
    Timer | EntryDone | ProbeFailed | AckReply | HandshakeDone | ReplyToken | StopBranch | SaveSlot
  | Granted | Refused | Clock int | Wire bool | LockedSend int bool

text \<open>
  What others do: a receiver hands a reply to one of the probe's entries, rejects a packet of this
  target before matching (\<open>RejectBaseReply\<close>), or tests its protocol (\<open>AcceptProtocol\<close>); another
  worker registers the same target, or withdraws its own entry; the stop signal is closed.
\<close>

datatype env_event =
    EvReply nat reply
  | EvReject counter
  | EvProtocol u8
  | EvSupersede entry
  | EvForeignLeave nat
  | EvStop

datatype event = Env env_event | Choose branch

text \<open>
  The state a prober sees. Its own probe has number 0 in the entries; entries of other probes have
  other numbers. \<open>wire\<close> lists the packets written to the sockets with their source address. The
  counters are the contributions of this probe.
\<close>

record world =
  cur_probe :: probe
  cur_entries :: "entry list"
  cur_registry :: inflight
  cur_stats :: stats
  cur_stopped :: bool
  cur_saved :: "probe list"
  cur_wire :: "(ip4 \<times> u8 list) list"
  cur_packets :: "u8 list list"
  cur_script :: "event list"

abbreviation own :: "world \<Rightarrow> nat \<Rightarrow> bool" where
  "own w i \<equiv> i < length (cur_entries w) \<and> entry_Probe (cur_entries w ! i) = 0"

definition reply_event :: "mctx \<Rightarrow> nat \<Rightarrow> reply \<Rightarrow> world \<Rightarrow> world option" where
  "reply_event g i r w =
     (if own w i then do {
        (b, e, p, s) \<leftarrow> FulfillReply g r (cur_entries w ! i) (cur_probe w) (cur_stats w);
        Some (w\<lparr>cur_probe := p, cur_entries := (cur_entries w)[i := e], cur_stats := s\<rparr>)
      }
      else Some w)"

definition RejectBaseReply :: "(ip4 \<Rightarrow> u64) \<Rightarrow> ip4 \<Rightarrow> counter \<Rightarrow> world \<Rightarrow> world option" where
  "RejectBaseReply hash src reason w =
     (case Lookup hash (cur_registry w) src of
        None \<Rightarrow> Some w
      | Some i \<Rightarrow>
          if own w i \<and> strict (cur_probe w) then do {
            (p, s) \<leftarrow> fail (Some reason) (cur_probe w, cur_stats w);
            Some (w\<lparr>cur_probe := p, cur_stats := s\<rparr>)
          }
          else Some w)"

definition protocol_event :: "mctx \<Rightarrow> (ip4 \<Rightarrow> u64) \<Rightarrow> ip4 \<Rightarrow> u8 \<Rightarrow> world \<Rightarrow> world option" where
  "protocol_event g hash src protocol w =
     (case Lookup hash (cur_registry w) src of
        None \<Rightarrow> Some w
      | Some i \<Rightarrow>
          if own w i then do {
            (b, p, s) \<leftarrow> AcceptProtocol g protocol (cur_probe w) (cur_stats w);
            Some (w\<lparr>cur_probe := p, cur_stats := s\<rparr>)
          }
          else Some w)"

definition env_step :: "mctx \<Rightarrow> (ip4 \<Rightarrow> u64) \<Rightarrow> ip4 \<Rightarrow> env_event \<Rightarrow> world \<Rightarrow> world option" where
  "env_step g hash key ev w =
     (case ev of
        EvReply i r \<Rightarrow> reply_event g i r w
      | EvReject c \<Rightarrow> if c \<in> probe_aborts then RejectBaseReply hash key c w else Some w
      | EvProtocol n \<Rightarrow> protocol_event g hash key n w
      | EvSupersede e \<Rightarrow>
          if entry_Probe e = 0 then Some w
          else let (r, entries) = Register hash (cur_registry w, cur_entries w @ [e]) key (length (cur_entries w))
            in Some (w\<lparr>cur_registry := r, cur_entries := entries\<rparr>)
      | EvForeignLeave i \<Rightarrow>
          if own w i then Some w else Some (w\<lparr>cur_registry := Deregister hash (cur_registry w) key i\<rparr>)
      | EvStop \<Rightarrow> Some (w\<lparr>cur_stopped := True\<rparr>))"

text \<open>Let the environment act until the script names the branch to take.\<close>

fun await_on ::
  "mctx \<Rightarrow> (ip4 \<Rightarrow> u64) \<Rightarrow> ip4 \<Rightarrow> event list \<Rightarrow> world \<Rightarrow> (branch \<times> world) outcome" where
  "await_on g hash key [] w = Waiting"
| "await_on g hash key (Choose b # evs) w = Returns (b, w\<lparr>cur_script := evs\<rparr>)"
| "await_on g hash key (Env ev # evs) w =
     andThen (or_crash (env_step g hash key ev w)) (await_on g hash key evs)"

definition await :: "mctx \<Rightarrow> (ip4 \<Rightarrow> u64) \<Rightarrow> ip4 \<Rightarrow> world \<Rightarrow> (branch \<times> world) outcome" where
  "await g hash key w = await_on g hash key (cur_script w) w"

abbreviation events_left :: "world \<Rightarrow> nat" where
  "events_left w \<equiv> length (cur_script w)"

text \<open>
  \<open>ensures m Q\<close>: if \<open>m\<close> returns, its result satisfies \<open>Q\<close>. \<open>safely m Q\<close>: in addition \<open>m\<close> does not crash.
\<close>

definition ensures :: "'a outcome \<Rightarrow> ('a \<Rightarrow> bool) \<Rightarrow> bool" where
  "ensures m Q \<longleftrightarrow> (\<forall>x. m = Returns x \<longrightarrow> Q x)"

definition safely :: "'a outcome \<Rightarrow> ('a \<Rightarrow> bool) \<Rightarrow> bool" where
  "safely m Q \<longleftrightarrow> m \<noteq> Crashed \<and> ensures m Q"

named_theorems outcome_simps \<open>computing the postconditions of runs\<close>

lemma ensures_simps [simp, outcome_simps]:
  "ensures (Returns x) Q \<longleftrightarrow> Q x" "ensures Waiting Q" "ensures Crashed Q"
  by (simp_all add: ensures_def)

lemma safely_simps [simp, outcome_simps]:
  "safely (Returns x) Q \<longleftrightarrow> Q x" "safely Waiting Q" "\<not> safely Crashed Q"
  by (simp_all add: safely_def)

lemma ensures_andThen [outcome_simps]: "ensures (andThen m f) Q \<longleftrightarrow> ensures m (\<lambda>x. ensures (f x) Q)"
  by (cases m) (simp_all add: ensures_def)

lemma safely_andThen [outcome_simps]: "safely (andThen m f) Q \<longleftrightarrow> safely m (\<lambda>x. safely (f x) Q)"
  by (cases m) simp_all

lemma ensures_or_crash [outcome_simps]: "ensures (or_crash x) Q \<longleftrightarrow> (\<forall>y. x = Some y \<longrightarrow> Q y)"
  by (cases x) (simp_all add: or_crash_def)

lemma safely_or_crash [outcome_simps]: "safely (or_crash x) Q \<longleftrightarrow> (\<exists>y. x = Some y \<and> Q y)"
  by (cases x) (simp_all add: or_crash_def)

lemma ensures_mono: "ensures m P \<Longrightarrow> (\<And>x. P x \<Longrightarrow> Q x) \<Longrightarrow> ensures m Q"
  by (simp add: ensures_def)

lemma safely_mono: "safely m P \<Longrightarrow> (\<And>x. P x \<Longrightarrow> Q x) \<Longrightarrow> safely m Q"
  by (simp add: safely_def ensures_def)

lemma ensures_pair: "ensures m (\<lambda>(a, b). P a b) \<Longrightarrow> (\<And>a b. P a b \<Longrightarrow> Q (a, b)) \<Longrightarrow> ensures m Q"
  by (auto simp: ensures_def)

lemma safely_pair: "safely m (\<lambda>(a, b). P a b) \<Longrightarrow> (\<And>a b. P a b \<Longrightarrow> Q (a, b)) \<Longrightarrow> safely m Q"
  by (auto simp: safely_def ensures_def)

lemma ensures_returned: "ensures m Q \<Longrightarrow> m = Returns x \<Longrightarrow> Q x"
  by (simp add: ensures_def)

lemma safely_returned: "safely m Q \<Longrightarrow> m = Returns x \<Longrightarrow> Q x"
  by (simp add: safely_def ensures_def)

lemma andThen_Returns: "andThen m f = Returns y \<longleftrightarrow> (\<exists>x. m = Returns x \<and> f x = Returns y)"
  by (cases m) simp_all

lemma await_on_script:
  "await_on g hash key evs w = Returns (b, w') \<Longrightarrow> length (cur_script w') < length evs"
  by (induction g hash key evs w rule: await_on.induct) (force simp: andThen_Returns)+

lemma await_script: "await g hash key w = Returns (b, w') \<Longrightarrow> events_left w' < events_left w"
  by (simp add: await_def await_on_script)


section \<open>Sending\<close>

text \<open>
  \<open>sendPacket\<close>. The limiter grants or refuses; then, in a lenient probe, the sample is marked and the
  packet written, in two steps between which replies may come; in a strict probe both happen under
  the probe's lock, if the probe is still active. \<open>sample\<close> is the index of the sample to mark;
  \<open>withProbe\<close> is false for the final resets, which are sent without a probe.
\<close>

definition eth_header_len :: nat where
  "eth_header_len = 14"

definition mark_sample :: "u16 option \<Rightarrow> int \<Rightarrow> probe \<Rightarrow> probe option" where
  "mark_sample sample now p =
     (case sample of
        None \<Rightarrow> Some p
      | Some i \<Rightarrow> do {
          s \<leftarrow> nth_opt (Samples p) (unat i);
          Some (p\<lparr>Samples := (Samples p)[unat i := MarkSent now s]\<rparr>)
        })"

definition put_on_wire :: "ip4 \<Rightarrow> u8 list \<Rightarrow> world \<Rightarrow> world" where
  "put_on_wire src bytes w =
     w\<lparr>cur_wire := cur_wire w @ [(src, bytes)],
       cur_stats := bump SentPackets (add_to SentBytes (int (eth_header_len + length bytes)) (cur_stats w))\<rparr>"

definition send_lenient ::
  "mctx \<Rightarrow> (ip4 \<Rightarrow> u64) \<Rightarrow> ip4 \<Rightarrow> ip4 \<Rightarrow> u8 list \<Rightarrow> u16 option \<Rightarrow> int \<Rightarrow> world \<Rightarrow> (bool \<times> world) outcome" where
  "send_lenient g hash key src bytes sample now w =
     andThen (or_crash (mark_sample sample now (cur_probe w))) (\<lambda>p.
     andThen (await g hash key (w\<lparr>cur_probe := p\<rparr>)) (\<lambda>(b, w).
       if b = Wire True then Returns (True, put_on_wire src bytes w)
       else if b = Wire False then Returns (False, w\<lparr>cur_stats := bump DropSendErr (cur_stats w)\<rparr>)
       else Waiting))"

definition send_strict ::
  "u8 list \<Rightarrow> ip4 \<Rightarrow> u16 option \<Rightarrow> int \<Rightarrow> bool \<Rightarrow> world \<Rightarrow> (bool \<times> world) outcome" where
  "send_strict bytes src sample now sent w =
     (if status (cur_probe w) \<noteq> probeActive then Returns (False, w)
      else andThen (or_crash (mark_sample sample now (cur_probe w))) (\<lambda>p.
        if sent then Returns (True, put_on_wire src bytes (w\<lparr>cur_probe := p\<rparr>))
        else andThen (or_crash (failLocked (Some DropSendErr) (p, cur_stats w))) (\<lambda>(p, s).
          Returns (False, w\<lparr>cur_probe := p, cur_stats := s\<rparr>))))"

definition sendPacket ::
  "mctx \<Rightarrow> (ip4 \<Rightarrow> u64) \<Rightarrow> ip4 \<Rightarrow> ip4 \<Rightarrow> u8 list \<Rightarrow> u16 option \<Rightarrow> bool \<Rightarrow> world \<Rightarrow> (bool \<times> world) outcome" where
  "sendPacket g hash key src bytes sample withProbe w =
     andThen (await g hash key w) (\<lambda>(b, w).
       if b = Refused then
         if withProbe
         then andThen (or_crash (fail (Some DropLimiterStop) (cur_probe w, cur_stats w))) (\<lambda>(p, s).
           Returns (False, w\<lparr>cur_probe := p, cur_stats := s\<rparr>))
         else Returns (False, w\<lparr>cur_stats := bump DropLimiterStop (cur_stats w)\<rparr>)
       else if b \<noteq> Granted then Waiting
       else andThen (await g hash key w) (\<lambda>(b, w).
         case b of
           Clock now \<Rightarrow>
             if withProbe \<and> strict (cur_probe w) then Waiting
             else send_lenient g hash key src bytes sample now w
         | LockedSend now sent \<Rightarrow>
             if withProbe \<and> strict (cur_probe w) then send_strict bytes src sample now sent w
             else Waiting
         | _ \<Rightarrow> Waiting))"

lemma ensures_await: "ensures (await g hash key w) (\<lambda>(b, w'). events_left w' < events_left w)"
  using await_script by (auto simp: ensures_def)

lemma ensures_await_le: "events_left w \<le> n \<Longrightarrow> ensures (await g hash key w) (\<lambda>(b, w'). events_left w' < n)"
  by (rule ensures_mono [OF ensures_await]) auto

lemma ensures_send_lenient:
  "events_left w < n \<Longrightarrow>
   ensures (send_lenient g hash key src bytes sample now w) (\<lambda>(b, w'). events_left w' < n)"
  unfolding send_lenient_def outcome_simps
  by (intro allI impI, rule ensures_mono [OF ensures_await_le [of _ "n - 1"]])
     (auto simp: put_on_wire_def)

lemma ensures_send_strict:
  "events_left w < n \<Longrightarrow>
   ensures (send_strict bytes src sample now sent w) (\<lambda>(b, w'). events_left w' < n)"
  by (auto simp: send_strict_def outcome_simps put_on_wire_def)

lemma ensures_sendPacket:
  "ensures (sendPacket g hash key src bytes sample withProbe w) (\<lambda>(b, w'). events_left w' < events_left w)"
  unfolding sendPacket_def outcome_simps
proof (rule ensures_pair [OF ensures_await], simp add: outcome_simps split_def, intro impI,
    rule ensures_pair [OF ensures_await])
  fix w1 b w2
  assume "events_left w1 < events_left w" "events_left w2 < events_left w1"
  then have "events_left w2 < events_left w" by simp
  then show "ensures (case fst (b, w2) of
           Clock now \<Rightarrow> if withProbe \<and> strict (cur_probe (snd (b, w2))) then Waiting
             else send_lenient g hash key src bytes sample now (snd (b, w2))
         | LockedSend now sent \<Rightarrow> if withProbe \<and> strict (cur_probe (snd (b, w2)))
             then send_strict bytes src sample now sent (snd (b, w2)) else Waiting
         | _ \<Rightarrow> Waiting) (\<lambda>x. events_left (snd x) < events_left w)"
    using ensures_send_lenient [of w2] ensures_send_strict [of w2]
    by (auto simp: split_def split: branch.split)
qed


section \<open>Acknowledging established connections\<close>

fun next_request_loop :: "mctx \<Rightarrow> probe \<Rightarrow> u16 \<Rightarrow> nat list \<Rightarrow> u16 \<Rightarrow> u16 option" where
  "next_request_loop g p connection [] next = Some next"
| "next_request_loop g p connection (k # ks) next = do {
     let seqNum = of_nat k * ConnectionCount (Config g) + connection;
     s \<leftarrow> nth_opt (Samples p) (unat seqNum);
     if \<not> WasSent s then Some next else next_request_loop g p connection ks (of_nat k + 1)
   }"

definition nextTCPRequestIndex :: "mctx \<Rightarrow> probe \<Rightarrow> u16 \<Rightarrow> u16 option" where
  "nextTCPRequestIndex g p connection =
     next_request_loop g p connection [1..<unat (RequestsPerConnection (Config g))] 1"

text \<open>The bytes \<open>tcpSendACK\<close> sends: the connection's SYN turned into an acknowledgment.\<close>

definition ack_bytes :: "mctx \<Rightarrow> u16 \<Rightarrow> world \<Rightarrow> u8 list option" where
  "ack_bytes g connection w = do {
     next \<leftarrow> nextTCPRequestIndex g (cur_probe w) connection;
     acknowledgment \<leftarrow> nth_opt (tcpAcknowledgments (cur_probe w)) (unat connection);
     syn \<leftarrow> nth_opt (cur_packets w) (unat connection);
     BuildTCPACK g syn (TcpSequenceNumOffset g + ucast connection + ucast next) acknowledgment
   }"

definition tcpSendACK :: "mctx \<Rightarrow> (ip4 \<Rightarrow> u64) \<Rightarrow> ip4 \<Rightarrow> u16 \<Rightarrow> world \<Rightarrow> (bool \<times> world) outcome" where
  "tcpSendACK g hash key connection w =
     andThen (or_crash (ack_bytes g connection w)) (\<lambda>ack.
       sendPacket g hash key (GetSender g connection) ack None True w)"

lemma ensures_tcpSendACK:
  "ensures (tcpSendACK g hash key c w) (\<lambda>(b, w'). events_left w' < events_left w)"
  by (simp add: tcpSendACK_def outcome_simps ensures_sendPacket)

definition set_acks :: "u16 list \<Rightarrow> world \<Rightarrow> world" where
  "set_acks q w = w\<lparr>cur_probe := (cur_probe w)\<lparr>tcpACKReplies := Some q\<rparr>\<rparr>"

text \<open>Receiving from \<open>tcpACKReplies\<close>: nothing when the channel is nil or empty.\<close>

definition take_ack :: "world \<Rightarrow> (u16 \<times> world) option" where
  "take_ack w = (case tcpACKReplies (cur_probe w) of Some (c # q) \<Rightarrow> Some (c, set_acks q w) | _ \<Rightarrow> None)"

lemma take_ack_events: "take_ack w = Some (c, w') \<Longrightarrow> events_left w' = events_left w"
  by (auto simp: take_ack_def set_acks_def split: option.splits list.splits)

lemma sent_ack_events:
  assumes "take_ack w = Some (c, w1)" "tcpSendACK g hash key c w1 = Returns (b, w2)"
  shows "events_left w2 < events_left w"
  using ensures_returned [OF ensures_tcpSendACK assms(2)] take_ack_events [OF assms(1)] by simp

function flushTCPACKs :: "mctx \<Rightarrow> (ip4 \<Rightarrow> u64) \<Rightarrow> ip4 \<Rightarrow> world \<Rightarrow> (bool \<times> world) outcome" where
  "flushTCPACKs g hash key w =
     (case take_ack w of
        None \<Rightarrow> Returns (True, w)
      | Some (connection, w1) \<Rightarrow>
          andThen (tcpSendACK g hash key connection w1) (\<lambda>(sent, w2).
            if \<not> sent then Returns (False, w2) else flushTCPACKs g hash key w2))"
  by pat_completeness auto
termination flushTCPACKs
  by (relation "measure (\<lambda>(g, hash, key, w). events_left w)") (auto dest: sent_ack_events)

declare flushTCPACKs.simps [simp del]


section \<open>Waiting\<close>

text \<open>\<open>p.fail(reason)\<close> followed by \<open>return false\<close>.\<close>

definition give_up :: "counter \<Rightarrow> world \<Rightarrow> (bool \<times> world) outcome" where
  "give_up reason w =
     andThen (or_crash (fail (Some reason) (cur_probe w, cur_stats w))) (\<lambda>(p, s).
       Returns (False, w\<lparr>cur_probe := p, cur_stats := s\<rparr>))"

definition count_event :: "counter \<Rightarrow> world \<Rightarrow> world" where
  "count_event c w = w\<lparr>cur_stats := bump c (cur_stats w)\<rparr>"

function waitInterval_loop :: "mctx \<Rightarrow> (ip4 \<Rightarrow> u64) \<Rightarrow> ip4 \<Rightarrow> world \<Rightarrow> (bool \<times> world) outcome" where
  "waitInterval_loop g hash key w =
     andThen (await g hash key w) (\<lambda>(b, w1).
       if b = Timer then Returns (True, w1)
       else if b = ProbeFailed \<and> failed (cur_probe w1) = Some True then Returns (False, w1)
       else if b = AckReply then
         (case take_ack w1 of
            None \<Rightarrow> Waiting
          | Some (connection, w2) \<Rightarrow>
              andThen (tcpSendACK g hash key connection w2) (\<lambda>(sent, w3).
                if \<not> sent then Returns (False, w3) else waitInterval_loop g hash key w3))
       else if b = StopBranch \<and> cur_stopped w1 then give_up DropInterrupt w1
       else Waiting)"
  by pat_completeness auto
termination waitInterval_loop
  by (relation "measure (\<lambda>(g, hash, key, w). events_left w)")
     (auto dest!: sent_ack_events await_script)

declare waitInterval_loop.simps [simp del]

definition waitInterval :: "mctx \<Rightarrow> (ip4 \<Rightarrow> u64) \<Rightarrow> ip4 \<Rightarrow> world \<Rightarrow> (bool \<times> world) outcome" where
  "waitInterval g hash key w =
     (if \<not> strict (cur_probe w) \<and> tcpACKReplies (cur_probe w) = None
      then andThen (await g hash key w) (\<lambda>(b, w). if b = Timer then Returns (True, w) else Waiting)
      else waitInterval_loop g hash key w)"

function waitForTCPHandshakes :: "mctx \<Rightarrow> (ip4 \<Rightarrow> u64) \<Rightarrow> ip4 \<Rightarrow> world \<Rightarrow> (bool \<times> world) outcome" where
  "waitForTCPHandshakes g hash key w =
     andThen (await g hash key w) (\<lambda>(b, w1).
       if b = ProbeFailed \<and> failed (cur_probe w1) = Some True then Returns (False, w1)
       else if b = HandshakeDone \<and> tcpHandshakeDone (cur_probe w1) = Some True
       then flushTCPACKs g hash key w1
       else if b = AckReply then
         (case take_ack w1 of
            None \<Rightarrow> Waiting
          | Some (connection, w2) \<Rightarrow>
              andThen (tcpSendACK g hash key connection w2) (\<lambda>(sent, w3).
                if \<not> sent then Returns (False, w3) else waitForTCPHandshakes g hash key w3))
       else if b = Timer then give_up DropTimeout w1
       else if b = StopBranch \<and> cur_stopped w1 then give_up DropInterrupt w1
       else Waiting)"
  by pat_completeness auto
termination waitForTCPHandshakes
  by (relation "measure (\<lambda>(g, hash, key, w). events_left w)")
     (auto dest!: sent_ack_events await_script)

declare waitForTCPHandshakes.simps [simp del]

function waitForFixedReplies :: "mctx \<Rightarrow> (ip4 \<Rightarrow> u64) \<Rightarrow> ip4 \<Rightarrow> nat \<Rightarrow> world \<Rightarrow> (bool \<times> world) outcome" where
  "waitForFixedReplies g hash key i w =
     andThen (await g hash key w) (\<lambda>(b, w1).
       if b = EntryDone \<and> entry_done (cur_entries w1 ! i) then flushTCPACKs g hash key w1
       else if b = ProbeFailed \<and> failed (cur_probe w1) = Some True then Returns (False, w1)
       else if b = Timer then flushTCPACKs g hash key w1
       else if b = AckReply then
         (case take_ack w1 of
            None \<Rightarrow> Waiting
          | Some (connection, w2) \<Rightarrow>
              andThen (tcpSendACK g hash key connection w2) (\<lambda>(sent, w3).
                if \<not> sent then Returns (False, w3) else waitForFixedReplies g hash key i w3))
       else if b = StopBranch \<and> cur_stopped w1 then give_up DropInterrupt w1
       else Waiting)"
  by pat_completeness auto
termination waitForFixedReplies
  by (relation "measure (\<lambda>(g, hash, key, i, w). events_left w)")
     (auto dest!: sent_ack_events await_script)

declare waitForFixedReplies.simps [simp del]

definition waitForBaseReply :: "mctx \<Rightarrow> (ip4 \<Rightarrow> u64) \<Rightarrow> ip4 \<Rightarrow> world \<Rightarrow> (bool \<times> world) outcome" where
  "waitForBaseReply g hash key w =
     andThen (await g hash key w) (\<lambda>(b, w).
       if b = ReplyToken \<and> replyReady (cur_probe w) = Some True
       then flushTCPACKs g hash key (w\<lparr>cur_probe := (cur_probe w)\<lparr>replyReady := Some False\<rparr>\<rparr>)
       else if b = ProbeFailed \<and> failed (cur_probe w) = Some True then Returns (False, w)
       else if b = Timer then give_up DropTimeout w
       else if b = StopBranch \<and> cur_stopped w then give_up DropInterrupt w
       else Waiting)"


section \<open>Registering\<close>

definition register :: "(ip4 \<Rightarrow> u64) \<Rightarrow> ip4 \<Rightarrow> entry \<Rightarrow> world \<Rightarrow> nat \<times> world" where
  "register hash key e w =
     (let i = length (cur_entries w);
          (r, entries) = Register hash (cur_registry w, cur_entries w @ [e]) key i
      in (i, w\<lparr>cur_registry := r, cur_entries := entries\<rparr>))"

definition deregister :: "(ip4 \<Rightarrow> u64) \<Rightarrow> ip4 \<Rightarrow> nat \<Rightarrow> world \<Rightarrow> world" where
  "deregister hash key i w = w\<lparr>cur_registry := Deregister hash (cur_registry w) key i\<rparr>"

text \<open>\<open>prepareTCPPacket\<close>: patches the request's packet in place.\<close>

definition prepareTCPPacket :: "mctx \<Rightarrow> u16 \<Rightarrow> world \<Rightarrow> (bool \<times> world) option" where
  "prepareTCPPacket g seqNum w =
     (if \<not> TcpEstablishConnection g \<or> GetRequestIndex g seqNum = 0 then Some (True, w)
      else let connectionIndex = GetConnectionIndex g seqNum in do {
        ready \<leftarrow> nth_opt (tcpAckReady (cur_probe w)) (unat connectionIndex);
        if \<not> ready then Some (False, w)
        else do {
          acknowledgment \<leftarrow> nth_opt (tcpAcknowledgments (cur_probe w)) (unat connectionIndex);
          pkt \<leftarrow> nth_opt (cur_packets w) (unat seqNum);
          pkt \<leftarrow> SetTCPAcknowledgment g pkt acknowledgment;
          Some (True, w\<lparr>cur_packets := (cur_packets w)[unat seqNum := pkt]\<rparr>)
        }
      })"

definition send_request :: "mctx \<Rightarrow> (ip4 \<Rightarrow> u64) \<Rightarrow> ip4 \<Rightarrow> u16 \<Rightarrow> world \<Rightarrow> (bool \<times> world) outcome" where
  "send_request g hash key seqNum w =
     andThen (or_crash (nth_opt (cur_packets w) (unat seqNum))) (\<lambda>pkt.
       sendPacket g hash key (GetSender g seqNum) pkt (Some seqNum) True w)"

text \<open>Handing the probe to the saver; \<open>interrupt\<close> counts an interrupted hand-over where the code does.\<close>

definition save_select :: "mctx \<Rightarrow> (ip4 \<Rightarrow> u64) \<Rightarrow> ip4 \<Rightarrow> (world \<Rightarrow> world) \<Rightarrow> world \<Rightarrow> (bool \<times> world) outcome" where
  "save_select g hash key interrupt w =
     andThen (await g hash key w) (\<lambda>(b, w).
       if b = SaveSlot
       then Returns (True, count_event ValidProbes (w\<lparr>cur_saved := cur_saved w @ [cur_probe w]\<rparr>))
       else if b = StopBranch \<and> cur_stopped w then Returns (False, interrupt w)
       else Waiting)"


section \<open>Round-trip based measuring\<close>

text \<open>The sequence numbers of a probe in the order they are sent.\<close>

definition all_requests :: "mctx \<Rightarrow> u16 list" where
  "all_requests g = map of_nat [0..<unat (RequestCount g)]"

fun inter_loop :: "mctx \<Rightarrow> (ip4 \<Rightarrow> u64) \<Rightarrow> ip4 \<Rightarrow> u16 \<Rightarrow> u16 list \<Rightarrow> world \<Rightarrow> (bool \<times> world) outcome" where
  "inter_loop g hash key base [] w = Returns (True, w)"
| "inter_loop g hash key base (q # qs) w =
     (let (i, w) = register hash key (rt_entry g 0 q base FlagsDefault) w in
      andThen (send_request g hash key q w) (\<lambda>(sent, w).
        if \<not> sent then Returns (False, deregister hash key i w)
        else andThen (await g hash key w) (\<lambda>(b, w).
          if b = EntryDone \<and> entry_done (cur_entries w ! i)
          then inter_loop g hash key base qs (deregister hash key i (count_event (ProbesReachedSeq q) w))
          else if b = Timer
          then inter_loop g hash key base qs (deregister hash key i (count_event DropTimeout w))
          else if b = StopBranch \<and> cur_stopped w
          then Returns (False, count_event DropInterrupt (deregister hash key i w))
          else Waiting)))"

definition measureInterProtocolRT ::
  "mctx \<Rightarrow> (ip4 \<Rightarrow> u64) \<Rightarrow> ip4 \<Rightarrow> u16 \<Rightarrow> world \<Rightarrow> (bool \<times> world) outcome" where
  "measureInterProtocolRT g hash key base w =
     andThen (inter_loop g hash key base (all_requests g) w) (\<lambda>(ok, w).
       if \<not> ok then Returns (False, w) else save_select g hash key (\<lambda>w. w) w)"

definition rt_flags :: "mctx \<Rightarrow> u16 \<Rightarrow> FlagExpectation" where
  "rt_flags g seqNum =
     (if TcpEstablishConnection g
      then if GetRequestIndex g seqNum = 0 then FlagsSynAck else FlagsAck
      else FlagsDefault)"

fun rt_loop :: "mctx \<Rightarrow> (ip4 \<Rightarrow> u64) \<Rightarrow> ip4 \<Rightarrow> u16 \<Rightarrow> u16 list \<Rightarrow> world \<Rightarrow> (bool \<times> world) outcome" where
  "rt_loop g hash key base [] w = Returns (True, w)"
| "rt_loop g hash key base (q # qs) w =
     (let (i, w) = register hash key (rt_entry g 0 q base (rt_flags g q)) w in
      andThen (or_crash (prepareTCPPacket g q w)) (\<lambda>(prepared, w).
        if \<not> prepared then Returns (False, count_event DropNotRecv (deregister hash key i w))
        else andThen (send_request g hash key q w) (\<lambda>(sent, w).
          if \<not> sent then Returns (False, deregister hash key i w)
          else andThen (await g hash key w) (\<lambda>(b, w).
            if b = EntryDone \<and> entry_done (cur_entries w ! i) then
              andThen (flushTCPACKs g hash key w) (\<lambda>(flushed, w).
                let w = deregister hash key i w in
                if \<not> flushed then Returns (False, w)
                else andThen (or_crash (nth_opt (Samples (cur_probe w)) (unat q))) (\<lambda>s.
                  if \<not> IsReceived s then Returns (False, count_event DropNotRecv w)
                  else rt_loop g hash key base qs (count_event (ProbesReachedSeq q) w)))
            else if b = Timer then Returns (False, count_event DropTimeout (deregister hash key i w))
            else if b = StopBranch \<and> cur_stopped w
            then Returns (False, count_event DropInterrupt (deregister hash key i w))
            else Waiting))))"

fun base_loop :: "mctx \<Rightarrow> (ip4 \<Rightarrow> u64) \<Rightarrow> ip4 \<Rightarrow> u16 list \<Rightarrow> world \<Rightarrow> (bool \<times> world) outcome" where
  "base_loop g hash key [] w = Returns (True, w)"
| "base_loop g hash key (q # qs) w =
     andThen (or_crash (prepareTCPPacket g q w)) (\<lambda>(prepared, w).
       if \<not> prepared then give_up DropNotRecv w
       else andThen (send_request g hash key q w) (\<lambda>(sent, w).
         if \<not> sent then Returns (False, w)
         else andThen (waitForBaseReply g hash key w) (\<lambda>(ok, w).
           if \<not> ok then Returns (False, w)
           else base_loop g hash key qs (count_event (ProbesReachedSeq q) w))))"

text \<open>\<open>p.complete()\<close>, then the hand-over to the saver.\<close>

definition complete_and_save :: "mctx \<Rightarrow> (ip4 \<Rightarrow> u64) \<Rightarrow> ip4 \<Rightarrow> world \<Rightarrow> (bool \<times> world) outcome" where
  "complete_and_save g hash key w =
     (let (ok, p) = complete (cur_probe w); w = w\<lparr>cur_probe := p\<rparr>
      in if \<not> ok then Returns (False, w) else save_select g hash key (count_event DropInterrupt) w)"

definition measureBaseRT :: "mctx \<Rightarrow> (ip4 \<Rightarrow> u64) \<Rightarrow> ip4 \<Rightarrow> u16 \<Rightarrow> world \<Rightarrow> (bool \<times> world) outcome" where
  "measureBaseRT g hash key base w =
     (let (i, w) = register hash key (full_entry g 0 base) w in
      andThen (andThen (base_loop g hash key (all_requests g) w) (\<lambda>(ok, w).
          if \<not> ok then Returns (False, w) else complete_and_save g hash key w))
        (\<lambda>(ok, w). Returns (ok, deregister hash key i w)))"

definition measureRTBased :: "mctx \<Rightarrow> (ip4 \<Rightarrow> u64) \<Rightarrow> ip4 \<Rightarrow> u16 \<Rightarrow> world \<Rightarrow> (bool \<times> world) outcome" where
  "measureRTBased g hash key base w =
     (if strict (cur_probe w) then measureBaseRT g hash key base w
      else andThen (rt_loop g hash key base (all_requests g) w) (\<lambda>(ok, w).
        if \<not> ok then Returns (False, w) else save_select g hash key (count_event DropInterrupt) w))"


section \<open>Fixed-interval measuring\<close>

fun fixed_loop :: "mctx \<Rightarrow> (ip4 \<Rightarrow> u64) \<Rightarrow> ip4 \<Rightarrow> u16 list \<Rightarrow> world \<Rightarrow> (bool \<times> world) outcome" where
  "fixed_loop g hash key [] w = Returns (True, w)"
| "fixed_loop g hash key (q # qs) w =
     andThen (flushTCPACKs g hash key w) (\<lambda>(flushed, w).
       if \<not> flushed then Returns (False, w)
       else andThen (or_crash (prepareTCPPacket g q w)) (\<lambda>(prepared, w).
         if \<not> prepared then give_up DropNotRecv w
         else andThen (send_request g hash key q w) (\<lambda>(sent, w).
           if \<not> sent then Returns (False, w)
           else andThen
             (if RequestInterval (FixedIntervalConfig (Config g)) > 0 \<and> q + 1 < RequestCount g
              then waitInterval g hash key w else Returns (True, w)) (\<lambda>(ok, w).
             if \<not> ok then Returns (False, w)
             else andThen
               (if TcpEstablishConnection g \<and> q + 1 = ConnectionCount (Config g)
                then waitForTCPHandshakes g hash key w else Returns (True, w)) (\<lambda>(ok, w).
               if \<not> ok then Returns (False, w) else fixed_loop g hash key qs w)))))"

definition finishFixedProbe :: "mctx \<Rightarrow> (ip4 \<Rightarrow> u64) \<Rightarrow> ip4 \<Rightarrow> world \<Rightarrow> (bool \<times> world) outcome" where
  "finishFixedProbe g hash key w =
     (let received = length (filter IsReceived (Samples (cur_probe w)));
          rate = of_nat received / of_nat (unat (RequestCount g)) :: rat;
          minimumRate = (if strict (cur_probe w) then 1 else MinimumReplyRate (FixedIntervalConfig (Config g)))
      in if rate < minimumRate \<and> \<not> IsInterProtocol g then give_up DropRateLow w
         else complete_and_save g hash key w)"

definition measureFixedInterval ::
  "mctx \<Rightarrow> (ip4 \<Rightarrow> u64) \<Rightarrow> ip4 \<Rightarrow> u16 \<Rightarrow> world \<Rightarrow> (bool \<times> world) outcome" where
  "measureFixedInterval g hash key base w =
     (let (i, w) = register hash key (full_entry g 0 base) w in
      andThen (andThen (fixed_loop g hash key (all_requests g) w) (\<lambda>(ok, w).
          if \<not> ok then Returns (False, w)
          else andThen (waitForFixedReplies g hash key i w) (\<lambda>(ok, w).
            if \<not> ok then Returns (False, w) else finishFixedProbe g hash key w)))
        (\<lambda>(ok, w). Returns (ok, deregister hash key i w)))"


section \<open>Measuring a target\<close>

fun resetTCPConnections ::
  "(layer list \<Rightarrow> u8 list option) \<Rightarrow> mctx \<Rightarrow> (ip4 \<Rightarrow> u64) \<Rightarrow> ip4 \<Rightarrow> u16 \<Rightarrow> nat list \<Rightarrow> world \<Rightarrow> world outcome" where
  "resetTCPConnections serialize g hash key base [] w = Returns w"
| "resetTCPConnections serialize g hash key base (c # cs) w =
     andThen (or_crash (nth_opt (tcpAckReady (cur_probe w)) c)) (\<lambda>ready.
       if \<not> ready then resetTCPConnections serialize g hash key base cs w
       else let connectionIndex = of_nat c in
         andThen (or_crash (do {
             next \<leftarrow> nextTCPRequestIndex g (cur_probe w) connectionIndex;
             acknowledgment \<leftarrow> nth_opt (tcpAcknowledgments (cur_probe w)) c;
             BuildTCPResetPacket serialize g key (GetSender g connectionIndex) (base + connectionIndex)
               connectionIndex next acknowledgment
           })) (\<lambda>resetPacket.
             case resetPacket of
               None \<Rightarrow> resetTCPConnections serialize g hash key base cs (count_event DropSendErr w)
             | Some bytes \<Rightarrow>
                 andThen (sendPacket g hash key (GetSender g connectionIndex) bytes None False w) (\<lambda>(sent, w).
                   resetTCPConnections serialize g hash key base cs w)))"

definition dispatch :: "mctx \<Rightarrow> (ip4 \<Rightarrow> u64) \<Rightarrow> ip4 \<Rightarrow> u16 \<Rightarrow> world \<Rightarrow> (bool \<times> world) outcome" where
  "dispatch g hash key base w =
     (if IsInterProtocol g
      then if MeasurementMode (Config g) = MeasurementModeFixedInterval
           then measureFixedInterval g hash key base w
           else measureInterProtocolRT g hash key base w
      else if MeasurementMode (Config g) = MeasurementModeRTBased then measureRTBased g hash key base w
      else if MeasurementMode (Config g) = MeasurementModeFixedInterval
      then measureFixedInterval g hash key base w
      else Returns (False, w))"

text \<open>
  \<open>MeasureTarget\<close>: \<open>target\<close> is \<open>None\<close> when \<open>To4\<close> gives nil; \<open>base\<close> is the port \<open>port.Next\<close> returns. The
  deferred calls run in reverse order: the connection resets, the final \<open>fail(nil)\<close> that invalidates a
  strict probe, the in-flight counter.
\<close>

definition MeasureTarget ::
  "(layer list \<Rightarrow> u8 list option) \<Rightarrow> mctx \<Rightarrow> (ip4 \<Rightarrow> u64) \<Rightarrow> u8 list list \<Rightarrow> u16 \<Rightarrow> ip4 option \<Rightarrow> string \<Rightarrow>
   world \<Rightarrow> (bool \<times> world) outcome" where
  "MeasureTarget serialize g hash raws base target strategy w =
     (case target of
        None \<Rightarrow> Returns (False, count_event DropBadTarget w)
      | Some key \<Rightarrow>
          let w = count_event InFlightProbes (count_event ProbeCount w) in
          andThen (or_crash (BuildPacketsInto g raws key base)) (\<lambda>pkts.
          andThen (dispatch g hash key base
              (w\<lparr>cur_packets := pkts, cur_probe := new_probe g key strategy\<rparr>)) (\<lambda>(ok, w).
          andThen (if \<not> IsInterProtocol g \<and> TcpEstablishConnection g
              then resetTCPConnections serialize g hash key base [0..<unat (ConnectionCount (Config g))] w
              else Returns w) (\<lambda>w.
          andThen (if strict (cur_probe w)
              then or_crash (fail None (cur_probe w, cur_stats w))
              else Returns (cur_probe w, cur_stats w)) (\<lambda>(p, s).
          Returns (ok, w\<lparr>cur_probe := p, cur_stats := add_to InFlightProbes (- 1) s\<rparr>))))))"

end
