(* ===== verification/Prober_Safety.thy ===== *)
theory Prober_Safety
  imports Prober
begin

text \<open>
  What every run of \<^verbatim>\<open>Prober.thy\<close> guarantees, for every script: the prober never crashes, a probe is
  handed to the saver exactly when its run returns true and then satisfies what its mode promises,
  and the registry is left without any entry of the probe.

  The state between two steps of a run satisfies \<open>world_ok\<close> and, relative to a reference world,
  \<open>keeps\<close>. How far the sending has come is a phase, a predicate on the probe. Phases that replies
  cannot destroy are the interface \<open>stable_phase\<close>; the rules for the waiting points are proved once
  for every stable phase.
\<close>

section \<open>Well-formed worlds\<close>

definition packets_ok :: "mctx \<Rightarrow> u8 list list \<Rightarrow> bool" where
  "packets_ok g ps \<longleftrightarrow>
     length ps = unat (RequestCount g)
   \<and> (TcpEstablishConnection g \<longrightarrow> (\<forall>p \<in> set ps. 40 \<le> length p \<and> length p \<le> 65535))"

definition world_ok :: "mctx \<Rightarrow> world \<Rightarrow> bool" where
  "world_ok g w \<longleftrightarrow>
     wf_context g \<and> probe_ok g (cur_probe w) \<and> inflight_ok (cur_registry w) \<and> packets_ok g (cur_packets w)
   \<and> (\<forall>i. own w i \<longrightarrow> entry_ok g (cur_entries w ! i) (cur_probe w))"

text \<open>The counters that only the prober itself moves.\<close>

definition prober_counters :: "counter set" where
  "prober_counters = {ValidProbes, ProbeCount, InFlightProbes}"

text \<open>
  What a stretch of the run shares with its reference \<open>ref\<close>; \<open>A\<close> are the probe's own entries the
  registry may lead to.
\<close>

definition keeps :: "(ip4 \<Rightarrow> u64) \<Rightarrow> ip4 \<Rightarrow> world \<Rightarrow> nat set \<Rightarrow> world \<Rightarrow> bool" where
  "keeps hash key ref A w \<longleftrightarrow>
     strict (cur_probe w) = strict (cur_probe ref) \<and> Target (cur_probe w) = Target (cur_probe ref)
   \<and> TargetStrategy (cur_probe w) = TargetStrategy (cur_probe ref)
   \<and> cur_saved w = cur_saved ref
   \<and> (\<forall>c \<in> prober_counters. cur_stats w c = cur_stats ref c)
   \<and> (\<forall>i. Lookup hash (cur_registry w) key = Some i \<longrightarrow>
        i < length (cur_entries w) \<and> (entry_Probe (cur_entries w ! i) = 0 \<longrightarrow> i \<in> A))"

definition run_ok :: "mctx \<Rightarrow> (probe \<Rightarrow> bool) \<Rightarrow> (ip4 \<Rightarrow> u64) \<Rightarrow> ip4 \<Rightarrow> world \<Rightarrow> nat set \<Rightarrow> world \<Rightarrow> bool" where
  "run_ok g P hash key ref A w \<longleftrightarrow> world_ok g w \<and> keeps hash key ref A w \<and> P (cur_probe w)"

lemmas run_ok_defs = run_ok_def world_ok_def keeps_def

lemma run_ok_weaken: "run_ok g P hash key ref A w \<Longrightarrow> (P (cur_probe w) \<Longrightarrow> Q (cur_probe w)) \<Longrightarrow> run_ok g Q hash key ref A w"
  by (simp add: run_ok_def)

lemma run_ok_wf: "run_ok g P hash key ref A w \<Longrightarrow> wf_context g"
  by (simp add: run_ok_def world_ok_def)

lemma run_ok_trivial: "run_ok g P hash key ref A w \<Longrightarrow> run_ok g (\<lambda>_. True) hash key ref A w"
  by (simp add: run_ok_def)

text \<open>The result of a step that reaches the phase \<open>P\<close> if it succeeds.\<close>

abbreviation moves :: "mctx \<Rightarrow> (probe \<Rightarrow> bool) \<Rightarrow> (ip4 \<Rightarrow> u64) \<Rightarrow> ip4 \<Rightarrow> world \<Rightarrow> nat set \<Rightarrow> bool \<times> world \<Rightarrow> bool" where
  "moves g P hash key ref A \<equiv>
     (\<lambda>(b, w). run_ok g (if b then P else (\<lambda>_. True)) hash key ref A w)"

lemma moves_fail: "run_ok g P hash key ref A w \<Longrightarrow> moves g P' hash key ref A (False, w)"
  by (simp add: run_ok_trivial)

text \<open>Steps that touch neither the probe nor its entries nor the registry.\<close>

lemma run_ok_cong:
  assumes "run_ok g P hash key ref A w"
    and "cur_probe w' = cur_probe w" "cur_entries w' = cur_entries w" "cur_registry w' = cur_registry w"
    and "cur_packets w' = cur_packets w" "cur_saved w' = cur_saved w"
    and "\<And>c. c \<in> prober_counters \<Longrightarrow> cur_stats w' c = cur_stats w c"
  shows "run_ok g P hash key ref A w'"
  using assms by (simp add: run_ok_defs)

lemma run_ok_new_probe:
  assumes "run_ok g P hash key ref A w" "probe_ok g p" "Q p" "received_count (cur_probe w) \<le> received_count p"
    and "strict p = strict (cur_probe w)" "Target p = Target (cur_probe w)"
    and "TargetStrategy p = TargetStrategy (cur_probe w)"
    and "\<And>c. c \<in> prober_counters \<Longrightarrow> s c = cur_stats w c"
  shows "run_ok g Q hash key ref A (w\<lparr>cur_probe := p, cur_stats := s\<rparr>)"
proof -
  have "entry_ok g e (cur_probe w) \<Longrightarrow> entry_ok g e p" for e
    using assms(4) by (simp add: entry_ok_def)
  then show ?thesis
    using assms by (simp add: run_ok_defs)
qed

lemma run_ok_new_entry:
  assumes "run_ok g P hash key ref A w" "own w i" "entry_Probe e = 0" "entry_ok g e (cur_probe w)"
  shows "run_ok g P hash key ref A (w\<lparr>cur_entries := (cur_entries w)[i := e]\<rparr>)"
proof -
  have "entry_Probe ((cur_entries w)[i := e] ! j) = entry_Probe (cur_entries w ! j)" for j
    using assms(2,3) by (cases "i = j") simp_all
  moreover have "own w j \<Longrightarrow> entry_ok g ((cur_entries w)[i := e] ! j) (cur_probe w)" for j
    using assms(1,4) by (cases "i = j") (simp_all add: run_ok_defs)
  ultimately show ?thesis
    using assms(1) by (simp add: run_ok_defs)
qed

lemma run_ok_count:
  "run_ok g P hash key ref A w \<Longrightarrow> c \<notin> prober_counters \<Longrightarrow> run_ok g P hash key ref A (count_event c w)"
  by (rule run_ok_cong [of g P hash key ref A w]) (auto simp: count_event_def)

lemma prober_counter_simps [simp]:
  "DropTimeout \<notin> prober_counters" "DropInterrupt \<notin> prober_counters" "DropNotRecv \<notin> prober_counters"
  "ProbesReachedSeq q \<notin> prober_counters" "DropSendErr \<notin> prober_counters" "SentPackets \<notin> prober_counters"
  "SentBytes \<notin> prober_counters" "DropLimiterStop \<notin> prober_counters" "DropRateLow \<notin> prober_counters"
  "MatchedReplies \<notin> prober_counters" "DropProto \<notin> prober_counters" "AbortProto \<notin> prober_counters"
  "DropBadTarget \<notin> prober_counters"
  by (simp_all add: prober_counters_def)

lemma entry_Probe_mark_done_at [simp]: "entry_Probe (mark_done_at i es ! j) = entry_Probe (es ! j)"
  by (cases "i = j") (auto simp: mark_done_at_def markDone_def nth_list_update)

lemma entry_ok_mark_done_at:
  "entry_ok g (es ! j) p \<Longrightarrow> entry_ok g (mark_done_at i es ! j) p"
  by (cases "i = j") (auto simp: mark_done_at_def markDone_def entry_ok_def nth_list_update)

lemma Register_parts:
  "fst (Register hash (r, es) key i) = shard_put hash r key i"
  "length (snd (Register hash (r, es) key i)) = length es"
  "entry_Probe (snd (Register hash (r, es) key i) ! j) = entry_Probe (es ! j)"
  "entry_ok g (es ! j) p \<Longrightarrow> entry_ok g (snd (Register hash (r, es) key i) ! j) p"
  by (auto simp: Register_def Let_def entry_ok_mark_done_at split: option.splits)


lemma safely_if:
  "(c \<Longrightarrow> safely m Q) \<Longrightarrow> (\<not> c \<Longrightarrow> safely n Q) \<Longrightarrow> safely (if c then m else n) Q"
  by simp


section \<open>The environment\<close>

lemma fail_ok:
  assumes "status_ok p"
  shows "\<exists>p' s'. fail reason (p, s) = Some (p', s')
    \<and> (p' = p \<or> strict p \<and> status p = probeActive \<and> p' = p\<lparr>status := probeFailed, failed := Some True\<rparr>)
    \<and> (s' = s \<or> s' = bump_opt reason s)
    \<and> (strict p \<longrightarrow> status p' \<noteq> probeActive)"
  using failLocked_ok [OF assms, of reason s]
  by (cases "status p = probeActive") (auto simp: fail_def failLocked_def)

lemma probe_ok_fail:
  "probe_ok g p \<Longrightarrow> strict p \<Longrightarrow> probe_ok g (p\<lparr>status := probeFailed, failed := Some True\<rparr>)"
  by (auto simp: probe_ok_def status_ok_def tcp_ok_def received_count_def handshakes_def)

lemma entry_ok_samples: "Samples p' = Samples p \<Longrightarrow> entry_ok g e p' = entry_ok g e p"
  by (simp add: entry_ok_def received_count_def)

lemma received_count_mono:
  assumes "accepted_as g r q (e, p, s) (e', p', s')" "request_open g r p q"
  shows "received_count p \<le> received_count p'"
proof -
  have "\<not> IsReceived (Samples p ! unat q)" "unat q < length (Samples p)"
    using assms(2) by (auto simp: request_open_def IsReceived_def)
  from fill_counts(1) [OF this(2,1), of "reply_sample r p q"] show ?thesis
    using assms(1) by (simp add: accepted_as_def reply_sample_def received_count_def)
qed

lemma prober_counter_facts:
  assumes "c \<in> prober_counters"
  shows "c \<notin> reply_rejects" "c \<notin> probe_aborts" "c \<noteq> MatchedReplies" "c \<noteq> tcpBadFlags ph n"
  using assms by (auto simp: prober_counters_def reply_rejects_def probe_aborts_def)

text \<open>What a dropped reply may do to the probe; the prober's counters stay.\<close>

lemma dropped_reply:
  assumes "wf_context g" "probe_ok g p" "entry_ok g e p"
    and "FulfillReply g r e p s = Some (False, e', p', s')"
  shows "e' = e"
    and "p' = p \<or> strict p \<and> status p = probeActive \<and> p' = p\<lparr>status := probeFailed, failed := Some True\<rparr>"
    and "c \<in> prober_counters \<Longrightarrow> s' c = s c"
proof -
  note d = FulfillReply_drop [OF assms]
  show "e' = e" using d by blast
  show "p' = p \<or> strict p \<and> status p = probeActive \<and> p' = p\<lparr>status := probeFailed, failed := Some True\<rparr>"
    using d by blast
  assume "c \<in> prober_counters"
  note n = prober_counter_facts [OF this]
  have one: "x \<in> reply_rejects \<Longrightarrow> bump x u c = u c" "x \<in> probe_aborts \<Longrightarrow> bump x u c = u c"
    "RecordTCPBadFlags ph fl u c = u c" for x u ph fl
    using n by (auto simp: RecordTCPBadFlags_def)
  consider "s' = s" | x where "x \<in> reply_rejects" "s' = bump x s"
    | x y where "x \<in> reply_rejects" "y \<in> probe_aborts" "s' = bump y (bump x s)"
    | x y ph where "x \<in> reply_rejects" "y \<in> probe_aborts"
        "s' = bump y (bump x (RecordTCPBadFlags ph (r_flags r) s))"
    using d by blast
  then show "s' c = s c"
    by cases (simp_all only: one)
qed

lemma AcceptProtocol_cases:
  assumes wf: "wf_context g"
  shows "AcceptProtocol g n p s = Some (True, p, s) \<or>
   (strict p \<and> AcceptProtocol g n p s = do { (p, s) \<leftarrow> fail (Some AbortProto) (p, bump DropProto s); Some (False, p, s) })
   \<or> (\<not> strict p \<and> AcceptProtocol g n p s = Some (False, p, bump DropProto s))"
proof -
  have "\<exists>accepted. AcceptProtocol g n p s = (if accepted then Some (True, p, s)
      else let s = bump DropProto s in
        if strict p then do { (p, s) \<leftarrow> fail (Some AbortProto) (p, s); Some (False, p, s) }
        else Some (False, p, s))"
  proof (cases "IsInterProtocol g")
    case True
    then show ?thesis
      unfolding AcceptProtocol_def by (simp only: if_True Option.bind.simps) (rule exI, rule refl)
  next
    case False
    then obtain a where "Active g = Some a"
      using wf by (auto simp: wf_context_def)
    then show ?thesis
      using False unfolding AcceptProtocol_def
      by (simp only: if_False option.map Option.bind.simps) (rule exI, rule refl)
  qed
  then show ?thesis
    by (elim exE) (simp add: Let_def)
qed

section \<open>Acknowledgment packets\<close>

lemma established_facts:
  assumes "wf_context g" "TcpEstablishConnection g"
  shows "Active g = Some TCP" "\<not> IsInterProtocol g" "unat (RequestCount g) = conns g * reqs g"
  using assms by (auto simp: wf_context_def IsInterProtocol_def)

lemma request_position:
  assumes "wf_context g" "TcpEstablishConnection g" "k < reqs g" "unat c < conns g"
  shows "unat (of_nat k * ConnectionCount (Config g) + c) < unat (RequestCount g)"
proof -
  have "Suc k * conns g \<le> reqs g * conns g"
    using assms(3) by (intro mult_le_mono1) simp
  then have small: "k * conns g + unat c < unat (RequestCount g)"
    using established_facts(3) [OF assms(1,2)] assms(4) by (simp add: mult.commute)
  then have "k * conns g + unat c < 65536" "k < 65536"
    using assms(3) unat_u16_less [of "RequestCount g"] unat_u16_less [of "RequestsPerConnection (Config g)"]
    by linarith+
  then have "unat (of_nat k * ConnectionCount (Config g) + c) = k * conns g + unat c"
    by (simp add: unat_word_ariths unat_of_nat mod_simps)
  then show ?thesis using small by simp
qed

lemma next_request_loop_some:
  assumes "wf_context g" "TcpEstablishConnection g" "unat c < conns g"
    and "length (Samples p) = unat (RequestCount g)" "\<forall>k \<in> set ks. k < reqs g"
  shows "\<exists>n. next_request_loop g p c ks next = Some n"
  using assms(5)
proof (induction ks arbitrary: "next")
  case (Cons k ks)
  then obtain n where "next_request_loop g p c ks (of_nat k + 1) = Some n"
    by fastforce
  then show ?case
    using request_position [OF assms(1,2) _ assms(3), of k] Cons.prems assms(4) by simp
qed simp

lemma nextTCPRequestIndex_some:
  assumes "wf_context g" "TcpEstablishConnection g" "probe_ok g p" "unat c < conns g"
  shows "\<exists>n. nextTCPRequestIndex g p c = Some n"
  unfolding nextTCPRequestIndex_def
  using assms by (intro next_request_loop_some) (auto simp: probe_ok_def)

lemma ack_bytes_some:
  assumes "wf_context g" "TcpEstablishConnection g" "world_ok g w" "unat c < conns g"
  shows "\<exists>bytes. ack_bytes g c w = Some bytes"
proof -
  have p: "probe_ok g (cur_probe w)" "packets_ok g (cur_packets w)"
    using assms(3) by (simp_all add: world_ok_def)
  obtain n where n: "nextTCPRequestIndex g (cur_probe w) c = Some n"
    using nextTCPRequestIndex_some [OF assms(1,2) p(1) assms(4)] by blast
  have ack: "unat c < length (tcpAcknowledgments (cur_probe w))"
    using p(1) assms(2,4) by (simp add: probe_ok_def tcp_ok_def)
  have pkt: "unat c < length (cur_packets w)"
    using p(2) assms(4) conns_le_RequestCount [OF assms(1)] by (simp add: packets_ok_def)
  then have "40 \<le> length (cur_packets w ! unat c)" "length (cur_packets w ! unat c) \<le> 65535"
    using p(2) assms(2) by (simp_all add: packets_ok_def)
  then obtain bytes where "BuildTCPACK g (cur_packets w ! unat c)
      (TcpSequenceNumOffset g + ucast c + ucast n) (tcpAcknowledgments (cur_probe w) ! unat c) = Some bytes"
    using ack_segment [OF established_facts(1) [OF assms(1,2)]] by blast
  then show ?thesis
    using n ack pkt unfolding ack_bytes_def by (simp add: nth_opt_def)
qed

text \<open>
  A phase is stable when neither an accepted reply nor a failure nor the acknowledgment queue can
  end it.
\<close>

locale stable_phase =
  fixes g :: mctx and P :: "probe \<Rightarrow> bool"
  assumes accept: "\<lbrakk>probe_ok g p; P p; request_open g r p q; accepted_as g r q (e, p, s) (e', p', s')\<rbrakk> \<Longrightarrow> P p'"
    and samples_only: "\<lbrakk>Samples p' = Samples p; replyReady p' = replyReady p; strict p' = strict p;
        status p' = status p \<or> strict p \<and> status p = probeActive; P p\<rbrakk> \<Longrightarrow> P p'"
begin

lemma run_ok_fail:
  assumes "run_ok g P hash key ref A w" "\<And>c. reason = Some c \<Longrightarrow> c \<notin> prober_counters"
  shows "\<exists>p s. fail reason (cur_probe w, cur_stats w) = Some (p, s)
    \<and> run_ok g P hash key ref A (w\<lparr>cur_probe := p, cur_stats := s\<rparr>)"
proof -
  let ?p = "cur_probe w"
  have ok: "probe_ok g ?p" "P ?p" using assms by (simp_all add: run_ok_defs)
  then have st: "status_ok ?p" by (simp add: probe_ok_def)
  obtain p' s' where f: "fail reason (?p, cur_stats w) = Some (p', s')"
    "p' = ?p \<or> strict ?p \<and> status ?p = probeActive \<and> p' = ?p\<lparr>status := probeFailed, failed := Some True\<rparr>"
    "s' = cur_stats w \<or> s' = bump_opt reason (cur_stats w)"
    using fail_ok [OF st] by blast
  have "probe_ok g p'" "P p'" "received_count ?p \<le> received_count p'" "strict p' = strict ?p" "Target p' = Target ?p"
    "TargetStrategy p' = TargetStrategy ?p"
    using f(2) ok probe_ok_fail [OF ok(1)] samples_only [of p' ?p] by (auto simp: received_count_def)
  moreover have "c \<in> prober_counters \<Longrightarrow> s' c = cur_stats w c" for c
    using f(3) assms(2) by (cases reason) auto
  ultimately have "run_ok g P hash key ref A (w\<lparr>cur_probe := p', cur_stats := s'\<rparr>)"
    by (intro run_ok_new_probe [OF assms(1)]) simp_all
  then show ?thesis
    using f(1) by blast
qed

lemma run_ok_reply:
  assumes "run_ok g P hash key ref A w"
  shows "\<exists>w'. reply_event g i r w = Some w' \<and> run_ok g P hash key ref A w'"
proof (cases "own w i")
  case False
  then show ?thesis using assms by (auto simp: reply_event_def)
next
  case own: True
  let ?e = "cur_entries w ! i" and ?p = "cur_probe w" and ?s = "cur_stats w"
  have ok: "probe_ok g ?p" "entry_ok g ?e ?p" and wf: "wf_context g"
    using assms own by (auto simp: run_ok_defs)
  obtain b e' p' s' where r: "FulfillReply g r ?e ?p ?s = Some (b, e', p', s')" "probe_ok g p'" "entry_ok g e' p'"
    using FulfillReply_ok [OF wf ok] by blast
  have *: "P p' \<and> received_count ?p \<le> received_count p' \<and> entry_Probe e' = 0
      \<and> strict p' = strict ?p \<and> Target p' = Target ?p \<and> TargetStrategy p' = TargetStrategy ?p
      \<and> (\<forall>c \<in> prober_counters. s' c = ?s c)"
  proof (cases b)
    case True
    then have "FulfillReply g r ?e ?p ?s = Some (True, e', p', s')"
      using r(1) by simp
    then obtain q where q: "accepted_as g r q (?e, ?p, ?s) (e', p', s')" "request_open g r ?p q"
      using FulfillReply_accept [OF wf ok] by blast
    have "P p'"
      using accept [OF ok(1) _ q(2,1)] assms by (simp add: run_ok_def)
    moreover have "c \<in> prober_counters \<Longrightarrow> s' c = ?s c" for c
      using q(1) prober_counter_facts(3) [of c] by (simp add: accepted_as_def)
    ultimately show ?thesis
      using q received_count_mono [OF q] own by (simp add: accepted_as_def)
  next
    case False
    then have f: "FulfillReply g r ?e ?p ?s = Some (False, e', p', s')"
      using r(1) by simp
    note d = dropped_reply [OF wf ok f]
    have "P p'"
      using d(2) assms samples_only [of p' ?p] by (auto simp: run_ok_def)
    moreover have "received_count p' = received_count ?p \<and> strict p' = strict ?p \<and> Target p' = Target ?p
        \<and> TargetStrategy p' = TargetStrategy ?p"
      using d(2) by (auto simp: received_count_def)
    ultimately show ?thesis
      using d(1,3) own by simp
  qed
  let ?w = "w\<lparr>cur_probe := p', cur_stats := s'\<rparr>"
  have "run_ok g P hash key ref A ?w"
    using * r(2) by (intro run_ok_new_probe [OF assms]) simp_all
  then have "run_ok g P hash key ref A (?w\<lparr>cur_entries := (cur_entries ?w)[i := e']\<rparr>)"
    using * r(3) own by (intro run_ok_new_entry) simp_all
  then have "run_ok g P hash key ref A (w\<lparr>cur_probe := p', cur_entries := (cur_entries w)[i := e'], cur_stats := s'\<rparr>)"
    by (rule run_ok_cong) simp_all
  then show ?thesis
    using r(1) own by (simp add: reply_event_def)
qed

lemma run_ok_reject:
  assumes "run_ok g P hash key ref A w" "c \<in> probe_aborts"
  shows "\<exists>w'. RejectBaseReply hash src c w = Some w' \<and> run_ok g P hash key ref A w'"
proof -
  have "c \<notin> prober_counters"
    using assms(2) prober_counter_facts(2) by blast
  then obtain p s where "fail (Some c) (cur_probe w, cur_stats w) = Some (p, s)"
    "run_ok g P hash key ref A (w\<lparr>cur_probe := p, cur_stats := s\<rparr>)"
    using run_ok_fail [OF assms(1), of "Some c"] by blast
  then show ?thesis
    using assms(1) by (simp add: RejectBaseReply_def split: option.split)
qed

lemma run_ok_protocol:
  assumes "run_ok g P hash key ref A w"
  shows "\<exists>w'. protocol_event g hash key n w = Some w' \<and> run_ok g P hash key ref A w'"
proof -
  let ?w = "w\<lparr>cur_stats := bump DropProto (cur_stats w)\<rparr>"
  have c: "run_ok g P hash key ref A ?w"
    by (rule run_ok_cong [OF assms]) auto
  obtain p s where f: "fail (Some AbortProto) (cur_probe w, bump DropProto (cur_stats w)) = Some (p, s)"
    "run_ok g P hash key ref A (?w\<lparr>cur_probe := p, cur_stats := s\<rparr>)"
    using run_ok_fail [OF c, of "Some AbortProto"] by auto
  have "run_ok g P hash key ref A (w\<lparr>cur_probe := p, cur_stats := s\<rparr>)"
    by (rule run_ok_cong [OF f(2)]) simp_all
  moreover have "run_ok g P hash key ref A (w\<lparr>cur_probe := cur_probe w, cur_stats := bump DropProto (cur_stats w)\<rparr>)"
    by (rule run_ok_cong [OF c]) simp_all
  ultimately have own_case: "\<exists>b p s. AcceptProtocol g n (cur_probe w) (cur_stats w) = Some (b, p, s)
      \<and> run_ok g P hash key ref A (w\<lparr>cur_probe := p, cur_stats := s\<rparr>)"
    using AcceptProtocol_cases [OF run_ok_wf [OF assms], of n "cur_probe w" "cur_stats w"]
  proof (elim disjE conjE)
    assume "AcceptProtocol g n (cur_probe w) (cur_stats w) = Some (True, cur_probe w, cur_stats w)"
    then show ?thesis using assms by (intro exI [of _ True] exI [of _ "cur_probe w"] exI [of _ "cur_stats w"]) simp
  qed (use f(1) in auto)
  show ?thesis
  proof (cases "\<exists>i. Lookup hash (cur_registry w) key = Some i \<and> own w i")
    case True
    then show ?thesis
      using own_case by (elim exE conjE) (simp add: protocol_event_def)
  next
    case False
    then show ?thesis
      using assms by (auto simp: protocol_event_def split: option.split)
  qed
qed

lemma run_ok_supersede:
  assumes "run_ok g P hash key ref A w" "entry_Probe e \<noteq> 0"
    and "Register hash (cur_registry w, cur_entries w @ [e]) key (length (cur_entries w)) = (r, es)"
  shows "run_ok g P hash key ref A (w\<lparr>cur_registry := r, cur_entries := es\<rparr>)"
proof -
  have ok: "inflight_ok (cur_registry w)"
    using assms(1) by (simp add: run_ok_defs)
  have r: "r = shard_put hash (cur_registry w) key (length (cur_entries w))"
    and len: "length es = Suc (length (cur_entries w))"
    and pr: "entry_Probe (es ! j) = entry_Probe ((cur_entries w @ [e]) ! j)"
    and en: "entry_ok g ((cur_entries w @ [e]) ! j) p \<Longrightarrow> entry_ok g (es ! j) p" for j p
    using Register_parts [where hash = hash and r = "cur_registry w" and es = "cur_entries w @ [e]"
        and key = key and i = "length (cur_entries w)"] assms(3)
    by simp_all
  show ?thesis
    using assms(1,2) ok len pr en
    by (auto simp: run_ok_defs r sharded.ok_put sharded.find_put nth_append less_Suc_eq)
qed

lemma run_ok_foreign_leave:
  assumes "run_ok g P hash key ref A w"
  shows "run_ok g P hash key ref A (w\<lparr>cur_registry := Deregister hash (cur_registry w) key i\<rparr>)"
  using assms by (auto simp: run_ok_defs sharded.ok_remove sharded.find_remove split: if_splits)

lemma run_ok_env:
  assumes "run_ok g P hash key ref A w"
  shows "\<exists>w'. env_step g hash key ev w = Some w' \<and> run_ok g P hash key ref A w'"
proof (cases ev)
  case (EvSupersede e)
  then show ?thesis
    using assms run_ok_supersede [OF assms]
    by (auto simp: env_step_def split: prod.split)
next
  case EvStop
  have "run_ok g P hash key ref A (w\<lparr>cur_stopped := True\<rparr>)"
    by (rule run_ok_cong [OF assms]) simp_all
  then show ?thesis using EvStop by (simp add: env_step_def)
qed (use assms run_ok_reply run_ok_reject run_ok_protocol run_ok_foreign_leave in \<open>auto simp: env_step_def\<close>)

lemma run_ok_script: "run_ok g P hash key ref A w \<Longrightarrow> run_ok g P hash key ref A (w\<lparr>cur_script := evs\<rparr>)"
  by (rule run_ok_cong) simp_all

lemma await_on_ok:
  "run_ok g P hash key ref A w \<Longrightarrow>
   safely (await_on g hash key evs w) (\<lambda>(b, w'). run_ok g P hash key ref A w')"
proof (induction evs arbitrary: w)
  case (Cons ev evs)
  show ?case
  proof (cases ev)
    case (Env x)
    obtain w' where "env_step g hash key x w = Some w'" "run_ok g P hash key ref A w'"
      using run_ok_env [OF Cons.prems] by blast
    then show ?thesis using Env Cons.IH by (simp add: outcome_simps)
  qed (simp add: Cons.prems run_ok_script)
qed simp

lemma await_ok:
  "run_ok g P hash key ref A w \<Longrightarrow> safely (await g hash key w) (\<lambda>(b, w'). run_ok g P hash key ref A w')"
  by (simp add: await_def await_on_ok)

lemma give_up_ok:
  assumes "run_ok g P hash key ref A w" "c \<notin> prober_counters"
  shows "safely (give_up c w) (\<lambda>(b, w'). \<not> b \<and> run_ok g P hash key ref A w')"
  using run_ok_fail [OF assms(1), of "Some c"] assms(2) by (auto simp: give_up_def outcome_simps)

text \<open>
  A send that marks a request moves the run from the phase \<open>P\<close> to a phase \<open>P'\<close>; a refused or failed
  send leaves a well-formed run.
\<close>

lemma send_lenient_ok:
  assumes after: "stable_phase g P'" and w: "run_ok g P hash key ref A w"
    and marks: "\<And>p now. probe_ok g p \<Longrightarrow> P p \<Longrightarrow> \<exists>p'. mark_sample sample now p = Some p' \<and> probe_ok g p' \<and> P' p'
      \<and> received_count p' = received_count p \<and> strict p' = strict p \<and> Target p' = Target p
      \<and> TargetStrategy p' = TargetStrategy p"
  shows "safely (send_lenient g hash key src bytes sample now w)
    (moves g P' hash key ref A)"
proof -
  obtain p' where p': "mark_sample sample now (cur_probe w) = Some p'" "probe_ok g p'" "P' p'"
    "received_count p' = received_count (cur_probe w)" "strict p' = strict (cur_probe w)"
    "Target p' = Target (cur_probe w)" "TargetStrategy p' = TargetStrategy (cur_probe w)"
    using marks [of "cur_probe w" now] w by (auto simp: run_ok_defs)
  have "run_ok g P' hash key ref A (w\<lparr>cur_probe := p', cur_stats := cur_stats w\<rparr>)"
    using p' by (intro run_ok_new_probe [OF w]) simp_all
  then have w1: "run_ok g P' hash key ref A (w\<lparr>cur_probe := p'\<rparr>)"
    by (rule run_ok_cong) simp_all
  have sent: "run_ok g P' hash key ref A w2 \<Longrightarrow> run_ok g P' hash key ref A (put_on_wire src bytes w2)" for w2
    by (rule run_ok_cong, assumption) (auto simp: put_on_wire_def prober_counters_def)
  have lost: "run_ok g P' hash key ref A w2 \<Longrightarrow>
      run_ok g (\<lambda>_. True) hash key ref A (w2\<lparr>cur_stats := bump DropSendErr (cur_stats w2)\<rparr>)" for w2
    by (rule run_ok_cong, erule run_ok_weaken) (auto simp: prober_counters_def)
  show ?thesis
    unfolding send_lenient_def outcome_simps
    by (rule exI [of _ p'], rule conjI [OF p'(1)],
        rule safely_pair [OF stable_phase.await_ok [OF after w1]]) (auto simp: sent lost)
qed

lemma send_strict_ok:
  assumes after: "stable_phase g P'" and w: "run_ok g P hash key ref A w"
    and marks: "\<And>p now. probe_ok g p \<Longrightarrow> P p \<Longrightarrow> \<exists>p'. mark_sample sample now p = Some p' \<and> probe_ok g p' \<and> P' p'
      \<and> received_count p' = received_count p \<and> strict p' = strict p \<and> Target p' = Target p
      \<and> TargetStrategy p' = TargetStrategy p"
    and strict: "strict (cur_probe w)"
  shows "safely (send_strict bytes src sample now sent w)
    (moves g P' hash key ref A)"
proof (cases "status (cur_probe w) = probeActive")
  case False
  then show ?thesis
    using w by (auto simp: send_strict_def intro: run_ok_weaken)
next
  case True
  obtain p' where p': "mark_sample sample now (cur_probe w) = Some p'" "probe_ok g p'" "P' p'"
    "received_count p' = received_count (cur_probe w)" "strict p' = strict (cur_probe w)"
    "Target p' = Target (cur_probe w)" "TargetStrategy p' = TargetStrategy (cur_probe w)"
    using marks [of "cur_probe w" now] w by (auto simp: run_ok_defs)
  have "run_ok g P' hash key ref A (w\<lparr>cur_probe := p', cur_stats := cur_stats w\<rparr>)"
    using p' by (intro run_ok_new_probe [OF w]) simp_all
  then have w1: "run_ok g P' hash key ref A (w\<lparr>cur_probe := p'\<rparr>)"
    by (rule run_ok_cong) simp_all
  have put: "run_ok g P' hash key ref A (put_on_wire src bytes (w\<lparr>cur_probe := p'\<rparr>))"
    by (rule run_ok_cong [OF w1]) (auto simp: put_on_wire_def prober_counters_def)
  obtain p s where f: "fail (Some DropSendErr) (p', cur_stats w) = Some (p, s)"
    "run_ok g P' hash key ref A (w\<lparr>cur_probe := p', cur_probe := p, cur_stats := s\<rparr>)"
    using stable_phase.run_ok_fail [OF after w1, of "Some DropSendErr"] by auto
  have "failLocked (Some DropSendErr) (p', cur_stats w) = Some (p, s)"
    using f(1) p'(5) strict by (simp add: fail_def)
  moreover have "run_ok g (\<lambda>_. True) hash key ref A (w\<lparr>cur_probe := p, cur_stats := s\<rparr>)"
    using f(2) by (auto elim: run_ok_weaken)
  ultimately show ?thesis
    using p'(1) put True by (auto simp: send_strict_def outcome_simps)
qed

lemma send_ok:
  assumes after: "stable_phase g P'" and w: "run_ok g P hash key ref A w"
    and marks: "\<And>p now. probe_ok g p \<Longrightarrow> P p \<Longrightarrow> \<exists>p'. mark_sample sample now p = Some p' \<and> probe_ok g p' \<and> P' p'
      \<and> received_count p' = received_count p \<and> strict p' = strict p \<and> Target p' = Target p
      \<and> TargetStrategy p' = TargetStrategy p"
  shows "safely (sendPacket g hash key src bytes sample withProbe w)
    (moves g P' hash key ref A)"
proof -
  have granted: "safely (case b of
           Clock now \<Rightarrow>
             if withProbe \<and> strict (cur_probe w) then Waiting
             else send_lenient g hash key src bytes sample now w
         | LockedSend now sent \<Rightarrow>
             if withProbe \<and> strict (cur_probe w) then send_strict bytes src sample now sent w
             else Waiting
         | _ \<Rightarrow> Waiting)
       (moves g P' hash key ref A)"
    if "run_ok g P hash key ref A w" for b w
    using that
    by (auto intro!: send_lenient_ok [OF after _ marks] send_strict_ok [OF after _ marks] split: branch.split)
  have refused: "safely (if withProbe
         then andThen (or_crash (fail (Some DropLimiterStop) (cur_probe w1, cur_stats w1))) (\<lambda>(p, s).
           Returns (False, w1\<lparr>cur_probe := p, cur_stats := s\<rparr>))
         else Returns (False, w1\<lparr>cur_stats := bump DropLimiterStop (cur_stats w1)\<rparr>))
       (moves g P' hash key ref A)"
    if w1: "run_ok g P hash key ref A w1" for w1
  proof -
    have "run_ok g (\<lambda>_. True) hash key ref A (w1\<lparr>cur_stats := bump DropLimiterStop (cur_stats w1)\<rparr>)"
      by (rule run_ok_cong, rule run_ok_weaken [OF w1]) (auto simp: prober_counters_def)
    moreover have "safely (give_up DropLimiterStop w1) (\<lambda>(b, w'). \<not> b \<and> run_ok g P hash key ref A w')"
      by (rule give_up_ok [OF w1]) simp
    ultimately show ?thesis
      by (auto simp: give_up_def outcome_simps elim: run_ok_weaken)
  qed
  show ?thesis
    unfolding sendPacket_def outcome_simps
    by (rule safely_pair [OF await_ok [OF w]])
       (unfold prod.case, rule safely_if, erule refused, rule safely_if,
        simp_all only: safely_simps safely_andThen, rule safely_pair, erule await_ok, unfold prod.case,
        erule granted)
qed

lemma run_ok_probe:
  assumes "run_ok g P hash key ref A w" "probe_ok g p" "Q p" "received_count (cur_probe w) \<le> received_count p"
    and "strict p = strict (cur_probe w)" "Target p = Target (cur_probe w)"
    and "TargetStrategy p = TargetStrategy (cur_probe w)"
  shows "run_ok g Q hash key ref A (w\<lparr>cur_probe := p\<rparr>)"
proof -
  have "run_ok g Q hash key ref A (w\<lparr>cur_probe := p, cur_stats := cur_stats w\<rparr>)"
    using assms by (intro run_ok_new_probe [OF assms(1)]) simp_all
  then show ?thesis
    by (rule run_ok_cong) simp_all
qed

lemma take_ack_ok:
  assumes w: "run_ok g P hash key ref A w" and c: "take_ack w = Some (c, w1)"
  shows "TcpEstablishConnection g" "unat c < conns g" "run_ok g P hash key ref A w1"
proof -
  let ?p = "cur_probe w"
  obtain q where q: "tcpACKReplies ?p = Some (c # q)" "w1 = set_acks q w"
    using c by (auto simp: take_ack_def split: option.splits list.splits)
  have p: "probe_ok g ?p" "P ?p"
    using w by (simp_all add: run_ok_defs)
  then show tcp: "TcpEstablishConnection g"
    using q(1) by (auto simp: probe_ok_def)
  then have t: "tcp_ok g ?p"
    using p(1) by (simp add: probe_ok_def)
  then show "unat c < conns g"
    using q(1) by (auto simp: tcp_ok_def)
  have "tcp_ok g (?p\<lparr>tcpACKReplies := Some q\<rparr>)"
    using t q(1) by (auto simp: tcp_ok_def received_count_def handshakes_def)
  then have "probe_ok g (?p\<lparr>tcpACKReplies := Some q\<rparr>)"
    using p(1) tcp by (simp add: probe_ok_def status_ok_def)
  moreover have "P (?p\<lparr>tcpACKReplies := Some q\<rparr>)"
    using samples_only [of "?p\<lparr>tcpACKReplies := Some q\<rparr>" ?p] p(2) by simp
  ultimately show "run_ok g P hash key ref A w1"
    unfolding q(2) set_acks_def
    by (intro run_ok_probe [OF w]) (simp_all add: received_count_def)
qed

lemma tcpSendACK_ok:
  assumes "run_ok g P hash key ref A w" "TcpEstablishConnection g" "unat c < conns g"
  shows "safely (tcpSendACK g hash key c w) (moves g P hash key ref A)"
proof -
  obtain bytes where "ack_bytes g c w = Some bytes"
    using ack_bytes_some [OF run_ok_wf [OF assms(1)] assms(2) _ assms(3)] assms(1) by (auto simp: run_ok_def)
  then show ?thesis
    unfolding tcpSendACK_def outcome_simps
    by (auto intro!: send_ok [OF stable_phase_axioms assms(1)] simp: mark_sample_def)
qed

lemma take_and_send_ok:
  assumes "run_ok g P hash key ref A w" "take_ack w = Some (c, w1)"
  shows "safely (tcpSendACK g hash key c w1) (moves g P hash key ref A)"
  using take_ack_ok [OF assms] by (intro tcpSendACK_ok)

lemma flush_ok:
  "run_ok g P hash key ref A w \<Longrightarrow> safely (flushTCPACKs g hash key w) (moves g P hash key ref A)"
proof (induction "events_left w" arbitrary: w rule: less_induct)
  case less
  show ?case
  proof (cases "take_ack w")
    case None
    then show ?thesis using less.prems by (simp add: flushTCPACKs.simps)
  next
    case (Some cw)
    obtain c w1 where cw: "cw = (c, w1)" by (cases cw)
    with Some have t: "take_ack w = Some (c, w1)" by simp
    have sent: "safely (tcpSendACK g hash key c w1)
      (\<lambda>(b, w2). moves g P hash key ref A (b, w2) \<and> events_left w2 < events_left w)"
      using take_and_send_ok [OF less.prems t] sent_ack_events [OF t]
      by (auto simp: safely_def ensures_def)
    show ?thesis
      unfolding flushTCPACKs.simps [of g hash key w] t option.case prod.case outcome_simps
      by (rule safely_pair [OF sent]) (auto intro: less.hyps)
  qed
qed

lemma give_up_moves:
  assumes "run_ok g P hash key ref A w" "c \<notin> prober_counters"
  shows "safely (give_up c w) (moves g P' hash key ref A)"
  by (rule safely_pair [OF give_up_ok [OF assms]]) (auto elim: run_ok_weaken)

text \<open>The waiting points.\<close>

lemma await_events_ok:
  assumes "run_ok g P hash key ref A w"
  shows "safely (await g hash key w) (\<lambda>(b, w'). run_ok g P hash key ref A w' \<and> events_left w' < events_left w)"
  using await_ok [OF assms] await_script by (auto simp: safely_def ensures_def)

text \<open>One acknowledgment sent while waiting, then \<open>again\<close>.\<close>

lemma ack_branch_ok:
  assumes w: "run_ok g P hash key ref A w" "events_left w < n"
    and again: "\<And>w'. events_left w' < n \<Longrightarrow> run_ok g P hash key ref A w' \<Longrightarrow>
      safely (again w') (moves g P hash key ref A)"
  shows "safely (case take_ack w of
      None \<Rightarrow> Waiting
    | Some (c, w1) \<Rightarrow> andThen (tcpSendACK g hash key c w1) (\<lambda>(sent, w2).
        if \<not> sent then Returns (False, w2) else again w2)) (moves g P hash key ref A)"
proof (cases "take_ack w")
  case (Some cw)
  obtain c w1 where cw: "cw = (c, w1)" by (cases cw)
  with Some have t: "take_ack w = Some (c, w1)" by simp
  have sent: "safely (tcpSendACK g hash key c w1)
    (\<lambda>(b, w2). moves g P hash key ref A (b, w2) \<and> events_left w2 < n)"
    using take_and_send_ok [OF w(1) t] less_trans [OF sent_ack_events [OF t] w(2)]
    by (auto simp: safely_def ensures_def)
  show ?thesis
    unfolding t option.case prod.case outcome_simps
    by (rule safely_pair [OF sent]) (auto intro: again)
qed simp

lemma waitInterval_loop_ok:
  "run_ok g P hash key ref A w \<Longrightarrow> safely (waitInterval_loop g hash key w) (moves g P hash key ref A)"
proof (induction "events_left w" arbitrary: w rule: less_induct)
  case less
  show ?case
    unfolding waitInterval_loop.simps [of g hash key w] outcome_simps
    by (rule safely_pair [OF await_events_ok [OF less.prems]], unfold prod.case, elim conjE)
       (intro safely_if; ((rule ack_branch_ok, assumption+, erule less.hyps, assumption)
          | (erule give_up_moves, simp) | simp add: moves_fail run_ok_trivial))
qed

lemma waitInterval_ok:
  "run_ok g P hash key ref A w \<Longrightarrow> safely (waitInterval g hash key w) (moves g P hash key ref A)"
  unfolding waitInterval_def outcome_simps
  by (intro safely_if waitInterval_loop_ok)
     (auto simp: outcome_simps intro: safely_pair [OF await_ok])

lemma waitForTCPHandshakes_ok:
  "run_ok g P hash key ref A w \<Longrightarrow> safely (waitForTCPHandshakes g hash key w) (moves g P hash key ref A)"
proof (induction "events_left w" arbitrary: w rule: less_induct)
  case less
  show ?case
    unfolding waitForTCPHandshakes.simps [of g hash key w] outcome_simps
    by (rule safely_pair [OF await_events_ok [OF less.prems]], unfold prod.case, elim conjE)
       (intro safely_if; ((rule ack_branch_ok, assumption+, erule less.hyps, assumption)
          | erule flush_ok | (erule give_up_moves, simp) | simp add: moves_fail run_ok_trivial))
qed

lemma waitForFixedReplies_ok:
  "run_ok g P hash key ref A w \<Longrightarrow> safely (waitForFixedReplies g hash key i w) (moves g P hash key ref A)"
proof (induction "events_left w" arbitrary: w rule: less_induct)
  case less
  show ?case
    unfolding waitForFixedReplies.simps [of g hash key i w] outcome_simps
    by (rule safely_pair [OF await_events_ok [OF less.prems]], unfold prod.case, elim conjE)
       (intro safely_if; ((rule ack_branch_ok, assumption+, erule less.hyps, assumption)
          | erule flush_ok | (erule give_up_moves, simp) | simp add: moves_fail run_ok_trivial))
qed

end


section \<open>Registering and saving\<close>

lemma register_ok:
  assumes "run_ok g P hash key ref {} w" "entry_Probe e = 0" "entry_ok g e (cur_probe w)"
    and "register hash key e w = (i, w')"
  shows "run_ok g P hash key ref {i} w'" "cur_probe w' = cur_probe w" "i < length (cur_entries w')"
    "events_left w' = events_left w" "cur_packets w' = cur_packets w"
proof -
  let ?n = "length (cur_entries w)"
  obtain r es where reg: "Register hash (cur_registry w, cur_entries w @ [e]) key ?n = (r, es)"
    by (cases "Register hash (cur_registry w, cur_entries w @ [e]) key ?n")
  then have w': "i = ?n" "w' = w\<lparr>cur_registry := r, cur_entries := es\<rparr>"
    using assms(4) by (simp_all add: register_def Let_def)
  have r: "r = shard_put hash (cur_registry w) key ?n" and len: "length es = Suc ?n"
    and pr: "entry_Probe (es ! j) = entry_Probe ((cur_entries w @ [e]) ! j)"
    and en: "entry_ok g ((cur_entries w @ [e]) ! j) p \<Longrightarrow> entry_ok g (es ! j) p" for j p
    using Register_parts [where hash = hash and r = "cur_registry w" and es = "cur_entries w @ [e]"
        and key = key and i = ?n] reg by simp_all
  have ok: "inflight_ok (cur_registry w)"
    using assms(1) by (simp add: run_ok_defs)
  show "cur_probe w' = cur_probe w" "i < length (cur_entries w')" "events_left w' = events_left w"
    "cur_packets w' = cur_packets w"
    using w' len by simp_all
  have entries: "entry_ok g (es ! j) (cur_probe w)" if "j < length es" "entry_Probe (es ! j) = 0" for j
    using assms(1,3) that len pr [of j]
    by (cases "j < ?n") (auto intro!: en simp: run_ok_defs nth_append less_Suc_eq)
  have rok: "inflight_ok r"
    by (simp add: r sharded.ok_put ok)
  have "Lookup hash r key = Some ?n"
    using ok by (simp add: r sharded.find_put)
  then show "run_ok g P hash key ref {i} w'"
    using assms(1) rok len entries by (simp add: run_ok_defs w')
qed

lemma deregister_ok:
  assumes "run_ok g P hash key ref {i} w"
  shows "run_ok g P hash key ref {} (deregister hash key i w)"
proof -
  have ok: "inflight_ok (cur_registry w)"
    using assms by (simp add: run_ok_defs)
  show ?thesis
  proof (cases "Lookup hash (cur_registry w) key = Some i")
    case True
    then show ?thesis
      using assms by (simp add: deregister_def run_ok_defs sharded.ok_remove sharded.find_remove)
  next
    case False
    then show ?thesis
      using assms by (auto simp: deregister_def run_ok_defs sharded.ok_remove sharded.find_remove)
  qed
qed

lemma deregister_probe [simp]:
  "cur_probe (deregister hash key i w) = cur_probe w" "cur_stopped (deregister hash key i w) = cur_stopped w"
  by (simp_all add: deregister_def)

lemma count_event_probe [simp]: "cur_probe (count_event c w) = cur_probe w"
  by (simp add: count_event_def)

text \<open>The reference after the probe \<open>p\<close> went to the saver.\<close>

definition saved_ref :: "probe \<Rightarrow> world \<Rightarrow> world" where
  "saved_ref p ref = count_event ValidProbes (ref\<lparr>cur_saved := cur_saved ref @ [p]\<rparr>)"

text \<open>
  How a measuring function ends: it returns true with exactly one probe handed over, which satisfies
  \<open>P\<close>, or false with none.
\<close>

definition ends :: "mctx \<Rightarrow> (probe \<Rightarrow> bool) \<Rightarrow> (ip4 \<Rightarrow> u64) \<Rightarrow> ip4 \<Rightarrow> world \<Rightarrow> nat set \<Rightarrow> bool \<times> world \<Rightarrow> bool" where
  "ends g P hash key ref A = (\<lambda>(b, w).
     if b then \<exists>p. probe_ok g p \<and> P p \<and> strict p = strict (cur_probe ref) \<and> Target p = Target (cur_probe ref)
         \<and> TargetStrategy p = TargetStrategy (cur_probe ref)
         \<and> run_ok g (\<lambda>_. True) hash key (saved_ref p ref) A w
     else run_ok g (\<lambda>_. True) hash key ref A w)"

lemma ends_False: "run_ok g (\<lambda>_. True) hash key ref A w \<Longrightarrow> ends g P hash key ref A (False, w)"
  by (simp add: ends_def)

lemma saved_ok:
  assumes "run_ok g P hash key ref A w"
  shows "ends g P hash key ref A (True, count_event ValidProbes (w\<lparr>cur_saved := cur_saved w @ [cur_probe w]\<rparr>))"
  unfolding ends_def prod.case if_True
  using assms
  by (intro exI [of _ "cur_probe w"]) (auto simp: run_ok_defs saved_ref_def count_event_def)

lemma ends_weaken:
  "ends g P hash key ref A (b, w) \<Longrightarrow> (\<And>p. probe_ok g p \<Longrightarrow> P p \<Longrightarrow> Q p) \<Longrightarrow> ends g Q hash key ref A (b, w)"
  by (auto simp: ends_def split: if_splits)

lemma ends_deregister:
  "ends g P hash key ref {i} (b, w) \<Longrightarrow> ends g P hash key ref {} (b, deregister hash key i w)"
  by (auto simp: ends_def deregister_ok split: if_splits)

context stable_phase
begin

lemma save_select_ok:
  assumes "run_ok g P hash key ref A w"
    and "\<And>w. run_ok g P hash key ref A w \<Longrightarrow> run_ok g (\<lambda>_. True) hash key ref A (interrupt w)"
  shows "safely (save_select g hash key interrupt w) (ends g P hash key ref A)"
  unfolding save_select_def outcome_simps
  by (rule safely_pair [OF await_ok [OF assms(1)]], unfold prod.case)
     (intro safely_if; ((unfold safely_simps, rule ends_False, erule assms(2)) | simp add: saved_ok))

end


section \<open>Phases\<close>

text \<open>
  Requests from \<open>n\<close> on are unsent, requests below \<open>m\<close> are answered; in the strict round-trip protocol
  the request \<open>n\<close> is the only one under way, and the token tells that it is answered.
\<close>

definition sent_received :: "nat \<Rightarrow> nat \<Rightarrow> probe \<Rightarrow> bool" where
  "sent_received n m p \<longleftrightarrow>
     (\<forall>i < length (Samples p). n \<le> i \<longrightarrow> sample_state (Samples p ! i) = SampleEmpty)
   \<and> (\<forall>i < length (Samples p). i < m \<longrightarrow> IsReceived (Samples p ! i))"

definition quiet :: "nat \<Rightarrow> probe \<Rightarrow> bool" where
  "quiet n p \<longleftrightarrow> sent_received n n p \<and> replyReady p \<noteq> Some True"

definition turn :: "nat \<Rightarrow> probe \<Rightarrow> bool" where
  "turn n p \<longleftrightarrow> sent_received (Suc n) n p
     \<and> (replyReady p = Some True \<longrightarrow> n < length (Samples p) \<longrightarrow> IsReceived (Samples p ! n))"

lemma reply_sample_received [simp]: "IsReceived (reply_sample r p q)"
  by (simp add: reply_sample_def)

lemma received_state: "IsReceived s \<longleftrightarrow> sample_state s = SampleReceived"
  by (simp add: IsReceived_def)

lemma accept_sent_received:
  assumes "sent_received n m p" "request_open g r p q" "accepted_as g r q (e, p, s) (e', p', s')"
  shows "sent_received n m p'"
  using assms
  by (auto simp: sent_received_def request_open_def accepted_as_def nth_list_update)

interpretation trivial_phase: stable_phase g "\<lambda>_. True" for g :: mctx
  by unfold_locales

interpretation plain_phase: stable_phase g "sent_received n m" for g :: mctx and n m :: nat
  by unfold_locales (erule (2) accept_sent_received, simp add: sent_received_def)

interpretation quiet_phase: stable_phase g "quiet n" for g :: mctx and n :: nat
proof unfold_locales
  fix p r q e s e' p' s'
  assume "quiet n p" "request_open g r p q"
  then show "quiet n p'"
    by (cases "unat q < n") (auto simp: quiet_def sent_received_def request_open_def received_state)
qed (auto simp: quiet_def sent_received_def)

interpretation turn_phase: stable_phase g "turn n" for g :: mctx and n :: nat
proof unfold_locales
  fix p r q e s e' p' s'
  assume t: "turn n p" "request_open g r p q" "accepted_as g r q (e, p, s) (e', p', s')"
  then have "unat q = n"
    by (cases "unat q < n"; cases "n < unat q") (auto simp: turn_def sent_received_def request_open_def received_state)
  moreover have "sent_received (Suc n) n p'"
    using accept_sent_received [OF _ t(2,3)] t(1) by (auto simp: turn_def)
  ultimately show "turn n p'"
    using t(2,3) by (auto simp: turn_def accepted_as_def request_open_def)
qed (auto simp: turn_def sent_received_def)


section \<open>Sending a request\<close>

lemma mark_counts:
  assumes "i < length ss" "\<not> IsReceived (ss ! i)"
  shows "length (filter IsReceived (ss[i := MarkSent now (ss ! i)])) = length (filter IsReceived ss)"
  using length_filter_update [OF assms(1), of IsReceived "MarkSent now (ss ! i)"] assms(2)
  by (simp add: IsReceived_def MarkSent_def)

lemma mark_handshakes:
  assumes "i < length (Samples p)" "\<not> IsReceived (Samples p ! i)"
    and "Samples p' = (Samples p)[i := MarkSent now (Samples p ! i)]"
  shows "handshakes g p' = handshakes g p"
  using mark_counts [of i "take (conns g) (Samples p)" now] assms
  by (cases "i < conns g") (simp_all add: handshakes_def take_update_swap list_update_beyond)

lemma mark_probe_ok:
  assumes p: "probe_ok g p" "i < length (Samples p)" "\<not> IsReceived (Samples p ! i)"
    and p'_def: "p' = p\<lparr>Samples := (Samples p)[i := MarkSent now (Samples p ! i)]\<rparr>"
  shows "probe_ok g p'" "received_count p' = received_count p"
proof -
  show r: "received_count p' = received_count p"
    using mark_counts [OF p(2,3)] by (simp add: p'_def received_count_def)
  have h: "handshakes g p' = handshakes g p"
    by (rule mark_handshakes [OF p(2,3)]) (simp add: p'_def)
  have "IsReceived (Samples p' ! c) = IsReceived (Samples p ! c)" for c
    using p(2,3) by (cases "c = i") (simp_all add: p'_def IsReceived_def MarkSent_def)
  then have "tcp_ok g p \<Longrightarrow> tcp_ok g p'"
    using r h by (simp add: tcp_ok_def) (simp add: p'_def)
  then show "probe_ok g p'"
    using p(1) by (simp add: probe_ok_def status_ok_def p'_def)
qed

text \<open>A request \<open>q\<close> may be sent in phase \<open>Q\<close> and leads to the phase \<open>Q'\<close>.\<close>

definition sendable :: "(probe \<Rightarrow> bool) \<Rightarrow> u16 \<Rightarrow> (probe \<Rightarrow> bool) \<Rightarrow> bool" where
  "sendable Q q Q' \<longleftrightarrow>
     (\<forall>p. Q p \<longrightarrow> unat q < length (Samples p) \<longrightarrow>
        \<not> IsReceived (Samples p ! unat q)
      \<and> (\<forall>now. Q' (p\<lparr>Samples := (Samples p)[unat q := MarkSent now (Samples p ! unat q)]\<rparr>)))"

context stable_phase
begin

lemma send_request_ok:
  assumes after: "stable_phase g P'" and w: "run_ok g P hash key ref A w"
    and q: "unat q < unat (RequestCount g)" "sendable P q P'"
  shows "safely (send_request g hash key q w) (moves g P' hash key ref A)"
proof -
  have pkt: "unat q < length (cur_packets w)"
    using w q(1) by (simp add: run_ok_defs packets_ok_def)
  have marks: "\<exists>p'. mark_sample (Some q) now p = Some p' \<and> probe_ok g p' \<and> P' p'
      \<and> received_count p' = received_count p \<and> strict p' = strict p \<and> Target p' = Target p
      \<and> TargetStrategy p' = TargetStrategy p" if p: "probe_ok g p" "P p" for p now
  proof -
    have len: "unat q < length (Samples p)"
      using p(1) q(1) by (simp add: probe_ok_def)
    have "\<not> IsReceived (Samples p ! unat q)"
      "P' (p\<lparr>Samples := (Samples p)[unat q := MarkSent now (Samples p ! unat q)]\<rparr>)"
      using q(2) p(2) len by (simp_all add: sendable_def)
    then show ?thesis
      using mark_probe_ok [OF p(1) len _ refl] len by (auto simp: mark_sample_def)
  qed
  show ?thesis
    unfolding send_request_def outcome_simps
    using send_ok [OF after w marks] pkt by auto
qed

lemma SetTCPAcknowledgment_some:
  assumes "wf_context g" "TcpEstablishConnection g" "40 \<le> length pkt" "length pkt \<le> 65535"
  shows "\<exists>p. SetTCPAcknowledgment g pkt ack = Some p \<and> length p = length pkt"
proof -
  obtain p1 where p1: "put_bytes 28 (be32 ack) pkt = Some p1"
    using assms(3) by (simp add: put_bytes_in)
  obtain p where "SetChecksum TCP p1 = Some p" "length p = length p1"
    using SetChecksum_verifies [of TCP p1] put_bytes_length [OF p1] assms(3,4)
    by (auto simp: checksum_offset_def)
  then show ?thesis
    using p1 established_facts(1) [OF assms(1,2)] put_bytes_length [OF p1]
    by (simp add: SetTCPAcknowledgment_def PutUint32_def)
qed

lemma prepare_ok:
  assumes w: "run_ok g P hash key ref A w" and q: "unat q < unat (RequestCount g)"
  shows "\<exists>b w'. prepareTCPPacket g q w = Some (b, w') \<and> run_ok g P hash key ref A w'"
proof (cases "TcpEstablishConnection g \<and> GetRequestIndex g q \<noteq> 0")
  case False
  then show ?thesis using w by (auto simp: prepareTCPPacket_def)
next
  case True
  let ?c = "unat (GetConnectionIndex g q)" and ?pkt = "cur_packets w ! unat q"
  have wf: "wf_context g" and tcp: "tcp_ok g (cur_probe w)" and pk: "packets_ok g (cur_packets w)"
    using w True by (auto simp: run_ok_defs probe_ok_def)
  have c: "?c < conns g"
    using request_index_zero(3) [OF wf] True by blast
  have pkt: "unat q < length (cur_packets w)" "40 \<le> length ?pkt" "length ?pkt \<le> 65535"
    using pk q True by (auto simp: packets_ok_def)
  then obtain p where p: "SetTCPAcknowledgment g ?pkt (tcpAcknowledgments (cur_probe w) ! ?c) = Some p"
    "length p = length ?pkt"
    using SetTCPAcknowledgment_some [OF wf] True by blast
  have "packets_ok g ((cur_packets w)[unat q := p])"
    using pk pkt p(2) by (auto simp: packets_ok_def dest!: subsetD [OF set_update_subset_insert])
  then have "run_ok g P hash key ref A (w\<lparr>cur_packets := (cur_packets w)[unat q := p]\<rparr>)"
    using w by (simp add: run_ok_defs)
  then show ?thesis
    using True c tcp pkt(1) p(1) w by (auto simp: prepareTCPPacket_def Let_def tcp_ok_def)
qed

end

lemma sendable_plain:
  "unat q = n \<Longrightarrow> m \<le> n \<Longrightarrow> sendable (sent_received n m) q (sent_received (Suc n) m)"
  by (auto simp: sendable_def sent_received_def nth_list_update received_state MarkSent_def)

lemma sendable_turn: "unat q = n \<Longrightarrow> sendable (quiet n) q (turn n)"
  by (auto simp: sendable_def quiet_def turn_def sent_received_def nth_list_update received_state MarkSent_def)

end
