(* ===== verification/Prober_Runs.thy ===== *)
theory Prober_Runs
  imports Prober_Safety
begin

text \<open>
  The measuring functions themselves: each loop is followed from the first request to the last with
  the phases of \<^verbatim>\<open>Prober_Safety.thy\<close>, and \<open>MeasureTarget\<close> is put together from them. The properties at
  the end hold for every script.
\<close>

section \<open>The requests in order\<close>

abbreviation requests_from :: "mctx \<Rightarrow> nat \<Rightarrow> u16 list" where
  "requests_from g n \<equiv> map of_nat [n..<unat (RequestCount g)]"

lemma all_requests_from: "all_requests g = requests_from g 0"
  by (simp add: all_requests_def)

lemma requests_from_step:
  "n < unat (RequestCount g) \<Longrightarrow> requests_from g n = of_nat n # requests_from g (Suc n)"
  by (simp add: upt_conv_Cons)

lemma unat_request_number: "n < unat (RequestCount g) \<Longrightarrow> unat (of_nat n :: u16) = n"
  using unat_u16_less [of "RequestCount g"] by (simp add: unat_of_nat take_bit_nat_eq_self del: unat_u16_less)

lemma rt_entry_ok: "unat q < unat (RequestCount g) \<Longrightarrow> entry_ok g (rt_entry g i q base x) p"
  by (simp add: entry_ok_def rt_entry_def Let_def)

lemma full_entry_ok: "wf_context g \<Longrightarrow> entry_ok g (full_entry g i base) p"
  using wf_contextD(1,2,4) [of g] by (auto simp: entry_ok_def full_entry_def unat_sub_no_wrap word_le_nat_alt)

lemma entry_Probe_new [simp]: "entry_Probe (rt_entry g i q base x) = i" "entry_Probe (full_entry g i base) = i"
  by (simp_all add: rt_entry_def full_entry_def Let_def)

lemma sent_received_zero_le: "sent_received n m p \<Longrightarrow> sent_received n 0 p"
  by (simp add: sent_received_def)

section \<open>Round-trip runs of an inter-protocol measurement\<close>

lemma inter_loop_ok:
  assumes "n \<le> unat (RequestCount g)"
  shows "run_ok g (sent_received n 0) hash key ref {} w \<Longrightarrow>
    safely (inter_loop g hash key base (requests_from g n) w)
      (moves g (sent_received (unat (RequestCount g)) 0) hash key ref {})"
  using assms
proof (induction arbitrary: w rule: inc_induct)
  case (step n)
  let ?q = "of_nat n :: u16"
  have q: "unat ?q = n" using step.hyps by (simp add: unat_request_number)
  then have qn: "unat ?q < unat (RequestCount g)" using step.hyps by simp
  obtain i w1 where reg: "register hash key (rt_entry g 0 ?q base FlagsDefault) w = (i, w1)"
    by (cases "register hash key (rt_entry g 0 ?q base FlagsDefault) w")
  have w1: "run_ok g (sent_received n 0) hash key ref {i} w1"
    using register_ok(1) [OF step.prems _ _ reg] step.hyps q by (simp add: rt_entry_ok)
  note send = plain_phase.send_request_ok [OF plain_phase.stable_phase_axioms w1 qn sendable_plain [OF q le0]]
  have reply: "safely
      (if b = EntryDone \<and> entry_done (cur_entries w ! i)
       then inter_loop g hash key base (requests_from g (Suc n)) (deregister hash key i (count_event (ProbesReachedSeq ?q) w))
       else if b = Timer
       then inter_loop g hash key base (requests_from g (Suc n)) (deregister hash key i (count_event DropTimeout w))
       else if b = StopBranch \<and> cur_stopped w
       then Returns (False, count_event DropInterrupt (deregister hash key i w))
       else Waiting) (moves g (sent_received (unat (RequestCount g)) 0) hash key ref {})"
    if "run_ok g (sent_received (Suc n) 0) hash key ref {i} w" for b w
    by (insert that, intro safely_if; ((rule step.IH, rule deregister_ok, erule run_ok_count, simp)
          | (unfold safely_simps, rule moves_fail, rule run_ok_count, erule deregister_ok, simp) | simp))
  show ?case
    unfolding requests_from_step [OF step.hyps(2)] inter_loop.simps reg Let_def prod.case outcome_simps
    by (rule safely_pair [OF send], unfold prod.case, rule safely_if,
        simp add: deregister_ok, unfold safely_andThen, rule safely_pair, rule plain_phase.await_ok,
        simp, unfold prod.case, erule reply)
qed simp

section \<open>Round-trip runs of a single protocol\<close>

lemma rt_reply_ok:
  assumes wf: "run_ok g (sent_received (Suc n) n) hash key ref {i} w" and n: "n < unat (RequestCount g)"
    and again: "\<And>w. run_ok g (sent_received (Suc n) (Suc n)) hash key ref {} w \<Longrightarrow>
      safely (again w) (moves g P hash key ref {})"
  shows "safely (andThen (flushTCPACKs g hash key w) (\<lambda>(flushed, w).
                let w = deregister hash key i w in
                if \<not> flushed then Returns (False, w)
                else andThen (or_crash (nth_opt (Samples (cur_probe w)) (unat (of_nat n :: u16)))) (\<lambda>s.
                  if \<not> IsReceived s then Returns (False, count_event DropNotRecv w)
                  else again (count_event (ProbesReachedSeq (of_nat n)) w))))
    (moves g P hash key ref {})"
proof -
  have check: "safely (andThen (or_crash (nth_opt (Samples (cur_probe w)) n)) (\<lambda>s.
        if \<not> IsReceived s then Returns (False, count_event DropNotRecv w)
        else again (count_event (ProbesReachedSeq (of_nat n)) w))) (moves g P hash key ref {})"
    if w: "run_ok g (sent_received (Suc n) n) hash key ref {} w" for w
  proof -
    have "n < length (Samples (cur_probe w))"
      using w n by (simp add: run_ok_defs probe_ok_def)
    moreover have "IsReceived (Samples (cur_probe w) ! n) \<Longrightarrow>
        run_ok g (sent_received (Suc n) (Suc n)) hash key ref {} w"
      using w by (auto simp: sent_received_def less_Suc_eq elim: run_ok_weaken)
    ultimately show ?thesis
      using again run_ok_count [of g _ hash key ref "{}" w] moves_fail [OF w] w
      by (auto simp: outcome_simps run_ok_trivial)
  qed
  show ?thesis
    unfolding safely_andThen [of "flushTCPACKs g hash key w"] unat_request_number [OF n]
    by (rule safely_pair [OF plain_phase.flush_ok [OF wf]], unfold prod.case Let_def, rule safely_if,
        simp add: deregister_ok, rule check, rule deregister_ok, simp)
qed

lemma rt_loop_ok:
  assumes "n \<le> unat (RequestCount g)"
  shows "run_ok g (sent_received n n) hash key ref {} w \<Longrightarrow>
    safely (rt_loop g hash key base (requests_from g n) w)
      (moves g (sent_received (unat (RequestCount g)) (unat (RequestCount g))) hash key ref {})"
  using assms
proof (induction arbitrary: w rule: inc_induct)
  case (step n)
  let ?q = "of_nat n :: u16" and ?Q = "moves g (sent_received (unat (RequestCount g)) (unat (RequestCount g))) hash key ref {}"
  have q: "unat ?q = n" using step.hyps by (simp add: unat_request_number)
  then have qn: "unat ?q < unat (RequestCount g)" using step.hyps by simp
  obtain i w1 where reg: "register hash key (rt_entry g 0 ?q base (rt_flags g ?q)) w = (i, w1)"
    by (cases "register hash key (rt_entry g 0 ?q base (rt_flags g ?q)) w")
  have w1: "run_ok g (sent_received n n) hash key ref {i} w1"
    using register_ok(1) [OF step.prems _ _ reg] step.hyps q by (simp add: rt_entry_ok)
  obtain prepared w2 where prep: "prepareTCPPacket g ?q w1 = Some (prepared, w2)"
      "run_ok g (sent_received n n) hash key ref {i} w2"
    using plain_phase.prepare_ok [OF w1, of ?q] step.hyps q by auto
  note send = plain_phase.send_request_ok [OF plain_phase.stable_phase_axioms prep(2) qn sendable_plain [OF q le_refl]]
  have reply: "safely (if b = EntryDone \<and> entry_done (cur_entries w ! i) then
              andThen (flushTCPACKs g hash key w) (\<lambda>(flushed, w).
                let w = deregister hash key i w in
                if \<not> flushed then Returns (False, w)
                else andThen (or_crash (nth_opt (Samples (cur_probe w)) (unat ?q))) (\<lambda>s.
                  if \<not> IsReceived s then Returns (False, count_event DropNotRecv w)
                  else rt_loop g hash key base (requests_from g (Suc n)) (count_event (ProbesReachedSeq ?q) w)))
            else if b = Timer then Returns (False, count_event DropTimeout (deregister hash key i w))
            else if b = StopBranch \<and> cur_stopped w
            then Returns (False, count_event DropInterrupt (deregister hash key i w))
            else Waiting) ?Q"
    if "run_ok g (sent_received (Suc n) n) hash key ref {i} w" for b w
    by (insert that, intro safely_if; ((erule rt_reply_ok [OF _ step.hyps(2)], erule step.IH)
          | (unfold safely_simps, rule moves_fail, rule run_ok_count, erule deregister_ok, simp) | simp))
  have "safely (andThen (send_request g hash key ?q w2) (\<lambda>(sent, w).
          if \<not> sent then Returns (False, deregister hash key i w)
          else andThen (await g hash key w) (\<lambda>(b, w).
            if b = EntryDone \<and> entry_done (cur_entries w ! i) then
              andThen (flushTCPACKs g hash key w) (\<lambda>(flushed, w).
                let w = deregister hash key i w in
                if \<not> flushed then Returns (False, w)
                else andThen (or_crash (nth_opt (Samples (cur_probe w)) (unat ?q))) (\<lambda>s.
                  if \<not> IsReceived s then Returns (False, count_event DropNotRecv w)
                  else rt_loop g hash key base (requests_from g (Suc n)) (count_event (ProbesReachedSeq ?q) w)))
            else if b = Timer then Returns (False, count_event DropTimeout (deregister hash key i w))
            else if b = StopBranch \<and> cur_stopped w
            then Returns (False, count_event DropInterrupt (deregister hash key i w))
            else Waiting))) ?Q"
    unfolding safely_andThen [of "send_request g hash key ?q w2"]
    by (rule safely_pair [OF send], unfold prod.case, rule safely_if,
        simp add: deregister_ok, unfold safely_andThen [of "await _ _ _ _"], rule safely_pair, rule plain_phase.await_ok,
        simp, unfold prod.case, erule reply)
  moreover have "run_ok g (\<lambda>_. True) hash key ref {} (count_event DropNotRecv (deregister hash key i w2))"
    using run_ok_count [OF run_ok_trivial [OF deregister_ok [OF prep(2)]]] by simp
  ultimately show ?case
    unfolding requests_from_step [OF step.hyps(2)] rt_loop.simps reg Let_def prod.case
      safely_andThen [of "or_crash _"] prep(1) or_crash_def option.case safely_simps
    by (simp add: Let_def)
qed simp

section \<open>Strict round-trip runs\<close>

lemma take_token_ok:
  assumes w: "run_ok g (turn n) hash key ref A w" and ready: "replyReady (cur_probe w) = Some True"
  shows "run_ok g (quiet (Suc n)) hash key ref A (w\<lparr>cur_probe := (cur_probe w)\<lparr>replyReady := Some False\<rparr>\<rparr>)"
proof -
  let ?p = "cur_probe w" and ?p' = "(cur_probe w)\<lparr>replyReady := Some False\<rparr>"
  have p: "probe_ok g ?p" "turn n ?p"
    using w by (simp_all add: run_ok_defs)
  have "probe_ok g ?p'"
    using p(1) ready by (auto simp: probe_ok_def status_ok_def tcp_ok_def received_count_def handshakes_def)
  moreover have "quiet (Suc n) ?p'"
    using p(2) ready by (auto simp: quiet_def turn_def sent_received_def less_Suc_eq)
  ultimately show ?thesis
    by (intro turn_phase.run_ok_probe [OF w]) (simp_all add: received_count_def)
qed

lemma waitForBaseReply_ok:
  assumes "run_ok g (turn n) hash key ref A w"
  shows "safely (waitForBaseReply g hash key w) (moves g (quiet (Suc n)) hash key ref A)"
  unfolding waitForBaseReply_def safely_andThen
  by (rule safely_pair [OF turn_phase.await_ok [OF assms]], unfold prod.case)
     (intro safely_if; ((elim conjE, rule quiet_phase.flush_ok, erule (1) take_token_ok)
        | (erule turn_phase.give_up_moves, simp) | (unfold safely_simps, erule moves_fail) | simp))

lemma base_loop_ok:
  assumes "n \<le> unat (RequestCount g)"
  shows "run_ok g (quiet n) hash key ref A w \<Longrightarrow>
    safely (base_loop g hash key (requests_from g n) w)
      (moves g (quiet (unat (RequestCount g))) hash key ref A)"
  using assms
proof (induction arbitrary: w rule: inc_induct)
  case (step n)
  let ?q = "of_nat n :: u16" and ?Q = "moves g (quiet (unat (RequestCount g))) hash key ref A"
  have q: "unat ?q = n" using step.hyps by (simp add: unat_request_number)
  then have qn: "unat ?q < unat (RequestCount g)" using step.hyps by simp
  obtain prepared w1 where prep: "prepareTCPPacket g ?q w = Some (prepared, w1)"
      "run_ok g (quiet n) hash key ref A w1"
    using quiet_phase.prepare_ok [OF step.prems qn] by auto
  note send = quiet_phase.send_request_ok [OF turn_phase.stable_phase_axioms prep(2) qn sendable_turn [OF q]]
  have "safely (andThen (send_request g hash key ?q w1) (\<lambda>(sent, w).
         if \<not> sent then Returns (False, w)
         else andThen (waitForBaseReply g hash key w) (\<lambda>(ok, w).
           if \<not> ok then Returns (False, w)
           else base_loop g hash key (requests_from g (Suc n)) (count_event (ProbesReachedSeq ?q) w)))) ?Q"
    unfolding safely_andThen [of "send_request g hash key ?q w1"]
    by (rule safely_pair [OF send], unfold prod.case, rule safely_if, simp,
        unfold safely_andThen, rule safely_pair, rule waitForBaseReply_ok, simp,
        unfold prod.case, rule safely_if, simp, rule step.IH, rule run_ok_count, simp, simp)
  then show ?case
    unfolding requests_from_step [OF step.hyps(2)] base_loop.simps
      safely_andThen [of "or_crash _"] prep(1) or_crash_def option.case safely_simps
    using quiet_phase.give_up_moves [OF prep(2), of DropNotRecv] by simp
qed simp


section \<open>Fixed-interval runs\<close>

lemma fixed_loop_ok:
  assumes "n \<le> unat (RequestCount g)"
  shows "run_ok g (sent_received n 0) hash key ref A w \<Longrightarrow>
    safely (fixed_loop g hash key (requests_from g n) w)
      (moves g (sent_received (unat (RequestCount g)) 0) hash key ref A)"
  using assms
proof (induction arbitrary: w rule: inc_induct)
  case (step n)
  let ?q = "of_nat n :: u16" and ?Q = "moves g (sent_received (unat (RequestCount g)) 0) hash key ref A"
  have q: "unat ?q = n" using step.hyps by (simp add: unat_request_number)
  then have qn: "unat ?q < unat (RequestCount g)" using step.hyps by simp
  have optional: "safely (if c then wait w else Returns (True, w)) (moves g (sent_received (Suc n) 0) hash key ref A)"
    if "run_ok g (sent_received (Suc n) 0) hash key ref A w"
      "safely (wait w) (moves g (sent_received (Suc n) 0) hash key ref A)" for c wait w
    using that by simp
  have sent: "safely (andThen (send_request g hash key ?q w) (\<lambda>(sent, w).
           if \<not> sent then Returns (False, w)
           else andThen
             (if RequestInterval (FixedIntervalConfig (Config g)) > 0 \<and> ?q + 1 < RequestCount g
              then waitInterval g hash key w else Returns (True, w)) (\<lambda>(ok, w).
             if \<not> ok then Returns (False, w)
             else andThen
               (if TcpEstablishConnection g \<and> ?q + 1 = ConnectionCount (Config g)
                then waitForTCPHandshakes g hash key w else Returns (True, w)) (\<lambda>(ok, w).
               if \<not> ok then Returns (False, w) else fixed_loop g hash key (requests_from g (Suc n)) w)))) ?Q"
    if w: "run_ok g (sent_received n 0) hash key ref A w" for w
    unfolding safely_andThen [of "send_request g hash key ?q w"]
    by (rule safely_pair [OF plain_phase.send_request_ok [OF plain_phase.stable_phase_axioms w qn
            sendable_plain [OF q le0]]], unfold prod.case, rule safely_if, simp,
        unfold safely_andThen, rule safely_pair, rule optional, simp, rule plain_phase.waitInterval_ok, simp,
        unfold prod.case, rule safely_if, simp,
        unfold safely_andThen, rule safely_pair, rule optional, simp, rule plain_phase.waitForTCPHandshakes_ok,
        simp, unfold prod.case, rule safely_if, simp, rule step.IH, simp)
  have prepared: "safely (andThen (or_crash (prepareTCPPacket g ?q w)) (\<lambda>(prepared, w).
         if \<not> prepared then give_up DropNotRecv w
         else andThen (send_request g hash key ?q w) (\<lambda>(sent, w).
           if \<not> sent then Returns (False, w)
           else andThen
             (if RequestInterval (FixedIntervalConfig (Config g)) > 0 \<and> ?q + 1 < RequestCount g
              then waitInterval g hash key w else Returns (True, w)) (\<lambda>(ok, w).
             if \<not> ok then Returns (False, w)
             else andThen
               (if TcpEstablishConnection g \<and> ?q + 1 = ConnectionCount (Config g)
                then waitForTCPHandshakes g hash key w else Returns (True, w)) (\<lambda>(ok, w).
               if \<not> ok then Returns (False, w) else fixed_loop g hash key (requests_from g (Suc n)) w))))) ?Q"
    if w: "run_ok g (sent_received n 0) hash key ref A w" for w
  proof -
    obtain b w1 where prep: "prepareTCPPacket g ?q w = Some (b, w1)" "run_ok g (sent_received n 0) hash key ref A w1"
      using plain_phase.prepare_ok [OF w qn] by auto
    show ?thesis
      unfolding prep(1) or_crash_def option.case andThen.simps prod.case
      by (rule safely_if, rule plain_phase.give_up_moves [OF prep(2)], simp, rule sent [OF prep(2)])
  qed
  show ?case
    unfolding requests_from_step [OF step.hyps(2)] fixed_loop.simps safely_andThen [of "flushTCPACKs _ _ _ _"]
    by (rule safely_pair [OF plain_phase.flush_ok [OF step.prems]], unfold prod.case, rule safely_if, simp,
        rule prepared, simp)
qed simp


section \<open>Completing a probe\<close>

text \<open>At least \<open>k\<close> replies; and, once completed, a strict probe no receiver can change any more.\<close>

definition answered :: "nat \<Rightarrow> probe \<Rightarrow> bool" where
  "answered k p \<longleftrightarrow> k \<le> received_count p"

definition completed :: "nat \<Rightarrow> probe \<Rightarrow> bool" where
  "completed k p \<longleftrightarrow> k \<le> received_count p \<and> (strict p \<longrightarrow> status p = probeComplete)"

interpretation answered_phase: stable_phase g "answered k" for g :: mctx and k :: nat
proof unfold_locales
  fix p r q e s e' p' s'
  assume "answered k p" "request_open g r p q" "accepted_as g r q (e, p, s) (e', p', s')"
  then show "answered k p'"
    using received_count_mono by (force simp: answered_def)
qed (simp add: answered_def received_count_def)

interpretation completed_phase: stable_phase g "completed k" for g :: mctx and k :: nat
proof unfold_locales
  fix p r q e s e' p' s'
  assume a: "completed k p" "request_open g r p q" "accepted_as g r q (e, p, s) (e', p', s')"
  then have "received_count p \<le> received_count p'"
    using received_count_mono by blast
  then show "completed k p'"
    using a(1,3) by (auto simp: completed_def accepted_as_def)
qed (auto simp: completed_def received_count_def)

lemma all_received_count:
  "sent_received n (length (Samples p)) p \<Longrightarrow> received_count p = length (Samples p)"
  unfolding received_count_def
  by (metis (mono_tags, lifting) filter_True in_set_conv_nth le_refl sent_received_def)

lemma complete_ok:
  assumes "probe_ok g p" "answered k p" "complete p = (ok, p')"
  shows "probe_ok g p'" "received_count p' = received_count p" "ok \<Longrightarrow> completed k p'"
    and "strict p' = strict p" "Target p' = Target p" "TargetStrategy p' = TargetStrategy p"
proof -
  have cases: "p' = p \<and> (ok \<longrightarrow> \<not> strict p) \<or> strict p \<and> status p = probeActive \<and> p' = p\<lparr>status := probeComplete\<rparr>"
    using assms(3) by (auto simp: complete_def split: if_splits)
  have "strict p \<Longrightarrow> status p = probeActive \<Longrightarrow> probe_ok g (p\<lparr>status := probeComplete\<rparr>)"
    using assms(1) by (simp add: probe_ok_def status_ok_def tcp_ok_def received_count_def handshakes_def)
  then show "probe_ok g p'"
    using cases assms(1) by blast
  show "received_count p' = received_count p" "strict p' = strict p" "Target p' = Target p"
    "TargetStrategy p' = TargetStrategy p" "ok \<Longrightarrow> completed k p'"
    using cases assms(2) by (auto simp: received_count_def completed_def answered_def)
qed

lemma complete_and_save_ok:
  assumes w: "run_ok g (answered k) hash key ref A w"
  shows "safely (complete_and_save g hash key w) (ends g (completed k) hash key ref A)"
proof -
  let ?p = "cur_probe w"
  obtain ok p where c: "complete ?p = (ok, p)" by (cases "complete ?p")
  have "probe_ok g ?p" "answered k ?p"
    using w by (simp_all add: run_ok_defs)
  note done_ok = complete_ok [OF this c]
  have "run_ok g (if ok then completed k else (\<lambda>_. True)) hash key ref A (w\<lparr>cur_probe := p\<rparr>)"
    using done_ok by (intro answered_phase.run_ok_probe [OF w]) simp_all
  then show ?thesis
    using completed_phase.save_select_ok [of g k hash key ref A "w\<lparr>cur_probe := p\<rparr>" "count_event DropInterrupt"]
    by (cases ok) (simp_all add: complete_and_save_def c ends_False run_ok_count run_ok_trivial)
qed

section \<open>The measuring functions\<close>

abbreviation full :: "mctx \<Rightarrow> nat" where
  "full g \<equiv> unat (RequestCount g)"

lemma measureInterProtocolRT_ok:
  assumes "run_ok g (sent_received 0 0) hash key ref {} w"
  shows "safely (measureInterProtocolRT g hash key base w) (ends g (\<lambda>_. True) hash key ref {})"
  unfolding measureInterProtocolRT_def all_requests_from safely_andThen
  by (rule safely_pair [OF inter_loop_ok [OF le0 assms]], unfold prod.case, rule safely_if,
      simp add: ends_False, rule trivial_phase.save_select_ok, simp add: run_ok_trivial, simp)

lemma sent_received_answered: "probe_ok g p \<Longrightarrow> sent_received (full g) (full g) p \<Longrightarrow> answered (full g) p"
  using all_received_count [of "full g" p] by (simp add: answered_def probe_ok_def)

lemma run_ok_answered:
  "run_ok g (sent_received (full g) (full g)) hash key ref A w \<Longrightarrow> run_ok g (answered (full g)) hash key ref A w"
  using sent_received_answered [of g "cur_probe w"] by (simp add: run_ok_defs)

lemma register_full:
  assumes "run_ok g P hash key ref {} w" "register hash key (full_entry g 0 base) w = (i, w1)"
  shows "run_ok g P hash key ref {i} w1" "cur_probe w1 = cur_probe w"
  using register_ok(1,2) [OF assms(1) _ _ assms(2)] full_entry_ok [OF run_ok_wf [OF assms(1)]] by simp_all

lemma leave_ok:
  assumes "safely m (ends g P hash key ref {i})"
  shows "safely (andThen m (\<lambda>(ok, w). Returns (ok, deregister hash key i w))) (ends g P hash key ref {})"
  unfolding safely_andThen
  by (rule safely_pair [where P = "\<lambda>b w. ends g P hash key ref {i} (b, w)"])
     (use assms in \<open>simp_all add: ends_deregister\<close>)

lemma measureBaseRT_ok:
  assumes "run_ok g (quiet 0) hash key ref {} w"
  shows "safely (measureBaseRT g hash key base w) (ends g (completed (full g)) hash key ref {})"
proof -
  obtain i w1 where reg: "register hash key (full_entry g 0 base) w = (i, w1)"
    by (cases "register hash key (full_entry g 0 base) w")
  have answered: "run_ok g (quiet (full g)) hash key ref {i} w' \<Longrightarrow> run_ok g (answered (full g)) hash key ref {i} w'" for w'
    by (rule run_ok_answered, erule run_ok_weaken) (simp add: quiet_def)
  show ?thesis
    unfolding measureBaseRT_def reg Let_def prod.case
    by (rule leave_ok, unfold safely_andThen all_requests_from,
        rule safely_pair [OF base_loop_ok [OF le0 register_full(1) [OF assms reg]]],
        unfold prod.case, rule safely_if, simp add: ends_False,
        rule complete_and_save_ok, rule answered, simp)
qed

text \<open>What the reply rate of a fixed-interval probe must reach.\<close>

definition required_rate :: "mctx \<Rightarrow> probe \<Rightarrow> rat" where
  "required_rate g p = (if strict p then 1 else MinimumReplyRate (FixedIntervalConfig (Config g)))"

definition reply_rate :: "mctx \<Rightarrow> probe \<Rightarrow> rat" where
  "reply_rate g p = of_nat (received_count p) / of_nat (full g)"

text \<open>What the saver may rely on, by mode.\<close>

definition promised :: "mctx \<Rightarrow> probe \<Rightarrow> bool" where
  "promised g p \<longleftrightarrow>
     (strict p \<longrightarrow> status p = probeComplete)
   \<and> (\<not> IsInterProtocol g \<longrightarrow>
        (if MeasurementMode (Config g) = MeasurementModeRTBased
         then \<forall>s \<in> set (Samples p). IsReceived s
         else required_rate g p \<le> reply_rate g p))"

lemma count_all:
  "probe_ok g p \<Longrightarrow> full g \<le> received_count p \<Longrightarrow> s \<in> set (Samples p) \<Longrightarrow> IsReceived s"
  using length_filter_lt [of s "Samples p" IsReceived]
  by (auto simp: probe_ok_def received_count_def)

lemma rate_mono: "a \<le> c \<Longrightarrow> (of_nat a / of_nat b :: rat) \<le> of_nat c / of_nat b"
  by (simp add: divide_right_mono)

lemma finishFixedProbe_ok:
  assumes w: "run_ok g (sent_received n 0) hash key ref A w"
  shows "safely (finishFixedProbe g hash key w)
    (ends g (\<lambda>p. (strict p \<longrightarrow> status p = probeComplete)
       \<and> (\<not> IsInterProtocol g \<longrightarrow> required_rate g p \<le> reply_rate g p)) hash key ref A)"
proof -
  let ?k = "received_count (cur_probe w)"
  let ?min = "if strict (cur_probe w) then 1 else MinimumReplyRate (FixedIntervalConfig (Config g))"
  let ?low = "of_nat ?k / of_nat (full g) < (?min :: rat) \<and> \<not> IsInterProtocol g"
  have "run_ok g (answered ?k) hash key ref A w"
    using w by (rule run_ok_weaken) (simp add: answered_def)
  note save = complete_and_save_ok [OF this]
  have rate: "required_rate g p \<le> reply_rate g p"
    if "completed ?k p" "strict p = strict (cur_probe w)" "\<not> ?low" "\<not> IsInterProtocol g" for p
  proof -
    have "of_nat ?k / of_nat (full g) \<le> (of_nat (received_count p) / of_nat (full g) :: rat)"
        using that(1) by (intro rate_mono) (simp add: completed_def)
    then show ?thesis
      using that(2-4) by (simp add: required_rate_def reply_rate_def not_less)
  qed
  have ref: "strict (cur_probe w) = strict (cur_probe ref)"
    using w by (simp add: run_ok_defs)
  have "safely (complete_and_save g hash key w) (ends g (\<lambda>p. (strict p \<longrightarrow> status p = probeComplete)
       \<and> (\<not> IsInterProtocol g \<longrightarrow> required_rate g p \<le> reply_rate g p)) hash key ref A)" if "\<not> ?low"
    using save by (rule safely_mono) (use that rate ref in \<open>auto simp: ends_def completed_def split: if_splits\<close>)
  moreover have "safely (give_up DropRateLow w) (ends g (\<lambda>p. (strict p \<longrightarrow> status p = probeComplete)
       \<and> (\<not> IsInterProtocol g \<longrightarrow> required_rate g p \<le> reply_rate g p)) hash key ref A)"
    using plain_phase.give_up_ok [OF w, of DropRateLow]
    by (rule safely_mono [OF _]) (auto simp: ends_def run_ok_trivial)
  ultimately show ?thesis
    unfolding finishFixedProbe_def Let_def received_count_def [symmetric] by (intro safely_if)
qed

lemma measureFixedInterval_ok:
  assumes w: "run_ok g (sent_received 0 0) hash key ref {} w" and mode: "MeasurementMode (Config g) \<noteq> MeasurementModeRTBased"
  shows "safely (measureFixedInterval g hash key base w) (ends g (promised g) hash key ref {})"
proof -
  obtain i w1 where reg: "register hash key (full_entry g 0 base) w = (i, w1)"
    by (cases "register hash key (full_entry g 0 base) w")
  have finish: "safely (finishFixedProbe g hash key w2) (ends g (promised g) hash key ref {i})"
    if "run_ok g (sent_received (full g) 0) hash key ref {i} w2" for w2
    using finishFixedProbe_ok [OF that] by (rule safely_mono) (auto simp: promised_def mode elim: ends_weaken)
  show ?thesis
    unfolding measureFixedInterval_def reg Let_def prod.case
    by (rule leave_ok, unfold safely_andThen all_requests_from,
        rule safely_pair [OF fixed_loop_ok [OF le0 register_full(1) [OF w reg]]],
        unfold prod.case, rule safely_if, simp add: ends_False, unfold safely_andThen,
        rule safely_pair, rule plain_phase.waitForFixedReplies_ok, simp, unfold prod.case, rule safely_if,
        simp add: ends_False, rule finish, simp)
qed

lemma measureRTBased_ok:
  assumes w: "run_ok g (quiet 0) hash key ref {} w" and mode: "MeasurementMode (Config g) = MeasurementModeRTBased"
  shows "safely (measureRTBased g hash key base w) (ends g (promised g) hash key ref {})"
proof (cases "strict (cur_probe w)")
  case True
  from measureBaseRT_ok [OF w, of base] show ?thesis
    unfolding measureRTBased_def if_P [OF True]
    by (rule safely_mono)
       (auto simp: promised_def completed_def mode intro: count_all elim!: ends_weaken split: prod.splits)
next
  case False
  have ref: "\<not> strict (cur_probe ref)"
    using w False by (simp add: run_ok_defs)
  have w0: "run_ok g (sent_received 0 0) hash key ref {} w"
    using w by (rule run_ok_weaken) (simp add: quiet_def)
  have saved: "safely (save_select g hash key (count_event DropInterrupt) w2) (ends g (promised g) hash key ref {})"
    if w2: "run_ok g (sent_received (full g) (full g)) hash key ref {} w2" for w2
  proof -
    have "safely (save_select g hash key (count_event DropInterrupt) w2) (ends g (answered (full g)) hash key ref {})"
      using run_ok_answered [OF w2]
      by (rule answered_phase.save_select_ok) (simp add: run_ok_count run_ok_trivial)
    then show ?thesis
      by (rule safely_mono)
         (auto simp: ends_def promised_def answered_def mode ref intro: count_all split: if_splits)
  qed
  show ?thesis
    unfolding measureRTBased_def if_not_P [OF False] all_requests_from safely_andThen
    by (rule safely_pair [OF rt_loop_ok [OF le0 w0]], unfold prod.case, rule safely_if,
        simp add: ends_False, rule saved, simp)
qed

lemma dispatch_ok:
  assumes w: "run_ok g (quiet 0) hash key ref {} w" and lenient: "IsInterProtocol g \<Longrightarrow> \<not> strict (cur_probe ref)"
  shows "safely (dispatch g hash key base w) (ends g (promised g) hash key ref {})"
proof -
  have w0: "run_ok g (sent_received 0 0) hash key ref {} w"
    using w by (rule run_ok_weaken) (simp add: quiet_def)
  have inter: "safely (measureInterProtocolRT g hash key base w) (ends g (promised g) hash key ref {})"
    if "IsInterProtocol g"
    using measureInterProtocolRT_ok [OF w0, of base]
    by (rule safely_mono) (use that lenient in \<open>auto simp: ends_def promised_def split: if_splits\<close>)
  have none: "safely (Returns (False, w)) (ends g (promised g) hash key ref {})"
    using w by (simp add: ends_False run_ok_trivial)
  show ?thesis
    unfolding dispatch_def
    by (intro safely_if; ((rule measureFixedInterval_ok [OF w0], simp) | (erule inter) | (rule measureRTBased_ok [OF w], simp)
        | rule none))
qed


section \<open>The connection resets\<close>

text \<open>
  What the resets of established connections rely on: request IP-IDs, a TCP port, and a serializer
  whose IP and TCP headers are complete.
\<close>

definition reset_ready :: "(layer list \<Rightarrow> u8 list option) \<Rightarrow> mctx \<Rightarrow> bool" where
  "reset_ready serialize g \<longleftrightarrow>
     RequestIPIDs (Config g) \<noteq> [] \<and> ZMapPort (Config g) \<noteq> None
   \<and> (\<forall>ip t bytes. serialize [IPv4Layer ip, TCPLayer t] = Some bytes \<longrightarrow>
        40 \<le> length bytes \<and> length bytes \<le> 65535)"

lemma BuildTCPResetPacket_some:
  assumes "wf_context g" "TcpEstablishConnection g" "reset_ready serialize g"
  shows "\<exists>r. BuildTCPResetPacket serialize g dst src port c next ack = Some r"
proof -
  note est = established_facts [OF assms(1,2)]
  obtain t where t: "tcp_Layer g (next * ConnectionCount (Config g) + c) (Some (set_new [TCPFlagRST, TCPFlagACK])) = Some t"
    using assms(3) est(2) by (auto simp: tcp_Layer_def PortForPayload_def reset_ready_def)
  have sums: "\<exists>q. (do { header \<leftarrow> slice 0 20 bytes; p \<leftarrow> PutUint16 10 (Compute header) bytes; q \<leftarrow> tcp_SetChecksum p;
      Some (Some q) }) = Some q" if "40 \<le> length bytes" for bytes
    using that by (simp add: slice_def PutUint16_update tcp_SetChecksum_eq)
  have "ids \<noteq> [] \<Longrightarrow> serialize [IPv4Layer ip, TCPLayer t] = Some bytes \<Longrightarrow> 40 \<le> length bytes" for ids :: "u16 list" and ip t bytes
    using assms(3) by (simp add: reset_ready_def)
  then show ?thesis
    using assms(3) est(1) t sums
    by (auto simp: BuildTCPResetPacket_def Let_def reset_ready_def split: option.split)
qed

lemma resetTCPConnections_ok:
  assumes est: "TcpEstablishConnection g" and ready: "reset_ready serialize g"
    and cs: "\<forall>c \<in> set cs. c < conns g"
  shows "run_ok g (\<lambda>_. True) hash key ref A w \<Longrightarrow>
    safely (resetTCPConnections serialize g hash key base cs w) (run_ok g (\<lambda>_. True) hash key ref A)"
  using cs
proof (induction cs arbitrary: w)
  case (Cons c cs)
  have wf: "wf_context g" and p: "probe_ok g (cur_probe w)" and tcp: "tcp_ok g (cur_probe w)"
    using Cons.prems(1) est by (simp_all add: run_ok_defs probe_ok_def)
  have c: "c < conns g" "unat (of_nat c :: u16) = c"
    using Cons.prems(2) unat_u16_less [of "ConnectionCount (Config g)"]
    by (simp_all add: unat_of_nat take_bit_nat_eq_self del: unat_u16_less)
  obtain n where n: "nextTCPRequestIndex g (cur_probe w) (of_nat c) = Some n"
    using nextTCPRequestIndex_some [OF wf est p, of "of_nat c"] c by auto
  have rest: "run_ok g (\<lambda>_. True) hash key ref A w' \<Longrightarrow>
      safely (resetTCPConnections serialize g hash key base cs w') (run_ok g (\<lambda>_. True) hash key ref A)" for w'
    using Cons.IH Cons.prems(2) by simp
  obtain r where r: "BuildTCPResetPacket serialize g key (GetSender g (of_nat c)) (base + of_nat c) (of_nat c) n
      (tcpAcknowledgments (cur_probe w) ! c) = Some r"
    using BuildTCPResetPacket_some [OF wf est ready] by blast
  have send: "safely (andThen (sendPacket g hash key (GetSender g (of_nat c)) bytes None False w) (\<lambda>(sent, w).
      resetTCPConnections serialize g hash key base cs w)) (run_ok g (\<lambda>_. True) hash key ref A)" for bytes
    unfolding safely_andThen
    by (rule safely_pair [OF trivial_phase.send_ok [OF trivial_phase.stable_phase_axioms Cons.prems(1)]])
       (simp_all add: mark_sample_def rest)
  show ?case
    using c tcp n r rest [OF Cons.prems(1)] send rest [OF run_ok_count [OF Cons.prems(1), of DropSendErr]]
    by (simp add: outcome_simps tcp_ok_def Let_def nth_opt_def or_crash_def split: option.split)
qed simp

section \<open>Measuring a target\<close>

text \<open>
  The templates \<open>Setup\<close> produced: one per request, complete transport headers, no longer than an IP
  packet can be.
\<close>

definition templates_ok :: "mctx \<Rightarrow> u8 list list \<Rightarrow> bool" where
  "templates_ok g raws \<longleftrightarrow>
     length raws = full g
   \<and> (\<forall>s < full g. length (raws ! s) \<le> 65535 \<and> (TcpEstablishConnection g \<longrightarrow> 40 \<le> length (raws ! s))
        \<and> (\<exists>a. ForSequence g (of_nat s) = Some a \<and> checksum_offset a + 2 \<le> length (raws ! s)))"

lemma all_some_map:
  "(\<And>x. x \<in> set xs \<Longrightarrow> \<exists>y. f x = Some y \<and> Q y) \<Longrightarrow>
   \<exists>ys. all_some (map f xs) = Some ys \<and> length ys = length xs \<and> (\<forall>y \<in> set ys. Q y)"
proof (induction xs)
  case (Cons x xs)
  then obtain y ys where "f x = Some y" "Q y" "all_some (map f xs) = Some ys" "length ys = length xs"
    "\<forall>y \<in> set ys. Q y"
    by (metis list.set_intros)
  then show ?case by simp
qed simp

lemma BuildPacketsInto_ok:
  assumes "templates_ok g raws"
  shows "\<exists>pkts. BuildPacketsInto g raws dst base = Some pkts \<and> packets_ok g pkts"
proof -
  have one: "\<exists>p. (do { raw \<leftarrow> nth_opt raws s; build_packet g raw (of_nat s) dst base }) = Some p
      \<and> (TcpEstablishConnection g \<longrightarrow> 40 \<le> length p \<and> length p \<le> 65535)"
    if "s \<in> set [0..<full g]" for s
  proof -
    have s: "s < full g" using that by simp
    obtain a where a: "ForSequence g (of_nat s) = Some a" "checksum_offset a + 2 \<le> length (raws ! s)"
      "length (raws ! s) \<le> 65535" "TcpEstablishConnection g \<longrightarrow> 40 \<le> length (raws ! s)"
      using assms s by (auto simp: templates_ok_def)
    from built_packet [OF a(1,2,3), of dst base] obtain p where
      "build_packet g (raws ! s) (of_nat s) dst base = Some p" "length p = length (raws ! s)"
      by blast
    then show ?thesis
      using a(3,4) s assms by (auto simp: templates_ok_def nth_opt_def)
  qed
  from all_some_map [of "[0..<full g]", OF one] show ?thesis
    by (force simp: BuildPacketsInto_def packets_ok_def)
qed

text \<open>A worker's world before the probe: its registry is sound and nobody else's entry is numbered 0.\<close>

definition fresh_world :: "(ip4 \<Rightarrow> u64) \<Rightarrow> ip4 \<Rightarrow> world \<Rightarrow> bool" where
  "fresh_world hash key w \<longleftrightarrow>
     inflight_ok (cur_registry w) \<and> (\<forall>e \<in> set (cur_entries w). entry_Probe e \<noteq> 0)
   \<and> (\<forall>i. Lookup hash (cur_registry w) key = Some i \<longrightarrow> i < length (cur_entries w))"

text \<open>How a run may end, compared with the world it started from.\<close>

definition run_result :: "mctx \<Rightarrow> (ip4 \<Rightarrow> u64) \<Rightarrow> ip4 \<Rightarrow> string \<Rightarrow> world \<Rightarrow> bool \<times> world \<Rightarrow> bool" where
  "run_result g hash key strategy w r \<longleftrightarrow>
     (\<exists>saved. cur_saved (snd r) = cur_saved w @ saved \<and> length saved = (if fst r then 1 else 0)
        \<and> cur_stats (snd r) ValidProbes = cur_stats w ValidProbes + int (length saved)
        \<and> (\<forall>p \<in> set saved. probe_ok g p \<and> promised g p \<and> Target p = key \<and> TargetStrategy p = strategy))
   \<and> cur_stats (snd r) ProbeCount = cur_stats w ProbeCount + 1
   \<and> cur_stats (snd r) InFlightProbes = cur_stats w InFlightProbes
   \<and> (\<forall>i. Lookup hash (cur_registry (snd r)) key = Some i \<longrightarrow> entry_Probe (cur_entries (snd r) ! i) \<noteq> 0)
   \<and> (strict (cur_probe (snd r)) \<longrightarrow> status (cur_probe (snd r)) \<noteq> probeActive)"

lemma new_probe_fields [simp]:
  "Target (new_probe g key strategy) = key" "TargetStrategy (new_probe g key strategy) = strategy"
  "IsInterProtocol g \<Longrightarrow> \<not> strict (new_probe g key strategy)"
  by (simp_all add: new_probe_def Let_def)

lemma new_probe_quiet: "quiet 0 (new_probe g key strategy)"
  by (auto simp: quiet_def sent_received_def empty_sample_def new_probe_def Let_def)

lemma invalidate_ok:
  assumes "run_ok g (\<lambda>_. True) hash key ref A w"
  shows "\<exists>p s. (if strict (cur_probe w) then or_crash (fail None (cur_probe w, cur_stats w))
      else Returns (cur_probe w, cur_stats w)) = Returns (p, s)
    \<and> (strict p \<longrightarrow> status p \<noteq> probeActive) \<and> (\<forall>c \<in> prober_counters. s c = cur_stats w c)"
proof (cases "strict (cur_probe w)")
  case True
  have st: "status_ok (cur_probe w)"
    using assms by (simp add: run_ok_defs probe_ok_def)
  obtain p s where f: "fail None (cur_probe w, cur_stats w) = Some (p, s)" "status p \<noteq> probeActive"
      "s = cur_stats w \<or> s = bump_opt None (cur_stats w)"
    using fail_ok [OF st, of None "cur_stats w"] True by blast
  show ?thesis
    by (rule exI [of _ p], rule exI [of _ s]) (use f True in \<open>auto simp: or_crash_def\<close>)
qed simp

text \<open>The reference world once the probes \<open>saved\<close> have been handed over.\<close>

definition handed_over :: "mctx \<Rightarrow> ip4 \<Rightarrow> string \<Rightarrow> world \<Rightarrow> probe list \<Rightarrow> world \<Rightarrow> bool" where
  "handed_over g key strategy w saved ref \<longleftrightarrow>
     cur_saved ref = cur_saved w @ saved
   \<and> cur_stats ref ValidProbes = cur_stats w ValidProbes + int (length saved)
   \<and> cur_stats ref ProbeCount = cur_stats w ProbeCount + 1
   \<and> cur_stats ref InFlightProbes = cur_stats w InFlightProbes + 1
   \<and> (\<forall>p \<in> set saved. probe_ok g p \<and> promised g p \<and> Target p = key \<and> TargetStrategy p = strategy)"

lemma ends_handed_over:
  assumes "ends g (promised g) hash key ref {} (ok, w2)" "handed_over g key strategy w [] ref"
    and "Target (cur_probe ref) = key" "TargetStrategy (cur_probe ref) = strategy"
  shows "\<exists>ref' saved. run_ok g (\<lambda>_. True) hash key ref' {} w2 \<and> handed_over g key strategy w saved ref'
    \<and> length saved = (if ok then 1 else 0)"
proof (cases ok)
  case True
  then obtain p where p: "probe_ok g p" "promised g p" "Target p = key" "TargetStrategy p = strategy"
    "run_ok g (\<lambda>_. True) hash key (saved_ref p ref) {} w2"
    using assms by (auto simp: ends_def)
  show ?thesis
    by (rule exI [of _ "saved_ref p ref"], rule exI [of _ "[p]"])
       (use p assms(2) True in \<open>simp add: saved_ref_def count_event_def handed_over_def\<close>)
next
  case False
  show ?thesis
    by (rule exI [of _ ref], rule exI [of _ "[]"]) (use assms False in \<open>simp add: ends_def\<close>)
qed

lemma last_defers_ok:
  assumes w3: "run_ok g (\<lambda>_. True) hash key ref {} w3" and ref: "handed_over g key strategy w saved ref"
    and n: "length saved = (if ok then 1 else 0)"
  shows "safely (andThen (if strict (cur_probe w3) then or_crash (fail None (cur_probe w3, cur_stats w3))
              else Returns (cur_probe w3, cur_stats w3)) (\<lambda>(p, s).
          Returns (ok, w3\<lparr>cur_probe := p, cur_stats := add_to InFlightProbes (- 1) s\<rparr>)))
        (run_result g hash key strategy w)"
proof -
  have k: "cur_saved w3 = cur_saved ref" "\<forall>c \<in> prober_counters. cur_stats w3 c = cur_stats ref c"
    "\<forall>i. Lookup hash (cur_registry w3) key = Some i \<longrightarrow> entry_Probe (cur_entries w3 ! i) \<noteq> 0"
    using w3 by (auto simp: run_ok_defs)
  obtain p s where f: "(if strict (cur_probe w3) then or_crash (fail None (cur_probe w3, cur_stats w3))
        else Returns (cur_probe w3, cur_stats w3)) = Returns (p, s)"
    "strict p \<longrightarrow> status p \<noteq> probeActive" "\<forall>c \<in> prober_counters. s c = cur_stats w3 c"
    using invalidate_ok [OF w3] by blast
  have "s c = cur_stats ref c" if "c \<in> {ValidProbes, ProbeCount, InFlightProbes}" for c
    using that f(3) k(2) by (auto simp: prober_counters_def)
  then show ?thesis
    unfolding f(1) andThen.simps prod.case safely_simps run_result_def fst_conv snd_conv
    using k(1,3) f(2) ref n by (intro conjI exI [of _ saved]) (simp_all add: handed_over_def)
qed

lemma or_crash_Some: "or_crash (Some x) = Returns x"
  by (simp add: or_crash_def)

lemma start_ok:
  assumes "wf_context g" "packets_ok g pkts" "fresh_world hash key w"
  shows "run_ok g (quiet 0) hash key (w\<lparr>cur_packets := pkts, cur_probe := new_probe g key strategy\<rparr>) {}
    (w\<lparr>cur_packets := pkts, cur_probe := new_probe g key strategy\<rparr>)"
proof -
  have "entry_Probe (cur_entries w ! i) = 0 \<Longrightarrow> i < length (cur_entries w) \<Longrightarrow> False" for i
    using assms(3) unfolding fresh_world_def by (metis nth_mem)
  then show ?thesis
    using assms by (auto simp: run_ok_defs fresh_world_def new_probe_ok new_probe_quiet)
qed

lemma MeasureTarget_run:
  assumes wf: "wf_context g" and raws: "templates_ok g raws" and reset: "TcpEstablishConnection g \<Longrightarrow> reset_ready serialize g"
    and fresh: "fresh_world hash key w"
  shows "safely (MeasureTarget serialize g hash raws base (Some key) strategy w) (run_result g hash key strategy w)"
proof -
  obtain pkts where pkts: "BuildPacketsInto g raws key base = Some pkts" "packets_ok g pkts"
    using BuildPacketsInto_ok [OF raws] by blast
  let ?w1 = "count_event InFlightProbes (count_event ProbeCount w)"
  let ?w = "?w1\<lparr>cur_packets := pkts, cur_probe := new_probe g key strategy\<rparr>"
  have "fresh_world hash key ?w1"
    using fresh by (simp add: fresh_world_def count_event_def)
  note start = start_ok [OF wf pkts(2) this, of strategy]
  have ref: "handed_over g key strategy w [] ?w"
    by (simp add: handed_over_def count_event_def)
  have finish: "safely (andThen (if \<not> IsInterProtocol g \<and> TcpEstablishConnection g
              then resetTCPConnections serialize g hash key base [0..<conns g] w2 else Returns w2) (\<lambda>w.
          andThen (if strict (cur_probe w) then or_crash (fail None (cur_probe w, cur_stats w))
              else Returns (cur_probe w, cur_stats w)) (\<lambda>(p, s).
          Returns (ok, w\<lparr>cur_probe := p, cur_stats := add_to InFlightProbes (- 1) s\<rparr>))))
      (run_result g hash key strategy w)"
    if e: "ends g (promised g) hash key ?w {} (ok, w2)" for ok w2
  proof -
    obtain ref' saved where r: "run_ok g (\<lambda>_. True) hash key ref' {} w2" "handed_over g key strategy w saved ref'"
      "length saved = (if ok then 1 else 0)"
      using ends_handed_over [OF e ref] by auto
    have resets: "safely (if \<not> IsInterProtocol g \<and> TcpEstablishConnection g
        then resetTCPConnections serialize g hash key base [0..<conns g] w2 else Returns w2)
        (run_ok g (\<lambda>_. True) hash key ref' {})"
      using r(1) resetTCPConnections_ok [OF _ reset] by (intro safely_if) auto
    show ?thesis
      unfolding safely_andThen [of "if \<not> IsInterProtocol g \<and> TcpEstablishConnection g then _ else _"]
      by (rule safely_mono [OF resets], rule last_defers_ok [OF _ r(2,3)])
  qed
  have d: "safely (dispatch g hash key base ?w) (\<lambda>(ok, w2). ends g (promised g) hash key ?w {} (ok, w2))"
    by (rule safely_mono [OF dispatch_ok [OF start]]) auto
  show ?thesis
    unfolding MeasureTarget_def option.case Let_def pkts(1) or_crash_Some andThen.simps
      safely_andThen [of "dispatch _ _ _ _ _"]
    by (rule safely_pair [OF d], unfold prod.case) (erule finish)
qed

end
