(* ===== verification/Answered.thy ===== *)
theory Answered
  imports Prober_Runs
begin

text \<open>
  Total correctness of round-trip runs against a host that answers. Nothing but the order of what matters is fixed:
  each request is granted, sent, answered, and the answer is noticed before the next one. In between, the environment
  acts as it likes, within what the kind of the probe tolerates. Each stage of a run is a predicate on the world that
  these actions cannot end (\<open>lasts\<close>); the rules for waiting and for sending are proved once for all stages.
\<close>

section \<open>Total correctness\<close>

definition delivers :: "'a outcome \<Rightarrow> ('a \<Rightarrow> bool) \<Rightarrow> bool" where
  "delivers m Q \<longleftrightarrow> (\<exists>x. m = Returns x \<and> Q x)"

lemma delivers_simps [simp]:
  "delivers (Returns x) Q \<longleftrightarrow> Q x" "\<not> delivers Waiting Q" "\<not> delivers Crashed Q"
  by (simp_all add: delivers_def)

lemma delivers_andThen: "delivers (andThen m f) Q \<longleftrightarrow> delivers m (\<lambda>x. delivers (f x) Q)"
  by (cases m) simp_all

lemma delivers_or_crash: "delivers (or_crash x) Q \<longleftrightarrow> (\<exists>y. x = Some y \<and> Q y)"
  by (cases x) (simp_all add: or_crash_def)

lemma delivers_mono: "delivers m P \<Longrightarrow> (\<And>x. P x \<Longrightarrow> Q x) \<Longrightarrow> delivers m Q"
  by (auto simp: delivers_def)

lemma delivers_pair: "delivers m (\<lambda>(a, b). P a b) \<Longrightarrow> (\<And>a b. P a b \<Longrightarrow> Q (a, b)) \<Longrightarrow> delivers m Q"
  by (auto simp: delivers_def)

lemma deliversE:
  assumes "delivers m (\<lambda>(a, b). P a b)"
  obtains a b where "m = Returns (a, b)" "P a b"
  using assms by (auto simp: delivers_def)

lemma delivers_safely: "delivers m P \<Longrightarrow> safely m Q \<Longrightarrow> delivers m (\<lambda>x. P x \<and> Q x)"
  by (auto simp: delivers_def safely_def ensures_def)


section \<open>Scripts up to tolerated actions\<close>

text \<open>The events \<open>xs\<close> come in this order, with any tolerated actions of the environment in between; after them, anything.\<close>

fun follows :: "(env_event \<Rightarrow> bool) \<Rightarrow> event list \<Rightarrow> event list \<Rightarrow> bool" where
  "follows N [] ys = True"
| "follows N (x # xs) [] = False"
| "follows N (x # xs) (y # ys) =
     (x = y \<and> follows N xs ys \<or> (case y of Env ev \<Rightarrow> N ev \<and> follows N (x # xs) ys | Choose b \<Rightarrow> False))"

lemma follows_exact [simp]: "follows N xs (xs @ rest)"
  by (induction xs) simp_all

lemma follows_refl [simp]: "follows N xs xs"
  using follows_exact [of N xs "[]"] by simp

text \<open>A stage: its predicate survives every tolerated action, and does not look at the script.\<close>

definition lasts ::
  "mctx \<Rightarrow> (ip4 \<Rightarrow> u64) \<Rightarrow> ip4 \<Rightarrow> (env_event \<Rightarrow> bool) \<Rightarrow> (world \<Rightarrow> bool) \<Rightarrow> bool" where
  "lasts g hash key N J \<longleftrightarrow>
     (\<forall>w evs. J w \<longrightarrow> J (w\<lparr>cur_script := evs\<rparr>))
   \<and> (\<forall>w ev. J w \<longrightarrow> N ev \<longrightarrow> (\<exists>w'. env_step g hash key ev w = Some w' \<and> J w'))"

lemma lastsI:
  "(\<And>w evs. J w \<Longrightarrow> J (w\<lparr>cur_script := evs\<rparr>)) \<Longrightarrow>
   (\<And>w ev. J w \<Longrightarrow> N ev \<Longrightarrow> \<exists>w'. env_step g hash key ev w = Some w' \<and> J w') \<Longrightarrow> lasts g hash key N J"
  unfolding lasts_def by blast

lemma lasts_script: "lasts g hash key N J \<Longrightarrow> J w \<Longrightarrow> J (w\<lparr>cur_script := evs\<rparr>)"
  by (simp add: lasts_def)

lemma lasts_env: "lasts g hash key N J \<Longrightarrow> J w \<Longrightarrow> N ev \<Longrightarrow> \<exists>w'. env_step g hash key ev w = Some w' \<and> J w'"
  by (simp add: lasts_def)

abbreviation stage :: "(env_event \<Rightarrow> bool) \<Rightarrow> (world \<Rightarrow> bool) \<Rightarrow> event list \<Rightarrow> world \<Rightarrow> bool" where
  "stage N J xs w \<equiv> J w \<and> follows N xs (cur_script w)"

lemma await_on_branch:
  assumes "lasts g hash key N J" "J w" "follows N (Choose b # xs) evs"
  shows "delivers (await_on g hash key evs w) (\<lambda>(c, w'). c = b \<and> stage N J xs w')"
  using assms(2,3)
proof (induction evs arbitrary: w)
  case (Cons y evs)
  show ?case
  proof (cases y)
    case (Env ev)
    then have n: "N ev" "follows N (Choose b # xs) evs" using Cons.prems(2) by auto
    obtain w' where "env_step g hash key ev w = Some w'" "J w'"
      using lasts_env [OF assms(1) Cons.prems(1) n(1)] by blast
    then show ?thesis
      using Cons.IH n(2) Env by (simp add: delivers_andThen delivers_or_crash)
  next
    case (Choose c)
    then show ?thesis
      using Cons.prems lasts_script [OF assms(1)] by auto
  qed
qed simp

lemma await_branch:
  assumes "lasts g hash key N J" "stage N J (Choose b # xs) w"
  shows "delivers (await g hash key w) (\<lambda>(c, w'). c = b \<and> stage N J xs w')"
  using assms by (simp add: await_def await_on_branch)

text \<open>An action that matters, which leads from one stage to the next, then the branch.\<close>

lemma await_on_event:
  assumes "lasts g hash key N J" "lasts g hash key N J'"
    and step: "\<And>w. J w \<Longrightarrow> \<exists>w'. env_step g hash key ev w = Some w' \<and> J' w'"
    and "J w" "follows N (Env ev # Choose b # xs) evs"
  shows "delivers (await_on g hash key evs w) (\<lambda>(c, w'). c = b \<and> stage N J' xs w')"
  using assms(4,5)
proof (induction evs arbitrary: w)
  case (Cons y evs)
  then consider "y = Env ev" "follows N (Choose b # xs) evs"
    | e where "y = Env e" "N e" "follows N (Env ev # Choose b # xs) evs"
    by (auto split: event.splits)
  then show ?case
  proof cases
    case 1
    obtain w' where "env_step g hash key ev w = Some w'" "J' w'"
      using step Cons.prems(1) by blast
    then show ?thesis
      using 1 await_on_branch [OF assms(2)] by (simp add: delivers_andThen delivers_or_crash)
  next
    case (2 e)
    obtain w' where "env_step g hash key e w = Some w'" "J w'"
      using lasts_env [OF assms(1) Cons.prems(1) 2(2)] by blast
    then show ?thesis
      using 2 Cons.IH by (simp add: delivers_andThen delivers_or_crash)
  qed
qed simp

lemma await_event:
  assumes "lasts g hash key N J" "lasts g hash key N J'"
    and "\<And>w. J w \<Longrightarrow> \<exists>w'. env_step g hash key ev w = Some w' \<and> J' w'"
    and "stage N J (Env ev # Choose b # xs) w"
  shows "delivers (await g hash key w) (\<lambda>(c, w'). c = b \<and> stage N J' xs w')"
  unfolding await_def using assms(4) by (intro await_on_event [OF assms(1-3)]) blast+


section \<open>Sending\<close>

text \<open>A granted and successful send, with the probe locked (strict) or not.\<close>

definition sending :: "bool \<Rightarrow> int \<Rightarrow> event list" where
  "sending locked now =
     Choose Granted # (if locked then [Choose (LockedSend now True)] else [Choose (Clock now), Choose (Wire True)])"

lemma put_on_wire_fields [simp]:
  "cur_probe (put_on_wire src bytes w) = cur_probe w" "cur_entries (put_on_wire src bytes w) = cur_entries w"
  "cur_script (put_on_wire src bytes w) = cur_script w" "cur_packets (put_on_wire src bytes w) = cur_packets w"
  by (simp_all add: put_on_wire_def)

lemma sendPacket_delivers:
  assumes J: "lasts g hash key N J" and J': "lasts g hash key N J'"
    and mode: "\<And>w. J w \<Longrightarrow> if withProbe then strict (cur_probe w) = locked \<and> (locked \<longrightarrow> status (cur_probe w) = probeActive)
      else \<not> locked"
    and mark: "\<And>w. J w \<Longrightarrow> \<exists>p. mark_sample sample now (cur_probe w) = Some p \<and> J' (w\<lparr>cur_probe := p\<rparr>)"
    and put: "\<And>w. J' w \<Longrightarrow> J' (put_on_wire src bytes w)"
    and start: "stage N J (sending locked now @ xs) w"
  shows "delivers (sendPacket g hash key src bytes sample withProbe w) (\<lambda>(ok, w'). ok \<and> stage N J' xs w')"
proof -
  let ?acts = "if locked then [Choose (LockedSend now True)] else [Choose (Clock now), Choose (Wire True)]"
  have probe: withProbe if locked
    using mode [of w] start that by (auto split: if_splits)
  have granted: "delivers (await g hash key w) (\<lambda>(c, w'). c = Granted \<and> stage N J (?acts @ xs) w')"
    by (rule await_branch [OF J]) (use start in \<open>simp add: sending_def\<close>)
  have locked: "delivers (await g hash key w1) (\<lambda>(c, w2). c = LockedSend now True \<and> stage N J xs w2)"
    if "stage N J (?acts @ xs) w1" locked for w1
    by (rule await_branch [OF J]) (use that in simp)
  have strict: "delivers (send_strict bytes src sample now True w2) (\<lambda>(ok, w'). ok \<and> stage N J' xs w')"
    if "stage N J xs w2" locked withProbe for w2
    using mark [of w2] mode [of w2] that put by (auto simp: send_strict_def delivers_andThen delivers_or_crash)
  have clock: "delivers (await g hash key w1) (\<lambda>(c, w2). c = Clock now \<and> stage N J (Choose (Wire True) # xs) w2)"
    if "stage N J (?acts @ xs) w1" "\<not> locked" for w1
    by (rule await_branch [OF J]) (use that in simp)
  have lenient: "delivers (send_lenient g hash key src bytes sample now w2) (\<lambda>(ok, w'). ok \<and> stage N J' xs w')"
    if w2: "stage N J (Choose (Wire True) # xs) w2" for w2
  proof -
    obtain p where p: "mark_sample sample now (cur_probe w2) = Some p" "J' (w2\<lparr>cur_probe := p\<rparr>)"
      using mark w2 by blast
    have "delivers (await g hash key (w2\<lparr>cur_probe := p\<rparr>)) (\<lambda>(c, w'). c = Wire True \<and> stage N J' xs w')"
      by (rule await_branch [OF J']) (use p w2 in simp)
    then show ?thesis
      using p(1) put by (auto simp: send_lenient_def delivers_andThen delivers_or_crash elim!: delivers_pair)
  qed
  show ?thesis
    unfolding sendPacket_def delivers_andThen
  proof (rule delivers_pair [OF granted], simp add: delivers_andThen del: follows.simps, elim conjE)
    fix w1
    assume w1: "J w1" "follows N (?acts @ xs) (cur_script w1)"
    show "delivers (await g hash key w1) (\<lambda>x. delivers (case x of (b, w) \<Rightarrow>
         case b of
           Clock now \<Rightarrow>
             if withProbe \<and> strict (cur_probe w) then Waiting
             else send_lenient g hash key src bytes sample now w
         | LockedSend now sent \<Rightarrow>
             if withProbe \<and> strict (cur_probe w) then send_strict bytes src sample now sent w
             else Waiting
         | _ \<Rightarrow> Waiting) (\<lambda>(ok, w'). ok \<and> stage N J' xs w'))"
    proof (cases locked)
      case True
      show ?thesis
        by (rule delivers_pair [OF locked]) (use w1 True strict mode probe in \<open>auto split: if_splits\<close>)
    next
      case False
      show ?thesis
        by (rule delivers_pair [OF clock]) (use w1 False lenient mode in \<open>auto split: if_splits\<close>)
    qed
  qed
qed


section \<open>What a probe tolerates\<close>

text \<open>The base measurement is strict.\<close>

definition strict_run :: "mctx \<Rightarrow> bool" where
  "strict_run g \<longleftrightarrow> \<not> IsInterProtocol g \<and> ConnectionCount (Config g) = 4 \<and> RequestsPerConnection (Config g) = 4"

lemma new_probe_strict [simp]: "strict (new_probe g key strategy) = strict_run g"
  by (simp add: new_probe_def strict_run_def Let_def)

text \<open>
  Any action but the one of another worker that takes over the target, after which the answers no longer come to this
  probe. A strict probe is given up for every packet that is not an answer, so none may come: \<open>n0\<close> is its entry.
\<close>

definition tolerated :: "mctx \<Rightarrow> nat \<Rightarrow> env_event \<Rightarrow> bool" where
  "tolerated g n0 ev =
     (case ev of
        EvReply j r \<Rightarrow> strict_run g \<longrightarrow> j \<noteq> n0
      | EvReject c \<Rightarrow> \<not> strict_run g
      | EvProtocol n \<Rightarrow> strict_run g \<longrightarrow> map_option ProtocolID (Active g) = Some n
      | EvSupersede e \<Rightarrow> False
      | EvForeignLeave i \<Rightarrow> True
      | EvStop \<Rightarrow> True)"

text \<open>A stage: the run is in a phase, and a predicate holds of the probe and the entries.\<close>

definition holding ::
  "mctx \<Rightarrow> (probe \<Rightarrow> bool) \<Rightarrow> (ip4 \<Rightarrow> u64) \<Rightarrow> ip4 \<Rightarrow> world \<Rightarrow> nat set \<Rightarrow> (probe \<Rightarrow> entry list \<Rightarrow> bool) \<Rightarrow> world \<Rightarrow> bool" where
  "holding g P hash key ref A F w \<longleftrightarrow> run_ok g P hash key ref A w \<and> F (cur_probe w) (cur_entries w)"

text \<open>No tolerated action touches a strict probe or its entry.\<close>

lemma strict_env_same:
  assumes "strict_run g" "strict (cur_probe w)" "\<And>j. own w j \<Longrightarrow> j = n0" "tolerated g n0 ev"
    and "env_step g hash key ev w = Some w'"
  shows "cur_probe w' = cur_probe w" "cur_entries w' = cur_entries w"
proof -
  have "cur_probe w' = cur_probe w \<and> cur_entries w' = cur_entries w"
  proof (cases ev)
    case (EvReply j r)
    have "\<not> own w j"
    proof
      assume "own w j"
      from assms(3) [OF this] show False using EvReply assms(1,4) by (simp add: tolerated_def)
    qed
    then show ?thesis using EvReply assms(5) by (auto simp: env_step_def reply_event_def split: if_splits)
  next
    case (EvProtocol n)
    then have "AcceptProtocol g n (cur_probe w) (cur_stats w) = Some (True, cur_probe w, cur_stats w)"
      using assms(1,4) by (auto simp: tolerated_def strict_run_def AcceptProtocol_def)
    then show ?thesis
      using EvProtocol assms(5) by (auto simp: env_step_def protocol_event_def split: option.splits if_splits)
  qed (use assms in \<open>auto simp: tolerated_def env_step_def split: if_splits\<close>)
  then show "cur_probe w' = cur_probe w" "cur_entries w' = cur_entries w" by simp_all
qed

lemma holding_strict_lasts:
  assumes "strict_run g" "stable_phase g P"
    and "\<And>p es. F p es \<Longrightarrow> strict p \<and> (\<forall>j < length es. entry_Probe (es ! j) = 0 \<longrightarrow> j = n0)"
  shows "lasts g hash key (tolerated g n0) (holding g P hash key ref A F)"
proof (rule lastsI)
  fix w ev
  assume J: "holding g P hash key ref A F w" and ev: "tolerated g n0 ev"
  then have w: "run_ok g P hash key ref A w" "F (cur_probe w) (cur_entries w)"
    by (simp_all add: holding_def)
  have F: "strict (cur_probe w)" "\<And>j. own w j \<Longrightarrow> j = n0"
    using assms(3) [OF w(2)] by blast+
  obtain w' where w': "env_step g hash key ev w = Some w'" "run_ok g P hash key ref A w'"
    using stable_phase.run_ok_env [OF assms(2) w(1)] by blast
  have "cur_probe w' = cur_probe w" "cur_entries w' = cur_entries w"
    by (rule strict_env_same [OF assms(1) F ev w'(1)], assumption)+
  then show "\<exists>w'. env_step g hash key ev w = Some w' \<and> holding g P hash key ref A F w'"
    using w w' by (auto simp: holding_def)
next
  fix w evs
  assume "holding g P hash key ref A F w"
  then show "holding g P hash key ref A F (w\<lparr>cur_script := evs\<rparr>)"
    using stable_phase.run_ok_script [OF assms(2)] by (simp add: holding_def)
qed

text \<open>A lenient probe changes only by the replies it accepts.\<close>

lemma lenient_env_cases:
  assumes "run_ok g P hash key ref A w" "\<not> strict (cur_probe w)" "tolerated g n0 ev"
    and "env_step g hash key ev w = Some w'"
  shows "cur_probe w' = cur_probe w \<and> cur_entries w' = cur_entries w
    \<or> (\<exists>j r e' p' s'. own w j \<and> FulfillReply g r (cur_entries w ! j) (cur_probe w) (cur_stats w) = Some (True, e', p', s')
        \<and> cur_probe w' = p' \<and> cur_entries w' = (cur_entries w)[j := e'])"
proof (cases ev)
  case (EvReply j r)
  show ?thesis
  proof (cases "own w j")
    case True
    then have ok: "wf_context g" "probe_ok g (cur_probe w)" "entry_ok g (cur_entries w ! j) (cur_probe w)"
      using assms(1) by (auto simp: run_ok_defs)
    obtain b e' p' s' where f: "FulfillReply g r (cur_entries w ! j) (cur_probe w) (cur_stats w) = Some (b, e', p', s')"
      using FulfillReply_ok [OF ok] by blast
    then have w': "w' = w\<lparr>cur_probe := p', cur_entries := (cur_entries w)[j := e'], cur_stats := s'\<rparr>"
      using True EvReply assms(4) by (simp add: env_step_def reply_event_def)
    show ?thesis
    proof (cases b)
      case True
      then show ?thesis
        using f w' \<open>own w j\<close> by (intro disjI2 exI [of _ j] exI [of _ r] exI [of _ e'] exI [of _ p'] exI [of _ s']) simp
    next
      case False
      then have "FulfillReply g r (cur_entries w ! j) (cur_probe w) (cur_stats w) = Some (False, e', p', s')" using f by simp
      note d = dropped_reply(1,2) [OF ok this]
      then show ?thesis using w' assms(2) by simp
    qed
  qed (use EvReply assms(4) in \<open>auto simp: env_step_def reply_event_def split: if_splits\<close>)
next
  case (EvProtocol n)
  then show ?thesis
    using AcceptProtocol_cases [OF run_ok_wf [OF assms(1)], of n "cur_probe w" "cur_stats w"] assms(2,4)
    by (auto simp: env_step_def protocol_event_def split: option.splits if_splits)
qed (use assms in \<open>auto simp: tolerated_def env_step_def RejectBaseReply_def split: if_splits option.splits\<close>)

lemma holding_lenient_lasts:
  assumes "stable_phase g P" and lenient: "\<And>p es. F p es \<Longrightarrow> \<not> strict p"
    and accept: "\<And>p es j r e' p' s s'. \<lbrakk>wf_context g; probe_ok g p; P p; F p es; j < length es; entry_Probe (es ! j) = 0;
      entry_ok g (es ! j) p; FulfillReply g r (es ! j) p s = Some (True, e', p', s')\<rbrakk> \<Longrightarrow> F p' (es[j := e'])"
  shows "lasts g hash key (tolerated g n0) (holding g P hash key ref A F)"
proof (rule lastsI)
  fix w ev
  assume J: "holding g P hash key ref A F w" and ev: "tolerated g n0 ev"
  then have w: "run_ok g P hash key ref A w" "F (cur_probe w) (cur_entries w)"
    by (simp_all add: holding_def)
  obtain w' where w': "env_step g hash key ev w = Some w'" "run_ok g P hash key ref A w'"
    using stable_phase.run_ok_env [OF assms(1) w(1)] by blast
  have ok: "wf_context g" "probe_ok g (cur_probe w)" "P (cur_probe w)" "own w j \<Longrightarrow> entry_ok g (cur_entries w ! j) (cur_probe w)" for j
    using w(1) by (auto simp: run_ok_defs)
  have "F (cur_probe w') (cur_entries w')"
    using lenient_env_cases [OF w(1) lenient [OF w(2)] ev w'(1)] w(2)
  proof (elim disjE exE conjE)
    fix j r e' p' s'
    assume "j < length (cur_entries w)" "entry_Probe (cur_entries w ! j) = 0" "cur_probe w' = p'"
      "cur_entries w' = (cur_entries w)[j := e']"
      "FulfillReply g r (cur_entries w ! j) (cur_probe w) (cur_stats w) = Some (True, e', p', s')"
    then show ?thesis using accept [OF ok(1-3) w(2)] ok(4) by simp
  qed simp
  then show "\<exists>w'. env_step g hash key ev w = Some w' \<and> holding g P hash key ref A F w'"
    using w' by (auto simp: holding_def)
next
  fix w evs
  assume "holding g P hash key ref A F w"
  then show "holding g P hash key ref A F (w\<lparr>cur_script := evs\<rparr>)"
    using stable_phase.run_ok_script [OF assms(1)] by (simp add: holding_def)
qed


section \<open>Accepted replies\<close>

text \<open>What else an accepted reply changes: the queue of connections to acknowledge and their acknowledgment numbers.\<close>

lemma note_handshake_changes:
  assumes "note_handshake g q ack p = Some p'"
  shows "tcpACKReplies p' = map_option (\<lambda>qs. qs @ [q]) (tcpACKReplies p)"
    "tcpAcknowledgments p' = (tcpAcknowledgments p)[unat q := ack]" "Samples p' = Samples p"
  using assms
  by (cases "tcpACKReplies p"; auto simp: note_handshake_def store_ack_def set_ack_ready_def send_ack_reply_def
      count_handshake_def Let_def upd_opt_def bind_eq_Some_conv split: if_splits)+

lemma lenient_accepts:
  assumes wf: "wf_context g" and p: "probe_ok g p" "entry_ok g e p" "\<not> strict p"
    and f: "FulfillReply g r e p s = Some (True, e', p', s')"
  obtains q where "accepted_as g r q (e, p, s) (e', p', s')" "request_open g r p q" "expectedMinSeq e \<le> q"
    "q \<le> expectedMaxSeq e"
    "tcpACKReplies p' = (if TcpEstablishConnection g \<and> unat q < conns g then map_option (\<lambda>qs. qs @ [q]) (tcpACKReplies p)
       else tcpACKReplies p)"
proof -
  obtain q x where check: "lenient_check g r e p = Some (Inr (q, x))"
    and commit: "lenient_commit g r q x e p s = Some (True, e', p', s')"
    using p(3) f by (rule accepting_lenient)
  note c = lenient_check_acceptD [OF check]
  have sent: "sample_state (Samples p ! unat q) = SampleSent"
    using lenient_commit_dup [OF c(7)] commit by fastforce
  have "accepted_as g r q (e, p, s) (e', p', s')"
    using lenient_commit_ok [OF wf p(1,3,2) check sent, of s] commit by auto
  moreover have "request_open g r p q"
    using sent c(7-10) by (simp add: request_open_def)
  moreover have "tcpACKReplies p' = (if TcpEstablishConnection g \<and> unat q < conns g
      then map_option (\<lambda>qs. qs @ [q]) (tcpACKReplies p) else tcpACKReplies p)"
  proof (cases "TcpEstablishConnection g \<and> x = FlagsSynAck")
    case True
    then have small: "unat q < conns g" "GetConnectionIndex g q = q"
      using handshake_request(1) [OF wf _ c(4)] request_index_zero(2) [OF wf] by auto
    let ?p = "p\<lparr>Samples := (Samples p)[unat q := filled_sample r (Samples p ! unat q)]\<rparr>"
    have "note_handshake g q (r_tcpSeq r + 1) ?p = Some p'"
      using commit True small(2) c(7) sent by (auto simp: lenient_commit_def TryFill_sent bind_eq_Some_conv)
    from note_handshake_changes(1) [OF this] show ?thesis
      using True small(1) by simp
  next
    case False
    then have "\<not> (TcpEstablishConnection g \<and> unat q < conns g)"
      using handshake_request(1) [OF wf _ c(4)] by auto
    then show ?thesis
      using commit False c(7) sent by (auto simp: lenient_commit_def TryFill_sent)
  qed
  ultimately show thesis
    using that c(5,6) by blast
qed

lemma open_is_last:
  assumes "sent_received k m p" "k \<le> Suc m" "request_open g r p q"
  shows "unat q = m" "k = Suc m"
  using assms by (auto simp: sent_received_def request_open_def received_state not_le [symmetric]
      intro!: antisym dest: spec [of _ "unat q"])


section \<open>A host that answers\<close>

text \<open>
  What happens to the requests of a target: the base port, when each request is sent, the host's answer to it, when
  the prober acknowledges it, and when the final reset of each connection is sent.
\<close>

record answering =
  an_base :: u16
  an_sent :: "nat \<Rightarrow> int"
  an_reply :: "nat \<Rightarrow> reply"
  an_acked :: "nat \<Rightarrow> int"
  an_closed :: "nat \<Rightarrow> int"

text \<open>The prober acknowledges every handshake, and in the base measurement every answer with payload.\<close>

definition acknowledged :: "mctx \<Rightarrow> answering \<Rightarrow> nat \<Rightarrow> bool" where
  "acknowledged g h q \<longleftrightarrow>
     TcpEstablishConnection g \<and> (q < conns g \<or> strict_run g \<and> 0 < r_payloadLength (an_reply h q))"

text \<open>
  A request: it is sent, the answer arrives at its entry (a base measurement has one entry for all requests), the
  prober notices it, and acknowledges it. A run: all requests, the hand-over to the saver, the resets.
\<close>

definition answered_request :: "mctx \<Rightarrow> answering \<Rightarrow> nat \<Rightarrow> nat \<Rightarrow> event list" where
  "answered_request g h n0 q =
     sending (strict_run g) (an_sent h q)
   @ [Env (EvReply (if strict_run g then n0 else n0 + q) (an_reply h q)),
      Choose (if strict_run g then ReplyToken else EntryDone)]
   @ (if acknowledged g h q then sending (strict_run g) (an_acked h q) else [])"

definition answered_script :: "mctx \<Rightarrow> answering \<Rightarrow> nat \<Rightarrow> event list" where
  "answered_script g h n0 =
     concat (map (answered_request g h n0) [0..<full g]) @ [Choose SaveSlot]
   @ (if TcpEstablishConnection g then concat (map (\<lambda>c. sending False (an_closed h c)) [0..<conns g]) else [])"

text \<open>The next byte the host sends on connection \<open>c\<close> once it has answered the requests below \<open>n\<close>.\<close>

definition stream_next :: "mctx \<Rightarrow> answering \<Rightarrow> nat \<Rightarrow> nat \<Rightarrow> u32" where
  "stream_next g h n c =
     r_tcpSeq (an_reply h c) + 1
   + sum_list (map (\<lambda>k. ucast (r_payloadLength (an_reply h k))) (filter (\<lambda>k. k mod conns g = c) [0..<n]))"

text \<open>
  An answer mirrors its request, is in time and carries the flags the configuration demands. On the connections of a base
  measurement it is no reset, continues the byte stream, or, if it is empty, acknowledges within it.
\<close>

definition answer_ok :: "mctx \<Rightarrow> answering \<Rightarrow> nat \<Rightarrow> payload \<Rightarrow> bool" where
  "answer_ok g h q a \<longleftrightarrow>
     (let r = an_reply h q; x = expectedReplyFlags g FlagsDefault (of_nat q) in
        mirrors g (an_base h) (of_nat q) r a
      \<and> an_sent h q \<le> r_receiveTime r
      \<and> r_receiveTime r - an_sent h q \<le> Microseconds (MaximumToleratedRTT (Config g))
      \<and> (if strict_run g
         then base_flags_valid g x (r_flags r) a = Some True
            \<and> (TcpEstablishConnection g \<longrightarrow> \<not> set_contains (r_flags r) TCPFlagRST)
            \<and> (TcpEstablishConnection g \<and> conns g \<le> q \<longrightarrow>
                (let c = q mod conns g; start = r_tcpSeq (an_reply h c) + 1; next = stream_next g h q c in
                   if 0 < r_payloadLength r then r_tcpSeq r = next else r_tcpSeq r - start \<le> next - start))
         else flagsMatchPayload g x (r_flags r) a = Some True))"

definition good_answers :: "mctx \<Rightarrow> answering \<Rightarrow> bool" where
  "good_answers g h \<longleftrightarrow> (\<forall>q < full g. \<exists>a. answer_ok g h q a)"


section \<open>Sending and acknowledging in a stage\<close>

lemma run_ok_put: "run_ok g P hash key ref A w \<Longrightarrow> run_ok g P hash key ref A (put_on_wire src bytes w)"
  by (rule run_ok_cong, assumption) (auto simp: put_on_wire_def prober_counters_def)

lemma holding_put: "holding g P hash key ref A F w \<Longrightarrow> holding g P hash key ref A F (put_on_wire src bytes w)"
  by (simp add: holding_def run_ok_put)

lemma run_ok_mark:
  assumes w: "run_ok g P hash key ref A w" and q: "unat q < full g" "sendable P q P'"
  shows "\<exists>p. mark_sample (Some q) now (cur_probe w) = Some p \<and> run_ok g P' hash key ref A (w\<lparr>cur_probe := p\<rparr>)
    \<and> p = (cur_probe w)\<lparr>Samples := (Samples (cur_probe w))[unat q := MarkSent now (Samples (cur_probe w) ! unat q)]\<rparr>"
proof -
  let ?p = "cur_probe w"
  let ?p' = "?p\<lparr>Samples := (Samples ?p)[unat q := MarkSent now (Samples ?p ! unat q)]\<rparr>"
  have p: "probe_ok g ?p" "P ?p" "unat q < length (Samples ?p)"
    using w q(1) by (simp_all add: run_ok_defs probe_ok_def)
  then have new: "\<not> IsReceived (Samples ?p ! unat q)" "P' ?p'"
    using q(2) by (simp_all add: sendable_def)
  note m = mark_probe_ok [OF p(1,3) new(1) refl, of now]
  have "run_ok g P' hash key ref A (w\<lparr>cur_probe := ?p', cur_stats := cur_stats w\<rparr>)"
    using m new(2) by (intro run_ok_new_probe [OF w]) simp_all
  then have "run_ok g P' hash key ref A (w\<lparr>cur_probe := ?p'\<rparr>)"
    by (rule run_ok_cong) simp_all
  then show ?thesis
    using p(3) by (simp add: mark_sample_def)
qed

lemma send_request_delivers:
  assumes J: "lasts g hash key N (holding g P hash key ref A F)" and J': "lasts g hash key N (holding g P' hash key ref A F')"
    and F: "\<And>p es. F p es \<Longrightarrow> strict p = locked \<and> (locked \<longrightarrow> status p = probeActive)"
    and q: "unat q < full g" "sendable P q P'"
    and marked: "\<And>p es. \<lbrakk>probe_ok g p; P p; F p es\<rbrakk> \<Longrightarrow>
      F' (p\<lparr>Samples := (Samples p)[unat q := MarkSent now (Samples p ! unat q)]\<rparr>) es"
    and w: "stage N (holding g P hash key ref A F) (sending locked now @ xs) w"
  shows "delivers (send_request g hash key q w) (\<lambda>(ok, w'). ok \<and> stage N (holding g P' hash key ref A F') xs w')"
proof -
  have "unat q < length (cur_packets w)"
    using w q(1) by (simp add: holding_def run_ok_defs packets_ok_def)
  moreover have "delivers (sendPacket g hash key src bytes (Some q) True w)
      (\<lambda>(ok, w'). ok \<and> stage N (holding g P' hash key ref A F') xs w')" for src bytes
  proof (rule sendPacket_delivers [OF J J' _ _ holding_put w])
    fix w
    assume h: "holding g P hash key ref A F w"
    then show "if True then strict (cur_probe w) = locked \<and> (locked \<longrightarrow> status (cur_probe w) = probeActive) else \<not> locked"
      using F [of "cur_probe w" "cur_entries w"] by (simp add: holding_def)
    obtain p where "mark_sample (Some q) now (cur_probe w) = Some p" "run_ok g P' hash key ref A (w\<lparr>cur_probe := p\<rparr>)"
      "p = (cur_probe w)\<lparr>Samples := (Samples (cur_probe w))[unat q := MarkSent now (Samples (cur_probe w) ! unat q)]\<rparr>"
      using run_ok_mark [OF conjunct1 [OF h [unfolded holding_def]] q] by blast
    then show "\<exists>p. mark_sample (Some q) now (cur_probe w) = Some p \<and> holding g P' hash key ref A F' (w\<lparr>cur_probe := p\<rparr>)"
      using marked [of "cur_probe w" "cur_entries w"] h by (auto simp: holding_def run_ok_defs)
  qed
  ultimately show ?thesis
    by (simp add: send_request_def delivers_andThen delivers_or_crash)
qed

lemma flush_nothing: "\<lbrakk>tcpACKReplies (cur_probe w) = None \<or> tcpACKReplies (cur_probe w) = Some []\<rbrakk> \<Longrightarrow>
    flushTCPACKs g hash key w = Returns (True, w)"
  by (subst flushTCPACKs.simps) (auto simp: take_ack_def)

lemma flush_one_delivers:
  assumes P: "stable_phase g P" and J: "lasts g hash key N (holding g P hash key ref A F)"
    and F: "\<And>p es. F p es \<Longrightarrow> tcpACKReplies p = Some [] \<and> strict p = locked \<and> (locked \<longrightarrow> status p = probeActive)"
    and w: "run_ok g P hash key ref A w" "tcpACKReplies (cur_probe w) = Some [c]"
      "F ((cur_probe w)\<lparr>tcpACKReplies := Some []\<rparr>) (cur_entries w)" "follows N (sending locked now @ xs) (cur_script w)"
  shows "delivers (flushTCPACKs g hash key w) (\<lambda>(ok, w'). ok \<and> stage N (holding g P hash key ref A F) xs w')"
proof -
  have take: "take_ack w = Some (c, set_acks [] w)"
    using w(2) by (simp add: take_ack_def)
  note t = stable_phase.take_ack_ok [OF P w(1) take]
  obtain bytes where "ack_bytes g c (set_acks [] w) = Some bytes"
    using ack_bytes_some [OF run_ok_wf [OF w(1)] t(1) _ t(2)] t(3) by (auto simp: run_ok_def)
  moreover have "delivers (sendPacket g hash key src bytes None True (set_acks [] w))
      (\<lambda>(ok, w'). ok \<and> stage N (holding g P hash key ref A F) xs w')" for src bytes
  proof (rule sendPacket_delivers [OF J J _ _ holding_put])
    show "stage N (holding g P hash key ref A F) (sending locked now @ xs) (set_acks [] w)"
      using t(3) w(3,4) by (simp add: holding_def set_acks_def)
  qed (use F in \<open>auto simp: mark_sample_def holding_def\<close>)
  ultimately have sent: "delivers (tcpSendACK g hash key c (set_acks [] w))
      (\<lambda>(ok, w'). ok \<and> stage N (holding g P hash key ref A F) xs w')"
    by (simp add: tcpSendACK_def delivers_andThen delivers_or_crash)
  show ?thesis
    unfolding flushTCPACKs.simps [of g hash key w] take option.case prod.case delivers_andThen
    by (rule delivers_pair [OF sent]) (use F in \<open>auto simp: holding_def flush_nothing\<close>)
qed


section \<open>Lenient round-trip runs\<close>

text \<open>The entry of the request \<open>n\<close>, whatever the receivers have counted on it.\<close>

definition request_entry :: "mctx \<Rightarrow> answering \<Rightarrow> nat \<Rightarrow> entry \<Rightarrow> bool" where
  "request_entry g h n e \<longleftrightarrow>
     entry_covers g (an_base h) (of_nat n) e \<and> (TcpEstablishConnection g \<or> expectedFlags e = FlagsDefault)
   \<and> expectedCount e = 1 \<and> unat (expectedMaxSeq e) = n \<and> entry_Probe e = 0"

text \<open>
  Between two requests: \<open>n\<close> of them have had their entry, \<open>queue\<close> are the connections to acknowledge. While a request is
  open, only its entry accepts its answer.
\<close>

definition rt_between :: "mctx \<Rightarrow> nat \<Rightarrow> nat \<Rightarrow> u16 list option \<Rightarrow> probe \<Rightarrow> entry list \<Rightarrow> bool" where
  "rt_between g n0 n queue p es \<longleftrightarrow>
     \<not> strict p \<and> tcpACKReplies p = queue \<and> length es = n0 + n
   \<and> (\<forall>j < length es. entry_Probe (es ! j) = 0 \<longrightarrow> unat (expectedMaxSeq (es ! j)) < n)"

abbreviation empty_queue :: "mctx \<Rightarrow> u16 list option" where
  "empty_queue g \<equiv> if TcpEstablishConnection g then Some [] else None"

definition rt_open :: "mctx \<Rightarrow> answering \<Rightarrow> nat \<Rightarrow> nat \<Rightarrow> bool \<Rightarrow> probe \<Rightarrow> entry list \<Rightarrow> bool" where
  "rt_open g h n0 n b p es \<longleftrightarrow>
     \<not> strict p \<and> length es = Suc (n0 + n)
   \<and> (\<forall>j < n0 + n. entry_Probe (es ! j) = 0 \<longrightarrow> unat (expectedMaxSeq (es ! j)) < n)
   \<and> request_entry g h n (es ! (n0 + n))
   \<and> (IsReceived (Samples p ! n) \<longrightarrow> entry_done (es ! (n0 + n)))
   \<and> (b \<longrightarrow> sample_state (Samples p ! n) \<in> {SampleSent, SampleReceived})
   \<and> (sample_state (Samples p ! n) = SampleSent \<longrightarrow> SentTime (Samples p ! n) = an_sent h n)
   \<and> tcpACKReplies p = (if TcpEstablishConnection g
       then Some (if n < conns g \<and> IsReceived (Samples p ! n) then [of_nat n] else []) else None)"

lemma request_entry_count: "request_entry g h n e \<Longrightarrow> request_entry g h n (count_valid e)"
  by (simp add: request_entry_def entry_covers_def)

lemma count_valid_done:
  assumes "entry_ok g e p" "probe_ok g p" "expectedCount e = 1"
  shows "entry_done (count_valid e)"
proof -
  have "unat (validCount e) < 65536"
    using assms(1,2) received_count_le [of p] unat_u16_less [of "RequestCount g"]
    by (simp add: entry_ok_def probe_ok_def del: unat_u16_less)
  then have "unat (validCount e + 1) = Suc (unat (validCount e))"
    by (subst unat_add_no_wrap) simp_all
  then show ?thesis
    using assms(3) by (simp add: count_valid_def Let_def word_le_nat_alt)
qed

lemma rt_open_accept:
  assumes wf: "wf_context g" "probe_ok g p" and P: "sent_received k m p" "k \<le> Suc m" "k = Suc m \<Longrightarrow> m = n"
    and F: "rt_open g h n0 n b p es" and j: "j < length es" "entry_Probe (es ! j) = 0" "entry_ok g (es ! j) p"
    and f: "FulfillReply g r (es ! j) p s = Some (True, e', p', s')"
  shows "rt_open g h n0 n b p' (es[j := e']) \<and> IsReceived (Samples p' ! n)"
proof -
  have p: "\<not> strict p" using F by (simp add: rt_open_def)
  obtain q where q: "accepted_as g r q (es ! j, p, s) (e', p', s')" "request_open g r p q" "q \<le> expectedMaxSeq (es ! j)"
    "tcpACKReplies p' = (if TcpEstablishConnection g \<and> unat q < conns g then map_option (\<lambda>qs. qs @ [q]) (tcpACKReplies p)
       else tcpACKReplies p)"
    using wf(1,2) j(3) p f by (rule lenient_accepts)
  have n: "unat q = n" using open_is_last [OF P(1,2) q(2)] P(3) by simp
  then have qn: "q = of_nat n" by (metis of_nat_unat ucast_id)
  have len: "n < length (Samples p)" and sent: "sample_state (Samples p ! n) = SampleSent"
    using q(2) n by (simp_all add: request_open_def)
  have "n \<le> unat (expectedMaxSeq (es ! j))" using q(3) n by (simp add: word_le_nat_alt)
  then have ji: "j = n0 + n" using F j(1,2) by (force simp: rt_open_def less_Suc_eq)
  have e: "request_entry g h n (es ! j)" using F ji by (simp add: rt_open_def)
  then have "entry_done (count_valid (es ! j))"
    by (intro count_valid_done [OF j(3) wf(2)]) (simp add: request_entry_def)
  moreover have "Samples p' ! n = reply_sample r p q" "e' = count_valid (es ! j)" "strict p' = strict p"
    using q(1) n len by (simp_all add: accepted_as_def)
  moreover have "\<not> IsReceived (Samples p ! n)" using sent by (simp add: IsReceived_def)
  moreover have "sample_state (reply_sample r p q) = SampleReceived"
    using reply_sample_received [of r p q] by (simp add: IsReceived_def)
  ultimately show ?thesis
    using F ji q(4) n qn request_entry_count [OF e]
    by (auto simp: rt_open_def nth_list_update)
qed

lemma rt_open_lasts:
  assumes "k \<le> Suc m" "k = Suc m \<Longrightarrow> m = n"
  shows "lasts g hash key (tolerated g n1) (holding g (sent_received k m) hash key ref A (rt_open g h n0 n b))"
proof (rule holding_lenient_lasts [OF plain_phase.stable_phase_axioms])
  show "rt_open g h n0 n b p es \<Longrightarrow> \<not> strict p" for p es by (simp add: rt_open_def)
qed (use rt_open_accept [OF _ _ _ assms] in blast)

lemma rt_between_lasts:
  "lasts g hash key (tolerated g n1) (holding g (sent_received n n) hash key ref A (rt_between g n0 m queue))"
proof (rule holding_lenient_lasts [OF plain_phase.stable_phase_axioms])
  show "rt_between g n0 m queue p es \<Longrightarrow> \<not> strict p" for p es by (simp add: rt_between_def)
  fix p es j r e' p' s s'
  assume p: "wf_context g" "probe_ok g p" "sent_received n n p" "rt_between g n0 m queue p es" "entry_ok g (es ! j) p"
    "FulfillReply g r (es ! j) p s = Some (True, e', p', s')"
  then have "\<not> strict p" by (simp add: rt_between_def)
  with p(1,2,5) obtain q where "request_open g r p q"
    using p(6) by (rule lenient_accepts)
  then show "rt_between g n0 m queue p' (es[j := e'])"
    using open_is_last(2) [OF p(3)] by fastforce
qed

text \<open>The answer to the open request closes its entry, if no other reply has done so before.\<close>

lemma answer_closes:
  assumes lenient: "\<not> strict_run g" and good: "good_answers g h" "n < full g" and port: "unat (an_base h) + conns g \<le> 65536"
    and w: "holding g (sent_received (Suc n) n) hash key ref A (rt_open g h n0 n True) w"
  shows "\<exists>w'. env_step g hash key (EvReply (n0 + n) (an_reply h n)) w = Some w'
    \<and> holding g (sent_received (Suc n) (Suc n)) hash key ref A (rt_open g h n0 n True) w'"
proof -
  let ?p = "cur_probe w" and ?e = "cur_entries w ! (n0 + n)" and ?r = "an_reply h n" and ?q = "of_nat n :: u16"
  have run: "run_ok g (sent_received (Suc n) n) hash key ref A w" and F: "rt_open g h n0 n True ?p (cur_entries w)"
    using w(1) by (simp_all add: holding_def)
  have own: "own w (n0 + n)" using F by (simp add: rt_open_def request_entry_def)
  have ok: "wf_context g" "probe_ok g ?p" "entry_ok g ?e ?p" "sent_received (Suc n) n ?p"
    using run own by (auto simp: run_ok_defs)
  have len: "n < length (Samples ?p)" and q: "unat ?q = n"
    using ok(2) good(2) by (simp_all add: probe_ok_def unat_request_number)
  obtain b e' p' s' where f: "FulfillReply g ?r ?e ?p (cur_stats w) = Some (b, e', p', s')"
    using FulfillReply_ok [OF ok(1-3)] by blast
  define w' where "w' = w\<lparr>cur_probe := p', cur_entries := (cur_entries w)[n0 + n := e'], cur_stats := s'\<rparr>"
  have step: "env_step g hash key (EvReply (n0 + n) ?r) w = Some w'"
    using own f by (simp add: env_step_def reply_event_def w'_def)
  have run': "run_ok g (sent_received (Suc n) n) hash key ref A w'"
    using plain_phase.run_ok_env [OF run] step by (metis option.inject)
  have received: "IsReceived (Samples p' ! n) \<and> rt_open g h n0 n True p' ((cur_entries w)[n0 + n := e'])"
  proof (cases b)
    case True
    then show ?thesis
      using rt_open_accept [OF ok(1,2,4) le_refl refl F _ _ ok(3)] own f by simp
  next
    case False
    then have same: "e' = ?e" "p' = ?p"
      using dropped_reply(1,2) [OF ok(1-3)] f F by (auto simp: rt_open_def)
    obtain a where a: "answer_ok g h n a" using good by (auto simp: good_answers_def)
    have "IsReceived (Samples ?p ! n)"
    proof (rule ccontr)
      assume "\<not> IsReceived (Samples ?p ! n)"
      then have sent: "sample_state (Samples ?p ! n) = SampleSent"
        using F by (simp add: rt_open_def IsReceived_def)
      then have o: "request_open g ?r ?p ?q"
        using a F len q by (simp add: request_open_def answer_ok_def rt_open_def Let_def)
      have "segment_as_demanded g ?p ?q ?r a"
        using a lenient F by (simp add: segment_as_demanded_def answer_ok_def rt_open_def Let_def)
      then have "\<exists>e' p' s'. FulfillReply g ?r ?e ?p (cur_stats w) = Some (True, e', p', s')"
        using covered_reply_accepted [OF ok(1-3) port _ _ _ _ o, of a "cur_stats w"] a F
        by (auto simp: rt_open_def request_entry_def answer_ok_def Let_def)
      then show False using f False by simp
    qed
    then show ?thesis using same F own by simp
  qed
  then have "sent_received (Suc n) (Suc n) p'"
    using run' by (auto simp: run_ok_def w'_def sent_received_def less_Suc_eq)
  then show ?thesis
    using step run' received by (auto simp: holding_def w'_def elim: run_ok_weaken)
qed


text \<open>Registering the entry of a request, and preparing its packet.\<close>

lemma register_entry:
  assumes "run_ok g P hash key ref {} w" "register hash key e w = (i, w')"
  shows "i = length (cur_entries w)" "cur_entries w' ! i = e" "length (cur_entries w') = Suc i"
    "cur_script w' = cur_script w" "cur_probe w' = cur_probe w"
    "j < i \<Longrightarrow> entry_Probe (cur_entries w' ! j) = entry_Probe (cur_entries w ! j)"
    "j < i \<Longrightarrow> expectedMaxSeq (cur_entries w' ! j) = expectedMaxSeq (cur_entries w ! j)"
proof -
  let ?n = "length (cur_entries w)"
  have prev: "Lookup hash (cur_registry w) key = Some k \<Longrightarrow> k < ?n" for k
    using assms(1) by (auto simp: run_ok_defs)
  have max: "expectedMaxSeq (mark_done_at k es ! j) = expectedMaxSeq (es ! j)" for k es
    by (cases "k = j") (auto simp: mark_done_at_def markDone_def nth_list_update)
  show i: "i = ?n"
    using assms(2) by (auto simp: register_def Let_def split: prod.splits)
  show "cur_entries w' ! i = e" "length (cur_entries w') = Suc i"
    "cur_script w' = cur_script w" "cur_probe w' = cur_probe w"
    "j < i \<Longrightarrow> entry_Probe (cur_entries w' ! j) = entry_Probe (cur_entries w ! j)"
    "j < i \<Longrightarrow> expectedMaxSeq (cur_entries w' ! j) = expectedMaxSeq (cur_entries w ! j)"
    using assms(2) prev mark_done_at_other [of ?n]
    by (auto simp: register_def Register_def Let_def Lookup_def max nth_append split: option.splits)
qed

lemma register_opens:
  assumes w: "holding g (sent_received n n) hash key ref {} (rt_between g n0 n (empty_queue g)) w" and n: "n < full g"
    and x: "TcpEstablishConnection g \<or> x = FlagsDefault"
    and reg: "register hash key (rt_entry g 0 (of_nat n) (an_base h) x) w = (i, w1)"
  shows "i = n0 + n" "holding g (sent_received n n) hash key ref {i} (rt_open g h n0 n False) w1" "cur_script w1 = cur_script w"
proof -
  let ?e = "rt_entry g 0 (of_nat n) (an_base h) x"
  have run: "run_ok g (sent_received n n) hash key ref {} w" and F: "rt_between g n0 n (empty_queue g) (cur_probe w) (cur_entries w)"
    using w by (simp_all add: holding_def)
  note re = register_entry [OF run reg]
  have q: "unat (of_nat n :: u16) = n" using n by (rule unat_request_number)
  show i: "i = n0 + n" using re(1) F by (simp add: rt_between_def)
  show "cur_script w1 = cur_script w" by (rule re(4))
  have "run_ok g (sent_received n n) hash key ref {i} w1"
    using register_ok(1) [OF run _ _ reg] n q by (simp add: rt_entry_ok)
  moreover have "sample_state (Samples (cur_probe w) ! n) = SampleEmpty"
    using run n by (simp add: run_ok_defs sent_received_def probe_ok_def)
  moreover have "request_entry g h n ?e"
    using x q rt_entry_covers [of g "an_base h" "of_nat n" 0 x]
    by (simp add: request_entry_def) (simp add: rt_entry_def Let_def)
  ultimately show "holding g (sent_received n n) hash key ref {i} (rt_open g h n0 n False) w1"
    using F i re by (simp add: holding_def rt_open_def rt_between_def IsReceived_def)
qed

lemma prepare_ready:
  assumes P: "stable_phase g P" and w: "run_ok g P hash key ref A w" "sent_received n n (cur_probe w)" and n: "n < full g"
  shows "\<exists>w'. prepareTCPPacket g (of_nat n) w = Some (True, w') \<and> run_ok g P hash key ref A w' \<and> cur_probe w' = cur_probe w
    \<and> cur_entries w' = cur_entries w \<and> cur_script w' = cur_script w"
proof -
  let ?q = "of_nat n :: u16" and ?p = "cur_probe w"
  have q: "unat ?q = n" "unat ?q < full g" using n by (simp_all add: unat_request_number)
  obtain b w' where prep: "prepareTCPPacket g ?q w = Some (b, w')" "run_ok g P hash key ref A w'"
    using stable_phase.prepare_ok [OF P w(1) q(2)] by blast
  have "tcpAckReady ?p ! unat (GetConnectionIndex g ?q)" if "TcpEstablishConnection g" "GetRequestIndex g ?q \<noteq> 0"
  proof -
    have wf: "wf_context g" and p: "probe_ok g ?p" using w(1) by (simp_all add: run_ok_defs)
    have "unat (GetConnectionIndex g ?q) < conns g" "\<not> n < conns g"
      using request_index_zero [OF wf that(1), of ?q] that(2) q(1) by simp_all
    then have "IsReceived (Samples ?p ! unat (GetConnectionIndex g ?q))"
      using w(2) n p by (simp add: sent_received_def probe_ok_def)
    then show ?thesis
      using p that(1) \<open>unat (GetConnectionIndex g ?q) < conns g\<close> by (simp add: probe_ok_def tcp_ok_def)
  qed
  then show ?thesis
    using prep by (auto simp: prepareTCPPacket_def Let_def bind_eq_Some_conv nth_opt_Some_iff split: if_splits)
qed

text \<open>Sending the open request.\<close>

lemma open_request_sent:
  assumes n: "n < full g" and w: "stage (tolerated g n1) (holding g (sent_received n n) hash key ref A (rt_open g h n0 n False))
      (sending False (an_sent h n) @ xs) w"
  shows "delivers (send_request g hash key (of_nat n) w) (\<lambda>(ok, w'). ok
    \<and> stage (tolerated g n1) (holding g (sent_received (Suc n) n) hash key ref A (rt_open g h n0 n True)) xs w')"
proof (rule send_request_delivers [OF _ _ _ _ _ _ w])
  have q: "unat (of_nat n :: u16) = n" using n by (rule unat_request_number)
  show "unat (of_nat n :: u16) < full g" "sendable (sent_received n n) (of_nat n) (sent_received (Suc n) n)"
    using q n by (simp_all add: sendable_plain)
  fix p es
  assume p: "probe_ok g p" "sent_received n n p" "rt_open g h n0 n False p es"
  then have "sample_state (Samples p ! n) = SampleEmpty"
    using n by (simp add: sent_received_def probe_ok_def)
  then show "rt_open g h n0 n True (p\<lparr>Samples := (Samples p)[unat (of_nat n :: u16) :=
      MarkSent (an_sent h n) (Samples p ! unat (of_nat n :: u16))]\<rparr>) es"
    using n q p(1,3) by (auto simp: rt_open_def probe_ok_def MarkSent_def IsReceived_def)
qed (auto simp: rt_open_lasts, simp add: rt_open_def)


text \<open>One request: sent, answered, and the prober notices that its entry is done.\<close>

lemma request_answered:
  assumes lenient: "\<not> strict_run g" and good: "good_answers g h" "n < full g" and port: "unat (an_base h) + conns g \<le> 65536"
    and w: "stage (tolerated g n0) (holding g (sent_received n n) hash key ref {n0 + n} (rt_open g h n0 n False))
      (sending False (an_sent h n) @ Env (EvReply (n0 + n) (an_reply h n)) # Choose EntryDone # xs) w"
  shows "delivers (send_request g hash key (of_nat n) w) (\<lambda>(ok, w1). ok
    \<and> delivers (await g hash key w1) (\<lambda>(b, w2). b = EntryDone \<and> entry_done (cur_entries w2 ! (n0 + n))
        \<and> stage (tolerated g n0) (holding g (sent_received (Suc n) (Suc n)) hash key ref {n0 + n} (rt_open g h n0 n True)) xs w2))"
proof (rule delivers_pair [OF open_request_sent [OF good(2) w]], elim conjE, unfold prod.case, intro conjI, assumption)
  fix w1
  assume w1: "holding g (sent_received (Suc n) n) hash key ref {n0 + n} (rt_open g h n0 n True) w1"
    "follows (tolerated g n0) (Env (EvReply (n0 + n) (an_reply h n)) # Choose EntryDone # xs) (cur_script w1)"
  have "delivers (await g hash key w1) (\<lambda>(b, w2). b = EntryDone
      \<and> stage (tolerated g n0) (holding g (sent_received (Suc n) (Suc n)) hash key ref {n0 + n} (rt_open g h n0 n True)) xs w2)"
    by (rule await_event [OF rt_open_lasts rt_open_lasts answer_closes [OF lenient good port]]) (use w1 in simp_all)
  then show "delivers (await g hash key w1) (\<lambda>(b, w2). b = EntryDone \<and> entry_done (cur_entries w2 ! (n0 + n))
      \<and> stage (tolerated g n0) (holding g (sent_received (Suc n) (Suc n)) hash key ref {n0 + n} (rt_open g h n0 n True)) xs w2)"
    by (rule delivers_mono)
       (use good(2) in \<open>auto simp: holding_def run_ok_defs sent_received_def probe_ok_def rt_open_def\<close>)
qed

lemma open_received:
  assumes w: "holding g (sent_received (Suc n) (Suc n)) hash key ref A (rt_open g h n0 n True) w" and n: "n < full g"
  shows "rt_between g n0 (Suc n) (tcpACKReplies (cur_probe w)) (cur_probe w) (cur_entries w)"
    "tcpACKReplies (cur_probe w) = (if TcpEstablishConnection g then Some (if n < conns g then [of_nat n] else []) else None)"
    "IsReceived (Samples (cur_probe w) ! n)"
proof -
  show r: "IsReceived (Samples (cur_probe w) ! n)"
    using w n by (simp add: holding_def run_ok_defs sent_received_def probe_ok_def)
  show "rt_between g n0 (Suc n) (tcpACKReplies (cur_probe w)) (cur_probe w) (cur_entries w)"
    using w by (auto simp: holding_def rt_open_def rt_between_def request_entry_def less_Suc_eq)
  show "tcpACKReplies (cur_probe w) = (if TcpEstablishConnection g then Some (if n < conns g then [of_nat n] else []) else None)"
    using w r by (simp add: holding_def rt_open_def)
qed

lemma round_flushed:
  assumes lenient: "\<not> strict_run g" and n: "n < full g"
    and w: "stage (tolerated g n1) (holding g (sent_received (Suc n) (Suc n)) hash key ref A (rt_open g h n0 n True))
      ((if acknowledged g h n then sending False (an_acked h n) else []) @ xs) w"
  shows "delivers (flushTCPACKs g hash key w) (\<lambda>(ok, w'). ok
    \<and> stage (tolerated g n1) (holding g (sent_received (Suc n) (Suc n)) hash key ref A (rt_between g n0 (Suc n) (empty_queue g))) xs w')"
proof -
  have run: "run_ok g (sent_received (Suc n) (Suc n)) hash key ref A w" using w by (simp add: holding_def)
  note o = open_received [OF conjunct1 [OF w] n]
  show ?thesis
  proof (cases "acknowledged g h n")
    case True
    then have t: "TcpEstablishConnection g" "n < conns g" using lenient by (simp_all add: acknowledged_def)
    have "delivers (flushTCPACKs g hash key w) (\<lambda>(ok, w'). ok
      \<and> stage (tolerated g n1) (holding g (sent_received (Suc n) (Suc n)) hash key ref A (rt_between g n0 (Suc n) (Some []))) xs w')"
    proof (rule flush_one_delivers [OF plain_phase.stable_phase_axioms rt_between_lasts _ run])
      show "follows (tolerated g n1) (sending False (an_acked h n) @ xs) (cur_script w)"
        using w True by simp
      show "rt_between g n0 (Suc n) (Some []) p es \<Longrightarrow>
          tcpACKReplies p = Some [] \<and> strict p = False \<and> (False \<longrightarrow> status p = probeActive)" for p es
        by (simp add: rt_between_def)
    qed (use o t in \<open>simp_all add: rt_between_def\<close>)
    then show ?thesis using t(1) by simp
  next
    case False
    then have "tcpACKReplies (cur_probe w) = empty_queue g"
      using o(2) by (auto simp: acknowledged_def)
    then show ?thesis
      using o w False run by (simp add: flush_nothing holding_def)
  qed
qed

lemma round_left:
  assumes "stage N (holding g P hash key ref {i} (rt_between g n0 n queue)) xs w"
  shows "stage N (holding g P hash key ref {} (rt_between g n0 n queue)) xs (count_event (ProbesReachedSeq q) (deregister hash key i w))"
    and "stage N (holding g P hash key ref {} (rt_between g n0 n queue)) xs (deregister hash key i (count_event (ProbesReachedSeq q) w))"
  using assms run_ok_count [of g P hash key ref "{}" "deregister hash key i w"] run_ok_count [of g P hash key ref "{i}" w]
  by (auto simp: holding_def deregister_ok) (simp_all add: count_event_def deregister_def)


text \<open>All requests, of a single protocol and of several.\<close>

abbreviation answers_from :: "mctx \<Rightarrow> answering \<Rightarrow> nat \<Rightarrow> nat \<Rightarrow> event list" where
  "answers_from g h n0 n \<equiv> concat (map (answered_request g h n0) [n..<full g])"

lemma answers_from_step:
  "n < full g \<Longrightarrow> answers_from g h n0 n = answered_request g h n0 n @ answers_from g h n0 (Suc n)"
  by (simp add: upt_conv_Cons)

lemma lenient_answers_step:
  "\<lbrakk>\<not> strict_run g; n < full g\<rbrakk> \<Longrightarrow> answers_from g h n0 n @ xs =
     sending False (an_sent h n) @ Env (EvReply (n0 + n) (an_reply h n)) # Choose EntryDone
     # ((if acknowledged g h n then sending False (an_acked h n) else []) @ answers_from g h n0 (Suc n) @ xs)"
  unfolding answers_from_step [of n] by (simp add: answered_request_def [of g h n0 n])

abbreviation rt_stage where
  "rt_stage g n0 hash key ref n xs \<equiv>
     stage (tolerated g n0) (holding g (sent_received n n) hash key ref {} (rt_between g n0 n (empty_queue g))) xs"

lemma rt_loop_delivers:
  assumes lenient: "\<not> strict_run g" and good: "good_answers g h" and port: "unat (an_base h) + conns g \<le> 65536"
    and "n \<le> full g"
  shows "rt_stage g n0 hash key ref n (answers_from g h n0 n @ xs) w \<Longrightarrow>
    delivers (rt_loop g hash key (an_base h) (requests_from g n) w) (\<lambda>(ok, w'). ok \<and> rt_stage g n0 hash key ref (full g) xs w')"
  using assms(4)
proof (induction arbitrary: w rule: inc_induct)
  case (step n)
  let ?q = "of_nat n :: u16" and ?rest = "answers_from g h n0 (Suc n) @ xs"
  have n: "n < full g" and q: "unat ?q = n" using step.hyps by (simp_all add: unat_request_number)
  obtain i w1 where reg: "register hash key (rt_entry g 0 ?q (an_base h) (rt_flags g ?q)) w = (i, w1)"
    by (cases "register hash key (rt_entry g 0 ?q (an_base h) (rt_flags g ?q)) w")
  have "TcpEstablishConnection g \<or> rt_flags g ?q = FlagsDefault" by (simp add: rt_flags_def)
  from register_opens [OF conjunct1 [OF step.prems] n this reg]
  have i: "i = n0 + n" and w1: "holding g (sent_received n n) hash key ref {n0 + n} (rt_open g h n0 n False) w1"
    "cur_script w1 = cur_script w" by simp_all
  obtain w2 where prep: "prepareTCPPacket g ?q w1 = Some (True, w2)"
    "run_ok g (sent_received n n) hash key ref {n0 + n} w2" "cur_probe w2 = cur_probe w1" "cur_entries w2 = cur_entries w1"
    "cur_script w2 = cur_script w1"
    using prepare_ready [OF plain_phase.stable_phase_axioms, of g n n hash key ref "{n0 + n}" w1 n] w1(1) n
    by (auto simp: holding_def run_ok_def)
  have w2: "stage (tolerated g n0) (holding g (sent_received n n) hash key ref {n0 + n} (rt_open g h n0 n False))
      (sending False (an_sent h n) @ Env (EvReply (n0 + n) (an_reply h n)) # Choose EntryDone
        # ((if acknowledged g h n then sending False (an_acked h n) else []) @ ?rest)) w2"
    using w1 prep(2-5) step.prems unfolding lenient_answers_step [OF lenient n] by (simp add: holding_def)
  obtain w3 where w3: "send_request g hash key ?q w2 = Returns (True, w3)"
    and noticed: "delivers (await g hash key w3) (\<lambda>(b, w). b = EntryDone \<and> entry_done (cur_entries w ! (n0 + n))
        \<and> stage (tolerated g n0) (holding g (sent_received (Suc n) (Suc n)) hash key ref {n0 + n} (rt_open g h n0 n True))
             ((if acknowledged g h n then sending False (an_acked h n) else []) @ ?rest) w)"
    using request_answered [OF lenient good n port w2] by (auto elim!: deliversE)
  obtain w4 where w4: "await g hash key w3 = Returns (EntryDone, w4)" "entry_done (cur_entries w4 ! i)"
    "stage (tolerated g n0) (holding g (sent_received (Suc n) (Suc n)) hash key ref {n0 + n} (rt_open g h n0 n True))
       ((if acknowledged g h n then sending False (an_acked h n) else []) @ ?rest) w4"
    using noticed i by (auto elim!: deliversE)
  obtain w5 where w5: "flushTCPACKs g hash key w4 = Returns (True, w5)"
    "stage (tolerated g n0) (holding g (sent_received (Suc n) (Suc n)) hash key ref {i} (rt_between g n0 (Suc n) (empty_queue g))) ?rest w5"
    using round_flushed [OF lenient n w4(3)] i by (auto elim!: deliversE)
  have "nth_opt (Samples (cur_probe (deregister hash key i w5))) n = Some (Samples (cur_probe w5) ! n)"
    "IsReceived (Samples (cur_probe w5) ! n)"
    using w5(2) n by (simp_all add: deregister_def nth_opt_def holding_def run_ok_defs sent_received_def probe_ok_def)
  with step.IH [OF round_left(1) [OF w5(2)]] show ?case
    by (simp add: requests_from_step [OF n] reg prep(1) w3 w4(1,2) w5(1) q or_crash_Some Let_def)
qed simp


lemma inter_loop_delivers:
  assumes inter: "IsInterProtocol g" and wf: "wf_context g"
    and good: "good_answers g h" and port: "unat (an_base h) + conns g \<le> 65536" and "n \<le> full g"
  shows "rt_stage g n0 hash key ref n (answers_from g h n0 n @ xs) w \<Longrightarrow>
    delivers (inter_loop g hash key (an_base h) (requests_from g n) w) (\<lambda>(ok, w'). ok \<and> rt_stage g n0 hash key ref (full g) xs w')"
  using assms(5)
proof (induction arbitrary: w rule: inc_induct)
  case (step n)
  let ?q = "of_nat n :: u16" and ?rest = "answers_from g h n0 (Suc n) @ xs"
  have n: "n < full g" using step.hyps by simp
  have lenient: "\<not> strict_run g" and no_tcp: "\<not> TcpEstablishConnection g"
    using inter wf by (auto simp: strict_run_def wf_context_def)
  obtain i w1 where reg: "register hash key (rt_entry g 0 ?q (an_base h) FlagsDefault) w = (i, w1)"
    by (cases "register hash key (rt_entry g 0 ?q (an_base h) FlagsDefault) w")
  from register_opens [OF conjunct1 [OF step.prems] n _ reg]
  have i: "i = n0 + n" and w1: "holding g (sent_received n n) hash key ref {n0 + n} (rt_open g h n0 n False) w1"
    "cur_script w1 = cur_script w" by simp_all
  have w1': "stage (tolerated g n0) (holding g (sent_received n n) hash key ref {n0 + n} (rt_open g h n0 n False))
      (sending False (an_sent h n) @ Env (EvReply (n0 + n) (an_reply h n)) # Choose EntryDone # ?rest) w1"
    using w1 step.prems no_tcp unfolding lenient_answers_step [OF lenient n] by (simp add: acknowledged_def)
  obtain w3 where w3: "send_request g hash key ?q w1 = Returns (True, w3)"
    and noticed: "delivers (await g hash key w3) (\<lambda>(b, w). b = EntryDone \<and> entry_done (cur_entries w ! (n0 + n))
        \<and> stage (tolerated g n0) (holding g (sent_received (Suc n) (Suc n)) hash key ref {n0 + n} (rt_open g h n0 n True)) ?rest w)"
    using request_answered [OF lenient good n port w1'] by (auto elim!: deliversE)
  obtain w4 where w4: "await g hash key w3 = Returns (EntryDone, w4)" "entry_done (cur_entries w4 ! i)"
    "stage (tolerated g n0) (holding g (sent_received (Suc n) (Suc n)) hash key ref {n0 + n} (rt_open g h n0 n True)) ?rest w4"
    using noticed i by (auto elim!: deliversE)
  have "stage (tolerated g n0) (holding g (sent_received (Suc n) (Suc n)) hash key ref {i} (rt_between g n0 (Suc n) (empty_queue g))) ?rest w4"
    using w4(3) open_received(1,2) [OF conjunct1 [OF w4(3)] n] no_tcp i by (simp add: holding_def)
  from step.IH [OF round_left(2) [OF this]] show ?case
    by (simp add: requests_from_step [OF n] reg w3 w4(1,2) Let_def)
qed simp


section \<open>Handing over\<close>

lemma save_select_delivers:
  assumes J: "lasts g hash key N J" and w: "stage N J (Choose SaveSlot # xs) w"
  shows "delivers (save_select g hash key interrupt w) (\<lambda>(ok, w'). ok \<and> (\<exists>w1. stage N J xs w1
    \<and> w' = count_event ValidProbes (w1\<lparr>cur_saved := cur_saved w1 @ [cur_probe w1]\<rparr>)))"
  using await_branch [OF J w] by (auto simp: save_select_def delivers_andThen elim!: deliversE)

end
