(* ===== verification/Answered_Base.thy ===== *)
theory Answered_Base
  imports Answered
begin

text \<open>
  Total correctness of the base measurement against a host that answers. A strict probe goes through three stages per
  request: nothing under way, sent, answered. Besides the samples, the stages carry the state of the connections, which
  decides whether the next answer is taken for a part of the byte stream.
\<close>

section \<open>An answer to a strict probe\<close>

lemma strict_accepts:
  assumes wf: "wf_context g" and p: "probe_ok g p" "strict p" "status p = probeActive" and e: "entry_ok g e p"
    and check: "base_check g r e p = Some (Inr (q, x))"
  shows "\<exists>e' p' s'. FulfillReply g r e p s = Some (True, e', p', s') \<and> accepted_as g r q (e, p, s) (e', p', s')
    \<and> (let acks = TcpEstablishConnection g \<and> (unat q < conns g \<or> 0 < r_payloadLength r);
           c = GetConnectionIndex g q;
           next = r_tcpSeq r + (if unat q < conns g then 1 else 0) + ucast (r_payloadLength r)
       in tcpACKReplies p' = (if acks then map_option (\<lambda>qs. qs @ [c]) (tcpACKReplies p) else tcpACKReplies p)
        \<and> tcpAcknowledgments p' = (if acks then (tcpAcknowledgments p)[unat c := next] else tcpAcknowledgments p))"
proof -
  note c = base_check_acceptD [OF check]
  obtain e' p' s' where f: "base_commit g r q x e p s = Some (True, e', p', s')"
    "accepted_as g r q (e, p, s) (e', p', s')"
    using base_commit_ok [OF wf p e check, of s] by blast
  have full: "FulfillReply g r e p s = Some (True, e', p', s')"
    using p(2,3) check f(1) by (simp add: FulfillReply_def fulfillBaseReply_def)
  let ?old = "(Samples p ! unat q)\<lparr>tcpSequence := r_tcpSeq r\<rparr>"
  let ?p = "p\<lparr>Samples := (Samples p)[unat q := filled_sample r ?old]\<rparr>"
  have fills: "TryFill (r_ipID r) (r_receiveTime r) (r_dontFragment r) ?old = (True, filled_sample r ?old)"
    using c(6) by (intro TryFill_sent) simp
  have ready: "tcpACKReplies (note_reply_ready g p) = tcpACKReplies p"
    "tcpAcknowledgments (note_reply_ready g p) = tcpAcknowledgments p" for p
    by (simp_all add: note_reply_ready_def)
  have queue: "\<exists>qs. tcpACKReplies p = Some qs" if "TcpEstablishConnection g"
    using p(1) that by (auto simp: probe_ok_def tcp_ok_def)
  show ?thesis
  proof (cases "TcpEstablishConnection g \<and> x = FlagsSynAck")
    case True
    then have small: "unat q < conns g"
      using handshake_request(1) [OF wf _ c(5)] by simp
    obtain p1 where p1: "note_handshake g (GetConnectionIndex g q) (r_tcpSeq r + 1 + ucast (r_payloadLength r)) ?p = Some p1"
      "p' = note_reply_ready g p1"
      using f(1) True c(2) fills by (auto simp: base_commit_def Let_def bind_eq_Some_conv)
    from note_handshake_changes(1,2) [OF p1(1)] show ?thesis
      using full f(2) True small ready p1(2) by (auto simp: Let_def)
  next
    case False
    then have large: "\<not> unat q < conns g" if "TcpEstablishConnection g"
      using handshake_request(1) [OF wf that c(5)] that by simp
    show ?thesis
    proof (cases "TcpEstablishConnection g \<and> 0 < r_payloadLength r")
      case True
      then show ?thesis
        using full f c(2) fills False large ready queue
        by (auto simp: base_commit_def Let_def bind_eq_Some_conv store_ack_def upd_opt_def send_ack_reply_def
            split: if_splits)
    next
      case no_data: False
      then have "p' = note_reply_ready g ?p"
        using f(1) c(2) fills False by (auto simp: base_commit_def Let_def)
      then show ?thesis
        using full f(2) no_data large ready by (auto simp: Let_def)
    qed
  qed
qed

lemma stream_next_step:
  "stream_next g h (Suc n) c = stream_next g h n c + (if n mod conns g = c then ucast (r_payloadLength (an_reply h n)) else 0)"
  by (simp add: stream_next_def)

lemma stream_next_start:
  assumes "c < conns g" shows "stream_next g h c c = r_tcpSeq (an_reply h c) + 1"
proof -
  have "filter (\<lambda>k. k mod conns g = c) [0..<c] = []" using assms by (auto simp: filter_empty_conv)
  then show ?thesis by (simp add: stream_next_def)
qed


section \<open>The stages\<close>

text \<open>What an answered request leaves in its sample.\<close>

definition sample_answers :: "answering \<Rightarrow> nat \<Rightarrow> sample \<Rightarrow> bool" where
  "sample_answers h k s \<longleftrightarrow>
     IsReceived s \<and> SentTime s = an_sent h k \<and> ReceiveTime s = r_receiveTime (an_reply h k)
   \<and> IpID s = r_ipID (an_reply h k) \<and> DontFragment s = r_dontFragment (an_reply h k)
   \<and> tcpSequence s = r_tcpSeq (an_reply h k)"

text \<open>The entry of the whole probe, whatever has been counted on it, is the only one of the probe.\<close>

definition base_entry :: "mctx \<Rightarrow> answering \<Rightarrow> nat \<Rightarrow> entry list \<Rightarrow> bool" where
  "base_entry g h n0 es \<longleftrightarrow>
     n0 < length es \<and> entry_Probe (es ! n0) = 0 \<and> (\<forall>q < RequestCount g. entry_covers g (an_base h) q (es ! n0))
   \<and> (\<forall>j < length es. entry_Probe (es ! j) = 0 \<longrightarrow> j = n0)"

definition base_between :: "mctx \<Rightarrow> answering \<Rightarrow> nat \<Rightarrow> nat \<Rightarrow> u16 list option \<Rightarrow> probe \<Rightarrow> entry list \<Rightarrow> bool" where
  "base_between g h n0 n queue p es \<longleftrightarrow>
     strict p \<and> status p = probeActive \<and> base_entry g h n0 es \<and> tcpACKReplies p = queue
   \<and> (\<forall>k < n. sample_answers h k (Samples p ! k))
   \<and> (TcpEstablishConnection g \<longrightarrow> (\<forall>c < conns g. c < n \<longrightarrow> tcpAcknowledgments p ! c = stream_next g h n c))"

definition base_sent :: "mctx \<Rightarrow> answering \<Rightarrow> nat \<Rightarrow> nat \<Rightarrow> probe \<Rightarrow> entry list \<Rightarrow> bool" where
  "base_sent g h n0 n p es \<longleftrightarrow>
     base_between g h n0 n (empty_queue g) p es
   \<and> sample_state (Samples p ! n) = SampleSent \<and> SentTime (Samples p ! n) = an_sent h n"

definition base_queue :: "mctx \<Rightarrow> answering \<Rightarrow> nat \<Rightarrow> u16 list option" where
  "base_queue g h n = (if TcpEstablishConnection g
     then Some (if acknowledged g h n then [GetConnectionIndex g (of_nat n)] else []) else None)"

definition base_answered :: "mctx \<Rightarrow> answering \<Rightarrow> nat \<Rightarrow> nat \<Rightarrow> probe \<Rightarrow> entry list \<Rightarrow> bool" where
  "base_answered g h n0 n p es \<longleftrightarrow> base_between g h n0 (Suc n) (base_queue g h n) p es \<and> replyReady p = Some True"

lemma base_lasts:
  assumes "strict_run g" "stable_phase g P" "\<And>p es. F p es \<Longrightarrow> base_between g h n0 n queue p es"
  shows "lasts g hash key (tolerated g n0) (holding g P hash key ref A F)"
  using assms(3) by (intro holding_strict_lasts [OF assms(1,2)]) (auto simp: base_between_def base_entry_def)

lemmas base_quiet_lasts = base_lasts [OF _ quiet_phase.stable_phase_axioms]
lemmas base_turn_lasts = base_lasts [OF _ turn_phase.stable_phase_axioms]

lemma base_request_sent:
  assumes s: "strict_run g" and n: "n < full g"
    and w: "stage (tolerated g n0) (holding g (quiet n) hash key ref A (base_between g h n0 n (empty_queue g)))
      (sending True (an_sent h n) @ xs) w"
  shows "delivers (send_request g hash key (of_nat n) w) (\<lambda>(ok, w'). ok
    \<and> stage (tolerated g n0) (holding g (turn n) hash key ref A (base_sent g h n0 n)) xs w')"
proof (rule send_request_delivers [OF _ _ _ _ _ _ w])
  show "lasts g hash key (tolerated g n0) (holding g (quiet n) hash key ref A (base_between g h n0 n (empty_queue g)))"
    by (rule base_quiet_lasts [OF s])
  show "lasts g hash key (tolerated g n0) (holding g (turn n) hash key ref A (base_sent g h n0 n))"
    by (rule base_turn_lasts [OF s]) (unfold base_sent_def, erule conjunct1)
  have q: "unat (of_nat n :: u16) = n" using n by (rule unat_request_number)
  show "unat (of_nat n :: u16) < full g" "sendable (quiet n) (of_nat n) (turn n)"
    using q n by (simp_all add: sendable_turn)
  show "base_between g h n0 n (empty_queue g) p es \<Longrightarrow> strict p = True \<and> (True \<longrightarrow> status p = probeActive)" for p es
    by (simp add: base_between_def)
  fix p es
  assume p: "probe_ok g p" "quiet n p" "base_between g h n0 n (empty_queue g) p es"
  then show "base_sent g h n0 n (p\<lparr>Samples := (Samples p)[unat (of_nat n :: u16) :=
      MarkSent (an_sent h n) (Samples p ! unat (of_nat n :: u16))]\<rparr>) es"
    using n q by (auto simp: base_sent_def base_between_def probe_ok_def MarkSent_def)
qed


text \<open>The answer is accepted, and passes the token to the prober.\<close>

lemma base_answer_demanded:
  assumes s: "strict_run g" and wf: "wf_context g" and a: "answer_ok g h n a" and n: "n < full g"
    and p: "probe_ok g p" "turn n p" "base_sent g h n0 n p es"
  shows "segment_as_demanded g p (of_nat n) (an_reply h n) a" "request_open g (an_reply h n) p (of_nat n)"
    "mirrors g (an_base h) (of_nat n) (an_reply h n) a"
proof -
  let ?q = "of_nat n :: u16" and ?r = "an_reply h n" and ?c = "n mod conns g"
  have q: "unat ?q = n" using n by (rule unat_request_number)
  have strict: "strict p" and kept: "\<forall>k < n. sample_answers h k (Samples p ! k)"
    using p(3) by (simp_all add: base_sent_def base_between_def)
  show "request_open g ?r p ?q"
    using a p(1,3) n q by (simp add: request_open_def answer_ok_def base_sent_def probe_ok_def Let_def)
  show "mirrors g (an_base h) ?q ?r a"
    using a by (simp add: answer_ok_def Let_def)
  have "base_segment_bad g ?r (GetConnectionIndex g ?q) p = Some False"
    if tcp: "TcpEstablishConnection g" and x: "expectedReplyFlags g FlagsDefault ?q = FlagsAck"
  proof -
    have large: "conns g \<le> n"
      using handshake_request(2) [OF wf tcp refl, of FlagsDefault ?q] x q by simp
    have inter: "\<not> IsInterProtocol g" using wf tcp by (simp add: wf_context_def)
    have c: "unat (GetConnectionIndex g ?q) = ?c"
      using q inter by (simp add: GetConnectionIndex_def BaseSequenceIndex_def unat_mod)
    have less: "?c < conns g" using wf by (auto simp: wf_context_def)
    then have "?c < n" "?c < length (Samples p)" using large n p(1) by (simp_all add: probe_ok_def)
    moreover have "tcp_ok g p" using p(1) tcp by (simp add: probe_ok_def)
    moreover have "tcpAcknowledgments p ! ?c = stream_next g h n ?c"
      using p(3) tcp less \<open>?c < n\<close> by (simp add: base_sent_def base_between_def)
    moreover have "sample_answers h ?c (Samples p ! ?c)" using kept \<open>?c < n\<close> by simp
    ultimately show ?thesis
      using a s tcp large less
      by (auto simp: base_segment_bad_def c answer_ok_def Let_def tcp_ok_def sample_answers_def nth_opt_def
          not_less split: if_splits)
  qed
  then show "segment_as_demanded g p ?q ?r a"
    using a s strict by (simp add: segment_as_demanded_def answer_ok_def Let_def)
qed

lemma base_commit_stage:
  assumes s: "strict_run g" and wf: "wf_context g" and rt: "MeasurementMode (Config g) = MeasurementModeRTBased" and n: "n < full g"
    and p: "probe_ok g p" "turn n p" "base_sent g h n0 n p es"
    and a: "accepted_as g (an_reply h n) (of_nat n) (es ! n0, p, s0) (e', p', s')"
    and conn: "let acks = TcpEstablishConnection g \<and> (n < conns g \<or> 0 < r_payloadLength (an_reply h n));
        c = GetConnectionIndex g (of_nat n);
        next = r_tcpSeq (an_reply h n) + (if n < conns g then 1 else 0) + ucast (r_payloadLength (an_reply h n))
      in tcpACKReplies p' = (if acks then map_option (\<lambda>qs. qs @ [c]) (tcpACKReplies p) else tcpACKReplies p)
       \<and> tcpAcknowledgments p' = (if acks then (tcpAcknowledgments p)[unat c := next] else tcpAcknowledgments p)"
    and stream: "\<lbrakk>TcpEstablishConnection g; conns g \<le> n; 0 < r_payloadLength (an_reply h n)\<rbrakk> \<Longrightarrow>
      r_tcpSeq (an_reply h n) = stream_next g h n (n mod conns g)"
  shows "base_answered g h n0 n p' (es[n0 := e'])"
proof -
  let ?q = "of_nat n :: u16" and ?r = "an_reply h n"
  have q: "unat ?q = n" using n by (rule unat_request_number)
  have len: "n < length (Samples p)" using n p(1) by (simp add: probe_ok_def)
  have strict: "strict p" and b: "base_between g h n0 n (empty_queue g) p es"
    using p(3) by (simp_all add: base_sent_def base_between_def)
  have e': "e' = count_valid (es ! n0)" and sm: "Samples p' = (Samples p)[n := reply_sample ?r p ?q]"
    and st: "strict p'" "status p' = probeActive" "replyReady p' = Some True"
    using a q strict rt b by (auto simp: accepted_as_def base_between_def)
  have "base_entry g h n0 (es[n0 := e'])"
    using b e' by (auto simp: base_between_def base_entry_def nth_list_update entry_covers_def)
  moreover have "sample_answers h k (Samples p' ! k)" if "k < Suc n" for k
  proof (cases "k = n")
    case True
    then show ?thesis
      using sm len p(3) strict q
      by (simp add: sample_answers_def reply_sample_def filled_sample_def base_sent_def IsReceived_def)
  qed (use that b sm in \<open>simp add: base_between_def\<close>)
  moreover have "tcpACKReplies p' = base_queue g h n"
    using conn b s by (auto simp: base_between_def base_queue_def acknowledged_def Let_def)
  moreover have "tcpAcknowledgments p' ! c = stream_next g h (Suc n) c"
    if tcp: "TcpEstablishConnection g" and c: "c < conns g" "c < Suc n" for c
  proof -
    have inter: "\<not> IsInterProtocol g" using wf tcp by (simp add: wf_context_def)
    have ci: "unat (GetConnectionIndex g ?q) = n mod conns g"
      using q inter by (simp add: GetConnectionIndex_def BaseSequenceIndex_def unat_mod)
    have lens: "length (tcpAcknowledgments p) = conns g" using p(1) tcp by (simp add: probe_ok_def tcp_ok_def)
    have old: "c < n \<Longrightarrow> tcpAcknowledgments p ! c = stream_next g h n c"
      using b tcp c(1) by (simp add: base_between_def)
    have step: "stream_next g h (Suc n) c = stream_next g h n c + (if n mod conns g = c then ucast (r_payloadLength ?r) else 0)"
      by (rule stream_next_step)
    consider (handshake) "n < conns g" | (data) "conns g \<le> n" "0 < r_payloadLength ?r" | (bare) "conns g \<le> n" "r_payloadLength ?r = 0"
      using word_gt_0 [of "r_payloadLength ?r"] by (cases "n < conns g") auto
    then show ?thesis
    proof cases
      case handshake
      then have upd: "tcpAcknowledgments p' = (tcpAcknowledgments p)[n := r_tcpSeq ?r + 1 + ucast (r_payloadLength ?r)]"
        using conn tcp ci by (simp add: Let_def)
      show ?thesis
        using step upd old lens c handshake stream_next_start [of n g h] by (cases "c = n") simp_all
    next
      case data
      then have upd: "tcpAcknowledgments p' =
          (tcpAcknowledgments p)[n mod conns g := stream_next g h n (n mod conns g) + ucast (r_payloadLength ?r)]"
        using conn tcp ci stream by (simp add: Let_def)
      show ?thesis
        using step upd old lens c data by (cases "c = n mod conns g") simp_all
    next
      case bare
      then have "tcpAcknowledgments p' = tcpAcknowledgments p"
        using conn by (simp add: Let_def)
      then show ?thesis
        using step old c bare by simp
    qed
  qed
  ultimately show ?thesis
    using st by (simp add: base_answered_def base_between_def)
qed


lemma base_answer_accepted:
  assumes s: "strict_run g" and rt: "MeasurementMode (Config g) = MeasurementModeRTBased"
    and good: "good_answers g h" "n < full g" and port: "unat (an_base h) + conns g \<le> 65536"
    and w: "holding g (turn n) hash key ref A (base_sent g h n0 n) w"
  shows "\<exists>w'. env_step g hash key (EvReply n0 (an_reply h n)) w = Some w'
    \<and> holding g (turn n) hash key ref A (base_answered g h n0 n) w'"
proof -
  let ?p = "cur_probe w" and ?e = "cur_entries w ! n0" and ?q = "of_nat n :: u16"
  have run: "run_ok g (turn n) hash key ref A w" and F: "base_sent g h n0 n ?p (cur_entries w)"
    using w by (simp_all add: holding_def)
  have own: "own w n0" and strict: "strict ?p" "status ?p = probeActive"
    using F by (simp_all add: base_sent_def base_between_def base_entry_def)
  have ok: "wf_context g" "probe_ok g ?p" "entry_ok g ?e ?p" "turn n ?p"
    using run own by (auto simp: run_ok_defs)
  have q: "unat ?q = n" using good(2) by (rule unat_request_number)
  obtain a where a: "answer_ok g h n a" using good by (auto simp: good_answers_def)
  have covers: "entry_covers g (an_base h) ?q ?e"
    using F good(2) q by (simp add: base_sent_def base_between_def base_entry_def word_less_nat_alt)
  note d = base_answer_demanded [OF s ok(1) a good(2) ok(2,4) F]
  obtain x where "base_check g (an_reply h n) ?e ?p = Some (Inr (?q, x))"
    using mirrored_checks(2) [OF ok(1,2) covers _ port d(3,2,1)] strict(1) by blast
  from strict_accepts [OF ok(1,2) strict ok(3) this, of "cur_stats w", unfolded q]
  obtain e' p' s' where f: "FulfillReply g (an_reply h n) ?e ?p (cur_stats w) = Some (True, e', p', s')"
    "accepted_as g (an_reply h n) ?q (?e, ?p, cur_stats w) (e', p', s')"
    "let acks = TcpEstablishConnection g \<and> (n < conns g \<or> 0 < r_payloadLength (an_reply h n));
        c = GetConnectionIndex g ?q;
        next = r_tcpSeq (an_reply h n) + (if n < conns g then 1 else 0) + ucast (r_payloadLength (an_reply h n))
      in tcpACKReplies p' = (if acks then map_option (\<lambda>qs. qs @ [c]) (tcpACKReplies ?p) else tcpACKReplies ?p)
       \<and> tcpAcknowledgments p' = (if acks then (tcpAcknowledgments ?p)[unat c := next] else tcpAcknowledgments ?p)"
    by blast
  have "r_tcpSeq (an_reply h n) = stream_next g h n (n mod conns g)"
    if "TcpEstablishConnection g" "conns g \<le> n" "0 < r_payloadLength (an_reply h n)"
    using a s that by (simp add: answer_ok_def Let_def)
  from base_commit_stage [OF s ok(1) rt good(2) ok(2,4) F f(2,3) this]
  have "base_answered g h n0 n p' ((cur_entries w)[n0 := e'])" .
  moreover define w' where "w' = w\<lparr>cur_probe := p', cur_entries := (cur_entries w)[n0 := e'], cur_stats := s'\<rparr>"
  have step: "env_step g hash key (EvReply n0 (an_reply h n)) w = Some w'"
    using own f(1) by (simp add: env_step_def reply_event_def w'_def)
  moreover have "run_ok g (turn n) hash key ref A w'"
    using turn_phase.run_ok_env [OF run] step by (metis option.inject)
  ultimately show ?thesis by (simp add: holding_def w'_def)
qed

lemma base_round_flushed:
  assumes s: "strict_run g" and n: "n < full g"
    and w: "stage (tolerated g n0) (holding g (quiet (Suc n)) hash key ref A (base_between g h n0 (Suc n) (base_queue g h n)))
      ((if acknowledged g h n then sending True (an_acked h n) else []) @ xs) w"
  shows "delivers (flushTCPACKs g hash key w) (\<lambda>(ok, w'). ok
    \<and> stage (tolerated g n0) (holding g (quiet (Suc n)) hash key ref A (base_between g h n0 (Suc n) (empty_queue g))) xs w')"
proof (cases "acknowledged g h n")
  case True
  then have t: "TcpEstablishConnection g" by (simp add: acknowledged_def)
  have "delivers (flushTCPACKs g hash key w) (\<lambda>(ok, w'). ok
    \<and> stage (tolerated g n0) (holding g (quiet (Suc n)) hash key ref A (base_between g h n0 (Suc n) (Some []))) xs w')"
  proof (rule flush_one_delivers [OF quiet_phase.stable_phase_axioms base_quiet_lasts [OF s]])
    show "follows (tolerated g n0) (sending True (an_acked h n) @ xs) (cur_script w)"
      using w True by simp
    show "base_between g h n0 (Suc n) (Some []) p es \<Longrightarrow>
        tcpACKReplies p = Some [] \<and> strict p = True \<and> (True \<longrightarrow> status p = probeActive)" for p es
      by (simp add: base_between_def)
    show "run_ok g (quiet (Suc n)) hash key ref A w" using w by (simp add: holding_def)
    show "tcpACKReplies (cur_probe w) = Some [GetConnectionIndex g (of_nat n)]"
      "base_between g h n0 (Suc n) (Some []) ((cur_probe w)\<lparr>tcpACKReplies := Some []\<rparr>) (cur_entries w)"
      using w t True by (simp_all add: holding_def base_between_def base_queue_def)
  qed
  then show ?thesis using t by simp
next
  case False
  then have "base_queue g h n = empty_queue g" by (simp add: base_queue_def)
  moreover have "tcpACKReplies (cur_probe w) = base_queue g h n"
    using w by (simp add: holding_def base_between_def)
  ultimately show ?thesis
    using w False by (auto simp: flush_nothing)
qed

lemma waitForBaseReply_delivers:
  assumes s: "strict_run g" and rt: "MeasurementMode (Config g) = MeasurementModeRTBased"
    and good: "good_answers g h" "n < full g" and port: "unat (an_base h) + conns g \<le> 65536"
    and w: "stage (tolerated g n0) (holding g (turn n) hash key ref A (base_sent g h n0 n))
      (Env (EvReply n0 (an_reply h n)) # Choose ReplyToken
        # ((if acknowledged g h n then sending True (an_acked h n) else []) @ xs)) w"
  shows "delivers (waitForBaseReply g hash key w) (\<lambda>(ok, w'). ok
    \<and> stage (tolerated g n0) (holding g (quiet (Suc n)) hash key ref A (base_between g h n0 (Suc n) (empty_queue g))) xs w')"
proof -
  have J: "lasts g hash key (tolerated g n0) (holding g (turn n) hash key ref A (base_sent g h n0 n))"
    by (rule base_turn_lasts [OF s]) (unfold base_sent_def, erule conjunct1)
  have J': "lasts g hash key (tolerated g n0) (holding g (turn n) hash key ref A (base_answered g h n0 n))"
    by (rule base_turn_lasts [OF s]) (unfold base_answered_def, erule conjunct1)
  obtain w1 where w1: "await g hash key w = Returns (ReplyToken, w1)"
    "stage (tolerated g n0) (holding g (turn n) hash key ref A (base_answered g h n0 n))
       ((if acknowledged g h n then sending True (an_acked h n) else []) @ xs) w1"
    using await_event [OF J J' base_answer_accepted [OF s rt good port] w] by (auto elim!: deliversE)
  have ready: "replyReady (cur_probe w1) = Some True"
    using w1(2) by (simp add: holding_def base_answered_def)
  let ?w = "w1\<lparr>cur_probe := (cur_probe w1)\<lparr>replyReady := Some False\<rparr>\<rparr>"
  have "run_ok g (quiet (Suc n)) hash key ref A ?w"
    by (rule take_token_ok [OF _ ready]) (use w1(2) in \<open>simp add: holding_def\<close>)
  then have "stage (tolerated g n0) (holding g (quiet (Suc n)) hash key ref A (base_between g h n0 (Suc n) (base_queue g h n)))
      ((if acknowledged g h n then sending True (an_acked h n) else []) @ xs) ?w"
    using w1(2) by (simp add: holding_def base_answered_def base_between_def)
  from base_round_flushed [OF s good(2) this] show ?thesis
    by (simp add: waitForBaseReply_def w1(1) ready)
qed


lemma base_answers_step:
  "\<lbrakk>strict_run g; n < full g\<rbrakk> \<Longrightarrow> answers_from g h n0 n @ xs =
     sending True (an_sent h n) @ Env (EvReply n0 (an_reply h n)) # Choose ReplyToken
     # ((if acknowledged g h n then sending True (an_acked h n) else []) @ answers_from g h n0 (Suc n) @ xs)"
  unfolding answers_from_step [of n] by (simp add: answered_request_def [of g h n0 n])

abbreviation base_stage where
  "base_stage g h n0 hash key ref n xs \<equiv>
     stage (tolerated g n0) (holding g (quiet n) hash key ref {n0} (base_between g h n0 n (empty_queue g))) xs"

lemma stage_count:
  assumes "stage N (holding g P hash key ref A F) xs w" "c \<notin> prober_counters"
  shows "stage N (holding g P hash key ref A F) xs (count_event c w)"
proof -
  have "run_ok g P hash key ref A (count_event c w)"
    using assms run_ok_count by (simp add: holding_def)
  moreover have "cur_probe (count_event c w) = cur_probe w" "cur_entries (count_event c w) = cur_entries w"
    "cur_script (count_event c w) = cur_script w"
    by (simp_all add: count_event_def)
  ultimately show ?thesis
    using assms(1) by (simp only: holding_def)
qed

lemma base_loop_delivers:
  assumes s: "strict_run g" and rt: "MeasurementMode (Config g) = MeasurementModeRTBased"
    and good: "good_answers g h" and port: "unat (an_base h) + conns g \<le> 65536" and "n \<le> full g"
  shows "base_stage g h n0 hash key ref n (answers_from g h n0 n @ xs) w \<Longrightarrow>
    delivers (base_loop g hash key (requests_from g n) w) (\<lambda>(ok, w'). ok \<and> base_stage g h n0 hash key ref (full g) xs w')"
  using assms(5)
proof (induction arbitrary: w rule: inc_induct)
  case (step n)
  let ?q = "of_nat n :: u16" and ?rest = "answers_from g h n0 (Suc n) @ xs"
  have n: "n < full g" using step.hyps by simp
  obtain w1 where prep: "prepareTCPPacket g ?q w = Some (True, w1)"
    "run_ok g (quiet n) hash key ref {n0} w1" "cur_probe w1 = cur_probe w" "cur_entries w1 = cur_entries w"
    "cur_script w1 = cur_script w"
    using prepare_ready [OF quiet_phase.stable_phase_axioms, of g n hash key ref "{n0}" w n] step.prems n
    by (auto simp: holding_def run_ok_def quiet_def)
  have w1: "base_stage g h n0 hash key ref n (sending True (an_sent h n) @ Env (EvReply n0 (an_reply h n)) # Choose ReplyToken
     # ((if acknowledged g h n then sending True (an_acked h n) else []) @ ?rest)) w1"
    using prep(2-5) step.prems unfolding base_answers_step [OF s n] by (simp add: holding_def)
  obtain w2 where w2: "send_request g hash key ?q w1 = Returns (True, w2)"
    "stage (tolerated g n0) (holding g (turn n) hash key ref {n0} (base_sent g h n0 n))
      (Env (EvReply n0 (an_reply h n)) # Choose ReplyToken
        # ((if acknowledged g h n then sending True (an_acked h n) else []) @ ?rest)) w2"
    using base_request_sent [OF s n w1] by (auto elim!: deliversE)
  obtain w3 where w3: "waitForBaseReply g hash key w2 = Returns (True, w3)" "base_stage g h n0 hash key ref (Suc n) ?rest w3"
    using waitForBaseReply_delivers [OF s rt good n port w2(2)] by (auto elim!: deliversE)
  have "base_stage g h n0 hash key ref (Suc n) ?rest (count_event (ProbesReachedSeq ?q) w3)"
    by (rule stage_count [OF w3(2)]) simp
  from step.IH [OF this] show ?case
    by (simp add: requests_from_step [OF n] prep(1) w2(1) w3(1) or_crash_Some)
qed simp


section \<open>Handing over\<close>

text \<open>A completely measured probe; in a base measurement every sample is the host's own answer.\<close>

definition measured :: "mctx \<Rightarrow> answering \<Rightarrow> probe \<Rightarrow> bool" where
  "measured g h p \<longleftrightarrow>
     length (Samples p) = full g \<and> (\<forall>s \<in> set (Samples p). IsReceived s)
   \<and> (strict_run g \<longrightarrow> (\<forall>k < full g. sample_answers h k (Samples p ! k)))"

abbreviation handed :: "mctx \<Rightarrow> answering \<Rightarrow> nat \<Rightarrow> (ip4 \<Rightarrow> u64) \<Rightarrow> ip4 \<Rightarrow> world \<Rightarrow> nat set \<Rightarrow> event list \<Rightarrow> bool \<times> world \<Rightarrow> bool" where
  "handed g h n0 hash key ref A xs \<equiv> (\<lambda>(ok, w). ok \<and> (\<exists>p. measured g h p \<and> Target p = Target (cur_probe ref)
     \<and> stage (tolerated g n0) (run_ok g (sent_received (full g) (full g)) hash key (saved_ref p ref) A) xs w))"

lemma phase_lasts: "stable_phase g P \<Longrightarrow> lasts g hash key N (run_ok g P hash key ref A)"
  by (rule lastsI, erule (1) stable_phase.run_ok_script, erule (1) stable_phase.run_ok_env)

lemma save_hands_over:
  assumes J: "lasts g hash key (tolerated g n0) (holding g P hash key ref A F)"
    and all: "\<And>p es. \<lbrakk>probe_ok g p; P p; F p es\<rbrakk> \<Longrightarrow> measured g h p"
    and w: "stage (tolerated g n0) (holding g P hash key ref A F) (Choose SaveSlot # xs) w"
  shows "delivers (save_select g hash key interrupt w) (handed g h n0 hash key ref A xs)"
proof -
  obtain w' w1 where w1: "save_select g hash key interrupt w = Returns (True, w')"
    "stage (tolerated g n0) (holding g P hash key ref A F) xs w1"
    "w' = count_event ValidProbes (w1\<lparr>cur_saved := cur_saved w1 @ [cur_probe w1]\<rparr>)"
    using save_select_delivers [OF J w, of interrupt] by (auto elim!: deliversE)
  let ?p = "cur_probe w1"
  have run: "run_ok g P hash key ref A w1" and m: "measured g h ?p"
    using w1(2) all by (auto simp: holding_def run_ok_defs)
  have "sent_received (full g) (full g) ?p"
    using m by (auto simp: measured_def sent_received_def)
  then have "run_ok g (sent_received (full g) (full g)) hash key (saved_ref ?p ref) A w'"
    using run w1(3) by (auto simp: run_ok_defs saved_ref_def count_event_def prober_counters_def)
  moreover have "Target ?p = Target (cur_probe ref)" "cur_script w' = cur_script w1"
    using run w1(3) by (simp_all add: run_ok_defs count_event_def)
  ultimately show ?thesis
    using w1(1,2) m by auto
qed

lemma handed_deregister:
  assumes "delivers m (handed g h n0 hash key ref {i} xs)"
  shows "delivers (andThen m (\<lambda>(ok, w). Returns (ok, deregister hash key i w))) (handed g h n0 hash key ref {} xs)"
  using assms deregister_ok [of g _ hash key _ i]
  by (auto simp: delivers_andThen elim!: delivers_mono) (auto simp: deregister_def)

lemma complete_and_save_delivers:
  assumes s: "strict_run g" and w: "base_stage g h n0 hash key ref (full g) (Choose SaveSlot # xs) w"
  shows "delivers (complete_and_save g hash key w) (handed g h n0 hash key ref {n0} xs)"
proof -
  let ?F = "\<lambda>p es. strict p \<and> base_entry g h n0 es \<and> (\<forall>k < full g. sample_answers h k (Samples p ! k))"
  let ?p = "(cur_probe w)\<lparr>status := probeComplete\<rparr>"
  have run: "run_ok g (quiet (full g)) hash key ref {n0} w" and F: "base_between g h n0 (full g) (empty_queue g) (cur_probe w) (cur_entries w)"
    using w by (simp_all add: holding_def)
  then have st: "strict (cur_probe w)" "status (cur_probe w) = probeActive" by (simp_all add: base_between_def)
  have p: "probe_ok g (cur_probe w)" "sent_received (full g) (full g) (cur_probe w)"
    using run by (simp_all add: run_ok_defs quiet_def)
  have "probe_ok g ?p" using p(1) st by (simp add: probe_ok_def status_ok_def tcp_ok_def received_count_def handshakes_def)
  moreover have "sent_received (full g) (full g) ?p" using p(2) by (simp add: sent_received_def)
  ultimately have "run_ok g (sent_received (full g) (full g)) hash key ref {n0} (w\<lparr>cur_probe := ?p\<rparr>)"
    by (intro quiet_phase.run_ok_probe [OF run]) (simp_all add: received_count_def)
  then have w': "stage (tolerated g n0) (holding g (sent_received (full g) (full g)) hash key ref {n0} ?F) (Choose SaveSlot # xs)
      (w\<lparr>cur_probe := ?p\<rparr>)"
    using F st w by (simp add: holding_def base_between_def)
  have "delivers (save_select g hash key (count_event DropInterrupt) (w\<lparr>cur_probe := ?p\<rparr>)) (handed g h n0 hash key ref {n0} xs)"
  proof (rule save_hands_over [OF holding_strict_lasts [OF s plain_phase.stable_phase_axioms] _ w'])
    show "?F p es \<Longrightarrow> strict p \<and> (\<forall>j < length es. entry_Probe (es ! j) = 0 \<longrightarrow> j = n0)" for p es
      by (simp add: base_entry_def)
    show "\<lbrakk>probe_ok g p; sent_received (full g) (full g) p; ?F p es\<rbrakk> \<Longrightarrow> measured g h p" for p es
      by (auto simp: measured_def probe_ok_def sent_received_def in_set_conv_nth)
  qed
  then show ?thesis
    using st by (simp add: complete_and_save_def complete_def)
qed



section \<open>The measuring functions\<close>

text \<open>The start of a run: nothing sent, no entry of the probe yet.\<close>

definition started :: "mctx \<Rightarrow> (ip4 \<Rightarrow> u64) \<Rightarrow> ip4 \<Rightarrow> world \<Rightarrow> nat \<Rightarrow> world \<Rightarrow> bool" where
  "started g hash key ref n0 w \<longleftrightarrow>
     run_ok g (quiet 0) hash key ref {} w \<and> length (cur_entries w) = n0 \<and> (\<forall>j < n0. entry_Probe (cur_entries w ! j) \<noteq> 0)
   \<and> strict (cur_probe w) = strict_run g \<and> status (cur_probe w) = probeActive \<and> tcpACKReplies (cur_probe w) = empty_queue g"

lemma measureBaseRT_delivers:
  assumes s: "strict_run g" and rt: "MeasurementMode (Config g) = MeasurementModeRTBased"
    and good: "good_answers g h" and port: "unat (an_base h) + conns g \<le> 65536"
    and w: "started g hash key ref n0 w" "follows (tolerated g n0) (answers_from g h n0 0 @ Choose SaveSlot # xs) (cur_script w)"
  shows "delivers (measureBaseRT g hash key (an_base h) w) (handed g h n0 hash key ref {} xs)"
proof -
  obtain i w1 where reg: "register hash key (full_entry g 0 (an_base h)) w = (i, w1)"
    by (cases "register hash key (full_entry g 0 (an_base h)) w")
  have run: "run_ok g (quiet 0) hash key ref {} w" using w(1) by (simp add: started_def)
  note re = register_entry [OF run reg]
  have i: "i = n0" using re(1) w(1) by (simp add: started_def)
  have wf: "wf_context g" using run by (rule run_ok_wf)
  have "base_entry g h n0 (cur_entries w1)"
    using re i w(1) full_entry_covers [OF wf port] by (auto simp: base_entry_def started_def less_Suc_eq)
  then have start: "base_stage g h n0 hash key ref 0 (answers_from g h n0 0 @ Choose SaveSlot # xs) w1"
    using register_full(1) [OF run reg] re i w s by (simp add: holding_def base_between_def started_def)
  obtain w2 where w2: "base_loop g hash key (all_requests g) w1 = Returns (True, w2)"
    "base_stage g h n0 hash key ref (full g) (Choose SaveSlot # xs) w2"
    using base_loop_delivers [OF s rt good port le0 start] by (auto simp: all_requests_from elim!: deliversE)
  have "delivers (andThen (base_loop g hash key (all_requests g) w1) (\<lambda>(ok, w).
      if \<not> ok then Returns (False, w) else complete_and_save g hash key w)) (handed g h n0 hash key ref {n0} xs)"
    unfolding w2(1) using complete_and_save_delivers [OF s w2(2)] by simp
  from handed_deregister [OF this] show ?thesis
    by (simp add: measureBaseRT_def reg i)
qed

lemma started_between:
  assumes "\<not> strict_run g" "started g hash key ref n0 w"
  shows "holding g (sent_received 0 0) hash key ref {} (rt_between g n0 0 (empty_queue g)) w"
  using assms run_ok_weaken [of g "quiet 0" hash key ref "{}" w "sent_received 0 0"]
  by (simp add: holding_def started_def rt_between_def quiet_def)

lemma between_measured:
  assumes "\<not> strict_run g" "probe_ok g p" "sent_received (full g) (full g) p"
  shows "measured g h p"
  using assms by (auto simp: measured_def probe_ok_def sent_received_def in_set_conv_nth)

lemma lenient_saved:
  assumes "\<not> strict_run g" "rt_stage g n0 hash key ref (full g) (Choose SaveSlot # xs) w"
  shows "delivers (save_select g hash key interrupt w) (handed g h n0 hash key ref {} xs)"
  by (rule save_hands_over [OF rt_between_lasts between_measured assms(2)]) (use assms(1) in simp_all)

lemma dispatch_delivers:
  assumes rt: "MeasurementMode (Config g) = MeasurementModeRTBased"
    and good: "good_answers g h" and port: "unat (an_base h) + conns g \<le> 65536"
    and w: "started g hash key ref n0 w" "follows (tolerated g n0) (answers_from g h n0 0 @ Choose SaveSlot # xs) (cur_script w)"
  shows "delivers (dispatch g hash key (an_base h) w) (handed g h n0 hash key ref {} xs)"
proof -
  have wf: "wf_context g" using w(1) by (auto simp: started_def dest: run_ok_wf)
  have st: "strict (cur_probe w) = strict_run g" using w(1) by (simp add: started_def)
  show ?thesis
  proof (cases "strict_run g")
    case True
    then show ?thesis
      using measureBaseRT_delivers [OF True rt good port w] st rt
      by (simp add: dispatch_def measureRTBased_def strict_run_def)
  next
    case False
    have start: "rt_stage g n0 hash key ref 0 (answers_from g h n0 0 @ Choose SaveSlot # xs) w"
      using started_between [OF False w(1)] w(2) by blast
    show ?thesis
    proof (cases "IsInterProtocol g")
      case True
      obtain w2 where "inter_loop g hash key (an_base h) (all_requests g) w = Returns (True, w2)"
        "rt_stage g n0 hash key ref (full g) (Choose SaveSlot # xs) w2"
        using inter_loop_delivers [OF True wf good port le0 start] by (auto simp: all_requests_from elim!: deliversE)
      then show ?thesis
        using True rt modes_differ [symmetric] lenient_saved [OF False] by (simp add: dispatch_def measureInterProtocolRT_def)
    next
      case single: False
      obtain w2 where "rt_loop g hash key (an_base h) (all_requests g) w = Returns (True, w2)"
        "rt_stage g n0 hash key ref (full g) (Choose SaveSlot # xs) w2"
        using rt_loop_delivers [OF False good port le0 start] by (auto simp: all_requests_from elim!: deliversE)
      then show ?thesis
        using single False st rt lenient_saved [OF False] by (simp add: dispatch_def measureRTBased_def)
    qed
  qed
qed


section \<open>The resets\<close>

lemma reset_sent:
  assumes J: "lasts g hash key N J" and put: "\<And>w. J w \<Longrightarrow> J (put_on_wire src bytes w)"
    and w: "stage N J (sending False t @ xs) w"
  shows "delivers (sendPacket g hash key src bytes None False w) (\<lambda>(ok, w'). ok \<and> stage N J xs w')"
  by (rule sendPacket_delivers [OF J J _ _ put w]) (use lasts_script [OF J] in \<open>simp_all add: mark_sample_def\<close>)

text \<open>Every connection has its acknowledgment number, and each reset is sent if its packet can be built.\<close>

lemma resetTCPConnections_delivers:
  assumes est: "TcpEstablishConnection g" and ready: "reset_ready serialize g"
    and "\<forall>c \<in> set cs. c < conns g" "length cs \<le> length ts"
  shows "stage N (run_ok g (sent_received (full g) (full g)) hash key ref A) (concat (map (sending False) ts)) w \<Longrightarrow>
    delivers (resetTCPConnections serialize g hash key base cs w) (run_ok g (sent_received (full g) (full g)) hash key ref A)"
  using assms(3,4)
proof (induction cs arbitrary: ts w)
  case (Cons c cs)
  let ?J = "run_ok g (sent_received (full g) (full g)) hash key ref A"
  obtain t ts' where ts: "ts = t # ts'" using Cons.prems(3) by (cases ts) auto
  have run: "?J w" using Cons.prems(1) by simp
  have wf: "wf_context g" and p: "probe_ok g (cur_probe w)" and tcp: "tcp_ok g (cur_probe w)"
    using run est by (simp_all add: run_ok_defs probe_ok_def)
  have c: "c < conns g" "unat (of_nat c :: u16) = c"
    using Cons.prems(2) unat_u16_less [of "ConnectionCount (Config g)"]
    by (simp_all add: unat_of_nat take_bit_nat_eq_self del: unat_u16_less)
  obtain n where n: "nextTCPRequestIndex g (cur_probe w) (of_nat c) = Some n"
    using nextTCPRequestIndex_some [OF wf est p, of "of_nat c"] c by auto
  obtain r where r: "BuildTCPResetPacket serialize g key (GetSender g (of_nat c)) (base + of_nat c) (of_nat c) n
      (tcpAcknowledgments (cur_probe w) ! c) = Some r"
    using BuildTCPResetPacket_some [OF wf est ready] by blast
  have rest: "delivers (resetTCPConnections serialize g hash key base cs w') ?J"
    if "stage N ?J (concat (map (sending False) us)) w'" "length cs \<le> length us" for us w'
    using Cons.IH [OF that(1) _ that(2)] Cons.prems(2) by simp
  have sent: "delivers (andThen (sendPacket g hash key (GetSender g (of_nat c)) bytes None False w) (\<lambda>(sent, w).
      resetTCPConnections serialize g hash key base cs w)) ?J" for bytes
    unfolding delivers_andThen
    by (rule delivers_pair [OF reset_sent [OF phase_lasts [OF plain_phase.stable_phase_axioms] run_ok_put]])
       (use Cons.prems(1,3) ts rest in auto)
  have skipped: "delivers (resetTCPConnections serialize g hash key base cs (count_event DropSendErr w)) ?J"
    by (rule rest [where us = ts]) (use Cons.prems(1,3) run_ok_count [OF run, of DropSendErr] in \<open>auto simp: count_event_def\<close>)
  have "stage N ?J (concat (map (sending False) ts)) w" "length cs \<le> length ts"
    using Cons.prems(1,3) by auto
  note unsent = rest [OF this]
  show ?case
    using c tcp n r sent skipped unsent
    by (simp add: tcp_ok_def Let_def nth_opt_def or_crash_def split: option.split)
qed simp



section \<open>Measuring a target\<close>

lemma answers_and_resets:
  "answered_script g h n0 = answers_from g h n0 0 @ Choose SaveSlot #
     (if TcpEstablishConnection g then concat (map (sending False) (map (an_closed h) [0..<conns g])) else [])"
  by (simp add: answered_script_def comp_def)

lemma new_probe_started:
  assumes "wf_context g" "packets_ok g pkts" "fresh_world hash key w"
  shows "started g hash key (w\<lparr>cur_packets := pkts, cur_probe := new_probe g key strategy\<rparr>) (length (cur_entries w))
    (w\<lparr>cur_packets := pkts, cur_probe := new_probe g key strategy\<rparr>)"
proof -
  have "TcpEstablishConnection g \<Longrightarrow> \<not> IsInterProtocol g" using assms(1) by (simp add: wf_context_def)
  then have "status (new_probe g key strategy) = probeActive"
    "tcpACKReplies (new_probe g key strategy) = empty_queue g"
    by (auto simp: new_probe_def Let_def)
  moreover have "\<forall>j < length (cur_entries w). entry_Probe (cur_entries w ! j) \<noteq> 0"
    using assms(3) unfolding fresh_world_def by (metis nth_mem)
  ultimately show ?thesis
    using start_ok [OF assms] by (simp add: started_def)
qed

lemma MeasureTarget_delivers:
  assumes wf: "wf_context g" and rt: "MeasurementMode (Config g) = MeasurementModeRTBased"
    and raws: "templates_ok g raws" and reset: "TcpEstablishConnection g \<Longrightarrow> reset_ready serialize g"
    and fresh: "fresh_world hash key w" and good: "good_answers g h" and port: "unat (an_base h) + conns g \<le> 65536"
    and script: "follows (tolerated g (length (cur_entries w))) (answered_script g h (length (cur_entries w))) (cur_script w)"
  shows "\<exists>w' p. MeasureTarget serialize g hash raws (an_base h) (Some key) strategy w = Returns (True, w')
    \<and> cur_saved w' = cur_saved w @ [p] \<and> Target p = key \<and> measured g h p"
proof -
  let ?n0 = "length (cur_entries w)"
  let ?resets = "if TcpEstablishConnection g then concat (map (sending False) (map (an_closed h) [0..<conns g])) else []"
  obtain pkts where pkts: "BuildPacketsInto g raws key (an_base h) = Some pkts" "packets_ok g pkts"
    using BuildPacketsInto_ok [OF raws] by blast
  let ?w1 = "count_event InFlightProbes (count_event ProbeCount w)"
  let ?w = "?w1\<lparr>cur_packets := pkts, cur_probe := new_probe g key strategy\<rparr>"
  have same: "cur_entries ?w1 = cur_entries w" "cur_script ?w1 = cur_script w" "cur_saved ?w1 = cur_saved w"
    by (simp_all add: count_event_def)
  have "fresh_world hash key ?w1"
    using fresh by (simp add: fresh_world_def count_event_def)
  from new_probe_started [OF wf pkts(2) this, of strategy]
  have start: "started g hash key ?w ?n0 ?w" by (simp add: same)
  have "follows (tolerated g ?n0) (answers_from g h ?n0 0 @ Choose SaveSlot # ?resets) (cur_script ?w)"
    using script same by (simp add: answers_and_resets)
  from dispatch_delivers [OF rt good port start this]
  obtain w2 p where w2: "dispatch g hash key (an_base h) ?w = Returns (True, w2)" "measured g h p" "Target p = key"
    "stage (tolerated g ?n0) (run_ok g (sent_received (full g) (full g)) hash key (saved_ref p ?w) {}) ?resets w2"
    by (auto elim!: deliversE)
  have "delivers (if \<not> IsInterProtocol g \<and> TcpEstablishConnection g
      then resetTCPConnections serialize g hash key (an_base h) [0..<conns g] w2 else Returns w2)
    (run_ok g (sent_received (full g) (full g)) hash key (saved_ref p ?w) {})"
    using w2(4) resetTCPConnections_delivers [OF _ reset, where ts = "map (an_closed h) [0..<conns g]" and N = "tolerated g ?n0"]
    by (cases "TcpEstablishConnection g") simp_all
  then obtain w3 where w3: "(if \<not> IsInterProtocol g \<and> TcpEstablishConnection g
      then resetTCPConnections serialize g hash key (an_base h) [0..<conns g] w2 else Returns w2) = Returns w3"
    "run_ok g (sent_received (full g) (full g)) hash key (saved_ref p ?w) {} w3"
    by (auto simp: delivers_def)
  obtain q s where f: "(if strict (cur_probe w3) then or_crash (fail None (cur_probe w3, cur_stats w3))
      else Returns (cur_probe w3, cur_stats w3)) = Returns (q, s)"
    using invalidate_ok [OF run_ok_trivial [OF w3(2)]] by blast
  have "cur_saved w3 = cur_saved w @ [p]"
    using w3(2) same by (simp add: run_ok_defs saved_ref_def count_event_def)
  moreover have "MeasureTarget serialize g hash raws (an_base h) (Some key) strategy w
      = Returns (True, w3\<lparr>cur_probe := q, cur_stats := add_to InFlightProbes (- 1) s\<rparr>)"
    unfolding MeasureTarget_def option.case Let_def pkts(1) or_crash_Some andThen.simps w2(1) prod.case w3(1) f by simp
  ultimately show ?thesis
    using w2(2,3) by (intro exI [of _ "w3\<lparr>cur_probe := q, cur_stats := add_to InFlightProbes (- 1) s\<rparr>"] exI [of _ p]) simp
qed

end
