(* ===== verification/Targets.thy ===== *)
theory Targets
  imports Measurement
begin

text \<open>
  Where the targets come from: \<^verbatim>\<open>ipid/worker/worker.go\<close> (parsing the address column, streaming the
  rows to the workers) and \<^verbatim>\<open>internal/config/interprotocol.go\<close> (which strategies belong to which
  inter-protocol sample, and the request pattern of a sample).

  Reading the parquet file is library code: a stream is the list of what the successive \<open>Read\<close> calls
  return. At each \<open>select\<close> with the stop signal, \<open>stop k\<close> says whether the \<open>k\<close>-th select takes the
  stop branch.
\<close>

section \<open>Addresses as text\<close>

text \<open>\<open>net.IP.String\<close> on an IPv4 address.\<close>

definition ip4_string :: "ip4 \<Rightarrow> string" where
  "ip4_string a = join_on (CHR ''.'') (map (\<lambda>b. dec_of_nat (unat b)) (bytes_of_ip4 a))"

record parse_state =
  ps_ip :: "u8 list"
  ps_octet :: nat
  ps_val :: nat
  ps_hadDigit :: bool

definition parse_start :: parse_state where
  "parse_start = \<lparr>ps_ip = [0, 0, 0, 0], ps_octet = 0, ps_val = 0, ps_hadDigit = False\<rparr>"

fun parse_loop :: "string \<Rightarrow> parse_state \<Rightarrow> parse_state option" where
  "parse_loop [] st = Some st"
| "parse_loop (c # cs) st =
     (if c = CHR ''.'' then
        if \<not> ps_hadDigit st \<or> ps_octet st \<ge> 3 \<or> ps_val st > 255 then None
        else parse_loop cs (st\<lparr>ps_ip := (ps_ip st)[ps_octet st := of_nat (ps_val st)],
               ps_octet := ps_octet st + 1, ps_val := 0, ps_hadDigit := False\<rparr>)
      else if \<not> is_digit c then None
      else let val = ps_val st * 10 + (of_char c - 48) in
        if val > 255 then None
        else parse_loop cs (st\<lparr>ps_val := val, ps_hadDigit := True\<rparr>))"

definition parseIPv4Fast :: "string \<Rightarrow> ip4 option" where
  "parseIPv4Fast s =
     (case parse_loop s parse_start of
        None \<Rightarrow> None
      | Some st \<Rightarrow>
          if ps_octet st \<noteq> 3 \<or> \<not> ps_hadDigit st then None
          else let ip = (ps_ip st)[3 := of_nat (ps_val st)] in Some (ip ! 0, ip ! 1, ip ! 2, ip ! 3))"

lemma parse_loop_dot:
  "parse_loop (CHR ''.'' # cs) st =
     (if \<not> ps_hadDigit st \<or> ps_octet st \<ge> 3 \<or> ps_val st > 255 then None
      else parse_loop cs (st\<lparr>ps_ip := (ps_ip st)[ps_octet st := of_nat (ps_val st)],
             ps_octet := ps_octet st + 1, ps_val := 0, ps_hadDigit := False\<rparr>))"
  by simp

lemma parse_loop_char:
  "c \<noteq> CHR ''.'' \<Longrightarrow> parse_loop (c # cs) st =
     (if is_digit c \<and> ps_val st * 10 + (of_char c - 48) \<le> 255
      then parse_loop cs (st\<lparr>ps_val := ps_val st * 10 + (of_char c - 48), ps_hadDigit := True\<rparr>)
      else None)"
  by (simp add: Let_def)

declare parse_loop.simps(2) [simp del]

text \<open>The numbers a digit string runs through when it is appended to a value.\<close>

definition extend_dec :: "nat \<Rightarrow> string \<Rightarrow> nat" where
  "extend_dec v s = foldl (\<lambda>v c. v * 10 + (of_char c - 48)) v s"

lemma extend_dec_simps [simp]:
  "extend_dec v [] = v" "extend_dec v (c # s) = extend_dec (v * 10 + (of_char c - 48)) s"
  by (simp_all add: extend_dec_def)

lemma extend_dec_ge: "v \<le> extend_dec v s"
proof (induction s arbitrary: v)
  case (Cons c s)
  have "v \<le> v * 10 + (of_char c - 48)" by simp
  also have "\<dots> \<le> extend_dec (v * 10 + (of_char c - 48)) s" by (rule Cons.IH)
  finally show ?case by simp
qed simp

lemma extend_dec_zero: "extend_dec 0 s = nat_of_dec s"
  by (simp add: extend_dec_def nat_of_dec_def)

text \<open>One field: digits only, no value above 255 on the way.\<close>

lemma parse_digits:
  assumes "\<forall>c \<in> set f. c \<noteq> CHR ''.''" "ps_val st \<le> 255"
  shows "parse_loop (f @ rest) st =
    (if (\<forall>c \<in> set f. is_digit c) \<and> extend_dec (ps_val st) f \<le> 255
     then parse_loop rest (st\<lparr>ps_val := extend_dec (ps_val st) f, ps_hadDigit := ps_hadDigit st \<or> f \<noteq> []\<rparr>)
     else None)"
  using assms
proof (induction f arbitrary: st)
  case Nil
  then show ?case by (cases st) simp
next
  case (Cons c f)
  let ?v = "ps_val st * 10 + (of_char c - 48)"
  have c: "c \<noteq> CHR ''.''" and f: "\<forall>c \<in> set f. c \<noteq> CHR ''.''"
    using Cons.prems(1) by simp_all
  show ?case
  proof (cases "is_digit c \<and> ?v \<le> 255")
    case True
    then show ?thesis
      using Cons.IH [of "st\<lparr>ps_val := ?v, ps_hadDigit := True\<rparr>"] f by (simp add: parse_loop_char [OF c])
  next
    case False
    then have "\<not> (is_digit c \<and> extend_dec ?v f \<le> 255)"
      using extend_dec_ge [of ?v f] by linarith
    then show ?thesis
      using False by (simp add: parse_loop_char [OF c]) blast
  qed
qed

definition field_ok :: "string \<Rightarrow> bool" where
  "field_ok f \<longleftrightarrow> f \<noteq> [] \<and> (\<forall>c \<in> set f. is_digit c) \<and> nat_of_dec f \<le> 255"

lemma parse_field_dot:
  assumes "CHR ''.'' \<notin> set f" "ps_val st = 0" "\<not> ps_hadDigit st"
  shows "parse_loop (f @ CHR ''.'' # rest) st =
    (if field_ok f \<and> ps_octet st < 3
     then parse_loop rest (st\<lparr>ps_ip := (ps_ip st)[ps_octet st := of_nat (nat_of_dec f)],
            ps_octet := ps_octet st + 1\<rparr>)
     else None)"
proof -
  have nodot: "\<forall>c \<in> set f. c \<noteq> CHR ''.''"
    using assms(1) by auto
  let ?st = "st\<lparr>ps_val := nat_of_dec f, ps_hadDigit := f \<noteq> []\<rparr>"
  have "parse_loop (f @ CHR ''.'' # rest) st =
      (if (\<forall>c \<in> set f. is_digit c) \<and> nat_of_dec f \<le> 255 then parse_loop (CHR ''.'' # rest) ?st else None)"
    using parse_digits [OF nodot, of st "CHR ''.'' # rest"] assms(2,3) by (simp only: extend_dec_zero) simp
  moreover have "?st\<lparr>ps_ip := x, ps_octet := n, ps_val := 0, ps_hadDigit := False\<rparr>
      = st\<lparr>ps_ip := x, ps_octet := n\<rparr>" for x n
    using assms(2,3) by (cases st) simp
  ultimately show ?thesis
    by (simp add: parse_loop_dot field_ok_def not_less not_le)
qed

lemma parse_field_end:
  assumes "CHR ''.'' \<notin> set f" "ps_val st = 0" "\<not> ps_hadDigit st"
  shows "parse_loop f st =
    (if (\<forall>c \<in> set f. is_digit c) \<and> nat_of_dec f \<le> 255
     then Some (st\<lparr>ps_val := nat_of_dec f, ps_hadDigit := f \<noteq> []\<rparr>) else None)"
proof -
  have "\<forall>c \<in> set f. c \<noteq> CHR ''.''"
    using assms(1) by auto
  from parse_digits [OF this, of st "[]"] assms(2,3) show ?thesis
    by (simp only: extend_dec_zero) simp
qed

lemma split_on_no_sep_inside: "f \<in> set (split_on sep s) \<Longrightarrow> sep \<notin> set f"
proof (induction sep s arbitrary: f rule: split_on.induct)
  case (2 sep c cs)
  obtain h hs where h: "split_on sep cs = h # hs"
    using split_on_nonempty [of sep cs] by (cases "split_on sep cs") blast+
  then show ?case
    using 2 by (cases "c = sep") auto
qed simp

definition octets_of :: "string list \<Rightarrow> ip4 option" where
  "octets_of fs =
     (case fs of
        [f1, f2, f3, f4] \<Rightarrow>
          if field_ok f1 \<and> field_ok f2 \<and> field_ok f3 \<and> field_ok f4
          then Some (of_nat (nat_of_dec f1), of_nat (nat_of_dec f2), of_nat (nat_of_dec f3), of_nat (nat_of_dec f4))
          else None
      | _ \<Rightarrow> None)"

lemma parse_join:
  assumes fs: "\<forall>f \<in> set fs. CHR ''.'' \<notin> set f" "fs \<noteq> []"
  shows "(case parse_loop (join_on (CHR ''.'') fs) parse_start of
            None \<Rightarrow> None
          | Some st \<Rightarrow> if ps_octet st \<noteq> 3 \<or> \<not> ps_hadDigit st then None
              else let ip = (ps_ip st)[3 := of_nat (ps_val st)] in Some (ip ! 0, ip ! 1, ip ! 2, ip ! 3))
       = octets_of fs"
proof -
  note pf = parse_field_dot parse_field_end
  have three: "(3 :: nat) = Suc (Suc (Suc 0))" by simp
  obtain f1 r1 where 1: "fs = f1 # r1" using fs(2) by (cases fs) auto
  show ?thesis
  proof (cases r1)
    case Nil
    then show ?thesis using fs 1 by (simp add: pf parse_start_def octets_of_def)
  next
    case 2: (Cons f2 r2)
    show ?thesis
    proof (cases r2)
      case Nil
      then show ?thesis using fs 1 2 by (simp add: pf parse_start_def octets_of_def)
    next
      case 3: (Cons f3 r3)
      show ?thesis
      proof (cases r3)
        case Nil
        then show ?thesis using fs 1 2 3 by (simp add: pf parse_start_def octets_of_def)
      next
        case 4: (Cons f4 r4)
        show ?thesis
          using fs 1 2 3 4
          by (cases r4) (auto simp add: pf parse_start_def octets_of_def field_ok_def three Let_def)
      qed
    qed
  qed
qed

lemma parseIPv4Fast_octets: "parseIPv4Fast s = octets_of (split_on (CHR ''.'') s)"
proof -
  have "join_on (CHR ''.'') (split_on (CHR ''.'') s) = s"
    by (rule join_split)
  moreover have "\<forall>f \<in> set (split_on (CHR ''.'') s). CHR ''.'' \<notin> set f"
    using split_on_no_sep_inside by blast
  ultimately show ?thesis
    using parse_join [of "split_on (CHR ''.'') s"] by (simp add: parseIPv4Fast_def)
qed

lemma parse_ip4_string: "parseIPv4Fast (ip4_string a) = Some a"
proof -
  have field: "field_ok (dec_of_nat (unat (b :: u8)))" for b
    using unat_u8_le [of b] dec_of_nat_digits by (auto simp: field_ok_def simp del: unat_u8_le)
  obtain b0 b1 b2 b3 where a: "a = (b0, b1, b2, b3)" by (cases a)
  have "split_on (CHR ''.'') (ip4_string a) = map (\<lambda>b. dec_of_nat (unat b)) (bytes_of_ip4 a)"
    unfolding ip4_string_def using not_digit_notin_dec [OF dot_not_digit] a
    by (intro split_join) auto
  then show ?thesis
    using field by (simp add: parseIPv4Fast_octets a octets_of_def)
qed

text \<open>
  \<open>parseIPv4Fast\<close> accepts exactly the texts of four decimal fields separated by dots, each with at
  least one digit and a value of at most 255, and returns those four values. In particular the
  address column the saver writes is read back as the same address.
\<close>

theorem parseIPv4Fast_spec:
  "parseIPv4Fast s = octets_of (split_on (CHR ''.'') s) \<and> parseIPv4Fast (ip4_string a) = Some a"
  using parseIPv4Fast_octets parse_ip4_string by blast


section \<open>Inter-protocol samples\<close>

definition InterprotocolSample :: "string \<Rightarrow> string option" where
  "InterprotocolSample strategy =
     (if strategy \<in> {''REFLECTION'', ''CONSTANT'', ''SINGLE'', ''PER_DESTINATION'', ''PER_BUCKET''}
      then Some ''base''
      else if strategy \<in> {''MULTI'', ''RANDOM''} then Some ''mass''
      else None)"

text \<open>
  \<open>configureInterprotocolSampling\<close>: the new configuration with the flag that no error is returned. The
  fields set before an error stay set.
\<close>

definition vary :: "u16 list \<Rightarrow> nat \<Rightarrow> bool" where
  "vary ids n = list_ex (\<lambda>i. ids ! (i mod length ids) \<noteq> ids ! 0) [1..<n]"

definition configureInterprotocolSampling :: "ipid_config \<Rightarrow> string \<Rightarrow> ipid_config \<times> bool" where
  "configureInterprotocolSampling c sample =
     (let c = c\<lparr>ConnectionCount := 4\<rparr>;
          (c, ok) =
            (if sample = ''base''
             then (c\<lparr>RequestsPerConnection := 4, MeasurementMode := MeasurementModeRTBased\<rparr>, True)
             else if sample = ''mass''
             then let c = c\<lparr>RequestsPerConnection := 25, MeasurementMode := MeasurementModeFixedInterval,
                        FixedIntervalConfig := (FixedIntervalConfig c)\<lparr>MinimumReplyRate := 4 / 5\<rparr>\<rparr>
                  in (c, RequestInterval (FixedIntervalConfig c) > 0)
             else (c, False))
      in if \<not> ok then (c, False)
         else if RequestIPIDs c = [] then (c, False)
         else (c, vary (RequestIPIDs c) (unat (ConnectionCount c * RequestsPerConnection c))))"

definition ConfigureInterprotocolSampling :: "ipid_config \<Rightarrow> nat \<Rightarrow> string \<Rightarrow> ipid_config \<times> bool" where
  "ConfigureInterprotocolSampling c protocolCount sample =
     (if protocolCount \<noteq> 2 \<and> protocolCount \<noteq> 3 then (c, False)
      else configureInterprotocolSampling c sample)"


section \<open>Streaming\<close>

datatype read_err = NoErr | EOF | ReadErr

text \<open>The result of a stream: its error, or how it ended.\<close>

datatype stream_end = Exhausted | Stopped | Failed_read | Bad_strategy string | Bad_ip string

text \<open>
  The row loops. The first component is what has been handed to the workers, the last is the number
  of selects passed so far.
\<close>

fun zmap_rows :: "(nat \<Rightarrow> bool) \<Rightarrow> string list \<Rightarrow> ip4 list \<Rightarrow> nat \<Rightarrow> (ip4 list \<times> nat) + (ip4 list)" where
  "zmap_rows stop [] sent k = Inl (sent, k)"
| "zmap_rows stop (row # rows) sent k =
     (case parseIPv4Fast row of
        None \<Rightarrow> zmap_rows stop rows sent k
      | Some ip \<Rightarrow> if stop k then Inr sent else zmap_rows stop rows (sent @ [ip]) (k + 1))"

fun stream_zmap ::
  "(nat \<Rightarrow> bool) \<Rightarrow> (string list \<times> read_err) list \<Rightarrow> ip4 list \<Rightarrow> nat \<Rightarrow> (ip4 list \<times> stream_end) option" where
  "stream_zmap stop [] sent k = (if stop k then Some (sent, Stopped) else None)"
| "stream_zmap stop ((rows, err) # reads) sent k =
     (if stop k then Some (sent, Stopped)
      else case zmap_rows stop rows sent (k + 1) of
        Inr sent \<Rightarrow> Some (sent, Stopped)
      | Inl (sent, k) \<Rightarrow>
          if err = EOF then Some (sent, Exhausted)
          else if err = ReadErr then Some (sent, Failed_read)
          else if rows = [] then Some (sent, Exhausted)
          else stream_zmap stop reads sent k)"

fun inter_rows ::
  "string \<Rightarrow> (nat \<Rightarrow> bool) \<Rightarrow> (string \<times> string) list \<Rightarrow> (ip4 \<times> string) list \<Rightarrow> nat \<Rightarrow>
   ((ip4 \<times> string) list \<times> nat) + ((ip4 \<times> string) list \<times> stream_end)" where
  "inter_rows wanted stop [] sent k = Inl (sent, k)"
| "inter_rows wanted stop ((addr, strategy) # rows) sent k =
     (case InterprotocolSample strategy of
        None \<Rightarrow> Inr (sent, Bad_strategy strategy)
      | Some sample \<Rightarrow>
          if sample \<noteq> wanted then inter_rows wanted stop rows sent k
          else case parseIPv4Fast addr of
            None \<Rightarrow> Inr (sent, Bad_ip addr)
          | Some ip \<Rightarrow> if stop k then Inr (sent, Stopped)
              else inter_rows wanted stop rows (sent @ [(ip, strategy)]) (k + 1))"

fun stream_inter ::
  "string \<Rightarrow> (nat \<Rightarrow> bool) \<Rightarrow> ((string \<times> string) list \<times> read_err) list \<Rightarrow> (ip4 \<times> string) list \<Rightarrow> nat \<Rightarrow>
   ((ip4 \<times> string) list \<times> stream_end) option" where
  "stream_inter wanted stop [] sent k = None"
| "stream_inter wanted stop ((rows, err) # reads) sent k =
     (case inter_rows wanted stop rows sent k of
        Inr result \<Rightarrow> Some result
      | Inl (sent, k) \<Rightarrow>
          if err = EOF \<or> err = NoErr \<and> rows = [] then Some (sent, Exhausted)
          else if err \<noteq> NoErr then Some (sent, Failed_read)
          else stream_inter wanted stop reads sent k)"

definition valid_targets :: "string list \<Rightarrow> ip4 list" where
  "valid_targets rows = List.map_filter parseIPv4Fast rows"

lemma valid_targets_simps [simp]:
  "valid_targets [] = []"
  "valid_targets (r # rs) = (case parseIPv4Fast r of None \<Rightarrow> valid_targets rs | Some a \<Rightarrow> a # valid_targets rs)"
  "valid_targets (xs @ ys) = valid_targets xs @ valid_targets ys"
  by (simp_all add: valid_targets_def map_filter_def split: option.split)

lemma zmap_rows_sent:
  "(case zmap_rows stop rows sent k of
      Inl (sent', k') \<Rightarrow> sent' = sent @ valid_targets rows
    | Inr sent' \<Rightarrow> \<exists>xs ys. sent' = sent @ xs \<and> valid_targets rows = xs @ ys)"
  by (induction stop rows sent k rule: zmap_rows.induct) (auto split: option.split sum.splits)

lemma zmap_rows_unstopped:
  assumes "\<forall>k. \<not> stop k"
  shows "\<exists>k'. zmap_rows stop rows sent k = Inl (sent @ valid_targets rows, k')"
  using assms by (induction stop rows sent k rule: zmap_rows.induct) (auto split: option.split)

lemma stream_zmap_from:
  assumes "stream_zmap stop reads sent0 k = Some (sent, result)"
  shows "\<exists>xs. sent = sent0 @ xs \<and> (\<exists>rest. valid_targets (concat (map fst reads)) = xs @ rest)
    \<and> (result = Exhausted \<longrightarrow> (\<exists>n. n \<le> length reads \<and> xs = valid_targets (concat (map fst (take n reads)))
        \<and> 0 < n \<and> (snd (reads ! (n - 1)) = EOF \<or> fst (reads ! (n - 1)) = [])))"
  using assms
proof (induction stop reads sent0 k rule: stream_zmap.induct)
  case (1 stop sent0 k)
  then show ?case by (simp split: if_splits)
next
  case (2 stop rows err reads sent0 k)
  show ?case
  proof (cases "stop k")
    case True
    then show ?thesis using 2(2) by simp
  next
    case go: False
    show ?thesis
    proof (cases "zmap_rows stop rows sent0 (k + 1)")
      case (Inr s)
      then show ?thesis
        using 2(2) go zmap_rows_sent [where stop = stop and rows = rows and sent = sent0 and k = "k + 1"] by auto
    next
      case (Inl sk)
      obtain s k' where sk: "sk = (s, k')" by (cases sk)
      have s: "s = sent0 @ valid_targets rows"
        using zmap_rows_sent [where stop = stop and rows = rows and sent = sent0 and k = "k + 1"] Inl sk by simp
      show ?thesis
      proof (cases "err = EOF \<or> err = ReadErr \<or> rows = []")
        case True
        then have "sent = s" "result = Exhausted \<longrightarrow> err = EOF \<or> rows = []"
          using 2(2) go Inl sk by (auto split: if_splits)
        then show ?thesis
          using s by - (rule exI [of _ "valid_targets rows"], auto intro!: exI [of _ "Suc 0"])
      next
        case False
        then have rec: "stream_zmap stop reads s k' = Some (sent, result)"
          using 2(2) go Inl sk by simp
        obtain xs rest where xs: "sent = s @ xs" "valid_targets (concat (map fst reads)) = xs @ rest"
          and ex: "result = Exhausted \<longrightarrow> (\<exists>n. n \<le> length reads
            \<and> xs = valid_targets (concat (map fst (take n reads)))
            \<and> 0 < n \<and> (snd (reads ! (n - 1)) = EOF \<or> fst (reads ! (n - 1)) = []))"
          using 2(1) [OF go Inl sk [symmetric]] False rec by (metis old.prod.exhaust)
        show ?thesis
        proof (rule exI [of _ "valid_targets rows @ xs"], intro conjI impI)
          show "sent = sent0 @ valid_targets rows @ xs" using xs s by simp
          show "\<exists>rest. valid_targets (concat (map fst ((rows, err) # reads))) = (valid_targets rows @ xs) @ rest"
            using xs by simp
          assume "result = Exhausted"
          with ex obtain n where n: "n \<le> length reads" "xs = valid_targets (concat (map fst (take n reads)))"
            "0 < n" "snd (reads ! (n - 1)) = EOF \<or> fst (reads ! (n - 1)) = []" by blast
          then show "\<exists>n. n \<le> length ((rows, err) # reads)
            \<and> valid_targets rows @ xs = valid_targets (concat (map fst (take n ((rows, err) # reads))))
            \<and> 0 < n \<and> (snd (((rows, err) # reads) ! (n - 1)) = EOF \<or> fst (((rows, err) # reads) ! (n - 1)) = [])"
            by (intro exI [of _ "Suc n"]) (cases n; simp)
        qed
      qed
    qed
  qed
qed

text \<open>
  Streaming hands the workers the parseable addresses of the file in file order, each once and
  nothing else: all of them when the stream is read to its end, a prefix when it is stopped or a read
  fails.
\<close>

theorem stream_zmap_targets:
  assumes "stream_zmap stop reads [] 0 = Some (sent, result)"
  shows "(\<exists>rest. valid_targets (concat (map fst reads)) = sent @ rest)
    \<and> (result = Exhausted \<longrightarrow> (\<exists>read. read \<le> length reads
          \<and> sent = valid_targets (concat (map fst (take read reads)))
          \<and> 0 < read \<and> (snd (reads ! (read - 1)) = EOF \<or> fst (reads ! (read - 1)) = [])))"
  using stream_zmap_from [OF assms] by auto

theorem stream_zmap_targets_witness:
  "\<exists>rest. valid_targets [''192.0.2.9'', ''x'', ''10.0.0.1''] = [(192, 0, 2, 9), (10, 0, 0, 1)] @ rest"
proof -
  have "stream_zmap (\<lambda>_. False) [([''192.0.2.9'', ''x''], NoErr), ([''10.0.0.1''], EOF)] [] 0
      = Some ([(192, 0, 2, 9), (10, 0, 0, 1)], Exhausted)"
    by (simp add: parseIPv4Fast_def parse_start_def parse_loop.simps is_digit_def Let_def)
  from stream_zmap_targets [OF this] show ?thesis by simp
qed


text \<open>The rows of an inter-protocol target file that belong to a sample.\<close>

definition wanted_rows :: "string \<Rightarrow> (string \<times> string) list \<Rightarrow> (string \<times> string) list" where
  "wanted_rows wanted rows = filter (\<lambda>(a, s). InterprotocolSample s = Some wanted) rows"

lemma inter_rows_all:
  assumes "inter_rows wanted stop rows sent k = Inl (sent', k')"
  shows "(\<forall>(a, s) \<in> set rows. InterprotocolSample s \<noteq> None)
    \<and> (\<exists>ips. map (\<lambda>(a, s). parseIPv4Fast a) (wanted_rows wanted rows) = map Some ips
         \<and> sent' = sent @ zip ips (map snd (wanted_rows wanted rows)))"
  using assms
proof (induction wanted stop rows sent k rule: inter_rows.induct)
  case (1 wanted stop sent k)
  then show ?case by (simp add: wanted_rows_def)
next
  case (2 wanted stop a s rows sent k)
  show ?case
  proof (cases "InterprotocolSample s")
    case None
    then show ?thesis using 2 by simp
  next
    case (Some sample)
    show ?thesis
    proof (cases "sample = wanted")
      case False
      then show ?thesis using 2 Some by (auto simp: wanted_rows_def)
    next
      case True
      obtain ip where ip: "parseIPv4Fast a = Some ip" "\<not> stop k"
        using 2(3) Some True by (auto split: option.splits if_splits)
      then have "inter_rows wanted stop rows (sent @ [(ip, s)]) (k + 1) = Inl (sent', k')"
        using 2(3) Some True by simp
      from 2(2) [OF Some _ ip this] True obtain ips where
        "\<forall>(a, s) \<in> set rows. InterprotocolSample s \<noteq> None"
        "map (\<lambda>(a, s). parseIPv4Fast a) (wanted_rows wanted rows) = map Some ips"
        "sent' = (sent @ [(ip, s)]) @ zip ips (map snd (wanted_rows wanted rows))"
        by auto
      then show ?thesis
        using Some True ip by (auto simp: wanted_rows_def intro!: exI [of _ "ip # ips"])
    qed
  qed
qed

lemma inter_rows_end: "inter_rows wanted stop rows sent k = Inr (s, e) \<Longrightarrow> e \<noteq> Exhausted"
  by (induction wanted stop rows sent k rule: inter_rows.induct)
     (auto split: option.splits if_splits)

lemma wanted_rows_append [simp]: "wanted_rows w (xs @ ys) = wanted_rows w xs @ wanted_rows w ys"
  by (simp add: wanted_rows_def)

lemma stream_inter_from:
  assumes "stream_inter wanted stop reads sent0 k = Some (sent, Exhausted)"
  shows "\<exists>n ips. n \<le> length reads \<and> (\<forall>(a, s) \<in> set (concat (map fst (take n reads))). InterprotocolSample s \<noteq> None)
    \<and> map (\<lambda>(a, s). parseIPv4Fast a) (wanted_rows wanted (concat (map fst (take n reads)))) = map Some ips
    \<and> sent = sent0 @ zip ips (map snd (wanted_rows wanted (concat (map fst (take n reads)))))
    \<and> 0 < n \<and> (snd (reads ! (n - 1)) = EOF \<or> fst (reads ! (n - 1)) = [])"
  using assms
proof (induction wanted stop reads sent0 k rule: stream_inter.induct)
  case (1 wanted stop sent0 k)
  then show ?case by simp
next
  case (2 wanted stop rows err reads sent0 k)
  obtain s k' where rows: "inter_rows wanted stop rows sent0 k = Inl (s, k')"
    using 2(2) inter_rows_end [of wanted stop rows sent0 k]
    by (cases "inter_rows wanted stop rows sent0 k") auto
  from inter_rows_all [OF rows] obtain ips where
    ips: "\<forall>(a, s) \<in> set rows. InterprotocolSample s \<noteq> None"
      "map (\<lambda>(a, s). parseIPv4Fast a) (wanted_rows wanted rows) = map Some ips"
      "s = sent0 @ zip ips (map snd (wanted_rows wanted rows))"
    by blast
  have len: "length ips = length (wanted_rows wanted rows)"
    using arg_cong [OF ips(2), of length] by simp
  show ?case
  proof (cases "err = EOF \<or> err = NoErr \<and> rows = []")
    case True
    then have "sent = s" using 2(2) rows by simp
    then show ?thesis
      using ips True by (intro exI [of _ "Suc 0"] exI [of _ ips]) auto
  next
    case False
    then have err: "err = NoErr" "stream_inter wanted stop reads s k' = Some (sent, Exhausted)"
      using 2(2) rows by (auto split: if_splits)
    from 2(1) [OF rows _ False _ err(2)] err(1) obtain n ips2 where n: "n \<le> length reads"
      "\<forall>(a, s) \<in> set (concat (map fst (take n reads))). InterprotocolSample s \<noteq> None"
      "map (\<lambda>(a, s). parseIPv4Fast a) (wanted_rows wanted (concat (map fst (take n reads)))) = map Some ips2"
      "sent = s @ zip ips2 (map snd (wanted_rows wanted (concat (map fst (take n reads)))))"
      "0 < n" "snd (reads ! (n - 1)) = EOF \<or> fst (reads ! (n - 1)) = []"
      by auto
    have last: "((rows, err) # reads) ! (Suc n - 1) = reads ! (n - 1)"
      using n(5) by (cases n) simp_all
    show ?thesis
      using n ips len last by (intro exI [of _ "Suc n"] exI [of _ "ips @ ips2"]) auto
  qed
qed

text \<open>
  A completed inter-protocol stream has handed over exactly the rows of the wanted sample, in file
  order, each with its strategy; every strategy in the file was a known one and every wanted address
  was valid (an unknown strategy or an invalid address ends the stream with an error instead).
\<close>

theorem stream_inter_targets:
  assumes "stream_inter wanted stop reads [] 0 = Some (sent, Exhausted)"
  shows "\<exists>n ips. n \<le> length reads \<and> 0 < n \<and> (snd (reads ! (n - 1)) = EOF \<or> fst (reads ! (n - 1)) = [])
    \<and> (\<forall>(a, s) \<in> set (concat (map fst (take n reads))). InterprotocolSample s \<noteq> None)
    \<and> map (\<lambda>(a, s). parseIPv4Fast a) (wanted_rows wanted (concat (map fst (take n reads)))) = map Some ips
    \<and> sent = zip ips (map snd (wanted_rows wanted (concat (map fst (take n reads)))))"
  using stream_inter_from [OF assms] by simp blast

theorem stream_inter_targets_witness:
  "\<exists>n ips. n \<le> (1 :: nat) \<and> 0 < n \<and> map (\<lambda>(a, s). parseIPv4Fast a)
     (wanted_rows ''mass'' (concat (map fst (take n [([(''10.0.0.1'', ''RANDOM''), (''x'', ''SINGLE'')], EOF)]))))
     = map Some ips"
proof -
  have "stream_inter ''mass'' (\<lambda>_. False) [([(''10.0.0.1'', ''RANDOM''), (''x'', ''SINGLE'')], EOF)] [] 0
      = Some ([((10, 0, 0, 1), ''RANDOM'')], Exhausted)"
    by (simp add: InterprotocolSample_def parseIPv4Fast_def parse_start_def parse_loop.simps is_digit_def Let_def)
  from stream_inter_targets [OF this] show ?thesis by auto
qed

lemma configure_ok:
  assumes "configureInterprotocolSampling c sample = (c', True)"
  shows "sample = ''base'' \<and> RequestsPerConnection c' = 4 \<and> MeasurementMode c' = MeasurementModeRTBased
        \<and> FixedIntervalConfig c' = FixedIntervalConfig c
      \<or> sample = ''mass'' \<and> RequestsPerConnection c' = 25 \<and> MeasurementMode c' = MeasurementModeFixedInterval
        \<and> 0 < RequestInterval (FixedIntervalConfig c')"
    and "ConnectionCount c' = 4" "RequestIPIDs c \<noteq> []"
    and "vary (RequestIPIDs c) (unat (ConnectionCount c' * RequestsPerConnection c'))"
    and "c' = c\<lparr>ConnectionCount := ConnectionCount c', RequestsPerConnection := RequestsPerConnection c',
          MeasurementMode := MeasurementMode c', FixedIntervalConfig := FixedIntervalConfig c'\<rparr>"
  using assms by (auto simp: configureInterprotocolSampling_def Let_def split: if_splits)

text \<open>
  The request pattern of an inter-protocol sample: base samples are 4 x 4 and round-trip based, mass
  samples 4 x 25 at a positive fixed interval; two of the request IP-IDs of one protocol's sequence
  differ, so that a constant answer cannot be mistaken for an echo of the request; all other settings
  are untouched; and the start-up of a run with these settings is well formed.
\<close>

theorem interprotocol_sampling:
  assumes "ConfigureInterprotocolSampling c (length protocols) sample = (c', True)"
    and "\<forall>x \<in> set protocols. payloads x \<noteq> None"
  shows "(sample = ''base'' \<and> RequestsPerConnection c' = 4 \<and> MeasurementMode c' = MeasurementModeRTBased
        \<and> FixedIntervalConfig c' = FixedIntervalConfig c
      \<or> sample = ''mass'' \<and> RequestsPerConnection c' = 25 \<and> MeasurementMode c' = MeasurementModeFixedInterval
        \<and> 0 < RequestInterval (FixedIntervalConfig c'))
    \<and> ConnectionCount c' = 4
    \<and> (\<exists>i < unat (ConnectionCount c' * RequestsPerConnection c').
          RequestIPIDs c ! (i mod length (RequestIPIDs c)) \<noteq> RequestIPIDs c ! 0)
    \<and> c' = c\<lparr>ConnectionCount := ConnectionCount c', RequestsPerConnection := RequestsPerConnection c',
          MeasurementMode := MeasurementMode c', FixedIntervalConfig := FixedIntervalConfig c'\<rparr>
    \<and> (\<forall>ports random ipA ipB g. run_setup c' protocols ports random ipA ipB = Some g \<longrightarrow> wf_context g)"
proof -
  have conf: "configureInterprotocolSampling c sample = (c', True)" and "length protocols \<le> 3"
    using assms(1) by (auto simp: ConfigureInterprotocolSampling_def split: if_splits)
  note ok = configure_ok [OF conf]
  have "\<exists>i < unat (ConnectionCount c' * RequestsPerConnection c').
      RequestIPIDs c ! (i mod length (RequestIPIDs c)) \<noteq> RequestIPIDs c ! 0"
    using ok(4) by (auto simp: vary_def list_ex_iff)
  moreover have "wf_context g" if "run_setup c' protocols ports random ipA ipB = Some g" for ports random ipA ipB g
    using ok(1,2) \<open>length protocols \<le> 3\<close> assms(2) that by (intro run_setup_wf) auto
  ultimately show ?thesis
    using ok(1,2,5) by blast
qed

theorem interprotocol_sampling_witness:
  "\<exists>i < (16 :: nat). [7, 9 :: u16] ! (i mod 2) \<noteq> 7"
proof -
  have "ConfigureInterprotocolSampling demo_config (length [PayloadICMP, PayloadTCP]) ''base'' =
      (demo_config\<lparr>ConnectionCount := 4, RequestsPerConnection := 4,
         MeasurementMode := MeasurementModeRTBased\<rparr>, True)"
    by (simp add: ConfigureInterprotocolSampling_def configureInterprotocolSampling_def demo_config_def vary_def
        list_ex_iff) (rule bexI [of _ 1], simp_all)
  from interprotocol_sampling [OF this]
  have "\<exists>i < unat (4 * 4 :: u16). [7, 9 :: u16] ! (i mod length [7, 9 :: u16]) \<noteq> [7, 9] ! 0"
    by (simp add: demo_config_def del: list.size)
  moreover have "unat (4 * 4 :: u16) = 16" "length [7, 9 :: u16] = 2" by simp_all
  ultimately show ?thesis by (simp only: nth_Cons_0)
qed

end
