(* ===== verification/Save.thy ===== *)
theory Save
  imports Probe Targets
begin

text \<open>
  Turning finished probes into rows: \<open>probeToRecord\<close> of \<^verbatim>\<open>ipid/probe/save.go\<close> and the consumer
  loops \<open>Save\<close> and \<open>saveInterProtocol\<close> over the save channel, with the record types of
  \<^verbatim>\<open>internal/records/records.go\<close>. Writing a batch with the parquet library is a parameter (does
  the \<open>k\<close>-th write succeed); opening and closing the file is not modelled. The property that
  matters is that a row loses nothing: two probes with the same row have the same target and the
  same received samples.
\<close>

section \<open>Records\<close>

record ipid_record =
  IPAddress :: string
  IPIDSequence :: string
  SendTimestampSequence :: string
  ReceiveTimestampSequence :: string
  DFSequence :: string


type_synonym columns = "string \<times> string \<times> string \<times> string"

definition ValueSeparator :: char where "ValueSeparator = CHR '',''"
definition InvalidSymbol :: char where "InvalidSymbol = CHR ''-''"

text \<open>One iteration: a separator before every sample but the first, then the sample's four fields.\<close>

definition write_sample :: "bool \<Rightarrow> sample \<Rightarrow> columns \<Rightarrow> columns" where
  "write_sample first s cols =
     (let sep = (\<lambda>b. if first then b else b @ [ValueSeparator]);
          (ipIds, sent, recv, df) = cols;
          (ipIds, sent, recv, df) = (sep ipIds, sep sent, sep recv, sep df)
      in if IsReceived s
         then (ipIds @ dec_of_nat (unat (IpID s)), sent @ dec_of_int (SentTime s),
               recv @ dec_of_int (ReceiveTime s), df @ (if DontFragment s then ''1'' else ''0''))
         else (ipIds @ [InvalidSymbol], sent @ [InvalidSymbol], recv @ [InvalidSymbol], df @ [InvalidSymbol]))"

fun write_samples :: "bool \<Rightarrow> bool \<Rightarrow> sample list \<Rightarrow> columns \<Rightarrow> columns option" where
  "write_samples rtBased first [] cols = Some cols"
| "write_samples rtBased first (s # ss) cols =
     (if rtBased \<and> \<not> IsReceived s then None
      else write_samples rtBased False ss (write_sample first s cols))"

definition probeToRecord :: "mctx \<Rightarrow> probe \<Rightarrow> bool \<Rightarrow> ipid_record option" where
  "probeToRecord g p rtBased =
     (if length (Samples p) \<noteq> unat (RequestCount g) then None
      else case write_samples rtBased True (Samples p) ([], [], [], []) of
        None \<Rightarrow> None
      | Some (ipIds, sent, recv, df) \<Rightarrow>
          Some \<lparr>IPAddress = ip4_string (Target p), IPIDSequence = ipIds, SendTimestampSequence = sent,
                ReceiveTimestampSequence = recv, DFSequence = df\<rparr>)"


section \<open>The saver\<close>











section \<open>Rows lose nothing\<close>

definition column :: "(sample \<Rightarrow> string) \<Rightarrow> sample list \<Rightarrow> string list" where
  "column f ss = map (\<lambda>s. if IsReceived s then f s else [InvalidSymbol]) ss"

abbreviation id_text :: "sample \<Rightarrow> string" where "id_text s \<equiv> dec_of_nat (unat (IpID s))"
abbreviation sent_text :: "sample \<Rightarrow> string" where "sent_text s \<equiv> dec_of_int (SentTime s)"
abbreviation recv_text :: "sample \<Rightarrow> string" where "recv_text s \<equiv> dec_of_int (ReceiveTime s)"
abbreviation df_text :: "sample \<Rightarrow> string" where "df_text s \<equiv> (if DontFragment s then ''1'' else ''0'')"

definition joined :: "(sample \<Rightarrow> string) \<Rightarrow> sample list \<Rightarrow> string" where
  "joined f ss = join_on ValueSeparator (column f ss)"

lemma join_on_Cons: "join_on sep (x # xs) = x @ concat (map (\<lambda>y. sep # y) xs)"
  by (induction xs arbitrary: x) simp_all

lemma write_samples_columns:
  "write_samples rt False ss (a, b, c, d) =
     (if rt \<and> (\<exists>s \<in> set ss. \<not> IsReceived s) then None
      else Some (a @ concat (map (\<lambda>y. ValueSeparator # y) (column id_text ss)),
                 b @ concat (map (\<lambda>y. ValueSeparator # y) (column sent_text ss)),
                 c @ concat (map (\<lambda>y. ValueSeparator # y) (column recv_text ss)),
                 d @ concat (map (\<lambda>y. ValueSeparator # y) (column df_text ss))))"
  by (induction ss arbitrary: a b c d) (auto simp: column_def write_sample_def Let_def)

lemma write_samples_joined:
  "write_samples rt True ss ([], [], [], []) =
     (if rt \<and> (\<exists>s \<in> set ss. \<not> IsReceived s) then None
      else Some (joined id_text ss, joined sent_text ss, joined recv_text ss, joined df_text ss))"
proof (cases ss)
  case Nil
  then show ?thesis by (simp add: joined_def column_def)
next
  case (Cons s ss')
  then show ?thesis
    by (cases "IsReceived s") (simp_all add: write_sample_def write_samples_columns joined_def column_def
        join_on_Cons Let_def)
qed

lemma probeToRecord_eq:
  "probeToRecord g p rt =
     (if length (Samples p) = unat (RequestCount g) \<and> (rt \<longrightarrow> (\<forall>s \<in> set (Samples p). IsReceived s))
      then Some \<lparr>IPAddress = ip4_string (Target p), IPIDSequence = joined id_text (Samples p),
        SendTimestampSequence = joined sent_text (Samples p),
        ReceiveTimestampSequence = joined recv_text (Samples p), DFSequence = joined df_text (Samples p)\<rparr>
      else None)"
  by (auto simp: probeToRecord_def write_samples_joined)

text \<open>Reading a column back.\<close>

definition read_column :: "string \<Rightarrow> int option list" where
  "read_column text = map (\<lambda>f. if f = [InvalidSymbol] then None else Some (int_of_dec f)) (split_on ValueSeparator text)"

lemma int_of_dec_of_nat [simp]: "int_of_dec (dec_of_nat n) = int n"
  using int_of_dec_of_int [of "int n"] by (simp add: dec_of_int_def)

lemma dec_of_nat_not_invalid [simp]: "dec_of_nat n \<noteq> [InvalidSymbol]"
  using dec_of_nat_digits [of InvalidSymbol n] minus_not_digit by (auto simp: InvalidSymbol_def)

lemma dec_of_int_not_invalid [simp]: "dec_of_int i \<noteq> [InvalidSymbol]"
  by (simp add: dec_of_int_def InvalidSymbol_def [symmetric])

lemma read_joined:
  assumes "ss \<noteq> []" "\<And>s. f s \<noteq> [InvalidSymbol]" "\<And>s. ValueSeparator \<notin> set (f s)"
  shows "read_column (joined f ss) = map (\<lambda>s. if IsReceived s then Some (int_of_dec (f s)) else None) ss"
proof -
  have "split_on ValueSeparator (joined f ss) = column f ss"
    unfolding joined_def using assms
    by (intro split_join) (auto simp: column_def InvalidSymbol_def ValueSeparator_def)
  then show ?thesis
    using assms(2) by (auto simp: read_column_def column_def)
qed

text \<open>
  C31: A saved row can be read back completely: its address parses to the probe's target, and its
  four columns give, position by position, the IP-ID, send time, receive time and DF bit of every
  received sample and \<open>-\<close> for the others. A row is written exactly for probes with the full number of
  samples and, in round-trip mode, none missing.
\<close>

theorem probeToRecord_roundtrip:
  assumes "0 < unat (RequestCount g)"
  shows "(probeToRecord g p rt \<noteq> None \<longleftrightarrow>
      length (Samples p) = unat (RequestCount g) \<and> (rt \<longrightarrow> (\<forall>s \<in> set (Samples p). IsReceived s)))
    \<and> (\<forall>rec. probeToRecord g p rt = Some rec \<longrightarrow>
         parseIPv4Fast (IPAddress rec) = Some (Target p)
       \<and> read_column (IPIDSequence rec) =
           map (\<lambda>s. if IsReceived s then Some (int (unat (IpID s))) else None) (Samples p)
       \<and> read_column (SendTimestampSequence rec) =
           map (\<lambda>s. if IsReceived s then Some (SentTime s) else None) (Samples p)
       \<and> read_column (ReceiveTimestampSequence rec) =
           map (\<lambda>s. if IsReceived s then Some (ReceiveTime s) else None) (Samples p)
       \<and> read_column (DFSequence rec) =
           map (\<lambda>s. if IsReceived s then Some (if DontFragment s then 1 else 0) else None) (Samples p))"
proof -
  have ne: "Samples p \<noteq> []" if "length (Samples p) = unat (RequestCount g)"
    using that assms by auto
  have comma: "ValueSeparator \<notin> set (dec_of_nat n)" "ValueSeparator \<notin> set (dec_of_int i)" for n i
    using not_digit_notin_dec [OF comma_not_digit] comma_notin_dec_of_int by (auto simp: ValueSeparator_def)
  have df: "int_of_dec (df_text s) = (if DontFragment s then 1 else 0)" for s
    by (simp add: int_of_dec_def nat_of_dec_def)
  have dfs: "CHR ''1'' \<noteq> InvalidSymbol" "CHR ''0'' \<noteq> InvalidSymbol"
      "ValueSeparator \<noteq> CHR ''1''" "ValueSeparator \<noteq> CHR ''0''"
    by (simp_all add: InvalidSymbol_def ValueSeparator_def)
  have cols: "read_column (joined id_text (Samples p)) =
        map (\<lambda>s. if IsReceived s then Some (int (unat (IpID s))) else None) (Samples p)"
      "read_column (joined sent_text (Samples p)) = map (\<lambda>s. if IsReceived s then Some (SentTime s) else None) (Samples p)"
      "read_column (joined recv_text (Samples p)) = map (\<lambda>s. if IsReceived s then Some (ReceiveTime s) else None) (Samples p)"
      "read_column (joined df_text (Samples p)) =
        map (\<lambda>s. if IsReceived s then Some (if DontFragment s then 1 else 0) else None) (Samples p)"
    if "length (Samples p) = unat (RequestCount g)"
    using read_joined [OF ne [OF that], of id_text] read_joined [OF ne [OF that], of sent_text]
      read_joined [OF ne [OF that], of recv_text] read_joined [OF ne [OF that], of df_text]
    by (simp_all add: comma df dfs)
  show ?thesis
    by (auto simp: probeToRecord_eq parse_ip4_string cols)
qed

definition demo_saved :: probe where
  "demo_saved =
     (new_probe demo_context (10, 0, 0, 1) [])\<lparr>Samples := replicate 16 (\<lparr>sample_state = SampleReceived,
        SentTime = 100, ReceiveTime = 250, IpID = 4711, DontFragment = True, tcpSequence = 0\<rparr>)\<rparr>"

theorem probeToRecord_roundtrip_witness:
  "\<exists>rec. probeToRecord demo_context demo_saved True = Some rec
     \<and> parseIPv4Fast (IPAddress rec) = Some (10, 0, 0, 1)
     \<and> read_column (IPIDSequence rec) = replicate 16 (Some 4711)"
proof -
  have "0 < unat (RequestCount demo_context)" by (simp add: demo_defs)
  from probeToRecord_roundtrip [OF this, of demo_saved True] show ?thesis
    by (auto simp: demo_saved_def demo_defs IsReceived_def new_probe_def Let_def IsInterProtocol_def)
qed


section \<open>The file keeps the rows in order\<close>














end
