(* ===== verification/Measuring.thy ===== *)
theory Measuring
  imports Answered_Base Save
begin

text \<open>
  The properties of \<open>MeasureTarget\<close>. Safety holds for every script. Liveness: when the host answers
  every request in time, a round-trip run of any kind returns and hands its probe to the saver.
\<close>

section \<open>Properties\<close>

text \<open>
  C18: Measuring a target cannot crash the worker, whatever the receivers, other workers, the limiter,
  the sockets and the shutdown do in between: no slice index is out of range, no channel is closed
  twice, no nil pointer is read.
\<close>

theorem MeasureTarget_never_crashes:
  assumes "wf_context g" "templates_ok g raws" "TcpEstablishConnection g \<Longrightarrow> reset_ready serialize g"
    and "fresh_world hash key w"
  shows "MeasureTarget serialize g hash raws base (Some key) strategy w \<noteq> Crashed"
  using MeasureTarget_run [OF assms] by (auto simp: safely_def)

text \<open>
  C1: \<open>MeasureTarget\<close> returns true exactly when it handed one probe to the saver and counted it as
  valid; that probe is the target's, and keeps what its mode promises: in a round-trip run every
  request is answered, in a fixed-interval run the reply rate reaches the minimum (all of them in a
  base measurement), and a strict probe is complete, so no later packet can change it. When it
  returns false, nothing was handed over.
\<close>

theorem MeasureTarget_hands_over:
  assumes "wf_context g" "templates_ok g raws" "TcpEstablishConnection g \<Longrightarrow> reset_ready serialize g"
    and "fresh_world hash key w"
    and "MeasureTarget serialize g hash raws base (Some key) strategy w = Returns (ok, w')"
  shows "\<exists>saved. cur_saved w' = cur_saved w @ saved \<and> length saved = (if ok then 1 else 0)
    \<and> cur_stats w' ValidProbes = cur_stats w ValidProbes + int (length saved)
    \<and> (\<forall>p \<in> set saved. promised g p \<and> Target p = key \<and> TargetStrategy p = strategy)"
  using safely_returned [OF MeasureTarget_run [OF assms(1-4)] assms(5)] unfolding run_result_def by auto

text \<open>
  C22: However a measurement ends, it cleans up: no entry of the probe stays registered for its target,
  the in-flight counter is back at its value and the probe counter one higher, and a strict probe is
  no longer active, so replies that arrive afterwards are ignored.
\<close>

theorem MeasureTarget_cleans_up:
  assumes "wf_context g" "templates_ok g raws" "TcpEstablishConnection g \<Longrightarrow> reset_ready serialize g"
    and "fresh_world hash key w"
    and "MeasureTarget serialize g hash raws base (Some key) strategy w = Returns (ok, w')"
  shows "(\<forall>i. Lookup hash (cur_registry w') key = Some i \<longrightarrow> entry_Probe (cur_entries w' ! i) \<noteq> 0)
    \<and> cur_stats w' InFlightProbes = cur_stats w InFlightProbes
    \<and> cur_stats w' ProbeCount = cur_stats w ProbeCount + 1
    \<and> (strict (cur_probe w') \<longrightarrow> FulfillReply g r e (cur_probe w') s = Some (False, e, cur_probe w', s))"
  using safely_returned [OF MeasureTarget_run [OF assms(1-4)] assms(5)]
  unfolding run_result_def by (auto simp: FulfillReply_def fulfillBaseReply_def)

text \<open>
  C19: A round-trip measurement that returns true yields a row: the saver's conversion accepts the
  probe that was handed over, and the row names the measured target.
\<close>

theorem MeasureTarget_yields_row:
  assumes "wf_context g" "templates_ok g raws" "TcpEstablishConnection g \<Longrightarrow> reset_ready serialize g"
    and "fresh_world hash key w" "MeasurementMode (Config g) = MeasurementModeRTBased" "\<not> IsInterProtocol g"
    and "MeasureTarget serialize g hash raws base (Some key) strategy w = Returns (True, w')"
  shows "\<exists>p rec. cur_saved w' = cur_saved w @ [p] \<and> probeToRecord g p True = Some rec
    \<and> parseIPv4Fast (IPAddress rec) = Some key"
proof -
  obtain saved where s: "cur_saved w' = cur_saved w @ saved" "length saved = 1"
    "\<forall>p \<in> set saved. probe_ok g p \<and> promised g p \<and> Target p = key \<and> TargetStrategy p = strategy"
    using safely_returned [OF MeasureTarget_run [OF assms(1-4)] assms(7)] unfolding run_result_def by auto
  then obtain p where p: "saved = [p]" by (auto simp: length_Suc_conv)
  then have "length (Samples p) = full g" "\<forall>s \<in> set (Samples p). IsReceived s" "Target p = key"
    using s(3) assms(5,6) by (auto simp: promised_def probe_ok_def)
  then show ?thesis
    using s(1) p by (simp add: probeToRecord_eq parse_ip4_string)
qed

text \<open>
  C3: A host that answers is measured, in every round-trip mode: a single protocol, with or without established
  connections, several protocols, and the base measurement. When every request is granted, written and answered in
  time with a reply that mirrors it, the prober notices each answer, and the saver has room, \<open>MeasureTarget\<close> returns
  true and hands over a probe of the target in which every request is answered; in the base measurement each sample is
  the host's own answer. Between these events other replies, tests of the protocol, withdrawn entries and the stop
  signal may come in any number and order; only a take-over of the target, and in the base measurement a packet that is
  not the answer, are excluded.
\<close>

theorem MeasureTarget_succeeds:
  assumes "wf_context g" "MeasurementMode (Config g) = MeasurementModeRTBased" "templates_ok g raws"
    and "TcpEstablishConnection g \<Longrightarrow> reset_ready serialize g" "fresh_world hash key w"
    and "good_answers g h" "unat (an_base h) + conns g \<le> 65536"
    and "follows (tolerated g (length (cur_entries w))) (answered_script g h (length (cur_entries w))) (cur_script w)"
  shows "\<exists>w' p. MeasureTarget serialize g hash raws (an_base h) (Some key) strategy w = Returns (True, w')
    \<and> cur_saved w' = cur_saved w @ [p] \<and> Target p = key \<and> measured g h p"
  by (rule MeasureTarget_delivers [OF assms])


section \<open>Concrete instances\<close>

text \<open>
  A run with one request on each of two connections, against a host that answers after 300 microseconds. A stray
  reply, the withdrawal of an entry and the stop signal come in between.
\<close>

definition demo_lenient :: mctx where
  "demo_lenient = demo_context\<lparr>Config := demo_config\<lparr>ConnectionCount := 2, RequestsPerConnection := 1\<rparr>, RequestCount := 2\<rparr>"

definition demo_answer :: "nat \<Rightarrow> reply" where
  "demo_answer q = \<lparr>r_dst = (if q = 0 then (192, 0, 2, 1) else (192, 0, 2, 2)), r_protocol = 6,
     r_dstPort = 40000 + of_nat q, r_recoveredSeq = of_nat q, r_tcpSeq = 77, r_ipID = 4711 + of_nat q,
     r_flags = SynAckFlagSet, r_receiveTime = 1000300, r_payloadLength = 0, r_dontFragment = True\<rparr>"

definition demo_answers :: answering where
  "demo_answers = \<lparr>an_base = 40000, an_sent = (\<lambda>_. 1000000), an_reply = demo_answer, an_acked = (\<lambda>_. 1000310),
     an_closed = (\<lambda>_. 1000900)\<rparr>"

definition demo_world :: world where
  "demo_world = \<lparr>cur_probe = new_probe demo_lenient (0, 0, 0, 0) [], cur_entries = [], cur_registry = Inflight_new,
     cur_stats = (\<lambda>_. 0), cur_stopped = False, cur_saved = [], cur_wire = [], cur_packets = [],
     cur_script =
       [Choose Granted, Env (EvReply 0 (demo_answer 1)), Choose (Clock 1000000), Choose (Wire True),
        Env (EvReply 0 (demo_answer 0)), Env (EvForeignLeave 3), Choose EntryDone,
        Choose Granted, Choose (Clock 1000000), Env EvStop, Choose (Wire True), Env (EvReply 1 (demo_answer 1)),
        Choose EntryDone, Env (EvReply 1 (demo_answer 1)), Choose SaveSlot]\<rparr>"

abbreviation demo_templates :: "u8 list list" where
  "demo_templates \<equiv> [replicate 40 0, replicate 40 0]"

abbreviation demo_run :: "(bool \<times> world) outcome" where
  "demo_run \<equiv> MeasureTarget (\<lambda>_. None) demo_lenient (\<lambda>_. 0) demo_templates 40000 (Some (198, 51, 100, 7)) [] demo_world"

lemma demo_lenient_simps:
  "wf_context demo_lenient" "full demo_lenient = 2" "\<not> TcpEstablishConnection demo_lenient" "\<not> strict_run demo_lenient"
  "\<not> IsInterProtocol demo_lenient" "MeasurementMode (Config demo_lenient) = MeasurementModeRTBased"
  by (simp_all add: demo_lenient_def demo_defs wf_context_def IsInterProtocol_def strict_run_def)

lemma demo_templates_ok: "templates_ok demo_lenient demo_templates"
  by (auto simp: templates_ok_def demo_lenient_simps less_2_cases_iff ForSequence_def checksum_offset_def)
     (simp_all add: demo_lenient_def demo_defs checksum_offset_def)

lemma demo_fresh: "fresh_world (\<lambda>_. 0) key demo_world"
  by (simp add: fresh_world_def demo_world_def sharded.ok_start sharded.find_start)

lemma demo_good_answers: "good_answers demo_lenient demo_answers"
  unfolding good_answers_def demo_lenient_simps(2) answer_ok_def
  by (auto simp: less_2_cases_iff mirrors_def demo_answers_def demo_answer_def demo_lenient_simps)
     (simp_all add: demo_lenient_def demo_defs GetSender_def GetSrcPort_def BaseSequenceIndex_def IsInterProtocol_def
       ForSequence_def flagsMatchPayload_def payloadFlagsMatch_def set_equal_iff Microseconds_def expectedReplyFlags_def)

lemma demo_script: "follows (tolerated demo_lenient (length (cur_entries demo_world)))
    (answered_script demo_lenient demo_answers (length (cur_entries demo_world))) (cur_script demo_world)"
  by (simp add: demo_world_def answered_script_def answered_request_def sending_def acknowledged_def demo_lenient_simps
      demo_answers_def tolerated_def upt_rec)

lemma demo_base: "unat (an_base demo_answers) + conns demo_lenient \<le> 65536"
  by (simp add: demo_lenient_def demo_defs demo_answers_def)

lemma demo_world_simps: "cur_saved demo_world = []" "cur_stats demo_world c = 0"
  by (simp_all add: demo_world_def)

lemmas demo_run_facts = demo_lenient_simps demo_templates_ok demo_fresh demo_world_simps

lemma demo_port: "an_base demo_answers = 40000"
  by (simp add: demo_answers_def)

lemma demo_returns: "\<exists>w'. demo_run = Returns (True, w')"
  using MeasureTarget_delivers [OF demo_lenient_simps(1,6) demo_templates_ok _ demo_fresh demo_good_answers demo_base demo_script,
      of "\<lambda>_. None" "(198, 51, 100, 7)" "[]"] demo_lenient_simps(3) by (simp add: demo_port) blast

theorem MeasureTarget_never_crashes_witness: "demo_run \<noteq> Crashed"
  by (rule MeasureTarget_never_crashes) (simp_all add: demo_run_facts)

theorem MeasureTarget_hands_over_witness:
  "\<exists>w' p. demo_run = Returns (True, w') \<and> cur_saved w' = [p] \<and> Target p = (198, 51, 100, 7)"
proof -
  obtain w' where w': "demo_run = Returns (True, w')"
    using demo_returns by blast
  from MeasureTarget_hands_over [OF _ _ _ _ w'] show ?thesis
    using w' by (auto simp: demo_run_facts length_Suc_conv)
qed

theorem MeasureTarget_cleans_up_witness:
  "\<exists>w'. demo_run = Returns (True, w') \<and> cur_stats w' InFlightProbes = 0 \<and> cur_stats w' ProbeCount = 1"
proof -
  obtain w' where w': "demo_run = Returns (True, w')"
    using demo_returns by blast
  from MeasureTarget_cleans_up [OF _ _ _ _ w'] show ?thesis
    using w' by (auto simp: demo_run_facts)
qed

theorem MeasureTarget_yields_row_witness:
  "\<exists>w' p rec. demo_run = Returns (True, w') \<and> cur_saved w' = [p] \<and> probeToRecord demo_lenient p True = Some rec"
proof -
  obtain w' where w': "demo_run = Returns (True, w')"
    using demo_returns by blast
  from MeasureTarget_yields_row [OF _ _ _ _ _ _ w'] show ?thesis
    using w' by (auto simp: demo_run_facts)
qed

text \<open>
  The base measurement over established connections: the host sends one byte with every answer after the handshake.
  A reply to an entry of another worker comes in between, and the protocol of each packet is tested.
\<close>

definition demo_strict :: mctx where
  "demo_strict = demo_context\<lparr>Config := demo_config\<lparr>TCPConfig := (TCPConfig demo_config)\<lparr>EstablishConnection := True\<rparr>\<rparr>,
     TcpEstablishConnection := True\<rparr>"

definition demo_stream :: "nat \<Rightarrow> reply" where
  "demo_stream q = \<lparr>r_dst = (if even q then (192, 0, 2, 1) else (192, 0, 2, 2)), r_protocol = 6,
     r_dstPort = 40000 + of_nat (q mod 4), r_recoveredSeq = TCPSequenceNumber 1000 (of_nat q) 4 + 1,
     r_tcpSeq = (if q < 4 then 77 else 77 + of_nat (q div 4)), r_ipID = 4711 + of_nat q,
     r_flags = (if q < 4 then SynAckFlagSet else set_new [TCPFlagACK]), r_receiveTime = 1000300 + int q * 1000,
     r_payloadLength = (if q < 4 then 0 else 1), r_dontFragment = True\<rparr>"

definition demo_streams :: answering where
  "demo_streams = \<lparr>an_base = 40000, an_sent = (\<lambda>q. 1000000 + int q * 1000), an_reply = demo_stream,
     an_acked = (\<lambda>q. 1000310 + int q * 1000), an_closed = (\<lambda>_. 2000000)\<rparr>"

definition demo_noise :: "event list" where
  "demo_noise = [Env (EvReply 7 (demo_stream 3)), Env (EvProtocol 6), Env EvStop]"

definition demo_strict_world :: world where
  "demo_strict_world = demo_world\<lparr>cur_script := demo_noise @ answered_script demo_strict demo_streams 0\<rparr>"

abbreviation demo_strict_run :: "(bool \<times> world) outcome" where
  "demo_strict_run \<equiv> MeasureTarget (\<lambda>_. None) demo_strict (\<lambda>_. 0) (replicate 16 (replicate 40 0)) 40000
     (Some (198, 51, 100, 7)) [] demo_strict_world"

lemma demo_strict_simps:
  "wf_context demo_strict" "full demo_strict = 16" "TcpEstablishConnection demo_strict" "strict_run demo_strict"
  "MeasurementMode (Config demo_strict) = MeasurementModeRTBased" "reset_ready (\<lambda>_. None) demo_strict"
  by (simp_all add: demo_strict_def demo_defs wf_context_def IsInterProtocol_def strict_run_def reset_ready_def)

lemma demo_strict_templates: "templates_ok demo_strict (replicate 16 (replicate 40 0))"
  by (auto simp: templates_ok_def demo_strict_simps ForSequence_def checksum_offset_def)
     (simp_all add: demo_strict_def demo_defs checksum_offset_def IsInterProtocol_def ProtocolForSequence_def)

lemma demo_strict_answers: "good_answers demo_strict demo_streams"
proof -
  have "\<forall>q \<in> set [0..<16]. answer_ok demo_strict demo_streams q TCP"
    by code_simp
  then show ?thesis
    by (auto simp: good_answers_def demo_strict_simps)
qed

lemma follows_noise:
  "follows N xs ys \<Longrightarrow> \<forall>ev \<in> set noise. N ev \<Longrightarrow> follows N xs (map Env noise @ ys)"
  by (induction noise) (cases xs; simp)+

lemma demo_strict_script: "follows (tolerated demo_strict (length (cur_entries demo_strict_world)))
    (answered_script demo_strict demo_streams (length (cur_entries demo_strict_world))) (cur_script demo_strict_world)"
proof -
  have "follows (tolerated demo_strict 0) (answered_script demo_strict demo_streams 0)
      (map Env [EvReply 7 (demo_stream 3), EvProtocol 6, EvStop] @ answered_script demo_strict demo_streams 0)"
    by (rule follows_noise [OF follows_refl]) (simp add: tolerated_def demo_strict_def demo_defs)
  then show ?thesis
    by (simp add: demo_strict_world_def demo_world_def demo_noise_def)
qed

lemma demo_strict_fresh: "fresh_world (\<lambda>_. 0) key demo_strict_world"
  using demo_fresh [of key] by (simp add: fresh_world_def demo_strict_world_def)

theorem MeasureTarget_succeeds_witness:
  "(\<exists>w'. demo_run = Returns (True, w'))
   \<and> (\<exists>w' p. demo_strict_run = Returns (True, w') \<and> cur_saved w' = [p] \<and> length (Samples p) = 16
        \<and> IpID (Samples p ! 5) = 4716 \<and> ReceiveTime (Samples p ! 5) = 1005300)"
proof
  show "\<exists>w'. demo_run = Returns (True, w')"
    using MeasureTarget_succeeds [OF demo_lenient_simps(1,6) demo_templates_ok _ demo_fresh demo_good_answers demo_base demo_script,
        of "\<lambda>_. None" "(198, 51, 100, 7)" "[]"] demo_lenient_simps(3) by (simp add: demo_port) blast
  have port: "an_base demo_streams = 40000" "unat (an_base demo_streams) + conns demo_strict \<le> 65536"
    "cur_saved demo_strict_world = []"
    by (simp_all add: demo_streams_def demo_strict_def demo_defs demo_strict_world_def demo_world_def)
  obtain w' p where w': "demo_strict_run = Returns (True, w')" "cur_saved w' = [p]" "measured demo_strict demo_streams p"
    using MeasureTarget_succeeds [OF demo_strict_simps(1,5) demo_strict_templates demo_strict_simps(6) demo_strict_fresh
        demo_strict_answers port(2) demo_strict_script, of "(198, 51, 100, 7)" "[]"]
    by (auto simp: port)
  then show "\<exists>w' p. demo_strict_run = Returns (True, w') \<and> cur_saved w' = [p] \<and> length (Samples p) = 16
      \<and> IpID (Samples p ! 5) = 4716 \<and> ReceiveTime (Samples p ! 5) = 1005300"
    by (auto simp: measured_def demo_strict_simps sample_answers_def demo_streams_def demo_stream_def)
qed

end
