(* ===== verification/Receiver.thy ===== *)
theory Receiver
  imports Prober_Safety
begin

text \<open>
  \<^verbatim>\<open>ipid/receiver/decoder.go\<close> and the extraction functions of \<^verbatim>\<open>ipid/receiver/receiver.go\<close>: what
  becomes of one captured frame. Decoding the frame is gopacket's work; its result for the frame (the
  IP header, the transport layers, the list of decoded layers, or an error) is the parameter \<open>frame\<close>.
  A layer that was not decoded has arbitrary fields, as the decoder's structs are reused from frame
  to frame. The state is the registry, the entries and probes it leads to, and the counters.
\<close>

section \<open>Decoded frames\<close>

datatype layer_type = LayerTypeEthernet | LayerTypeIPv4 | LayerTypeTCP | LayerTypeUDP | LayerTypeDNS | LayerTypeICMPv4

record ipv4_header =
  h_Version :: u8
  h_SrcIP :: ip4
  h_DstIP :: ip4
  h_Id :: u16
  h_Protocol :: u8
  h_FragOffset :: u16
  h_MoreFragments :: bool
  h_DontFragment :: bool

record transport =
  tr_tcp :: tcp_layer
  tr_tcp_payload :: "u8 list"
  tr_udp :: udp_layer
  tr_dns :: dns_layer
  tr_icmp :: icmp_layer

record frame =
  fr_headers :: "(ipv4_header \<times> layer_type list) option"
  fr_transport :: "u8 \<Rightarrow> (transport \<times> layer_type list) option"

text \<open>The protocols \<open>newPacketDecoder\<close> has a transport parser for.\<close>

definition has_transport :: "u8 \<Rightarrow> bool" where
  "has_transport protocol \<longleftrightarrow> protocol = 6 \<or> protocol = 17 \<or> protocol = 1"


section \<open>Extraction\<close>

definition extractTCP ::
  "mctx \<Rightarrow> tcp_layer \<Rightarrow> layer_type list \<Rightarrow> (u32 \<times> u32 \<times> u16 \<times> flag_set) option" where
  "extractTCP g t decoded =
     (if LayerTypeTCP \<notin> set decoded then None
      else if \<exists>port. PortForPayload g PayloadTCP = Some port \<and> tcp_SrcPort t \<noteq> port then None
      else if TcpEstablishConnection g then Some (tcp_Ack t, tcp_Seq t, tcp_DstPort t, tcp_GetFlags t)
      else if tcp_Ack t \<le> TcpSequenceNumOffset g then None
      else Some (tcp_Ack t - 1 - TcpSequenceNumOffset g, tcp_Seq t, tcp_DstPort t, tcp_GetFlags t))"

definition extractUDPDNS ::
  "mctx \<Rightarrow> udp_layer \<Rightarrow> dns_layer \<Rightarrow> layer_type list \<Rightarrow> (u32 \<times> u16 \<times> flag_set) option" where
  "extractUDPDNS g u d decoded =
     (if LayerTypeICMPv4 \<in> set decoded \<or> LayerTypeUDP \<notin> set decoded \<or> LayerTypeDNS \<notin> set decoded then None
      else if \<exists>port. PortForPayload g PayloadUDPDNS = Some port \<and> udp_SrcPort u \<noteq> port then None
      else Some (ucast (dns_ID d), udp_DstPort u, dns_GetFlags d))"

definition extractICMP :: "icmp_layer \<Rightarrow> layer_type list \<Rightarrow> (u32 \<times> u16 \<times> flag_set) option" where
  "extractICMP i decoded =
     (if LayerTypeICMPv4 \<notin> set decoded then None
      else if \<not> (icmp_Type i = 0 \<and> icmp_Code i = 0) then None
      else Some (ucast (icmp_Seq i), 0, set_new []))"

text \<open>The switch over the protocol: sequence number, TCP sequence number, port, flags, payload length.\<close>

definition extract_reply ::
  "mctx \<Rightarrow> u8 \<Rightarrow> transport \<Rightarrow> layer_type list \<Rightarrow> (u32 \<times> u32 \<times> u16 \<times> flag_set \<times> u16) option" where
  "extract_reply g protocol tr decoded =
     (if protocol = 6 then
        map_option (\<lambda>(q, tcpSeq, port, flags). (q, tcpSeq, port, flags, of_nat (length (tr_tcp_payload tr))))
          (extractTCP g (tr_tcp tr) decoded)
      else if protocol = 17 then
        map_option (\<lambda>(q, port, flags). (q, 0, port, flags, 0)) (extractUDPDNS g (tr_udp tr) (tr_dns tr) decoded)
      else if protocol = 1 then
        map_option (\<lambda>(q, port, flags). (q, 0, port, flags, 0)) (extractICMP (tr_icmp tr) decoded)
      else None)"

text \<open>The reason a failed extraction gives a base probe up, if any.\<close>

definition reject_reason :: "mctx \<Rightarrow> u8 \<Rightarrow> transport \<Rightarrow> layer_type list \<Rightarrow> counter option" where
  "reject_reason g protocol tr decoded =
     (if protocol = 6 then
        if LayerTypeTCP \<in> set decoded then
          if \<exists>port. PortForPayload g PayloadTCP = Some port \<and> tcp_SrcPort (tr_tcp tr) \<noteq> port
          then Some AbortBadPort
          else if \<not> TcpEstablishConnection g \<and> tcp_Ack (tr_tcp tr) \<le> TcpSequenceNumOffset g
          then Some AbortSeqOOR else None
        else None
      else if protocol = 17 then
        if LayerTypeUDP \<in> set decoded
          \<and> (\<exists>port. PortForPayload g PayloadUDPDNS = Some port \<and> udp_SrcPort (tr_udp tr) \<noteq> port)
        then Some AbortBadPort else None
      else if protocol = 1 then
        if LayerTypeICMPv4 \<in> set decoded then Some AbortProto else None
      else None)"


section \<open>The state the receivers share\<close>

record rx_state =
  rx_registry :: inflight
  rx_entries :: "entry list"
  rx_probes :: "probe list"
  rx_stats :: stats

definition rx_count :: "counter \<Rightarrow> rx_state \<Rightarrow> rx_state" where
  "rx_count c st = st\<lparr>rx_stats := bump c (rx_stats st)\<rparr>"

definition rx_reject :: "(ip4 \<Rightarrow> u64) \<Rightarrow> ip4 \<Rightarrow> counter \<Rightarrow> rx_state \<Rightarrow> rx_state option" where
  "rx_reject hash src reason st =
     (case Lookup hash (rx_registry st) src of
        None \<Rightarrow> Some st
      | Some i \<Rightarrow> do {
          e \<leftarrow> nth_opt (rx_entries st) i;
          p \<leftarrow> nth_opt (rx_probes st) (entry_Probe e);
          if \<not> strict p then Some st
          else do {
            (p, s) \<leftarrow> fail (Some reason) (p, rx_stats st);
            Some (st\<lparr>rx_probes := (rx_probes st)[entry_Probe e := p], rx_stats := s\<rparr>)
          }
        })"

definition the_reply :: "ipv4_header \<Rightarrow> int \<Rightarrow> u32 \<times> u32 \<times> u16 \<times> flag_set \<times> u16 \<Rightarrow> reply" where
  "the_reply h received x =
     (case x of (q, tcpSeq, port, flags, len) \<Rightarrow>
        \<lparr>r_dst = h_DstIP h, r_protocol = h_Protocol h, r_dstPort = port, r_recoveredSeq = q,
         r_tcpSeq = tcpSeq, r_ipID = h_Id h, r_flags = flags, r_receiveTime = received,
         r_payloadLength = len, r_dontFragment = h_DontFragment h\<rparr>)"

text \<open>
  \<open>process\<close>: \<open>received\<close> is the capture time in microseconds. \<open>None\<close> is a run-time panic, or a send that
  blocks for ever.
\<close>

definition process :: "mctx \<Rightarrow> (ip4 \<Rightarrow> u64) \<Rightarrow> frame \<Rightarrow> int \<Rightarrow> rx_state \<Rightarrow> rx_state option" where
  "process g hash f received st =
     (case fr_headers f of
        None \<Rightarrow> Some (rx_count DropDecode st)
      | Some (h, decoded) \<Rightarrow>
        if LayerTypeIPv4 \<notin> set decoded \<or> h_Version h \<noteq> 4 then Some (rx_count DropDecode st)
        else case Lookup hash (rx_registry st) (h_SrcIP h) of
          None \<Rightarrow> Some (rx_count DropNoEntry st)
        | Some i \<Rightarrow> do {
            e \<leftarrow> nth_opt (rx_entries st) i;
            p \<leftarrow> nth_opt (rx_probes st) (entry_Probe e);
            (accepted, p, s) \<leftarrow> AcceptProtocol g (h_Protocol h) p (rx_stats st);
            let st = st\<lparr>rx_probes := (rx_probes st)[entry_Probe e := p], rx_stats := s\<rparr>;
            if \<not> accepted then Some st
            else if h_FragOffset h \<noteq> 0 \<or> h_MoreFragments h then Some (rx_count DropProto st)
            else if \<not> has_transport (h_Protocol h) then Some (rx_count DropProto st)
            else case fr_transport f (h_Protocol h) of
              None \<Rightarrow> Some (rx_count DropDecode st)
            | Some (tr, decoded) \<Rightarrow>
              (case extract_reply g (h_Protocol h) tr decoded of
                 None \<Rightarrow>
                   let st = rx_count DropProto st in
                   (case reject_reason g (h_Protocol h) tr decoded of
                      None \<Rightarrow> Some st
                    | Some reason \<Rightarrow> rx_reject hash (h_SrcIP h) reason st)
               | Some x \<Rightarrow> do {
                   (matched, e', p, s) \<leftarrow> FulfillReply g (the_reply h received x) e p s;
                   Some (st\<lparr>rx_entries := (rx_entries st)[i := e'],
                            rx_probes := (rx_probes st)[entry_Probe e := p], rx_stats := s\<rparr>)
                 })
          })"


section \<open>Well-formed receiver states\<close>

definition rx_ok :: "mctx \<Rightarrow> (ip4 \<Rightarrow> u64) \<Rightarrow> rx_state \<Rightarrow> bool" where
  "rx_ok g hash st \<longleftrightarrow>
     inflight_ok (rx_registry st)
   \<and> (\<forall>t i. Lookup hash (rx_registry st) t = Some i \<longrightarrow> i < length (rx_entries st))
   \<and> (\<forall>i < length (rx_entries st).
        entry_Probe (rx_entries st ! i) < length (rx_probes st)
      \<and> entry_ok g (rx_entries st ! i) (rx_probes st ! entry_Probe (rx_entries st ! i)))
   \<and> (\<forall>p \<in> set (rx_probes st). probe_ok g p)"

lemma rx_ok_count [simp]: "rx_ok g hash (rx_count c st) = rx_ok g hash st"
  by (simp add: rx_ok_def rx_count_def)

text \<open>Replacing a probe by one with at least as many replies.\<close>

lemma rx_ok_probe:
  assumes "rx_ok g hash st" "k < length (rx_probes st)" "probe_ok g p"
    and "received_count (rx_probes st ! k) \<le> received_count p"
  shows "rx_ok g hash (st\<lparr>rx_probes := (rx_probes st)[k := p], rx_stats := s\<rparr>)"
proof -
  have "entry_ok g e ((rx_probes st)[k := p] ! j)" if "entry_ok g e (rx_probes st ! j)" for e j
    using that assms(2,4) by (cases "j = k") (auto simp: entry_ok_def)
  then show ?thesis
    using assms(1,3) by (auto simp: rx_ok_def dest!: subsetD [OF set_update_subset_insert])
qed

lemma rx_ok_entry:
  assumes "rx_ok g hash st" "i < length (rx_entries st)" "entry_Probe e = entry_Probe (rx_entries st ! i)"
    and "entry_ok g e (rx_probes st ! entry_Probe e)"
  shows "rx_ok g hash (st\<lparr>rx_entries := (rx_entries st)[i := e]\<rparr>)"
  using assms by (auto simp: rx_ok_def nth_list_update)

lemma rx_ok_facts:
  assumes "rx_ok g hash st" "Lookup hash (rx_registry st) src = Some i"
  shows "i < length (rx_entries st)" "entry_Probe (rx_entries st ! i) < length (rx_probes st)"
    "entry_ok g (rx_entries st ! i) (rx_probes st ! entry_Probe (rx_entries st ! i))"
    "probe_ok g (rx_probes st ! entry_Probe (rx_entries st ! i))"
proof -
  show i: "i < length (rx_entries st)"
    using assms unfolding rx_ok_def by blast
  show k: "entry_Probe (rx_entries st ! i) < length (rx_probes st)"
    "entry_ok g (rx_entries st ! i) (rx_probes st ! entry_Probe (rx_entries st ! i))"
    using assms(1) i unfolding rx_ok_def by blast+
  show "probe_ok g (rx_probes st ! entry_Probe (rx_entries st ! i))"
    using assms(1) k(1) nth_mem unfolding rx_ok_def by blast
qed

lemma rx_fail:
  assumes st: "rx_ok g hash st" and k: "k < length (rx_probes st)"
  shows "\<exists>p s'. fail reason (rx_probes st ! k, s) = Some (p, s')
    \<and> rx_ok g hash (st\<lparr>rx_probes := (rx_probes st)[k := p], rx_stats := s'\<rparr>)"
proof -
  let ?p = "rx_probes st ! k"
  have p: "probe_ok g ?p"
    using st k by (auto simp: rx_ok_def)
  then have "status_ok ?p" by (simp add: probe_ok_def)
  then obtain p' s' where f: "fail reason (?p, s) = Some (p', s')"
    "p' = ?p \<or> strict ?p \<and> status ?p = probeActive \<and> p' = ?p\<lparr>status := probeFailed, failed := Some True\<rparr>"
    using fail_ok by blast
  then have "probe_ok g p'" "received_count ?p \<le> received_count p'"
    using p probe_ok_fail [OF p] by (auto simp: received_count_def)
  from rx_ok_probe [OF st k this] f(1) show ?thesis by blast
qed

lemma rx_reject_ok:
  assumes "rx_ok g hash st"
  shows "\<exists>st'. rx_reject hash src reason st = Some st' \<and> rx_ok g hash st'"
proof (cases "Lookup hash (rx_registry st) src")
  case None
  then show ?thesis using assms by (simp add: rx_reject_def)
next
  case (Some i)
  note f = rx_ok_facts [OF assms Some]
  obtain p s where "fail (Some reason) (rx_probes st ! entry_Probe (rx_entries st ! i), rx_stats st) = Some (p, s)"
    "rx_ok g hash (st\<lparr>rx_probes := (rx_probes st)[entry_Probe (rx_entries st ! i) := p], rx_stats := s\<rparr>)"
    using rx_fail [OF assms f(2)] by blast
  then show ?thesis
    using Some f(1,2) assms by (simp add: rx_reject_def nth_opt_def)
qed

text \<open>One matched or dropped reply.\<close>

lemma rx_fulfill_ok:
  assumes wf: "wf_context g" and st: "rx_ok g hash st" and i: "i < length (rx_entries st)"
  defines "e \<equiv> rx_entries st ! i" and "k \<equiv> entry_Probe (rx_entries st ! i)"
  shows "\<exists>b e' p' s'. FulfillReply g r e (rx_probes st ! k) s = Some (b, e', p', s')
    \<and> rx_ok g hash (st\<lparr>rx_entries := (rx_entries st)[i := e'], rx_probes := (rx_probes st)[k := p'], rx_stats := s'\<rparr>)"
proof -
  let ?p = "rx_probes st ! k"
  have k: "k < length (rx_probes st)" and ok: "probe_ok g ?p" "entry_ok g e ?p"
    using st i by (auto simp: rx_ok_def e_def k_def)
  obtain b e' p' s' where r: "FulfillReply g r e ?p s = Some (b, e', p', s')" "probe_ok g p'" "entry_ok g e' p'"
    using FulfillReply_ok [OF wf ok] by blast
  have mono: "received_count ?p \<le> received_count p' \<and> entry_Probe e' = k"
  proof (cases b)
    case True
    then have "FulfillReply g r e ?p s = Some (True, e', p', s')" using r(1) by simp
    then obtain q where q: "accepted_as g r q (e, ?p, s) (e', p', s')" "request_open g r ?p q"
      using FulfillReply_accept [OF wf ok] by blast
    then show ?thesis
      using received_count_mono [OF q] by (simp add: accepted_as_def e_def k_def)
  next
    case False
    then have "FulfillReply g r e ?p s = Some (False, e', p', s')" using r(1) by simp
    from dropped_reply(1,2) [OF wf ok this] show ?thesis
      by (auto simp: received_count_def e_def k_def)
  qed
  let ?st = "st\<lparr>rx_probes := (rx_probes st)[k := p'], rx_stats := s'\<rparr>"
  have "rx_ok g hash ?st"
    using rx_ok_probe [OF st k r(2)] mono by blast
  then have "rx_ok g hash (?st\<lparr>rx_entries := (rx_entries ?st)[i := e']\<rparr>)"
    by (rule rx_ok_entry) (use i mono r(3) k in \<open>simp_all add: k_def\<close>)
  moreover have eq: "?st\<lparr>rx_entries := (rx_entries ?st)[i := e']\<rparr> =
      st\<lparr>rx_entries := (rx_entries st)[i := e'], rx_probes := (rx_probes st)[k := p'], rx_stats := s'\<rparr>"
    by (cases st) simp
  ultimately have "rx_ok g hash (st\<lparr>rx_entries := (rx_entries st)[i := e'], rx_probes := (rx_probes st)[k := p'], rx_stats := s'\<rparr>)"
    by (simp only: eq)
  then show ?thesis
    using r(1) by blast
qed

lemma rx_accept:
  assumes wf: "wf_context g" and st: "rx_ok g hash st" and k: "k < length (rx_probes st)" "probe_ok g (rx_probes st ! k)"
  shows "\<exists>b p s. AcceptProtocol g protocol (rx_probes st ! k) (rx_stats st) = Some (b, p, s)
    \<and> rx_ok g hash (st\<lparr>rx_probes := (rx_probes st)[k := p], rx_stats := s\<rparr>)
    \<and> (b \<longrightarrow> p = rx_probes st ! k \<and> s = rx_stats st)"
  using AcceptProtocol_cases [OF wf, of protocol "rx_probes st ! k" "rx_stats st"]
proof (elim disjE conjE)
  assume "AcceptProtocol g protocol (rx_probes st ! k) (rx_stats st)
    = do { (p, s) \<leftarrow> fail (Some AbortProto) (rx_probes st ! k, bump DropProto (rx_stats st)); Some (False, p, s) }"
  then show ?thesis using rx_fail [OF st k(1), of "Some AbortProto" "bump DropProto (rx_stats st)"] by force
qed (use rx_ok_probe [OF st k order_refl] in blast)+

lemma process_ok:
  assumes wf: "wf_context g" and st: "rx_ok g hash st"
  shows "\<exists>st'. process g hash f received st = Some st' \<and> rx_ok g hash st'"
proof (cases "fr_headers f")
  case None
  then show ?thesis using st by (simp add: process_def)
next
  case (Some hd)
  obtain h decoded where hd: "fr_headers f = Some (h, decoded)"
    using Some by (cases hd) simp
  show ?thesis
  proof (cases "LayerTypeIPv4 \<notin> set decoded \<or> h_Version h \<noteq> 4 \<or> Lookup hash (rx_registry st) (h_SrcIP h) = None")
    case True
    then show ?thesis using st hd by (auto simp: process_def)
  next
    case known: False
    then obtain i where i: "Lookup hash (rx_registry st) (h_SrcIP h) = Some i" by auto
    note facts = rx_ok_facts [OF st i]
    let ?k = "entry_Probe (rx_entries st ! i)"
    let ?p = "rx_probes st ! ?k"
    obtain b p s where a: "AcceptProtocol g (h_Protocol h) ?p (rx_stats st) = Some (b, p, s)"
      "rx_ok g hash (st\<lparr>rx_probes := (rx_probes st)[?k := p], rx_stats := s\<rparr>)" "b \<longrightarrow> p = ?p \<and> s = rx_stats st"
      using rx_accept [OF wf st facts(2,4)] by blast
    have same: "b \<Longrightarrow> st\<lparr>rx_probes := (rx_probes st)[?k := p], rx_stats := s\<rparr> = st"
      using a(3) by simp
    note more = rx_fulfill_ok [OF wf st facts(1)]
    have fulfilled: "\<exists>st'. (do { (matched, e', p, s) \<leftarrow> FulfillReply g r (rx_entries st ! i) ?p (rx_stats st);
        Some (st\<lparr>rx_entries := (rx_entries st)[i := e'], rx_probes := (rx_probes st)[?k := p], rx_stats := s\<rparr>) }) = Some st'
        \<and> rx_ok g hash st'" for r
    proof -
      obtain b e' p' s' where "FulfillReply g r (rx_entries st ! i) ?p (rx_stats st) = Some (b, e', p', s')"
        "rx_ok g hash (st\<lparr>rx_entries := (rx_entries st)[i := e'], rx_probes := (rx_probes st)[?k := p'], rx_stats := s'\<rparr>)"
        using more [of r "rx_stats st"] by blast
      then show ?thesis by simp
    qed
    show ?thesis
    proof (cases b)
      case False
      then show ?thesis using hd known i a facts by (simp add: process_def nth_opt_def)
    next
      case True
      then show ?thesis
        using hd known i a facts same st fulfilled rx_reject_ok [of g hash "rx_count DropProto st"]
        by (auto simp: process_def nth_opt_def Let_def split: option.split)
    qed
  qed
qed


section \<open>The capture loop\<close>

definition captureFilter :: "string \<Rightarrow> string \<Rightarrow> string" where
  "captureFilter mac ip = ''ether dst '' @ mac @ '' and ip and dst host '' @ ip"

text \<open>The packets and drops the kernel reports since the last reading, or an error.\<close>

definition collectCaptureStats :: "(int \<times> int) option \<Rightarrow> stats \<Rightarrow> stats" where
  "collectCaptureStats snapshot s =
     (case snapshot of
        None \<Rightarrow> bump CaptureStatsErrors s
      | Some (packets, drops) \<Rightarrow> add_to CaptureDrops drops (add_to CapturePackets packets s))"

definition receiveBufferBytes :: int where
  "receiveBufferBytes = 4194304"

text \<open>
  \<open>configureReceiveBuffer\<close>: the buffer in effect and whether an error is reported. The three system
  calls' results are parameters: the current size, whether the new size was set, the size read back.
\<close>

definition configureReceiveBuffer :: "int option \<Rightarrow> bool \<Rightarrow> int option \<Rightarrow> int \<times> bool" where
  "configureReceiveBuffer before set_ok after =
     (case before of
        None \<Rightarrow> (- 1, True)
      | Some current \<Rightarrow>
        if current \<ge> 2 * receiveBufferBytes then (current, False)
        else case after of None \<Rightarrow> (- 1, True) | Some actual \<Rightarrow> (actual, \<not> set_ok))"

text \<open>
  One round of the loop: whether the stop signal is seen, the frame read with its capture time (\<open>None\<close>
  is a read error, the periodic timeout included), the clock in nanoseconds, the kernel's statistics.
\<close>

record capture_round =
  seen_stop :: bool
  read_frame :: "(frame \<times> int) option"
  clock :: int
  kernel_stats :: "(int \<times> int) option"

fun capture_loop ::
  "mctx \<Rightarrow> (ip4 \<Rightarrow> u64) \<Rightarrow> capture_round list \<Rightarrow> nat \<Rightarrow> int \<Rightarrow> rx_state \<Rightarrow> rx_state option" where
  "capture_loop g hash [] packetsSinceStats lastStats st = Some st"
| "capture_loop g hash (c # cs) packetsSinceStats lastStats st =
     (if seen_stop c then Some (st\<lparr>rx_stats := collectCaptureStats (kernel_stats c) (rx_stats st)\<rparr>)
      else
        let packetsSinceStats = packetsSinceStats + 1;
            due = read_frame c = None \<or> packetsSinceStats \<ge> 256;
            collect = due \<and> clock c - lastStats \<ge> 1000000000;
            packetsSinceStats = (if due then 0 else packetsSinceStats);
            st = (if collect then st\<lparr>rx_stats := collectCaptureStats (kernel_stats c) (rx_stats st)\<rparr> else st);
            lastStats = (if collect then clock c else lastStats)
        in case read_frame c of
             None \<Rightarrow> capture_loop g hash cs packetsSinceStats lastStats st
           | Some (f, received) \<Rightarrow> do {
               st \<leftarrow> process g hash f received st;
               capture_loop g hash cs packetsSinceStats lastStats st
             })"

lemma rx_ok_stats [simp]: "rx_ok g hash (st\<lparr>rx_stats := s\<rparr>) = rx_ok g hash st"
  by (simp add: rx_ok_def)

lemma capture_loop_ok:
  assumes "wf_context g" "rx_ok g hash st"
  shows "\<exists>st'. capture_loop g hash cs n since st = Some st' \<and> rx_ok g hash st'"
  using assms(2)
proof (induction cs arbitrary: n since st)
  case (Cons c cs)
  have more: "\<exists>st'. (do { st \<leftarrow> process g hash f received st; capture_loop g hash cs n since st }) = Some st'
      \<and> rx_ok g hash st'" if "rx_ok g hash st" for f received n since st
    using process_ok [OF assms(1) that, of f received] Cons.IH by force
  show ?case
    using Cons by (auto simp: Let_def intro!: more split: option.split)
qed simp


section \<open>A host's answer leads back to its request\<close>

text \<open>
  The answer of a host to request \<open>q\<close> of payload \<open>a\<close>, relative to the layers the request was built from:
  ports swapped, the TCP sequence number acknowledged, the DNS ID or the ICMP sequence echoed.
\<close>

definition answers_request ::
  "mctx \<Rightarrow> u16 \<Rightarrow> u16 \<Rightarrow> payload \<Rightarrow> transport \<Rightarrow> layer_type list \<Rightarrow> bool" where
  "answers_request g base q a tr decoded \<longleftrightarrow>
     (case a of
        TCP \<Rightarrow> LayerTypeTCP \<in> set decoded \<and>
          (\<exists>t rest. payload_Layer g a q = Some (TCPLayer t # rest) \<and> tcp_SrcPort (tr_tcp tr) = tcp_DstPort t
             \<and> tcp_DstPort (tr_tcp tr) = GetSrcPort g q base \<and> tcp_Ack (tr_tcp tr) = tcp_Seq t + 1)
      | UdpDns \<Rightarrow> LayerTypeUDP \<in> set decoded \<and> LayerTypeDNS \<in> set decoded \<and> LayerTypeICMPv4 \<notin> set decoded \<and>
          (\<exists>u d. payload_Layer g a q = Some [UDPLayer u, DNSLayer d] \<and> udp_SrcPort (tr_udp tr) = udp_DstPort u
             \<and> udp_DstPort (tr_udp tr) = GetSrcPort g q base \<and> dns_ID (tr_dns tr) = dns_ID d)
      | ICMP \<Rightarrow> LayerTypeICMPv4 \<in> set decoded \<and>
          (\<exists>i. payload_Layer g a q = Some [ICMPLayer i] \<and> icmp_Type (tr_icmp tr) = 0 \<and> icmp_Code (tr_icmp tr) = 0
             \<and> icmp_Seq (tr_icmp tr) = icmp_Seq i))"

lemma payload_tcp_fields:
  assumes "payload_tcp_Layer g q = Some (TCPLayer t # rest)"
  shows "PortForPayload g PayloadTCP = Some (tcp_DstPort t)"
    "tcp_Seq t = (if TcpEstablishConnection g
       then TCPSequenceNumber (TcpSequenceNumOffset g) q (ConnectionCount (Config g))
       else TcpSequenceNumOffset g + ucast q)"
  using assms
  by (auto simp: payload_tcp_Layer_def tcp_Layer_def Let_def bind_eq_Some_conv split: if_splits)

lemma offset_no_wrap:
  fixes q :: u16
  assumes "wf_context g" "unat q < unat (RequestCount g)"
  shows "\<not> TcpSequenceNumOffset g + ucast q + 1 \<le> TcpSequenceNumOffset g"
proof -
  have b: "unat (TcpSequenceNumOffset g) + unat q + 1 < 4294967296"
    using wf_contextD(5) [OF assms(1)] assms(2) by linarith
  have u: "unat (ucast q :: u32) = unat q" by (rule unat_ucast_16_32)
  have s: "unat (TcpSequenceNumOffset g + ucast q) = unat (TcpSequenceNumOffset g) + unat q"
    using b by (subst unat_add_no_wrap) (simp_all add: u)
  have "unat (TcpSequenceNumOffset g + ucast q + 1) = unat (TcpSequenceNumOffset g) + unat q + 1"
    using b by (subst unat_add_no_wrap) (simp_all add: s)
  then show ?thesis by (simp add: word_le_nat_alt)
qed

lemma answer_extracted:
  assumes wf: "wf_context g" and q: "unat q < unat (RequestCount g)" "ForSequence g q = Some a"
    and ans: "answers_request g base q a tr decoded"
    and h: "h_DstIP h = GetSender g q" "h_Protocol h = ProtocolID a"
  shows "\<exists>x. extract_reply g (h_Protocol h) tr decoded = Some x \<and> mirrors g base q (the_reply h received x) a"
proof (cases a)
  case TCP
  then obtain t rest where t: "payload_tcp_Layer g q = Some (TCPLayer t # rest)" "LayerTypeTCP \<in> set decoded"
    "tcp_SrcPort (tr_tcp tr) = tcp_DstPort t" "tcp_DstPort (tr_tcp tr) = GetSrcPort g q base"
    "tcp_Ack (tr_tcp tr) = tcp_Seq t + 1"
    using ans by (auto simp: answers_request_def payload_Layer_def)
  note f = payload_tcp_fields [OF t(1)]
  show ?thesis
    using TCP t f h q(2) offset_no_wrap [OF wf q(1)]
    by (auto simp: extract_reply_def extractTCP_def the_reply_def mirrors_def)
next
  case UdpDns
  have "\<not> TcpEstablishConnection g"
    using wf q(2) UdpDns by (auto simp: wf_context_def ForSequence_def IsInterProtocol_def)
  then show ?thesis
    using UdpDns ans h q(2)
    by (auto simp: answers_request_def payload_Layer_def payload_udp_dns_Layer_def udp_Layer_def dns_Layer_def
        bind_eq_Some_conv extract_reply_def extractUDPDNS_def the_reply_def mirrors_def)
next
  case ICMP
  have "\<not> TcpEstablishConnection g"
    using wf q(2) ICMP by (auto simp: wf_context_def ForSequence_def IsInterProtocol_def)
  moreover have "\<not> reply_hasPorts g ICMP"
    using wf q(2) ICMP by (auto simp: reply_hasPorts_def wf_context_def ForSequence_def)
  ultimately show ?thesis
    using ICMP ans h q(2)
    by (auto simp: answers_request_def payload_Layer_def payload_icmp_Layer_def icmp_Layer_def
        extract_reply_def extractICMP_def the_reply_def mirrors_def)
qed

text \<open>The frame a capture handle delivers for such an answer from \<open>src\<close>, unfragmented.\<close>

definition carries_answer ::
  "mctx \<Rightarrow> u16 \<Rightarrow> u16 \<Rightarrow> payload \<Rightarrow> ip4 \<Rightarrow> frame \<Rightarrow> ipv4_header \<Rightarrow> transport \<Rightarrow> layer_type list \<Rightarrow> bool" where
  "carries_answer g base q a src f h tr decoded \<longleftrightarrow>
     (\<exists>outer. fr_headers f = Some (h, outer) \<and> LayerTypeIPv4 \<in> set outer) \<and> h_Version h = 4
   \<and> h_SrcIP h = src \<and> h_DstIP h = GetSender g q \<and> h_Protocol h = ProtocolID a
   \<and> h_FragOffset h = 0 \<and> \<not> h_MoreFragments h
   \<and> fr_transport f (ProtocolID a) = Some (tr, decoded) \<and> answers_request g base q a tr decoded"

lemma AcceptProtocol_own:
  assumes "wf_context g" "ForSequence g q = Some a"
  shows "AcceptProtocol g (ProtocolID a) p s = Some (True, p, s)"
proof (cases "IsInterProtocol g")
  case True
  then have "unat q mod length (InterProtocols g) < length (InterProtocols g)"
    by (simp add: IsInterProtocol_def)
  then have "payload_ID a \<in> set (InterProtocols g)"
    using assms(2) True by (auto simp: ForSequence_def ProtocolForSequence_def payloads_Some_iff dest: nth_mem)
  then have "list_ex (\<lambda>candidate. candidate = PayloadICMP \<and> ProtocolID a = 1 \<or> candidate = PayloadTCP \<and> ProtocolID a = 6
      \<or> candidate = PayloadUDPDNS \<and> ProtocolID a = 17) (InterProtocols g)"
    by (cases a) (auto simp: list_ex_iff payload_ID_def)
  then show ?thesis
    using True by (simp add: AcceptProtocol_def)
next
  case False
  then show ?thesis using assms(2) by (simp add: AcceptProtocol_def ForSequence_def)
qed


section \<open>The properties\<close>

text \<open>
  No traffic crashes the receiver. Whatever frames a capture handle delivers, in whatever order and
  mixed with read errors, and whatever the decoder makes of them, the capture loop never runs into an
  index out of range, a channel closed twice or a send that blocks, and leaves well-formed entries,
  probes and registry behind.
\<close>

theorem capture_never_crashes:
  assumes "wf_context g" "rx_ok g hash st"
  shows "\<exists>st'. capture_loop g hash cs packetsSinceStats lastStats st = Some st' \<and> rx_ok g hash st'"
  using capture_loop_ok [OF assms] .

text \<open>
  C17: A host's answer becomes the sample of the request it answers. Let the frame hold the unfragmented
  answer of the probed host to request \<open>q\<close>, built against the very layers the request was sent with
  (ports swapped, TCP sequence number acknowledged, DNS ID or ICMP sequence number echoed). If the
  registry leads from the host to an entry that covers the request, the request is still open and the
  segment is one the mode demands, then \<open>process\<close> puts the IP-ID of the frame into sample \<open>q\<close>, touches
  no other sample and counts the reply as matched and as nothing else.
\<close>

theorem process_matches_answer:
  assumes "wf_context g" "rx_ok g hash st" "Lookup hash (rx_registry st) src = Some i"
    and "e = rx_entries st ! i" "p = rx_probes st ! entry_Probe e"
    and "entry_covers g base q e" "TcpEstablishConnection g \<or> strict p \<or> expectedFlags e = FlagsDefault"
    and "unat base + conns g \<le> 65536" "strict p \<Longrightarrow> status p = probeActive"
    and "unat q < unat (RequestCount g)" "ForSequence g q = Some a"
    and "carries_answer g base q a src f h tr decoded"
    and "\<And>x. extract_reply g (ProtocolID a) tr decoded = Some x \<Longrightarrow>
           request_open g (the_reply h received x) p q \<and> segment_as_demanded g p q (the_reply h received x) a"
  shows "\<exists>st' p'. process g hash f received st = Some st'
    \<and> rx_probes st' = (rx_probes st)[entry_Probe e := p']
    \<and> IpID (Samples p' ! unat q) = h_Id h \<and> IsReceived (Samples p' ! unat q)
    \<and> length (Samples p') = length (Samples p) \<and> (\<exists>y. Samples p' = (Samples p)[unat q := y])
    \<and> rx_registry st' = rx_registry st \<and> rx_stats st' = bump MatchedReplies (rx_stats st)"
proof -
  note facts = rx_ok_facts [OF assms(2,3), folded assms(4), folded assms(5)]
  note c = assms(12) [unfolded carries_answer_def]
  obtain outer where outer: "fr_headers f = Some (h, outer)" "LayerTypeIPv4 \<in> set outer"
    using c by blast
  have h: "h_Version h = 4" "h_SrcIP h = src" "h_FragOffset h = 0" "\<not> h_MoreFragments h"
    "h_DstIP h = GetSender g q" "h_Protocol h = ProtocolID a"
    "fr_transport f (ProtocolID a) = Some (tr, decoded)" "answers_request g base q a tr decoded"
    using c by auto
  obtain x where x: "extract_reply g (ProtocolID a) tr decoded = Some x"
    "mirrors g base q (the_reply h received x) a"
    using answer_extracted [OF assms(1,10,11) h(8) h(5,6), of received] unfolding h(6) by blast
  let ?r = "the_reply h received x"
  have o: "request_open g ?r p q" "segment_as_demanded g p q ?r a"
    using assms(13) [OF x(1)] by auto
  obtain e' p' s' where m: "FulfillReply g ?r e p (rx_stats st) = Some (True, e', p', s')"
    "accepted_as g ?r q (e, p, rx_stats st) (e', p', s')"
    using covered_reply_accepted [OF assms(1) facts(4,3) assms(8) assms(9) assms(6,7) x(2) o] by blast
  have idx: "nth_opt (rx_entries st) i = Some e" "nth_opt (rx_probes st) (entry_Probe e) = Some p"
    using facts(1,2) assms(4,5) by (simp_all add: nth_opt_def)
  have transport: "has_transport (ProtocolID a)"
    by (cases a) (simp_all add: has_transport_def)
  have "process g hash f received st = Some (st\<lparr>rx_entries := (rx_entries st)[i := e'],
      rx_probes := (rx_probes st)[entry_Probe e := p'], rx_stats := s'\<rparr>)"
    using outer h x(1) m(1) idx transport assms(3) facts(2)
    by (simp add: process_def AcceptProtocol_own [OF assms(1,11)] assms(5) [symmetric] Let_def)
  moreover have "unat q < length (Samples p)"
    using o(1) by (simp add: request_open_def)
  moreover have "r_ipID ?r = h_Id h"
    by (simp add: the_reply_def split: prod.split)
  moreover have "IpID (reply_sample ?r p q) = r_ipID ?r" "IsReceived (reply_sample ?r p q)"
    by (simp_all add: reply_sample_def filled_sample_def IsReceived_def)
  moreover have "Samples p' = (Samples p)[unat q := reply_sample ?r p q]" "s' = bump MatchedReplies (rx_stats st)"
    using m(2) by (simp_all add: accepted_as_def)
  ultimately show ?thesis
    by (intro exI [of _ "st\<lparr>rx_entries := (rx_entries st)[i := e'],
        rx_probes := (rx_probes st)[entry_Probe e := p'], rx_stats := s'\<rparr>"] exI [of _ p']) auto
qed


section \<open>Concrete instances\<close>

text \<open>The demonstration probe registered under its target, and the frame of the answer to request 5.\<close>

definition demo_rx :: rx_state where
  "demo_rx = \<lparr>rx_registry = shard_put (\<lambda>_. 3) Inflight_new (198, 51, 100, 7) 0,
     rx_entries = [full_entry demo_context 0 40000], rx_probes = [demo_probe], rx_stats = (\<lambda>_. 0)\<rparr>"

definition demo_header :: ipv4_header where
  "demo_header = \<lparr>h_Version = 4, h_SrcIP = (198, 51, 100, 7), h_DstIP = (192, 0, 2, 2), h_Id = 4711,
     h_Protocol = 6, h_FragOffset = 0, h_MoreFragments = False, h_DontFragment = True\<rparr>"

definition demo_transport :: transport where
  "demo_transport =
     \<lparr>tr_tcp = \<lparr>tcp_SrcPort = 80, tcp_DstPort = 40001, tcp_Seq = 77, tcp_Ack = 1006, FIN = False, SYN = True,
        RST = False, PSH = False, ACK = True, URG = False, ECE = False, CWR = False, NS = False, Window = 512\<rparr>,
      tr_tcp_payload = [], tr_udp = \<lparr>udp_SrcPort = 0, udp_DstPort = 0\<rparr>,
      tr_dns = \<lparr>dns_ID = 0, dns_QR = False, dns_AA = False, dns_TC = False, dns_RD = False, dns_RA = False,
        dns_QName = []\<rparr>,
      tr_icmp = \<lparr>icmp_Type = 0, icmp_Code = 0, icmp_Seq = 0\<rparr>\<rparr>"

definition demo_frame :: frame where
  "demo_frame = \<lparr>fr_headers = Some (demo_header, [LayerTypeEthernet, LayerTypeIPv4]),
     fr_transport = (\<lambda>p. if p = 6 then Some (demo_transport, [LayerTypeTCP]) else None)\<rparr>"

lemma demo_rx_lookup:
  "Lookup (\<lambda>_. 3) (rx_registry demo_rx) t = (if t = (198, 51, 100, 7) then Some 0 else None)"
  unfolding demo_rx_def rx_state.simps by (simp only: sharded.find_put [OF sharded.ok_start] sharded.find_start)

lemma demo_rx_ok: "rx_ok demo_context (\<lambda>_. 3) demo_rx"
proof -
  have "inflight_ok (rx_registry demo_rx)"
    unfolding demo_rx_def rx_state.simps by (intro sharded.ok_put sharded.ok_start)
  moreover have "entry_ok demo_context (full_entry demo_context 0 40000) demo_probe"
    by (rule demo_full_entry_ok)
  ultimately show ?thesis
    unfolding rx_ok_def demo_rx_lookup
    by (simp add: demo_probe_ok) (simp add: demo_rx_def full_entry_def demo_probe_ok)
qed

theorem capture_never_crashes_witness:
  "capture_loop demo_context (\<lambda>_. 3)
     [\<lparr>seen_stop = False, read_frame = Some (demo_frame, 1000300), clock = 0, kernel_stats = None\<rparr>,
      \<lparr>seen_stop = True, read_frame = None, clock = 5, kernel_stats = Some (1, 0)\<rparr>] 0 0 demo_rx \<noteq> None"
  using capture_never_crashes [OF wf_demo demo_rx_ok] by (metis option.distinct(1))

lemma demo_carries:
  "carries_answer demo_context 40000 5 TCP (198, 51, 100, 7) demo_frame demo_header demo_transport [LayerTypeTCP]"
  by (simp add: carries_answer_def demo_frame_def demo_header_def answers_request_def payload_Layer_def
      payload_tcp_Layer_def tcp_Layer_def demo_transport_def demo_defs PortForPayload_def IsInterProtocol_def
      GetSender_def BaseSequenceIndex_def GetSrcPort_def Let_def)

lemma demo_frame_reply:
  "extract_reply demo_context 6 demo_transport [LayerTypeTCP] = Some (5, 77, 40001, tcp_GetFlags (tr_tcp demo_transport), 0)"
  "the_reply demo_header 1000300 (5, 77, 40001, tcp_GetFlags (tr_tcp demo_transport), 0) = demo_reply"
  subgoal
    by (simp add: extract_reply_def extractTCP_def demo_transport_def demo_defs PortForPayload_def IsInterProtocol_def)
  subgoal
    by (simp add: the_reply_def demo_header_def demo_reply_def)
       (rule fset_eq_by_contains, simp add: tcp_GetFlags_contains demo_transport_def SynAckFlagSet_def set_contains_new)
  done

theorem process_matches_answer_witness:
  "\<exists>st' p'. process demo_context (\<lambda>_. 3) demo_frame 1000300 demo_rx = Some st' \<and> rx_probes st' = [p']
     \<and> IpID (Samples p' ! 5) = 4711 \<and> rx_stats st' MatchedReplies = 1"
proof -
  have e: "full_entry demo_context 0 40000 = rx_entries demo_rx ! 0"
    "demo_probe = rx_probes demo_rx ! entry_Probe (full_entry demo_context 0 40000)"
    by (simp_all add: demo_rx_def full_entry_def)
  have covers: "entry_covers demo_context 40000 5 (full_entry demo_context 0 40000)"
    by (intro full_entry_covers wf_demo) (simp_all add: demo_defs)
  have found: "Lookup (\<lambda>_. 3) (rx_registry demo_rx) (198, 51, 100, 7) = Some 0"
    by (simp add: demo_rx_lookup)
  have o: "extract_reply demo_context (ProtocolID TCP) demo_transport [LayerTypeTCP] = Some x \<Longrightarrow>
      request_open demo_context (the_reply demo_header 1000300 x) demo_probe 5
    \<and> segment_as_demanded demo_context demo_probe 5 (the_reply demo_header 1000300 x) TCP" for x
    using demo_request_open demo_segment by (auto simp: demo_frame_reply)
  have "strict demo_probe" "status demo_probe = probeActive"
    by (rule demo_facts)+
  then obtain st' p' where "process demo_context (\<lambda>_. 3) demo_frame 1000300 demo_rx = Some st'"
    "rx_probes st' = (rx_probes demo_rx)[entry_Probe (full_entry demo_context 0 40000) := p']"
    "IpID (Samples p' ! unat (5 :: u16)) = h_Id demo_header" "rx_stats st' = bump MatchedReplies (rx_stats demo_rx)"
    using process_matches_answer [OF wf_demo demo_rx_ok found e covers _ _ _ _ _ demo_carries, of 1000300] o
    by (auto simp: demo_defs ForSequence_def IsInterProtocol_def)
  then show ?thesis
    by (intro exI [of _ st'] exI [of _ p']) (simp add: demo_rx_def demo_header_def full_entry_def)
qed

end
