(* ===== verification/RateLimiter.thy ===== *)
theory RateLimiter
  imports Measurement
begin

text \<open>
  \<^verbatim>\<open>ipid/sender/ratelimit.go\<close>: the two token buckets (bytes and packets) in front of every datagram.
  Time is in nanoseconds, token amounts are rationals: the rounding of \<open>float64\<close> is not modelled. All
  state changes of the limiter happen while its lock is held, so an execution of any number of
  goroutines is a sequence of the atomic actions below: entering \<open>AcquireUntil\<close>, trying again after a
  wait, and \<open>Stop\<close>.
\<close>

section \<open>The limiter\<close>

record limiter =
  bytesPerSecond :: rat
  packetsPerSecond :: rat
  burstBytes :: rat
  burstPackets :: rat
  availBytes :: rat
  availPackets :: rat
  lim_done :: bool
  stopped :: bool
  last_refill :: int

definition newRateLimiter :: "int \<Rightarrow> int \<Rightarrow> int \<Rightarrow> int \<Rightarrow> limiter" where
  "newRateLimiter bandwidthBitsPerSecond packetsPerSec burstDuration now =
     (let bps = of_int bandwidthBitsPerSecond / 8; pps = of_int packetsPerSec;
          burstSec = of_int burstDuration / 1000000000
      in \<lparr>bytesPerSecond = bps, packetsPerSecond = pps, burstBytes = bps * burstSec,
          burstPackets = pps * burstSec, availBytes = bps * burstSec / 2, availPackets = pps * burstSec / 2,
          lim_done = False, stopped = False, last_refill = now\<rparr>)"

definition seconds :: "int \<Rightarrow> rat" where
  "seconds ns = of_int ns / 1000000000"

definition refill :: "int \<Rightarrow> limiter \<Rightarrow> limiter" where
  "refill now rl =
     (let elapsed = seconds (now - last_refill rl) in
      if elapsed \<le> 0 then rl
      else rl\<lparr>last_refill := now,
        availBytes := (if bytesPerSecond rl > 0
          then min (availBytes rl + elapsed * bytesPerSecond rl) (burstBytes rl) else availBytes rl),
        availPackets := (if packetsPerSecond rl > 0
          then min (availPackets rl + elapsed * packetsPerSecond rl) (burstPackets rl) else availPackets rl)\<rparr>)"

definition adapt_burst :: "rat \<Rightarrow> limiter \<Rightarrow> limiter" where
  "adapt_burst bytesNeeded rl =
     (if bytesPerSecond rl > 0 \<and> bytesNeeded > burstBytes rl then rl\<lparr>burstBytes := bytesNeeded\<rparr> else rl)"

definition tokensWait :: "limiter \<Rightarrow> rat \<Rightarrow> rat" where
  "tokensWait rl bytesNeeded =
     (let w = (if bytesPerSecond rl > 0 \<and> availBytes rl < bytesNeeded
               then (bytesNeeded - availBytes rl) / bytesPerSecond rl else 0) in
      if packetsPerSecond rl > 0 \<and> availPackets rl < 1
      then let wp = (1 - availPackets rl) / packetsPerSecond rl in if wp > w then wp else w
      else w)"

text \<open>One pass of the loop under the lock: the outcome and the limiter it leaves.\<close>

datatype attempt = Granted | Refused | MustWait rat

definition try_acquire :: "rat \<Rightarrow> bool \<Rightarrow> int \<Rightarrow> limiter \<Rightarrow> attempt \<times> limiter" where
  "try_acquire bytesNeeded cancelled now rl =
     (if cancelled \<or> stopped rl then (Refused, rl)
      else
        let rl = refill now rl;
            bytesOK = (bytesPerSecond rl = 0 \<or> availBytes rl \<ge> bytesNeeded);
            packetsOK = (packetsPerSecond rl = 0 \<or> availPackets rl \<ge> 1)
        in if bytesOK \<and> packetsOK
           then (Granted, rl\<lparr>availBytes := (if bytesPerSecond rl > 0 then availBytes rl - bytesNeeded else availBytes rl),
                             availPackets := (if packetsPerSecond rl > 0 then availPackets rl - 1 else availPackets rl)\<rparr>)
           else (MustWait (max (tokensWait rl bytesNeeded) (2 / 10000)), rl))"

definition Stop :: "limiter \<Rightarrow> limiter" where
  "Stop rl = (if \<not> stopped rl then rl\<lparr>stopped := True, lim_done := True\<rparr> else rl)"

text \<open>The atomic actions of all goroutines, and what each grants.\<close>

datatype limiter_action =
    EnterAcquire nat bool int
  | RetryAcquire nat bool int
  | StopLimiter

fun act :: "limiter_action \<Rightarrow> limiter \<Rightarrow> attempt option \<times> limiter" where
  "act (EnterAcquire frameBytes cancelled now) rl =
     (let (a, rl) = try_acquire (of_nat frameBytes) cancelled now (adapt_burst (of_nat frameBytes) rl) in (Some a, rl))"
| "act (RetryAcquire frameBytes cancelled now) rl =
     (let (a, rl) = try_acquire (of_nat frameBytes) cancelled now rl in (Some a, rl))"
| "act StopLimiter rl = (None, Stop rl)"

text \<open>The number of packets granted by a sequence of actions, and the limiter afterwards.\<close>

fun run_limiter :: "limiter_action list \<Rightarrow> limiter \<Rightarrow> nat \<times> limiter" where
  "run_limiter [] rl = (0, rl)"
| "run_limiter (a # as) rl =
     (let (res, rl) = act a rl; (n, rl) = run_limiter as rl in (if res = Some Granted then n + 1 else n, rl))"

text \<open>
  \<open>AcquireUntil\<close> itself as a function of what happens around it. A round says whether the cancel channel
  is closed when the pass starts, the clock, what other goroutines do while this one waits, and
  whether the wait ends by the cancel channel. \<open>None\<close>: still waiting when the script ends.
\<close>

record acquire_round =
  ar_cancelled :: bool
  ar_now :: int
  ar_others :: "limiter_action list"
  ar_wait_cancelled :: bool

fun acquire_loop :: "rat \<Rightarrow> acquire_round list \<Rightarrow> limiter \<Rightarrow> bool option \<times> limiter" where
  "acquire_loop bytesNeeded [] rl = (None, rl)"
| "acquire_loop bytesNeeded (r # rs) rl =
     (case try_acquire bytesNeeded (ar_cancelled r) (ar_now r) rl of
        (Granted, rl) \<Rightarrow> (Some True, rl)
      | (Refused, rl) \<Rightarrow> (Some False, rl)
      | (MustWait w, rl) \<Rightarrow>
          let rl = snd (run_limiter (ar_others r) rl) in
          if ar_wait_cancelled r then (Some False, rl) else acquire_loop bytesNeeded rs rl)"

definition AcquireUntil :: "nat \<Rightarrow> acquire_round list \<Rightarrow> limiter \<Rightarrow> bool option \<times> limiter" where
  "AcquireUntil frameBytes rounds rl =
     acquire_loop (of_nat frameBytes) rounds (adapt_burst (of_nat frameBytes) rl)"

text \<open>\<open>SetupRateLimiter\<close>: bursts of 100 milliseconds.\<close>

definition SetupRateLimiter :: "mctx \<Rightarrow> int \<Rightarrow> limiter" where
  "SetupRateLimiter g now =
     newRateLimiter (case Bandwidth (Config g) of None \<Rightarrow> 0 | Some b \<Rightarrow> sint b)
       (case PacketsPerSecond (Config g) of None \<Rightarrow> 0 | Some p \<Rightarrow> sint p) 100000000 now"


section \<open>The packet bucket\<close>

text \<open>
  What every action keeps: the configured rates and the packet burst, a clock that never goes back, a
  bucket that is never overdrawn and never overfull.
\<close>

definition packets_ok :: "limiter \<Rightarrow> bool" where
  "packets_ok rl \<longleftrightarrow> 0 \<le> packetsPerSecond rl \<and> availPackets rl \<le> burstPackets rl
     \<and> 0 \<le> availPackets rl"

definition packet_step :: "limiter \<Rightarrow> nat \<Rightarrow> limiter \<Rightarrow> bool" where
  "packet_step rl n rl' \<longleftrightarrow>
     packetsPerSecond rl' = packetsPerSecond rl \<and> burstPackets rl' = burstPackets rl
   \<and> last_refill rl \<le> last_refill rl' \<and> packets_ok rl'
   \<and> (packetsPerSecond rl > 0 \<longrightarrow>
        of_nat n + availPackets rl' \<le> availPackets rl + packetsPerSecond rl * seconds (last_refill rl' - last_refill rl))"

lemma seconds_nonpos_iff [simp]: "seconds n \<le> 0 \<longleftrightarrow> n \<le> 0"
  by (simp add: seconds_def divide_le_0_iff)

lemma seconds_add: "seconds (a + b) = seconds a + seconds b"
  by (simp add: seconds_def add_divide_distrib)

lemma seconds_zero [simp]: "seconds 0 = 0"
  by (simp add: seconds_def)

lemma packet_step_refl: "packets_ok rl \<Longrightarrow> packet_step rl 0 rl"
  by (simp add: packet_step_def)

lemma packet_step_trans:
  assumes "packet_step a m b" "packet_step b n c"
  shows "packet_step a (m + n) c"
proof -
  have "seconds (last_refill c - last_refill a)
      = seconds (last_refill c - last_refill b) + seconds (last_refill b - last_refill a)"
    by (simp flip: seconds_add)
  then show ?thesis
    using assms unfolding packet_step_def by (auto simp: distrib_left)
qed

lemma adapt_burst_packets: "packets_ok rl \<Longrightarrow> packet_step rl 0 (adapt_burst n rl)"
  by (simp add: packet_step_def packets_ok_def adapt_burst_def)

lemma refill_packets: "packets_ok rl \<Longrightarrow> packet_step rl 0 (refill now rl)"
  by (auto simp: packet_step_def packets_ok_def refill_def Let_def mult.commute not_le seconds_def)

lemma try_acquire_packets:
  assumes "packets_ok rl" "try_acquire n c now rl = (a, rl')"
  shows "packet_step rl (if a = Granted then 1 else 0) rl'"
proof (cases "c \<or> stopped rl")
  case True
  then show ?thesis using assms packet_step_refl by (auto simp: try_acquire_def)
next
  case False
  note step = refill_packets [OF assms(1), of now]
  show ?thesis
  proof (cases a)
    case Granted
    then have "packet_step (refill now rl) 1 rl'"
      using False assms(2) step
      by (auto simp: try_acquire_def packet_step_def packets_ok_def Let_def split: if_splits)
    from packet_step_trans [OF step this] show ?thesis using Granted by simp
  next
    case Refused
    then show ?thesis using False assms(2) by (auto simp: try_acquire_def Let_def split: if_splits)
  next
    case (MustWait w)
    then have "rl' = refill now rl"
      using False assms(2) by (auto simp: try_acquire_def Let_def split: if_splits)
    then show ?thesis using step MustWait by simp
  qed
qed

lemma act_packets:
  assumes "packets_ok rl" "act a rl = (res, rl')"
  shows "packet_step rl (if res = Some Granted then 1 else 0) rl'"
proof (cases a)
  case (EnterAcquire n c now)
  note step = adapt_burst_packets [OF assms(1), of "of_nat n"]
  then have "packets_ok (adapt_burst (of_nat n) rl)" by (simp add: packet_step_def)
  note more = packet_step_trans [OF step try_acquire_packets [OF this]]
  obtain x where x: "try_acquire (of_nat n) c now (adapt_burst (of_nat n) rl) = (x, rl')" "res = Some x"
    using assms(2) EnterAcquire by (auto split: prod.splits)
  from more [OF x(1)] show ?thesis using x(2) by simp
next
  case (RetryAcquire n c now)
  obtain x where x: "try_acquire (of_nat n) c now rl = (x, rl')" "res = Some x"
    using assms(2) RetryAcquire by (auto split: prod.splits)
  from try_acquire_packets [OF assms(1) x(1)] show ?thesis using x(2) by simp
next
  case StopLimiter
  then show ?thesis
    using assms by (auto simp: Stop_def packet_step_def packets_ok_def)
qed

lemma run_limiter_packets:
  "\<lbrakk>packets_ok rl; run_limiter as rl = (n, rl')\<rbrakk> \<Longrightarrow> packet_step rl n rl'"
proof (induction as arbitrary: rl n)
  case Nil
  then show ?case using packet_step_refl by simp
next
  case (Cons a as)
  obtain res r where a: "act a rl = (res, r)" by (cases "act a rl")
  obtain m where m: "run_limiter as r = (m, rl')" and n: "n = (if res = Some Granted then 1 else 0) + m"
    using Cons.prems(2) a by (auto split: prod.splits if_splits)
  note step = act_packets [OF Cons.prems(1) a]
  then have "packets_ok r" by (simp add: packet_step_def)
  from packet_step_trans [OF step Cons.IH [OF this m]] show ?case
    unfolding n .
qed

lemma newRateLimiter_packets:
  assumes "0 \<le> pps" "0 \<le> burst"
  shows "packets_ok (newRateLimiter bw pps burst now)"
  using assms by (simp add: packets_ok_def newRateLimiter_def Let_def)


section \<open>Progress\<close>

text \<open>A failed pass says how long to wait; a pass that much later finds the tokens.\<close>

lemma refill_reaches:
  fixes need avail rate burst elapsed :: rat
  assumes "rate > 0" "need \<le> burst" "(need - avail) / rate \<le> elapsed"
  shows "need \<le> min (avail + elapsed * rate) burst"
  using assms by (simp add: field_simps)

lemma waited_enough:
  assumes "\<not> stopped rl" "\<not> c"
    and rates: "0 \<le> bytesPerSecond rl" "0 \<le> packetsPerSecond rl"
    and fits: "bytesPerSecond rl > 0 \<Longrightarrow> n \<le> burstBytes rl" "packetsPerSecond rl > 0 \<Longrightarrow> 1 \<le> burstPackets rl"
    and wait: "max (tokensWait rl n) (2 / 10000) \<le> seconds (now' - last_refill rl)"
  shows "fst (try_acquire n c now' rl) = Granted"
proof -
  let ?t = "seconds (now' - last_refill rl)"
  have pos: "\<not> ?t \<le> 0" using wait by linarith
  have w: "bytesPerSecond rl > 0 \<Longrightarrow> (n - availBytes rl) / bytesPerSecond rl \<le> ?t"
    "packetsPerSecond rl > 0 \<Longrightarrow> (1 - availPackets rl) / packetsPerSecond rl \<le> ?t"
  proof -
    assume b: "bytesPerSecond rl > 0"
    show "(n - availBytes rl) / bytesPerSecond rl \<le> ?t"
    proof (cases "availBytes rl < n")
      case True
      then show ?thesis using b wait by (auto simp: tokensWait_def Let_def split: if_splits)
    next
      case False
      then have "(n - availBytes rl) / bytesPerSecond rl \<le> 0" using b by (simp add: divide_le_0_iff)
      then show ?thesis using pos by linarith
    qed
  next
    assume p: "packetsPerSecond rl > 0"
    show "(1 - availPackets rl) / packetsPerSecond rl \<le> ?t"
    proof (cases "availPackets rl < 1")
      case True
      then show ?thesis using p wait by (auto simp: tokensWait_def Let_def split: if_splits)
    next
      case False
      then have "(1 - availPackets rl) / packetsPerSecond rl \<le> 0" using p by (simp add: divide_le_0_iff)
      then show ?thesis using pos by linarith
    qed
  qed
  have "bytesPerSecond rl > 0 \<Longrightarrow> n \<le> availBytes (refill now' rl)"
    "packetsPerSecond rl > 0 \<Longrightarrow> 1 \<le> availPackets (refill now' rl)"
    using pos refill_reaches [OF _ fits(1) w(1)] refill_reaches [OF _ fits(2) w(2)]
    by (simp_all add: refill_def Let_def)
  moreover have "bytesPerSecond (refill now' rl) = bytesPerSecond rl" "packetsPerSecond (refill now' rl) = packetsPerSecond rl"
    by (simp_all add: refill_def Let_def)
  moreover have "0 < bytesPerSecond rl \<or> bytesPerSecond rl = 0" "0 < packetsPerSecond rl \<or> packetsPerSecond rl = 0"
    using rates by auto
  ultimately show ?thesis
    using assms(1,2) unfolding try_acquire_def Let_def by auto
qed


section \<open>A burst below one packet\<close>

lemma starving_step:
  assumes "packets_ok rl" "packetsPerSecond rl > 0" "burstPackets rl < 1" "act a rl = (res, rl')"
  shows "res \<noteq> Some Granted"
proof
  assume g: "res = Some Granted"
  then have "packet_step rl 1 rl'"
    using act_packets [OF assms(1,4)] by simp
  have tr: "fst (try_acquire n c now r) \<noteq> Granted"
    if r: "packets_ok r" "packetsPerSecond r > 0" "burstPackets r < 1" for n c now r
  proof -
    have "availPackets (refill now r) \<le> burstPackets (refill now r)" "burstPackets (refill now r) = burstPackets r"
      "packetsPerSecond (refill now r) = packetsPerSecond r"
      using refill_packets [OF r(1), of now] by (simp_all add: packet_step_def packets_ok_def)
    then show ?thesis using r by (auto simp: try_acquire_def Let_def)
  qed
  have ad: "packets_ok (adapt_burst n rl)" "packetsPerSecond (adapt_burst n rl) > 0" "burstPackets (adapt_burst n rl) < 1" for n
    using adapt_burst_packets [OF assms(1), of n] assms(2,3) by (simp_all add: packet_step_def)
  show False
    using g assms(4) tr [OF assms(1-3)] tr [OF ad]
    by (cases a) (auto split: prod.splits dest: arg_cong [of _ _ fst])
qed

lemma starving_run:
  "\<lbrakk>packets_ok rl; packetsPerSecond rl > 0; burstPackets rl < 1; run_limiter as rl = (n, rl')\<rbrakk> \<Longrightarrow> n = 0"
proof (induction as arbitrary: rl n)
  case (Cons a as)
  obtain res r where a: "act a rl = (res, r)" by (cases "act a rl")
  have "packet_step rl (if res = Some Granted then 1 else 0) r"
    by (rule act_packets [OF Cons.prems(1) a])
  then have "packets_ok r" "packetsPerSecond r > 0" "burstPackets r < 1"
    using Cons.prems(2,3) by (simp_all add: packet_step_def)
  then show ?case
    using Cons.IH Cons.prems(4) a starving_step [OF Cons.prems(1-3) a] by (auto split: prod.splits)
qed simp

lemma starving_loop:
  "\<lbrakk>packets_ok rl; packetsPerSecond rl > 0; burstPackets rl < 1\<rbrakk>
    \<Longrightarrow> fst (acquire_loop (of_nat n) rounds rl) \<noteq> Some True"
proof (induction rounds arbitrary: rl)
  case (Cons r rs)
  obtain x rl' where x: "try_acquire (of_nat n) (ar_cancelled r) (ar_now r) rl = (x, rl')"
    by (cases "try_acquire (of_nat n) (ar_cancelled r) (ar_now r) rl")
  have "x \<noteq> Granted"
    using starving_step [OF Cons.prems, of "RetryAcquire n (ar_cancelled r) (ar_now r)"] x by simp
  moreover have step: "packet_step rl 0 rl'"
    using try_acquire_packets [OF Cons.prems(1) x] \<open>x \<noteq> Granted\<close> by simp
  then have ok: "packets_ok rl'" "packetsPerSecond rl' > 0" "burstPackets rl' < 1"
    using Cons.prems(2,3) by (simp_all add: packet_step_def)
  obtain k rl'' where k: "run_limiter (ar_others r) rl' = (k, rl'')"
    by (cases "run_limiter (ar_others r) rl'")
  have "packets_ok rl''" "packetsPerSecond rl'' > 0" "burstPackets rl'' < 1"
    using run_limiter_packets [OF ok(1) k] ok(2,3) by (simp_all add: packet_step_def)
  note Cons.IH [OF this]
  ultimately show ?case
    using x k by (cases x) (simp_all add: Let_def)
qed simp

section \<open>Properties\<close>

fun action_clock :: "limiter_action \<Rightarrow> int option" where
  "action_clock (EnterAcquire n c now) = Some now"
| "action_clock (RetryAcquire n c now) = Some now"
| "action_clock StopLimiter = None"

lemma run_limiter_clock:
  "\<lbrakk>run_limiter as rl = (n, rl'); last_refill rl \<le> t; \<forall>a \<in> set as. \<forall>c. action_clock a = Some c \<longrightarrow> c \<le> t\<rbrakk>
    \<Longrightarrow> last_refill rl' \<le> t"
proof (induction as arbitrary: rl n)
  case (Cons a as)
  have r: "\<lbrakk>try_acquire k b c r = (x, r'); last_refill r \<le> t; c \<le> t\<rbrakk> \<Longrightarrow> last_refill r' \<le> t" for k b c r x r'
    by (auto simp: try_acquire_def refill_def Let_def split: if_splits)
  have "last_refill (adapt_burst k rl) \<le> t" for k
    using Cons.prems(2) by (simp add: adapt_burst_def)
  then have "last_refill (snd (act a rl)) \<le> t"
    using Cons.prems(2,3) by (cases a) (auto simp: Stop_def split: prod.splits dest: r)
  then show ?case
    using Cons.IH Cons.prems(1,3) by (auto split: prod.splits)
qed simp

lemma SetupRateLimiter_packets:
  assumes "PacketsPerSecond (Config g) = Some p" "sint p = k" "0 < k"
  shows "packets_ok (SetupRateLimiter g now)" "packetsPerSecond (SetupRateLimiter g now) = of_int k"
    "burstPackets (SetupRateLimiter g now) = of_int k / 10"
    "availPackets (SetupRateLimiter g now) = of_int k / 20"
    "last_refill (SetupRateLimiter g now) = now"
  using assms newRateLimiter_packets [of k 100000000]
  by (simp_all add: SetupRateLimiter_def) (simp_all add: newRateLimiter_def Let_def)

text \<open>
  C30: The configured rate is never exceeded. Whatever goroutines ask for packets, however their passes,
  waits, cancellations and a stop interleave, and whatever the clock shows, the packets granted from the
  set-up until time \<open>t\<close> are at most the configured rate times the time that has passed, plus the half
  burst (50 milliseconds' worth) the bucket starts with.
\<close>

theorem limiter_rate_bound:
  assumes "PacketsPerSecond (Config g) = Some p" "sint p = k" "0 < k" "now \<le> t"
    and "\<forall>a \<in> set as. \<forall>c. action_clock a = Some c \<longrightarrow> c \<le> t"
  shows "of_nat (fst (run_limiter as (SetupRateLimiter g now))) \<le> of_int k * (seconds (t - now) + 1 / 20)"
proof -
  note s = SetupRateLimiter_packets [OF assms(1-3), of now]
  obtain n rl' where r: "run_limiter as (SetupRateLimiter g now) = (n, rl')"
    by (cases "run_limiter as (SetupRateLimiter g now)")
  have "last_refill rl' \<le> t"
    using run_limiter_clock [OF r _ assms(5)] s(5) assms(4) by simp
  then have "seconds (last_refill rl' - now) \<le> seconds (t - now)"
    by (simp add: seconds_def divide_right_mono)
  then have "of_int k * seconds (last_refill rl' - now) \<le> of_int k * seconds (t - now)"
    using assms(3) by (intro mult_left_mono) simp_all
  moreover have "of_nat n + availPackets rl' \<le> of_int k / 20 + of_int k * seconds (last_refill rl' - now)"
    "0 \<le> availPackets rl'"
    using run_limiter_packets [OF s(1) r] s assms(3) by (auto simp: packet_step_def packets_ok_def)
  ultimately show ?thesis
    using r by (simp add: distrib_left)
qed

theorem limiter_rate_bound_witness:
  "of_nat (fst (run_limiter [EnterAcquire 60 False 5000000, RetryAcquire 60 False 1000000000] (SetupRateLimiter demo_context 0)))
     \<le> (1050 :: rat)"
  using limiter_rate_bound [of demo_context 1000 1000 0 1000000000
      "[EnterAcquire 60 False 5000000, RetryAcquire 60 False 1000000000]"]
  by (simp add: demo_defs seconds_def)

text \<open>
  A sender that is made to wait gets its token when the wait is over. If the packet burst holds at
  least one packet, then a call of \<open>AcquireUntil\<close> for a frame of any size (the byte burst is adapted to
  it) that is not cancelled, stopped or overtaken is granted at the latest on its second pass,
  provided the clock has advanced by the time the first pass said to wait.
\<close>

theorem AcquireUntil_progress:
  assumes "\<not> stopped rl" "0 \<le> bytesPerSecond rl" "0 \<le> packetsPerSecond rl"
    and "packetsPerSecond rl > 0 \<Longrightarrow> 1 \<le> burstPackets rl"
    and "\<not> ar_cancelled r" "ar_others r = []" "\<not> ar_wait_cancelled r" "\<not> ar_cancelled r'" "last_refill rl \<le> ar_now r"
    and "\<And>w rl'. try_acquire (of_nat n) False (ar_now r) (adapt_burst (of_nat n) rl) = (MustWait w, rl')
           \<Longrightarrow> w \<le> seconds (ar_now r' - ar_now r)"
  shows "fst (AcquireUntil n (r # r' # rs) rl) = Some True"
proof -
  let ?rl = "adapt_burst (of_nat n) rl"
  have keep: "\<not> stopped ?rl" "bytesPerSecond ?rl = bytesPerSecond rl" "packetsPerSecond ?rl = packetsPerSecond rl"
    "burstPackets ?rl = burstPackets rl" "last_refill ?rl = last_refill rl"
    "bytesPerSecond rl > 0 \<Longrightarrow> of_nat n \<le> burstBytes ?rl"
    using assms(1) by (simp_all add: adapt_burst_def)
  obtain x rl1 where x: "try_acquire (of_nat n) False (ar_now r) ?rl = (x, rl1)"
    by (cases "try_acquire (of_nat n) False (ar_now r) ?rl")
  show ?thesis
  proof (cases x)
    case Granted
    then show ?thesis using x assms(5) by (simp add: AcquireUntil_def)
  next
    case Refused
    then show ?thesis using x keep(1) by (auto simp: try_acquire_def Let_def split: if_splits)
  next
    case (MustWait w)
    then have rl1: "rl1 = refill (ar_now r) ?rl" "w = max (tokensWait rl1 (of_nat n)) (2 / 10000)"
      using x keep(1) by (auto simp: try_acquire_def Let_def split: if_splits)
    have f: "\<not> stopped rl1" "bytesPerSecond rl1 = bytesPerSecond rl" "packetsPerSecond rl1 = packetsPerSecond rl"
      "burstPackets rl1 = burstPackets rl" "burstBytes rl1 = burstBytes ?rl" "last_refill rl1 = ar_now r"
      using keep assms(9) by (simp_all add: rl1(1) refill_def Let_def)
    have "fst (try_acquire (of_nat n) False (ar_now r') rl1) = Granted"
      by (rule waited_enough)
         (use f keep assms(2-4) assms(10) x MustWait rl1(2) in \<open>simp_all add: f\<close>)
    then show ?thesis
      using x MustWait assms(5-8) by (auto simp: AcquireUntil_def split: prod.splits attempt.splits)
  qed
qed

text \<open>A bucket of one byte per second asked for a datagram of 60 bytes, and asked again a minute later.\<close>

theorem AcquireUntil_progress_witness:
  "fst (AcquireUntil 60
     [\<lparr>ar_cancelled = False, ar_now = 0, ar_others = [], ar_wait_cancelled = False\<rparr>,
      \<lparr>ar_cancelled = False, ar_now = 60000000000, ar_others = [], ar_wait_cancelled = False\<rparr>]
     (newRateLimiter 8 0 100000000 0)) = Some True"
proof (rule AcquireUntil_progress)
  show "w \<le> seconds (ar_now \<lparr>ar_cancelled = False, ar_now = 60000000000, ar_others = [], ar_wait_cancelled = False\<rparr>
      - ar_now \<lparr>ar_cancelled = False, ar_now = 0, ar_others = [], ar_wait_cancelled = False\<rparr>)"
    if "try_acquire (of_nat 60) False (ar_now \<lparr>ar_cancelled = False, ar_now = 0, ar_others = [], ar_wait_cancelled = False\<rparr>)
      (adapt_burst (of_nat 60) (newRateLimiter 8 0 100000000 0)) = (MustWait w, rl')" for w rl'
    using that by (auto simp: newRateLimiter_def adapt_burst_def try_acquire_def refill_def tokensWait_def seconds_def Let_def)
qed (simp_all add: newRateLimiter_def)

text \<open>
  C38: The packet burst, unlike the byte burst, is not adapted: a configuration of 1 to 9 packets per
  second, which the validation accepts, gives a bucket that never holds a whole packet. No call of
  \<open>AcquireUntil\<close> is ever granted, whenever it is made and however long it waits; the measurement sends
  nothing until it is interrupted.
\<close>

theorem low_rate_never_sends:
  assumes "PacketsPerSecond (Config g) = Some p" "sint p = k" "1 \<le> k" "k \<le> 9"
  shows "fst (run_limiter as (SetupRateLimiter g now)) = 0
    \<and> fst (AcquireUntil n rounds (snd (run_limiter as (SetupRateLimiter g now)))) \<noteq> Some True"
proof -
  have s: "packets_ok (SetupRateLimiter g now)" "packetsPerSecond (SetupRateLimiter g now) > 0"
    "burstPackets (SetupRateLimiter g now) < 1"
    using SetupRateLimiter_packets [OF assms(1,2), of now] assms(3,4) by simp_all
  obtain k rl where r: "run_limiter as (SetupRateLimiter g now) = (k, rl)"
    by (cases "run_limiter as (SetupRateLimiter g now)")
  have none: "fst (run_limiter as (SetupRateLimiter g now)) = 0"
    using starving_run [OF s r] r by simp
  have "packet_step (SetupRateLimiter g now) k rl" by (rule run_limiter_packets [OF s(1) r])
  moreover from this have "packet_step rl 0 (adapt_burst (of_nat n) rl)"
    by (intro adapt_burst_packets) (simp add: packet_step_def)
  ultimately have "fst (AcquireUntil n rounds (snd (run_limiter as (SetupRateLimiter g now)))) \<noteq> Some True"
    using s starving_loop [of "adapt_burst (of_nat n) rl" n rounds] r
    by (simp add: AcquireUntil_def packet_step_def)
  with none show ?thesis by blast
qed

theorem low_rate_never_sends_witness:
  "fst (AcquireUntil 60 [\<lparr>ar_cancelled = False, ar_now = 10000000000, ar_others = [], ar_wait_cancelled = False\<rparr>]
     (snd (run_limiter [] (SetupRateLimiter (demo_context\<lparr>Config := demo_config\<lparr>PacketsPerSecond := Some 9\<rparr>\<rparr>) 0)))) \<noteq> Some True"
  by (rule low_rate_never_sends [where p = 9 and k = 9, THEN conjunct2]) simp_all

end
