(* ===== verification/Tags.thy ===== *)
theory Tags
  imports Prelude "HOL-Library.List_Lexorder" "HOL-Library.Char_ord"
begin

text \<open>
  \<^verbatim>\<open>os/classifier.go\<close>: from a banner to an operating-system tag, and from the tags of six services to
  one decision. The rules are Go regular expressions; the part of their language the table uses is
  modelled as a datatype with an executable matcher, which is proved to compute the usual relation
  between a position and the positions a match can end at. A banner is a list of runes. Case-insensitive
  matching folds a rune to lower case; the two non-ASCII runes that fold to an ASCII letter are
  included. Which runes are letters (\<open>\p{L}\<close>) is a table of the Unicode standard and a parameter.
\<close>

section \<open>Regular expressions\<close>

type_synonym rune = nat

datatype rune_class = Only rune | AnyRune | Within bool "(rune \<times> rune) list" | NonLetter

datatype re = Eps | Cls rune_class | Bol | Eol | Cat re re | Or re re | Opt re | Star re

definition fold_rune :: "rune \<Rightarrow> rune" where
  "fold_rune r = (if 65 \<le> r \<and> r \<le> 90 then r + 32 else if r = 383 then 115 else if r = 8490 then 107 else r)"

fun in_class :: "(rune \<Rightarrow> bool) \<Rightarrow> rune_class \<Rightarrow> rune \<Rightarrow> bool" where
  "in_class letter (Only c) r = (fold_rune r = c)"
| "in_class letter AnyRune r = (r \<noteq> 10)"
| "in_class letter (Within negated ranges) r =
     (list_ex (\<lambda>(a, b). a \<le> fold_rune r \<and> fold_rune r \<le> b) ranges \<noteq> negated)"
| "in_class letter NonLetter r = (\<not> letter r)"

text \<open>A position: whether it is the start of the text, and the runes that follow.\<close>

type_synonym pos = "bool \<times> rune list"

fun star_ends :: "(pos \<Rightarrow> pos list) \<Rightarrow> nat \<Rightarrow> pos \<Rightarrow> pos list" where
  "star_ends f 0 x = [x]"
| "star_ends f (Suc n) x =
     x # concat (map (star_ends f n) (filter (\<lambda>y. length (snd y) < length (snd x)) (f x)))"

fun ends :: "(rune \<Rightarrow> bool) \<Rightarrow> re \<Rightarrow> pos \<Rightarrow> pos list" where
  "ends letter Eps x = [x]"
| "ends letter (Cls c) x = (case snd x of [] \<Rightarrow> [] | r # s \<Rightarrow> if in_class letter c r then [(False, s)] else [])"
| "ends letter Bol x = (if fst x then [x] else [])"
| "ends letter Eol x = (if snd x = [] then [x] else [])"
| "ends letter (Cat a b) x = concat (map (ends letter b) (ends letter a x))"
| "ends letter (Or a b) x = ends letter a x @ ends letter b x"
| "ends letter (Opt a) x = x # ends letter a x"
| "ends letter (Star a) x = star_ends (ends letter a) (length (snd x)) x"

fun match_at :: "(rune \<Rightarrow> bool) \<Rightarrow> re \<Rightarrow> bool \<Rightarrow> rune list \<Rightarrow> bool" where
  "match_at letter e start [] = (ends letter e (start, []) \<noteq> [])"
| "match_at letter e start (r # s) = (ends letter e (start, r # s) \<noteq> [] \<or> match_at letter e False s)"

text \<open>\<open>MatchString\<close>: a match anywhere in the text.\<close>

definition MatchString :: "(rune \<Rightarrow> bool) \<Rightarrow> re \<Rightarrow> rune list \<Rightarrow> bool" where
  "MatchString letter e s = match_at letter e True s"

text \<open>The meaning of an expression as a relation between positions.\<close>

inductive spans :: "(rune \<Rightarrow> bool) \<Rightarrow> re \<Rightarrow> pos \<Rightarrow> pos \<Rightarrow> bool" for letter where
  spans_eps: "spans letter Eps x x"
| spans_cls: "in_class letter c r \<Longrightarrow> spans letter (Cls c) (b, r # s) (False, s)"
| spans_bol: "spans letter Bol (True, s) (True, s)"
| spans_eol: "spans letter Eol (b, []) (b, [])"
| spans_cat: "\<lbrakk>spans letter e x y; spans letter f y z\<rbrakk> \<Longrightarrow> spans letter (Cat e f) x z"
| spans_or1: "spans letter e x y \<Longrightarrow> spans letter (Or e f) x y"
| spans_or2: "spans letter f x y \<Longrightarrow> spans letter (Or e f) x y"
| spans_none: "spans letter (Opt e) x x"
| spans_some: "spans letter e x y \<Longrightarrow> spans letter (Opt e) x y"
| spans_stop: "spans letter (Star e) x x"
| spans_more: "\<lbrakk>spans letter e x y; spans letter (Star e) y z\<rbrakk> \<Longrightarrow> spans letter (Star e) x z"

inductive_cases spans_EpsE: "spans letter Eps x y"
inductive_cases spans_ClsE: "spans letter (Cls c) x y"
inductive_cases spans_BolE: "spans letter Bol x y"
inductive_cases spans_EolE: "spans letter Eol x y"
inductive_cases spans_CatE: "spans letter (Cat e f) x y"
inductive_cases spans_OrE: "spans letter (Or e f) x y"
inductive_cases spans_OptE: "spans letter (Opt e) x y"

text \<open>A match never goes back, and one that does not advance stays where it is.\<close>

lemma spans_length: "spans letter e x y \<Longrightarrow> length (snd y) < length (snd x) \<or> y = x"
  by (induction rule: spans.induct) auto

lemma star_ends_sound:
  assumes "\<And>x y. y \<in> set (f x) \<Longrightarrow> spans letter e x y"
  shows "y \<in> set (star_ends f n x) \<Longrightarrow> spans letter (Star e) x y"
  by (induction n arbitrary: x) (auto intro: spans.intros dest: assms)

lemma ends_sound: "y \<in> set (ends letter e x) \<Longrightarrow> spans letter e x y"
proof (induction e arbitrary: x y)
  case (Cls c)
  then show ?case by (cases x) (auto intro: spans.intros split: list.splits if_splits)
next
  case (Star e)
  then show ?case using star_ends_sound [of "ends letter e" letter e] by auto
next
  case (Cat e f)
  from Cat.prems obtain z where "z \<in> set (ends letter e x)" "y \<in> set (ends letter f z)"
    unfolding ends.simps set_concat set_map by blast
  then show ?case using Cat.IH by (blast intro: spans_cat)
qed (cases x; auto intro: spans.intros split: if_splits)+

lemma star_ends_complete:
  assumes "\<And>x y. spans letter e x y \<Longrightarrow> y \<in> set (f x)"
  shows "spans letter s x y \<Longrightarrow> s = Star e \<Longrightarrow> length (snd x) \<le> n \<Longrightarrow> y \<in> set (star_ends f n x)"
proof (induction arbitrary: n rule: spans.induct)
  case (spans_stop e x)
  then show ?case by (cases n) auto
next
  case (spans_more e' x y z)
  then have step: "spans letter e x y" by simp
  show ?case
  proof (cases "y = x")
    case True
    then show ?thesis using spans_more by simp
  next
    case False
    then have less: "length (snd y) < length (snd x)"
      using spans_length [OF step] by simp
    then obtain m where m: "n = Suc m" "length (snd y) \<le> m"
      using spans_more.prems(2) by (cases n) auto
    then have "z \<in> set (star_ends f m y)"
      using spans_more by simp
    moreover have "y \<in> set (filter (\<lambda>y. length (snd y) < length (snd x)) (f x))"
      using less assms [OF step] by simp
    ultimately show ?thesis
      unfolding m(1) star_ends.simps set_simps set_concat set_map by blast
  qed
qed simp_all

lemma ends_complete: "spans letter e x y \<Longrightarrow> y \<in> set (ends letter e x)"
proof (induction e arbitrary: x y)
  case (Cls c)
  then show ?case by (auto elim: spans_ClsE)
next
  case (Cat e f)
  from Cat.prems obtain z where "spans letter e x z" "spans letter f z y" by (rule spans_CatE)
  then have "z \<in> set (ends letter e x)" "y \<in> set (ends letter f z)"
    using Cat.IH by blast+
  then show ?case unfolding ends.simps set_concat set_map by blast
next
  case (Star e)
  then show ?case
    using star_ends_complete [of letter e "ends letter e" "Star e" x y "length (snd x)"] by simp
qed (auto elim: spans_EpsE spans_BolE spans_EolE spans_OrE spans_OptE)

lemma ends_iff: "y \<in> set (ends letter e x) \<longleftrightarrow> spans letter e x y"
  using ends_sound ends_complete by blast

lemma ends_nonempty: "ends letter e x \<noteq> [] \<longleftrightarrow> (\<exists>y. spans letter e x y)"
  unfolding ends_iff [symmetric] by (metis ex_in_conv set_empty)

lemma match_at_iff:
  "match_at letter e start s \<longleftrightarrow>
     (\<exists>pre suf y. s = pre @ suf \<and> spans letter e (start \<and> pre = [], suf) y)"
proof (induction letter e start s rule: match_at.induct)
  case (1 letter e start)
  show ?case unfolding match_at.simps ends_nonempty by simp
next
  case (2 letter e start r s)
  have "(\<exists>pre suf y. r # s = pre @ suf \<and> spans letter e (start \<and> pre = [], suf) y)
    \<longleftrightarrow> (\<exists>y. spans letter e (start, r # s) y) \<or> (\<exists>pre suf y. s = pre @ suf \<and> spans letter e (False, suf) y)"
    (is "?all \<longleftrightarrow> ?here \<or> ?later")
  proof
    assume ?all
    then obtain pre suf y where y: "r # s = pre @ suf" "spans letter e (start \<and> pre = [], suf) y" by blast
    then show "?here \<or> ?later" by (cases pre) (auto simp del: split_paired_Ex split_paired_All)
  next
    assume "?here \<or> ?later"
    then show ?all
    proof
      assume ?here
      then show ?all by (intro exI [of _ "[]"] exI [of _ "r # s"]) simp
    next
      assume ?later
      then obtain pre suf y where "s = pre @ suf" "spans letter e (False, suf) y" by blast
      then have "r # s = (r # pre) @ suf" "spans letter e (start \<and> r # pre = [], suf) y" by simp_all
      then show ?all by blast
    qed
  qed
  then show ?case using 2 unfolding match_at.simps ends_nonempty by simp
qed


section \<open>The rule table\<close>

definition lit :: "string \<Rightarrow> re" where
  "lit s = foldr (\<lambda>c e. Cat (Cls (Only (of_char c))) e) s Eps"

definition seq :: "re list \<Rightarrow> re" where
  "seq es = foldr Cat es Eps"

fun alt :: "re list \<Rightarrow> re" where
  "alt [] = Eps"
| "alt [e] = e"
| "alt (e # f # es) = Or e (alt (f # es))"

definition Plus :: "re \<Rightarrow> re" where "Plus e = Cat e (Star e)"
definition dot :: re where "dot = Cls AnyRune"
definition space :: re where "space = Cls (Within False [(9, 10), (12, 13), (32, 32)])"
definition digit :: re where "digit = Cls (Within False [(48, 57)])"
definition sep :: re where "sep = Cls (Within False [(45, 45), (95, 95), (46, 46), (32, 32)])"
definition punct :: re where "punct = Cls (Within False [(46, 46), (95, 95), (43, 43), (45, 45)])"
definition digit_punct :: re where
  "digit_punct = Cls (Within False [(48, 57), (46, 46), (95, 95), (43, 43), (45, 45)])"
definition nonalnum :: re where "nonalnum = Cls (Within True [(97, 122), (48, 57)])"
definition nonletter :: re where "nonletter = Cls NonLetter"

definition letter_bounded :: "string \<Rightarrow> re" where
  "letter_bounded s = seq [alt [Bol, nonletter], lit s, alt [nonletter, Eol]]"

definition alnum_bounded :: "string \<Rightarrow> re" where
  "alnum_bounded s = seq [alt [Bol, nonalnum], lit s, alt [nonalnum, Eol]]"

text \<open>\<open>tagRules\<close> in the order of the source: the first rule that matches wins.\<close>

definition tagRules :: "(string \<times> re) list" where
  "tagRules = [
    (''cisco-iosxe'', seq [Opt (seq [lit ''cisco'', Star nonalnum]), lit ''ios'', Opt sep, lit ''xe'']),
    (''cisco-iosxr'', seq [Opt (seq [lit ''cisco'', Star nonalnum]), lit ''ios'', Opt sep, lit ''xr'']),
    (''cisco-nxos'', seq [Opt (seq [lit ''cisco'', Star nonalnum]), lit ''nx'', Opt sep, lit ''os'']),
    (''cisco-ftd'', alt [seq [lit ''firepower'', Plus space, lit ''threat'', Plus space, lit ''defense''],
        seq [lit ''cisco'', Opt sep, lit ''ftd'']]),
    (''cisco-asa'', seq [lit ''cisco'', Star dot, alt [seq [lit ''adaptive'', Plus space, lit ''security''],
        letter_bounded ''asa'']]),
    (''cisco-ios'', seq [lit ''cisco'', Star dot, alnum_bounded ''ios'']),
    (''juniper-junos-evolved'', seq [lit ''junos'', Plus space, lit ''evolved'']),
    (''juniper-screenos'', alt [seq [lit ''screen'', Opt sep, lit ''os''], lit ''netscreen'']),
    (''juniper-junos'', lit ''junos''),
    (''mikrotik-routeros'', seq [lit ''router'', Opt sep, lit ''os'']),
    (''mikrotik-swos'', seq [lit ''sw'', Opt sep, lit ''os'']),
    (''huawei-vrp'', alt [seq [lit ''versatile'', Plus space, lit ''routing'', Plus space, lit ''platform''],
        letter_bounded ''vrp'']),
    (''fortinet-fortios'', alt [seq [lit ''forti'', Opt sep, lit ''os''], lit ''fortigate'']),
    (''paloalto-panos'', seq [lit ''pan'', Opt sep, lit ''os'']),
    (''checkpoint-gaia'', lit ''gaia''),
    (''f5-bigip'', alt [seq [lit ''f5'', Star dot, lit ''big'', Opt sep, lit ''ip''], seq [lit ''big'',
        Opt sep, lit ''ip'']]),
    (''arubaos-cx'', alt [seq [lit ''aruba'', Opt sep, lit ''os'', Opt sep, lit ''cx''], seq [lit ''aos'',
        Opt sep, lit ''cx'']]),
    (''arubaos'', seq [lit ''aruba'', Opt sep, lit ''os'']),
    (''arista-eos'', seq [lit ''arista'', Star dot, letter_bounded ''eos'']),
    (''extreme-exos'', seq [lit ''extreme'', Star dot, lit ''ex'', Opt sep, lit ''os'']),
    (''nokia-sros'', alt [seq [lit ''nokia'', Star dot, lit ''sr'', Opt sep, lit ''os''], seq [lit ''service'',
        Plus space, lit ''router'', Plus space, lit ''operating'', Plus space, lit ''system''],
        lit ''timos'']),
    (''dell-os10'', alt [seq [lit ''dell'', Star dot, alt [Bol, nonalnum], lit ''os'', Opt sep, lit ''10'',
        alt [nonalnum, Eol]], seq [lit ''smartfabric'', Star dot, lit ''os'', Opt sep, lit ''10'']]),
    (''brocade-fos'', alt [seq [lit ''brocade'', Star dot, lit ''fabric'', Opt sep, lit ''os''],
        seq [lit ''fabric'', Opt sep, lit ''os'', Star dot, lit ''brocade'']]),
    (''hpe-comware'', lit ''comware''),
    (''hpe-procurve'', lit ''procurve''),
    (''cumulus-linux'', seq [lit ''cumulus'', Plus space, lit ''linux'']),
    (''sonicos'', alt [seq [lit ''sonic'', Opt sep, lit ''os''], seq [lit ''sonicwall'', Star dot,
        alt [lit ''firewall'', seq [lit ''tz'', digit], seq [lit ''ns'', Opt (lit ''a''), digit],
        seq [lit ''nss'', Opt (lit ''p''), digit], lit ''nsv'']]]),
    (''sonic'', alt [seq [Bol, lit ''sonic'', Eol], seq [alnum_bounded ''sonic'', Star dot,
        alt [lit ''software'', lit ''version'']], seq [alt [lit ''software'', lit ''version''], Star dot,
        alnum_bounded ''sonic'']]),
    (''zynos'', seq [lit ''zy'', Opt sep, lit ''nos'']),
    (''zyxel-zld'', seq [lit ''zyxel'', Star dot, letter_bounded ''zld'']),
    (''zyxel-uos'', seq [lit ''zyxel'', Star dot, letter_bounded ''uos'']),
    (''drayos'', seq [lit ''dray'', Opt sep, lit ''os'']),
    (''watchguard-fireware'', alt [lit ''fireware'', seq [lit ''watchguard'', Star dot, lit ''firebox''],
        seq [lit ''firebox'', Star dot, lit ''watchguard'']]),
    (''sophos-sfos'', alt [lit ''sfos'', seq [lit ''sophos'', Star dot, alt [lit ''firewall'', lit ''xg'']]]),
    (''fritzos'', lit ''fritz''),
    (''asuswrt'', seq [lit ''asus'', Opt sep, lit ''wrt'']),
    (''edgeos'', seq [lit ''edge'', Opt sep, lit ''os'']),
    (''unifi-os'', seq [lit ''unifi'', Opt sep, lit ''os'']),
    (''airos'', seq [lit ''air'', Opt sep, lit ''os'']),
    (''openwrt'', alt [seq [lit ''open'', Opt sep, lit ''wrt''], lit ''lede'']),
    (''dd-wrt'', seq [lit ''dd'', Opt sep, lit ''wrt'']),
    (''wrt'', letter_bounded ''wrt''),
    (''pfsense'', seq [lit ''pf'', Opt sep, lit ''sense'']),
    (''opnsense'', seq [lit ''opn'', Opt sep, lit ''sense'']),
    (''vyos'', lit ''vyos''),
    (''vyatta'', lit ''vyatta''),
    (''synology-dsm'', alt [seq [lit ''synology'', Star dot, letter_bounded ''dsm''], seq [lit ''diskstation'',
        Plus space, lit ''manager'']]),
    (''synology-srm'', alt [seq [lit ''synology'', Star dot, letter_bounded ''srm''], seq [lit ''synology'',
        Plus space, lit ''router'', Plus space, lit ''manager'']]),
    (''qnap-quts-hero'', alt [seq [lit ''qnap'', Star dot, lit ''quts''], seq [lit ''quts'', Opt sep,
        lit ''hero'']]),
    (''qnap-qts'', seq [lit ''qnap'', Star dot, letter_bounded ''qts'']),
    (''truenas-core'', seq [lit ''truenas'', Star dot, lit ''core'']),
    (''truenas-scale'', seq [lit ''truenas'', Star dot, lit ''scale'']),
    (''vmware-esxi'', lit ''esxi''),
    (''proxmox-ve'', seq [lit ''proxmox'', Star dot, alt [seq [lit ''virtual'', Plus space,
        lit ''environment''], letter_bounded ''ve'']]),
    (''raspbian'', lit ''rasp''),
    (''ubuntu'', lit ''ubuntu''),
    (''debian'', alt [lit ''debian'', seq [alt [Bol, punct], lit ''deb'', Plus digit, alt [punct, Eol]]]),
    (''almalinux'', lit ''alma''),
    (''rocky-linux'', lit ''rocky''),
    (''oracle-linux'', seq [lit ''oracle'', Star dot, lit ''linux'']),
    (''amazon-linux'', alt [seq [lit ''amazon'', Plus space, lit ''linux''], seq [alt [Bol, punct],
        lit ''amzn'', alt [digit_punct, Eol]]]),
    (''kali-linux'', lit ''kali''),
    (''linux-mint'', seq [lit ''linux'', Opt sep, lit ''mint'']),
    (''manjaro'', lit ''manjaro''),
    (''nixos'', seq [lit ''nix'', Opt sep, lit ''os'']),
    (''clear-linux'', seq [lit ''clear'', Opt sep, lit ''linux'']),
    (''photon-os'', alt [seq [lit ''vmware'', Star dot, lit ''photon''], seq [lit ''photon'', Opt sep,
        lit ''os'']]),
    (''flatcar'', lit ''flatcar''),
    (''coreos'', seq [lit ''core'', Opt sep, lit ''os'']),
    (''slackware'', lit ''slackware''),
    (''centos'', seq [lit ''cent'', Opt sep, lit ''os'']),
    (''rhel'', alt [seq [lit ''red'', Star space, lit ''hat''], seq [lit ''ret'', Star space, lit ''hat''],
        lit ''rhel'', seq [alt [Bol, punct], lit ''el'', alt [lit ''7'', lit ''8'', lit ''9'', lit ''10''],
        alt [punct, Eol]]]),
    (''fedora'', lit ''fedora''),
    (''opensuse'', seq [lit ''open'', Opt sep, lit ''suse'']),
    (''suse'', alt [lit ''suse'', lit ''sles'']),
    (''euleros'', seq [lit ''euler'', Opt sep, lit ''os'']),
    (''zorin'', lit ''zorin''),
    (''alpine'', lit ''alpine''),
    (''arch-linux'', seq [lit ''arch'', Plus space, lit ''linux'']),
    (''gentoo'', lit ''gentoo''),
    (''openembedded'', lit ''openembedded''),
    (''yocto'', lit ''yocto''),
    (''freebsd'', seq [lit ''free'', Opt sep, lit ''bsd'']),
    (''openbsd'', seq [lit ''open'', Opt sep, lit ''bsd'']),
    (''netbsd'', seq [lit ''net'', Opt sep, lit ''bsd'']),
    (''macos'', alt [seq [lit ''mac'', Opt sep, lit ''os''], lit ''darwin'']),
    (''apple-ios'', seq [lit ''apple'', Star dot, alnum_bounded ''ios'']),
    (''android'', lit ''android''),
    (''chromeos'', seq [lit ''chrome'', Opt sep, lit ''os'']),
    (''solaris'', alt [lit ''solaris'', seq [lit ''sun'', Opt sep, lit ''os'']]),
    (''aix'', letter_bounded ''aix''),
    (''hpux'', seq [lit ''hp'', Opt sep, lit ''ux'']),
    (''zos'', seq [alt [Bol, nonletter], lit ''z'', Opt (lit ''/''), lit ''os'', alt [nonletter, Eol]]),
    (''openvms'', alt [seq [lit ''open'', Opt sep, lit ''vms''], letter_bounded ''vms'']),
    (''vxworks'', seq [lit ''vx'', Opt sep, lit ''works'']),
    (''qnx'', letter_bounded ''qnx''),
    (''freertos'', seq [lit ''free'', Opt sep, lit ''rtos'']),
    (''windows'', alt [lit ''windows'', lit ''microsoft'', lit ''lanman'', letter_bounded ''win'']),
    (''apple'', lit ''apple''),
    (''cisco'', lit ''cisco''),
    (''juniper'', lit ''juniper''),
    (''mikrotik'', lit ''mikrotik''),
    (''huawei'', lit ''huawei''),
    (''fortinet'', lit ''forti''),
    (''palo-alto'', seq [lit ''palo'', Opt sep, lit ''alto'']),
    (''check-point'', seq [lit ''check'', Star space, lit ''point'']),
    (''f5'', letter_bounded ''f5''),
    (''aruba'', lit ''aruba''),
    (''arista'', lit ''arista''),
    (''sonicwall'', lit ''sonicwall''),
    (''zyxel'', lit ''zyxel''),
    (''draytek'', alt [lit ''draytek'', lit ''vigor'', lit ''dray'']),
    (''watchguard'', lit ''watchguard''),
    (''sophos'', lit ''sophos''),
    (''ubiquiti'', alt [lit ''ubiquiti'', lit ''unifi'']),
    (''synology'', lit ''synology''),
    (''qnap'', lit ''qnap''),
    (''truenas'', alt [lit ''truenas'', lit ''freenas'']),
    (''zte'', letter_bounded ''zte''),
    (''d-link'', seq [lit ''d'', Opt sep, lit ''link'']),
    (''tp-link'', seq [lit ''tp'', Opt sep, lit ''link'']),
    (''netgear'', lit ''netgear''),
    (''busybox'', lit ''busybox''),
    (''bsd'', letter_bounded ''bsd''),
    (''linux'', lit ''linux''),
    (''utm'', letter_bounded ''utm''),
    (''embedded'', lit ''embedded''),
    (''printer'', lit ''printer''),
    (''router'', lit ''router''),
    (''server'', lit ''server'')]"

definition detectTag :: "(rune \<Rightarrow> bool) \<Rightarrow> rune list \<Rightarrow> string" where
  "detectTag letter evidence =
     (if evidence = [] then []
      else case find (\<lambda>rule. MatchString letter (snd rule) evidence) tagRules of
             None \<Rightarrow> [] | Some rule \<Rightarrow> fst rule)"


section \<open>The specificity order\<close>

definition parentPairs :: "(string \<times> string) list" where
  "parentPairs = [
    (''raspbian'', ''debian''), (''ubuntu'', ''linux''), (''debian'', ''linux''), (''almalinux'', ''rhel''),
    (''rocky-linux'', ''rhel''), (''oracle-linux'', ''rhel''), (''centos'', ''rhel''), (''rhel'', ''linux''),
    (''fedora'', ''linux''), (''amazon-linux'', ''linux''), (''opensuse'', ''suse''), (''suse'', ''linux''),
    (''euleros'', ''linux''), (''zorin'', ''ubuntu''), (''alpine'', ''linux''), (''arch-linux'', ''linux''),
    (''gentoo'', ''linux''), (''openembedded'', ''linux''), (''yocto'', ''linux''),
    (''cumulus-linux'', ''linux''), (''kali-linux'', ''debian''), (''linux-mint'', ''ubuntu''),
    (''manjaro'', ''linux''), (''nixos'', ''linux''), (''clear-linux'', ''linux''), (''photon-os'', ''linux''),
    (''flatcar'', ''linux''), (''coreos'', ''linux''), (''slackware'', ''linux''), (''busybox'', ''linux''),
    (''android'', ''linux''), (''chromeos'', ''linux''), (''proxmox-ve'', ''debian''), (''linux'', ''server''),
    (''windows'', ''server''), (''bsd'', ''server''), (''freebsd'', ''bsd''), (''openbsd'', ''bsd''),
    (''netbsd'', ''bsd''), (''apple-ios'', ''apple''), (''macos'', ''apple''),
    (''cisco-iosxe'', ''cisco-ios''), (''cisco-iosxr'', ''cisco-ios''), (''cisco-ios'', ''cisco''),
    (''cisco-nxos'', ''cisco''), (''cisco-asa'', ''cisco''), (''cisco-ftd'', ''cisco''),
    (''juniper-junos'', ''juniper''), (''juniper-junos-evolved'', ''juniper''),
    (''juniper-screenos'', ''juniper''), (''mikrotik-routeros'', ''mikrotik''),
    (''mikrotik-swos'', ''mikrotik''), (''huawei-vrp'', ''huawei''), (''fortinet-fortios'', ''fortinet''),
    (''paloalto-panos'', ''palo-alto''), (''checkpoint-gaia'', ''check-point''), (''f5-bigip'', ''f5''),
    (''arubaos'', ''aruba''), (''arubaos-cx'', ''aruba''), (''arista-eos'', ''arista''),
    (''sonicos'', ''sonicwall''), (''zynos'', ''zyxel''), (''zyxel-zld'', ''zyxel''),
    (''zyxel-uos'', ''zyxel''), (''drayos'', ''draytek''), (''watchguard-fireware'', ''watchguard''),
    (''sophos-sfos'', ''sophos''), (''edgeos'', ''ubiquiti''), (''unifi-os'', ''ubiquiti''),
    (''airos'', ''ubiquiti''), (''synology-dsm'', ''synology''), (''synology-srm'', ''synology''),
    (''qnap-qts'', ''qnap''), (''qnap-quts-hero'', ''qnap''), (''truenas-core'', ''truenas''),
    (''truenas-scale'', ''truenas''), (''cisco'', ''router''), (''juniper'', ''router''),
    (''mikrotik'', ''router''), (''huawei'', ''router''), (''fortinet'', ''router''),
    (''palo-alto'', ''router''), (''check-point'', ''router''), (''f5'', ''router''), (''aruba'', ''router''),
    (''arista'', ''router''), (''sonicwall'', ''router''), (''zyxel'', ''router''), (''draytek'', ''router''),
    (''watchguard'', ''router''), (''sophos'', ''router''), (''ubiquiti'', ''router''),
    (''openwrt'', ''router''), (''dd-wrt'', ''router''), (''wrt'', ''router''), (''vyos'', ''router''),
    (''vyatta'', ''router''), (''pfsense'', ''router''), (''opnsense'', ''router''),
    (''brocade-fos'', ''router''), (''hpe-comware'', ''router''), (''hpe-procurve'', ''router''),
    (''extreme-exos'', ''router''), (''nokia-sros'', ''router''), (''dell-os10'', ''router''),
    (''zte'', ''router''), (''d-link'', ''router''), (''tp-link'', ''router''), (''netgear'', ''router'')]"

text \<open>Looking up a key that is not in the Go map gives the empty string.\<close>

definition parentTag :: "string \<Rightarrow> string" where
  "parentTag t = (case map_of parentPairs t of None \<Rightarrow> [] | Some p \<Rightarrow> p)"

definition parent_of :: "(string \<times> string) set" where
  "parent_of = {(t, p). parentTag t = p \<and> p \<noteq> []}"

text \<open>The loop of \<open>isAncestor\<close>; it could run for ever if the table had a cycle.\<close>

partial_function (option) ancestor_loop :: "string \<Rightarrow> string \<Rightarrow> bool option" where
  "ancestor_loop ancestor current =
     (if current = [] then Some False
      else if current = ancestor then Some True
      else ancestor_loop ancestor (parentTag current))"

definition isAncestor :: "string \<Rightarrow> string \<Rightarrow> bool option" where
  "isAncestor ancestor descendant = ancestor_loop ancestor (parentTag descendant)"

text \<open>The tags that are parents, with their distance from the top; every other tag is below them all.\<close>

definition levels :: "(string \<times> nat) list" where
  "levels = map (\<lambda>t. (t, 0)) [''server'', ''router'', ''apple'', ''synology'', ''qnap'', ''truenas'']
   @ map (\<lambda>t. (t, 1)) [''linux'', ''bsd'', ''cisco'', ''juniper'', ''mikrotik'', ''huawei'', ''fortinet'', ''palo-alto'',
       ''check-point'', ''f5'', ''aruba'', ''arista'', ''sonicwall'', ''zyxel'', ''draytek'', ''watchguard'', ''sophos'',
       ''ubiquiti'']
   @ map (\<lambda>t. (t, 2)) [''debian'', ''rhel'', ''suse'', ''ubuntu'', ''cisco-ios'']"

definition depth :: "string \<Rightarrow> nat" where
  "depth t = (case map_of levels t of None \<Rightarrow> 3 | Some n \<Rightarrow> n)"

lemma parent_depths: "list_all (\<lambda>(t, p). depth p < depth t) parentPairs"
  by code_simp

lemma parent_of_pairs: "(t, p) \<in> parent_of \<Longrightarrow> (t, p) \<in> set parentPairs"
  by (auto simp: parent_of_def parentTag_def dest: map_of_SomeD split: option.splits)

lemma depth_decreases: "(t, p) \<in> parent_of \<Longrightarrow> depth p < depth t"
  using parent_depths parent_of_pairs by (fastforce simp: list_all_iff)

lemma parent_of_step: "parentTag t \<noteq> [] \<Longrightarrow> (t, parentTag t) \<in> parent_of"
  by (simp add: parent_of_def)

lemma single_valued_parent_of: "single_valued parent_of"
  by (auto simp: single_valued_def parent_of_def)

lemma acyclic_parent_of: "acyclic parent_of"
proof -
  have "parent_of\<inverse> \<subseteq> measure depth"
    using depth_decreases by auto
  then have "wf (parent_of\<inverse>)"
    using wf_subset wf_measure by blast
  then show ?thesis
    using wf_acyclic acyclic_converse by blast
qed

lemma ancestor_loop_result:
  "ancestor_loop ancestor current = Some (current \<noteq> [] \<and> (current, ancestor) \<in> parent_of\<^sup>*)"
proof (induction current rule: measure_induct_rule [where f = depth])
  case (less t)
  show ?case
  proof (cases "t = [] \<or> t = ancestor")
    case True
    then show ?thesis by (subst ancestor_loop.simps) auto
  next
    case False
    note unfold = ancestor_loop.simps [of ancestor t]
    show ?thesis
    proof (cases "parentTag t = []")
      case True
      then have "(t, ancestor) \<notin> parent_of\<^sup>*"
        using False by (auto simp: parent_of_def elim: converse_rtranclE)
      then show ?thesis
        using False True unfold ancestor_loop.simps [of ancestor "[]"] by simp
    next
      case up: False
      note step = parent_of_step [OF up]
      have "(t, ancestor) \<in> parent_of\<^sup>* \<longleftrightarrow> (parentTag t, ancestor) \<in> parent_of\<^sup>*"
        using False step by (auto simp: parent_of_def elim: converse_rtranclE intro: converse_rtrancl_into_rtrancl)
      then show ?thesis
        using False up unfold less [OF depth_decreases [OF step]] by simp
    qed
  qed
qed

lemma isAncestor_result: "isAncestor ancestor t = Some ((t, ancestor) \<in> parent_of\<^sup>+)"
proof -
  have "parentTag t \<noteq> [] \<and> (parentTag t, ancestor) \<in> parent_of\<^sup>* \<longleftrightarrow> (t, ancestor) \<in> parent_of\<^sup>+"
    by (auto simp: parent_of_def dest!: tranclD intro: rtrancl_into_trancl2)
  then show ?thesis
    using ancestor_loop_result by (simp add: isAncestor_def)
qed


section \<open>The decision over six services\<close>

record serviceTags =
  tag_SSH :: string
  tag_SMB :: string
  tag_HTTP :: string
  tag_HTTPS :: string
  tag_SNMP :: string
  tag_DNS :: string

definition tag_list :: "serviceTags \<Rightarrow> string list" where
  "tag_list t = [tag_SSH t, tag_SMB t, tag_HTTP t, tag_HTTPS t, tag_SNMP t, tag_DNS t]"

definition tag_values :: "serviceTags \<Rightarrow> string list" where
  "tag_values t = filter (\<lambda>v. v \<noteq> []) (tag_list t)"

definition hasAny :: "serviceTags \<Rightarrow> bool" where
  "hasAny t \<longleftrightarrow> tag_SSH t \<noteq> [] \<or> tag_SMB t \<noteq> [] \<or> tag_HTTP t \<noteq> []
     \<or> tag_HTTPS t \<noteq> [] \<or> tag_SNMP t \<noteq> [] \<or> tag_DNS t \<noteq> []"

definition statusResolved :: string where "statusResolved = ''resolved''"
definition statusAmbiguous :: string where "statusAmbiguous = ''ambiguous''"
definition statusUnclassified :: string where "statusUnclassified = ''unclassified''"

record decision =
  dec_status :: string
  dec_tag :: string
  dec_conflicts :: "string list"

text \<open>\<open>uniqueSorted\<close>: a Go set has no order; sorting its keys gives them in ascending order.\<close>

definition uniqueSorted :: "string list \<Rightarrow> string list" where
  "uniqueSorted values = sort (remdups values)"

text \<open>The loop over the candidates: \<open>Some None\<close> is the conflict.\<close>

fun select_tag :: "string \<Rightarrow> string list \<Rightarrow> string option option" where
  "select_tag selected [] = Some (Some selected)"
| "select_tag selected (candidate # cs) = do {
     known \<leftarrow> (if candidate = selected then Some True else isAncestor candidate selected);
     if known then select_tag selected cs
     else do {
       finer \<leftarrow> isAncestor selected candidate;
       if finer then select_tag candidate cs else Some None
     }
   }"

definition resolveTags :: "serviceTags \<Rightarrow> decision option" where
  "resolveTags tags =
     (case tag_values tags of
        [] \<Rightarrow> Some \<lparr>dec_status = statusUnclassified, dec_tag = [], dec_conflicts = []\<rparr>
      | selected # cs \<Rightarrow> do {
          r \<leftarrow> select_tag selected cs;
          Some (case r of
                  None \<Rightarrow> \<lparr>dec_status = statusAmbiguous, dec_tag = [], dec_conflicts = uniqueSorted (tag_values tags)\<rparr>
                | Some t \<Rightarrow> \<lparr>dec_status = statusResolved, dec_tag = t, dec_conflicts = []\<rparr>)
        })"

text \<open>The reference: the tag that every other tag is an ancestor of, if the set has one.\<close>

definition most_specific :: "string set \<Rightarrow> string \<Rightarrow> bool" where
  "most_specific V t \<longleftrightarrow> t \<in> V \<and> (\<forall>u \<in> V. (t, u) \<in> parent_of\<^sup>*)"

lemma parent_of_antisym: "\<lbrakk>(a, b) \<in> parent_of\<^sup>*; (b, a) \<in> parent_of\<^sup>*\<rbrakk> \<Longrightarrow> a = b"
  using acyclic_parent_of acyclic_impl_antisym_rtrancl antisymD by metis

lemma most_specific_unique: "\<lbrakk>most_specific V t; most_specific V u\<rbrakk> \<Longrightarrow> t = u"
  using parent_of_antisym by (auto simp: most_specific_def)

lemma most_specific_coarser:
  assumes "(s, c) \<in> parent_of\<^sup>*"
  shows "most_specific (insert s (insert c V)) t \<longleftrightarrow> most_specific (insert s V) t"
proof
  assume "most_specific (insert s V) t"
  then show "most_specific (insert s (insert c V)) t"
    using assms by (auto simp: most_specific_def intro: rtrancl_trans)
next
  assume "most_specific (insert s (insert c V)) t"
  then show "most_specific (insert s V) t"
    using assms parent_of_antisym [of s c] by (auto simp: most_specific_def)
qed

lemma select_tag_result:
  "\<exists>r. select_tag selected cs = Some r
       \<and> (case r of None \<Rightarrow> \<nexists>t. most_specific (insert selected (set cs)) t
          | Some t \<Rightarrow> most_specific (insert selected (set cs)) t)"
proof (induction cs arbitrary: selected)
  case Nil
  then show ?case by (simp add: most_specific_def)
next
  case (Cons c cs)
  note r = isAncestor_result [of c selected] isAncestor_result [of selected c]
  consider (coarser) "c = selected \<or> (selected, c) \<in> parent_of\<^sup>+"
    | (finer) "c \<noteq> selected" "(selected, c) \<notin> parent_of\<^sup>+" "(c, selected) \<in> parent_of\<^sup>+"
    | (conflict) "c \<noteq> selected" "(selected, c) \<notin> parent_of\<^sup>+" "(c, selected) \<notin> parent_of\<^sup>+"
    by blast
  then show ?case
  proof cases
    case coarser
    then have "(selected, c) \<in> parent_of\<^sup>*" by auto
    note same = most_specific_coarser [OF this, of "set cs"]
    have "select_tag selected (c # cs) = select_tag selected cs"
      using coarser r by auto
    then show ?thesis
      using Cons.IH [of selected] unfolding list.set(2) same by (simp del: select_tag.simps)
  next
    case finer
    then have "(c, selected) \<in> parent_of\<^sup>*" by auto
    note same = most_specific_coarser [OF this, of "set cs", unfolded insert_commute [of c selected]]
    have "select_tag selected (c # cs) = select_tag c cs"
      using finer r by simp
    then show ?thesis
      using Cons.IH [of c] unfolding list.set(2) same by (simp del: select_tag.simps)
  next
    case conflict
    have "\<not> most_specific (insert selected (set (c # cs))) t" for t
      using single_valued_confluent [OF single_valued_parent_of, of t selected c] conflict
      by (auto simp: most_specific_def rtrancl_eq_or_trancl)
    then show ?thesis
      using conflict r by simp
  qed
qed

lemma resolveTags_result:
  "\<exists>d. resolveTags tags = Some d
     \<and> (if tag_values tags = [] then d = \<lparr>dec_status = statusUnclassified, dec_tag = [], dec_conflicts = []\<rparr>
        else if \<exists>t. most_specific (set (tag_values tags)) t
        then dec_status d = statusResolved \<and> dec_conflicts d = [] \<and> most_specific (set (tag_values tags)) (dec_tag d)
        else d = \<lparr>dec_status = statusAmbiguous, dec_tag = [], dec_conflicts = sorted_list_of_set (set (tag_values tags))\<rparr>)"
proof (cases "tag_values tags")
  case Nil
  then show ?thesis by (simp add: resolveTags_def)
next
  case (Cons s cs)
  have V: "set (tag_values tags) = insert s (set cs)" using Cons by simp
  obtain r where r: "select_tag s cs = Some r"
    "case r of None \<Rightarrow> \<nexists>t. most_specific (insert s (set cs)) t | Some t \<Rightarrow> most_specific (insert s (set cs)) t"
    using select_tag_result [of s cs] by blast
  have sorted: "uniqueSorted (tag_values tags) = sorted_list_of_set (insert s (set cs))"
    unfolding uniqueSorted_def V [symmetric] by (rule sorted_list_of_set_sort_remdups [symmetric])
  show ?thesis
  proof (cases r)
    case None
    then have "\<nexists>t. most_specific (insert s (set cs)) t" using r(2) by simp
    then show ?thesis
      using r(1) None sorted Cons unfolding V by (simp add: resolveTags_def)
  next
    case (Some t)
    then have "most_specific (insert s (set cs)) t" using r(2) by simp
    then show ?thesis
      using r(1) Some Cons unfolding V by (auto simp: resolveTags_def)
  qed
qed


section \<open>Properties\<close>

text \<open>An expression occurs in a text if some part of the text is a match.\<close>

definition occurs_in :: "(rune \<Rightarrow> bool) \<Rightarrow> re \<Rightarrow> rune list \<Rightarrow> bool" where
  "occurs_in letter e s \<longleftrightarrow> (\<exists>pre suf y. s = pre @ suf \<and> spans letter e (pre = [], suf) y)"

lemma MatchString_iff: "MatchString letter e s \<longleftrightarrow> occurs_in letter e s"
  by (simp add: MatchString_def occurs_in_def match_at_iff)

text \<open>
  The classifier's answer for one banner is the tag of the first rule of the table whose regular
  expression, read as the relation between the positions of a match, occurs anywhere in the banner;
  it is empty exactly when the banner is empty or no rule's expression occurs in it.
\<close>

theorem detectTag_first_match:
  assumes "s \<noteq> []" "detectTag letter s = t"
  shows "t = [] \<and> list_all (\<lambda>rule. \<not> occurs_in letter (snd rule) s) tagRules
    \<or> (\<exists>i < length tagRules. t = fst (tagRules ! i) \<and> occurs_in letter (snd (tagRules ! i)) s
         \<and> list_all (\<lambda>rule. \<not> occurs_in letter (snd rule) s) (take i tagRules))"
proof (cases "find (\<lambda>rule. MatchString letter (snd rule) s) tagRules")
  case None
  then show ?thesis
    using assms find_None_iff [THEN iffD1, OF None] by (auto simp: detectTag_def list_all_iff simp flip: MatchString_iff)
next
  case (Some rule)
  then obtain i where i: "i < length tagRules" "MatchString letter (snd (tagRules ! i)) s" "rule = tagRules ! i"
    "\<forall>j < i. \<not> MatchString letter (snd (tagRules ! j)) s"
    unfolding find_Some_iff by blast
  have "list_all (\<lambda>rule. \<not> occurs_in letter (snd rule) s) (take i tagRules)"
    using i(1,4) by (simp add: list_all_length MatchString_iff)
  moreover have "t = fst (tagRules ! i)"
    using assms Some i(3) by (simp add: detectTag_def)
  ultimately show ?thesis
    using i(1,2) unfolding MatchString_iff by blast
qed

lemma demo_match:
  "MatchString (\<lambda>_. False) (seq [Opt (seq [lit ''cisco'', Star nonalnum]), lit ''ios'', Opt sep, lit ''xe''])
     (map of_char ''IOS-XE'')"
  by (simp add: MatchString_def seq_def lit_def sep_def nonalnum_def fold_rune_def)

lemma demo_banner: "detectTag (\<lambda>_. False) (map of_char ''IOS-XE'') = ''cisco-iosxe''"
  using demo_match unfolding detectTag_def tagRules_def find.simps snd_conv by (simp only: if_True) simp

theorem detectTag_first_match_witness:
  "\<exists>i < length tagRules. fst (tagRules ! i) = ''cisco-iosxe''
     \<and> occurs_in (\<lambda>_. False) (snd (tagRules ! i)) (map of_char ''IOS-XE'')"
  using detectTag_first_match [OF _ demo_banner] by auto

text \<open>
  C37: The walk up the specificity table always ends, for every pair of strings, known as tags or not,
  although nothing in the loop bounds it: the table has no cycle. Its answer is whether the first
  tag is reached from the second by one or more steps to the parent.
\<close>

theorem isAncestor_terminates: "isAncestor ancestor descendant = Some ((descendant, ancestor) \<in> parent_of\<^sup>+)"
  by (rule isAncestor_result)

text \<open>
  C33: The decision over the six services is a function of the set of tags alone, whatever service named
  which: no tag gives ``unclassified''; if one tag of the set has all others among its ancestors, that
  tag is the result; otherwise the result is ``ambiguous'' with the sorted set as its conflicts. The
  left-to-right loop of \<open>resolveTags\<close> computes exactly this.
\<close>

theorem resolveTags_reference:
  "\<exists>d. resolveTags tags = Some d
     \<and> (if tag_values tags = [] then d = \<lparr>dec_status = statusUnclassified, dec_tag = [], dec_conflicts = []\<rparr>
        else if \<exists>t. most_specific (set (tag_values tags)) t
        then dec_status d = statusResolved \<and> dec_conflicts d = [] \<and> most_specific (set (tag_values tags)) (dec_tag d)
        else d = \<lparr>dec_status = statusAmbiguous, dec_tag = [], dec_conflicts = sorted_list_of_set (set (tag_values tags))\<rparr>)"
  by (rule resolveTags_result)

end
