(* ===== verification/Fingerprint.thy ===== *)
theory Fingerprint
  imports Tags
begin

text \<open>
  \<^verbatim>\<open>os/evidence.go\<close>, \<^verbatim>\<open>os/merger.go\<close>, \<^verbatim>\<open>os/coverage.go\<close> and \<^verbatim>\<open>os/observations.go\<close>: cleaning of banners, the
  merger that joins the completions of the three scanners per target, the coverage counters and the
  optional observation rows. The merger holds its lock while it looks a target up, so a run is a
  sequence of \<open>integrate\<close> steps in any order; \<open>emit\<close> works on the record it was given. Text is a list
  of runes, a \<open>uint64\<close> counter a natural number.
\<close>

section \<open>Evidence\<close>

record evidenceRecord =
  IPAddress :: string
  SSHServerID :: "rune list"
  SMBNativeOS :: "rune list"
  HTTPServer :: "rune list"
  HTTPSServer :: "rune list"
  SNMPSysDescr :: "rune list"
  DNSVersionBind :: "rune list"
  SSHResponded :: bool
  SMBResponded :: bool
  HTTPResponded :: bool
  HTTPSResponded :: bool
  SNMPResponded :: bool
  DNSResponded :: bool

definition hasEvidence :: "evidenceRecord \<Rightarrow> bool" where
  "hasEvidence e \<longleftrightarrow> SSHServerID e \<noteq> [] \<or> SMBNativeOS e \<noteq> [] \<or> HTTPServer e \<noteq> []
     \<or> HTTPSServer e \<noteq> [] \<or> SNMPSysDescr e \<noteq> [] \<or> DNSVersionBind e \<noteq> []"

definition hasResponse :: "evidenceRecord \<Rightarrow> bool" where
  "hasResponse e \<longleftrightarrow> SSHResponded e \<or> SMBResponded e \<or> HTTPResponded e
     \<or> HTTPSResponded e \<or> SNMPResponded e \<or> DNSResponded e"

definition optionalString :: "'a list \<Rightarrow> 'a list option" where
  "optionalString value = (if value = [] then None else Some value)"

record os_record =
  os_IPAddress :: string
  os_Status :: string
  os_Tag :: "string option"
  SSHOS :: "string option"
  SMBOS :: "string option"
  HTTPOS :: "string option"
  HTTPSOS :: "string option"
  SNMPOS :: "string option"
  DNSOS :: "string option"
  os_SSHServerID :: "rune list option"
  os_SMBNativeOS :: "rune list option"
  os_HTTPServer :: "rune list option"
  os_HTTPSServer :: "rune list option"
  os_SNMPSysDescr :: "rune list option"
  os_DNSVersionBind :: "rune list option"

definition toOutput :: "evidenceRecord \<Rightarrow> serviceTags \<Rightarrow> decision \<Rightarrow> os_record" where
  "toOutput e tags d =
     \<lparr>os_IPAddress = IPAddress e, os_Status = dec_status d, os_Tag = optionalString (dec_tag d),
      SSHOS = optionalString (tag_SSH tags),
      SMBOS = optionalString (tag_SMB tags),
      HTTPOS = optionalString (tag_HTTP tags),
      HTTPSOS = optionalString (tag_HTTPS tags),
      SNMPOS = optionalString (tag_SNMP tags),
      DNSOS = optionalString (tag_DNS tags),
      os_SSHServerID = optionalString (SSHServerID e),
      os_SMBNativeOS = optionalString (SMBNativeOS e),
      os_HTTPServer = optionalString (HTTPServer e),
      os_HTTPSServer = optionalString (HTTPSServer e),
      os_SNMPSysDescr = optionalString (SNMPSysDescr e),
      os_DNSVersionBind = optionalString (DNSVersionBind e)\<rparr>"

definition classifyServices :: "(rune \<Rightarrow> bool) \<Rightarrow> evidenceRecord \<Rightarrow> serviceTags" where
  "classifyServices letter e =
     \<lparr>tag_SSH = detectTag letter (SSHServerID e), tag_SMB = detectTag letter (SMBNativeOS e),
      tag_HTTP = detectTag letter (HTTPServer e), tag_HTTPS = detectTag letter (HTTPSServer e),
      tag_SNMP = detectTag letter (SNMPSysDescr e), tag_DNS = detectTag letter (DNSVersionBind e)\<rparr>"


section \<open>Cleaning a banner\<close>

definition maxEvidenceRunes :: nat where "maxEvidenceRunes = 1024"

text \<open>The white space of \<open>strings.TrimSpace\<close> (\<open>unicode.IsSpace\<close>).\<close>

definition is_space :: "rune \<Rightarrow> bool" where
  "is_space r \<longleftrightarrow> (9 \<le> r \<and> r \<le> 13) \<or> r = 32 \<or> r = 133 \<or> r = 160 \<or> r = 5760
     \<or> (8192 \<le> r \<and> r \<le> 8202) \<or> r = 8232 \<or> r = 8233 \<or> r = 8239 \<or> r = 8287 \<or> r = 12288"

definition trim_space :: "rune list \<Rightarrow> rune list" where
  "trim_space s = rev (dropWhile is_space (rev (dropWhile is_space s)))"

fun clean_runes :: "nat \<Rightarrow> rune list \<Rightarrow> rune list" where
  "clean_runes count [] = []"
| "clean_runes count (r # s) =
     (if count = maxEvidenceRunes then []
      else if r = 10 \<or> r = 13 \<or> r = 9 then 32 # clean_runes (count + 1) s
      else if r < 32 \<or> r = 127 then clean_runes count s
      else r # clean_runes (count + 1) s)"

definition CleanBanner :: "rune list \<Rightarrow> rune list" where
  "CleanBanner value = (if value = [] then [] else trim_space (clean_runes 0 value))"

definition printable :: "rune \<Rightarrow> bool" where
  "printable r \<longleftrightarrow> 32 \<le> r \<and> r \<noteq> 127"

lemma clean_runes_bound: "count \<le> maxEvidenceRunes \<Longrightarrow> count + length (clean_runes count s) \<le> maxEvidenceRunes"
proof (induction s arbitrary: count)
  case (Cons r s)
  then show ?case
    using Cons.IH [of "count + 1"] Cons.IH [of count] by auto
qed simp

lemma clean_runes_printable: "list_all printable (clean_runes count s)"
  by (induction s arbitrary: count) (simp_all add: printable_def)

lemma clean_runes_idem:
  "\<lbrakk>list_all printable s; count + length s \<le> maxEvidenceRunes\<rbrakk> \<Longrightarrow> clean_runes count s = s"
  by (induction s arbitrary: count) (auto simp: printable_def)

lemma trim_space_set: "set (trim_space s) \<subseteq> set s"
proof -
  have "set (dropWhile is_space (rev (dropWhile is_space s))) \<subseteq> set s"
    using set_dropWhileD [of _ is_space s] set_dropWhileD [of _ is_space "rev (dropWhile is_space s)"] by auto
  then show ?thesis by (simp add: trim_space_def)
qed

lemma trim_space_length: "length (trim_space s) \<le> length s"
  using length_dropWhile_le [of is_space "rev (dropWhile is_space s)"] length_dropWhile_le [of is_space s]
  by (simp add: trim_space_def)

lemma trim_space_ends:
  assumes "trim_space s \<noteq> []"
  shows "\<not> is_space (hd (trim_space s)) \<and> \<not> is_space (last (trim_space s))"
proof -
  let ?t = "dropWhile is_space s"
  have ne: "dropWhile is_space (rev ?t) \<noteq> []"
    using assms by (simp add: trim_space_def)
  have "last (trim_space s) = hd (dropWhile is_space (rev ?t))"
    using ne by (simp add: trim_space_def last_rev)
  moreover have "rev ?t = takeWhile is_space (rev ?t) @ dropWhile is_space (rev ?t)"
    by simp
  then have "last (rev ?t) = last (dropWhile is_space (rev ?t))"
    using ne by (metis last_appendR)
  then have "hd (trim_space s) = hd ?t"
    using ne by (simp add: trim_space_def hd_rev last_rev)
  moreover have "?t \<noteq> []"
  proof
    assume empty: "?t = []"
    show False using ne unfolding empty by simp
  qed
  ultimately show ?thesis
    using hd_dropWhile [OF ne] hd_dropWhile [of is_space s] by simp
qed

lemma trim_space_id:
  assumes "s \<noteq> [] \<Longrightarrow> \<not> is_space (hd s) \<and> \<not> is_space (last s)"
  shows "trim_space s = s"
proof (cases "s = []")
  case False
  then have "dropWhile is_space s = s" "dropWhile is_space (rev s) = rev s"
    using assms by (auto simp: dropWhile_eq_self_iff hd_rev)
  then show ?thesis by (simp add: trim_space_def)
qed (simp add: trim_space_def)


section \<open>Coverage\<close>

record coverageTargets =
  ct_Total :: nat
  ct_WithResponse :: nat
  ct_WithoutResponse :: nat
  ct_WithEvidence :: nat
  ct_WithoutEvidence :: nat
  ct_WithTag :: nat
  ct_WithoutTag :: nat

record coverageClassification =
  cc_Resolved :: nat
  cc_Ambiguous :: nat
  cc_Unclassified :: nat

record serviceCoverage =
  sc_Attempted :: nat
  sc_Responded :: nat
  sc_Evidence :: nat
  sc_Tagged :: nat

record coverage =
  cov_Targets :: coverageTargets
  cov_Classification :: coverageClassification
  cov_Services :: "string \<Rightarrow> serviceCoverage"
  cov_Conflicts :: "string \<Rightarrow> nat"

definition service_names :: "string list" where
  "service_names = [''ssh'', ''smb'', ''http'', ''https'', ''snmp'', ''dns'']"

text \<open>Looking up a missing key of a Go map gives the zero value.\<close>

definition newCoverageStats :: "nat \<Rightarrow> coverage" where
  "newCoverageStats targets =
     \<lparr>cov_Targets = \<lparr>ct_Total = targets, ct_WithResponse = 0, ct_WithoutResponse = 0, ct_WithEvidence = 0,
        ct_WithoutEvidence = 0, ct_WithTag = 0, ct_WithoutTag = 0\<rparr>,
      cov_Classification = \<lparr>cc_Resolved = 0, cc_Ambiguous = 0, cc_Unclassified = 0\<rparr>,
      cov_Services = (\<lambda>name. \<lparr>sc_Attempted = (if name \<in> set service_names then targets else 0),
        sc_Responded = 0, sc_Evidence = 0, sc_Tagged = 0\<rparr>),
      cov_Conflicts = (\<lambda>_. 0)\<rparr>"

definition recordTarget :: "evidenceRecord \<Rightarrow> serviceTags \<Rightarrow> bool \<Rightarrow> coverage \<Rightarrow> coverage" where
  "recordTarget e tags hasEv c =
     (let t = cov_Targets c;
          t = (if hasResponse e then t\<lparr>ct_WithResponse := ct_WithResponse t + 1\<rparr>
               else t\<lparr>ct_WithoutResponse := ct_WithoutResponse t + 1\<rparr>);
          t = (if hasEv then t\<lparr>ct_WithEvidence := ct_WithEvidence t + 1\<rparr>
               else t\<lparr>ct_WithoutEvidence := ct_WithoutEvidence t + 1\<rparr>);
          t = (if hasAny tags then t\<lparr>ct_WithTag := ct_WithTag t + 1\<rparr>
               else t\<lparr>ct_WithoutTag := ct_WithoutTag t + 1\<rparr>)
      in c\<lparr>cov_Targets := t\<rparr>)"

definition updateService ::
  "string \<Rightarrow> bool \<Rightarrow> bool \<Rightarrow> bool \<Rightarrow> (string \<Rightarrow> serviceCoverage) \<Rightarrow> string \<Rightarrow> serviceCoverage" where
  "updateService name responded evidence tagged services =
     (let v = services name;
          v = (if responded then v\<lparr>sc_Responded := sc_Responded v + 1\<rparr> else v);
          v = (if evidence then v\<lparr>sc_Evidence := sc_Evidence v + 1\<rparr> else v);
          v = (if tagged then v\<lparr>sc_Tagged := sc_Tagged v + 1\<rparr> else v)
      in services(name := v))"

definition recordServices :: "evidenceRecord \<Rightarrow> serviceTags \<Rightarrow> coverage \<Rightarrow> coverage" where
  "recordServices e tags c =
     c\<lparr>cov_Services :=
        updateService ''dns'' (DNSResponded e) (DNSVersionBind e \<noteq> []) (tag_DNS tags \<noteq> [])
       (updateService ''snmp'' (SNMPResponded e) (SNMPSysDescr e \<noteq> []) (tag_SNMP tags \<noteq> [])
       (updateService ''https'' (HTTPSResponded e) (HTTPSServer e \<noteq> []) (tag_HTTPS tags \<noteq> [])
       (updateService ''http'' (HTTPResponded e) (HTTPServer e \<noteq> []) (tag_HTTP tags \<noteq> [])
       (updateService ''smb'' (SMBResponded e) (SMBNativeOS e \<noteq> []) (tag_SMB tags \<noteq> [])
       (updateService ''ssh'' (SSHResponded e) (SSHServerID e \<noteq> []) (tag_SSH tags \<noteq> []) (cov_Services c))))))\<rparr>"

definition no_tags :: serviceTags where
  "no_tags = \<lparr>tag_SSH = [], tag_SMB = [], tag_HTTP = [], tag_HTTPS = [], tag_SNMP = [], tag_DNS = []\<rparr>"

definition recordWithoutEvidence :: "evidenceRecord \<Rightarrow> coverage \<Rightarrow> coverage" where
  "recordWithoutEvidence e c = recordServices e no_tags (recordTarget e no_tags False c)"

definition conflict_key :: "string list \<Rightarrow> string" where
  "conflict_key conflicts = join_on (CHR ''|'') (sort conflicts)"

definition coverage_record :: "evidenceRecord \<Rightarrow> serviceTags \<Rightarrow> decision \<Rightarrow> coverage \<Rightarrow> coverage" where
  "coverage_record e tags d c =
     (let c = recordServices e tags (recordTarget e tags True c); k = cov_Classification c in
      if dec_status d = statusResolved then c\<lparr>cov_Classification := k\<lparr>cc_Resolved := cc_Resolved k + 1\<rparr>\<rparr>
      else if dec_status d = statusAmbiguous then
        let key = conflict_key (dec_conflicts d) in
        c\<lparr>cov_Classification := k\<lparr>cc_Ambiguous := cc_Ambiguous k + 1\<rparr>,
          cov_Conflicts := (cov_Conflicts c)(key := cov_Conflicts c key + 1)\<rparr>
      else if dec_status d = statusUnclassified then
        c\<lparr>cov_Classification := k\<lparr>cc_Unclassified := cc_Unclassified k + 1\<rparr>\<rparr>
      else c)"

definition ratio :: "nat \<Rightarrow> nat \<Rightarrow> rat" where
  "ratio numerator denominator = (if denominator = 0 then 0 else of_nat numerator / of_nat denominator)"

record serviceCoverageOverview =
  so_Attempted :: nat
  so_Responded :: nat
  so_RespondedCoverage :: rat
  so_Evidence :: nat
  so_EvidenceCoverage :: rat
  so_Tagged :: nat
  so_TaggedCoverage :: rat
  so_EvidenceRateAmongResponse :: rat
  so_TaggedRateAmongEvidence :: rat

record coverageOverview =
  ov_TotalTargets :: nat
  ov_RespondedTargets :: nat
  ov_RespondedCoverage :: rat
  ov_EvidenceTargets :: nat
  ov_EvidenceCoverage :: rat
  ov_TaggedTargets :: nat
  ov_TaggedCoverage :: rat
  ov_ResolvedTargets :: nat
  ov_ResolvedCoverage :: rat
  ov_AmbiguousTargets :: nat
  ov_AmbiguousCoverage :: rat
  ov_UnclassifiedTargets :: nat
  ov_UnclassifiedCoverage :: rat
  ov_ResolvedRateAmongEvidence :: rat
  ov_AmbiguousRateAmongEvidence :: rat
  ov_UnclassifiedRateAmongEvidence :: rat
  ov_Services :: "string \<Rightarrow> serviceCoverageOverview"

definition service_overview :: "serviceCoverage \<Rightarrow> serviceCoverageOverview" where
  "service_overview s =
     \<lparr>so_Attempted = sc_Attempted s, so_Responded = sc_Responded s,
      so_RespondedCoverage = ratio (sc_Responded s) (sc_Attempted s),
      so_Evidence = sc_Evidence s, so_EvidenceCoverage = ratio (sc_Evidence s) (sc_Attempted s),
      so_Tagged = sc_Tagged s, so_TaggedCoverage = ratio (sc_Tagged s) (sc_Attempted s),
      so_EvidenceRateAmongResponse = ratio (sc_Evidence s) (sc_Responded s),
      so_TaggedRateAmongEvidence = ratio (sc_Tagged s) (sc_Evidence s)\<rparr>"

definition buildCoverageOverview :: "coverage \<Rightarrow> coverageOverview" where
  "buildCoverageOverview c =
     (let t = cov_Targets c; k = cov_Classification c in
      \<lparr>ov_TotalTargets = ct_Total t,
       ov_RespondedTargets = ct_WithResponse t, ov_RespondedCoverage = ratio (ct_WithResponse t) (ct_Total t),
       ov_EvidenceTargets = ct_WithEvidence t, ov_EvidenceCoverage = ratio (ct_WithEvidence t) (ct_Total t),
       ov_TaggedTargets = ct_WithTag t, ov_TaggedCoverage = ratio (ct_WithTag t) (ct_Total t),
       ov_ResolvedTargets = cc_Resolved k, ov_ResolvedCoverage = ratio (cc_Resolved k) (ct_Total t),
       ov_AmbiguousTargets = cc_Ambiguous k, ov_AmbiguousCoverage = ratio (cc_Ambiguous k) (ct_Total t),
       ov_UnclassifiedTargets = cc_Unclassified k, ov_UnclassifiedCoverage = ratio (cc_Unclassified k) (ct_Total t),
       ov_ResolvedRateAmongEvidence = ratio (cc_Resolved k) (ct_WithEvidence t),
       ov_AmbiguousRateAmongEvidence = ratio (cc_Ambiguous k) (ct_WithEvidence t),
       ov_UnclassifiedRateAmongEvidence = ratio (cc_Unclassified k) (ct_WithEvidence t),
       ov_Services = (\<lambda>name. service_overview (cov_Services c name))\<rparr>)"


section \<open>The merger\<close>

record zgrab2_result =
  z_SSHServerID :: "rune list"
  z_SMBNativeOS :: "rune list"
  z_HTTPServer :: "rune list"
  z_HTTPSServer :: "rune list"
  z_SSHResponded :: bool
  z_SMBResponded :: bool
  z_HTTPResponded :: bool
  z_HTTPSResponded :: bool

record dns_result =
  d_VersionBind :: "rune list"
  d_Responded :: bool

record snmp_result =
  s_SysDescr :: "rune list"
  s_Responded :: bool

definition scannerZGrab2 :: "8 word" where "scannerZGrab2 = 1"
definition scannerDNSChaos :: "8 word" where "scannerDNSChaos = 2"
definition scannerSNMP :: "8 word" where "scannerSNMP = 4"
definition allScanners :: "8 word" where
  "allScanners = or (or scannerZGrab2 scannerDNSChaos) scannerSNMP"

definition applyZGrab2 :: "zgrab2_result \<Rightarrow> evidenceRecord \<Rightarrow> evidenceRecord" where
  "applyZGrab2 z r = r\<lparr>SSHServerID := CleanBanner (z_SSHServerID z), SMBNativeOS := CleanBanner (z_SMBNativeOS z),
     HTTPServer := CleanBanner (z_HTTPServer z), HTTPSServer := CleanBanner (z_HTTPSServer z),
     SSHResponded := z_SSHResponded z, SMBResponded := z_SMBResponded z, HTTPResponded := z_HTTPResponded z,
     HTTPSResponded := z_HTTPSResponded z\<rparr>"

definition applyDNSChaos :: "dns_result \<Rightarrow> evidenceRecord \<Rightarrow> evidenceRecord" where
  "applyDNSChaos d r = r\<lparr>DNSVersionBind := CleanBanner (d_VersionBind d), DNSResponded := d_Responded d\<rparr>"

definition applySNMP :: "snmp_result \<Rightarrow> evidenceRecord \<Rightarrow> evidenceRecord" where
  "applySNMP s r = r\<lparr>SNMPSysDescr := CleanBanner (s_SysDescr s), SNMPResponded := s_Responded s\<rparr>"

definition fresh_record :: "string \<Rightarrow> evidenceRecord" where
  "fresh_record ip = \<lparr>IPAddress = ip, SSHServerID = [], SMBNativeOS = [], HTTPServer = [], HTTPSServer = [],
     SNMPSysDescr = [], DNSVersionBind = [], SSHResponded = False, SMBResponded = False, HTTPResponded = False,
     HTTPSResponded = False, SNMPResponded = False, DNSResponded = False\<rparr>"

record pending_target =
  pt_record :: evidenceRecord
  pt_flags :: "8 word"

record merger =
  mg_pendings :: "string \<rightharpoonup> pending_target"
  mg_out :: "os_record list"
  mg_coverage :: coverage
  mg_observed :: "(evidenceRecord \<times> serviceTags \<times> decision) list"
  totalEmitted :: nat
  totalDropped :: nat
  totalReceived :: nat
  rxZGrab2 :: nat
  rxDNSChaos :: nat
  rxSNMP :: nat

definition newMerger :: "coverage \<Rightarrow> merger" where
  "newMerger c = \<lparr>mg_pendings = Map.empty, mg_out = [], mg_coverage = c, mg_observed = [], totalEmitted = 0,
     totalDropped = 0, totalReceived = 0, rxZGrab2 = 0, rxDNSChaos = 0, rxSNMP = 0\<rparr>"

text \<open>\<open>emit\<close>: \<open>None\<close> would be a classification that never ends. \<open>observing\<close>: the callback is set.\<close>

definition observed :: "bool \<Rightarrow> evidenceRecord \<times> serviceTags \<times> decision \<Rightarrow> merger \<Rightarrow> merger" where
  "observed observing x m = (if observing then m\<lparr>mg_observed := mg_observed m @ [x]\<rparr> else m)"

definition emit :: "(rune \<Rightarrow> bool) \<Rightarrow> bool \<Rightarrow> evidenceRecord \<Rightarrow> merger \<Rightarrow> merger option" where
  "emit letter observing e m =
     (if \<not> hasEvidence e then
        let m = m\<lparr>mg_coverage := recordWithoutEvidence e (mg_coverage m)\<rparr>;
            m = observed observing (e, no_tags, \<lparr>dec_status = ''no-evidence'', dec_tag = [], dec_conflicts = []\<rparr>) m
        in Some (m\<lparr>totalDropped := totalDropped m + 1\<rparr>)
      else do {
        let tags = classifyServices letter e;
        d \<leftarrow> resolveTags tags;
        let m = m\<lparr>mg_coverage := coverage_record e tags d (mg_coverage m)\<rparr>;
        let m = observed observing (e, tags, d) m;
        Some (m\<lparr>mg_out := mg_out m @ [toOutput e tags d], totalEmitted := totalEmitted m + 1\<rparr>)
      })"

definition count_received :: "8 word \<Rightarrow> merger \<Rightarrow> merger" where
  "count_received source m =
     (let m = m\<lparr>totalReceived := totalReceived m + 1\<rparr> in
      if source = scannerZGrab2 then m\<lparr>rxZGrab2 := rxZGrab2 m + 1\<rparr>
      else if source = scannerDNSChaos then m\<lparr>rxDNSChaos := rxDNSChaos m + 1\<rparr>
      else if source = scannerSNMP then m\<lparr>rxSNMP := rxSNMP m + 1\<rparr> else m)"

definition integrate ::
  "(rune \<Rightarrow> bool) \<Rightarrow> bool \<Rightarrow> string \<Rightarrow> 8 word \<Rightarrow> (evidenceRecord \<Rightarrow> evidenceRecord) \<Rightarrow> merger \<Rightarrow> merger option" where
  "integrate letter observing ip source apply_to m =
     (let m = count_received source m;
          p = (case mg_pendings m ip of None \<Rightarrow> \<lparr>pt_record = fresh_record ip, pt_flags = 0\<rparr> | Some p \<Rightarrow> p);
          p = p\<lparr>pt_record := apply_to (pt_record p), pt_flags := or (pt_flags p) source\<rparr>
      in if pt_flags p \<noteq> allScanners then Some (m\<lparr>mg_pendings := (mg_pendings m)(ip \<mapsto> p)\<rparr>)
         else emit letter observing (pt_record p) (m\<lparr>mg_pendings := (mg_pendings m)(ip := None)\<rparr>))"

definition pendingCount :: "merger \<Rightarrow> nat" where
  "pendingCount m = card (dom (mg_pendings m))"

text \<open>A completion a scanner reports for one target, and the call it makes.\<close>

datatype completion = ZGrab2Done zgrab2_result | DNSDone dns_result | SNMPDone snmp_result

fun completion_source :: "completion \<Rightarrow> 8 word" where
  "completion_source (ZGrab2Done z) = scannerZGrab2"
| "completion_source (DNSDone d) = scannerDNSChaos"
| "completion_source (SNMPDone s) = scannerSNMP"

fun completion_apply :: "completion \<Rightarrow> evidenceRecord \<Rightarrow> evidenceRecord" where
  "completion_apply (ZGrab2Done z) = applyZGrab2 z"
| "completion_apply (DNSDone d) = applyDNSChaos d"
| "completion_apply (SNMPDone s) = applySNMP s"

fun run_merger ::
  "(rune \<Rightarrow> bool) \<Rightarrow> bool \<Rightarrow> (string \<times> completion) list \<Rightarrow> merger \<Rightarrow> merger option" where
  "run_merger letter observing [] m = Some m"
| "run_merger letter observing ((ip, c) # cs) m = do {
     m \<leftarrow> integrate letter observing ip (completion_source c) (completion_apply c) m;
     run_merger letter observing cs m
   }"


section \<open>The join the merger implements\<close>

text \<open>The abstract state: what is known about each target.\<close>

type_synonym joined = "string \<Rightarrow> zgrab2_result option \<times> dns_result option \<times> snmp_result option"

fun join_step :: "joined \<Rightarrow> string \<times> completion \<Rightarrow> joined" where
  "join_step A (ip, ZGrab2Done z) = A(ip := (Some z, snd (A ip)))"
| "join_step A (ip, DNSDone d) = A(ip := (fst (A ip), Some d, snd (snd (A ip))))"
| "join_step A (ip, SNMPDone s) = A(ip := (fst (A ip), fst (snd (A ip)), Some s))"

definition known :: "(string \<times> completion) list \<Rightarrow> joined" where
  "known cs = foldl join_step (\<lambda>_. (None, None, None)) cs"

definition record_of :: "string \<Rightarrow> zgrab2_result option \<times> dns_result option \<times> snmp_result option \<Rightarrow> evidenceRecord" where
  "record_of ip x =
     (case x of (z, d, s) \<Rightarrow>
        (case s of None \<Rightarrow> id | Some s \<Rightarrow> applySNMP s)
       ((case d of None \<Rightarrow> id | Some d \<Rightarrow> applyDNSChaos d)
       ((case z of None \<Rightarrow> id | Some z \<Rightarrow> applyZGrab2 z) (fresh_record ip))))"

definition flags_of :: "zgrab2_result option \<times> dns_result option \<times> snmp_result option \<Rightarrow> 8 word" where
  "flags_of x =
     (case x of (z, d, s) \<Rightarrow>
        or (or (if z = None then 0 else scannerZGrab2) (if d = None then 0 else scannerDNSChaos))
           (if s = None then 0 else scannerSNMP))"

definition complete :: "'a option \<times> 'b option \<times> 'c option \<Rightarrow> bool" where
  "complete x \<longleftrightarrow> fst x \<noteq> None \<and> fst (snd x) \<noteq> None \<and> snd (snd x) \<noteq> None"

definition output_of :: "(rune \<Rightarrow> bool) \<Rightarrow> evidenceRecord \<Rightarrow> os_record" where
  "output_of letter e = toOutput e (classifyServices letter e) (the (resolveTags (classifyServices letter e)))"

definition completion_key :: "string \<times> completion \<Rightarrow> string \<times> 8 word" where
  "completion_key x = (fst x, completion_source (snd x))"


lemma fresh_flags [simp]: "flags_of (None, None, None) = 0" "record_of ip (None, None, None) = fresh_record ip"
  by (simp_all add: flags_of_def record_of_def)

lemmas scanner_defs = scannerZGrab2_def scannerDNSChaos_def scannerSNMP_def allScanners_def

lemma flags_complete: "flags_of x = allScanners \<longleftrightarrow> complete x"
proof -
  obtain z d s where "x = (z, d, s)" by (cases x)
  then show ?thesis
    by (cases "z = None"; cases "d = None"; cases "s = None") (simp_all add: flags_of_def complete_def scanner_defs)
qed

text \<open>The slot a completion fills.\<close>

fun slot_empty :: "zgrab2_result option \<times> dns_result option \<times> snmp_result option \<Rightarrow> completion \<Rightarrow> bool" where
  "slot_empty (z, d, s) (ZGrab2Done _) = (z = None)"
| "slot_empty (z, d, s) (DNSDone _) = (d = None)"
| "slot_empty (z, d, s) (SNMPDone _) = (s = None)"

lemma join_step_other: "ip' \<noteq> ip \<Longrightarrow> join_step A (ip, c) ip' = A ip'"
  by (cases c) simp_all

lemma join_step_flags: "flags_of (join_step A (ip, c) ip) = or (flags_of (A ip)) (completion_source c)"
  by (cases "A ip"; cases c) (auto simp: flags_of_def scanner_defs)

lemma join_step_record:
  assumes "slot_empty (A ip) c"
  shows "record_of ip (join_step A (ip, c) ip) = completion_apply c (record_of ip (A ip))"
proof -
  obtain z d s where x: "A ip = (z, d, s)" by (cases "A ip")
  show ?thesis
    using assms
    by (cases c; cases z; cases d; cases s)
       (simp_all add: x record_of_def applyZGrab2_def applyDNSChaos_def applySNMP_def)
qed

lemma join_step_not_empty: "join_step A (ip, c) ip \<noteq> (None, None, None)"
  by (cases c) simp_all

lemma slot_full_not_complete: "complete x \<Longrightarrow> \<not> slot_empty x c"
  by (cases x; cases c) (auto simp: complete_def)

lemma known_snoc: "known (cs @ [x]) = join_step (known cs) x"
  by (simp add: known_def)

lemma slot_known: "\<not> slot_empty (known cs ip) c \<Longrightarrow> (ip, completion_source c) \<in> completion_key ` set cs"
proof (induction cs rule: rev_induct)
  case Nil
  then show ?case by (cases c) (simp_all add: known_def)
next
  case (snoc x cs)
  obtain ip' c' where x: "x = (ip', c')" by (cases x)
  show ?case
  proof (cases "ip' = ip \<and> completion_source c' = completion_source c")
    case True
    then show ?thesis using x by (auto simp: completion_key_def)
  next
    case False
    have "slot_empty (join_step (known cs) (ip', c') ip) c = slot_empty (known cs ip) c"
      using False by (cases "known cs ip"; cases c; cases c'; cases "ip' = ip") auto
    then show ?thesis using snoc x by (auto simp: known_snoc)
  qed
qed

lemma known_membership:
  assumes "distinct (map completion_key cs)"
  shows "fst (known cs ip) = Some z \<longleftrightarrow> (ip, ZGrab2Done z) \<in> set cs"
    and "fst (snd (known cs ip)) = Some d \<longleftrightarrow> (ip, DNSDone d) \<in> set cs"
    and "snd (snd (known cs ip)) = Some s \<longleftrightarrow> (ip, SNMPDone s) \<in> set cs"
proof -
  have "(fst (known cs ip) = Some z \<longleftrightarrow> (ip, ZGrab2Done z) \<in> set cs)
    \<and> (fst (snd (known cs ip)) = Some d \<longleftrightarrow> (ip, DNSDone d) \<in> set cs)
    \<and> (snd (snd (known cs ip)) = Some s \<longleftrightarrow> (ip, SNMPDone s) \<in> set cs)"
    using assms
  proof (induction cs rule: rev_induct)
    case Nil
    then show ?case by (simp add: known_def)
  next
    case (snoc x cs)
    obtain ip' c' where x: "x = (ip', c')" by (cases x)
    then have "(ip', completion_source c') \<notin> completion_key ` set cs"
      using snoc.prems by (simp add: completion_key_def)
    then have "slot_empty (known cs ip') c'" using slot_known by blast
    then show ?case
      using snoc x by (cases c'; cases "known cs ip'"; cases "ip' = ip") (auto simp: known_snoc)
  qed
  then show "fst (known cs ip) = Some z \<longleftrightarrow> (ip, ZGrab2Done z) \<in> set cs"
    "fst (snd (known cs ip)) = Some d \<longleftrightarrow> (ip, DNSDone d) \<in> set cs"
    "snd (snd (known cs ip)) = Some s \<longleftrightarrow> (ip, SNMPDone s) \<in> set cs"
    by blast+
qed

lemma finite_known: "finite {ip. complete (known cs ip)}"
proof (rule finite_subset)
  show "{ip. complete (known cs ip)} \<subseteq> fst ` set cs"
  proof
    fix ip
    assume "ip \<in> {ip. complete (known cs ip)}"
    then have "\<not> slot_empty (known cs ip) (ZGrab2Done undefined)"
      using slot_full_not_complete by simp
    from slot_known [OF this] show "ip \<in> fst ` set cs"
      by (auto simp: completion_key_def)
  qed
qed simp

lemma record_of_IPAddress [simp]: "IPAddress (record_of ip x) = ip"
  by (cases x) (simp add: record_of_def fresh_record_def applyZGrab2_def applyDNSChaos_def applySNMP_def split: option.split)

lemma output_of_IPAddress [simp]: "os_IPAddress (output_of letter e) = IPAddress e"
  by (simp add: output_of_def toOutput_def)

lemma resolveTags_Some: "resolveTags tags = Some (the (resolveTags tags))"
  using resolveTags_result [of tags] by force

text \<open>What one emission does.\<close>

definition handled :: "(rune \<Rightarrow> bool) \<Rightarrow> evidenceRecord \<Rightarrow> coverage \<Rightarrow> coverage" where
  "handled letter e c =
     (if hasEvidence e
      then coverage_record e (classifyServices letter e) (the (resolveTags (classifyServices letter e))) c
      else recordWithoutEvidence e c)"

lemma emit_result:
  "\<exists>m'. emit letter observing e m = Some m' \<and> mg_pendings m' = mg_pendings m
    \<and> mg_out m' = mg_out m @ (if hasEvidence e then [output_of letter e] else [])
    \<and> totalEmitted m' = totalEmitted m + (if hasEvidence e then 1 else 0)
    \<and> totalDropped m' = totalDropped m + (if hasEvidence e then 0 else 1)
    \<and> mg_coverage m' = handled letter e (mg_coverage m)"
proof (cases "hasEvidence e")
  case False
  then show ?thesis by (simp add: emit_def observed_def handled_def Let_def)
next
  case True
  obtain d where d: "resolveTags (classifyServices letter e) = Some d"
    using resolveTags_Some by blast
  then show ?thesis
    using True by (simp add: emit_def observed_def handled_def Let_def output_of_def)
qed


text \<open>The books of the coverage counters after \<open>n\<close> targets, \<open>k\<close> of them with evidence.\<close>

definition balanced :: "coverage \<Rightarrow> nat \<Rightarrow> nat \<Rightarrow> bool" where
  "balanced c n k \<longleftrightarrow>
     (let t = cov_Targets c; q = cov_Classification c in
        ct_WithResponse t + ct_WithoutResponse t = n
      \<and> ct_WithEvidence t = k \<and> ct_WithEvidence t + ct_WithoutEvidence t = n
      \<and> ct_WithTag t + ct_WithoutTag t = n
      \<and> cc_Resolved q + cc_Ambiguous q = ct_WithTag t
      \<and> cc_Resolved q + cc_Ambiguous q + cc_Unclassified q = k)"

lemma status_distinct [simp]:
  "statusResolved \<noteq> statusAmbiguous" "statusAmbiguous \<noteq> statusResolved" "statusUnclassified \<noteq> statusResolved"
  "statusUnclassified \<noteq> statusAmbiguous"
  by (simp_all add: statusResolved_def statusAmbiguous_def statusUnclassified_def)

lemma hasAny_values: "hasAny tags \<longleftrightarrow> tag_values tags \<noteq> []"
  by (auto simp: hasAny_def tag_values_def tag_list_def)

lemma no_tags_none [simp]: "\<not> hasAny no_tags"
  by (simp add: hasAny_def no_tags_def)

lemma recordServices_fields [simp]:
  "cov_Targets (recordServices e tags c) = cov_Targets c"
  "cov_Classification (recordServices e tags c) = cov_Classification c"
  by (simp_all add: recordServices_def)

lemma decision_status:
  "dec_status (the (resolveTags tags)) =
     (if \<not> hasAny tags then statusUnclassified
      else if \<exists>t. most_specific (set (tag_values tags)) t then statusResolved else statusAmbiguous)"
proof -
  obtain d where "resolveTags tags = Some d"
    "if tag_values tags = [] then d = \<lparr>dec_status = statusUnclassified, dec_tag = [], dec_conflicts = []\<rparr>
     else if \<exists>t. most_specific (set (tag_values tags)) t
     then dec_status d = statusResolved \<and> dec_conflicts d = [] \<and> most_specific (set (tag_values tags)) (dec_tag d)
     else d = \<lparr>dec_status = statusAmbiguous, dec_tag = [], dec_conflicts = sorted_list_of_set (set (tag_values tags))\<rparr>"
    using resolveTags_result [of tags] by blast
  then show ?thesis by (auto simp: hasAny_values split: if_splits)
qed

lemma handled_balanced:
  assumes "balanced c n k"
  shows "balanced (handled letter e c) (n + 1) (k + (if hasEvidence e then 1 else 0))"
proof (cases "hasEvidence e")
  case True
  let ?tags = "classifyServices letter e"
  show ?thesis
    using assms True decision_status [of ?tags]
    by (cases "hasAny ?tags"; cases "\<exists>t. most_specific (set (tag_values ?tags)) t")
       (auto simp: balanced_def handled_def coverage_record_def recordTarget_def Let_def)
next
  case False
  then show ?thesis
    using assms by (auto simp: balanced_def handled_def recordWithoutEvidence_def recordTarget_def Let_def)
qed

lemma balanced_start: "balanced (newCoverageStats n) 0 0"
  by (simp add: balanced_def newCoverageStats_def)

text \<open>The merger's state against the abstract join.\<close>

definition final_record :: "(string \<times> completion) list \<Rightarrow> string \<Rightarrow> evidenceRecord" where
  "final_record cs ip = record_of ip (known cs ip)"

definition merger_inv :: "(rune \<Rightarrow> bool) \<Rightarrow> (string \<times> completion) list \<Rightarrow> merger \<Rightarrow> bool" where
  "merger_inv letter cs m \<longleftrightarrow>
     (\<forall>ip. mg_pendings m ip =
        (if known cs ip = (None, None, None) \<or> complete (known cs ip) then None
         else Some \<lparr>pt_record = final_record cs ip, pt_flags = flags_of (known cs ip)\<rparr>))
   \<and> set (mg_out m) = (\<lambda>ip. output_of letter (final_record cs ip))
        ` {ip. complete (known cs ip) \<and> hasEvidence (final_record cs ip)}
   \<and> distinct (map os_IPAddress (mg_out m))
   \<and> length (mg_out m) = totalEmitted m
   \<and> totalEmitted m + totalDropped m = card {ip. complete (known cs ip)}
   \<and> balanced (mg_coverage m) (totalEmitted m + totalDropped m) (totalEmitted m)"

lemma merger_inv_start: "merger_inv letter [] (newMerger (newCoverageStats n))"
  by (simp add: merger_inv_def known_def newMerger_def complete_def balanced_start)

lemma count_received_fields [simp]:
  "mg_pendings (count_received s m) = mg_pendings m" "mg_out (count_received s m) = mg_out m"
  "mg_coverage (count_received s m) = mg_coverage m" "totalEmitted (count_received s m) = totalEmitted m"
  "totalDropped (count_received s m) = totalDropped m"
  by (simp_all add: count_received_def Let_def)

text \<open>The two ways a step ends: the target waits for more, or it is handed on.\<close>

lemma integrate_waits:
  assumes "mg_pendings m ip = (if x = (None, None, None) then None else Some \<lparr>pt_record = record_of ip x, pt_flags = flags_of x\<rparr>)"
    and "or (flags_of x) src \<noteq> allScanners"
  shows "\<exists>m'. integrate letter observing ip src f m = Some m'
    \<and> mg_pendings m' = (mg_pendings m)(ip \<mapsto> \<lparr>pt_record = f (record_of ip x), pt_flags = or (flags_of x) src\<rparr>)
    \<and> mg_out m' = mg_out m \<and> totalEmitted m' = totalEmitted m \<and> totalDropped m' = totalDropped m
    \<and> mg_coverage m' = mg_coverage m"
  using assms by (cases "x = (None, None, None)") (simp_all add: integrate_def Let_def)

lemma integrate_emits:
  fixes f :: "evidenceRecord \<Rightarrow> evidenceRecord"
  assumes "mg_pendings m ip = (if x = (None, None, None) then None else Some \<lparr>pt_record = record_of ip x, pt_flags = flags_of x\<rparr>)"
    and "or (flags_of x) src = allScanners"
  defines "e \<equiv> f (record_of ip x)"
  shows "\<exists>m'. integrate letter observing ip src f m = Some m'
    \<and> mg_pendings m' = (mg_pendings m)(ip := None)
    \<and> mg_out m' = mg_out m @ (if hasEvidence e then [output_of letter e] else [])
    \<and> totalEmitted m' = totalEmitted m + (if hasEvidence e then 1 else 0)
    \<and> totalDropped m' = totalDropped m + (if hasEvidence e then 0 else 1)
    \<and> mg_coverage m' = handled letter e (mg_coverage m)"
proof -
  let ?m = "(count_received src m)\<lparr>mg_pendings := (mg_pendings m)(ip := None)\<rparr>"
  have "integrate letter observing ip src f m = emit letter observing e ?m"
    using assms(1,2) unfolding e_def by (cases "x = (None, None, None)") (simp_all add: integrate_def Let_def)
  then show ?thesis using emit_result [of letter observing e ?m] by simp
qed

lemma merger_step:
  assumes inv: "merger_inv letter cs m" and new: "slot_empty (known cs ip) c"
  shows "\<exists>m'. integrate letter observing ip (completion_source c) (completion_apply c) m = Some m'
    \<and> merger_inv letter (cs @ [(ip, c)]) m'"
proof -
  let ?x = "known cs ip" and ?x' = "known (cs @ [(ip, c)]) ip" and ?cs' = "cs @ [(ip, c)]"
  have notc: "\<not> complete ?x" using new slot_full_not_complete by blast
  have pend: "mg_pendings m ip =
      (if ?x = (None, None, None) then None else Some \<lparr>pt_record = record_of ip ?x, pt_flags = flags_of ?x\<rparr>)"
    using inv notc by (simp add: merger_inv_def final_record_def)
  have flags: "or (flags_of ?x) (completion_source c) = flags_of ?x'"
    by (simp add: known_snoc join_step_flags)
  have rec: "completion_apply c (record_of ip ?x) = final_record ?cs' ip"
    using join_step_record [of "known cs" ip c] new by (simp add: known_snoc final_record_def)
  have other: "known ?cs' ip' = known cs ip'" if "ip' \<noteq> ip" for ip'
    using join_step_other [OF that] by (simp add: known_snoc)
  have same: "final_record ?cs' ip' = final_record cs ip'" if "ip' \<noteq> ip" for ip'
    using other [OF that] by (simp add: final_record_def)
  have ne: "?x' \<noteq> (None, None, None)"
    using join_step_not_empty by (simp add: known_snoc)
  show ?thesis
  proof (cases "complete ?x'")
    case False
    then have "or (flags_of ?x) (completion_source c) \<noteq> allScanners"
      using flags flags_complete by simp
    from integrate_waits [OF pend this, of letter observing "completion_apply c"]
    obtain m' where m': "integrate letter observing ip (completion_source c) (completion_apply c) m = Some m'"
      "mg_pendings m' = (mg_pendings m)(ip \<mapsto> \<lparr>pt_record = final_record ?cs' ip, pt_flags = flags_of ?x'\<rparr>)"
      "mg_out m' = mg_out m" "totalEmitted m' = totalEmitted m" "totalDropped m' = totalDropped m"
      "mg_coverage m' = mg_coverage m"
      unfolding rec flags by blast
    have eq: "complete (known ?cs' ip') = complete (known cs ip')" for ip'
      using False notc other by (cases "ip' = ip") auto
    have "{ip'. complete (known ?cs' ip') \<and> hasEvidence (final_record ?cs' ip')}
        = {ip'. complete (known cs ip') \<and> hasEvidence (final_record cs ip')}"
      using eq same notc by (metis (lifting))
    moreover have "(\<lambda>ip. output_of letter (final_record ?cs' ip)) ` {ip'. complete (known cs ip') \<and> hasEvidence (final_record cs ip')}
        = (\<lambda>ip. output_of letter (final_record cs ip)) ` {ip'. complete (known cs ip') \<and> hasEvidence (final_record cs ip')}"
      by (intro image_cong refl) (metis (mono_tags) mem_Collect_eq notc same)
    ultimately have "merger_inv letter ?cs' m'"
      using inv m' eq ne False other same unfolding merger_inv_def by auto
    then show ?thesis using m'(1) by blast
  next
    case True
    then have "or (flags_of ?x) (completion_source c) = allScanners"
      using flags flags_complete by simp
    from integrate_emits [OF pend this, of letter observing "completion_apply c"]
    obtain m' where m': "integrate letter observing ip (completion_source c) (completion_apply c) m = Some m'"
      "mg_pendings m' = (mg_pendings m)(ip := None)"
      "mg_out m' = mg_out m @ (if hasEvidence (final_record ?cs' ip) then [output_of letter (final_record ?cs' ip)] else [])"
      "totalEmitted m' = totalEmitted m + (if hasEvidence (final_record ?cs' ip) then 1 else 0)"
      "totalDropped m' = totalDropped m + (if hasEvidence (final_record ?cs' ip) then 0 else 1)"
      "mg_coverage m' = handled letter (final_record ?cs' ip) (mg_coverage m)"
      unfolding rec by blast
    let ?done = "{ip'. complete (known cs ip')}"
    have all: "{ip'. complete (known ?cs' ip')} = insert ip ?done"
      using True other by (auto simp: known_snoc) (metis other known_snoc)+
    have card: "card (insert ip ?done) = card ?done + 1"
      using finite_known notc by simp
    have outs: "{ip'. complete (known ?cs' ip') \<and> hasEvidence (final_record ?cs' ip')}
        = (if hasEvidence (final_record ?cs' ip) then {ip} else {}) \<union> {ip'. complete (known cs ip') \<and> hasEvidence (final_record cs ip')}"
      using all same notc by (auto split: if_splits) (metis mem_Collect_eq insert_iff)+
    have image: "(\<lambda>ip. output_of letter (final_record ?cs' ip)) ` {ip'. complete (known cs ip') \<and> hasEvidence (final_record cs ip')}
        = (\<lambda>ip. output_of letter (final_record cs ip)) ` {ip'. complete (known cs ip') \<and> hasEvidence (final_record cs ip')}"
      by (intro image_cong refl) (metis (mono_tags) mem_Collect_eq notc same)
    have fresh: "ip \<notin> os_IPAddress ` set (mg_out m)"
      using inv notc by (auto simp: merger_inv_def final_record_def)
    have pendings: "mg_pendings m' ip' =
        (if known ?cs' ip' = (None, None, None) \<or> complete (known ?cs' ip') then None
         else Some \<lparr>pt_record = final_record ?cs' ip', pt_flags = flags_of (known ?cs' ip')\<rparr>)" for ip'
      using inv m'(2) True other same by (cases "ip' = ip") (simp_all add: merger_inv_def)
    have "balanced (mg_coverage m) (totalEmitted m + totalDropped m) (totalEmitted m)"
      using inv unfolding merger_inv_def by blast
    from handled_balanced [OF this, of letter "final_record ?cs' ip"]
    have bal: "balanced (mg_coverage m') (totalEmitted m' + totalDropped m') (totalEmitted m')"
      unfolding m'(4-6) by (cases "hasEvidence (final_record ?cs' ip)") simp_all
    have "merger_inv letter ?cs' m'"
      unfolding merger_inv_def
    proof (intro conjI allI)
      show "set (mg_out m') = (\<lambda>ip. output_of letter (final_record ?cs' ip))
          ` {ip'. complete (known ?cs' ip') \<and> hasEvidence (final_record ?cs' ip')}"
        using inv m'(3) unfolding outs image_Un image by (auto simp: merger_inv_def)
      show "distinct (map os_IPAddress (mg_out m'))"
        using inv m'(3) fresh by (auto simp: merger_inv_def final_record_def)
      show "length (mg_out m') = totalEmitted m'"
        using inv m'(3,4) by (simp add: merger_inv_def)
      show "totalEmitted m' + totalDropped m' = card {ip. complete (known ?cs' ip)}"
        using inv m'(4,5) card unfolding all by (auto simp: merger_inv_def)
    qed (rule pendings bal)+
    then show ?thesis using m'(1) by blast
  qed
qed


lemma run_merger_inv:
  "\<lbrakk>merger_inv letter cs m; distinct (map completion_key (cs @ ds))\<rbrakk>
    \<Longrightarrow> \<exists>m'. run_merger letter observing ds m = Some m' \<and> merger_inv letter (cs @ ds) m'"
proof (induction ds arbitrary: cs m)
  case (Cons x ds)
  obtain ip c where x: "x = (ip, c)" by (cases x)
  have "(ip, completion_source c) \<notin> completion_key ` set cs"
    using Cons.prems(2) x by (auto simp: completion_key_def)
  then have "slot_empty (known cs ip) c" using slot_known by blast
  then obtain m' where m': "integrate letter observing ip (completion_source c) (completion_apply c) m = Some m'"
    "merger_inv letter (cs @ [(ip, c)]) m'"
    using merger_step [OF Cons.prems(1)] by blast
  have "\<exists>m''. run_merger letter observing ds m' = Some m'' \<and> merger_inv letter ((cs @ [(ip, c)]) @ ds) m''"
    using Cons.IH [OF m'(2)] Cons.prems(2) x by simp
  then show ?case using m'(1) x by simp
qed simp

lemma run_merger_from_start:
  "distinct (map completion_key cs) \<Longrightarrow>
     \<exists>m. run_merger letter observing cs (newMerger (newCoverageStats n)) = Some m \<and> merger_inv letter cs m"
  using run_merger_inv [OF merger_inv_start, where ds = cs] by simp


section \<open>Observation rows\<close>

text \<open>\<open>mask\<close>: bit \<open>i\<close> is value \<open>i\<close>.\<close>

fun mask_from :: "nat \<Rightarrow> bool list \<Rightarrow> 32 word" where
  "mask_from i [] = 0"
| "mask_from i (v # vs) = (if v then or (push_bit i 1) (mask_from (Suc i) vs) else mask_from (Suc i) vs)"

definition mask_of :: "bool list \<Rightarrow> 32 word" where
  "mask_of values = mask_from 0 values"

record observation =
  ob_IP :: string
  ob_Response :: "32 word"
  ob_Evidence :: "32 word"
  ob_Tagged :: "32 word"
  ob_Status :: string
  ob_Conflict :: string

record observation_writer =
  ow_written :: "observation list"
  ow_buffer :: "observation list"
  ow_count :: nat
  ow_failed :: bool
  ow_cancelled :: bool

definition the_observation :: "evidenceRecord \<Rightarrow> serviceTags \<Rightarrow> decision \<Rightarrow> observation" where
  "the_observation e t d =
     \<lparr>ob_IP = IPAddress e,
      ob_Response = mask_of [SSHResponded e, SMBResponded e, HTTPResponded e, HTTPSResponded e, SNMPResponded e,
        DNSResponded e],
      ob_Evidence = mask_of [SSHServerID e \<noteq> [], SMBNativeOS e \<noteq> [], HTTPServer e \<noteq> [], HTTPSServer e \<noteq> [],
        SNMPSysDescr e \<noteq> [], DNSVersionBind e \<noteq> []],
      ob_Tagged = mask_of [tag_SSH t \<noteq> [], tag_SMB t \<noteq> [], tag_HTTP t \<noteq> [], tag_HTTPS t \<noteq> [], tag_SNMP t \<noteq> [],
        tag_DNS t \<noteq> []],
      ob_Status = dec_status d, ob_Conflict = join_on (CHR ''|'') (sort (dec_conflicts d))\<rparr>"

text \<open>\<open>ok\<close>: whether the parquet write succeeds. The lock is held throughout.\<close>

definition ow_flush :: "bool \<Rightarrow> observation_writer \<Rightarrow> observation_writer" where
  "ow_flush ok w =
     (if ow_failed w then w
      else if ok then w\<lparr>ow_written := ow_written w @ ow_buffer w, ow_buffer := []\<rparr>
      else w\<lparr>ow_buffer := [], ow_failed := True, ow_cancelled := True\<rparr>)"

definition ow_observe ::
  "bool \<Rightarrow> evidenceRecord \<times> serviceTags \<times> decision \<Rightarrow> observation_writer \<Rightarrow> observation_writer" where
  "ow_observe ok x w =
     (case x of (e, t, d) \<Rightarrow>
        if ow_failed w then w
        else let w = w\<lparr>ow_buffer := ow_buffer w @ [the_observation e t d], ow_count := ow_count w + 1\<rparr> in
             if length (ow_buffer w) \<ge> 10000 then ow_flush ok w else w)"

datatype ow_error = OwWrite | OwClose | OwFile | OwIncomplete nat nat

definition ow_close ::
  "bool \<Rightarrow> bool \<Rightarrow> bool \<Rightarrow> nat \<Rightarrow> observation_writer \<Rightarrow> ow_error option \<times> observation_writer" where
  "ow_close ok close_ok file_ok expected w =
     (let w = ow_flush ok w in
      if ow_failed w then (Some OwWrite, w)
      else if \<not> close_ok then (Some OwClose, w\<lparr>ow_cancelled := True\<rparr>)
      else if \<not> file_ok then (Some OwFile, w\<lparr>ow_cancelled := True\<rparr>)
      else if ow_count w \<noteq> expected then (Some (OwIncomplete (ow_count w) expected), w)
      else (None, w))"

definition ow_new :: observation_writer where
  "ow_new = \<lparr>ow_written = [], ow_buffer = [], ow_count = 0, ow_failed = False, ow_cancelled = False\<rparr>"

fun ow_run :: "(bool \<times> evidenceRecord \<times> serviceTags \<times> decision) list \<Rightarrow> observation_writer \<Rightarrow> observation_writer" where
  "ow_run [] w = w"
| "ow_run ((ok, x) # xs) w = ow_run xs (ow_observe ok x w)"

definition ow_inv :: "observation list \<Rightarrow> observation_writer \<Rightarrow> bool" where
  "ow_inv rows w \<longleftrightarrow> \<not> ow_failed w \<longrightarrow> ow_written w @ ow_buffer w = rows \<and> ow_count w = length rows"

lemma ow_flush_inv: "ow_inv rows w \<Longrightarrow> ow_inv rows (ow_flush ok w)"
  by (auto simp: ow_inv_def ow_flush_def)

lemma ow_observe_inv: "ow_inv rows w \<Longrightarrow> ow_inv (rows @ [the_observation e t d]) (ow_observe ok (e, t, d) w)"
  by (auto simp: ow_inv_def ow_observe_def ow_flush_def Let_def)

lemma ow_run_inv:
  "ow_inv rows w \<Longrightarrow> ow_inv (rows @ map (\<lambda>(ok, e, t, d). the_observation e t d) xs) (ow_run xs w)"
proof (induction xs arbitrary: rows w)
  case (Cons x xs)
  obtain ok e t d where x: "x = (ok, e, t, d)" by (cases x)
  show ?case
    using Cons.IH [OF ow_observe_inv [OF Cons.prems, of e t d ok]] x by simp
qed simp


section \<open>Properties\<close>

text \<open>
  A cleaned banner is well-formed evidence: at most 1024 runes, no control characters, no white
  space at either end; and cleaning it again changes nothing.
\<close>

theorem CleanBanner_normal:
  "length (CleanBanner s) \<le> 1024 \<and> list_all printable (CleanBanner s) \<and> CleanBanner (CleanBanner s) = CleanBanner s
   \<and> \<not> (CleanBanner s \<noteq> [] \<and> (is_space (hd (CleanBanner s)) \<or> is_space (last (CleanBanner s))))"
proof -
  let ?c = "CleanBanner s"
  have len: "length ?c \<le> maxEvidenceRunes"
    using clean_runes_bound [of 0 s] trim_space_length [of "clean_runes 0 s"] by (simp add: CleanBanner_def)
  have pr: "list_all printable ?c"
    using clean_runes_printable [of 0 s] trim_space_set [of "clean_runes 0 s"]
    by (auto simp: CleanBanner_def list_all_iff)
  have ends: "?c \<noteq> [] \<Longrightarrow> \<not> is_space (hd ?c) \<and> \<not> is_space (last ?c)"
    using trim_space_ends [of "clean_runes 0 s"] by (cases "s = []") (simp_all add: CleanBanner_def)
  have "CleanBanner ?c = ?c"
    using clean_runes_idem [OF pr, of 0] len trim_space_id [OF ends] by (auto simp: CleanBanner_def [of ?c])
  then show ?thesis
    using len pr ends by (auto simp: maxEvidenceRunes_def)
qed

text \<open>
  C24: The merger is a join, whatever the order in which the three scanners report. If no scanner
  reports a target twice, then after any sequence of completions exactly the targets all three have
  reported are gone from the pending map, each of them counted once as emitted or dropped; a
  record leaves the merger exactly for those with evidence, once, and its content is the classification of
  the three results, independent of the interleaving.
\<close>

theorem merger_joins:
  assumes "distinct (map completion_key cs)"
  shows "\<exists>m. run_merger letter observing cs (newMerger (newCoverageStats n)) = Some m
    \<and> distinct (map os_IPAddress (mg_out m))
    \<and> set (mg_out m) = {output_of letter e | e ip z d s. e = record_of ip (Some z, Some d, Some s) \<and> hasEvidence e
         \<and> (ip, ZGrab2Done z) \<in> set cs \<and> (ip, DNSDone d) \<in> set cs \<and> (ip, SNMPDone s) \<in> set cs}
    \<and> totalEmitted m = length (mg_out m)
    \<and> totalEmitted m + totalDropped m = card {ip. complete (known cs ip)}
    \<and> dom (mg_pendings m) = fst ` set cs - {ip. complete (known cs ip)}"
proof -
  obtain m where m: "run_merger letter observing cs (newMerger (newCoverageStats n)) = Some m" "merger_inv letter cs m"
    using run_merger_from_start [OF assms] by blast
  note inv = m(2) [unfolded merger_inv_def]
  note mem = known_membership [OF assms]
  have "(\<lambda>ip. output_of letter (final_record cs ip)) ` {ip. complete (known cs ip) \<and> hasEvidence (final_record cs ip)}
    = {output_of letter e | e ip z d s. e = record_of ip (Some z, Some d, Some s) \<and> hasEvidence e
         \<and> (ip, ZGrab2Done z) \<in> set cs \<and> (ip, DNSDone d) \<in> set cs \<and> (ip, SNMPDone s) \<in> set cs}" (is "?l = ?r")
  proof (intro set_eqI iffI)
    fix x
    assume "x \<in> ?l"
    then obtain ip where ip: "complete (known cs ip)" "hasEvidence (final_record cs ip)" "x = output_of letter (final_record cs ip)"
      by blast
    then obtain z d s where k: "known cs ip = (Some z, Some d, Some s)"
      by (cases "known cs ip") (auto simp: complete_def)
    then have "(ip, ZGrab2Done z) \<in> set cs" "(ip, DNSDone d) \<in> set cs" "(ip, SNMPDone s) \<in> set cs"
      using mem(1) [of ip z] mem(2) [of ip d] mem(3) [of ip s] k by simp_all
    moreover have "hasEvidence (record_of ip (Some z, Some d, Some s))"
      "x = output_of letter (record_of ip (Some z, Some d, Some s))"
      using ip k by (simp_all add: final_record_def)
    ultimately show "x \<in> ?r" by blast
  next
    fix x
    assume "x \<in> ?r"
    then obtain ip z d s where r: "hasEvidence (record_of ip (Some z, Some d, Some s))"
      "x = output_of letter (record_of ip (Some z, Some d, Some s))"
      "(ip, ZGrab2Done z) \<in> set cs" "(ip, DNSDone d) \<in> set cs" "(ip, SNMPDone s) \<in> set cs" by blast
    then have "known cs ip = (Some z, Some d, Some s)"
      using mem [of ip] by (simp add: prod_eq_iff)
    then show "x \<in> ?l"
      using r(1,2) by (auto simp: final_record_def complete_def intro!: image_eqI [of _ _ ip])
  qed
  moreover have "ip \<in> fst ` set cs \<longleftrightarrow> known cs ip \<noteq> (None, None, None)" for ip
  proof -
    have "ip \<in> fst ` set cs \<longleftrightarrow> (\<exists>c. (ip, c) \<in> set cs)" by force
    also have "\<dots> \<longleftrightarrow> (\<exists>z. (ip, ZGrab2Done z) \<in> set cs) \<or> (\<exists>d. (ip, DNSDone d) \<in> set cs) \<or> (\<exists>s. (ip, SNMPDone s) \<in> set cs)"
      by (metis completion.exhaust)
    also have "\<dots> \<longleftrightarrow> known cs ip \<noteq> (None, None, None)"
      by (cases "known cs ip") (auto simp: mem [of ip, symmetric])
    finally show ?thesis .
  qed
  then have "dom (mg_pendings m) = fst ` set cs - {ip. complete (known cs ip)}"
    using inv by (auto simp: dom_def split: if_splits)
  ultimately show ?thesis
    using m(1) inv by auto
qed

text \<open>
  The coverage books balance. After any sequence of completions the targets with and without
  response, with and without evidence, with and without tag all add up to the targets the merger has
  handled; those with evidence are exactly the emitted ones, each classified as exactly one of resolved,
  ambiguous and unclassified, and a target has a tag if and only if it is resolved or ambiguous.
\<close>

theorem coverage_balances:
  assumes "distinct (map completion_key cs)"
    and "run_merger letter observing cs (newMerger (newCoverageStats n)) = Some m"
  shows "balanced (mg_coverage m) (totalEmitted m + totalDropped m) (totalEmitted m)"
  using run_merger_from_start [OF assms(1), of letter observing n] assms(2) by (auto simp: merger_inv_def)


section \<open>Concrete instances\<close>

definition demo_zgrab2 :: zgrab2_result where
  "demo_zgrab2 = \<lparr>z_SSHServerID = map of_char ''IOS-XE'', z_SMBNativeOS = [], z_HTTPServer = [], z_HTTPSServer = [],
     z_SSHResponded = True, z_SMBResponded = False, z_HTTPResponded = False, z_HTTPSResponded = False\<rparr>"

definition demo_completions :: "(string \<times> completion) list" where
  "demo_completions =
     [(''198.51.100.7'', SNMPDone \<lparr>s_SysDescr = [], s_Responded = False\<rparr>),
      (''198.51.100.8'', ZGrab2Done demo_zgrab2),
      (''198.51.100.7'', ZGrab2Done demo_zgrab2),
      (''198.51.100.7'', DNSDone \<lparr>d_VersionBind = [], d_Responded = False\<rparr>)]"

lemma demo_completions_distinct: "distinct (map completion_key demo_completions)"
  by (simp add: demo_completions_def completion_key_def scanner_defs)

theorem merger_joins_witness:
  "\<exists>m. run_merger (\<lambda>_. False) False demo_completions (newMerger (newCoverageStats 2)) = Some m
     \<and> distinct (map os_IPAddress (mg_out m)) \<and> totalEmitted m = length (mg_out m)"
proof -
  obtain m where "run_merger (\<lambda>_. False) False demo_completions (newMerger (newCoverageStats 2)) = Some m"
    "distinct (map os_IPAddress (mg_out m))" "totalEmitted m = length (mg_out m)"
    using merger_joins [OF demo_completions_distinct, of "\<lambda>_. False" False 2] by (elim exE conjE)
  then show ?thesis by (intro exI [of _ m] conjI)
qed

theorem coverage_balances_witness:
  "\<exists>m. run_merger (\<lambda>_. False) False demo_completions (newMerger (newCoverageStats 2)) = Some m
     \<and> balanced (mg_coverage m) (totalEmitted m + totalDropped m) (totalEmitted m)"
  using coverage_balances [OF demo_completions_distinct, of "\<lambda>_. False" False 2]
    run_merger_from_start [OF demo_completions_distinct, of "\<lambda>_. False" False 2] by blast

end
