(* ===== verification/ZMap.thy ===== *)
theory ZMap
  imports Types
begin

text \<open>
  \<^verbatim>\<open>zmap/parser.go\<close>, \<^verbatim>\<open>zmap/writer.go\<close>, \<^verbatim>\<open>zmap/measurement.go\<close> and the argument vector of
  \<^verbatim>\<open>zmap/runner.go\<close>: reading the scanner's output, removing duplicate addresses, writing the target
  file. Text is a list of bytes. The bytes of the pipe are given at once, together with whether the
  stream ends by a read error instead of the end of file; decoding one JSON line is the standard
  library's work and a parameter.
\<close>

section \<open>Lines\<close>

datatype read_error = EndOfFile | ReadFailed

definition strip_last :: "char \<Rightarrow> string \<Rightarrow> string" where
  "strip_last c s = (if s \<noteq> [] \<and> last s = c then butlast s else s)"

definition newline :: char where "newline = char_of (10 :: nat)"
definition carriage :: char where "carriage = char_of (13 :: nat)"

text \<open>\<open>readLine\<close>: the line without its CR and LF, and what is left of the stream.\<close>

definition readLine :: "bool \<Rightarrow> string \<Rightarrow> (read_error + string) \<times> string" where
  "readLine bad input =
     (let s = takeWhile (\<lambda>c. c \<noteq> newline) input; rest = dropWhile (\<lambda>c. c \<noteq> newline) input in
      if rest \<noteq> [] then (Inr (strip_last carriage s), tl rest)
      else if bad then (Inl ReadFailed, [])
      else let s = strip_last carriage s in if s = [] then (Inl EndOfFile, []) else (Inr s, []))"

text \<open>The UTF-8 encodings of the white space \<open>strings.TrimSpace\<close> removes.\<close>

definition space_encodings :: "string list" where
  "space_encodings = map (map char_of)
     ([[9], [10], [11], [12], [13], [32], [194, 133], [194, 160], [225, 154, 128], [226, 128, 128], [226, 128, 129],
       [226, 128, 130], [226, 128, 131], [226, 128, 132], [226, 128, 133], [226, 128, 134], [226, 128, 135],
       [226, 128, 136], [226, 128, 137], [226, 128, 138], [226, 128, 168], [226, 128, 169], [226, 128, 175],
       [226, 129, 159], [227, 128, 128]] :: nat list list)"

fun trim_front :: "nat \<Rightarrow> string list \<Rightarrow> string \<Rightarrow> string" where
  "trim_front 0 es s = s"
| "trim_front (Suc n) es s =
     (case find (\<lambda>e. take (length e) s = e) es of None \<Rightarrow> s | Some e \<Rightarrow> trim_front n es (drop (length e) s))"

definition TrimSpace :: "string \<Rightarrow> string" where
  "TrimSpace s =
     (let s = trim_front (length s) space_encodings s
      in rev (trim_front (length s) (map rev space_encodings) (rev s)))"


section \<open>The parser\<close>

record parsed_row =
  row_IPAddress :: string
  row_ReplyType :: string

record parser =
  p_input :: string
  p_bad :: bool
  p_json :: bool
  colIP :: "nat option"
  colReplyType :: "nat option"
  headerSeen :: bool

definition NewParser :: "string \<Rightarrow> bool \<Rightarrow> bool \<Rightarrow> parser" where
  "NewParser input bad jsonMode =
     \<lparr>p_input = input, p_bad = bad, p_json = jsonMode, colIP = None, colReplyType = None, headerSeen = False\<rparr>"

datatype parse_error = ReadError read_error | MissingSaddr string

definition next_line :: "parser \<Rightarrow> (read_error + string) \<times> parser" where
  "next_line p = (case readLine (p_bad p) (p_input p) of (r, rest) \<Rightarrow> (r, p\<lparr>p_input := rest\<rparr>))"

fun header_columns :: "nat \<Rightarrow> string list \<Rightarrow> parser \<Rightarrow> parser" where
  "header_columns i [] p = p"
| "header_columns i (c # cs) p =
     header_columns (i + 1) cs
       (if TrimSpace c = ''saddr'' then p\<lparr>colIP := Some i\<rparr>
        else if TrimSpace c = ''classification'' then p\<lparr>colReplyType := Some i\<rparr> else p)"

definition readHeader :: "parser \<Rightarrow> parse_error option \<times> parser" where
  "readHeader p =
     (case next_line p of
        (Inl e, p) \<Rightarrow> (Some (ReadError e), p)
      | (Inr line, p) \<Rightarrow>
          let p = header_columns 0 (split_on (CHR '','') line) p in
          if colIP p = None then (Some (MissingSaddr line), p) else (None, p\<lparr>headerSeen := True\<rparr>))"

text \<open>\<open>parseRow\<close>: the fields of one line, taken by their column. The IP column is looked at first.\<close>

fun row_fields :: "parser \<Rightarrow> nat \<Rightarrow> string list \<Rightarrow> parsed_row \<Rightarrow> parsed_row" where
  "row_fields p col [] r = r"
| "row_fields p col (f # fs) r =
     row_fields p (col + 1) fs
       (if colIP p = Some col then r\<lparr>row_IPAddress := f\<rparr>
        else if colReplyType p = Some col then r\<lparr>row_ReplyType := f\<rparr> else r)"

definition parseRow :: "parser \<Rightarrow> string \<Rightarrow> parsed_row option" where
  "parseRow p line =
     (let r = row_fields p 0 (split_on (CHR '','') line) \<lparr>row_IPAddress = [], row_ReplyType = []\<rparr>
      in if row_IPAddress r = [] then None else Some r)"

lemma readLine_shorter:
  assumes "readLine bad s = (Inr l, rest)"
  shows "length rest < length s"
proof (cases "dropWhile (\<lambda>c. c \<noteq> newline) s = []")
  case True
  then have tw: "takeWhile (\<lambda>c. c \<noteq> newline) s = s" by (simp add: takeWhile_eq_all_conv)
  have "rest = []" "strip_last carriage s \<noteq> []"
    using assms unfolding readLine_def Let_def tw True by (auto split: if_splits)
  then show ?thesis by (auto simp: strip_last_def split: if_splits)
next
  case False
  then have "rest = tl (dropWhile (\<lambda>c. c \<noteq> newline) s)"
    using assms by (auto simp: readLine_def Let_def)
  then have "length rest < length (dropWhile (\<lambda>c. c \<noteq> newline) s)"
    using False by simp
  then show ?thesis
    using length_dropWhile_le [of "\<lambda>c. c \<noteq> newline" s] by linarith
qed

lemma next_line_shorter: "next_line p = (Inr l, p') \<Longrightarrow> length (p_input p') < length (p_input p)"
  by (auto simp: next_line_def dest: readLine_shorter split: prod.splits)

text \<open>The loop of \<open>Next\<close> in CSV mode and \<open>nextJSON\<close>: \<open>keep\<close> turns a line into a row or skips it.\<close>

function next_row :: "(parser \<Rightarrow> string \<Rightarrow> parsed_row option) \<Rightarrow> parser \<Rightarrow> (parse_error + parsed_row) \<times> parser" where
  "next_row keep p =
     (case next_line p of
        (Inl e, p) \<Rightarrow> (Inl (ReadError e), p)
      | (Inr line, p) \<Rightarrow>
          if line = [] then next_row keep p
          else (case keep p line of Some row \<Rightarrow> (Inr row, p) | None \<Rightarrow> next_row keep p))"
  by pat_completeness auto
termination
  by (relation "measure (\<lambda>(keep, p). length (p_input p))") (auto dest: next_line_shorter [OF sym])

declare next_row.simps [simp del]

text \<open>\<open>unmarshal\<close>: the \<open>saddr\<close> and \<open>classification\<close> fields of a JSON line, or an error.\<close>

definition json_row :: "(string \<Rightarrow> (string \<times> string) option) \<Rightarrow> parser \<Rightarrow> string \<Rightarrow> parsed_row option" where
  "json_row unmarshal p line =
     (case unmarshal line of
        None \<Rightarrow> None
      | Some (saddr, classification) \<Rightarrow>
          if saddr = [] then None else Some \<lparr>row_IPAddress = saddr, row_ReplyType = classification\<rparr>)"

definition Next :: "(string \<Rightarrow> (string \<times> string) option) \<Rightarrow> parser \<Rightarrow> (parse_error + parsed_row) \<times> parser" where
  "Next unmarshal p =
     (if p_json p then next_row (json_row unmarshal) p
      else if \<not> headerSeen p then
        (case readHeader p of
           (Some e, p) \<Rightarrow> (Inl e, p)
         | (None, p) \<Rightarrow> next_row parseRow p)
      else next_row parseRow p)"

lemma next_row_shorter: "next_row keep p = (Inr row, p') \<Longrightarrow> length (p_input p') < length (p_input p)"
proof (induction keep p rule: next_row.induct)
  case (1 keep p)
  obtain x p1 where x: "next_line p = (x, p1)" by (cases "next_line p")
  show ?case
  proof (cases x)
    case (Inl e)
    then show ?thesis using "1.prems" x by (subst (asm) next_row.simps) simp
  next
    case (Inr line)
    then have less: "length (p_input p1) < length (p_input p)"
      using next_line_shorter x by blast
    have "next_row keep p = (if line = [] then next_row keep p1
        else (case keep p1 line of Some row \<Rightarrow> (Inr row, p1) | None \<Rightarrow> next_row keep p1))"
      using x Inr by (subst next_row.simps) simp
    then show ?thesis
      using "1.prems" "1.IH" [OF x [symmetric] Inr] less
      by (cases "line = []"; cases "keep p1 line") auto
  qed
qed


section \<open>Duplicate addresses\<close>

text \<open>\<open>netip.ParseAddr\<close> followed by \<open>Is4\<close>: four decimal octets without leading zeros; all else is refused.\<close>

definition octet_of :: "string \<Rightarrow> nat option" where
  "octet_of f =
     (if f \<noteq> [] \<and> list_all is_digit f \<and> (length f = 1 \<or> hd f \<noteq> CHR ''0'') \<and> nat_of_dec f \<le> 255
      then Some (nat_of_dec f) else None)"

definition ParseAddr4 :: "string \<Rightarrow> nat option" where
  "ParseAddr4 s =
     (case split_on (CHR ''.'') s of
        [a, b, c, d] \<Rightarrow> do {
          a \<leftarrow> octet_of a; b \<leftarrow> octet_of b; c \<leftarrow> octet_of c; d \<leftarrow> octet_of d;
          Some (((a * 256 + b) * 256 + c) * 256 + d)
        }
      | _ \<Rightarrow> None)"

definition bitsPerDedupWord :: nat where "bitsPerDedupWord = 64"
definition ipv4AddressCount :: nat where "ipv4AddressCount = 2 ^ 32"

record deduplicator =
  dd_words :: "u64 list"
  addressCount :: nat

definition newIPv4Deduplicator :: "nat \<Rightarrow> deduplicator" where
  "newIPv4Deduplicator n =
     \<lparr>dd_words = replicate ((n + bitsPerDedupWord - 1) div bitsPerDedupWord) 0, addressCount = n\<rparr>"

datatype stream_error = InvalidAddress string | BeyondCapacity string | ParseFailed parse_error | AppendFailed | Cancelled

text \<open>\<open>Add\<close>: whether the address is new. \<open>None\<close> is an index out of range.\<close>

definition dedup_Add :: "string \<Rightarrow> deduplicator \<Rightarrow> (stream_error + bool \<times> deduplicator) option" where
  "dedup_Add address d =
     (case ParseAddr4 address of
        None \<Rightarrow> Some (Inl (InvalidAddress address))
      | Some value \<Rightarrow>
          if value \<ge> addressCount d then Some (Inl (BeyondCapacity address))
          else do {
            let i = value div bitsPerDedupWord;
            let mask = (push_bit (value mod bitsPerDedupWord) 1 :: u64);
            w \<leftarrow> nth_opt (dd_words d) i;
            if and w mask \<noteq> 0 then Some (Inr (False, d))
            else Some (Inr (True, d\<lparr>dd_words := (dd_words d)[i := or w mask]\<rparr>))
          })"

definition dedup_ok :: "deduplicator \<Rightarrow> bool" where
  "dedup_ok d \<longleftrightarrow> length (dd_words d) = (addressCount d + 63) div 64"

text \<open>The set a bitmap stands for.\<close>

definition members :: "deduplicator \<Rightarrow> nat set" where
  "members d = {v. v < addressCount d \<and> bit (dd_words d ! (v div 64)) (v mod 64)}"

lemma dedup_new: "dedup_ok (newIPv4Deduplicator n)" "members (newIPv4Deduplicator n) = {}"
proof -
  show "dedup_ok (newIPv4Deduplicator n)"
    by (simp add: dedup_ok_def newIPv4Deduplicator_def bitsPerDedupWord_def)
  have "v div 64 < (n + 63) div 64" if "v < n" for v
    using that by linarith
  then show "members (newIPv4Deduplicator n) = {}"
    by (auto simp: members_def newIPv4Deduplicator_def bitsPerDedupWord_def)
qed

lemma mask_test: "k < 64 \<Longrightarrow> and (w :: u64) (push_bit k 1) \<noteq> 0 \<longleftrightarrow> bit w k"
proof
  assume "k < 64" "bit w k"
  then have "bit (and w (push_bit k 1)) k" by (simp add: bit_simps)
  then show "and w (push_bit k 1) \<noteq> 0" by auto
next
  assume k: "k < 64" and ne: "and w (push_bit k 1) \<noteq> 0"
  show "bit w k"
  proof (rule ccontr)
    assume "\<not> bit w k"
    then have "and w (push_bit k 1) = 0" by (intro bit_word_eqI) (auto simp: bit_simps)
    then show False using ne by blast
  qed
qed

lemma dedup_Add_set:
  assumes "dedup_ok d" "ParseAddr4 address = Some v" "v < addressCount d"
  shows "\<exists>d'. dedup_Add address d = Some (Inr (v \<notin> members d, d')) \<and> dedup_ok d'
    \<and> addressCount d' = addressCount d \<and> members d' = insert v (members d)"
proof -
  let ?i = "v div 64" and ?k = "v mod 64"
  have i: "?i < length (dd_words d)"
    using assms(1,3) by (simp add: dedup_ok_def)
  have test: "and (dd_words d ! ?i) (push_bit ?k 1) \<noteq> 0 \<longleftrightarrow> v \<in> members d"
    using assms(3) mask_test [of ?k] by (simp add: members_def)
  show ?thesis
  proof (cases "v \<in> members d")
    case True
    then show ?thesis
      using assms test i by (simp add: dedup_Add_def bitsPerDedupWord_def nth_opt_def insert_absorb)
  next
    case False
    let ?d = "d\<lparr>dd_words := (dd_words d)[?i := or (dd_words d ! ?i) (push_bit ?k 1)]\<rparr>"
    have "u \<in> members ?d \<longleftrightarrow> u = v \<or> u \<in> members d" for u
    proof (cases "u div 64 = ?i")
      case True
      have "bit (push_bit ?k (1 :: u64)) (u mod 64) \<longleftrightarrow> u mod 64 = ?k"
        by (auto simp: bit_simps)
      moreover have "u mod 64 = ?k \<longleftrightarrow> u = v"
        using True by (metis mod_div_decomp)
      ultimately show ?thesis
        using True i assms(3) by (auto simp: members_def bit_or_iff)
    next
      case other: False
      then show ?thesis by (auto simp: members_def)
    qed
    then have "members ?d = insert v (members d)" by blast
    then show ?thesis
      using assms test i False
      by (intro exI [of _ ?d]) (simp add: dedup_Add_def bitsPerDedupWord_def nth_opt_def dedup_ok_def Let_def)
  qed
qed


section \<open>The target file\<close>

definition ZMapParquetWriteBatchSize :: nat where "ZMapParquetWriteBatchSize = 50000"

record zmap_writer =
  zw_rows :: "parsed_row list"
  zw_batch :: "parsed_row list"

definition zw_new :: zmap_writer where "zw_new = \<lparr>zw_rows = [], zw_batch = []\<rparr>"

text \<open>\<open>ok\<close>: whether the parquet write succeeds.\<close>

definition zw_flush :: "bool \<Rightarrow> zmap_writer \<Rightarrow> bool \<times> zmap_writer" where
  "zw_flush ok w =
     (if zw_batch w = [] then (True, w)
      else if \<not> ok then (False, w)
      else (True, w\<lparr>zw_rows := zw_rows w @ zw_batch w, zw_batch := []\<rparr>))"

definition zw_Append :: "bool \<Rightarrow> parsed_row \<Rightarrow> zmap_writer \<Rightarrow> bool \<times> zmap_writer" where
  "zw_Append ok r w =
     (let w = w\<lparr>zw_batch := zw_batch w @ [r]\<rparr> in
      if length (zw_batch w) \<ge> ZMapParquetWriteBatchSize then zw_flush ok w else (True, w))"

text \<open>\<open>Close\<close> goes through all four steps and reports the first failure.\<close>

definition zw_Close :: "bool \<Rightarrow> bool list \<Rightarrow> zmap_writer \<Rightarrow> bool \<times> zmap_writer" where
  "zw_Close ok closes w = (case zw_flush ok w of (flushed, w) \<Rightarrow> (flushed \<and> list_all id closes, w))"

definition zw_contents :: "zmap_writer \<Rightarrow> parsed_row list" where
  "zw_contents w = zw_rows w @ zw_batch w"

lemma zw_Append_ok: "\<exists>w'. zw_Append True r w = (True, w') \<and> zw_contents w' = zw_contents w @ [r]"
  by (auto simp: zw_Append_def zw_flush_def zw_contents_def Let_def)


section \<open>Streaming the rows\<close>

lemma Next_shorter: "Next unmarshal p = (Inr row, p') \<Longrightarrow> length (p_input p') < length (p_input p)"
proof -
  assume n: "Next unmarshal p = (Inr row, p')"
  have cols: "p_input (header_columns i cs q) = p_input q" for i cs q
    by (induction i cs q rule: header_columns.induct) simp_all
  have head: "readHeader p = (None, q) \<Longrightarrow> length (p_input q) < length (p_input p)" for q
    by (auto simp: readHeader_def Let_def cols dest!: next_line_shorter split: prod.splits sum.splits if_splits)
  show ?thesis
    using n next_row_shorter head
    by (auto simp: Next_def split: if_splits prod.splits option.splits) (metis less_trans)
qed

text \<open>
  \<open>streamRows\<close>. Round \<open>k\<close> of the loop sees the context cancelled if \<open>cancelled k\<close>, and its parquet write, if
  it makes one, succeeds if \<open>ok k\<close>. The result is the error, the writer, the number of rows written and
  whether the scanner was told to stop; \<open>None\<close> is a run-time panic.
\<close>

function streamRows ::
  "(string \<Rightarrow> (string \<times> string) option) \<Rightarrow> (nat \<Rightarrow> bool) \<Rightarrow> (nat \<Rightarrow> bool) \<Rightarrow> nat \<Rightarrow> nat \<Rightarrow> parser \<Rightarrow> zmap_writer \<Rightarrow> nat
     \<Rightarrow> deduplicator option \<Rightarrow> (stream_error option \<times> zmap_writer \<times> nat \<times> bool) option" where
  "streamRows unmarshal cancelled ok targetLimit k p w written dedup =
     (if cancelled k then Some (Some Cancelled, w, written, False)
      else case Next unmarshal p of
        (Inl (ReadError EndOfFile), p) \<Rightarrow> Some (None, w, written, False)
      | (Inl e, p) \<Rightarrow> Some (Some (ParseFailed e), w, written, False)
      | (Inr row, p) \<Rightarrow>
          (case (case dedup of None \<Rightarrow> Some (Inr (True, None))
                 | Some d \<Rightarrow> map_option (map_sum id (map_prod id Some)) (dedup_Add (row_IPAddress row) d)) of
             None \<Rightarrow> None
           | Some (Inl e) \<Rightarrow> Some (Some e, w, written, False)
           | Some (Inr (first, dedup)) \<Rightarrow>
               if \<not> first then streamRows unmarshal cancelled ok targetLimit (k + 1) p w written dedup
               else (case zw_Append (ok k) row w of
                  (False, w) \<Rightarrow> Some (Some AppendFailed, w, written, False)
                | (True, w) \<Rightarrow>
                    let written = written + 1 in
                    if targetLimit > 0 \<and> written \<ge> targetLimit then Some (None, w, written, True)
                    else streamRows unmarshal cancelled ok targetLimit (k + 1) p w written dedup)))"
  by pat_completeness auto
termination
  by (relation "measure (\<lambda>(unmarshal, cancelled, ok, targetLimit, k, p, w, written, dedup). length (p_input p))")
     (auto dest: Next_shorter [OF sym])

declare streamRows.simps [simp del]

text \<open>All rows the parser yields, and what ends them.\<close>

function all_rows :: "(string \<Rightarrow> (string \<times> string) option) \<Rightarrow> parser \<Rightarrow> parsed_row list \<times> parse_error" where
  "all_rows unmarshal p =
     (case Next unmarshal p of
        (Inl e, p) \<Rightarrow> ([], e)
      | (Inr row, p) \<Rightarrow> (case all_rows unmarshal p of (rows, e) \<Rightarrow> (row # rows, e)))"
  by pat_completeness auto
termination
  by (relation "measure (\<lambda>(unmarshal, p). length (p_input p))") (auto dest: Next_shorter [OF sym])

declare all_rows.simps [simp del]


lemma all_rows_Nil: "all_rows unmarshal p = ([], e) \<Longrightarrow> \<exists>p'. Next unmarshal p = (Inl e, p')"
  by (subst (asm) all_rows.simps) (auto split: prod.splits sum.splits)

lemma all_rows_Cons:
  "all_rows unmarshal p = (r # rows, e) \<Longrightarrow>
     \<exists>p'. Next unmarshal p = (Inr r, p') \<and> all_rows unmarshal p' = (rows, e)"
  by (subst (asm) all_rows.simps) (auto split: prod.splits sum.splits)

text \<open>The reference: the first row of every address, in order, and at most as many as wanted.\<close>

definition row_value :: "parsed_row \<Rightarrow> nat" where
  "row_value r = the (ParseAddr4 (row_IPAddress r))"

fun first_rows :: "nat set \<Rightarrow> parsed_row list \<Rightarrow> parsed_row list" where
  "first_rows S [] = []"
| "first_rows S (r # rs) =
     (if row_value r \<in> S then first_rows S rs else r # first_rows (insert (row_value r) S) rs)"

definition limited :: "nat \<Rightarrow> nat \<Rightarrow> 'a list \<Rightarrow> 'a list" where
  "limited targetLimit written xs = (if targetLimit = 0 then xs else take (targetLimit - written) xs)"

lemma first_rows_distinct: "distinct (map row_value (first_rows S rs)) \<and> row_value ` set (first_rows S rs) \<inter> S = {}"
  by (induction S rs rule: first_rows.induct) auto

lemma first_rows_values: "row_value ` set (first_rows S rs) = row_value ` set rs - S"
  by (induction S rs rule: first_rows.induct) auto

lemma streamRows_reference:
  "\<lbrakk>all_rows unmarshal p = (rows, ReadError EndOfFile);
      list_all (\<lambda>r. \<exists>v. ParseAddr4 (row_IPAddress r) = Some v \<and> v < addressCount d) rows;
      dedup_ok d; targetLimit = 0 \<or> written < targetLimit\<rbrakk> \<Longrightarrow>
    \<exists>w' stop. streamRows unmarshal (\<lambda>_. False) (\<lambda>_. True) targetLimit k p w written (Some d)
        = Some (None, w', written + length (limited targetLimit written (first_rows (members d) rows)), stop)
      \<and> zw_contents w' = zw_contents w @ limited targetLimit written (first_rows (members d) rows)"
proof (induction rows arbitrary: k p w written d)
  case Nil
  then obtain p' where "Next unmarshal p = (Inl (ReadError EndOfFile), p')"
    using all_rows_Nil by blast
  then show ?case by (subst streamRows.simps) (auto simp: limited_def)
next
  case (Cons r rows)
  obtain p' where p': "Next unmarshal p = (Inr r, p')" "all_rows unmarshal p' = (rows, ReadError EndOfFile)"
    using all_rows_Cons [OF Cons.prems(1)] by blast
  obtain v where v: "ParseAddr4 (row_IPAddress r) = Some v" "v < addressCount d"
    using Cons.prems(2) by auto
  then have rv: "row_value r = v" by (simp add: row_value_def)
  obtain d' where d': "dedup_Add (row_IPAddress r) d = Some (Inr (v \<notin> members d, d'))" "dedup_ok d'"
    "addressCount d' = addressCount d" "members d' = insert v (members d)"
    using dedup_Add_set [OF Cons.prems(3) v] by blast
  have valid: "list_all (\<lambda>r. \<exists>v. ParseAddr4 (row_IPAddress r) = Some v \<and> v < addressCount d') rows"
    using Cons.prems(2) d'(3) by simp
  show ?case
  proof (cases "v \<in> members d")
    case True
    then have same: "members d' = members d" using d'(4) by auto
    have "streamRows unmarshal (\<lambda>_. False) (\<lambda>_. True) targetLimit k p w written (Some d)
        = streamRows unmarshal (\<lambda>_. False) (\<lambda>_. True) targetLimit (k + 1) p' w written (Some d')"
      using p' d' True by (subst streamRows.simps) simp
    then show ?thesis
      using Cons.IH [OF p'(2) valid d'(2) Cons.prems(4), of "k + 1" w] True rv same by simp
  next
    case False
    obtain w1 where w1: "zw_Append True r w = (True, w1)" "zw_contents w1 = zw_contents w @ [r]"
      using zw_Append_ok [of r w] by blast
    note step = streamRows.simps [of unmarshal "\<lambda>_. False" "\<lambda>_. True" targetLimit k p w written "Some d"]
    have first: "first_rows (members d) (r # rows) = r # first_rows (members d') rows"
      using False rv d'(4) by simp
    show ?thesis
    proof (cases "targetLimit > 0 \<and> written + 1 \<ge> targetLimit")
      case True
      then have "targetLimit - written = 1" using Cons.prems(4) by linarith
      then show ?thesis
        using step p' d' False w1 True unfolding first by (auto simp: limited_def)
    next
      case more: False
      then have lim: "targetLimit = 0 \<or> written + 1 < targetLimit" by linarith
      have "streamRows unmarshal (\<lambda>_. False) (\<lambda>_. True) targetLimit k p w written (Some d)
          = streamRows unmarshal (\<lambda>_. False) (\<lambda>_. True) targetLimit (k + 1) p' w1 (written + 1) (Some d')"
        using step p' d' False w1 more by auto
      moreover have "limited targetLimit written (r # xs) = r # limited targetLimit (written + 1) xs" for xs
        using lim by (auto simp: limited_def Suc_diff_Suc [symmetric])
      ultimately show ?thesis
        using Cons.IH [OF p'(2) valid d'(2) lim, of "k + 1" w1] w1(2) unfolding first by simp
    qed
  qed
qed


section \<open>Reading a CSV stream back\<close>

definition csv_line :: "parsed_row \<Rightarrow> string" where
  "csv_line r = row_IPAddress r @ CHR '','' # row_ReplyType r @ [newline]"

definition csv_header :: string where
  "csv_header = ''saddr,classification'' @ [newline]"

definition plain :: "parsed_row \<Rightarrow> bool" where
  "plain r \<longleftrightarrow> row_IPAddress r \<noteq> [] \<and>
     list_all (\<lambda>c. c \<noteq> newline \<and> c \<noteq> carriage \<and> c \<noteq> CHR '','') (row_IPAddress r @ row_ReplyType r)"

lemma line_chars [simp]: "CHR '','' \<noteq> newline" "CHR '','' \<noteq> carriage" "newline \<noteq> CHR '',''" "carriage \<noteq> CHR '',''"
  by code_simp+

lemma readLine_line:
  assumes "list_all (\<lambda>c. c \<noteq> newline \<and> c \<noteq> carriage) s"
  shows "readLine bad (s @ newline # rest) = (Inr s, rest)"
proof -
  have "takeWhile (\<lambda>c. c \<noteq> newline) (s @ newline # rest) = s" "dropWhile (\<lambda>c. c \<noteq> newline) (s @ newline # rest) = newline # rest"
    using assms by (induction s) auto
  moreover have "strip_last carriage s = s"
    using assms last_in_set by (fastforce simp: strip_last_def list_all_iff)
  ultimately show ?thesis by (simp add: readLine_def Let_def)
qed

text \<open>No white space has an encoding that starts or ends with a lower-case letter.\<close>

lemma trim_front_id: "list_all (\<lambda>e. take (length e) (c # s) \<noteq> e) es \<Longrightarrow> trim_front n es (c # s) = c # s"
  by (cases n) (auto simp: list_all_iff find_None_iff [THEN iffD2])

lemma letter_not_space:
  assumes "97 \<le> (of_char c :: nat)" "(of_char c :: nat) \<le> 122"
  shows "list_all (\<lambda>e. take (length e) (c # s) \<noteq> e) space_encodings"
    and "list_all (\<lambda>e. take (length e) (c # s) \<noteq> e) (map rev space_encodings)"
proof -
  have "c \<noteq> char_of n" if "n < 256" "n < 97 \<or> 122 < n" for n :: nat
    using assms that by auto
  then show "list_all (\<lambda>e. take (length e) (c # s) \<noteq> e) space_encodings"
    "list_all (\<lambda>e. take (length e) (c # s) \<noteq> e) (map rev space_encodings)"
    by (simp_all add: space_encodings_def)
qed

lemma trim_saddr [simp]: "TrimSpace ''saddr'' = ''saddr''" "TrimSpace ''classification'' = ''classification''"
  by (simp_all add: TrimSpace_def Let_def trim_front_id letter_not_space del: trim_front.simps)

definition csv_parser :: "string \<Rightarrow> parser" where
  "csv_parser input = \<lparr>p_input = input, p_bad = False, p_json = False, colIP = Some 0, colReplyType = Some 1,
     headerSeen = True\<rparr>"

lemma read_csv_header:
  "readHeader (NewParser (csv_header @ input) False False) = (None, csv_parser input)"
proof -
  have "list_all (\<lambda>c. c \<noteq> newline \<and> c \<noteq> carriage) ''saddr,classification''"
    by code_simp
  from readLine_line [OF this, of False input] show ?thesis
    by (simp add: readHeader_def next_line_def NewParser_def csv_header_def csv_parser_def Let_def)
qed

lemma next_csv_row:
  assumes "plain r"
  shows "next_row parseRow (csv_parser (csv_line r @ input)) = (Inr r, csv_parser input)"
proof -
  let ?l = "row_IPAddress r @ CHR '','' # row_ReplyType r"
  have l: "list_all (\<lambda>c. c \<noteq> newline \<and> c \<noteq> carriage) ?l" "CHR '','' \<notin> set (row_IPAddress r)" "CHR '','' \<notin> set (row_ReplyType r)"
    "row_IPAddress r \<noteq> []"
    using assms by (auto simp: plain_def list_all_iff)
  have "next_line (csv_parser (csv_line r @ input)) = (Inr ?l, csv_parser input)"
    using readLine_line [OF l(1), of False input] by (simp add: next_line_def csv_parser_def csv_line_def)
  moreover have "parseRow (csv_parser input) ?l = Some r"
    using l(2-4) by (simp add: parseRow_def split_on_append_sep split_on_no_sep csv_parser_def)
  ultimately show ?thesis using l(4) by (subst next_row.simps) simp
qed

lemma all_csv_rows:
  "list_all plain rows \<Longrightarrow> all_rows unmarshal (csv_parser (concat (map csv_line rows))) = (rows, ReadError EndOfFile)"
proof (induction rows)
  case Nil
  have "next_row parseRow (csv_parser []) = (Inl (ReadError EndOfFile), csv_parser [])"
    by (subst next_row.simps) (simp add: next_line_def csv_parser_def readLine_def strip_last_def)
  then show ?case by (subst all_rows.simps) (simp add: Next_def csv_parser_def)
next
  case (Cons r rows)
  have "Next unmarshal (csv_parser (csv_line r @ concat (map csv_line rows))) = (Inr r, csv_parser (concat (map csv_line rows)))"
    using next_csv_row [of r] Cons.prems by (simp add: Next_def csv_parser_def)
  then show ?case using Cons by (subst all_rows.simps) simp
qed

lemma Next_header:
  "Next unmarshal (NewParser (csv_header @ input) False False) = Next unmarshal (csv_parser input)"
  using read_csv_header [of input] by (simp add: Next_def) (simp add: NewParser_def csv_parser_def)

text \<open>
  The parser reads back what the scanner prints. For every list of results whose fields contain no
  comma and no line break, parsing the CSV text (header, then one line per result) yields exactly these
  results in order and then the end of the file.
\<close>

theorem csv_roundtrip:
  assumes "list_all plain rows"
  shows "all_rows unmarshal (NewParser (csv_header @ concat (map csv_line rows)) False False) = (rows, ReadError EndOfFile)"
  using all_csv_rows [OF assms, of unmarshal] Next_header [of unmarshal "concat (map csv_line rows)"]
  by (subst all_rows.simps) (subst (asm) all_rows.simps, simp)

text \<open>
  C28: A TCP scan's target file holds every responder once. If the scanner's output is read to its end, nothing
  is cancelled and no write fails, then the rows written are the first row of every address in the order of
  arrival, cut off at the wanted number of targets; no address is lost before that and none is there
  twice. The bitmap is only an implementation of the set of addresses seen.
\<close>

theorem streamRows_unique:
  assumes "all_rows unmarshal p = (rows, ReadError EndOfFile)"
    and "list_all (\<lambda>r. \<exists>v. ParseAddr4 (row_IPAddress r) = Some v \<and> v < n) rows"
  shows "\<exists>w stop. streamRows unmarshal (\<lambda>_. False) (\<lambda>_. True) targetLimit 0 p zw_new 0 (Some (newIPv4Deduplicator n))
      = Some (None, w, length (zw_contents w), stop)
    \<and> zw_contents w = limited targetLimit 0 (first_rows {} rows)
    \<and> distinct (map row_value (zw_contents w))"
proof -
  have cap: "addressCount (newIPv4Deduplicator n) = n" by (simp add: newIPv4Deduplicator_def)
  have "targetLimit = 0 \<or> 0 < targetLimit" by auto
  from streamRows_reference [OF assms(1) _ dedup_new(1) [of n] this, where w = zw_new and k = 0]
  obtain w stop where "streamRows unmarshal (\<lambda>_. False) (\<lambda>_. True) targetLimit 0 p zw_new 0 (Some (newIPv4Deduplicator n))
      = Some (None, w, length (limited targetLimit 0 (first_rows {} rows)), stop)"
    "zw_contents w = limited targetLimit 0 (first_rows {} rows)"
    using assms(2) by (auto simp: cap dedup_new zw_new_def zw_contents_def)
  moreover have "distinct (map row_value (limited targetLimit 0 (first_rows {} rows)))"
    using first_rows_distinct [of "{}" rows] by (auto simp: limited_def take_map [symmetric])
  ultimately show ?thesis by auto
qed

definition demo_rows :: "parsed_row list" where
  "demo_rows = [\<lparr>row_IPAddress = ''0.0.0.7'', row_ReplyType = ''synack''\<rparr>,
     \<lparr>row_IPAddress = ''0.0.0.9'', row_ReplyType = ''rst''\<rparr>, \<lparr>row_IPAddress = ''0.0.0.7'', row_ReplyType = ''rst''\<rparr>]"

lemma demo_rows_plain: "list_all plain demo_rows"
  by code_simp

theorem csv_roundtrip_witness:
  "all_rows (\<lambda>_. None) (NewParser (csv_header @ ''0.0.0.7,synack'' @ newline # ''0.0.0.9,rst'' @ newline # ''0.0.0.7,rst'' @ [newline])
     False False) = (demo_rows, ReadError EndOfFile)"
  using csv_roundtrip [OF demo_rows_plain] by (simp add: demo_rows_def csv_line_def)

lemma demo_rows_valid: "list_all (\<lambda>r. \<exists>v. ParseAddr4 (row_IPAddress r) = Some v \<and> v < 16) demo_rows"
  by (simp add: demo_rows_def ParseAddr4_def octet_of_def nat_of_dec_def is_digit_def)

lemma demo_first_rows: "first_rows {} demo_rows = take 2 demo_rows"
  by (simp add: demo_rows_def row_value_def ParseAddr4_def octet_of_def nat_of_dec_def is_digit_def)

theorem streamRows_unique_witness:
  "\<exists>w stop. streamRows (\<lambda>_. None) (\<lambda>_. False) (\<lambda>_. True) 0 0
      (NewParser (csv_header @ concat (map csv_line demo_rows)) False False) zw_new 0 (Some (newIPv4Deduplicator 16))
      = Some (None, w, 2, stop) \<and> zw_contents w = take 2 demo_rows"
proof -
  have rows: "all_rows (\<lambda>_. None) (NewParser (csv_header @ concat (map csv_line demo_rows)) False False)
      = (demo_rows, ReadError EndOfFile)"
    using all_csv_rows [OF demo_rows_plain, of "\<lambda>_. None"] Next_header [of "\<lambda>_. None" "concat (map csv_line demo_rows)"]
    by (subst all_rows.simps) (subst (asm) all_rows.simps, simp)
  show ?thesis
    using streamRows_unique [OF rows demo_rows_valid, of 0] demo_first_rows
    by (auto simp: limited_def demo_rows_def)
qed

end
