(* ===== verification/ZSample.thy ===== *)
theory ZSample
  imports ZMap "HOL-Library.Sublist" "HOL-Library.Signed_Division"
begin

text \<open>
  \<^verbatim>\<open>internal/zmapsample/sample.go\<close>: drawing a sample of exact size from a target file in one pass over it.
  The reads of the two passes, the values of the random generator and the outcome of every file operation
  are parameters. Row counts are 64-bit integers; only \<open>FixedBaseSampleSize\<close> computes with them in a way
  that could overflow, and its wrap-around is written out.
\<close>

section \<open>The size\<close>

definition wrap64 :: "int \<Rightarrow> int" where "wrap64 x = (x + 2 ^ 63) mod 2 ^ 64 - 2 ^ 63"

definition FixedBaseSampleSize :: "int \<Rightarrow> int \<Rightarrow> int \<Rightarrow> int" where
  "FixedBaseSampleSize total_rows minimum percent =
     (if total_rows \<le> 0 then 0
      else let percentageRows = wrap64 (wrap64 (total_rows * percent) + 99) sdiv 100;
               requested = max percentageRows minimum
           in min requested total_rows)"

lemma wrap64_id [simp]: "- (2 ^ 63) \<le> x \<Longrightarrow> x < 2 ^ 63 \<Longrightarrow> wrap64 x = x"
  by (simp add: wrap64_def)

lemma FixedBaseSampleSize_le: "FixedBaseSampleSize total_rows minimum percent \<le> max 0 total_rows"
  by (simp add: FixedBaseSampleSize_def Let_def)

lemma FixedBaseSampleSize_nonneg: "0 \<le> minimum \<Longrightarrow> 0 \<le> FixedBaseSampleSize total_rows minimum percent"
  by (auto simp: FixedBaseSampleSize_def Let_def max_def)

lemma FixedBaseSampleSize_ceiling:
  assumes "0 < total_rows" "0 \<le> percent" "total_rows * percent + 99 < 2 ^ 63"
  shows "FixedBaseSampleSize total_rows minimum percent = min (max ((total_rows * percent + 99) div 100) minimum) total_rows"
proof -
  have "0 \<le> total_rows * percent" using assms by simp
  then have "wrap64 (total_rows * percent) = total_rows * percent" "wrap64 (total_rows * percent + 99) = total_rows * percent + 99"
    using assms(3) by (simp_all del: power_numeral)
  moreover have "(total_rows * percent + 99) sdiv 100 = (total_rows * percent + 99) div 100"
    using \<open>0 \<le> total_rows * percent\<close> by (simp add: signed_divide_int_def sgn_if)
  ultimately show ?thesis using assms(1) by (simp add: FixedBaseSampleSize_def Let_def)
qed


section \<open>Reading\<close>

text \<open>One read: the rows it returns, and whether it also reports the end of the file or an error.\<close>

datatype read_end = MoreRows | AtEOF | ReadError

type_synonym reads = "(parsed_row list \<times> read_end) list"

definition eligible :: "string \<Rightarrow> parsed_row \<Rightarrow> bool" where
  "eligible replyType r \<longleftrightarrow> \<not> (replyType \<noteq> [] \<and> row_ReplyType r \<noteq> replyType)"

text \<open>The counting pass; \<open>None\<close> is a read error. After the last read of the script the file is at its end.\<close>

fun count_pass :: "string \<Rightarrow> reads \<Rightarrow> int \<Rightarrow> int option" where
  "count_pass replyType [] total_rows = Some total_rows"
| "count_pass replyType ((rows, e) # rs) total_rows =
     (let total_rows = total_rows + int (length (filter (\<lambda>r. row_ReplyType r = replyType) rows)) in
      if e = ReadError then None
      else if e = AtEOF \<or> rows = [] then Some total_rows
      else count_pass replyType rs total_rows)"


section \<open>Selecting\<close>

datatype sample_error = OpenFailed | CountFailed | SeekFailed | NoEligible string | CreateFailed | WriteFailed
  | SourceFailed | Mismatch int int int int | FinalWriteFailed | CloseFailed | PublishFailed

record sampler =
  remainingRows :: int
  remainingWanted :: int
  processed :: nat
  writeBuffer :: "parsed_row list"
  sampled :: "parsed_row list"
  writes_done :: nat

definition sample_flush :: "(nat \<Rightarrow> bool) \<Rightarrow> sampler \<Rightarrow> bool \<times> sampler" where
  "sample_flush ok s =
     (if writeBuffer s = [] then (True, s)
      else if \<not> ok (writes_done s) then (False, s\<lparr>writes_done := writes_done s + 1\<rparr>)
      else (True, s\<lparr>sampled := sampled s @ writeBuffer s, writeBuffer := [], writes_done := writes_done s + 1\<rparr>))"

text \<open>
  One row. \<open>draw p n\<close> is what \<open>rng.Int63n(n)\<close> returns for the row that \<open>p\<close> eligible rows come before. The
  outer \<open>None\<close> is the panic of \<open>Int63n\<close> for a bound that is not positive.
\<close>

definition takes :: "(nat \<Rightarrow> int \<Rightarrow> int) \<Rightarrow> sampler \<Rightarrow> bool option" where
  "takes draw s =
     (if remainingWanted s = remainingRows s then Some True
      else if remainingWanted s > 0 then
        (if remainingRows s \<le> 0 then None else Some (draw (processed s) (remainingRows s) < remainingWanted s))
      else Some False)"

definition pass_row :: "sampler \<Rightarrow> sampler" where
  "pass_row s = s\<lparr>remainingRows := remainingRows s - 1, processed := processed s + 1\<rparr>"

definition sample_row ::
  "string \<Rightarrow> (nat \<Rightarrow> int \<Rightarrow> int) \<Rightarrow> (nat \<Rightarrow> bool) \<Rightarrow> parsed_row \<Rightarrow> sampler \<Rightarrow> (sample_error + sampler) option" where
  "sample_row replyType draw ok r s =
     (if \<not> eligible replyType r then Some (Inr s)
      else do {
        take \<leftarrow> takes draw s;
        if \<not> take then Some (Inr (pass_row s))
        else let s = s\<lparr>writeBuffer := writeBuffer s @ [r]\<rparr>;
                 (flushed, s) = (if length (writeBuffer s) \<ge> ZMapParquetWriteBatchSize then sample_flush ok s else (True, s))
             in if \<not> flushed then Some (Inl WriteFailed)
                else Some (Inr (pass_row (s\<lparr>remainingWanted := remainingWanted s - 1\<rparr>)))
      })"

fun sample_rows ::
  "string \<Rightarrow> (nat \<Rightarrow> int \<Rightarrow> int) \<Rightarrow> (nat \<Rightarrow> bool) \<Rightarrow> parsed_row list \<Rightarrow> sampler \<Rightarrow> (sample_error + sampler) option" where
  "sample_rows replyType draw ok [] s = Some (Inr s)"
| "sample_rows replyType draw ok (r # rs) s = do {
     x \<leftarrow> sample_row replyType draw ok r s;
     case x of Inl e \<Rightarrow> Some (Inl e) | Inr s \<Rightarrow> sample_rows replyType draw ok rs s
   }"

fun sample_loop ::
  "string \<Rightarrow> (nat \<Rightarrow> int \<Rightarrow> int) \<Rightarrow> (nat \<Rightarrow> bool) \<Rightarrow> reads \<Rightarrow> sampler \<Rightarrow> (sample_error + sampler) option" where
  "sample_loop replyType draw ok [] s = Some (Inr s)"
| "sample_loop replyType draw ok ((rows, e) # rs) s = do {
     x \<leftarrow> sample_rows replyType draw ok rows s;
     case x of
       Inl err \<Rightarrow> Some (Inl err)
     | Inr s \<Rightarrow>
         if e = ReadError then Some (Inl SourceFailed)
         else if e = AtEOF \<or> rows = [] then Some (Inr s)
         else sample_loop replyType draw ok rs s
   }"


section \<open>The whole operation\<close>

record sample_stats =
  EligibleRows :: int
  SourceRows :: int
  SampleRows :: int

record sample_files =
  opens :: bool
  NumRows :: nat
  first_pass :: reads
  seeks :: bool
  creates :: bool
  second_pass :: reads
  writes_ok :: "nat \<Rightarrow> bool"
  closes_ok :: bool
  renames :: bool

text \<open>
  The statistics, the error and the rows of the published file; the temporary file is gone in every
  other case. The seed is left out of the statistics.
\<close>

definition finish_sample :: "sample_files \<Rightarrow> sample_stats \<Rightarrow> int \<Rightarrow> sampler \<Rightarrow> sample_error + parsed_row list" where
  "finish_sample f stats total_rows s =
     (if int (processed s) \<noteq> total_rows \<or> remainingWanted s \<noteq> 0 \<or> remainingRows s \<noteq> 0
      then Inl (Mismatch (int (processed s)) total_rows (remainingWanted s) (remainingRows s))
      else case sample_flush (writes_ok f) s of
        (False, _) \<Rightarrow> Inl FinalWriteFailed
      | (True, s) \<Rightarrow>
          if \<not> closes_ok f then Inl CloseFailed
          else if \<not> renames f then Inl PublishFailed
          else Inr (sampled s))"

definition start_sampler :: "int \<Rightarrow> int \<Rightarrow> sampler" where
  "start_sampler total_rows wanted = \<lparr>remainingRows = total_rows, remainingWanted = wanted, processed = 0, writeBuffer = [],
     sampled = [], writes_done = 0\<rparr>"

definition no_stats :: sample_stats where
  "no_stats = \<lparr>EligibleRows = 0, SourceRows = 0, SampleRows = 0\<rparr>"

definition eligible_total :: "sample_files \<Rightarrow> string \<Rightarrow> sample_error + int" where
  "eligible_total f replyType =
     (if replyType = [] then Inr (int (NumRows f))
      else case count_pass replyType (first_pass f) 0 of
        None \<Rightarrow> Inl CountFailed
      | Some total_rows \<Rightarrow> if \<not> seeks f then Inl SeekFailed else Inr total_rows)"

definition WriteUniformSample ::
  "sample_files \<Rightarrow> int \<Rightarrow> int \<Rightarrow> (nat \<Rightarrow> int \<Rightarrow> int) \<Rightarrow> string \<Rightarrow> (sample_stats \<times> (sample_error + parsed_row list)) option" where
  "WriteUniformSample f minimum percent draw replyType =
     (if \<not> opens f then Some (no_stats, Inl OpenFailed)
      else case eligible_total f replyType of
        Inl e \<Rightarrow> Some (no_stats, Inl e)
      | Inr total_rows \<Rightarrow>
          let wanted = FixedBaseSampleSize total_rows minimum percent;
              stats = \<lparr>EligibleRows = total_rows, SourceRows = int (NumRows f), SampleRows = wanted\<rparr>
          in if total_rows = 0 then Some (stats, Inl (NoEligible replyType))
             else if \<not> creates f then Some (stats, Inl CreateFailed)
             else do {
               x \<leftarrow> sample_loop replyType draw (writes_ok f) (second_pass f) (start_sampler total_rows wanted);
               Some (stats, case x of Inl e \<Rightarrow> Inl e | Inr s \<Rightarrow> finish_sample f stats total_rows s)
             })"


section \<open>Any run\<close>

text \<open>The rows the second pass goes over.\<close>

fun delivered :: "reads \<Rightarrow> parsed_row list" where
  "delivered [] = []"
| "delivered ((rows, e) # rs) = rows @ (if e \<noteq> MoreRows \<or> rows = [] then [] else delivered rs)"

text \<open>What holds of the sampler between two rows, \<open>ys\<close> being the eligible rows so far.\<close>

definition sampler_inv :: "int \<Rightarrow> int \<Rightarrow> parsed_row list \<Rightarrow> sampler \<Rightarrow> bool" where
  "sampler_inv total_rows wanted ys s \<longleftrightarrow>
     subseq (sampled s @ writeBuffer s) ys \<and> remainingWanted s \<le> remainingRows s
     \<and> int (length (sampled s @ writeBuffer s)) = wanted - remainingWanted s
     \<and> int (processed s) = total_rows - remainingRows s \<and> processed s = length ys"

lemma sample_flush_fields:
  "sample_flush ok s = (b, s') \<Longrightarrow> remainingRows s' = remainingRows s \<and> remainingWanted s' = remainingWanted s
     \<and> processed s' = processed s \<and> sampled s' @ writeBuffer s' = sampled s @ writeBuffer s \<and> (b \<longrightarrow> writeBuffer s' = [])"
  by (auto simp: sample_flush_def split: if_splits)

lemma takes_total: "remainingWanted s \<le> remainingRows s \<Longrightarrow> takes draw s \<noteq> None"
  by (auto simp: takes_def)

lemma sample_row_inv:
  assumes "sampler_inv total_rows wanted ys s"
  shows "\<exists>x. sample_row replyType draw ok r s = Some x
    \<and> (\<forall>s'. x = Inr s' \<longrightarrow> sampler_inv total_rows wanted (ys @ filter (eligible replyType) [r]) s')"
proof (cases "eligible replyType r")
  case False
  then show ?thesis using assms by (simp add: sample_row_def)
next
  case True
  have inv: "subseq (sampled s @ writeBuffer s) ys" "remainingWanted s \<le> remainingRows s"
    "int (length (sampled s @ writeBuffer s)) = wanted - remainingWanted s"
    "int (processed s) = total_rows - remainingRows s" "processed s = length ys"
    using assms unfolding sampler_inv_def by blast+
  obtain take where take: "takes draw s = Some take" using takes_total [OF inv(2), of draw] by blast
  show ?thesis
  proof (cases take)
    case False
    then have "remainingWanted s \<noteq> remainingRows s" using take by (auto simp: takes_def)
    then show ?thesis
      using True take False inv
      by (auto simp: sample_row_def sampler_inv_def pass_row_def intro: subseq_order.order_trans)
  next
    case T: True
    let ?s = "s\<lparr>writeBuffer := writeBuffer s @ [r]\<rparr>"
    have sub: "subseq (sampled s @ writeBuffer s @ [r]) (ys @ [r])"
      using list_emb_append_mono [OF inv(1), of "[r]" "[r]"] by simp
    obtain b s' where bs: "(if length (writeBuffer ?s) \<ge> ZMapParquetWriteBatchSize then sample_flush ok ?s else (True, ?s)) = (b, s')"
      by (meson surj_pair)
    have s': "remainingRows s' = remainingRows s" "remainingWanted s' = remainingWanted s" "processed s' = processed s"
      "sampled s' @ writeBuffer s' = sampled s @ writeBuffer s @ [r]"
      using bs sample_flush_fields [of ok ?s b s'] by (auto split: if_splits)
    have "sample_row replyType draw ok r s
        = Some (if \<not> b then Inl WriteFailed else Inr (pass_row (s'\<lparr>remainingWanted := remainingWanted s' - 1\<rparr>)))"
      using True take T bs by (simp add: sample_row_def Let_def)
    moreover have "sampler_inv total_rows wanted (ys @ [r]) (pass_row (s'\<lparr>remainingWanted := remainingWanted s' - 1\<rparr>))"
      using s' sub inv by (simp add: sampler_inv_def pass_row_def)
    ultimately show ?thesis using True by auto
  qed
qed

lemma sample_rows_inv:
  assumes "sampler_inv total_rows wanted ys s"
  shows "\<exists>x. sample_rows replyType draw ok rs s = Some x
    \<and> (\<forall>s'. x = Inr s' \<longrightarrow> sampler_inv total_rows wanted (ys @ filter (eligible replyType) rs) s')"
  using assms
proof (induction rs arbitrary: s ys)
  case (Cons r rs)
  obtain x where x: "sample_row replyType draw ok r s = Some x"
    "\<And>s'. x = Inr s' \<Longrightarrow> sampler_inv total_rows wanted (ys @ filter (eligible replyType) [r]) s'"
    using sample_row_inv [OF Cons.prems, of replyType draw ok r] by blast
  show ?case
  proof (cases x)
    case (Inr s')
    then show ?thesis using Cons.IH [OF x(2) [OF Inr]] x(1) by (auto split: if_splits)
  qed (use x in simp)
qed simp

lemma sample_loop_inv:
  assumes "sampler_inv total_rows wanted ys s"
  shows "\<exists>x. sample_loop replyType draw ok reads s = Some x
    \<and> (\<forall>s'. x = Inr s' \<longrightarrow> sampler_inv total_rows wanted (ys @ filter (eligible replyType) (delivered reads)) s')"
  using assms
proof (induction reads arbitrary: s ys)
  case (Cons c reads)
  obtain rows e where c: "c = (rows, e)" by (cases c)
  obtain x where x: "sample_rows replyType draw ok rows s = Some x"
    "\<And>s'. x = Inr s' \<Longrightarrow> sampler_inv total_rows wanted (ys @ filter (eligible replyType) rows) s'"
    using sample_rows_inv [OF Cons.prems, of replyType draw ok rows] by blast
  show ?case
  proof (cases x)
    case (Inr s')
    then show ?thesis using Cons.IH [OF x(2) [OF Inr]] x c by (cases e) auto
  qed (use x c in simp)
qed simp

lemma count_pass_nonneg: "count_pass replyType reads k = Some n \<Longrightarrow> 0 \<le> k \<Longrightarrow> 0 \<le> n"
  by (induction replyType reads k rule: count_pass.induct) (auto simp: Let_def split: if_splits)

lemma eligible_total_nonneg: "eligible_total f replyType = Inr n \<Longrightarrow> 0 \<le> n"
  using count_pass_nonneg [of replyType "first_pass f" 0 n]
  by (auto simp: eligible_total_def split: if_splits option.splits)

text \<open>
  A published sample is exact. Whatever the reads return, whatever the random generator draws and
  whichever writes fail: sampling never panics, and when it publishes a file, the file holds a
  subsequence of the eligible rows that were read, in their original order, of exactly the size
  reported.
\<close>

theorem WriteUniformSample_exact:
  "\<exists>stats x. WriteUniformSample f minimum percent draw replyType = Some (stats, x)
    \<and> (case x of
          Inl e \<Rightarrow> True
        | Inr ys \<Rightarrow>
            subseq ys (filter (eligible replyType) (delivered (second_pass f)))
            \<and> int (length (filter (eligible replyType) (delivered (second_pass f)))) = EligibleRows stats
            \<and> int (length ys) = SampleRows stats
            \<and> SampleRows stats = FixedBaseSampleSize (EligibleRows stats) minimum percent)"
proof (cases "opens f")
  case opened: True
  show ?thesis
  proof (cases "eligible_total f replyType")
    case (Inr n)
    let ?w = "FixedBaseSampleSize n minimum percent" and ?ys = "filter (eligible replyType) (delivered (second_pass f))"
    show ?thesis
    proof (cases "n = 0 \<or> \<not> creates f")
      case True
      then show ?thesis using opened Inr by (cases "n = 0") (simp_all add: WriteUniformSample_def Let_def)
    next
      case False
      have "?w \<le> n"
        using FixedBaseSampleSize_le [of n minimum percent] eligible_total_nonneg [OF Inr] by simp
      then have "sampler_inv n ?w [] (start_sampler n ?w)"
        by (simp add: sampler_inv_def start_sampler_def)
      then obtain x where x: "sample_loop replyType draw (writes_ok f) (second_pass f) (start_sampler n ?w) = Some x"
        "\<And>s. x = Inr s \<Longrightarrow> sampler_inv n ?w ?ys s"
        using sample_loop_inv [of n ?w "[]" "start_sampler n ?w" replyType draw "writes_ok f" "second_pass f"] by auto
      have "subseq zs ?ys \<and> int (length ?ys) = n \<and> int (length zs) = ?w"
        if s: "x = Inr s" and fin: "finish_sample f stats n s = Inr zs" for s stats zs
      proof -
        obtain s' where fl: "sample_flush (writes_ok f) s = (True, s')" "zs = sampled s'"
          and acc: "int (processed s) = n" "remainingWanted s = 0"
          using fin by (auto simp: finish_sample_def split: if_splits prod.splits bool.splits)
        have "zs = sampled s @ writeBuffer s"
          using sample_flush_fields [OF fl(1)] fl(2) by (metis append_Nil2)
        then show ?thesis using x(2) [OF s] acc by (simp add: sampler_inv_def)
      qed
      then show ?thesis
        using opened Inr False x(1) by (auto simp: WriteUniformSample_def Let_def split: sum.splits)
    qed
  qed (use opened in \<open>simp add: WriteUniformSample_def\<close>)
qed (simp add: WriteUniformSample_def)


section \<open>Uniformity\<close>

text \<open>The possible draws of a pass over \<open>n\<close> eligible rows: one value for each, below the number of rows left.\<close>

fun draws :: "nat \<Rightarrow> nat list set" where
  "draws 0 = {[]}"
| "draws (Suc n) = (\<lambda>(d, ds). d # ds) ` ({..n} \<times> draws n)"

definition draw_from :: "nat list \<Rightarrow> nat \<Rightarrow> int \<Rightarrow> int" where
  "draw_from ds i bound = int (ds ! i)"

fun select :: "'a list \<Rightarrow> nat \<Rightarrow> nat list \<Rightarrow> 'a list" where
  "select (r # rs) k (d # ds) = (if d < k then r # select rs (k - 1) ds else select rs k ds)"
| "select _ _ _ = []"

lemma finite_draws [simp]: "finite (draws n)"
  by (induction n) simp_all

lemma length_draws: "ds \<in> draws n \<Longrightarrow> length ds = n"
  by (induction n arbitrary: ds) auto

lemma select_subset: "set (select rs k ds) \<subseteq> set rs"
  by (induction rs k ds rule: select.induct) auto

lemma card_Cons_image: "card ((\<lambda>(d, ds). d # ds) ` (A \<times> B)) = card A * card (B :: nat list set)"
proof -
  have "inj_on (\<lambda>(d, ds). d # ds) (A \<times> B)" by (auto simp: inj_on_def)
  then show ?thesis by (simp add: card_image card_cartesian_product)
qed

text \<open>Every subsequence of the wanted length comes from the same number of draws.\<close>

lemma select_uniform:
  "distinct rs \<Longrightarrow> subseq ys rs \<Longrightarrow>
     card {ds \<in> draws (length rs). select rs (length ys) ds = ys} = fact (length ys) * fact (length rs - length ys)"
proof (induction rs arbitrary: ys)
  case Nil
  then have "ys = []" by (cases ys) simp_all
  then show ?case by (simp add: Collect_conv_if)
next
  case (Cons r rs)
  let ?n = "length rs" and ?k = "length ys"
  have d: "r \<notin> set rs" "distinct rs" using Cons.prems(1) by auto
  show ?case
  proof (cases "ys \<noteq> [] \<and> hd ys = r")
    case True
    then obtain zs where zs: "ys = r # zs" by (cases ys) auto
    have sub: "subseq zs rs" using Cons.prems(2) zs by simp
    have other: "select rs k ds \<noteq> r # zs" for k ds using select_subset [of rs k ds] d(1) by auto
    have "{ds \<in> draws (length (r # rs)). select (r # rs) ?k ds = ys}
        = (\<lambda>(d, ds). d # ds) ` ({..length zs} \<times> {ds \<in> draws ?n. select rs (length zs) ds = zs})"
      using other zs list_emb_length [OF sub] by (auto simp: image_iff less_Suc_eq_le split: if_splits)
    then show ?thesis
      using Cons.IH [OF d(2) sub] zs by (simp add: card_Cons_image algebra_simps del: draws.simps)
  next
    case False
    then have sub: "subseq ys rs" using Cons.prems(2) by (cases ys) (auto split: if_splits)
    have k: "?k \<le> ?n" using list_emb_length [OF sub] .
    have other: "r # zs \<noteq> ys" for zs using False by auto
    have "{ds \<in> draws (length (r # rs)). select (r # rs) ?k ds = ys}
        = (\<lambda>(d, ds). d # ds) ` ({?k..?n} \<times> {ds \<in> draws ?n. select rs ?k ds = ys})"
      using other by (auto simp: image_iff split: if_splits)
    moreover have "Suc ?n - ?k = Suc (?n - ?k)" using k by simp
    ultimately show ?thesis
      using Cons.IH [OF d(2) sub] by (simp add: card_Cons_image algebra_simps del: draws.simps)
  qed
qed


text \<open>Without failures the loop computes \<open>select\<close> on the eligible rows.\<close>

lemma sample_rows_append:
  "sample_rows replyType draw ok (as @ bs) s
     = Option.bind (sample_rows replyType draw ok as s)
         (\<lambda>x. case x of Inl e \<Rightarrow> Some (Inl e) | Inr s \<Rightarrow> sample_rows replyType draw ok bs s)"
  by (induction as arbitrary: s) (auto split: sum.splits bind_splits)

lemma sample_loop_rows:
  "list_all (\<lambda>c. snd c \<noteq> ReadError) reads \<Longrightarrow>
     sample_loop replyType draw ok reads s = sample_rows replyType draw ok (delivered reads) s"
proof (induction reads arbitrary: s)
  case (Cons c reads)
  obtain rows e where c: "c = (rows, e)" by (cases c)
  show ?case
  proof (cases "e = MoreRows \<and> rows \<noteq> []")
    case True
    then show ?thesis
      using Cons c by (cases "sample_rows replyType draw ok rows s") (auto simp: sample_rows_append split: sum.splits)
  next
    case False
    moreover have "x = (case x of Inl a \<Rightarrow> Inl a | Inr b \<Rightarrow> Inr b)" for x :: "sample_error + sampler"
      by (cases x) simp_all
    ultimately show ?thesis
      using Cons.prems c
      by (cases e; cases "sample_rows replyType draw ok rows s") (auto split: sum.splits)
  qed
qed simp

lemma sample_row_select:
  assumes "\<And>j. ok j" "eligible replyType r" "remainingRows s = int (Suc n)" "remainingWanted s = int k" "k \<le> Suc n"
    and "draw (processed s) (int (Suc n)) = int d" "d \<le> n"
  obtains s' where "sample_row replyType draw ok r s = Some (Inr s')"
    "remainingRows s' = int n" "remainingWanted s' = int (if d < k then k - 1 else k)" "processed s' = Suc (processed s)"
    "sampled s' @ writeBuffer s' = sampled s @ writeBuffer s @ (if d < k then [r] else [])"
proof -
  have take: "takes draw s = Some (d < k)"
    using assms by (auto simp: takes_def)
  show thesis
  proof (cases "d < k")
    case False
    then show thesis
      using take assms by (intro that [of "pass_row s"]) (auto simp: sample_row_def pass_row_def)
  next
    case True
    let ?s = "s\<lparr>writeBuffer := writeBuffer s @ [r]\<rparr>"
    obtain b s1 where bs: "(if length (writeBuffer ?s) \<ge> ZMapParquetWriteBatchSize then sample_flush ok ?s else (True, ?s)) = (b, s1)"
      by (meson surj_pair)
    have b: "b" using bs assms(1) by (auto simp: sample_flush_def split: if_splits)
    have s1: "remainingRows s1 = remainingRows s" "remainingWanted s1 = remainingWanted s" "processed s1 = processed s"
      "sampled s1 @ writeBuffer s1 = sampled s @ writeBuffer s @ [r]"
      using bs sample_flush_fields [of ok ?s b s1] by (auto split: if_splits)
    show thesis
      using take True bs b s1 assms
      by (intro that [of "pass_row (s1\<lparr>remainingWanted := remainingWanted s1 - 1\<rparr>)"])
        (auto simp: sample_row_def pass_row_def Let_def)
  qed
qed

lemma sample_rows_select:
  assumes "\<And>j. ok j" "ds \<in> draws (length (filter (eligible replyType) rs))"
    and "remainingRows s = int (length (filter (eligible replyType) rs))" "remainingWanted s = int k"
    and "k \<le> length (filter (eligible replyType) rs)"
    and "\<And>i b. i < length ds \<Longrightarrow> draw (processed s + i) b = int (ds ! i)"
  shows "\<exists>s'. sample_rows replyType draw ok rs s = Some (Inr s') \<and> remainingRows s' = 0 \<and> remainingWanted s' = 0
    \<and> processed s' = processed s + length (filter (eligible replyType) rs)
    \<and> sampled s' @ writeBuffer s' = sampled s @ writeBuffer s @ select (filter (eligible replyType) rs) k ds"
  using assms(2-)
proof (induction rs arbitrary: s k ds)
  case Nil
  then show ?case by simp
next
  case (Cons r rs)
  show ?case
  proof (cases "eligible replyType r")
    case False
    then show ?thesis using Cons by (simp add: sample_row_def)
  next
    case True
    let ?n = "length (filter (eligible replyType) rs)"
    obtain d es where ds: "ds = d # es" "d \<le> ?n" "es \<in> draws ?n"
      using Cons.prems(1) True by auto
    have d0: "draw (processed s) (int (Suc ?n)) = int d"
      using Cons.prems(5) [of 0] ds(1) by simp
    have r0: "remainingRows s = int (Suc ?n)" "k \<le> Suc ?n" using Cons.prems(2,4) True by auto
    obtain s1 where s1: "sample_row replyType draw ok r s = Some (Inr s1)"
      "remainingRows s1 = int ?n" "remainingWanted s1 = int (if d < k then k - 1 else k)"
      "processed s1 = Suc (processed s)"
      "sampled s1 @ writeBuffer s1 = sampled s @ writeBuffer s @ (if d < k then [r] else [])"
      by (rule sample_row_select [where ok = ok and draw = draw and d = d, OF _ True r0(1) Cons.prems(3) r0(2) d0 ds(2)])
        (use assms(1) in auto)
    have k1: "(if d < k then k - 1 else k) \<le> ?n" using Cons.prems(4) ds(2) True by auto
    have "draw (processed s1 + i) b = int (es ! i)" if "i < length es" for i b
      using Cons.prems(5) [of "Suc i" b] that ds(1) s1(4) by simp
    from Cons.IH [OF ds(3) s1(2,3) k1 this] show ?thesis
      using s1 ds(1) True by (auto split: if_splits)
  qed
qed


definition undisturbed :: "sample_files \<Rightarrow> string \<Rightarrow> bool" where
  "undisturbed f replyType \<longleftrightarrow> opens f \<and> creates f \<and> closes_ok f \<and> renames f \<and> (\<forall>j. writes_ok f j)
     \<and> list_all (\<lambda>c. snd c \<noteq> ReadError) (second_pass f)
     \<and> eligible_total f replyType = Inr (int (length (filter (eligible replyType) (delivered (second_pass f)))))"

lemma WriteUniformSample_select:
  assumes "undisturbed f replyType" "rows = filter (eligible replyType) (delivered (second_pass f))" "rows \<noteq> []"
    and "int k = FixedBaseSampleSize (int (length rows)) minimum percent" "ds \<in> draws (length rows)"
  shows "\<exists>stats. WriteUniformSample f minimum percent (draw_from ds) replyType = Some (stats, Inr (select rows k ds))"
proof -
  let ?s = "start_sampler (int (length rows)) (int k)"
  have u: "opens f" "creates f" "closes_ok f" "renames f" "\<And>j. writes_ok f j" "list_all (\<lambda>c. snd c \<noteq> ReadError) (second_pass f)"
    "eligible_total f replyType = Inr (int (length rows))"
    using assms(1,2) by (auto simp: undisturbed_def)
  have k: "k \<le> length rows"
    using FixedBaseSampleSize_le [of "int (length rows)" minimum percent] assms(4) by simp
  obtain s where s: "sample_rows replyType (draw_from ds) (writes_ok f) (delivered (second_pass f)) ?s = Some (Inr s)"
    "remainingRows s = 0" "remainingWanted s = 0" "processed s = length rows" "sampled s @ writeBuffer s = select rows k ds"
    using sample_rows_select [of "writes_ok f" ds replyType "delivered (second_pass f)" ?s k "draw_from ds"] u(5) assms(2,5) k
    by (auto simp: start_sampler_def draw_from_def)
  obtain b s1 where fl: "sample_flush (writes_ok f) s = (b, s1)" by (meson surj_pair)
  have b: "b" using fl u(5) by (auto simp: sample_flush_def split: if_splits)
  then have "sampled s1 = select rows k ds"
    using sample_flush_fields [OF fl] s(5) by (metis append_Nil2)
  then have "finish_sample f stats (int (length rows)) s = Inr (select rows k ds)" for stats
    using s fl b u by (simp add: finish_sample_def)
  moreover have "sample_loop replyType (draw_from ds) (writes_ok f) (second_pass f) ?s = Some (Inr s)"
    using sample_loop_rows [OF u(6)] s(1) by simp
  ultimately show ?thesis
    using u assms(3,4) by (simp add: WriteUniformSample_def Let_def)
qed

text \<open>
  C29: The sample is uniform. Of the possible values of the random generator, the same number leads to each
  sample of the wanted size: with \<open>n\<close> eligible rows and \<open>k\<close> wanted, \<open>k! (n - k)!\<close> of the \<open>n!\<close> draws
  publish any given subsequence of \<open>k\<close> rows.
\<close>

theorem WriteUniformSample_uniform:
  assumes "undisturbed f replyType" "rows = filter (eligible replyType) (delivered (second_pass f))"
    and "rows \<noteq> []" "distinct rows"
    and "int k = FixedBaseSampleSize (int (length rows)) minimum percent"
    and "subseq ys rows" "length ys = k"
  shows "card {ds \<in> draws (length rows). \<exists>stats. WriteUniformSample f minimum percent (draw_from ds) replyType = Some (stats, Inr ys)}
    = fact k * fact (length rows - k)"
proof -
  have "(\<exists>stats. WriteUniformSample f minimum percent (draw_from ds) replyType = Some (stats, Inr ys)) \<longleftrightarrow> select rows k ds = ys"
    if "ds \<in> draws (length rows)" for ds
    using WriteUniformSample_select [OF assms(1-3,5) that] by auto
  then have "{ds \<in> draws (length rows). \<exists>stats. WriteUniformSample f minimum percent (draw_from ds) replyType = Some (stats, Inr ys)}
      = {ds \<in> draws (length rows). select rows (length ys) ds = ys}"
    using assms(7) by blast
  then show ?thesis using select_uniform [OF assms(4,6)] assms(7) by simp
qed

definition demo_row :: "string \<Rightarrow> parsed_row" where
  "demo_row ip = \<lparr>row_IPAddress = ip, row_ReplyType = ''synack''\<rparr>"

definition demo_files :: sample_files where
  "demo_files = \<lparr>opens = True, NumRows = 4, first_pass = [(map demo_row [''a'', ''b'', ''c'', ''d''], AtEOF)], seeks = True,
     creates = True, second_pass = [(map demo_row [''a'', ''b''], MoreRows), (map demo_row [''c'', ''d''], AtEOF)],
     writes_ok = (\<lambda>_. True), closes_ok = True, renames = True\<rparr>"

lemma demo_rows_eligible:
  "map demo_row [''a'', ''b'', ''c'', ''d''] = filter (eligible ''synack'') (delivered (second_pass demo_files))"
  by (simp add: demo_files_def eligible_def demo_row_def)

lemma demo_files_undisturbed: "undisturbed demo_files ''synack''"
  by (simp add: undisturbed_def demo_files_def eligible_def demo_row_def eligible_total_def)

theorem WriteUniformSample_uniform_witness:
  "card {ds \<in> draws (length [''a'', ''b'', ''c'', ''d'']). \<exists>stats. WriteUniformSample demo_files 2 10 (draw_from ds) ''synack''
       = Some (stats, Inr (map demo_row [''b'', ''d'']))} = 4"
proof -
  have "distinct (map demo_row [''a'', ''b'', ''c'', ''d''])"
    "subseq (map demo_row [''b'', ''d'']) (map demo_row [''a'', ''b'', ''c'', ''d''])"
    "int 2 = FixedBaseSampleSize (int (length (map demo_row [''a'', ''b'', ''c'', ''d'']))) 2 10"
    by (simp_all add: demo_row_def FixedBaseSampleSize_ceiling)
  from WriteUniformSample_uniform [OF demo_files_undisturbed demo_rows_eligible _ this(1,3,2)]
  show ?thesis by (simp only: length_map) (simp add: fact_numeral)
qed

end
