(* ===== verification/Ids.thy ===== *)
theory Ids
  imports Types
begin

text \<open>
  \<^verbatim>\<open>internal/paths/id.go\<close>: the name of a measurement, made of payload, port and time, and its reading
  back. The layout \<open>2006-01-02_15-04-05\<close> of the time package is modelled as far as it goes: formatting
  pads with zeros; parsing takes one or two digits for the hour, two for the other fields, four for the
  year, and accepts a fraction after the seconds; values out of range are errors.
\<close>

section \<open>Time stamps\<close>

record timestamp =
  ts_year :: nat
  ts_month :: nat
  ts_day :: nat
  ts_hour :: nat
  ts_minute :: nat
  ts_second :: nat
  ts_nanos :: nat

definition pad :: "nat \<Rightarrow> nat \<Rightarrow> string" where
  "pad width n = (let s = dec_of_nat n in replicate (width - length s) (CHR ''0'') @ s)"

definition format_time :: "timestamp \<Rightarrow> string" where
  "format_time t = pad 4 (ts_year t) @ ''-'' @ pad 2 (ts_month t) @ ''-'' @ pad 2 (ts_day t) @ ''_''
     @ pad 2 (ts_hour t) @ ''-'' @ pad 2 (ts_minute t) @ ''-'' @ pad 2 (ts_second t)"

definition leap_year :: "nat \<Rightarrow> bool" where
  "leap_year y \<longleftrightarrow> y mod 4 = 0 \<and> (y mod 100 \<noteq> 0 \<or> y mod 400 = 0)"

definition days_in :: "nat \<Rightarrow> nat \<Rightarrow> nat" where
  "days_in month year =
     (if month = 2 then (if leap_year year then 29 else 28)
      else if month = 4 \<or> month = 6 \<or> month = 9 \<or> month = 11 then 30 else 31)"

text \<open>\<open>n\<close> digits at the front of the text.\<close>

definition take_digits :: "nat \<Rightarrow> string \<Rightarrow> (nat \<times> string) option" where
  "take_digits n s =
     (if n \<le> length s \<and> list_all is_digit (take n s) then Some (nat_of_dec (take n s), drop n s) else None)"

text \<open>\<open>getnum\<close>: two digits, or one if the field is not fixed.\<close>

definition getnum :: "bool \<Rightarrow> string \<Rightarrow> (nat \<times> string) option" where
  "getnum fixed s =
     (case take_digits 2 s of
        Some r \<Rightarrow> Some r
      | None \<Rightarrow> if fixed then None else take_digits 1 s)"

definition expect :: "char \<Rightarrow> string \<Rightarrow> string option" where
  "expect c s = (case s of [] \<Rightarrow> None | d # ds \<Rightarrow> if d = c then Some ds else None)"

text \<open>A fraction: a point or a comma with at least one digit; nine digits count.\<close>

definition fraction :: "string \<Rightarrow> nat \<times> string" where
  "fraction s =
     (case s of
        c # d # _ \<Rightarrow>
          if (c = CHR ''.'' \<or> c = CHR '','') \<and> is_digit d
          then let ds = takeWhile is_digit (tl s); k = take 9 ds
               in (nat_of_dec k * 10 ^ (9 - length k), dropWhile is_digit (tl s))
          else (0, s)
      | _ \<Rightarrow> (0, s))"

definition in_range :: "nat \<Rightarrow> nat \<Rightarrow> nat \<Rightarrow> nat option" where
  "in_range lo hi n = (if lo \<le> n \<and> n \<le> hi then Some n else None)"

definition parse_time :: "string \<Rightarrow> timestamp option" where
  "parse_time s = do {
     (year, s) \<leftarrow> take_digits 4 s;
     s \<leftarrow> expect (CHR ''-'') s;
     (month, s) \<leftarrow> getnum True s;
     month \<leftarrow> in_range 1 12 month;
     s \<leftarrow> expect (CHR ''-'') s;
     (day, s) \<leftarrow> getnum True s;
     s \<leftarrow> expect (CHR ''_'') s;
     (hour, s) \<leftarrow> getnum False s;
     hour \<leftarrow> in_range 0 23 hour;
     s \<leftarrow> expect (CHR ''-'') s;
     (minute, s) \<leftarrow> getnum True s;
     minute \<leftarrow> in_range 0 59 minute;
     s \<leftarrow> expect (CHR ''-'') s;
     (second, s) \<leftarrow> getnum True s;
     second \<leftarrow> in_range 0 59 second;
     let (nanos, s) = fraction s;
     day \<leftarrow> in_range 1 (days_in month year) day;
     if s \<noteq> [] then None
     else Some \<lparr>ts_year = year, ts_month = month, ts_day = day, ts_hour = hour, ts_minute = minute,
            ts_second = second, ts_nanos = nanos\<rparr>
   }"


section \<open>Measurement identifiers\<close>

definition GetMeasurementID :: "payload_name \<Rightarrow> u16 option \<Rightarrow> timestamp \<Rightarrow> string" where
  "GetMeasurementID payload port t =
     (let extendedPayload = (case port of None \<Rightarrow> payload | Some p \<Rightarrow> payload @ ''-'' @ dec_of_nat (unat p))
      in extendedPayload @ ''_'' @ format_time t)"

datatype id_error = InvalidFormat | InvalidTimestamp | InvalidPort

text \<open>\<open>strconv.ParseUint(s, 10, 16)\<close>.\<close>

definition ParseUint16 :: "string \<Rightarrow> u16 option" where
  "ParseUint16 s =
     (if s \<noteq> [] \<and> list_all is_digit s \<and> nat_of_dec s < 65536 then Some (of_nat (nat_of_dec s)) else None)"

definition split_first :: "char \<Rightarrow> string \<Rightarrow> (string \<times> string) option" where
  "split_first c s =
     (if c \<in> set s then Some (takeWhile (\<lambda>d. d \<noteq> c) s, tl (dropWhile (\<lambda>d. d \<noteq> c) s)) else None)"

definition split_last :: "char \<Rightarrow> string \<Rightarrow> (string \<times> string) option" where
  "split_last c s = map_option (\<lambda>(a, b). (rev b, rev a)) (split_first c (rev s))"

definition ParseMeasurementID :: "string \<Rightarrow> id_error + payload_name \<times> u16 option \<times> timestamp" where
  "ParseMeasurementID measurementID =
     (case split_first (CHR ''_'') measurementID of
        None \<Rightarrow> Inl InvalidFormat
      | Some (extendedPayload, timestampStr) \<Rightarrow>
        (case parse_time timestampStr of
           None \<Rightarrow> Inl InvalidTimestamp
         | Some t \<Rightarrow>
           (case split_last (CHR ''-'') extendedPayload of
              None \<Rightarrow> Inr (extendedPayload, None, t)
            | Some (payloadStr, portStr) \<Rightarrow>
              (case ParseUint16 portStr of
                 None \<Rightarrow> Inl InvalidPort
               | Some port \<Rightarrow> Inr (payloadStr, Some port, t)))))"


section \<open>Round trip\<close>

definition valid_time :: "timestamp \<Rightarrow> bool" where
  "valid_time t \<longleftrightarrow> ts_year t \<le> 9999 \<and> 1 \<le> ts_month t \<and> ts_month t \<le> 12 \<and> 1 \<le> ts_day t
     \<and> ts_day t \<le> days_in (ts_month t) (ts_year t) \<and> ts_hour t \<le> 23 \<and> ts_minute t \<le> 59 \<and> ts_second t \<le> 59
     \<and> ts_nanos t = 0"

lemma length_dec_step: "10 \<le> n \<Longrightarrow> length (dec_of_nat n) = Suc (length (dec_of_nat (n div 10)))"
  by (subst dec_of_nat.simps) simp

lemma length_dec_of_nat:
  "n < 10 \<Longrightarrow> length (dec_of_nat n) = 1"
  "10 \<le> n \<Longrightarrow> n < 100 \<Longrightarrow> length (dec_of_nat n) = 2"
  "100 \<le> n \<Longrightarrow> n < 1000 \<Longrightarrow> length (dec_of_nat n) = 3"
  "1000 \<le> n \<Longrightarrow> n < 10000 \<Longrightarrow> length (dec_of_nat n) = 4"
proof -
  have one: "n < 10 \<Longrightarrow> length (dec_of_nat n) = 1" for n
    by (subst dec_of_nat.simps) simp
  have two: "10 \<le> n \<Longrightarrow> n < 100 \<Longrightarrow> length (dec_of_nat n) = 2" for n
    using length_dec_step [of n] one [of "n div 10"] by simp
  have three: "100 \<le> n \<Longrightarrow> n < 1000 \<Longrightarrow> length (dec_of_nat n) = 3" for n
    using length_dec_step [of n] two [of "n div 10"] by simp
  show "n < 10 \<Longrightarrow> length (dec_of_nat n) = 1" "10 \<le> n \<Longrightarrow> n < 100 \<Longrightarrow> length (dec_of_nat n) = 2"
    "100 \<le> n \<Longrightarrow> n < 1000 \<Longrightarrow> length (dec_of_nat n) = 3" "1000 \<le> n \<Longrightarrow> n < 10000 \<Longrightarrow> length (dec_of_nat n) = 4"
    using one two three length_dec_step [of n] three [of "n div 10"] by simp_all
qed

lemma pad_length: "n < 100 \<Longrightarrow> length (pad 2 n) = 2" "n < 10000 \<Longrightarrow> length (pad 4 n) = 4"
proof -
  show "length (pad 2 n) = 2" if "n < 100"
    using that length_dec_of_nat(1,2) [of n] by (cases "n < 10") (simp_all add: pad_def Let_def)
  show "length (pad 4 n) = 4" if "n < 10000"
    using that length_dec_of_nat [of n]
    by (cases "n < 10"; cases "n < 100"; cases "n < 1000") (simp_all add: pad_def Let_def)
qed

lemma zero_digit: "is_digit (CHR ''0'')"
  by (simp add: is_digit_def)

lemma pad_digits: "list_all is_digit (pad w n)"
  using dec_of_nat_digits by (auto simp: pad_def Let_def list_all_iff zero_digit)

lemma nat_of_dec_zeros: "nat_of_dec (replicate k (CHR ''0'') @ s) = nat_of_dec s"
  by (induction k) (simp_all add: nat_of_dec_def)

lemma pad_value [simp]: "nat_of_dec (pad w n) = n"
  by (simp add: pad_def Let_def nat_of_dec_zeros)

lemma take_pad: "n < 100 \<Longrightarrow> take_digits 2 (pad 2 n @ s) = Some (n, s)"
  and take_pad4: "n < 10000 \<Longrightarrow> take_digits 4 (pad 4 n @ s) = Some (n, s)"
  using pad_digits by (simp_all add: take_digits_def pad_length)

lemma getnum_pad: "n < 100 \<Longrightarrow> getnum b (pad 2 n @ s) = Some (n, s)"
  by (simp add: getnum_def take_pad)

lemma days_bound: "days_in m y < 100"
  by (simp add: days_in_def)

lemma parse_format_time: "valid_time t \<Longrightarrow> parse_time (format_time t) = Some t"
proof -
  assume v: "valid_time t"
  have d: "ts_day t < 100" using v days_bound [of "ts_month t" "ts_year t"] by (simp add: valid_time_def)
  have last: "getnum b (pad 2 n) = Some (n, [])" if "n < 100" for b n
    using getnum_pad [OF that, of b "[]"] by simp
  show ?thesis
    using v d by (simp add: parse_time_def format_time_def valid_time_def take_pad4 getnum_pad last expect_def in_range_def
        fraction_def)
qed

lemma split_first_append: "c \<notin> set s \<Longrightarrow> split_first c (s @ c # r) = Some (s, r)"
proof -
  assume c: "c \<notin> set s"
  have "takeWhile (\<lambda>d. d \<noteq> c) (s @ c # r) = s" "dropWhile (\<lambda>d. d \<noteq> c) (s @ c # r) = c # r"
    using c by (induction s) auto
  then show ?thesis by (simp add: split_first_def)
qed

lemma split_last_append: "c \<notin> set r \<Longrightarrow> split_last c (s @ c # r) = Some (s, r)"
  using split_first_append [of c "rev r" "rev s"] by (simp add: split_last_def)

lemma split_last_none: "c \<notin> set s \<Longrightarrow> split_last c s = None"
  by (simp add: split_last_def split_first_def)

lemma ParseUint16_dec [simp]: "ParseUint16 (dec_of_nat (unat p)) = Some p"
  using dec_of_nat_digits by (auto simp: ParseUint16_def list_all_iff)

lemma underscore_not_digit: "\<not> is_digit (CHR ''_'')"
  by (simp add: is_digit_def)

lemma ParseMeasurementID_Get:
  assumes "CHR ''_'' \<notin> set payload" "port = None \<longrightarrow> CHR ''-'' \<notin> set payload" "valid_time t"
  shows "ParseMeasurementID (GetMeasurementID payload port t) = Inr (payload, port, t)"
proof (cases port)
  case None
  then show ?thesis
    using assms split_first_append [OF assms(1), of "format_time t"]
    by (simp add: ParseMeasurementID_def GetMeasurementID_def parse_format_time split_last_none)
next
  case (Some p)
  let ?e = "payload @ CHR ''-'' # dec_of_nat (unat p)"
  have "CHR ''_'' \<notin> set ?e"
    using assms(1) not_digit_notin_dec [OF underscore_not_digit] by simp
  from split_first_append [OF this, of "format_time t"] show ?thesis
    using Some assms(3) split_last_append [OF not_digit_notin_dec [OF minus_not_digit]]
    by (simp add: ParseMeasurementID_def GetMeasurementID_def parse_format_time)
qed

text \<open>
  A measurement's name can be read back. For every payload name without underscore (and, if there is
  no port, without dash, so that the last dash is the one before the port), every port and every
  calendar time with whole seconds, parsing the generated identifier gives back exactly these.
\<close>

theorem measurement_id_roundtrip:
  assumes "CHR ''_'' \<notin> set payload" "port = None \<longrightarrow> CHR ''-'' \<notin> set payload" "valid_time t"
  shows "ParseMeasurementID (GetMeasurementID payload port t) = Inr (payload, port, t)"
  using ParseMeasurementID_Get [OF assms] .

definition demo_time :: timestamp where
  "demo_time = \<lparr>ts_year = 2024, ts_month = 2, ts_day = 29, ts_hour = 7, ts_minute = 5, ts_second = 59, ts_nanos = 0\<rparr>"

theorem measurement_id_roundtrip_witness:
  "ParseMeasurementID (GetMeasurementID PayloadUDPDNS (Some 53) demo_time) = Inr (PayloadUDPDNS, Some 53, demo_time)"
  by (rule measurement_id_roundtrip) (simp_all add: payload_name_defs demo_time_def valid_time_def days_in_def leap_year_def)

end
