(* ===== verification/Config.thy ===== *)
theory Config
  imports Ids Measurement
begin

text \<open>
  \<^verbatim>\<open>internal/config\<close>: validation of the configurations of the three measurements and the argument vector
  \<^verbatim>\<open>zmap/runner.go\<close> builds from one of them. What the host answers (interfaces, sockets, files) and what
  \<open>net.ParseIP\<close> and \<open>filepath\<close> compute is the parameter \<open>host\<close>. An error is its message, without the text of
  a wrapped library error, the quotes of \<open>%q\<close> and the list of file patterns. Durations are nanoseconds, the reply rate is a
  rational number (a float that is not a number is out of scope).
\<close>

section \<open>The host\<close>

datatype file_stat = FileMissing | StatFails | FileMode bool bool

record host =
  parse_ip :: "string \<Rightarrow> nat list option"
  interface_by_name :: "string \<Rightarrow> (bool \<times> nat list list option) option"
  listen_close :: "bool \<Rightarrow> nat list \<Rightarrow> bool \<times> bool"
  file_stat :: "string \<Rightarrow> file_stat"
  base_name :: "string \<Rightarrow> string"
  abs_path :: "string \<Rightarrow> string option"
  zmap_path :: "string \<Rightarrow> string"

type_synonym config_error = string

definition check :: "bool \<Rightarrow> config_error \<Rightarrow> config_error option \<Rightarrow> config_error option" where
  "check bad message rest = (if bad then Some message else rest)"

lemma check_None [simp]: "check b m r = None \<longleftrightarrow> \<not> b \<and> r = None"
  by (simp add: check_def)

text \<open>\<open>validateInterface\<close>: both permission checks open and close a raw socket.\<close>

definition socket_check :: "host \<Rightarrow> string \<Rightarrow> bool \<Rightarrow> nat list \<Rightarrow> config_error option" where
  "socket_check h path send ip =
     (let (listens, closes) = listen_close h send ip; kind = (if send then '' send'' else '' receive'') in
      check (\<not> listens) (path @ kind @ '' access check failed'')
     (check (\<not> closes) (path @ '' close'' @ kind @ '' socket'') None))"

definition validateInterface ::
  "host \<Rightarrow> string \<Rightarrow> string \<Rightarrow> string \<Rightarrow> bool \<Rightarrow> bool \<Rightarrow> config_error option" where
  "validateInterface h name ip path requireSend requireReceive =
     check (name = []) (path @ ''.name must not be empty'')
    (check (ip = []) (path @ ''.ip must not be empty'')
    (case parse_ip h ip of
       None \<Rightarrow> Some (path @ ''.ip is not a valid IP address'')
     | Some parsed \<Rightarrow>
       (case interface_by_name h name of
          None \<Rightarrow> Some (path @ ''.name interface does not exist'')
        | Some (up, addrs) \<Rightarrow>
          check (\<not> up) (path @ ''.name interface is down'')
         (case addrs of
            None \<Rightarrow> Some (''get addresses for '' @ path @ ''.name'')
          | Some addrs \<Rightarrow>
            check (parsed \<notin> set addrs) (path @ ''.ip is not assigned to interface '' @ name)
           (case (if requireSend then socket_check h path True parsed else None) of
              Some e \<Rightarrow> Some e
            | None \<Rightarrow> if requireReceive then socket_check h path False parsed else None)))))"

definition A_interface :: "interface_pair \<Rightarrow> string \<times> string" where
  "A_interface p = (if_name p, IPA p)"

definition B_interface :: "interface_pair \<Rightarrow> string \<times> string" where
  "B_interface p = (if_name p, IPB p)"

text \<open>\<open>IsFile\<close>; the patterns in use have \<open>*\<close> as their only special character.\<close>

fun glob :: "string \<Rightarrow> string \<Rightarrow> bool" where
  "glob [] s = (s = [])"
| "glob (p # ps) [] = (p = CHR ''*'' \<and> glob ps [])"
| "glob (p # ps) (c # cs) =
     (if p = CHR ''*'' then glob ps (c # cs) \<or> (c \<noteq> CHR ''/'' \<and> glob (p # ps) cs) else p = c \<and> glob ps cs)"

definition IsFile :: "host \<Rightarrow> string \<Rightarrow> string \<Rightarrow> string list \<Rightarrow> config_error option" where
  "IsFile h path field patterns =
     (case file_stat h path of
        FileMissing \<Rightarrow> Some (field @ '': file does not exist: '' @ path)
      | StatFails \<Rightarrow> Some (field @ '': cannot stat '' @ path)
      | FileMode regular executable \<Rightarrow>
          check (\<not> regular) (field @ '': not a regular file: '' @ path)
         (if patterns = [] then check (\<not> executable) (field @ '': file is not executable: '' @ path) None
          else check (\<not> list_ex (\<lambda>p. glob p (base_name h path)) patterns)
                 (field @ '': file '' @ base_name h path @ '' does not match any allowed pattern'') None))"


section \<open>Memory, upload and analysis workflow\<close>

definition MinGoMemoryLimitBytes :: u64 where "MinGoMemoryLimitBytes = push_bit 20 64"

definition validateGoMemoryLimit :: "u64 option \<Rightarrow> config_error option" where
  "validateGoMemoryLimit v =
     (case v of
        None \<Rightarrow> None
      | Some x \<Rightarrow>
          check (x < MinGoMemoryLimitBytes) ''go_memory_limit must be at least 64M (or null for the built-in default)'' None)"

definition GoMemoryLimitOrDefault :: "u64 option \<Rightarrow> int \<Rightarrow> int" where
  "GoMemoryLimitOrDefault v d = (case v of None \<Rightarrow> d | Some x \<Rightarrow> sint x)"

definition validateUpload :: "upload_config \<Rightarrow> config_error option" where
  "validateUpload c =
     (if UploadEnable c then check (S3Destination c = []) ''s3_destination must be set'' None
      else check (DeleteLocal c) ''delete_local must be false if enable_upload is false'' None)"

abbreviation seconds_ns :: "int \<Rightarrow> int" where "seconds_ns n \<equiv> n * 1000000000"

definition validateAnalysisWorkflow :: "ipid_config \<Rightarrow> config_error option" where
  "validateAnalysisWorkflow c =
     (let w = AnalysisWorkflowConfig c in
      if \<not> WorkflowEnable w then None
      else
        check (\<not> (take 5 (S3Prefix w) = ''s3://'' \<and> drop 5 (S3Prefix w) \<noteq> []))
          ''analysis_workflow.s3_prefix must be a non-empty s3:// URI''
       (check (PollInterval w < seconds_ns 1 \<or> PollInterval w > seconds_ns 600)
          ''analysis_workflow.poll_interval must be in [1s, 10m]''
       (check (WorkflowTimeout w < PollInterval w \<or> WorkflowTimeout w > seconds_ns 604800)
          ''analysis_workflow.timeout must be in [poll_interval, 168h]''
       (check (\<not> UploadEnable (UploadConfig c)) ''analysis_workflow requires upload.enable=true''
       (check (DeleteLocal (UploadConfig c)) ''analysis_workflow requires upload.delete_local=false''
       (check (ZMapPayload c \<noteq> PayloadICMP \<and> ZMapPayload c \<noteq> PayloadTCP \<and> ZMapPayload c \<noteq> PayloadUDPDNS)
          (''analysis_workflow does not support payload '' @ ZMapPayload c)
       (let validRT = (MeasurementMode c = MeasurementModeRTBased);
            validMass = (MeasurementMode c = MeasurementModeFixedInterval \<and> ConnectionCount c = 4
              \<and> RequestsPerConnection c = 25) in
        check (\<not> validRT \<and> \<not> validMass)
          ''analysis_workflow is only valid for rt-based or 4x25 fixed-interval Mass measurements''
       (check (ZMapPayload c = PayloadTCP \<and> EstablishConnection (TCPConfig c))
          ''analysis_workflow requires stateless TCP'' None))))))))"


section \<open>TCP flags\<close>

text \<open>\<open>string(s[i])\<close> of a byte: the UTF-8 encoding of the code point with its number.\<close>

definition byte_string :: "char \<Rightarrow> string" where
  "byte_string c =
     (let n = of_char c :: nat in
      if n < 128 then [c] else [char_of (192 + n div 64), char_of (128 + n mod 64)])"

definition parseTCPFlagSet :: "string \<Rightarrow> flag_set" where
  "parseTCPFlagSet s = foldl (\<lambda>set c. set_add set (byte_string c)) (set_new []) s"

definition formatTCPFlagSet :: "flag_set \<Rightarrow> string" where
  "formatTCPFlagSet flags = filter (\<lambda>c. set_contains flags [c]) ''FSRPAUECN''"

definition formatTCPFlagSets :: "flag_set list \<Rightarrow> string list" where
  "formatTCPFlagSets flagSets = map formatTCPFlagSet flagSets"

record raw_tcp_config =
  raw_EstablishConnection :: bool
  raw_RequestFlags :: string
  raw_ReplyFlags :: "string list"

definition UnmarshalTCP :: "raw_tcp_config \<Rightarrow> tcp_config \<Rightarrow> tcp_config" where
  "UnmarshalTCP raw c =
     (let c = c\<lparr>EstablishConnection := raw_EstablishConnection raw\<rparr>;
          c = (if raw_RequestFlags raw \<noteq> [] then c\<lparr>RequestFlags := parseTCPFlagSet (raw_RequestFlags raw)\<rparr> else c)
      in if raw_ReplyFlags raw \<noteq> [] then c\<lparr>ReplyFlags := map parseTCPFlagSet (raw_ReplyFlags raw)\<rparr> else c)"

definition MarshalTCP :: "tcp_config \<Rightarrow> raw_tcp_config" where
  "MarshalTCP c = \<lparr>raw_EstablishConnection = EstablishConnection c, raw_RequestFlags = formatTCPFlagSet (RequestFlags c),
     raw_ReplyFlags = formatTCPFlagSets (ReplyFlags c)\<rparr>"

definition validateTCPFlagSet :: "flag_set \<Rightarrow> bool" where
  "validateTCPFlagSet flags =
     fBall flags (\<lambda>flag. set_contains
       (set_new [TCPFlagFIN, TCPFlagSYN, TCPFlagRST, TCPFlagPSH, TCPFlagACK, TCPFlagURG, TCPFlagECE, TCPFlagCWR,
         TCPFlagNS]) flag)"

lemma parseTCPFlagSet_contains: "set_contains (parseTCPFlagSet s) v \<longleftrightarrow> v \<in> byte_string ` set s"
proof -
  have "set_contains (foldl (\<lambda>set c. set_add set (byte_string c)) S s) v \<longleftrightarrow> v \<in> byte_string ` set s \<or> set_contains S v" for S
    by (induction s arbitrary: S) auto
  then show ?thesis by (simp add: parseTCPFlagSet_def)
qed

lemma canonical_bytes: "list_all (\<lambda>c. byte_string c = [c]) ''FSRPAUECN''"
  by code_simp

lemma canonical_flags:
  "set [TCPFlagFIN, TCPFlagSYN, TCPFlagRST, TCPFlagPSH, TCPFlagACK, TCPFlagURG, TCPFlagECE, TCPFlagCWR, TCPFlagNS]
     \<subseteq> (\<lambda>c. [c]) ` set ''FSRPAUECN''"
  by (simp add: tcp_flag_defs)

lemma parse_format_flags:
  assumes "validateTCPFlagSet flags"
  shows "parseTCPFlagSet (formatTCPFlagSet flags) = flags"
proof -
  have "v \<in> byte_string ` set (formatTCPFlagSet flags) \<longleftrightarrow> v |\<in>| flags" for v
  proof
    assume "v \<in> byte_string ` set (formatTCPFlagSet flags)"
    then obtain c where "c \<in> set ''FSRPAUECN''" "set_contains flags [c]" "v = byte_string c"
      unfolding formatTCPFlagSet_def set_filter by blast
    then show "v |\<in>| flags"
      using canonical_bytes unfolding list_all_iff set_contains_def by fastforce
  next
    assume v: "v |\<in>| flags"
    then have "v \<in> (\<lambda>c. [c]) ` set ''FSRPAUECN''"
      using assms canonical_flags unfolding validateTCPFlagSet_def set_contains_new by blast
    then obtain c where c: "c \<in> set ''FSRPAUECN''" "v = [c]" by blast
    then have "c \<in> set (formatTCPFlagSet flags)" "byte_string c = v"
      using v canonical_bytes unfolding formatTCPFlagSet_def set_filter set_contains_def list_all_iff by blast+
    then show "v \<in> byte_string ` set (formatTCPFlagSet flags)" by blast
  qed
  then have "v |\<in>| parseTCPFlagSet (formatTCPFlagSet flags) \<longleftrightarrow> v |\<in>| flags" for v
    using parseTCPFlagSet_contains [of "formatTCPFlagSet flags" v] by (simp add: set_contains_def)
  then show ?thesis by (rule fset_eqI)
qed


section \<open>The ZMap reference\<close>

record zmap_reference =
  ZMapID :: string
  TargetFile :: string

definition ValidateAndParseZMap ::
  "host \<Rightarrow> zmap_reference \<Rightarrow> config_error + (payload_name \<times> u16 option \<times> timestamp) \<times> string" where
  "ValidateAndParseZMap h r =
     (case ParseMeasurementID (ZMapID r) of
        Inl InvalidFormat \<Rightarrow> Inl ''invalid measurement id format''
      | Inl InvalidTimestamp \<Rightarrow> Inl ''invalid timestamp''
      | Inl InvalidPort \<Rightarrow> Inl ''invalid port''
      | Inr parsed \<Rightarrow>
          if TargetFile r = [] then Inr (parsed, zmap_path h (ZMapID r))
          else (case abs_path h (TargetFile r) of
                  None \<Rightarrow> Inl ''resolve target_file''
                | Some targetFile \<Rightarrow>
                    (case IsFile h targetFile ''target_file'' [''*.pq''] of
                       Some e \<Rightarrow> Inl e
                     | None \<Rightarrow> Inr (parsed, targetFile))))"


section \<open>The IPID configuration\<close>

definition speed_check :: "u64 option \<Rightarrow> u64 option \<Rightarrow> config_error option \<Rightarrow> config_error option" where
  "speed_check bandwidth pps rest =
     check ((bandwidth = None) = (pps = None)) ''set exactly one of bandwidth or packets_per_second''
    (check (case bandwidth of None \<Rightarrow> False | Some b \<Rightarrow> b < 1000 \<or> b > 5000000000) ''bandwidth must be in [1K, 5G]''
    (check (case pps of None \<Rightarrow> False | Some p \<Rightarrow> p < 1 \<or> p > 100000000) ''packets_per_second must be in [1, 100M]'' rest))"

definition both_interfaces :: "host \<Rightarrow> interface_pair \<Rightarrow> config_error option \<Rightarrow> config_error option" where
  "both_interfaces h p rest =
     check (IPA p = IPB p) ''interface.ip_a and interface.ip_b must differ''
    (case validateInterface h (fst (A_interface p)) (snd (A_interface p)) ''interface.ip_a'' True True of
       Some e \<Rightarrow> Some e
     | None \<Rightarrow>
       (case validateInterface h (fst (B_interface p)) (snd (B_interface p)) ''interface.ip_b'' True True of
          Some e \<Rightarrow> Some e
        | None \<Rightarrow> rest))"

fun reply_flags_check :: "flag_set list \<Rightarrow> config_error option \<Rightarrow> config_error option" where
  "reply_flags_check [] rest = rest"
| "reply_flags_check (flags # fs) rest =
     check (fcard flags = 0 \<or> fcard flags > 2) ''tcp.reply_flags item length must be in [1, 2]''
    (check (\<not> validateTCPFlagSet flags) ''invalid tcp.reply_flags'' (reply_flags_check fs rest))"

definition ipid_checks :: "host \<Rightarrow> ipid_config \<Rightarrow> config_error option" where
  "ipid_checks h c =
     (let requestCount = ConnectionCount c * RequestsPerConnection c; fi = FixedIntervalConfig c; tcp = TCPConfig c in
      check (ConnectionCount c < 2 \<or> ConnectionCount c > 16 \<or> ConnectionCount c mod 2 = 1)
        ''connection_count must be even and in [2, 16]''
     (check (RequestsPerConnection c < 1 \<or> RequestsPerConnection c > 100) ''requests_per_connection must be in [1, 100]''
     (check (MeasurementMode c \<noteq> MeasurementModeFixedInterval \<and> MeasurementMode c \<noteq> MeasurementModeRTBased)
        (''invalid measurement_mode: '' @ MeasurementMode c)
     (check (RequestInterval fi < 0 \<or> RequestInterval fi > seconds_ns 10)
        ''fixed_interval.request_interval must be in [0s, 10s]''
     (check (MinimumReplyRate fi < 0 \<or> MinimumReplyRate fi > 1)
        ''fixed_interval.minimum_reply_rate must be in [0.0, 1.0]''
     (check (fcard (RequestFlags tcp) = 0 \<or> fcard (RequestFlags tcp) > 2) ''tcp.request_flags length must be in [1, 2]''
     (check (\<not> validateTCPFlagSet (RequestFlags tcp)) ''invalid tcp.request_flags''
     (check (length (ReplyFlags tcp) = 0 \<or> length (ReplyFlags tcp) > 5) ''tcp.reply_flags length must be in [1, 5]''
     (reply_flags_check (ReplyFlags tcp)
     (check (RequestIPIDs c = []) ''request_ip_ids must not be empty''
     (check (length (RequestIPIDs c) > unat requestCount) (''request_ip_ids length ('' @ dec_of_nat (length (RequestIPIDs c)) @ '') exceeds request_count (''
          @ dec_of_nat (unat requestCount) @ '')'')
     (check (MaximumToleratedRTT c < 1000000 \<or> MaximumToleratedRTT c > seconds_ns 10)
        ''maximum_tolerated_rtt must be in [1ms, 10s]''
     (speed_check (Bandwidth c) (PacketsPerSecond c)
     (check (NumberOfInflightProbes c < 1 \<or> NumberOfInflightProbes c > 1000000)
        ''number_of_inflight_probes must be in [1, 1M]''
     (both_interfaces h (Interfaces c)
     (case validateGoMemoryLimit (GoMemoryLimit c) of
        Some e \<Rightarrow> Some e
      | None \<Rightarrow>
        (case validateUpload (UploadConfig c) of
           Some e \<Rightarrow> Some e
         | None \<Rightarrow> validateAnalysisWorkflow c)))))))))))))))))"

text \<open>The accepted configuration carries what the reference was parsed to; the path of the targets comes with it.\<close>

definition validateIPIDConfig ::
  "host \<Rightarrow> zmap_reference \<Rightarrow> ipid_config \<Rightarrow> config_error + ipid_config \<times> string" where
  "validateIPIDConfig h r c =
     (case ValidateAndParseZMap h r of
        Inl e \<Rightarrow> Inl (''invalid zmap reference: '' @ e)
      | Inr ((payload, port, t), path) \<Rightarrow>
          let c = c\<lparr>ZMapPayload := payload, ZMapPort := port\<rparr> in
          (case ipid_checks h c of Some e \<Rightarrow> Inl e | None \<Rightarrow> Inr (c, path)))"


section \<open>The ZMap configuration\<close>

record zmap_config =
  zc_Payload :: payload_name
  zc_Port :: "u16 option"
  zc_ProbeArgs :: "string option"
  zc_Seed :: "u64 option"
  zc_InterfaceName :: string
  zc_InterfaceIP :: string
  zc_NumberOfTargets :: "u64 option"
  zc_Bandwidth :: "u64 option"
  zc_PacketsPerSecond :: "u64 option"
  zc_SenderThreads :: "u64 option"
  zc_BlacklistFile :: "string option"
  zc_GoMemoryLimit :: "u64 option"
  zc_Upload :: upload_config

definition validateZMapConfig :: "host \<Rightarrow> zmap_config \<Rightarrow> config_error option" where
  "validateZMapConfig h c =
     check (zc_Payload c \<noteq> PayloadICMP \<and> zc_Payload c \<noteq> PayloadTCP \<and> zc_Payload c \<noteq> PayloadUDPDNS)
       (''invalid payload: '' @ zc_Payload c)
    (check (zc_Payload c = PayloadICMP \<and> zc_Port c \<noteq> None) ''port must be nil for ICMP''
    (check (zc_Payload c \<noteq> PayloadICMP \<and> zc_Port c = None) ''port must not be nil''
    (check (zc_Payload c \<noteq> PayloadICMP \<and> zc_Port c = Some 0) ''port must be in [1, 65535]''
    (check (zc_Payload c = PayloadUDPDNS \<and> zc_Port c \<noteq> Some 53) ''udp-dns payload requires port 53''
    (check (zc_Payload c = PayloadUDPDNS \<and> zc_ProbeArgs c = None) ''probe_args cannot be null for the udp-dns payload''
    (check (zc_Payload c = PayloadUDPDNS \<and> zc_ProbeArgs c = Some []) ''probe_args cannot be empty for the udp-dns payload''
    (check (zc_Payload c \<noteq> PayloadUDPDNS \<and> zc_ProbeArgs c \<noteq> None) ''probe_args must be null''
    (case validateInterface h (zc_InterfaceName c) (zc_InterfaceIP c) ''interface'' True True of
       Some e \<Rightarrow> Some e
     | None \<Rightarrow>
       check (case zc_NumberOfTargets c of None \<Rightarrow> False | Some n \<Rightarrow> n < 1 \<or> n > 5000000000)
         ''number_of_target_ip_addresses must be in [1, 5G] or null''
      (speed_check (zc_Bandwidth c) (zc_PacketsPerSecond c)
      (check (case zc_SenderThreads c of None \<Rightarrow> False | Some n \<Rightarrow> n < 1 \<or> n > 1000)
         ''sender_threads must be in [1, 1K] or null''
      (case validateGoMemoryLimit (zc_GoMemoryLimit c) of
         Some e \<Rightarrow> Some e
       | None \<Rightarrow>
         (case (case zc_BlacklistFile c of None \<Rightarrow> None | Some f \<Rightarrow> IsFile h f ''blacklist_file'' [''*.*'']) of
            Some e \<Rightarrow> Some e
          | None \<Rightarrow> validateUpload (zc_Upload c)))))))))))))"

text \<open>\<open>BuildArgs\<close>: \<open>None\<close> is the dereference of a nil port or probe argument.\<close>

definition UsesJSONOutput :: "zmap_config \<Rightarrow> bool" where
  "UsesJSONOutput c \<longleftrightarrow> zc_Payload c = PayloadUDPDNS"

definition outputFilter :: "zmap_config \<Rightarrow> string" where
  "outputFilter c =
     (if zc_Payload c = PayloadTCP then ''classification = synack || classification = rst''
      else ''success = 1 && repeat = 0'')"

definition dedupMethod :: "zmap_config \<Rightarrow> string" where
  "dedupMethod c = (if zc_Payload c = PayloadTCP then ''none'' else ''full'')"

definition flag_value :: "string \<Rightarrow> u64 option \<Rightarrow> string list" where
  "flag_value flag v = (case v of None \<Rightarrow> [] | Some x \<Rightarrow> [flag, dec_of_nat (unat x)])"

definition module_args :: "zmap_config \<Rightarrow> (config_error + string list) option" where
  "module_args c =
     (if zc_Payload c = PayloadICMP then Some (Inr [''-M'', ''icmp_echoscan''])
      else if zc_Payload c = PayloadTCP then do {
        port \<leftarrow> zc_Port c;
        Some (Inr [''-M'', ''tcp_synscan'', ''-p'', dec_of_nat (unat port)])
      }
      else if zc_Payload c = PayloadUDPDNS then do {
        port \<leftarrow> zc_Port c;
        args \<leftarrow> zc_ProbeArgs c;
        Some (Inr [''-M'', ''dns'', ''-p'', dec_of_nat (unat port), ''--probe-args'', args])
      }
      else Some (Inl (''zmap: unsupported payload '' @ zc_Payload c)))"

definition front_args :: "zmap_config \<Rightarrow> string list" where
  "front_args c =
     (let fields = (if zc_Payload c = PayloadTCP then ''saddr,classification'' else ''saddr'');
          outputFormat = (if UsesJSONOutput c then ''json'' else ''csv'')
      in [''-C'', ''/dev/null'', ''-O'', outputFormat, ''-f'', fields, ''--output-filter'', outputFilter c,
            ''--dedup-method'', dedupMethod c] @ flag_value ''--seed'' (zc_Seed c))"

definition back_args :: "zmap_config \<Rightarrow> string list" where
  "back_args c =
     [''-i'', zc_InterfaceName c, ''-S'', zc_InterfaceIP c]
       @ (if zc_Payload c \<noteq> PayloadTCP then flag_value ''-N'' (zc_NumberOfTargets c) else [])
       @ flag_value ''-B'' (zc_Bandwidth c) @ flag_value ''-r'' (zc_PacketsPerSecond c)
       @ flag_value ''-T'' (zc_SenderThreads c)
       @ (case zc_BlacklistFile c of None \<Rightarrow> [] | Some f \<Rightarrow> [''-b'', f])"

definition BuildArgs :: "zmap_config \<Rightarrow> (config_error + string list) option" where
  "BuildArgs c = do {
     m \<leftarrow> module_args c;
     Some (case m of Inl e \<Rightarrow> Inl e | Inr m \<Rightarrow> Inr (front_args c @ m @ back_args c))
   }"


section \<open>The OS configuration\<close>

record os_modules =
  mod_SSH :: bool
  mod_SMB :: bool
  mod_HTTP :: bool
  mod_HTTPS :: bool
  mod_SNMP :: bool
  mod_DNSChaos :: bool

definition HasZGrab2Module :: "os_modules \<Rightarrow> bool" where
  "HasZGrab2Module m \<longleftrightarrow> mod_SSH m \<or> mod_SMB m \<or> mod_HTTP m \<or> mod_HTTPS m"

definition HasDNSChaosModule :: "os_modules \<Rightarrow> bool" where "HasDNSChaosModule m = mod_DNSChaos m"
definition HasSNMPModule :: "os_modules \<Rightarrow> bool" where "HasSNMPModule m = mod_SNMP m"

definition HasModule :: "os_modules \<Rightarrow> bool" where
  "HasModule m \<longleftrightarrow> HasZGrab2Module m \<or> mod_SNMP m \<or> mod_DNSChaos m"

definition validateOSModules :: "os_modules \<Rightarrow> config_error option" where
  "validateOSModules m =
     check (\<not> (mod_SSH m \<and> mod_SMB m \<and> mod_HTTP m \<and> mod_HTTPS m \<and> mod_SNMP m \<and> mod_DNSChaos m))
       ''ssh, smb, http, https, snmp, and dns_chaos must all be enabled'' None"

record os_config =
  oc_Modules :: os_modules
  oc_ZGrab2Senders :: "u64 option"
  oc_DNSChaosWorkers :: "u64 option"
  oc_SNMPWorkers :: "u64 option"
  oc_ConnectTimeout :: int
  oc_ReadTimeout :: int
  oc_DNSChaosTimeout :: int
  oc_SNMPTimeout :: int
  oc_SNMPCommunity :: string
  oc_GoMemoryLimit :: "u64 option"
  oc_Upload :: upload_config

definition workers_check ::
  "u64 option \<Rightarrow> bool \<Rightarrow> config_error \<Rightarrow> config_error \<Rightarrow> config_error option \<Rightarrow> config_error option" where
  "workers_check v needed range_error missing_error rest =
     (case v of
        Some n \<Rightarrow> check (n < 1 \<or> n > 10000) range_error rest
      | None \<Rightarrow> check needed missing_error rest)"

definition timeout_bad :: "int \<Rightarrow> bool" where
  "timeout_bad t \<longleftrightarrow> t < 500000000 \<or> t > seconds_ns 10"

text \<open>The configuration after the fallback of the DNS CHAOS timeout, or the first error.\<close>

definition dns_fallback :: "os_config \<Rightarrow> os_config" where
  "dns_fallback c = (if oc_DNSChaosTimeout c = 0 then c\<lparr>oc_DNSChaosTimeout := oc_ReadTimeout c\<rparr> else c)"

definition os_checks :: "os_config \<Rightarrow> config_error option" where
  "os_checks c =
     (case validateOSModules (oc_Modules c) of
        Some e \<Rightarrow> Some e
      | None \<Rightarrow>
        workers_check (oc_ZGrab2Senders c) (HasZGrab2Module (oc_Modules c)) ''zgrab2_senders must be in [1, 10K]''
          ''zgrab2_senders must be set, if you use zgrab2 modules''
       (workers_check (oc_DNSChaosWorkers c) (HasDNSChaosModule (oc_Modules c)) ''dns_chaos_workers must be in [1, 10K]''
          ''dns_chaos_workers must be set if you use dns_chaos''
       (workers_check (oc_SNMPWorkers c) (HasSNMPModule (oc_Modules c)) ''snmp_workers must be in [1, 10K]''
          ''snmp_workers must be set, if you use snmp modules''
       (check (timeout_bad (oc_ConnectTimeout c)) ''connect_timeout must be in [500ms, 10s]''
       (check (timeout_bad (oc_ReadTimeout c)) ''read_timeout must be in [500ms, 10s]''
       (check (timeout_bad (oc_DNSChaosTimeout (dns_fallback c))) ''dns_chaos_timeout must be in [500ms, 10s]''
       (check (timeout_bad (oc_SNMPTimeout c)) ''snmp_timeout must be in [500ms, 10s]''
       (check (oc_SNMPCommunity c \<noteq> ''public'' \<and> oc_SNMPCommunity c \<noteq> ''private'')
          ''snmp_community must be either public or private''
       (case validateGoMemoryLimit (oc_GoMemoryLimit c) of
          Some e \<Rightarrow> Some e
        | None \<Rightarrow> validateUpload (oc_Upload c))))))))))"

definition validateOSConfig :: "host \<Rightarrow> zmap_reference \<Rightarrow> os_config \<Rightarrow> config_error + os_config" where
  "validateOSConfig h r c =
     (case ValidateAndParseZMap h r of
        Inl e \<Rightarrow> Inl (''invalid zmap reference: '' @ e)
      | Inr _ \<Rightarrow> (case os_checks c of Some e \<Rightarrow> Inl e | None \<Rightarrow> Inr (dns_fallback c)))"


section \<open>Properties\<close>

lemma check_cases: "check b m r = None \<Longrightarrow> \<not> b \<and> r = None"
  by simp




lemma reply_flags_check_None:
  "reply_flags_check fs rest = None \<longleftrightarrow> list_all (\<lambda>f. fcard f \<noteq> 0 \<and> fcard f \<le> 2 \<and> validateTCPFlagSet f) fs \<and> rest = None"
  by (induction fs) auto

lemma ipid_checks_flags:
  assumes "ipid_checks h c = None"
  shows "validateTCPFlagSet (RequestFlags (TCPConfig c))" "list_all validateTCPFlagSet (ReplyFlags (TCPConfig c))"
    "RequestFlags (TCPConfig c) \<noteq> {||}" "ReplyFlags (TCPConfig c) \<noteq> []"
proof -
  note c = assms [unfolded ipid_checks_def Let_def check_None reply_flags_check_None]
  show "validateTCPFlagSet (RequestFlags (TCPConfig c))" using c by blast
  show "RequestFlags (TCPConfig c) \<noteq> {||}" "ReplyFlags (TCPConfig c) \<noteq> []" using c by auto
  show "list_all validateTCPFlagSet (ReplyFlags (TCPConfig c))"
    using c unfolding list_all_iff by blast
qed


text \<open>
  The flags of an accepted configuration survive the snapshot: writing the TCP section to its YAML
  form and reading it back gives the same section, whatever the section held that it is read into.
\<close>

theorem tcp_config_roundtrip:
  assumes "ipid_checks h c = None"
  shows "UnmarshalTCP (MarshalTCP (TCPConfig c)) old = TCPConfig c"
proof -
  note f = ipid_checks_flags [OF assms]
  have "formatTCPFlagSet (RequestFlags (TCPConfig c)) \<noteq> []"
  proof
    assume "formatTCPFlagSet (RequestFlags (TCPConfig c)) = []"
    then have "RequestFlags (TCPConfig c) = parseTCPFlagSet []"
      using parse_format_flags [OF f(1)] by simp
    then show False using f(3) by (simp add: parseTCPFlagSet_def set_new_def)
  qed
  moreover have "map (parseTCPFlagSet \<circ> formatTCPFlagSet) (ReplyFlags (TCPConfig c)) = ReplyFlags (TCPConfig c)"
    using f(2) parse_format_flags by (intro map_idI) (auto simp: list_all_iff)
  ultimately show ?thesis
    using f(4) parse_format_flags [OF f(1)]
    by (simp add: UnmarshalTCP_def MarshalTCP_def formatTCPFlagSets_def Let_def)
qed

text \<open>
  An accepted ZMap configuration always gives a command line: building the arguments dereferences no nil
  port or probe argument and reports no error, and the payload's module is on it, with the port where
  the module has one.
\<close>

theorem validated_args:
  assumes "validateZMapConfig h c = None"
  shows "\<exists>m before after. module_args c = Some (Inr m) \<and> BuildArgs c = Some (Inr (before @ m @ after))
    \<and> (if zc_Payload c = PayloadICMP then m = [''-M'', ''icmp_echoscan'']
       else \<exists>port. zc_Port c = Some port \<and> port \<noteq> 0 \<and> dec_of_nat (unat port) \<in> set m)"
proof -
  note c = assms [unfolded validateZMapConfig_def check_None]
  obtain m where m: "module_args c = Some (Inr m)"
    "if zc_Payload c = PayloadICMP then m = [''-M'', ''icmp_echoscan'']
     else \<exists>port. zc_Port c = Some port \<and> port \<noteq> 0 \<and> dec_of_nat (unat port) \<in> set m"
    using c by (cases "zc_Port c"; cases "zc_ProbeArgs c") (auto simp: module_args_def)
  then have "BuildArgs c = Some (Inr (front_args c @ m @ back_args c))"
    by (simp add: BuildArgs_def)
  with m show ?thesis by blast
qed

lemma dns_fallback_fields:
  "oc_Modules (dns_fallback c) = oc_Modules c" "oc_ZGrab2Senders (dns_fallback c) = oc_ZGrab2Senders c"
  "oc_DNSChaosWorkers (dns_fallback c) = oc_DNSChaosWorkers c" "oc_SNMPWorkers (dns_fallback c) = oc_SNMPWorkers c"
  "oc_ConnectTimeout (dns_fallback c) = oc_ConnectTimeout c" "oc_ReadTimeout (dns_fallback c) = oc_ReadTimeout c"
  "oc_SNMPTimeout (dns_fallback c) = oc_SNMPTimeout c" "oc_SNMPCommunity (dns_fallback c) = oc_SNMPCommunity c"
  "oc_GoMemoryLimit (dns_fallback c) = oc_GoMemoryLimit c" "oc_Upload (dns_fallback c) = oc_Upload c"
  by (simp_all add: dns_fallback_def)

lemma os_config_stable:
  assumes "validateOSConfig h r c = Inr c'"
  shows "validateOSConfig h r c' = Inr c' \<and> 500000000 \<le> oc_DNSChaosTimeout c'"
proof -
  have c: "os_checks c = None" "c' = dns_fallback c"
    using assms by (auto simp: validateOSConfig_def split: sum.splits option.splits)
  have idem: "dns_fallback (dns_fallback c) = dns_fallback c"
    by (simp add: dns_fallback_def)
  have "os_checks (dns_fallback c) = os_checks c"
    unfolding os_checks_def idem dns_fallback_fields by (rule refl)
  moreover have "\<not> timeout_bad (oc_DNSChaosTimeout (dns_fallback c))"
    using c(1) unfolding os_checks_def
    by (auto simp: workers_check_def validateOSModules_def split: option.splits if_splits)
  ultimately show ?thesis
    using assms c idem by (auto simp: validateOSConfig_def timeout_bad_def split: sum.splits)
qed


section \<open>Concrete instances\<close>

definition demo_host :: host where
  "demo_host = \<lparr>parse_ip = (\<lambda>s. if s = ''192.0.2.1'' then Some [192, 0, 2, 1] else Some [192, 0, 2, 2]),
     interface_by_name = (\<lambda>_. Some (True, Some [[192, 0, 2, 1], [192, 0, 2, 2]])),
     listen_close = (\<lambda>_ _. (True, True)), file_stat = (\<lambda>_. FileMissing), base_name = id, abs_path = Some,
     zmap_path = id\<rparr>"

lemma demo_interface [simp]:
  "name \<noteq> [] \<Longrightarrow> ip \<noteq> [] \<Longrightarrow> validateInterface demo_host name ip p True True = None"
  by (simp add: validateInterface_def demo_host_def socket_check_def check_def)

lemma demo_valid_flags: "validateTCPFlagSet (set_new [TCPFlagSYN])" "validateTCPFlagSet SynAckFlagSet"
  by (simp_all add: validateTCPFlagSet_def set_new_fset_of_list SynAckFlagSet_def fset_of_list_elem set_contains_def)

lemma demo_flag_cards: "fcard (set_new [TCPFlagSYN]) = 1" "fcard SynAckFlagSet = 2"
  by (simp_all add: SynAckFlagSet_def set_new_fset_of_list tcp_flag_defs fcard_finsert_disjoint)

lemma demo_syn_nonempty: "set_new [TCPFlagSYN] \<noteq> {||}" "SynAckFlagSet \<noteq> {||}"
  by (simp_all add: SynAckFlagSet_def set_new_fset_of_list)

lemmas demo_check_defs = ipid_checks_def demo_config_def Let_def demo_valid_flags demo_flag_cards demo_syn_nonempty
  speed_check_def both_interfaces_def A_interface_def B_interface_def validateGoMemoryLimit_def
  validateUpload_def validateAnalysisWorkflow_def check_def

lemma demo_checks: "ipid_checks demo_host demo_config = None"
  by (simp add: demo_check_defs)


lemma demo_time_valid: "valid_time demo_time"
  by (simp add: demo_time_def valid_time_def days_in_def leap_year_def)



theorem tcp_config_roundtrip_witness:
  "UnmarshalTCP (MarshalTCP (TCPConfig demo_config))
     \<lparr>EstablishConnection = True, RequestFlags = {||}, ReplyFlags = []\<rparr> = TCPConfig demo_config"
  by (rule tcp_config_roundtrip [OF demo_checks])

definition demo_zmap_config :: zmap_config where
  "demo_zmap_config = \<lparr>zc_Payload = PayloadUDPDNS, zc_Port = Some 53, zc_ProbeArgs = Some ''A,example.org'', zc_Seed = Some 0,
     zc_InterfaceName = ''eth0'', zc_InterfaceIP = ''192.0.2.1'', zc_NumberOfTargets = Some 1000, zc_Bandwidth = None,
     zc_PacketsPerSecond = Some 10000, zc_SenderThreads = None, zc_BlacklistFile = None, zc_GoMemoryLimit = None,
     zc_Upload = \<lparr>UploadEnable = False, S3Destination = [], DeleteLocal = False\<rparr>\<rparr>"

lemma demo_zmap_valid: "validateZMapConfig demo_host demo_zmap_config = None"
  by (simp add: validateZMapConfig_def demo_zmap_config_def speed_check_def validateGoMemoryLimit_def validateUpload_def)

theorem validated_args_witness:
  "\<exists>m. module_args demo_zmap_config = Some (Inr m) \<and> dec_of_nat 53 \<in> set m"
  using validated_args [OF demo_zmap_valid] by (auto simp: demo_zmap_config_def)

text \<open>
  The validation does not look at the payload name of the reference: a name outside the three known
  ones is accepted, and the set-up then dereferences a nil payload.
\<close>

lemma unknown_payload_accepted:
  "\<exists>c path. validateIPIDConfig demo_host \<lparr>ZMapID = GetMeasurementID ''http'' (Some 80) demo_time, TargetFile = []\<rparr> demo_config
       = Inr (c, path)
     \<and> run_setup c [] Map.empty random ipA ipB = None"
proof -
  let ?r = "\<lparr>ZMapID = GetMeasurementID ''http'' (Some 80) demo_time, TargetFile = []\<rparr>"
  have "ParseMeasurementID (ZMapID ?r) = Inr (''http'', Some 80, demo_time)"
    unfolding zmap_reference.simps by (rule ParseMeasurementID_Get) (simp_all add: demo_time_valid)
  then have "ValidateAndParseZMap demo_host ?r = Inr ((''http'', Some 80, demo_time), ZMapID ?r)"
    by (simp add: ValidateAndParseZMap_def demo_host_def)
  moreover have "ipid_checks demo_host (demo_config\<lparr>ZMapPayload := ''http'', ZMapPort := Some 80\<rparr>) = None"
    by (simp add: demo_check_defs)
  moreover have "payloads ''http'' = None"
    by (simp add: payloads_def payload_name_defs)
  ultimately show ?thesis
    by (auto simp: validateIPIDConfig_def Let_def run_setup_def payload_setup_def IsInterProtocol_def)
qed

end
