(* ===== verification/OsPipeline.thy ===== *)
theory OsPipeline
  imports ZSample Fingerprint
begin

text \<open>
  \<^verbatim>\<open>os/writer.go\<close> and \<^verbatim>\<open>os/pipeline.go\<close>: the batched writer of the fingerprint records and the pipeline that feeds
  the target file to three scanners, joins their results in the merger and writes what it emits. The
  goroutines meet only in channels and in the merger's lock, so a run is given by the order in which the
  scanners' results reach the merger; the outcome of every file, process and parquet operation is a
  parameter.
\<close>

section \<open>Batched writers\<close>

text \<open>
  The contract of a sink that collects rows and writes them in batches: a row that is accepted is
  in the file or in the batch, nothing is lost, doubled or reordered, and a failed write leaves the file alone.
\<close>

locale batch_writer =
  fixes append :: "bool \<Rightarrow> 'r \<Rightarrow> 'w \<Rightarrow> bool \<times> 'w"
    and flush :: "bool \<Rightarrow> 'w \<Rightarrow> bool \<times> 'w"
    and stored :: "'w \<Rightarrow> 'r list"
    and batch :: "'w \<Rightarrow> 'r list"
    and limit :: nat
  assumes append_ok: "append ok r w = (True, w') \<Longrightarrow> stored w' @ batch w' = stored w @ batch w @ [r]"
    and append_bound: "append ok r w = (True, w') \<Longrightarrow> length (batch w) < limit \<Longrightarrow> length (batch w') < limit"
    and append_fail: "append ok r w = (False, w') \<Longrightarrow>
      stored w' = stored w \<and> (batch w' = batch w \<or> batch w' = batch w @ [r])"
    and flush_ok: "flush ok w = (True, w') \<Longrightarrow> stored w' = stored w @ batch w \<and> batch w' = []"
    and flush_fail: "flush ok w = (False, w') \<Longrightarrow> stored w' = stored w"

text \<open>\<open>drainWriter\<close>: after the first failure the remaining records are taken from the channel and dropped.\<close>

fun drainWriter :: "(bool \<Rightarrow> 'r \<Rightarrow> 'w \<Rightarrow> bool \<times> 'w) \<Rightarrow> (bool \<times> 'r) list \<Rightarrow> 'w \<Rightarrow> bool \<times> 'w" where
  "drainWriter appendRecord [] w = (True, w)"
| "drainWriter appendRecord ((ok, r) # xs) w =
     (case appendRecord ok r w of
        (True, w) \<Rightarrow> drainWriter appendRecord xs w
      | (False, w) \<Rightarrow> (False, w))"

context batch_writer
begin

lemma drain_contents:
  "drainWriter append xs w = (True, w') \<Longrightarrow> stored w' @ batch w' = stored w @ batch w @ map snd xs"
proof (induction xs arbitrary: w)
  case (Cons x xs)
  obtain ok r where x: "x = (ok, r)" by (cases x)
  obtain b w1 where w1: "append ok r w = (b, w1)" by (cases "append ok r w")
  then have "b" using Cons.prems x by (cases b) simp_all
  then have "stored w' @ batch w' = stored w1 @ batch w1 @ map snd xs"
    using Cons x w1 by simp
  then show ?case using append_ok [of ok r w w1] w1 \<open>b\<close> x by simp
qed simp

lemma drain_bound:
  "drainWriter append xs w = (True, w') \<Longrightarrow> length (batch w) < limit \<Longrightarrow> length (batch w') < limit"
proof (induction xs arbitrary: w)
  case (Cons x xs)
  then show ?case
    using append_bound by (cases x) (auto split: prod.splits bool.splits)
qed simp

lemma drain_prefix:
  "drainWriter append xs w = (b, w') \<Longrightarrow> prefix (stored w' @ batch w') (stored w @ batch w @ map snd xs)"
proof (induction xs arbitrary: w)
  case Nil
  then show ?case by simp
next
  case (Cons x xs)
  obtain ok r where x: "x = (ok, r)" by (cases x)
  obtain c w1 where w1: "append ok r w = (c, w1)" by (cases "append ok r w")
  show ?case
  proof (cases c)
    case True
    then have "prefix (stored w' @ batch w') (stored w1 @ batch w1 @ map snd xs)"
      using Cons x w1 by simp
    moreover have "stored w1 @ batch w1 @ map snd xs = stored w @ batch w @ map snd (x # xs)"
      using arg_cong [OF append_ok [of ok r w w1], of "\<lambda>ys. ys @ map snd xs"] w1 True x by simp
    ultimately show ?thesis by (simp only: simp_thms)
  next
    case False
    then have "w' = w1" "stored w1 = stored w" "batch w1 = batch w \<or> batch w1 = batch w @ [r]"
      using Cons.prems x w1 append_fail [of ok r w w1] by simp_all
    then show ?thesis using x by (auto simp: prefix_def)
  qed
qed

lemma drain_flush:
  "drainWriter append xs w = (True, w1) \<Longrightarrow> flush ok w1 = (True, w') \<Longrightarrow> stored w' = stored w @ batch w @ map snd xs"
  using drain_contents [of xs w w1] flush_ok [of ok w1 w'] by simp

end

interpretation zmap_file: batch_writer zw_Append zw_flush zw_rows zw_batch ZMapParquetWriteBatchSize
  by unfold_locales (auto simp: zw_Append_def zw_flush_def Let_def split: if_splits)


section \<open>The fingerprint writer\<close>

definition OsParquetWriteBatchSize :: nat where "OsParquetWriteBatchSize = 10000"

record os_writer =
  osw_rows :: "os_record list"
  osw_batch :: "os_record list"
  osw_written :: nat
  osw_closed :: bool

definition osw_new :: os_writer where
  "osw_new = \<lparr>osw_rows = [], osw_batch = [], osw_written = 0, osw_closed = False\<rparr>"

definition osw_flush :: "bool \<Rightarrow> os_writer \<Rightarrow> bool \<times> os_writer" where
  "osw_flush ok w =
     (if osw_batch w = [] then (True, w)
      else if \<not> ok then (False, w)
      else (True, w\<lparr>osw_rows := osw_rows w @ osw_batch w, osw_written := osw_written w + length (osw_batch w),
        osw_batch := []\<rparr>))"

definition osw_Append :: "bool \<Rightarrow> os_record \<Rightarrow> os_writer \<Rightarrow> bool \<times> os_writer" where
  "osw_Append ok r w =
     (if os_IPAddress r = [] \<or> os_Status r = [] then (False, w)
      else let w = w\<lparr>osw_batch := osw_batch w @ [r]\<rparr> in
           if length (osw_batch w) \<ge> OsParquetWriteBatchSize then osw_flush ok w else (True, w))"

definition osw_Close :: "bool \<Rightarrow> bool list \<Rightarrow> os_writer \<Rightarrow> bool \<times> os_writer" where
  "osw_Close ok closes w =
     (if osw_closed w then (True, w)
      else case osw_flush ok (w\<lparr>osw_closed := True\<rparr>) of (flushed, w) \<Rightarrow> (flushed \<and> list_all id closes, w))"

interpretation os_file: batch_writer osw_Append osw_flush osw_rows osw_batch OsParquetWriteBatchSize
  by unfold_locales (auto simp: osw_Append_def osw_flush_def Let_def OsParquetWriteBatchSize_def split: if_splits)

lemma osw_written_drain:
  "drainWriter osw_Append xs w = (b, w') \<Longrightarrow> osw_written w = length (osw_rows w) \<Longrightarrow>
     osw_written w' = length (osw_rows w') \<and> osw_closed w' = osw_closed w"
proof (induction xs arbitrary: w)
  case (Cons x xs)
  obtain ok r where x: "x = (ok, r)" by (cases x)
  obtain c w1 where w1: "osw_Append ok r w = (c, w1)" by (cases "osw_Append ok r w")
  have "osw_written w1 = length (osw_rows w1) \<and> osw_closed w1 = osw_closed w"
    using w1 Cons.prems(2) by (auto simp: osw_Append_def osw_flush_def Let_def split: if_splits)
  then show ?case using Cons x w1 by (cases c) auto
qed simp

lemma osw_Close_ok:
  "osw_Close ok closes w = (True, w') \<Longrightarrow> \<not> osw_closed w \<Longrightarrow> osw_written w = length (osw_rows w) \<Longrightarrow>
     osw_rows w' = osw_rows w @ osw_batch w \<and> osw_written w' = length (osw_rows w')"
  by (auto simp: osw_Close_def osw_flush_def split: if_splits)


section \<open>Feeding the scanners\<close>

record feeding =
  fd_zgrab :: "string list"
  fd_dns :: "string list"
  fd_snmp :: "string list"
  fd_sends :: nat

datatype feed_error = FeedCancelled | FeedReadFailed

text \<open>A send goes through or the context is done; \<open>alive j\<close> tells which for the send numbered \<open>j\<close>.\<close>

definition feed_send :: "(nat \<Rightarrow> bool) \<Rightarrow> (feeding \<Rightarrow> feeding) \<Rightarrow> feeding \<Rightarrow> bool \<times> feeding" where
  "feed_send alive put s =
     (if alive (fd_sends s) then (True, (put s)\<lparr>fd_sends := fd_sends s + 1\<rparr>) else (False, s\<lparr>fd_sends := fd_sends s + 1\<rparr>))"

definition feed_one :: "(nat \<Rightarrow> bool) \<Rightarrow> string \<Rightarrow> feeding \<Rightarrow> bool \<times> feeding" where
  "feed_one alive ip s =
     (case feed_send alive (\<lambda>s. s\<lparr>fd_zgrab := fd_zgrab s @ [ip]\<rparr>) s of
        (False, s) \<Rightarrow> (False, s)
      | (True, s) \<Rightarrow>
          (case feed_send alive (\<lambda>s. s\<lparr>fd_dns := fd_dns s @ [ip]\<rparr>) s of
             (False, s) \<Rightarrow> (False, s)
           | (True, s) \<Rightarrow> feed_send alive (\<lambda>s. s\<lparr>fd_snmp := fd_snmp s @ [ip]\<rparr>) s))"

fun feed_rows :: "(nat \<Rightarrow> bool) \<Rightarrow> parsed_row list \<Rightarrow> feeding \<Rightarrow> bool \<times> feeding" where
  "feed_rows alive [] s = (True, s)"
| "feed_rows alive (r # rs) s =
     (if row_IPAddress r = [] then feed_rows alive rs s
      else case feed_one alive (row_IPAddress r) s of
        (False, s) \<Rightarrow> (False, s)
      | (True, s) \<Rightarrow> feed_rows alive rs s)"

fun feedTargets :: "(nat \<Rightarrow> bool) \<Rightarrow> reads \<Rightarrow> feeding \<Rightarrow> feed_error option \<times> feeding" where
  "feedTargets alive [] s = (None, s)"
| "feedTargets alive ((rows, e) # rs) s =
     (case feed_rows alive rows s of
        (False, s) \<Rightarrow> (Some FeedCancelled, s)
      | (True, s) \<Rightarrow>
          if e = AtEOF then (None, s)
          else if e = ReadError then (Some FeedReadFailed, s)
          else feedTargets alive rs s)"

definition feed_start :: feeding where
  "feed_start = \<lparr>fd_zgrab = [], fd_dns = [], fd_snmp = [], fd_sends = 0\<rparr>"

fun rows_until_end :: "reads \<Rightarrow> parsed_row list" where
  "rows_until_end [] = []"
| "rows_until_end ((rows, e) # rs) = rows @ (if e = MoreRows then rows_until_end rs else [])"

definition addresses :: "parsed_row list \<Rightarrow> string list" where
  "addresses rows = filter (\<lambda>ip. ip \<noteq> []) (map row_IPAddress rows)"

lemma filter_same_length: "length (filter P xs) = length xs \<Longrightarrow> filter P xs = xs"
  by (metis filter_id_conv length_filter_less less_irrefl)

lemma feed_one_ok:
  "feed_one alive ip s = (True, s') \<Longrightarrow>
     fd_zgrab s' = fd_zgrab s @ [ip] \<and> fd_dns s' = fd_dns s @ [ip] \<and> fd_snmp s' = fd_snmp s @ [ip]"
  by (auto simp: feed_one_def feed_send_def split: if_splits)

lemma feed_rows_ok:
  "feed_rows alive rows s = (True, s') \<Longrightarrow>
     fd_zgrab s' = fd_zgrab s @ addresses rows \<and> fd_dns s' = fd_dns s @ addresses rows
     \<and> fd_snmp s' = fd_snmp s @ addresses rows"
proof (induction rows arbitrary: s)
  case (Cons r rs)
  show ?case
  proof (cases "row_IPAddress r = []")
    case True
    then show ?thesis using Cons by (simp add: addresses_def)
  next
    case False
    obtain b s1 where s1: "feed_one alive (row_IPAddress r) s = (b, s1)" by (cases "feed_one alive (row_IPAddress r) s")
    then have "b" using Cons.prems False by (cases b) simp_all
    then show ?thesis
      using Cons.IH [of s1] Cons.prems False s1 feed_one_ok [of alive "row_IPAddress r" s s1] by (simp add: addresses_def)
  qed
qed (simp add: addresses_def)

lemma feedTargets_ok:
  "feedTargets alive reads s = (None, s') \<Longrightarrow>
     fd_zgrab s' = fd_zgrab s @ addresses (rows_until_end reads) \<and> fd_dns s' = fd_dns s @ addresses (rows_until_end reads)
     \<and> fd_snmp s' = fd_snmp s @ addresses (rows_until_end reads)"
proof (induction reads arbitrary: s)
  case (Cons c reads)
  obtain rows e where c: "c = (rows, e)" by (cases c)
  obtain b s1 where s1: "feed_rows alive rows s = (b, s1)" by (cases "feed_rows alive rows s")
  then have "b" using Cons.prems c by (cases b) simp_all
  then show ?case
    using Cons.IH [of s1] Cons.prems c s1 feed_rows_ok [of alive rows s s1]
    by (cases e) (auto simp: addresses_def)
qed (simp add: addresses_def)



section \<open>The pipeline\<close>

datatype os_error = OpenInputFailed | IniFailed | StartFailed | CreateFailed | ObservationsNotCreated
  | ObservationsFailed ow_error | AppendError | ScannerError | FeedError | ContextDone | ScannerExit | CloseError
  | MergerIncomplete nat | TargetsIncomplete nat nat | CoverageNotWritten

text \<open>
  What happens to a run: the operations before the goroutines start, the reads of the target file, which sends
  go through, the results in the order they reach the merger, the writes of both files, and the ends of
  the scanners. \<open>cancelled\<close> is a signal from outside.
\<close>

record os_run =
  run_opens :: bool
  run_numRows :: nat
  run_ini :: bool
  run_starts :: bool
  run_creates :: bool
  run_observing :: bool
  run_creates_observations :: bool
  run_reads :: reads
  run_sends :: "nat \<Rightarrow> bool"
  run_results :: "(string \<times> completion) list"
  run_writes :: "nat \<Rightarrow> bool"
  run_observation_writes :: "nat \<Rightarrow> bool"
  run_scanner_error :: bool
  run_cancelled :: bool
  run_exit_ok :: bool
  run_last_write :: bool
  run_closes :: "bool list"
  run_observation_closes :: "bool \<times> bool \<times> bool"
  run_coverage_ok :: bool

text \<open>The outcomes of the writes paired with what is written.\<close>

definition with_outcomes :: "(nat \<Rightarrow> bool) \<Rightarrow> 'a list \<Rightarrow> (bool \<times> 'a) list" where
  "with_outcomes ok xs = zip (map ok [0..<length xs]) xs"

definition observation_result :: "os_run \<Rightarrow> merger \<Rightarrow> ow_error option \<times> observation_writer" where
  "observation_result r m =
     (case run_observation_closes r of (flushes, closes, file_ok) \<Rightarrow>
        ow_close flushes closes file_ok (run_numRows r) (ow_run (with_outcomes (run_observation_writes r) (mg_observed m)) ow_new))"

text \<open>
  The error the pipeline reports, in the order of its checks. The context is done if it was cancelled from
  outside, by a failing writer, by a scanner error or by the observation writer.
\<close>

definition pipeline_error ::
  "os_run \<Rightarrow> merger \<Rightarrow> feed_error option \<Rightarrow> bool \<Rightarrow> bool \<Rightarrow> os_error option" where
  "pipeline_error r m feeder appended closed =
     (let observation_cancel =
            (run_observing r \<and> ow_cancelled (ow_run (with_outcomes (run_observation_writes r) (mg_observed m)) ow_new));
          done = (run_cancelled r \<or> feeder = Some FeedCancelled \<or> \<not> appended \<or> run_scanner_error r \<or> observation_cancel);
          completed = totalEmitted m + totalDropped m
      in case (if run_observing r then fst (observation_result r m) else None) of
           Some e \<Rightarrow> Some (ObservationsFailed e)
         | None \<Rightarrow>
             if \<not> appended then Some AppendError
             else if run_scanner_error r then Some ScannerError
             else if feeder = Some FeedReadFailed then Some FeedError
             else if done then Some ContextDone
             else if \<not> run_exit_ok r then Some ScannerExit
             else if \<not> closed then Some CloseError
             else if pendingCount m \<noteq> 0 then Some (MergerIncomplete (pendingCount m))
             else if completed \<noteq> run_numRows r then Some (TargetsIncomplete completed (run_numRows r))
             else if \<not> run_coverage_ok r then Some CoverageNotWritten
             else None)"

text \<open>The result: the error, the number returned and the rows of the file. \<open>None\<close>: classification never ends.\<close>

definition setup_error :: "os_run \<Rightarrow> os_error option" where
  "setup_error r =
     (if \<not> run_opens r then Some OpenInputFailed
      else if \<not> run_ini r then Some IniFailed
      else if \<not> run_starts r then Some StartFailed
      else if \<not> run_creates r then Some CreateFailed
      else if run_observing r \<and> \<not> run_creates_observations r then Some ObservationsNotCreated
      else None)"

definition runPipeline :: "(rune \<Rightarrow> bool) \<Rightarrow> os_run \<Rightarrow> (os_error option \<times> nat \<times> os_record list) option" where
  "runPipeline letter r =
     (case setup_error r of
        Some e \<Rightarrow> Some (Some e, 0, [])
      | None \<Rightarrow> do {
        let (feeder, fed) = feedTargets (run_sends r) (run_reads r) feed_start;
        m \<leftarrow> run_merger letter (run_observing r) (run_results r) (newMerger (newCoverageStats (run_numRows r)));
        let (appended, w) = drainWriter osw_Append (with_outcomes (run_writes r) (mg_out m)) osw_new;
        let (closed, w) = osw_Close (run_last_write r) (run_closes r) w;
        Some (pipeline_error r m feeder appended closed, osw_written w, osw_rows w)
      })"

text \<open>
  The scanners report on what they were fed: a result of a scanner for an address belongs to a
  line of its input, and no scanner reports an address twice.
\<close>

fun scanner_input :: "feeding \<Rightarrow> completion \<Rightarrow> string list" where
  "scanner_input fed (ZGrab2Done z) = fd_zgrab fed"
| "scanner_input fed (DNSDone d) = fd_dns fed"
| "scanner_input fed (SNMPDone s) = fd_snmp fed"

definition scanners_honest :: "os_run \<Rightarrow> bool" where
  "scanners_honest r \<longleftrightarrow> distinct (map completion_key (run_results r))
     \<and> list_all (\<lambda>(ip, c). ip \<in> set (scanner_input (snd (feedTargets (run_sends r) (run_reads r) feed_start)) c)) (run_results r)"

lemma map_snd_with_outcomes [simp]: "map snd (with_outcomes ok xs) = xs"
  by (simp add: with_outcomes_def)

lemma known_reported: "complete (known cs ip) \<Longrightarrow> distinct (map completion_key cs) \<Longrightarrow> ip \<in> fst ` set cs"
  using known_membership [of cs ip] by (cases "known cs ip") (force simp: complete_def)



section \<open>Properties\<close>

lemma osw_Close_prefix:
  assumes "drainWriter osw_Append (with_outcomes ok xs) osw_new = (b, w)" "osw_Close ok' closes w = (c, w')"
  shows "prefix (osw_rows w') xs \<and> osw_written w' = length (osw_rows w') \<and> (b \<and> c \<longrightarrow> osw_rows w' = xs)"
proof -
  have w: "prefix (osw_rows w @ osw_batch w) xs" "osw_written w = length (osw_rows w)" "\<not> osw_closed w"
    using os_file.drain_prefix [OF assms(1)] osw_written_drain [OF assms(1)] by (simp_all add: osw_new_def)
  have all: "osw_rows w @ osw_batch w = xs" if b
    using os_file.drain_contents [of "with_outcomes ok xs" osw_new w] assms(1) that by (simp add: osw_new_def)
  have cl: "(osw_rows w' = osw_rows w @ osw_batch w \<or> (osw_rows w' = osw_rows w \<and> \<not> c)) \<and> osw_written w' = length (osw_rows w')"
    using assms(2) w by (auto simp: osw_Close_def osw_flush_def split: if_splits)
  then show ?thesis using w(1) all by (auto dest: append_prefixD)
qed

lemma pipeline_error_None:
  assumes "pipeline_error r m feeder appended closed = None"
  shows "feeder = None" "appended" "closed" "pendingCount m = 0" "totalEmitted m + totalDropped m = run_numRows r"
proof -
  show "feeder = None"
    using assms by (cases feeder rule: option.exhaust; cases "the feeder")
      (auto simp: pipeline_error_def Let_def split: option.splits if_splits)
  show "appended" "closed" "pendingCount m = 0" "totalEmitted m + totalDropped m = run_numRows r"
    using assms by (auto simp: pipeline_error_def Let_def split: option.splits if_splits)
qed

text \<open>What every run does that gets past its set-up.\<close>

lemma runPipeline_runs:
  assumes "distinct (map completion_key (run_results r))"
  shows "(\<exists>e. runPipeline letter r = Some (Some e, 0, []))
    \<or> (\<exists>m feeder fed appended closed rows.
          feedTargets (run_sends r) (run_reads r) feed_start = (feeder, fed) \<and> merger_inv letter (run_results r) m
          \<and> runPipeline letter r = Some (pipeline_error r m feeder appended closed, length rows, rows)
          \<and> prefix rows (mg_out m) \<and> (appended \<and> closed \<longrightarrow> rows = mg_out m))"
proof -
  obtain m where m: "run_merger letter (run_observing r) (run_results r) (newMerger (newCoverageStats (run_numRows r))) = Some m"
    "merger_inv letter (run_results r) m"
    using run_merger_from_start [OF assms] by blast
  obtain feeder fed where f: "feedTargets (run_sends r) (run_reads r) feed_start = (feeder, fed)" by (meson surj_pair)
  obtain appended w where a: "drainWriter osw_Append (with_outcomes (run_writes r) (mg_out m)) osw_new = (appended, w)" by (meson surj_pair)
  obtain closed w' where c: "osw_Close (run_last_write r) (run_closes r) w = (closed, w')" by (meson surj_pair)
  note p = osw_Close_prefix [OF a c]
  show ?thesis
  proof (cases "setup_error r")
    case None
    then have "runPipeline letter r = Some (pipeline_error r m feeder appended closed, length (osw_rows w'), osw_rows w')"
      using m(1) f a c p by (simp add: runPipeline_def)
    then show ?thesis using f m(2) p by blast
  qed (simp add: runPipeline_def)
qed

lemma runPipeline_succeeds:
  assumes "distinct (map completion_key (run_results r))" "runPipeline letter r = Some (None, n, rows)"
  shows "\<exists>m feeder fed appended closed.
      feedTargets (run_sends r) (run_reads r) feed_start = (feeder, fed) \<and> merger_inv letter (run_results r) m
      \<and> pipeline_error r m feeder appended closed = None \<and> n = length rows \<and> (appended \<and> closed \<longrightarrow> rows = mg_out m)"
  using runPipeline_runs [OF assms(1), of letter]
proof (elim disjE exE conjE)
  fix m feeder fed appended closed rows'
  assume run: "feedTargets (run_sends r) (run_reads r) feed_start = (feeder, fed)" "merger_inv letter (run_results r) m"
    "runPipeline letter r = Some (pipeline_error r m feeder appended closed, length rows', rows')"
    "appended \<and> closed \<longrightarrow> rows' = mg_out m"
  then have "pipeline_error r m feeder appended closed = None" "rows = rows'" "n = length rows" using assms(2) by simp_all
  then show ?thesis using run by blast
qed (use assms(2) in simp)

lemma known_touched:
  "distinct (map completion_key cs) \<Longrightarrow> known cs ip \<noteq> (None, None, None) \<Longrightarrow> ip \<in> fst ` set cs"
  using known_membership [of cs ip] by (cases "known cs ip") (force simp: image_iff)

text \<open>
  C23: A run that reports success has fingerprinted the whole target file. If the scanners report on what
  they were fed, each address once, then after a successful run the addresses of the target file are
  pairwise different and not empty, all three scanners have reported on every one of them, and the
  output file has exactly one row for each target with evidence, which is the classification of its
  three results; the number returned is the number of these rows.
\<close>

theorem runPipeline_complete:
  assumes "scanners_honest r" "run_numRows r = length (rows_until_end (run_reads r))"
    and "runPipeline letter r = Some (None, n, rows)"
  shows "(let ips = map row_IPAddress (rows_until_end (run_reads r)) in
      distinct ips \<and> list_all (\<lambda>ip. ip \<noteq> [] \<and> complete (known (run_results r) ip)) ips
      \<and> set rows = (\<lambda>ip. output_of letter (final_record (run_results r) ip)) ` {ip \<in> set ips. hasEvidence (final_record (run_results r) ip)}
      \<and> distinct (map os_IPAddress rows) \<and> n = length rows)"
proof -
  let ?cs = "run_results r" and ?ips = "map row_IPAddress (rows_until_end (run_reads r))"
  have d: "distinct (map completion_key ?cs)" using assms(1) by (simp add: scanners_honest_def)
  obtain m feeder fed appended closed where run: "feedTargets (run_sends r) (run_reads r) feed_start = (feeder, fed)"
    "merger_inv letter ?cs m" "pipeline_error r m feeder appended closed = None" "n = length rows"
    "appended \<and> closed \<longrightarrow> rows = mg_out m"
    using runPipeline_succeeds [OF d assms(3)] by blast
  note ok = pipeline_error_None [OF run(3)]
  have fed: "fd_zgrab fed = addresses (rows_until_end (run_reads r))" "fd_dns fed = addresses (rows_until_end (run_reads r))"
    "fd_snmp fed = addresses (rows_until_end (run_reads r))"
    using feedTargets_ok [of "run_sends r" "run_reads r" feed_start fed] run(1) ok(1) by (simp_all add: feed_start_def)
  let ?A = "addresses (rows_until_end (run_reads r))" and ?C = "{ip. complete (known ?cs ip)}"
  have rows: "rows = mg_out m" using run(5) ok by blast
  note inv = run(2) [unfolded merger_inv_def]
  have "x \<in> set ?A" if x: "x \<in> fst ` set ?cs" for x
  proof -
    obtain c where "(x, c) \<in> set ?cs" using x by force
    then have "x \<in> set (scanner_input fed c)"
      using assms(1) run(1) by (auto simp: scanners_honest_def list_all_iff)
    then show ?thesis using fed by (cases c) simp_all
  qed
  then have sub: "?C \<subseteq> set ?A" using known_reported [OF _ d] by blast
  have card: "card ?C = length ?ips" using inv ok(5) assms(2) by simp
  have "length ?A \<le> length ?ips" using length_filter_le [of _ ?ips] by (simp add: addresses_def)
  moreover have "card ?C \<le> card (set ?A)" using sub by (simp add: card_mono)
  moreover have "card (set ?A) \<le> length ?A" by (rule card_length)
  ultimately have eq: "length ?A = length ?ips" "card (set ?A) = length ?A" "card ?C = card (set ?A)"
    using card by linarith+
  have A: "?A = ?ips"
    using eq(1) filter_same_length [of _ ?ips] by (simp add: addresses_def)
  have C: "?C = set ?ips" using card_subset_eq [OF _ sub eq(3)] A by simp
  have "distinct ?ips" using eq(2) A card_distinct by metis
  moreover have "list_all (\<lambda>ip. ip \<noteq> [] \<and> complete (known ?cs ip)) ?ips"
  proof -
    have "ip \<noteq> []" if "ip \<in> set ?ips" for ip
    proof -
      have "ip \<in> set ?A" using that A by simp
      then show ?thesis by (simp add: addresses_def)
    qed
    then show ?thesis using C by (auto simp: list_all_iff)
  qed
  moreover have "set rows = (\<lambda>ip. output_of letter (final_record ?cs ip)) ` {ip \<in> set ?ips. hasEvidence (final_record ?cs ip)}"
  proof -
    have "{ip. complete (known ?cs ip) \<and> hasEvidence (final_record ?cs ip)}
        = {ip \<in> set ?ips. hasEvidence (final_record ?cs ip)}"
      using C by blast
    then show ?thesis using inv rows by simp
  qed
  moreover have "distinct (map os_IPAddress rows)" using inv rows by blast
  ultimately show ?thesis using run(4) by (simp add: Let_def)
qed

text \<open>
  A failed run leaves nothing wrong behind. Whatever fails and wherever the run is cancelled, it returns, the
  rows in the file are pairwise different targets, each with the classification of the results of all three
  scanners for it, and the number returned is their number.
\<close>

theorem runPipeline_partial:
  assumes "distinct (map completion_key (run_results r))"
  shows "\<exists>e n rows. runPipeline letter r = Some (e, n, rows) \<and> n = length rows \<and> distinct (map os_IPAddress rows)
    \<and> set rows \<subseteq> (\<lambda>ip. output_of letter (final_record (run_results r) ip)) ` {ip. complete (known (run_results r) ip)}"
  using runPipeline_runs [OF assms, of letter]
proof (elim disjE exE conjE)
  fix m feeder fed appended closed rows
  assume run: "merger_inv letter (run_results r) m" "prefix rows (mg_out m)"
    "runPipeline letter r = Some (pipeline_error r m feeder appended closed, length rows, rows)"
  then obtain zs where zs: "mg_out m = rows @ zs" by (auto simp: prefix_def)
  have "set (mg_out m) \<subseteq> (\<lambda>ip. output_of letter (final_record (run_results r) ip)) ` {ip. complete (known (run_results r) ip)}"
    "distinct (map os_IPAddress (mg_out m))"
    using run(1) unfolding merger_inv_def by blast+
  then show ?thesis using run(3) zs by simp
qed simp


section \<open>Concrete instances\<close>

definition demo_os_run :: os_run where
  "demo_os_run = \<lparr>run_opens = True, run_numRows = 1, run_ini = True, run_starts = True, run_creates = True,
     run_observing = False, run_creates_observations = True,
     run_reads = [([\<lparr>row_IPAddress = ''198.51.100.7'', row_ReplyType = []\<rparr>], AtEOF)], run_sends = (\<lambda>_. True),
     run_results = [(''198.51.100.7'', SNMPDone \<lparr>s_SysDescr = [], s_Responded = False\<rparr>),
       (''198.51.100.7'', ZGrab2Done demo_zgrab2),
       (''198.51.100.7'', DNSDone \<lparr>d_VersionBind = [], d_Responded = False\<rparr>)],
     run_writes = (\<lambda>_. True), run_observation_writes = (\<lambda>_. True), run_scanner_error = False, run_cancelled = False,
     run_exit_ok = True, run_last_write = True, run_closes = [True, True, True],
     run_observation_closes = (True, True, True), run_coverage_ok = True\<rparr>"

lemma demo_os_honest: "scanners_honest demo_os_run"
  by (simp add: scanners_honest_def demo_os_run_def completion_key_def scanner_defs feed_start_def feed_one_def feed_send_def)

theorem runPipeline_partial_witness:
  "\<exists>e n rows. runPipeline (\<lambda>_. False) demo_os_run = Some (e, n, rows) \<and> n = length rows"
proof -
  have d: "distinct (map completion_key (run_results demo_os_run))"
    using demo_os_honest by (simp add: scanners_honest_def)
  show ?thesis using runPipeline_partial [OF d, of "\<lambda>_. False"] by blast
qed

definition os_undisturbed :: "os_run \<Rightarrow> bool" where
  "os_undisturbed r \<longleftrightarrow> run_opens r \<and> run_ini r \<and> run_starts r \<and> run_creates r \<and> \<not> run_observing r
     \<and> list_all (\<lambda>c. snd c \<noteq> ReadError) (run_reads r) \<and> (\<forall>j. run_sends r j) \<and> (\<forall>j. run_writes r j)
     \<and> \<not> run_scanner_error r \<and> \<not> run_cancelled r \<and> run_exit_ok r \<and> run_last_write r \<and> list_all id (run_closes r)
     \<and> run_coverage_ok r"

lemma feed_undisturbed:
  assumes "\<And>j. alive j"
  shows "list_all (\<lambda>c. snd c \<noteq> ReadError) reads \<Longrightarrow> fst (feedTargets alive reads s) = None"
proof (induction reads arbitrary: s)
  case (Cons c reads)
  obtain rows e where c: "c = (rows, e)" by (cases c)
  have "fst (feed_rows alive rows s)"
    using assms by (induction rows arbitrary: s) (auto simp: feed_one_def feed_send_def)
  then obtain s1 where "feed_rows alive rows s = (True, s1)" by (cases "feed_rows alive rows s") auto
  then show ?case using Cons c by (cases e) auto
qed simp

lemma drain_undisturbed:
  "list_all (\<lambda>(ok, x). ok \<and> os_IPAddress x \<noteq> [] \<and> os_Status x \<noteq> []) xs \<Longrightarrow> fst (drainWriter osw_Append xs w)"
  by (induction xs arbitrary: w) (auto simp: osw_Append_def osw_flush_def Let_def split: prod.splits bool.splits)

lemma with_outcomes_all:
  assumes "\<And>j. ok j" "\<And>x. x \<in> set xs \<Longrightarrow> P x"
  shows "list_all (\<lambda>(b, x). b \<and> P x) (with_outcomes ok xs)"
  using assms by (auto simp: list_all_iff with_outcomes_def dest: set_zip_leftD set_zip_rightD)

lemma output_of_fields: "os_IPAddress (output_of letter (record_of ip x)) = ip" "os_Status (output_of letter e) \<noteq> []"
proof -
  show "os_IPAddress (output_of letter (record_of ip x)) = ip"
    by (cases x) (auto simp: output_of_def toOutput_def record_of_def applyZGrab2_def applyDNSChaos_def applySNMP_def
        fresh_record_def split: option.splits)
  show "os_Status (output_of letter e) \<noteq> []"
    by (simp add: output_of_def toOutput_def decision_status statusResolved_def statusAmbiguous_def statusUnclassified_def)
qed

text \<open>
  An undisturbed run succeeds. If no operation fails, the run is not cancelled, the targets are different
  addresses, and each scanner reports once on each address it was fed, then the pipeline reports no error.
\<close>

lemma runPipeline_undisturbed:
  assumes "os_undisturbed r" "scanners_honest r"
    and "run_numRows r = length ips" "ips = map row_IPAddress (rows_until_end (run_reads r))"
    and "distinct ips" "list_all (\<lambda>ip. ip \<noteq> [] \<and> complete (known (run_results r) ip)) ips"
  shows "\<exists>n rows. runPipeline letter r = Some (None, n, rows)"
proof -
  let ?cs = "run_results r"
  have d: "distinct (map completion_key ?cs)" using assms(2) by (simp add: scanners_honest_def)
  obtain m where m: "run_merger letter False ?cs (newMerger (newCoverageStats (run_numRows r))) = Some m" "merger_inv letter ?cs m"
    using run_merger_from_start [OF d] by blast
  note inv = m(2) [unfolded merger_inv_def]
  obtain fed where f: "feedTargets (run_sends r) (run_reads r) feed_start = (None, fed)"
    using feed_undisturbed [of "run_sends r" "run_reads r" feed_start] assms(1)
    by (cases "feedTargets (run_sends r) (run_reads r) feed_start") (auto simp: os_undisturbed_def)
  have A: "addresses (rows_until_end (run_reads r)) = ips"
    using assms(4,6) by (auto simp: addresses_def list_all_iff intro: filter_True)
  have fed: "fd_zgrab fed = ips" "fd_dns fed = ips" "fd_snmp fed = ips"
    using feedTargets_ok [OF f] A by (simp_all add: feed_start_def)
  have in_ips: "ip \<in> set ips" if x: "ip \<in> fst ` set ?cs" for ip
  proof -
    obtain c where "(ip, c) \<in> set ?cs" using x by force
    then have "ip \<in> set (scanner_input fed c)" using assms(2) f by (auto simp: scanners_honest_def list_all_iff)
    then show ?thesis using fed by (cases c) simp_all
  qed
  have C: "{ip. complete (known ?cs ip)} = set ips"
    using in_ips known_reported [OF _ d] assms(6) by (auto simp: list_all_iff)
  have "mg_pendings m ip = None" for ip
  proof (cases "known ?cs ip = (None, None, None)")
    case False
    then have "ip \<in> fst ` set ?cs" using known_touched [OF d] by blast
    then show ?thesis using inv C in_ips by auto
  qed (use inv in simp)
  then have pend: "pendingCount m = 0" by (simp add: pendingCount_def dom_def)
  have total: "totalEmitted m + totalDropped m = run_numRows r"
    using inv C assms(3,5) by (simp add: distinct_card)
  have "os_IPAddress x \<noteq> [] \<and> os_Status x \<noteq> []" if x: "x \<in> set (mg_out m)" for x
  proof -
    have "set (mg_out m) \<subseteq> (\<lambda>ip. output_of letter (final_record ?cs ip)) ` {ip. complete (known ?cs ip)}"
      using inv by blast
    then obtain ip where "ip \<in> set ips" "x = output_of letter (record_of ip (known ?cs ip))"
      using x C by (auto simp: final_record_def)
    then show ?thesis using assms(6) by (auto simp: output_of_fields list_all_iff)
  qed
  then have "list_all (\<lambda>(ok, x). ok \<and> os_IPAddress x \<noteq> [] \<and> os_Status x \<noteq> []) (with_outcomes (run_writes r) (mg_out m))"
    using with_outcomes_all [of "run_writes r" "mg_out m" "\<lambda>x. os_IPAddress x \<noteq> [] \<and> os_Status x \<noteq> []"] assms(1)
    by (simp add: os_undisturbed_def)
  from drain_undisturbed [OF this, of osw_new] obtain w where a: "drainWriter osw_Append (with_outcomes (run_writes r) (mg_out m)) osw_new = (True, w)"
    by (cases "drainWriter osw_Append (with_outcomes (run_writes r) (mg_out m)) osw_new") auto
  have "fst (osw_Close (run_last_write r) (run_closes r) w)"
    using assms(1) by (auto simp: osw_Close_def osw_flush_def os_undisturbed_def)
  then obtain w' where c: "osw_Close (run_last_write r) (run_closes r) w = (True, w')"
    by (cases "osw_Close (run_last_write r) (run_closes r) w") auto
  have "pipeline_error r m None True True = None"
    using assms(1) pend total by (simp add: pipeline_error_def Let_def os_undisturbed_def)
  then show ?thesis
    using assms(1) m(1) f a c by (simp add: runPipeline_def setup_error_def os_undisturbed_def)
qed

lemma demo_os_undisturbed: "os_undisturbed demo_os_run"
  by (simp add: os_undisturbed_def demo_os_run_def)

lemma demo_os_known:
  "known (run_results demo_os_run) ''198.51.100.7'' = (Some demo_zgrab2,
     Some \<lparr>d_VersionBind = [], d_Responded = False\<rparr>, Some \<lparr>s_SysDescr = [], s_Responded = False\<rparr>)"
  by (simp add: known_def demo_os_run_def)

lemma demo_os_ips: "map row_IPAddress (rows_until_end (run_reads demo_os_run)) = [''198.51.100.7'']"
  by (simp add: demo_os_run_def)

lemma demo_os_success:
  "\<exists>n rows. runPipeline (\<lambda>_. False) demo_os_run = Some (None, n, rows)"
  using runPipeline_undisturbed [OF demo_os_undisturbed demo_os_honest _ demo_os_ips [symmetric]]
  by (simp add: demo_os_known complete_def) (simp add: demo_os_run_def)

theorem runPipeline_complete_witness:
  "\<exists>n rows. runPipeline (\<lambda>_. False) demo_os_run = Some (None, n, rows) \<and> n = length rows"
proof -
  obtain n rows where run: "runPipeline (\<lambda>_. False) demo_os_run = Some (None, n, rows)"
    using demo_os_success by blast
  have "run_numRows demo_os_run = length (rows_until_end (run_reads demo_os_run))" by (simp add: demo_os_run_def)
  from runPipeline_complete [OF demo_os_honest this run] run show ?thesis by (simp add: Let_def)
qed

end
