(* ===== verification/Publication.thy ===== *)
theory Publication
  imports Types
begin

text \<open>
  \<^verbatim>\<open>internal/continental/store.go\<close>: publications that are written once to an object store and compared ever
  after. The store is a map from URIs to bytes; every access of a publisher is one atomic action, so that
  publishers can be interleaved. JSON decoding and encoding are parameters.
\<close>

section \<open>The store\<close>

type_synonym store = "string \<rightharpoonup> string"

record 'j json_lib =
  json_decode :: "string \<Rightarrow> 'j option"
  json_marshal :: "'j \<Rightarrow> string"

text \<open>Marshalling what was unmarshalled from a marshalled value gives the same bytes.\<close>

definition json_ok :: "'j json_lib \<Rightarrow> bool" where
  "json_ok J \<longleftrightarrow> (\<forall>v. \<exists>w. json_decode J (json_marshal J v @ [char_of (10 :: nat)]) = Some w \<and> json_marshal J w = json_marshal J v)"

definition Encode :: "'j json_lib \<Rightarrow> 'j \<Rightarrow> string" where
  "Encode J v = json_marshal J v @ [char_of (10 :: nat)]"

definition JSONEqual :: "'j json_lib \<Rightarrow> string \<Rightarrow> string \<Rightarrow> bool" where
  "JSONEqual J a b =
     (case (json_decode J a, json_decode J b) of
        (Some x, Some y) \<Rightarrow> Encode J x = Encode J y
      | _ \<Rightarrow> False)"

text \<open>The prefix without its slashes at the end, and the parts.\<close>

definition trim_slashes :: "string \<Rightarrow> string" where
  "trim_slashes s = rev (dropWhile (\<lambda>c. c = CHR ''/'') (rev s))"

fun join_parts :: "string list \<Rightarrow> string" where
  "join_parts [] = []"
| "join_parts [p] = p"
| "join_parts (p # ps) = p @ ''/'' @ join_parts ps"

definition Join :: "string \<Rightarrow> string list \<Rightarrow> string" where
  "Join prefix parts = trim_slashes prefix @ ''/'' @ join_parts parts"

definition Sites :: "string list" where "Sites = [''eu'', ''as'', ''af'', ''na'', ''sa'', ''au'']"
definition Protocols :: "string list" where "Protocols = [''icmp'', ''tcp'', ''udp-dns'']"

definition id_char :: "char \<Rightarrow> bool" where
  "id_char c = (let n = of_char c :: nat in (65 \<le> n \<and> n \<le> 90) \<or> (97 \<le> n \<and> n \<le> 122) \<or> (48 \<le> n \<and> n \<le> 57))"

definition safeID :: "string \<Rightarrow> bool" where
  "safeID s =
     (case s of
        [] \<Rightarrow> False
      | c # cs \<Rightarrow> id_char c \<and> length cs \<le> 79 \<and> list_all (\<lambda>c. id_char c \<or> c = CHR ''_'' \<or> c = CHR ''-'') cs)"

datatype validate_error = UnsafeCampaign | UnknownSite

definition Validate :: "string \<Rightarrow> string \<Rightarrow> validate_error option" where
  "Validate campaign site =
     (if \<not> safeID campaign then Some UnsafeCampaign
      else if site \<in> set Sites then None else Some UnknownSite)"


section \<open>Immutable publications\<close>

datatype publish_error = ReadFailed | Differs | PutFailed | VerifyReadFailed | VerificationFailed

text \<open>
  Where a publisher stands, and how an access ends: a failed write may or may not have reached the store.
\<close>

datatype publish_pc = AtRead | AtPut | AtVerify | Finished "publish_error option"
datatype access = Works | Fails | FailsAfterEffect

fun publish_act ::
  "'j json_lib \<Rightarrow> string \<Rightarrow> 'j \<Rightarrow> access \<Rightarrow> publish_pc \<times> store \<Rightarrow> publish_pc \<times> store" where
  "publish_act J uri v a (AtRead, s) =
     (if a \<noteq> Works then (Finished (Some ReadFailed), s)
      else case s uri of
        None \<Rightarrow> (AtPut, s)
      | Some old \<Rightarrow> (Finished (if JSONEqual J old (Encode J v) then None else Some Differs), s))"
| "publish_act J uri v a (AtPut, s) =
     (case a of
        Works \<Rightarrow> (AtVerify, s(uri \<mapsto> Encode J v))
      | Fails \<Rightarrow> (Finished (Some PutFailed), s)
      | FailsAfterEffect \<Rightarrow> (Finished (Some PutFailed), s(uri \<mapsto> Encode J v)))"
| "publish_act J uri v a (AtVerify, s) =
     (if a \<noteq> Works then (Finished (Some VerifyReadFailed), s)
      else case s uri of
        None \<Rightarrow> (Finished (Some VerificationFailed), s)
      | Some old \<Rightarrow> (Finished (if JSONEqual J old (Encode J v) then None else Some VerificationFailed), s))"
| "publish_act J uri v a (Finished r, s) = (Finished r, s)"

definition Immutable ::
  "'j json_lib \<Rightarrow> string \<Rightarrow> 'j \<Rightarrow> access \<times> access \<times> access \<Rightarrow> store \<Rightarrow> publish_pc \<times> store" where
  "Immutable J uri v as s =
     (case as of (a, b, c) \<Rightarrow> publish_act J uri v c (publish_act J uri v b (publish_act J uri v a (AtRead, s))))"

lemma JSONEqual_refl: "json_ok J \<Longrightarrow> JSONEqual J (Encode J v) (Encode J v)"
  by (auto simp: json_ok_def JSONEqual_def Encode_def split: option.splits)

text \<open>
  A publication is written at most once. Whatever accesses fail, a publisher running alone returns; it leaves
  an existing object alone; it changes nothing but its own URI, and there only from absent to its value; and if it
  reports success, the object there is equal to its value.
\<close>

lemma Immutable_once:
  "\<exists>r s'. Immutable J uri v as s = (Finished r, s')
    \<and> (s' = s \<or> s uri = None \<and> s' = s(uri \<mapsto> Encode J v))
    \<and> (r = None \<longrightarrow> (\<exists>b. s' uri = Some b \<and> JSONEqual J b (Encode J v)))"
proof -
  obtain a b c where as: "as = (a, b, c)" by (cases as)
  show ?thesis
    by (cases "s uri"; cases a; cases b; cases c) (simp_all add: Immutable_def as)
qed


section \<open>Publishers at the same object\<close>

text \<open>
  Publisher \<open>i\<close> publishes \<open>value i\<close>; all of them at one URI, while the rest of the store stays as it is.
\<close>

record publishing =
  pc_of :: "nat \<Rightarrow> publish_pc"
  the_store :: store

inductive publish_step :: "'j json_lib \<Rightarrow> string \<Rightarrow> (nat \<Rightarrow> 'j) \<Rightarrow> publishing \<Rightarrow> publishing \<Rightarrow> bool" for J uri v where
  act: "publish_act J uri (v i) a (pc_of c i, the_store c) = (pc, s) \<Longrightarrow>
     publish_step J uri v c (c\<lparr>pc_of := (pc_of c)(i := pc), the_store := s\<rparr>)"

inductive_cases publish_stepE: "publish_step J uri v c c'"

inductive publish_reachable :: "'j json_lib \<Rightarrow> string \<Rightarrow> (nat \<Rightarrow> 'j) \<Rightarrow> store \<Rightarrow> publishing \<Rightarrow> bool" for J uri v s where
  start: "publish_reachable J uri v s \<lparr>pc_of = (\<lambda>_. AtRead), the_store = s\<rparr>"
| step: "publish_reachable J uri v s c \<Longrightarrow> publish_step J uri v c c' \<Longrightarrow> publish_reachable J uri v s c'"

lemma reachable_act:
  assumes "publish_reachable J uri v s d" "publish_act J uri (v i) a (pc_of d i, the_store d) = (pc, t)"
    and "d' = d\<lparr>pc_of := (pc_of d)(i := pc), the_store := t\<rparr>"
  shows "publish_reachable J uri v s d'"
  unfolding assms(3)
  by (rule publish_reachable.step [OF assms(1)], rule publish_step.act [of J uri v i a d pc t], rule assms(2))

fun pc_ok :: "'j json_lib \<Rightarrow> string \<Rightarrow> 'j \<Rightarrow> store \<Rightarrow> store \<Rightarrow> publish_pc \<Rightarrow> bool" where
  "pc_ok J uri v s t AtRead = True"
| "pc_ok J uri v s t AtPut = (s uri = None)"
| "pc_ok J uri v s t AtVerify = (s uri = None \<and> t uri \<noteq> None)"
| "pc_ok J uri v s t (Finished None) = (\<exists>b. t uri = Some b \<and> JSONEqual J b (Encode J v))"
| "pc_ok J uri v s t (Finished (Some e)) = (e \<noteq> VerificationFailed)"

definition store_ok :: "'j json_lib \<Rightarrow> string \<Rightarrow> (nat \<Rightarrow> 'j) \<Rightarrow> store \<Rightarrow> store \<Rightarrow> bool" where
  "store_ok J uri v s t \<longleftrightarrow> (\<forall>u. u \<noteq> uri \<or> s u \<noteq> None \<longrightarrow> t u = s u)
     \<and> (s uri = None \<longrightarrow> (\<forall>b. t uri = Some b \<longrightarrow> (\<exists>k. b = Encode J (v k))))"

lemma publish_act_pc:
  assumes "publish_act J uri v a (p, t) = (q, t')" "pc_ok J uri v s t p" "JSONEqual J (Encode J v) (Encode J v)"
    and "s uri = None \<Longrightarrow> \<forall>b. t uri = Some b \<longrightarrow> JSONEqual J b (Encode J v)" "s uri \<noteq> None \<Longrightarrow> t uri = s uri"
  shows "pc_ok J uri v s t' q \<and> (t' = t \<or> s uri = None \<and> t' = t(uri \<mapsto> Encode J v))"
proof (cases p)
  case AtRead
  then show ?thesis using assms by (cases "t uri"; cases "s uri") (auto split: if_splits)
next
  case AtPut
  then show ?thesis using assms by (cases a) auto
next
  case AtVerify
  then show ?thesis using assms by (cases "t uri") (auto split: if_splits)
next
  case (Finished r)
  then show ?thesis using assms by (cases r) auto
qed

lemma pc_ok_put:
  "pc_ok J uri w s t p \<Longrightarrow> JSONEqual J (Encode J v) (Encode J w) \<Longrightarrow> pc_ok J uri w s (t(uri \<mapsto> Encode J v)) p"
  by (cases "(J, uri, w, s, t, p)" rule: pc_ok.cases) auto

definition agreed :: "'j json_lib \<Rightarrow> string \<Rightarrow> (nat \<Rightarrow> 'j) \<Rightarrow> store \<Rightarrow> publishing \<Rightarrow> bool" where
  "agreed J uri v s c \<longleftrightarrow> store_ok J uri v s (the_store c) \<and> (\<forall>i. pc_ok J uri (v i) s (the_store c) (pc_of c i))"

lemma publish_step_agreed:
  assumes "publish_step J uri v c c'" "agreed J uri v s c" "\<And>i j. JSONEqual J (Encode J (v i)) (Encode J (v j))"
  shows "agreed J uri v s c'"
proof -
  obtain i a pc t where st1: "publish_act J uri (v i) a (pc_of c i, the_store c) = (pc, t)"
    and c': "c' = c\<lparr>pc_of := (pc_of c)(i := pc), the_store := t\<rparr>"
    using assms(1) by (rule publish_stepE)
  have st: "store_ok J uri v s (the_store c)" and pcs: "\<And>j. pc_ok J uri (v j) s (the_store c) (pc_of c j)"
    using assms(2) by (simp_all add: agreed_def)
  have "pc_ok J uri (v i) s t pc \<and> (t = the_store c \<or> s uri = None \<and> t = (the_store c)(uri \<mapsto> Encode J (v i)))"
    by (rule publish_act_pc [OF st1 pcs assms(3)]) (use st assms(3) in \<open>auto simp: store_ok_def\<close>)
  then show ?thesis
    using c' st pcs pc_ok_put [OF pcs assms(3)] by (auto simp: agreed_def store_ok_def)
qed

text \<open>
  C39: Publishers of the same value agree. If any number of publishers publish equal values at one URI, then in every
  interleaving of their accesses, whichever of these fail: a publisher that reports success finds the object
  there, equal to its value, and it stays; the final check never fails; an object that existed before is never
  replaced, and nothing else in the store changes.
\<close>

theorem Immutable_agreement:
  assumes "publish_reachable J uri v s c" "\<And>i j. JSONEqual J (Encode J (v i)) (Encode J (v j))"
  shows "(\<forall>i. case pc_of c i of
            Finished None \<Rightarrow> \<exists>b. the_store c uri = Some b \<and> JSONEqual J b (Encode J (v i))
          | Finished (Some e) \<Rightarrow> e \<noteq> VerificationFailed
          | _ \<Rightarrow> True)
    \<and> (\<forall>u. u \<noteq> uri \<or> s u \<noteq> None \<longrightarrow> the_store c u = s u)"
proof -
  have "agreed J uri v s c"
    using assms(1)
  proof induction
    case start
    then show ?case by (simp add: agreed_def store_ok_def)
  qed (rule publish_step_agreed [OF _ _ assms(2)])
  then have "store_ok J uri v s (the_store c)" "\<And>i. pc_ok J uri (v i) s (the_store c) (pc_of c i)"
    by (simp_all add: agreed_def)
  moreover have "case p of Finished None \<Rightarrow> \<exists>b. t uri = Some b \<and> JSONEqual J b (Encode J w)
      | Finished (Some e) \<Rightarrow> e \<noteq> VerificationFailed | _ \<Rightarrow> True" if "pc_ok J uri w s t p" for p t w
    using that by (cases "(J, uri, w, s, t, p)" rule: pc_ok.cases) auto
  ultimately show ?thesis by (simp add: store_ok_def)
qed

text \<open>
  C40: Publishers of different values may both succeed. Reading and writing are two accesses: with nothing at the URI
  yet, two publishers of values that are not equal can both report success, the second having overwritten
  the first.
\<close>

theorem Immutable_race:
  assumes "json_ok J" "s uri = None" "\<not> JSONEqual J (Encode J (v 0)) (Encode J (v 1))"
  shows "\<exists>c. publish_reachable J uri v s c \<and> pc_of c 0 = Finished None \<and> pc_of c 1 = Finished None
    \<and> the_store c uri = Some (Encode J (v 1))"
proof -
  define c0 where "c0 = \<lparr>pc_of = (\<lambda>_. AtRead), the_store = s\<rparr>"
  define c1 where "c1 = c0\<lparr>pc_of := (pc_of c0)(0 := AtPut)\<rparr>"
  define c2 where "c2 = c1\<lparr>pc_of := (pc_of c1)(1 := AtPut)\<rparr>"
  define c3 where "c3 = c2\<lparr>pc_of := (pc_of c2)(0 := AtVerify), the_store := s(uri \<mapsto> Encode J (v 0))\<rparr>"
  define c4 where "c4 = c3\<lparr>pc_of := (pc_of c3)(0 := Finished None)\<rparr>"
  define c5 where "c5 = c4\<lparr>pc_of := (pc_of c4)(1 := AtVerify), the_store := s(uri \<mapsto> Encode J (v 1))\<rparr>"
  define c6 where "c6 = c5\<lparr>pc_of := (pc_of c5)(1 := Finished None)\<rparr>"
  note defs = c0_def c1_def c2_def c3_def c4_def c5_def c6_def
  have R: "publish_reachable J uri v s c0" unfolding c0_def by (rule publish_reachable.start)
  have eq: "JSONEqual J (Encode J x) (Encode J x)" for x by (rule JSONEqual_refl [OF assms(1)])
  have "publish_reachable J uri v s c1" by (rule reachable_act [OF R, of 0 Works AtPut s]) (simp_all add: defs assms(2))
  then have "publish_reachable J uri v s c2" by (rule reachable_act [of _ _ _ _ _ 1 Works AtPut s]) (simp_all add: defs assms(2))
  then have "publish_reachable J uri v s c3" by (rule reachable_act [of _ _ _ _ _ 0 Works AtVerify "s(uri \<mapsto> Encode J (v 0))"]) (simp_all add: defs)
  then have "publish_reachable J uri v s c4" by (rule reachable_act [of _ _ _ _ _ 0 Works "Finished None" "s(uri \<mapsto> Encode J (v 0))"]) (simp_all add: defs eq)
  then have "publish_reachable J uri v s c5" by (rule reachable_act [of _ _ _ _ _ 1 Works AtVerify "s(uri \<mapsto> Encode J (v 1))"]) (simp_all add: defs)
  then have "publish_reachable J uri v s c6" by (rule reachable_act [of _ _ _ _ _ 1 Works "Finished None" "s(uri \<mapsto> Encode J (v 1))"]) (simp_all add: defs eq)
  then show ?thesis by (intro exI [of _ c6]) (simp add: defs)
qed


section \<open>The theorems at work\<close>

text \<open>A string stands for itself; decoding drops the newline at the end.\<close>

definition demo_json :: "string json_lib" where
  "demo_json = \<lparr>json_decode = (\<lambda>s. Some (if s \<noteq> [] \<and> last s = char_of (10 :: nat) then butlast s else s)), json_marshal = (\<lambda>s. s)\<rparr>"

definition demo_values :: "nat \<Rightarrow> string" where
  "demo_values i = (if i = 0 then ''a'' else ''b'')"

lemma demo_json_ok: "json_ok demo_json"
  by (simp add: json_ok_def demo_json_def)

definition demo_published :: publishing where
  "demo_published = \<lparr>pc_of = (\<lambda>_. AtRead)(0 := Finished None, 1 := AtPut), the_store = [''u'' \<mapsto> Encode demo_json ''a'']\<rparr>"

theorem Immutable_agreement_witness:
  "publish_reachable demo_json ''u'' (\<lambda>_. ''a'') (\<lambda>_. None) demo_published
    \<and> (\<exists>b. the_store demo_published ''u'' = Some b \<and> JSONEqual demo_json b (Encode demo_json ''a''))"
proof -
  let ?R = "publish_reachable demo_json ''u'' (\<lambda>_. ''a'') (\<lambda>_. None)"
  have "?R \<lparr>pc_of = (\<lambda>_. AtRead), the_store = (\<lambda>_. None)\<rparr>" by (rule publish_reachable.start)
  then have "?R \<lparr>pc_of = (\<lambda>_. AtRead)(0 := AtPut), the_store = (\<lambda>_. None)\<rparr>"
    by (rule reachable_act [where i = 0 and a = Works]) simp_all
  then have "?R \<lparr>pc_of = (\<lambda>_. AtRead)(0 := AtPut, 1 := AtPut), the_store = (\<lambda>_. None)\<rparr>"
    by (rule reachable_act [where i = 1 and a = Works]) simp_all
  then have "?R \<lparr>pc_of = (\<lambda>_. AtRead)(0 := AtVerify, 1 := AtPut), the_store = [''u'' \<mapsto> Encode demo_json ''a'']\<rparr>"
    by (rule reachable_act [where i = 0 and a = Works]) (simp_all add: fun_upd_twist)
  then have R: "?R demo_published"
    by (rule reachable_act [where i = 0 and a = Works])
       (simp_all add: demo_published_def fun_upd_twist JSONEqual_refl [OF demo_json_ok])
  have "pc_of demo_published 0 = Finished None" by (simp add: demo_published_def)
  then show ?thesis
    using R conjunct1 [OF Immutable_agreement [OF R JSONEqual_refl [OF demo_json_ok]], THEN spec, of 0] by simp
qed

theorem Immutable_race_witness:
  "\<exists>c. publish_reachable demo_json ''u'' demo_values (\<lambda>_. None) c \<and> pc_of c 0 = Finished None \<and> pc_of c 1 = Finished None
    \<and> the_store c ''u'' = Some (Encode demo_json ''b'')"
proof -
  have "\<not> JSONEqual demo_json (Encode demo_json (demo_values 0)) (Encode demo_json (demo_values 1))" by code_simp
  from Immutable_race [OF demo_json_ok _ this, of "\<lambda>_. None" "''u''"] show ?thesis
    by (simp add: demo_values_def [of 1] del: One_nat_def)
qed

end
