(* ===== verification/Codec.thy ===== *)
theory Codec
  imports Prelude
begin

text \<open>
  Encodings of values in strings that can be read back with anything after them. The components take JSON and
  YAML as parameters of which they need only that what was written is read back; the codecs here are
  instances of it, on which their theorems are tried.
\<close>

section \<open>Fields with their length in front\<close>

definition put_field :: "string \<Rightarrow> string" where
  "put_field s = replicate (length s) (CHR ''1'') @ CHR ''0'' # s"

definition get_field :: "string \<Rightarrow> string \<times> string" where
  "get_field s = (let n = length (takeWhile (\<lambda>x. x = CHR ''1'') s); r = drop (Suc n) s in (take n r, drop n r))"

lemma get_put_field [simp]: "get_field (put_field s @ r) = (s, r)"
proof -
  have "takeWhile (\<lambda>x. x = CHR ''1'') (replicate n (CHR ''1'') @ CHR ''0'' # z) = replicate n (CHR ''1'')" for n z
    by (induction n) auto
  then show ?thesis by (simp add: get_field_def put_field_def Let_def)
qed

lemma get_put_last [simp]: "get_field (put_field s) = (s, [])"
  using get_put_field [of s "[]"] by simp


section \<open>Codecs\<close>

type_synonym 'a codec = "('a \<Rightarrow> string) \<times> (string \<Rightarrow> 'a \<times> string)"

definition codec_ok :: "'a codec \<Rightarrow> bool" where
  "codec_ok c \<longleftrightarrow> (\<forall>a r. snd c (fst c a @ r) = (a, r))"

named_theorems codecs

definition string_codec :: "string codec" where
  "string_codec = (put_field, get_field)"

text \<open>A type that is another one in disguise, as a record is a tuple.\<close>

definition map_codec :: "('b \<Rightarrow> 'a) \<Rightarrow> ('a \<Rightarrow> 'b) \<Rightarrow> 'a codec \<Rightarrow> 'b codec" where
  "map_codec to from c = (\<lambda>b. fst c (to b), \<lambda>s. case snd c s of (a, r) \<Rightarrow> (from a, r))"

definition pair_codec :: "'a codec \<Rightarrow> 'b codec \<Rightarrow> ('a \<times> 'b) codec" where
  "pair_codec c d =
     (\<lambda>(a, b). fst c a @ fst d b, \<lambda>s. case snd c s of (a, r) \<Rightarrow> (case snd d r of (b, q) \<Rightarrow> ((a, b), q)))"

fun get_list :: "(string \<Rightarrow> 'a \<times> string) \<Rightarrow> nat \<Rightarrow> string \<Rightarrow> 'a list \<times> string" where
  "get_list get 0 s = ([], s)"
| "get_list get (Suc n) s = (case get s of (a, r) \<Rightarrow> (case get_list get n r of (as, q) \<Rightarrow> (a # as, q)))"

definition list_codec :: "'a codec \<Rightarrow> 'a list codec" where
  "list_codec c =
     (\<lambda>as. put_field (dec_of_nat (length as)) @ concat (map (fst c) as),
      \<lambda>s. case get_field s of (n, r) \<Rightarrow> get_list (snd c) (nat_of_dec n) r)"

definition int_codec :: "int codec" where
  "int_codec = map_codec dec_of_int int_of_dec string_codec"

definition nat_codec :: "nat codec" where
  "nat_codec = map_codec dec_of_nat nat_of_dec string_codec"

definition option_codec :: "'a codec \<Rightarrow> 'a option codec" where
  "option_codec c =
     map_codec (\<lambda>x. case x of None \<Rightarrow> [] | Some a \<Rightarrow> [a]) (\<lambda>as. case as of [] \<Rightarrow> None | a # _ \<Rightarrow> Some a) (list_codec c)"

lemma string_codec_ok [codecs]: "codec_ok string_codec"
  by (simp add: codec_ok_def string_codec_def)

lemma map_codec_ok: "codec_ok c \<Longrightarrow> (\<And>b. from (to b) = b) \<Longrightarrow> codec_ok (map_codec to from c)"
  by (simp add: codec_ok_def map_codec_def)

lemma pair_codec_ok [codecs]: "codec_ok c \<Longrightarrow> codec_ok d \<Longrightarrow> codec_ok (pair_codec c d)"
  by (simp add: codec_ok_def pair_codec_def)

lemma get_list_put: "codec_ok c \<Longrightarrow> get_list (snd c) (length as) (concat (map (fst c) as) @ r) = (as, r)"
  by (induction as) (simp_all add: codec_ok_def)

lemma list_codec_ok [codecs]: "codec_ok c \<Longrightarrow> codec_ok (list_codec c)"
  by (simp add: list_codec_def get_list_put codec_ok_def [of "(_, _)"])

lemma int_codec_ok [codecs]: "codec_ok int_codec"
  unfolding int_codec_def by (rule map_codec_ok [OF string_codec_ok]) simp

lemma nat_codec_ok [codecs]: "codec_ok nat_codec"
  unfolding nat_codec_def by (rule map_codec_ok [OF string_codec_ok]) simp

lemma option_codec_ok [codecs]: "codec_ok c \<Longrightarrow> codec_ok (option_codec c)"
  unfolding option_codec_def by (rule map_codec_ok [OF list_codec_ok]) (auto split: option.split)

text \<open>Encoding and decoding of a whole string.\<close>

definition encode_with :: "'a codec \<Rightarrow> 'a \<Rightarrow> string" where
  "encode_with c = fst c"

definition decode_with :: "'a codec \<Rightarrow> string \<Rightarrow> 'a option" where
  "decode_with c s = Some (fst (snd c s))"

lemma decode_encode_with: "codec_ok c \<Longrightarrow> decode_with c (encode_with c a) = Some a"
  unfolding codec_ok_def decode_with_def encode_with_def by (metis append_Nil2 fst_conv)

end
