(* ===== verification/Campaign.thy ===== *)
theory Campaign
  imports Publication Ids Codec
begin

text \<open>
  The resumable steps of a continental run: \<open>measure\<close> and \<open>committed\<close> of \<^verbatim>\<open>internal/continental/runner.go\<close> and
  \<^verbatim>\<open>internal/continental/cleanup.go\<close>. The state is what survives a crash: the step table of \<^verbatim>\<open>state.json\<close>, the
  measurement directories, the cleanup receipts and the objects in S3. An operation returns its result and
  the durable states it went through, so a crash leaves one of these. Which file operations
  fail, hashing, JSON and the formatting of times are parameters.
\<close>

section \<open>State\<close>

record step =
  sp_ID :: string
  sp_Stamp :: string
  sp_Signature :: string

record file_evidence =
  fe_Size :: nat
  fe_SHA256 :: string

record cleanup_receipt =
  rc_Version :: int
  rc_Binding :: string
  rc_ID :: string
  rc_MarkerSHA256 :: string
  rc_File :: string
  rc_Evidence :: file_evidence

text \<open>The completion marker; its files in the order the loop goes over them.\<close>

record marker =
  mk_Version :: int
  mk_ID :: string
  mk_Files :: "(string \<times> file_evidence) list"

text \<open>
  Directories are named by kind and measurement; what is archived is only kept.
\<close>

record site =
  si_steps :: "(string \<times> step) list"
  si_dirs :: "string \<times> string \<rightharpoonup> (string \<rightharpoonup> string)"
  si_archive :: "((string \<times> string) \<times> (string \<rightharpoonup> string)) list"
  si_receipts :: "string \<rightharpoonup> string"
  si_objects :: store

record campaign =
  cp_RawRoot :: string
  cp_Campaign :: string
  cp_Site :: string
  cp_Protocol :: string
  cp_Binding :: string
  cp_RetryIncomplete :: bool
  cp_RetainLocal :: bool

record library =
  lb_sha :: "string \<Rightarrow> string"
  lb_decode_receipt :: "string \<Rightarrow> cleanup_receipt option"
  lb_encode_receipt :: "cleanup_receipt \<Rightarrow> string"
  lb_decode_marker :: "string \<Rightarrow> marker option"
  lb_encode_args :: "string list \<Rightarrow> string"
  lb_parse_stamp :: "string \<Rightarrow> int option"
  lb_format_stamp :: "int \<Rightarrow> string"
  lb_layout :: "int \<Rightarrow> string"

text \<open>What the code relies on of the JSON and time packages.\<close>

definition library_ok :: "library \<Rightarrow> bool" where
  "library_ok L \<longleftrightarrow> (\<forall>r. lb_decode_receipt L (lb_encode_receipt L r) = Some r)
     \<and> (\<forall>t u. lb_parse_stamp L (lb_format_stamp L t) = Some u \<longrightarrow> u = t)
     \<and> (\<forall>t. \<exists>d h. lb_layout L t = d @ ''_'' @ h \<and> CHR ''_'' \<notin> set d \<and> CHR ''_'' \<notin> set h)
     \<and> (\<forall>t u. lb_layout L t = lb_layout L u \<longrightarrow> t = u)"

datatype operation = ReadReceiptFile | ReadMarker | ReadLocalFile string | ParentInside | RegularFile | WriteReceiptFile
  | SyncDirectory | RemoveFile | StatDirectory | ArchiveDirectory | SaveState

datatype campaign_error = UnsafeID | ReceiptUnreadable | ReceiptUndecodable | MarkerUnreadable | MarkerLost
  | MarkerUndecodable | MarkerInvalid | MarkerOmits string | ReceiptDiffers | UnsafeFile string | LocalUnreadable string
  | LocalDiffers string | CleanupSource | ReceiptNotPersisted | NotRemoved | ParametersChanged string | Uncommitted string
  | DirectoryUnreadable | NotArchived | StampInvalid | StateNotSaved | ToolFailed string | NotDurable string

type_synonym outcomes = "operation \<Rightarrow> bool"

definition rawPrefix :: "campaign \<Rightarrow> string \<Rightarrow> string" where
  "rawPrefix c kind = Join (cp_RawRoot c) [''continental'', cp_Campaign c, cp_Site c, kind]"

definition marker_uri :: "campaign \<Rightarrow> string \<Rightarrow> string \<Rightarrow> string" where
  "marker_uri c kind mid = Join (rawPrefix c kind) [mid, ''measurement-complete.json'']"

definition local_file :: "site \<Rightarrow> string \<Rightarrow> string \<Rightarrow> string \<Rightarrow> string option" where
  "local_file w kind mid name = (case si_dirs w (kind, mid) of None \<Rightarrow> None | Some d \<Rightarrow> d name)"

definition Evidence :: "library \<Rightarrow> string \<Rightarrow> file_evidence" where
  "Evidence L content = \<lparr>fe_Size = length content, fe_SHA256 = lb_sha L content\<rparr>"


section \<open>Cleanup of committed bulk files\<close>

definition has_prefix :: "string \<Rightarrow> string \<Rightarrow> bool" where
  "has_prefix p s \<longleftrightarrow> take (length p) s = p"

definition bulkFile :: "string \<Rightarrow> string" where
  "bulkFile mid = (if has_prefix ''interprotocol-'' mid then ''interprotocol.pq'' else ''ipid.pq'')"

definition unsafe_id :: "string \<Rightarrow> bool" where
  "unsafe_id mid \<longleftrightarrow> mid = [] \<or> mid = ''.'' \<or> mid = ''..'' \<or> CHR ''/'' \<in> set mid \<or> char_of (92 :: nat) \<in> set mid"

definition readCleanupReceipt ::
  "library \<Rightarrow> outcomes \<Rightarrow> site \<Rightarrow> string \<Rightarrow> string \<Rightarrow> campaign_error + cleanup_receipt option" where
  "readCleanupReceipt L ok w kind mid =
     (if kind \<noteq> ''ipid'' then Inr None
      else if unsafe_id mid then Inl UnsafeID
      else if \<not> ok ReadReceiptFile then Inl ReceiptUnreadable
      else case si_receipts w mid of
        None \<Rightarrow> Inr None
      | Some bytes \<Rightarrow> (case lb_decode_receipt L bytes of None \<Rightarrow> Inl ReceiptUndecodable | Some r \<Rightarrow> Inr (Some r)))"

definition validateCleanupReceipt ::
  "library \<Rightarrow> campaign \<Rightarrow> cleanup_receipt \<Rightarrow> string \<Rightarrow> string \<Rightarrow> (string \<times> file_evidence) list \<Rightarrow> bool" where
  "validateCleanupReceipt L c r mid bytes fs =
     (case map_of fs (bulkFile mid) of
        None \<Rightarrow> False
      | Some expected \<Rightarrow>
          rc_Version r = 1 \<and> rc_Binding r = cp_Binding c \<and> rc_ID r = mid \<and> rc_MarkerSHA256 r = lb_sha L bytes
          \<and> rc_File r = bulkFile mid \<and> rc_Evidence r = expected)"

text \<open>\<open>cleanupMeasurement\<close>: the receipt is durable before the file is removed.\<close>

definition new_receipt :: "library \<Rightarrow> campaign \<Rightarrow> string \<Rightarrow> string \<Rightarrow> (string \<times> file_evidence) list \<Rightarrow> cleanup_receipt" where
  "new_receipt L c mid bytes fs =
     \<lparr>rc_Version = 1, rc_Binding = cp_Binding c, rc_ID = mid, rc_MarkerSHA256 = lb_sha L bytes, rc_File = bulkFile mid,
      rc_Evidence = (case map_of fs (bulkFile mid) of None \<Rightarrow> \<lparr>fe_Size = 0, fe_SHA256 = []\<rparr> | Some e \<Rightarrow> e)\<rparr>"

definition write_receipt :: "library \<Rightarrow> string \<Rightarrow> cleanup_receipt \<Rightarrow> site \<Rightarrow> site" where
  "write_receipt L mid r w = w\<lparr>si_receipts := (si_receipts w)(mid \<mapsto> lb_encode_receipt L r)\<rparr>"

definition remove_file :: "string \<Rightarrow> string \<Rightarrow> string \<Rightarrow> site \<Rightarrow> site" where
  "remove_file kind mid name w =
     w\<lparr>si_dirs := (si_dirs w)((kind, mid) := map_option (\<lambda>d. d(name := None)) (si_dirs w (kind, mid)))\<rparr>"

definition cleanupMeasurement ::
  "library \<Rightarrow> campaign \<Rightarrow> outcomes \<Rightarrow> string \<Rightarrow> string \<Rightarrow> string \<Rightarrow> (string \<times> file_evidence) list \<Rightarrow> cleanup_receipt option
     \<Rightarrow> site \<Rightarrow> campaign_error option \<times> site list" where
  "cleanupMeasurement L c ok kind mid bytes fs receipt w =
     (if kind \<noteq> ''ipid'' \<or> cp_Protocol c = [] \<or> cp_RetainLocal c then (None, [])
      else if \<not> ok ParentInside then (Some CleanupSource, [])
      else if local_file w kind mid (bulkFile mid) = None
        then (if receipt = None then Some CleanupSource else None, [])
      else if \<not> ok RegularFile then (Some CleanupSource, [])
      else let r = (case receipt of None \<Rightarrow> new_receipt L c mid bytes fs | Some r \<Rightarrow> r) in
        if unsafe_id mid then (Some UnsafeID, [])
        else if \<not> ok WriteReceiptFile then (Some ReceiptNotPersisted, [])
        else let w1 = write_receipt L mid r w in
          if \<not> ok SyncDirectory then (Some ReceiptNotPersisted, [w1])
          else if \<not> ok RemoveFile then (Some NotRemoved, [w1])
          else (None, [w1, remove_file kind mid (bulkFile mid) w1]))"


section \<open>Commitment of a measurement\<close>

text \<open>\<open>filepath.Base(name) == name\<close>.\<close>

definition plain_name :: "string \<Rightarrow> bool" where
  "plain_name name \<longleftrightarrow> name \<noteq> [] \<and> (CHR ''/'' \<notin> set name \<or> name = ''/'')"

fun check_files ::
  "library \<Rightarrow> outcomes \<Rightarrow> site \<Rightarrow> string \<Rightarrow> string \<Rightarrow> cleanup_receipt option \<Rightarrow> (string \<times> file_evidence) list
     \<Rightarrow> campaign_error option" where
  "check_files L ok w kind mid receipt [] = None"
| "check_files L ok w kind mid receipt ((name, expected) # fs) =
     (if \<not> plain_name name then Some (UnsafeFile name)
      else case local_file w kind mid name of
        None \<Rightarrow>
          (if (case receipt of None \<Rightarrow> False | Some r \<Rightarrow> rc_File r = name) then check_files L ok w kind mid receipt fs
           else Some (LocalUnreadable name))
      | Some content \<Rightarrow>
          if \<not> ok (ReadLocalFile name) then Some (LocalUnreadable name)
          else if Evidence L content \<noteq> expected then Some (LocalDiffers name)
          else check_files L ok w kind mid receipt fs)"

definition expected_kind :: "string \<Rightarrow> string \<Rightarrow> string" where
  "expected_kind kind mid = (if has_prefix ''interprotocol-'' mid then ''interprotocol'' else kind)"

definition check_marker :: "string \<Rightarrow> string \<Rightarrow> marker \<Rightarrow> campaign_error option" where
  "check_marker kind mid m =
     (if mk_Version m \<noteq> 1 \<or> mk_ID m \<noteq> mid \<or> length (mk_Files m) < 2 then Some MarkerInvalid
      else if map_of (mk_Files m) (expected_kind kind mid @ ''.pq'') = None
        then Some (MarkerOmits (expected_kind kind mid @ ''.pq''))
      else if map_of (mk_Files m) (expected_kind kind mid @ ''.snapshot.yaml'') = None
        then Some (MarkerOmits (expected_kind kind mid @ ''.snapshot.yaml''))
      else None)"

definition committed ::
  "library \<Rightarrow> campaign \<Rightarrow> outcomes \<Rightarrow> string \<Rightarrow> step \<Rightarrow> site \<Rightarrow> (campaign_error + bool) \<times> site list" where
  "committed L c ok kind step w =
     (case readCleanupReceipt L ok w kind (sp_ID step) of
        Inl e \<Rightarrow> (Inl e, [])
      | Inr receipt \<Rightarrow>
          if \<not> ok ReadMarker then (Inl MarkerUnreadable, [])
          else case si_objects w (marker_uri c kind (sp_ID step)) of
            None \<Rightarrow> (if receipt \<noteq> None then Inl MarkerLost else Inr False, [])
          | Some bytes \<Rightarrow>
              (case lb_decode_marker L bytes of
                 None \<Rightarrow> (Inl MarkerUndecodable, [])
               | Some m \<Rightarrow>
                   (case check_marker kind (sp_ID step) m of
                      Some e \<Rightarrow> (Inl e, [])
                    | None \<Rightarrow>
                        if (case receipt of None \<Rightarrow> False | Some r \<Rightarrow> \<not> validateCleanupReceipt L c r (sp_ID step) bytes (mk_Files m))
                        then (Inl ReceiptDiffers, [])
                        else (case check_files L ok w kind (sp_ID step) receipt (mk_Files m) of
                          Some e \<Rightarrow> (Inl e, [])
                        | None \<Rightarrow>
                            (case cleanupMeasurement L c ok kind (sp_ID step) bytes (mk_Files m) receipt w of
                               (Some e, ws) \<Rightarrow> (Inl e, ws)
                             | (None, ws) \<Rightarrow> (Inr True, ws))))))"


section \<open>Measuring a step\<close>

fun next_stamp :: "library \<Rightarrow> int \<Rightarrow> step list \<Rightarrow> int option" where
  "next_stamp L stamp [] = Some stamp"
| "next_stamp L stamp (p # ps) =
     (case lb_parse_stamp L (sp_Stamp p) of
        None \<Rightarrow> None
      | Some t \<Rightarrow> next_stamp L (if stamp > t then stamp else t + 1) ps)"

fun sample_suffix :: "string list \<Rightarrow> string" where
  "sample_suffix (a # b # args) = (if a = ''--sample'' then ''_'' @ b else []) @ sample_suffix (b # args)"
| "sample_suffix _ = []"

definition new_step :: "library \<Rightarrow> int \<Rightarrow> string \<Rightarrow> string \<Rightarrow> string list \<Rightarrow> string \<Rightarrow> step" where
  "new_step L stamp tool payload args signature =
     \<lparr>sp_ID = payload @ ''_'' @ lb_layout L stamp @ (if tool = ''interprotocol'' then sample_suffix args else []),
      sp_Stamp = lb_format_stamp L stamp, sp_Signature = signature\<rparr>"

definition put_step :: "string \<Rightarrow> step \<Rightarrow> site \<Rightarrow> site" where
  "put_step name s w = w\<lparr>si_steps := (name, s) # filter (\<lambda>(n, _). n \<noteq> name) (si_steps w)\<rparr>"

text \<open>
  A new attempt: the step is on disk before the tool starts. \<open>tool_run s w\<close> are the durable states the tool
  goes through and whether it succeeds.
\<close>

definition attempt ::
  "library \<Rightarrow> campaign \<Rightarrow> outcomes \<Rightarrow> outcomes \<Rightarrow> (step \<Rightarrow> site \<Rightarrow> site list \<times> bool) \<Rightarrow> int \<Rightarrow> string \<Rightarrow> string \<Rightarrow> string \<Rightarrow> string
     \<Rightarrow> string list \<Rightarrow> string \<Rightarrow> site \<Rightarrow> (campaign_error + string) \<times> site list" where
  "attempt L c ok ok' tool_run now name kind tool payload args signature w =
     (case next_stamp L now (map snd (si_steps w)) of
        None \<Rightarrow> (Inl StampInvalid, [])
      | Some stamp \<Rightarrow>
          let s = new_step L stamp tool payload args signature in
          if \<not> ok SaveState then (Inl StateNotSaved, [])
          else let w1 = put_step name s w; (ws, success) = tool_run s w1; w2 = last (w1 # ws) in
            if \<not> success then (Inl (ToolFailed name), w1 # ws)
            else case committed L c ok' kind s w2 of
              (Inl e, vs) \<Rightarrow> (Inl e, w1 # ws @ vs)
            | (Inr done, vs) \<Rightarrow> (if done then Inr (sp_ID s) else Inl (NotDurable name), w1 # ws @ vs))"

definition archive_dir :: "string \<Rightarrow> string \<Rightarrow> string \<Rightarrow> site \<Rightarrow> site" where
  "archive_dir name kind mid w =
     w\<lparr>si_archive := ((name, mid), the (si_dirs w (kind, mid))) # si_archive w, si_dirs := (si_dirs w)((kind, mid) := None)\<rparr>"

definition tool_kind :: "string \<Rightarrow> string" where
  "tool_kind tool = (if tool = ''interprotocol'' then ''ipid'' else tool)"

definition signature_of :: "library \<Rightarrow> string \<Rightarrow> string list \<Rightarrow> string" where
  "signature_of L tool args = lb_sha L (lb_encode_args L (tool # args))"

definition measure_step ::
  "library \<Rightarrow> campaign \<Rightarrow> outcomes \<Rightarrow> outcomes \<Rightarrow> (step \<Rightarrow> site \<Rightarrow> site list \<times> bool) \<Rightarrow> int \<Rightarrow> string \<Rightarrow> string \<Rightarrow> string
     \<Rightarrow> string list \<Rightarrow> site \<Rightarrow> (campaign_error + string) \<times> site list" where
  "measure_step L c ok ok' tool_run now name tool payload args w =
     (let kind = tool_kind tool; signature = signature_of L tool args in case map_of (si_steps w) name of
           None \<Rightarrow> attempt L c ok ok' tool_run now name kind tool payload args signature w
         | Some s \<Rightarrow>
             if sp_Signature s \<noteq> signature then (Inl (ParametersChanged name), [])
             else (case committed L c ok kind s w of
               (Inl e, ws) \<Rightarrow> (Inl e, ws)
             | (Inr True, ws) \<Rightarrow> (Inr (sp_ID s), ws)
             | (Inr False, ws) \<Rightarrow>
                 if \<not> ok StatDirectory then (Inl DirectoryUnreadable, ws)
                 else if si_dirs w (kind, sp_ID s) = None
                   then attempt L c ok ok' tool_run now name kind tool payload args signature w
                 else if \<not> cp_RetryIncomplete c then (Inl (Uncommitted name), ws)
                 else if \<not> ok ArchiveDirectory then (Inl NotArchived, ws)
                 else let w1 = archive_dir name kind (sp_ID s) w;
                          (r, vs) = attempt L c ok ok' tool_run now name kind tool payload args signature w1
                      in (r, w1 # vs)))"


section \<open>The step table\<close>

definition well_named :: "library \<Rightarrow> step \<Rightarrow> bool" where
  "well_named L s \<longleftrightarrow> (\<exists>t payload suffix. sp_Stamp s = lb_format_stamp L t \<and> CHR ''_'' \<notin> set payload
     \<and> sp_ID s = payload @ ''_'' @ lb_layout L t @ suffix \<and> (suffix = [] \<or> hd suffix = CHR ''_''))"

definition steps_ok :: "library \<Rightarrow> (string \<times> step) list \<Rightarrow> bool" where
  "steps_ok L ps \<longleftrightarrow> distinct (map fst ps) \<and> distinct (map (sp_Stamp \<circ> snd) ps) \<and> (\<forall>p \<in> set ps. well_named L (snd p))"

lemma next_stamp_ge: "next_stamp L now ps = Some t \<Longrightarrow> now \<le> t"
  by (induction L now ps rule: next_stamp.induct) (auto split: option.splits if_splits)

lemma next_stamp_above:
  "next_stamp L now ps = Some t \<Longrightarrow> p \<in> set ps \<Longrightarrow> \<exists>u. lb_parse_stamp L (sp_Stamp p) = Some u \<and> u < t"
proof (induction L now ps rule: next_stamp.induct)
  case (2 L now q ps)
  obtain u where u: "lb_parse_stamp L (sp_Stamp q) = Some u" "next_stamp L (if now > u then now else u + 1) ps = Some t"
    using "2.prems"(1) by (auto split: option.splits)
  then have "u < t" using next_stamp_ge [OF u(2)] by (auto split: if_splits)
  then show ?case using 2 u by auto
qed simp

lemma sample_suffix_underscore: "sample_suffix xs = [] \<or> hd (sample_suffix xs) = CHR ''_''"
  by (induction xs rule: sample_suffix.induct) auto

lemma put_step_ok:
  assumes "library_ok L" "steps_ok L (si_steps w)" "next_stamp L now (map snd (si_steps w)) = Some t"
    and "CHR ''_'' \<notin> set payload"
  shows "steps_ok L (si_steps (put_step name (new_step L t tool payload args signature) w))"
proof -
  let ?ps = "filter (\<lambda>(n, _). n \<noteq> name) (si_steps w)"
  have parse: "lb_parse_stamp L (lb_format_stamp L u) = Some v \<Longrightarrow> v = u" for u v using assms(1) by (simp add: library_ok_def)
  have fresh: "sp_Stamp p \<noteq> lb_format_stamp L t" if "p \<in> snd ` set (si_steps w)" for p
  proof
    assume eq: "sp_Stamp p = lb_format_stamp L t"
    have "p \<in> set (map snd (si_steps w))" using that by simp
    then obtain u where u: "lb_parse_stamp L (sp_Stamp p) = Some u" "u < t"
      using next_stamp_above [OF assms(3)] by blast
    have "u = t" by (rule parse) (use u(1) eq in simp)
    with u(2) show False by simp
  qed
  have "distinct (map fst ?ps)" "distinct (map (sp_Stamp \<circ> snd) ?ps)"
    using assms(2) by (simp_all add: steps_ok_def distinct_map_filter)
  moreover have "name \<notin> fst ` set ?ps" by auto
  moreover have "lb_format_stamp L t \<notin> (sp_Stamp \<circ> snd) ` set ?ps"
  proof
    assume "lb_format_stamp L t \<in> (sp_Stamp \<circ> snd) ` set ?ps"
    then obtain q where "q \<in> set (si_steps w)" "sp_Stamp (snd q) = lb_format_stamp L t" by auto
    then show False using fresh [of "snd q"] by simp
  qed
  moreover have "well_named L (new_step L t tool payload args signature)"
    unfolding well_named_def
    by (rule exI [of _ t], rule exI [of _ payload],
        rule exI [of _ "if tool = ''interprotocol'' then sample_suffix args else []"])
       (use assms(4) sample_suffix_underscore [of args] in \<open>simp add: new_step_def\<close>)
  moreover have "\<forall>p \<in> set ?ps. well_named L (snd p)" using assms(2) by (simp add: steps_ok_def)
  moreover have "si_steps (put_step name (new_step L t tool payload args signature) w)
      = (name, new_step L t tool payload args signature) # ?ps" by (simp add: put_step_def)
  moreover have "sp_Stamp (new_step L t tool payload args signature) = lb_format_stamp L t" by (simp add: new_step_def)
  ultimately show ?thesis unfolding steps_ok_def by (simp del: set_filter)
qed

text \<open>What an operation does to the step table.\<close>

lemma committed_steps: "w' \<in> set (snd (committed L c ok kind s w)) \<Longrightarrow> si_steps w' = si_steps w"
  by (auto simp: committed_def cleanupMeasurement_def write_receipt_def remove_file_def Let_def
      split: sum.splits option.splits if_splits prod.splits)

text \<open>The tool leaves the step table alone.\<close>

definition tool_keeps_steps :: "(step \<Rightarrow> site \<Rightarrow> site list \<times> bool) \<Rightarrow> bool" where
  "tool_keeps_steps tool_run \<longleftrightarrow> (\<forall>s w. list_all (\<lambda>v. si_steps v = si_steps w) (fst (tool_run s w)))"

lemma attempt_steps:
  assumes "tool_keeps_steps tool_run"
    and "w' \<in> set (snd (attempt L c ok ok' tool_run now name kind tool payload args signature w))"
  shows "\<exists>t. next_stamp L now (map snd (si_steps w)) = Some t
    \<and> si_steps w' = si_steps (put_step name (new_step L t tool payload args signature) w)"
proof -
  obtain t where t: "next_stamp L now (map snd (si_steps w)) = Some t"
    using assms(2) by (auto simp: attempt_def split: option.splits)
  let ?s = "new_step L t tool payload args signature"
  let ?w1 = "put_step name ?s w"
  obtain ws success where run: "tool_run ?s ?w1 = (ws, success)" by (meson surj_pair)
  have keep: "si_steps v = si_steps ?w1" if "v \<in> set (?w1 # ws)" for v
  proof -
    have "list_all (\<lambda>u. si_steps u = si_steps ?w1) ws"
      using assms(1) run unfolding tool_keeps_steps_def by (metis fst_conv)
    then show ?thesis using that by (auto simp: list_all_iff)
  qed
  have last: "si_steps (last (?w1 # ws)) = si_steps ?w1" by (rule keep) (rule last_in_set, simp)
  have "w' \<in> set (?w1 # ws) \<or> w' \<in> set (snd (committed L c ok' kind ?s (last (?w1 # ws))))"
    using assms(2) t run
    by (cases "committed L c ok' kind ?s (last (?w1 # ws))")
       (auto simp: attempt_def Let_def split: if_splits sum.splits)
  then have "si_steps w' = si_steps ?w1"
    by (elim disjE) (rule keep, assumption, metis committed_steps last)
  then show ?thesis using t by blast
qed

lemma measure_step_states:
  assumes "w' \<in> set (snd (measure_step L c ok ok' tool_run now name tool payload args w))"
  obtains (attempt) "w' \<in> set (snd (attempt L c ok ok' tool_run now name (tool_kind tool) tool payload args (signature_of L tool args) w))"
  | (committed) s where "w' \<in> set (snd (committed L c ok (tool_kind tool) s w))"
  | (archived) mid where "w' = archive_dir name (tool_kind tool) mid w"
  | (retried) mid where "w' \<in> set (snd (attempt L c ok ok' tool_run now name (tool_kind tool) tool payload args (signature_of L tool args)
      (archive_dir name (tool_kind tool) mid w)))"
proof (cases "map_of (si_steps w) name")
  case None
  then show ?thesis using assms attempt by (simp add: measure_step_def Let_def)
next
  case (Some s)
  obtain r ws where com: "committed L c ok (tool_kind tool) s w = (r, ws)" by fastforce
  show ?thesis
  proof (cases "w' \<in> set ws")
    case True
    then show ?thesis using committed [of s] com by simp
  next
    case False
    then show ?thesis
      using assms attempt archived [of "sp_ID s"] retried [of "sp_ID s"] Some com
      by (auto simp: measure_step_def Let_def split: sum.splits bool.splits if_splits prod.splits)
  qed
qed

lemma measure_step_steps:
  assumes "tool_keeps_steps tool_run"
    and "w' \<in> set (snd (measure_step L c ok ok' tool_run now name tool payload args w))"
  shows "si_steps w' = si_steps w \<or> (\<exists>t signature. next_stamp L now (map snd (si_steps w)) = Some t
    \<and> si_steps w' = si_steps (put_step name (new_step L t tool payload args signature) w))"
  using assms(2)
proof (cases rule: measure_step_states)
  case attempt
  then show ?thesis using attempt_steps [OF assms(1)] by blast
next
  case (committed s)
  then show ?thesis using committed_steps by blast
next
  case (archived mid)
  then show ?thesis by (simp add: archive_dir_def)
next
  case (retried mid)
  then show ?thesis using attempt_steps [OF assms(1) retried] by (auto simp: archive_dir_def put_step_def)
qed

text \<open>
  The durable states of a site: any runs of any steps, each ended by a crash or a return at any
  point; in between anything may happen to files and objects.
\<close>

inductive site_reachable :: "library \<Rightarrow> campaign \<Rightarrow> site \<Rightarrow> bool" for L c where
  start: "si_steps w = [] \<Longrightarrow> site_reachable L c w"
| run: "site_reachable L c w \<Longrightarrow> CHR ''_'' \<notin> set payload \<Longrightarrow> tool_keeps_steps tool_run \<Longrightarrow>
     w' \<in> set (snd (measure_step L c ok ok' tool_run now name tool payload args w)) \<Longrightarrow> site_reachable L c w'"
| outside: "site_reachable L c w \<Longrightarrow> si_steps w' = si_steps w \<Longrightarrow> site_reachable L c w'"

lemma reachable_steps_ok:
  assumes "library_ok L" "site_reachable L c w"
  shows "steps_ok L (si_steps w)"
  using assms(2)
proof induction
  case (start w)
  then show ?case by (simp add: steps_ok_def)
next
  case (run w payload tool_run w' ok ok' now name tool args)
  then show ?case using measure_step_steps [OF run(3,4)] put_step_ok [OF assms(1) run(5) _ run(2)] by auto
next
  case (outside w w')
  then show ?case by simp
qed

lemma before_underscore:
  assumes "p @ x = q @ y" "CHR ''_'' \<notin> set p" "CHR ''_'' \<notin> set q" "x = [] \<or> hd x = CHR ''_''" "y = [] \<or> hd y = CHR ''_''"
  shows "p = q \<and> x = y"
proof -
  have "takeWhile (\<lambda>c. c \<noteq> CHR ''_'') (r @ z) = r" if "CHR ''_'' \<notin> set r" "z = [] \<or> hd z = CHR ''_''" for r z
    using that by (induction r) (cases z; auto)+
  then have "p = q" using assms by metis
  then show ?thesis using assms(1) by simp
qed

lemma layout_split:
  assumes "library_ok L" "CHR ''_'' \<notin> set p" "CHR ''_'' \<notin> set q"
    and "p @ ''_'' @ lb_layout L t @ x = q @ ''_'' @ lb_layout L u @ y"
    and "x = [] \<or> hd x = CHR ''_''" "y = [] \<or> hd y = CHR ''_''"
  shows "t = u"
proof -
  obtain d h where t: "lb_layout L t = d @ ''_'' @ h" "CHR ''_'' \<notin> set d" "CHR ''_'' \<notin> set h"
    using assms(1) unfolding library_ok_def by blast
  obtain d' h' where u: "lb_layout L u = d' @ ''_'' @ h'" "CHR ''_'' \<notin> set d'" "CHR ''_'' \<notin> set h'"
    using assms(1) unfolding library_ok_def by blast
  have "''_'' @ lb_layout L t @ x = ''_'' @ lb_layout L u @ y"
    using before_underscore [OF assms(4,2,3)] by simp
  then have "d @ ''_'' @ h @ x = d' @ ''_'' @ h' @ y" using t u by simp
  then have "d = d' \<and> ''_'' @ h @ x = ''_'' @ h' @ y" by (rule before_underscore [OF _ t(2) u(2)]) simp_all
  then have "d = d'" "h = h'" using before_underscore [of h x h' y] t u assms(5,6) by simp_all
  then show ?thesis using assms(1) t u by (simp add: library_ok_def)
qed

text \<open>
  C27: Measurement identifiers are never shared. After any history of runs and crashes at one site, whatever failed,
  whichever tools misbehaved and however the clock was set, the steps in the table have pairwise different names
  and pairwise different measurement identifiers.
\<close>

theorem step_ids_distinct:
  assumes "library_ok L" "site_reachable L c w"
  shows "distinct (map fst (si_steps w)) \<and> distinct (map (sp_ID \<circ> snd) (si_steps w))"
proof -
  have ok: "steps_ok L (si_steps w)" by (rule reachable_steps_ok [OF assms])
  have stamps: "sp_Stamp a = sp_Stamp b" if ab: "(m, a) \<in> set (si_steps w)" "(n, b) \<in> set (si_steps w)" "sp_ID a = sp_ID b" for m n a b
  proof -
    obtain t p x where a: "sp_Stamp a = lb_format_stamp L t" "CHR ''_'' \<notin> set p" "sp_ID a = p @ ''_'' @ lb_layout L t @ x"
      "x = [] \<or> hd x = CHR ''_''"
      using ok ab(1) by (force simp: steps_ok_def well_named_def)
    obtain u q y where b: "sp_Stamp b = lb_format_stamp L u" "CHR ''_'' \<notin> set q" "sp_ID b = q @ ''_'' @ lb_layout L u @ y"
      "y = [] \<or> hd y = CHR ''_''"
      using ok ab(2) by (force simp: steps_ok_def well_named_def)
    have "p @ ''_'' @ lb_layout L t @ x = q @ ''_'' @ lb_layout L u @ y"
      unfolding a(3) [symmetric] b(3) [symmetric] by (rule ab(3))
    then have "t = u" by (rule layout_split [OF assms(1) a(2) b(2) _ a(4) b(4)])
    then show ?thesis using a b by simp
  qed
  have inj: "distinct (si_steps w)" "inj_on (sp_Stamp \<circ> snd) (set (si_steps w))"
    using ok by (simp_all add: steps_ok_def distinct_map)
  have "inj_on (sp_ID \<circ> snd) (set (si_steps w))"
  proof (rule inj_onI)
    fix x y
    assume xy: "x \<in> set (si_steps w)" "y \<in> set (si_steps w)" "(sp_ID \<circ> snd) x = (sp_ID \<circ> snd) y"
    then have "(sp_Stamp \<circ> snd) x = (sp_Stamp \<circ> snd) y" using stamps [of "fst x" "snd x" "fst y" "snd y"] by simp
    then show "x = y" by (rule inj_onD [OF inj(2)]) (rule xy)+
  qed
  then show ?thesis using ok inj(1) by (simp add: steps_ok_def distinct_map)
qed


section \<open>What a cleanup removes\<close>

lemma receipt_cases: "(case receipt of None \<Rightarrow> False | Some r \<Rightarrow> P r) \<longleftrightarrow> (\<exists>r. receipt = Some r \<and> P r)"
  by (cases receipt) auto

lemma check_files_ok:
  "check_files L ok w kind mid receipt fs = None \<longleftrightarrow> (\<forall>(name, expected) \<in> set fs. plain_name name
     \<and> (case local_file w kind mid name of
          None \<Rightarrow> \<exists>r. receipt = Some r \<and> rc_File r = name
        | Some content \<Rightarrow> ok (ReadLocalFile name) \<and> Evidence L content = expected))"
  by (induction L ok w kind mid receipt fs rule: check_files.induct) (auto simp: receipt_cases split: option.splits)

text \<open>
  What \<open>committed\<close> established when it gets as far as the cleanup.
\<close>

definition verified ::
  "library \<Rightarrow> campaign \<Rightarrow> outcomes \<Rightarrow> string \<Rightarrow> string \<Rightarrow> site \<Rightarrow> string \<Rightarrow> marker \<Rightarrow> cleanup_receipt option \<Rightarrow> bool" where
  "verified L c ok kind mid w bytes m receipt \<longleftrightarrow>
     readCleanupReceipt L ok w kind mid = Inr receipt \<and> ok ReadMarker
     \<and> si_objects w (marker_uri c kind mid) = Some bytes \<and> lb_decode_marker L bytes = Some m
     \<and> check_marker kind mid m = None
     \<and> (\<forall>r. receipt = Some r \<longrightarrow> validateCleanupReceipt L c r mid bytes (mk_Files m))
     \<and> check_files L ok w kind mid receipt (mk_Files m) = None"

lemma committed_cases:
  obtains (stopped) r where "committed L c ok kind s w = (r, [])" "r \<noteq> Inr True"
      "\<not> (\<exists>bytes m receipt. verified L c ok kind (sp_ID s) w bytes m receipt)"
  | (verified) bytes m receipt e ws where "verified L c ok kind (sp_ID s) w bytes m receipt"
      "cleanupMeasurement L c ok kind (sp_ID s) bytes (mk_Files m) receipt w = (e, ws)"
      "committed L c ok kind s w = (case e of None \<Rightarrow> Inr True | Some x \<Rightarrow> Inl x, ws)"
proof (cases "\<exists>bytes m receipt. verified L c ok kind (sp_ID s) w bytes m receipt")
  case True
  then obtain bytes m receipt where v: "verified L c ok kind (sp_ID s) w bytes m receipt" by blast
  obtain e ws where cl: "cleanupMeasurement L c ok kind (sp_ID s) bytes (mk_Files m) receipt w = (e, ws)" by fastforce
  have "committed L c ok kind s w = (case e of None \<Rightarrow> Inr True | Some x \<Rightarrow> Inl x, ws)"
    using v cl by (auto simp: verified_def committed_def split: option.split)
  with v cl show ?thesis by (rule verified)
next
  case False
  have "\<exists>r. committed L c ok kind s w = (r, []) \<and> r \<noteq> Inr True"
    using False unfolding verified_def committed_def by (auto split: sum.split option.split)
  then show ?thesis using stopped False by blast
qed

lemma bulk_verified:
  assumes "verified L c ok ''ipid'' mid w bytes m receipt"
  obtains expected where "map_of (mk_Files m) (bulkFile mid) = Some expected"
    "\<And>content. local_file w ''ipid'' mid (bulkFile mid) = Some content \<Longrightarrow> Evidence L content = expected"
proof -
  have "map_of (mk_Files m) (bulkFile mid) \<noteq> None"
    using assms by (auto simp: verified_def check_marker_def expected_kind_def bulkFile_def split: if_splits)
  then obtain expected where e: "map_of (mk_Files m) (bulkFile mid) = Some expected" by blast
  have "Evidence L content = expected" if "local_file w ''ipid'' mid (bulkFile mid) = Some content" for content
    using assms that map_of_SomeD [OF e] by (fastforce simp: verified_def check_files_ok)
  with e show ?thesis by (rule that)
qed

lemma cleanup_states:
  assumes "cleanupMeasurement L c ok kind mid bytes fs receipt w = (e, ws)" "w' \<in> set ws"
  shows "kind = ''ipid'' \<and> cp_Protocol c \<noteq> [] \<and> \<not> cp_RetainLocal c
    \<and> (let w1 = write_receipt L mid (case receipt of None \<Rightarrow> new_receipt L c mid bytes fs | Some r \<Rightarrow> r) w
        in w' = w1 \<or> w' = remove_file kind mid (bulkFile mid) w1)"
  using assms by (auto simp: cleanupMeasurement_def Let_def split: if_splits)

lemma local_file_write [simp]: "local_file (write_receipt L mid r w) k m n = local_file w k m n"
  by (simp add: local_file_def write_receipt_def)

lemma local_file_remove [simp]:
  "local_file (remove_file kind mid name w) k m n
     = (if k = kind \<and> m = mid \<and> n = name then None else local_file w k m n)"
  by (auto simp: local_file_def remove_file_def split: option.split)

lemma receipt_valid:
  assumes "verified L c ok ''ipid'' mid w bytes m receipt"
  shows "validateCleanupReceipt L c (case receipt of None \<Rightarrow> new_receipt L c mid bytes (mk_Files m) | Some r \<Rightarrow> r)
    mid bytes (mk_Files m)"
proof (cases receipt)
  case None
  obtain expected where "map_of (mk_Files m) (bulkFile mid) = Some expected"
    by (rule bulk_verified [OF assms])
  then show ?thesis using None by (simp add: validateCleanupReceipt_def new_receipt_def)
next
  case (Some r)
  then show ?thesis using assms by (simp add: verified_def)
qed

text \<open>
  C25: Only a copy of what is stored in S3 is ever removed. In every durable state of \<open>committed\<close>, whatever fails, the
  objects in S3 are unchanged and a local file is still there with its content, unless it is the bulk file of
  this very IP-ID measurement in a protocol run that does not retain local data; then the completion marker in
  S3 lists exactly the evidence of the content that is gone, and a receipt valid for that marker is already durable.
\<close>

theorem cleanup_keeps_copy:
  assumes "w' \<in> set (snd (committed L c ok kind s w))"
  shows "si_objects w' = si_objects w \<and> (\<forall>k mid name content. local_file w k mid name = Some content \<longrightarrow>
     local_file w' k mid name = Some content
     \<or> k = ''ipid'' \<and> mid = sp_ID s \<and> name = bulkFile mid \<and> cp_Protocol c \<noteq> [] \<and> \<not> cp_RetainLocal c
       \<and> (\<exists>bytes m r. si_objects w (marker_uri c k mid) = Some bytes \<and> lb_decode_marker L bytes = Some m
            \<and> mk_ID m = mid \<and> map_of (mk_Files m) name = Some (Evidence L content)
            \<and> si_receipts w' mid = Some (lb_encode_receipt L r) \<and> validateCleanupReceipt L c r mid bytes (mk_Files m)))"
proof (cases rule: committed_cases [of L c ok kind s w])
  case (stopped r)
  then show ?thesis using assms by simp
next
  case (verified bytes m receipt e ws)
  define r where "r = (case receipt of None \<Rightarrow> new_receipt L c (sp_ID s) bytes (mk_Files m) | Some r \<Rightarrow> r)"
  let ?w1 = "write_receipt L (sp_ID s) r w"
  have ws: "w' \<in> set ws" using assms verified(3) by simp
  have kind: "kind = ''ipid''" "cp_Protocol c \<noteq> []" "\<not> cp_RetainLocal c"
    and w': "w' = ?w1 \<or> w' = remove_file kind (sp_ID s) (bulkFile (sp_ID s)) ?w1"
    using cleanup_states [OF verified(2) ws] unfolding r_def Let_def by blast+
  note v = verified(1) [unfolded kind(1)]
  obtain expected where ex: "map_of (mk_Files m) (bulkFile (sp_ID s)) = Some expected"
    "\<And>content. local_file w ''ipid'' (sp_ID s) (bulkFile (sp_ID s)) = Some content \<Longrightarrow> Evidence L content = expected"
    using bulk_verified [OF v] by blast
  have objects: "si_objects w' = si_objects w" and receipts: "si_receipts w' (sp_ID s) = Some (lb_encode_receipt L r)"
    using w' by (auto simp: write_receipt_def remove_file_def)
  have stored: "si_objects w (marker_uri c ''ipid'' (sp_ID s)) = Some bytes" "lb_decode_marker L bytes = Some m"
    "mk_ID m = sp_ID s" "validateCleanupReceipt L c r (sp_ID s) bytes (mk_Files m)"
    using v receipt_valid [OF v] by (auto simp: verified_def check_marker_def r_def split: if_splits)
  have "local_file w' k mid name = Some content
      \<or> k = ''ipid'' \<and> mid = sp_ID s \<and> name = bulkFile mid \<and> Evidence L content = expected"
    if "local_file w k mid name = Some content" for k mid name content
    using w' kind(1) that ex(2) by (auto split: if_splits)
  then show ?thesis using objects receipts stored ex(1) kind by blast
qed


section \<open>A committed measurement stays committed\<close>

abbreviation works :: outcomes where
  "works \<equiv> \<lambda>_. True"

lemma verified_works: "verified L c ok kind mid w bytes m receipt \<Longrightarrow> verified L c works kind mid w bytes m receipt"
  by (auto simp: verified_def readCleanupReceipt_def check_files_ok split: if_splits option.splits)

text \<open>What makes the cleanup succeed when no file operation fails.\<close>

lemma cleanup_works:
  assumes "verified L c works kind mid w bytes m receipt"
  shows "fst (cleanupMeasurement L c works kind mid bytes (mk_Files m) receipt w) = None"
proof (cases "kind = ''ipid''")
  case True
  note v = assms [unfolded True]
  obtain expected where "map_of (mk_Files m) (bulkFile mid) = Some expected" by (rule bulk_verified [OF v])
  then have "(bulkFile mid, expected) \<in> set (mk_Files m)" by (rule map_of_SomeD)
  then have "receipt \<noteq> None" if "local_file w ''ipid'' mid (bulkFile mid) = None"
    using v that by (fastforce simp: verified_def check_files_ok)
  moreover have "\<not> unsafe_id mid" using v by (auto simp: verified_def readCleanupReceipt_def split: if_splits)
  ultimately show ?thesis using True by (auto simp: cleanupMeasurement_def Let_def)
qed (simp add: cleanupMeasurement_def)

lemma committed_iff_verified:
  "fst (committed L c works kind s w) = Inr True \<longleftrightarrow> (\<exists>bytes m receipt. verified L c works kind (sp_ID s) w bytes m receipt)"
proof (cases rule: committed_cases [of L c works kind s w])
  case (stopped r)
  then show ?thesis by auto
next
  case (verified bytes m receipt e ws)
  then show ?thesis using cleanup_works [OF verified(1)] by auto
qed

lemma committed_success: "fst (committed L c ok kind s w) = Inr True \<Longrightarrow> fst (committed L c works kind s w) = Inr True"
  unfolding committed_iff_verified
  by (cases rule: committed_cases [of L c ok kind s w]) (auto dest: verified_works)

lemma verified_after:
  assumes "library_ok L" "verified L c works kind (sp_ID s) w bytes m receipt"
    and "w' \<in> set (snd (committed L c ok kind s w))"
  shows "\<exists>receipt'. verified L c works kind (sp_ID s) w' bytes m receipt'"
proof (cases rule: committed_cases [of L c ok kind s w])
  case (stopped r)
  then show ?thesis using assms by simp
next
  case (verified bytes' m' receipt' e ws)
  have same: "bytes' = bytes" "m' = m" "receipt' = receipt"
    using verified_works [OF verified(1)] assms(2) by (auto simp: verified_def)
  define r where "r = (case receipt of None \<Rightarrow> new_receipt L c (sp_ID s) bytes (mk_Files m) | Some r \<Rightarrow> r)"
  have ws: "w' \<in> set ws" using assms verified(3) by simp
  have kind: "kind = ''ipid''" and w': "w' = write_receipt L (sp_ID s) r w
      \<or> w' = remove_file kind (sp_ID s) (bulkFile (sp_ID s)) (write_receipt L (sp_ID s) r w)"
    using cleanup_states [OF verified(2) ws] unfolding r_def Let_def same by blast+
  note v = assms(2) [unfolded kind]
  have valid: "validateCleanupReceipt L c r (sp_ID s) bytes (mk_Files m)"
    unfolding r_def by (rule receipt_valid [OF v])
  have safe: "\<not> unsafe_id (sp_ID s)" using v by (auto simp: verified_def readCleanupReceipt_def split: if_splits)
  have stored: "si_objects w' = si_objects w" "si_receipts w' (sp_ID s) = Some (lb_encode_receipt L r)"
    using w' by (auto simp: write_receipt_def remove_file_def)
  have rfile: "rc_File r = bulkFile (sp_ID s)" using valid by (auto simp: validateCleanupReceipt_def split: option.splits)
  have files: "case local_file w' ''ipid'' (sp_ID s) name of
        None \<Rightarrow> \<exists>r'. Some r = Some r' \<and> rc_File r' = name
      | Some content \<Rightarrow> works (ReadLocalFile name) \<and> Evidence L content = expected"
    if old: "case local_file w ''ipid'' (sp_ID s) name of
        None \<Rightarrow> \<exists>r'. receipt = Some r' \<and> rc_File r' = name
      | Some content \<Rightarrow> works (ReadLocalFile name) \<and> Evidence L content = expected" for name expected
  proof (cases "local_file w ''ipid'' (sp_ID s) name")
    case None
    then have "rc_File r = name" using old by (auto simp: r_def)
    moreover have "local_file w' ''ipid'' (sp_ID s) name = None" using None w' by auto
    ultimately show ?thesis by simp
  next
    case (Some content)
    then show ?thesis using old w' kind rfile by (auto split: if_splits)
  qed
  have "check_files L works w' ''ipid'' (sp_ID s) (Some r) (mk_Files m) = None"
    using v files by (auto simp only: verified_def check_files_ok)
  then have "verified L c works ''ipid'' (sp_ID s) w' bytes m (Some r)"
    using v stored valid safe assms(1) by (simp add: verified_def readCleanupReceipt_def library_ok_def)
  then show ?thesis using kind by blast
qed

text \<open>
  The step of that name is in the table with these parameters, and its measurement is durable.
\<close>

definition step_done :: "library \<Rightarrow> campaign \<Rightarrow> string \<Rightarrow> string \<Rightarrow> string list \<Rightarrow> string \<Rightarrow> site \<Rightarrow> bool" where
  "step_done L c name tool args mid w \<longleftrightarrow>
     (case map_of (si_steps w) name of
        None \<Rightarrow> False
      | Some s \<Rightarrow> sp_ID s = mid \<and> sp_Signature s = signature_of L tool args
          \<and> fst (committed L c works (tool_kind tool) s w) = Inr True)"

lemma step_done_iff:
  "step_done L c name tool args mid w \<longleftrightarrow>
     (\<exists>s. map_of (si_steps w) name = Some s \<and> sp_ID s = mid \<and> sp_Signature s = signature_of L tool args
        \<and> fst (committed L c works (tool_kind tool) s w) = Inr True)"
  by (simp add: step_done_def split: option.split)

lemma committed_false: "fst (committed L c ok kind s w) = Inr False \<Longrightarrow> si_objects w (marker_uri c kind (sp_ID s)) = None"
  by (auto simp: committed_def split: sum.splits option.splits if_splits prod.splits)

lemma committed_last:
  assumes "library_ok L" "fst (committed L c works kind s w) = Inr True" "w' \<in> set (w # snd (committed L c ok kind s w))"
  shows "fst (committed L c works kind s w') = Inr True"
proof (cases "w' = w")
  case False
  then have "w' \<in> set (snd (committed L c ok kind s w))" using assms(3) by simp
  then show ?thesis
    using assms(2) verified_after [OF assms(1)] unfolding committed_iff_verified by blast
qed (use assms(2) in simp)

lemma committed_keeps:
  assumes "w' \<in> set (snd (committed L c ok kind s w))"
  shows "si_objects w' = si_objects w \<and> si_archive w' = si_archive w"
proof (cases rule: committed_cases [of L c ok kind s w])
  case (stopped r)
  then show ?thesis using assms by simp
next
  case (verified bytes m receipt e ws)
  then have ws: "w' \<in> set ws" using assms by simp
  then show ?thesis
    using cleanup_states [OF verified(2) ws] by (auto simp: Let_def write_receipt_def remove_file_def)
qed

text \<open>
  C5: What was measured is not measured again. A step whose measurement is durable stays so: in every durable state
  of any further run of the step, whatever fails and wherever it crashes, the step table, the archive and S3
  are as before, and a run in which no file operation fails returns the same measurement, without a new
  attempt.
\<close>

theorem measured_stays_measured:
  assumes "library_ok L" "step_done L c name tool args mid w"
    and "w' \<in> set (w # snd (measure_step L c ok ok' tool_run now name tool payload args w))"
  shows "step_done L c name tool args mid w'
    \<and> si_steps w' = si_steps w \<and> si_archive w' = si_archive w \<and> si_objects w' = si_objects w
    \<and> fst (measure_step L c works ok2 tool_run2 now2 name tool payload2 args w') = Inr mid"
proof -
  obtain s where s: "map_of (si_steps w) name = Some s" "sp_ID s = mid" "sp_Signature s = signature_of L tool args"
    "fst (committed L c works (tool_kind tool) s w) = Inr True"
    using assms(2) unfolding step_done_iff by blast
  let ?com = "committed L c ok (tool_kind tool) s w"
  have "fst ?com \<noteq> Inr False"
    using committed_false s(4) [unfolded committed_iff_verified] by (auto simp: verified_def)
  then have "w' \<in> set (w # snd ?com)"
    using assms(3) s by (auto simp: measure_step_def Let_def split: sum.splits bool.splits prod.splits)
  then have kept: "si_steps w' = si_steps w \<and> si_archive w' = si_archive w \<and> si_objects w' = si_objects w"
    and com: "fst (committed L c works (tool_kind tool) s w') = Inr True"
    using committed_last [OF assms(1) s(4)] committed_steps committed_keeps by force+
  then have "step_done L c name tool args mid w'" using s by (auto simp: step_done_iff)
  moreover have "fst (measure_step L c works ok2 tool_run2 now2 name tool payload2 args w') = Inr mid"
    using s kept com by (auto simp: measure_step_def Let_def split: sum.splits prod.splits)
  ultimately show ?thesis using kept by blast
qed

lemma committed_after_success:
  assumes "library_ok L" "committed L c ok kind s w = (Inr True, ws)"
  shows "fst (committed L c works kind s (last (w # ws))) = Inr True"
proof -
  have first: "fst (committed L c works kind s w) = Inr True" 
    using committed_success [of L c ok kind s w] assms(2) by simp
  have "last (w # ws) \<in> set (w # snd (committed L c ok kind s w))" unfolding assms(2) snd_conv by (rule last_in_set) simp
  then show ?thesis by (rule committed_last [OF assms(1) first])
qed

lemma attempt_done:
  assumes "library_ok L" "tool_keeps_steps tool_run"
    and "attempt L c ok ok' tool_run now name (tool_kind tool) tool payload args (signature_of L tool args) w = (Inr mid, ws)"
  shows "step_done L c name tool args mid (last (w # ws))"
proof -
  obtain t where t: "next_stamp L now (map snd (si_steps w)) = Some t"
    using assms(3) by (auto simp: attempt_def split: option.splits)
  define s where "s = new_step L t tool payload args (signature_of L tool args)"
  obtain us success where run: "tool_run s (put_step name s w) = (us, success)" by fastforce
  let ?w2 = "last (put_step name s w # us)"
  obtain vs where com: "committed L c ok' (tool_kind tool) s ?w2 = (Inr True, vs)"
    and ws: "ws = put_step name s w # us @ vs" and mid: "mid = sp_ID s"
    using assms(3) t run by (auto simp: attempt_def Let_def s_def [symmetric] split: if_splits sum.splits prod.splits)
  have last: "last (w # ws) = last (?w2 # vs)" by (simp add: ws)
  have "last (w # ws) \<in> set ws" unfolding ws by (metis last_in_set last_ConsR list.distinct(1))
  then have "si_steps (last (w # ws)) = si_steps (put_step name s w)"
    using attempt_steps [OF assms(2)] assms(3) t by (metis s_def option.inject snd_conv)
  then have "map_of (si_steps (last (w # ws))) name = Some s" by (simp add: put_step_def)
  moreover have "fst (committed L c works (tool_kind tool) s (last (w # ws))) = Inr True"
    unfolding last by (rule committed_after_success [OF assms(1) com])
  ultimately show ?thesis unfolding step_done_iff by (auto simp: mid s_def new_step_def)
qed

lemma measure_step_done:
  assumes "library_ok L" "tool_keeps_steps tool_run"
    and "measure_step L c ok ok' tool_run now name tool payload args w = (Inr mid, ws)"
  shows "step_done L c name tool args mid (last (w # ws))"
proof (cases "map_of (si_steps w) name")
  case None
  then show ?thesis using attempt_done [OF assms(1,2)] assms(3) by (simp add: measure_step_def Let_def)
next
  case (Some s)
  obtain r us where com: "committed L c ok (tool_kind tool) s w = (r, us)" by fastforce
  have sig: "sp_Signature s = signature_of L tool args"
    using assms(3) Some by (auto simp: measure_step_def Let_def split: if_splits)
  consider (old) "r = Inr True" "mid = sp_ID s" "ws = us"
    | (fresh) "attempt L c ok ok' tool_run now name (tool_kind tool) tool payload args (signature_of L tool args) w = (Inr mid, ws)"
    | (retried) vs where "ws = archive_dir name (tool_kind tool) (sp_ID s) w # vs"
        "attempt L c ok ok' tool_run now name (tool_kind tool) tool payload args (signature_of L tool args)
           (archive_dir name (tool_kind tool) (sp_ID s) w) = (Inr mid, vs)"
  proof (cases "r = Inr True")
    case True
    then show ?thesis using assms(3) Some com sig old by (simp add: measure_step_def Let_def)
  next
    case False
    then have "r = Inr False" using assms(3) Some com sig by (cases r) (auto simp: measure_step_def Let_def)
    then show ?thesis using assms(3) Some com sig fresh retried
      by (simp add: measure_step_def Let_def split: if_splits prod.splits)
  qed
  then show ?thesis
  proof cases
    case old
    have "last (w # ws) \<in> set (w # snd (committed L c ok (tool_kind tool) s w))"
      using com old by (simp add: last_in_set)
    then have "si_steps (last (w # ws)) = si_steps w" using committed_steps by force
    moreover have "fst (committed L c works (tool_kind tool) s (last (w # ws))) = Inr True"
      using committed_after_success [OF assms(1)] com old by simp
    ultimately show ?thesis using Some old sig by (auto simp: step_done_iff)
  next
    case fresh
    then show ?thesis by (rule attempt_done [OF assms(1,2)])
  next
    case retried
    then show ?thesis using attempt_done [OF assms(1,2) retried(2)] by simp
  qed
qed

text \<open>
  What is returned is durable. If \<open>measure\<close> returns an identifier, then in the state it leaves behind that name is in
  the table with this identifier and these parameters, and its measurement is committed; whichever
  operations failed on the way, and whatever else the tool does, as long as it leaves the step table alone.
\<close>

theorem measure_returns_durable:
  assumes "library_ok L" "tool_keeps_steps tool_run"
    and "measure_step L c ok ok' tool_run now name tool payload args w = (Inr mid, ws)"
  shows "step_done L c name tool args mid (last (w # ws))"
  using assms by (rule measure_step_done)


section \<open>The theorems at work\<close>

text \<open>Clocks in decimal; a marker is its identifier; a digest is the content.\<close>

definition demo_encode :: "cleanup_receipt \<Rightarrow> string" where
  "demo_encode r = put_field (dec_of_int (rc_Version r)) @ put_field (rc_Binding r) @ put_field (rc_ID r)
     @ put_field (rc_MarkerSHA256 r) @ put_field (rc_File r) @ put_field (dec_of_nat (fe_Size (rc_Evidence r)))
     @ put_field (fe_SHA256 (rc_Evidence r)) @ []"

definition demo_decode :: "string \<Rightarrow> cleanup_receipt option" where
  "demo_decode s0 = (let (v, s1) = get_field s0; (b, s2) = get_field s1; (i, s3) = get_field s2; (m, s4) = get_field s3;
       (f, s5) = get_field s4; (n, s6) = get_field s5; (h, _) = get_field s6
     in Some \<lparr>rc_Version = int_of_dec v, rc_Binding = b, rc_ID = i, rc_MarkerSHA256 = m, rc_File = f,
       rc_Evidence = \<lparr>fe_Size = nat_of_dec n, fe_SHA256 = h\<rparr>\<rparr>)"

definition demo_library :: library where
  "demo_library = \<lparr>lb_sha = (\<lambda>s. s), lb_decode_receipt = demo_decode, lb_encode_receipt = demo_encode,
     lb_decode_marker = (\<lambda>s. Some \<lparr>mk_Version = 1, mk_ID = s,
        mk_Files = [(''ipid.pq'', \<lparr>fe_Size = 4, fe_SHA256 = ''data''\<rparr>),
                    (''ipid.snapshot.yaml'', \<lparr>fe_Size = 8, fe_SHA256 = ''settings''\<rparr>)]\<rparr>),
     lb_encode_args = join_parts, lb_parse_stamp = (\<lambda>s. Some (int_of_dec s)), lb_format_stamp = dec_of_int,
     lb_layout = (\<lambda>t. dec_of_int t @ ''_'')\<rparr>"

lemma underscore_notin_int: "CHR ''_'' \<notin> set (dec_of_int i)"
  using not_digit_notin_dec [OF underscore_not_digit] by (auto simp: dec_of_int_def)

lemma demo_library_ok: "library_ok demo_library"
proof -
  have "demo_decode (demo_encode r) = Some r" for r by (simp add: demo_decode_def demo_encode_def)
  moreover have "t = u" if "dec_of_int t = dec_of_int u" for t u using that by (metis int_of_dec_of_int)
  ultimately show ?thesis
    using underscore_notin_int by (fastforce simp: library_ok_def demo_library_def)
qed

definition demo_campaign :: campaign where
  "demo_campaign = \<lparr>cp_RawRoot = ''s3://b'', cp_Campaign = ''c'', cp_Site = ''eu'', cp_Protocol = ''icmp'', cp_Binding = ''b'',
     cp_RetryIncomplete = False, cp_RetainLocal = False\<rparr>"

definition demo_site :: site where
  "demo_site = \<lparr>si_steps = [], si_dirs = (\<lambda>_. None), si_archive = [], si_receipts = (\<lambda>_. None), si_objects = (\<lambda>_. None)\<rparr>"

text \<open>The tool writes its files and commits them.\<close>

definition demo_tool :: "step \<Rightarrow> site \<Rightarrow> site list \<times> bool" where
  "demo_tool s w = ([w\<lparr>si_dirs := (si_dirs w)((''ipid'', sp_ID s) \<mapsto> [''ipid.pq'' \<mapsto> ''data'', ''ipid.snapshot.yaml'' \<mapsto> ''settings'']),
      si_objects := (si_objects w)(marker_uri demo_campaign ''ipid'' (sp_ID s) \<mapsto> sp_ID s)\<rparr>], True)"

lemma demo_tool_keeps: "tool_keeps_steps demo_tool"
  by (simp add: tool_keeps_steps_def demo_tool_def)

definition demo_run :: "outcomes \<Rightarrow> string \<Rightarrow> site \<Rightarrow> (campaign_error + string) \<times> site list" where
  "demo_run ok name w = measure_step demo_library demo_campaign works ok demo_tool 7 name ''ipid'' ''icmp'' [''-n''] w"

text \<open>After a run whose last operation, the removal of the bulk file, failed.\<close>

definition demo_stopped :: site where
  "demo_stopped = last (demo_site # snd (demo_run (\<lambda>x. x \<noteq> RemoveFile) ''rt'' demo_site))"

theorem measure_returns_durable_witness:
  "step_done demo_library demo_campaign ''rt'' ''ipid'' [''-n''] ''icmp_7_'' (last (demo_site # snd (demo_run works ''rt'' demo_site)))"
proof (rule measure_returns_durable [OF demo_library_ok demo_tool_keeps])
  have "fst (demo_run works ''rt'' demo_site) = Inr ''icmp_7_''" by code_simp
  then show "measure_step demo_library demo_campaign works works demo_tool 7 ''rt'' ''ipid'' ''icmp'' [''-n''] demo_site
      = (Inr ''icmp_7_'', snd (demo_run works ''rt'' demo_site))" by (simp add: demo_run_def prod_eq_iff)
qed

theorem measured_stays_measured_witness:
  "fst (demo_run (\<lambda>x. x \<noteq> RemoveFile) ''rt'' demo_site) = Inl NotRemoved
    \<and> fst (measure_step demo_library demo_campaign works works demo_tool 9 ''rt'' ''ipid'' ''icmp'' [''-n''] demo_stopped) = Inr ''icmp_7_''"
proof
  have "step_done demo_library demo_campaign ''rt'' ''ipid'' [''-n''] ''icmp_7_'' demo_stopped" by code_simp
  then show "fst (measure_step demo_library demo_campaign works works demo_tool 9 ''rt'' ''ipid'' ''icmp'' [''-n''] demo_stopped)
      = Inr ''icmp_7_''"
    using measured_stays_measured [OF demo_library_ok, of _ _ _ _ _ _ demo_stopped] by (metis list.set_intros(1))
qed code_simp

theorem step_ids_distinct_witness:
  "map (sp_ID \<circ> snd) (si_steps (last (snd (demo_run works ''mass'' demo_stopped)))) = [''icmp_8_'', ''icmp_7_'']
    \<and> distinct (map (sp_ID \<circ> snd) (si_steps (last (snd (demo_run works ''mass'' demo_stopped)))))"
proof
  let ?m = "snd (demo_run works ''mass'' demo_stopped)"
  have stopped: "demo_stopped = last (snd (demo_run (\<lambda>x. x \<noteq> RemoveFile) ''rt'' demo_site))"
    and one: "snd (demo_run (\<lambda>x. x \<noteq> RemoveFile) ''rt'' demo_site) \<noteq> []"
  proof -
    show one: "snd (demo_run (\<lambda>x. x \<noteq> RemoveFile) ''rt'' demo_site) \<noteq> []" by code_simp
    show "demo_stopped = last (snd (demo_run (\<lambda>x. x \<noteq> RemoveFile) ''rt'' demo_site))"
      unfolding demo_stopped_def using one by simp
  qed
  have run: "site_reachable demo_library demo_campaign (last (snd (demo_run ok name w)))"
    if "site_reachable demo_library demo_campaign w" "snd (demo_run ok name w) \<noteq> []" for ok name w
    using last_in_set [OF that(2)] unfolding demo_run_def
    by (rule site_reachable.run [OF that(1) _ demo_tool_keeps, rotated]) simp
  have "site_reachable demo_library demo_campaign demo_stopped"
    unfolding stopped by (rule run [OF site_reachable.start one]) (simp add: demo_site_def)
  moreover have "?m \<noteq> []" by code_simp
  ultimately have "site_reachable demo_library demo_campaign (last ?m)" by (rule run)
  then show "distinct (map (sp_ID \<circ> snd) (si_steps (last ?m)))"
    using step_ids_distinct [OF demo_library_ok] by blast
qed code_simp

theorem cleanup_keeps_copy_witness:
  "local_file demo_stopped ''ipid'' ''icmp_7_'' ''ipid.pq'' = Some ''data''
    \<and> (let w = last (snd (committed demo_library demo_campaign works ''ipid'' (snd (hd (si_steps demo_stopped))) demo_stopped))
        in local_file w ''ipid'' ''icmp_7_'' ''ipid.pq'' = None
          \<and> (\<exists>m. lb_decode_marker demo_library ''icmp_7_'' = Some m \<and> map_of (mk_Files m) ''ipid.pq'' = Some (Evidence demo_library ''data'')))"
proof -
  let ?ws = "snd (committed demo_library demo_campaign works ''ipid'' (snd (hd (si_steps demo_stopped))) demo_stopped)"
  have facts: "local_file demo_stopped ''ipid'' ''icmp_7_'' ''ipid.pq'' = Some ''data''" "?ws \<noteq> []"
    "local_file (last ?ws) ''ipid'' ''icmp_7_'' ''ipid.pq'' = None"
    "si_objects demo_stopped (marker_uri demo_campaign ''ipid'' ''icmp_7_'') = Some ''icmp_7_''"
    by code_simp+
  have "last ?ws \<in> set ?ws" by (rule last_in_set) (rule facts)
  note kept = conjunct2 [OF cleanup_keeps_copy [OF this], rule_format, OF facts(1)]
  have "\<exists>m. lb_decode_marker demo_library ''icmp_7_'' = Some m \<and> map_of (mk_Files m) ''ipid.pq'' = Some (Evidence demo_library ''data'')"
    using kept facts(3,4) by (metis option.distinct(1) option.inject)
  then show ?thesis using facts(1,3) unfolding Let_def by blast
qed

end
