(* ===== verification/Traced.thy ===== *)
theory Traced
  imports Main
begin

text \<open>
  Operations that may fail and that may be cut short: an operation maps a state to its result, an error or a
  value, and to the list of the states it went through, the last of which it leaves behind. A crash leaves any of
  them. Sequencing stops at the first error, as Go's early returns do. \<open>traced_ok\<close> is the triple of this
  sequencing with a condition on every intermediate state.
\<close>

section \<open>Operations\<close>

type_synonym ('s, 'e, 'a) traced = "'s \<Rightarrow> ('e + 'a) \<times> 's list"

definition tr_return :: "'a \<Rightarrow> ('s, 'e, 'a) traced" where
  "tr_return a w = (Inr a, [])"

definition tr_fail :: "'e \<Rightarrow> ('s, 'e, 'a) traced" where
  "tr_fail e w = (Inl e, [])"

definition tr_bind :: "('s, 'e, 'a) traced \<Rightarrow> ('a \<Rightarrow> ('s, 'e, 'b) traced) \<Rightarrow> ('s, 'e, 'b) traced" where
  "tr_bind m f w =
     (case m w of
        (Inl e, ws) \<Rightarrow> (Inl e, ws)
      | (Inr a, ws) \<Rightarrow> (case f a (last (w # ws)) of (r, vs) \<Rightarrow> (r, ws @ vs)))"

definition tr_seq :: "('s, 'e, 'a) traced \<Rightarrow> ('s, 'e, 'b) traced \<Rightarrow> ('s, 'e, 'b) traced" where
  "tr_seq m n = tr_bind m (\<lambda>_. n)"

text \<open>A look at the state, a change of it, and an operation that depends on it.\<close>

definition tr_get :: "('s \<Rightarrow> 'a) \<Rightarrow> ('s, 'e, 'a) traced" where
  "tr_get f w = (Inr (f w), [])"

definition tr_update :: "('s \<Rightarrow> 's) \<Rightarrow> ('s, 'e, unit) traced" where
  "tr_update f w = (Inr (), [f w])"

definition tr_check :: "bool \<Rightarrow> 'e \<Rightarrow> ('s, 'e, unit) traced" where
  "tr_check b e = (if b then tr_return () else tr_fail e)"

fun tr_each :: "('a \<Rightarrow> ('s, 'e, 'b) traced) \<Rightarrow> 'a list \<Rightarrow> ('s, 'e, 'b list) traced" where
  "tr_each f [] = tr_return []"
| "tr_each f (x # xs) = tr_bind (f x) (\<lambda>y. tr_bind (tr_each f xs) (\<lambda>ys. tr_return (y # ys)))"


section \<open>Triples\<close>

named_theorems traced_rules

definition traced_ok :: "('s \<Rightarrow> bool) \<Rightarrow> ('s, 'e, 'a) traced \<Rightarrow> ('s \<Rightarrow> bool) \<Rightarrow> ('a \<Rightarrow> 's \<Rightarrow> bool) \<Rightarrow> bool" where
  "traced_ok P m I Q \<longleftrightarrow> (\<forall>w. P w \<longrightarrow>
     (\<forall>w' \<in> set (snd (m w)). I w') \<and> (\<forall>a. fst (m w) = Inr a \<longrightarrow> Q a (last (w # snd (m w)))))"

lemma traced_okI:
  "(\<And>w w'. P w \<Longrightarrow> w' \<in> set (snd (m w)) \<Longrightarrow> I w') \<Longrightarrow> (\<And>w a. P w \<Longrightarrow> fst (m w) = Inr a \<Longrightarrow> Q a (last (w # snd (m w))))
     \<Longrightarrow> traced_ok P m I Q"
  by (simp add: traced_ok_def)

lemma traced_ok_state: "traced_ok P m I Q \<Longrightarrow> P w \<Longrightarrow> w' \<in> set (snd (m w)) \<Longrightarrow> I w'"
  by (simp add: traced_ok_def)

lemma traced_ok_result: "traced_ok P m I Q \<Longrightarrow> P w \<Longrightarrow> m w = (Inr a, ws) \<Longrightarrow> Q a (last (w # ws))"
  by (fastforce simp: traced_ok_def)

lemma traced_ok_bind:
  assumes "traced_ok P m I Q" "\<And>a. traced_ok (Q a) (f a) I R"
  shows "traced_ok P (tr_bind m f) I R"
proof (rule traced_okI)
  fix w w'
  assume w: "P w" "w' \<in> set (snd (tr_bind m f w))"
  obtain r ws where m: "m w = (r, ws)" by fastforce
  have ws: "\<And>v. v \<in> set ws \<Longrightarrow> I v" using traced_ok_state [OF assms(1) w(1)] m by simp
  show "I w'"
  proof (cases r)
    case (Inl e)
    then show ?thesis using w(2) m ws by (simp add: tr_bind_def)
  next
    case (Inr a)
    then have "w' \<in> set ws \<or> w' \<in> set (snd (f a (last (w # ws))))"
      using w(2) m by (auto simp: tr_bind_def simp del: last.simps split: prod.splits)
    moreover have "Q a (last (w # ws))" using traced_ok_result [OF assms(1) w(1)] m Inr by simp
    ultimately show ?thesis using ws traced_ok_state [OF assms(2)] by blast
  qed
next
  fix w b
  assume w: "P w" "fst (tr_bind m f w) = Inr b"
  obtain r ws where m: "m w = (r, ws)" by fastforce
  obtain a where r: "r = Inr a" using w(2) m by (cases r) (simp_all add: tr_bind_def)
  obtain s vs where f: "f a (last (w # ws)) = (s, vs)" by fastforce
  have "Q a (last (w # ws))" using traced_ok_result [OF assms(1) w(1)] m r by simp
  moreover have "s = Inr b" using w(2) m r f by (simp add: tr_bind_def)
  ultimately have "R b (last (last (w # ws) # vs))" using traced_ok_result [OF assms(2)] f by blast
  moreover have "last (last (w # ws) # vs) = last (w # snd (tr_bind m f w))"
    using m r f by (simp add: tr_bind_def)
  ultimately show "R b (last (w # snd (tr_bind m f w)))" by simp
qed

lemma traced_ok_seq: "traced_ok P m I (\<lambda>_. Q) \<Longrightarrow> traced_ok Q n I R \<Longrightarrow> traced_ok P (tr_seq m n) I R"
  unfolding tr_seq_def by (rule traced_ok_bind)

lemma traced_ok_return: "(\<And>w. P w \<Longrightarrow> Q a w) \<Longrightarrow> traced_ok P (tr_return a) I Q"
  by (simp add: traced_ok_def tr_return_def)

lemma traced_ok_fail: "traced_ok P (tr_fail e) I Q"
  by (simp add: traced_ok_def tr_fail_def)

lemma traced_ok_get: "(\<And>w. P w \<Longrightarrow> Q (f w) w) \<Longrightarrow> traced_ok P (tr_get f) I Q"
  by (simp add: traced_ok_def tr_get_def)

lemma traced_ok_update: "(\<And>w. P w \<Longrightarrow> I (f w) \<and> Q () (f w)) \<Longrightarrow> traced_ok P (tr_update f) I Q"
  by (simp add: traced_ok_def tr_update_def)

lemma traced_ok_check: "(\<And>w. P w \<Longrightarrow> b \<Longrightarrow> Q () w) \<Longrightarrow> traced_ok P (tr_check b e) I Q"
  by (simp add: tr_check_def traced_ok_return traced_ok_fail)

lemma traced_ok_if:
  "(b \<Longrightarrow> traced_ok P m I Q) \<Longrightarrow> (\<not> b \<Longrightarrow> traced_ok P n I Q) \<Longrightarrow> traced_ok P (if b then m else n) I Q"
  by simp

lemma traced_ok_pre: "traced_ok P m I Q \<Longrightarrow> (\<And>w. P' w \<Longrightarrow> P w) \<Longrightarrow> traced_ok P' m I Q"
  unfolding traced_ok_def by blast

lemma traced_ok_post: "traced_ok P m I Q \<Longrightarrow> (\<And>a w. Q a w \<Longrightarrow> Q' a w) \<Longrightarrow> (\<And>w. I w \<Longrightarrow> I' w) \<Longrightarrow> traced_ok P m I' Q'"
  unfolding traced_ok_def by blast

lemma traced_ok_each:
  assumes "\<And>x. x \<in> set xs \<Longrightarrow> traced_ok P (f x) I (\<lambda>_. P)"
  shows "traced_ok P (tr_each f xs) I (\<lambda>_. P)"
  using assms
proof (induction xs)
  case Nil
  then show ?case by (simp add: traced_ok_return)
next
  case (Cons x xs)
  then show ?case
    by (auto intro!: traced_ok_bind [where Q = "\<lambda>_. P"] traced_ok_return)
qed

text \<open>The parts of an operation that succeeded.\<close>

lemma tr_bind_InrE:
  assumes "tr_bind m f w = (Inr b, ws)"
  obtains a us vs where "m w = (Inr a, us)" "f a (last (w # us)) = (Inr b, vs)" "ws = us @ vs"
  using assms by (auto simp: tr_bind_def simp del: last.simps split: prod.splits sum.splits)

lemma tr_seq_InrE:
  assumes "tr_seq m n w = (Inr b, ws)"
  obtains a us vs where "m w = (Inr a, us)" "n (last (w # us)) = (Inr b, vs)" "ws = us @ vs"
  using assms unfolding tr_seq_def by (rule tr_bind_InrE)

lemma tr_check_Inr: "tr_check b e w = (Inr u, ws) \<longleftrightarrow> b \<and> ws = []"
  by (auto simp: tr_check_def tr_return_def tr_fail_def)

lemma tr_return_Inr: "tr_return a w = (Inr b, ws) \<longleftrightarrow> b = a \<and> ws = []"
  by (auto simp: tr_return_def)

lemma tr_fail_Inr: "tr_fail e w \<noteq> (Inr b, ws)"
  by (simp add: tr_fail_def)

lemma tr_get_Inr: "tr_get f w = (Inr b, ws) \<longleftrightarrow> b = f w \<and> ws = []"
  by (auto simp: tr_get_def)

lemma tr_bind_get: "tr_bind (tr_get g) f w = f (g w) w"
  by (simp add: tr_bind_def tr_get_def split: prod.split)

lemmas tr_Inr = tr_check_Inr tr_return_Inr tr_fail_Inr tr_get_Inr tr_bind_get

lemmas [traced_rules] = traced_ok_return traced_ok_fail traced_ok_get traced_ok_update traced_ok_check

end
