(* ===== verification/Postprocess.thy ===== *)
theory Postprocess
  imports Publication Traced Ids Codec
begin

text \<open>
  \<^verbatim>\<open>internal/postprocessworkflow\<close>: the publication of an analysis job for the measurements of one protocol. The
  measurement identifiers are validated, the OS policy of the job is recorded once, and the manifest and the
  request are uploaded. The state is the local job files and the object store; every file and S3 command
  may fail, with or without its effect. JSON, YAML and \<^verbatim>\<open>s3cmd ls\<close> are parameters.
\<close>

section \<open>URIs and paths\<close>

definition trim_slash :: "string \<Rightarrow> string" where
  "trim_slash s = dropWhile (\<lambda>c. c = CHR ''/'') (trim_slashes s)"

definition joinS3 :: "string \<Rightarrow> string list \<Rightarrow> string" where
  "joinS3 prefix parts = foldl (\<lambda>value part. value @ ''/'' @ trim_slash part) (trim_slashes prefix) parts"

text \<open>White space and \<open>strings.Fields\<close> on ASCII text.\<close>

definition white :: "char \<Rightarrow> bool" where
  "white c = (let n = of_char c :: nat in n = 32 \<or> (9 \<le> n \<and> n \<le> 13))"

fun words_of :: "string \<Rightarrow> string \<Rightarrow> string list" where
  "words_of acc [] = (if acc = [] then [] else [acc])"
| "words_of acc (c # cs) =
     (if white c then (if acc = [] then words_of [] cs else acc # words_of [] cs) else words_of (acc @ [c]) cs)"

definition Fields :: "string \<Rightarrow> string list" where "Fields = words_of []"

text \<open>The last field of some line of \<open>s3cmd ls\<close> is the URI.\<close>

definition listed :: "string \<Rightarrow> string \<Rightarrow> bool" where
  "listed output uri \<longleftrightarrow>
     list_ex (\<lambda>line. Fields line \<noteq> [] \<and> last (Fields line) = uri) (split_on (char_of (10 :: nat)) output)"

definition requireS3 :: "string \<Rightarrow> bool" where
  "requireS3 value \<longleftrightarrow> take 5 value = ''s3://'' \<and> Fields (drop 5 value) \<noteq> []"

definition base_name :: "string \<Rightarrow> string" where
  "base_name p =
     (if p = [] then ''.''
      else let q = trim_slashes p in if q = [] then ''/'' else rev (takeWhile (\<lambda>c. c \<noteq> CHR ''/'') (rev q)))"

definition sibling :: "string \<Rightarrow> string \<Rightarrow> string" where
  "sibling path name = (case split_last (CHR ''/'') path of None \<Rightarrow> name | Some (dir, _) \<Rightarrow> dir @ ''/'' @ name)"


section \<open>Measurements of a job\<close>

record measurements =
  ms_SkipOS :: bool
  ms_ZMap :: string
  ms_OS :: string
  ms_RTBase :: string
  ms_FixedMass :: string
  ms_FixedBase :: string
  ms_ConnectionTarget :: string
  ms_FixedBaseTarget :: string
  ms_ConnectionRTBase :: string
  ms_ConnectionFIBase :: string
  ms_Repeats :: "string list"
  ms_MaximumTargets :: int
  ms_SelectionSeed :: int

datatype measurements_error = OSWithSkip | IDRequired | InvalidZMapID | FiveRepeats | MaximumRange | RepeatsUnique
  | ConnectionTogether | ConnectionOnlyTCP | ConnectionTargetAlone | InvalidID string | OtherProtocol string

fun has_duplicate :: "string list \<Rightarrow> bool" where
  "has_duplicate [] = False"
| "has_duplicate (x # xs) = (x \<in> set xs \<or> has_duplicate xs)"

fun check_ids :: "payload_name \<Rightarrow> u16 option \<Rightarrow> string list \<Rightarrow> measurements_error option" where
  "check_ids payload port [] = None"
| "check_ids payload port (i # is) =
     (case ParseMeasurementID i of
        Inl _ \<Rightarrow> Some (InvalidID i)
      | Inr (candidatePayload, candidatePort, _) \<Rightarrow>
          if candidatePayload \<noteq> payload \<or> candidatePort \<noteq> port then Some (OtherProtocol i)
          else check_ids payload port is)"

definition all_ids :: "measurements \<Rightarrow> string list" where
  "all_ids m = [ms_RTBase m, ms_FixedMass m, ms_FixedBase m] @ (if ms_SkipOS m then [] else [ms_OS m])
     @ (if length (ms_Repeats m) = 5 then ms_Repeats m else [])
     @ (if ms_ConnectionRTBase m \<noteq> [] then [ms_ConnectionRTBase m, ms_ConnectionFIBase m] else [])"

definition validateMeasurements :: "measurements \<Rightarrow> measurements_error + payload_name" where
  "validateMeasurements m =
     (if ms_SkipOS m \<and> ms_OS m \<noteq> [] then Inl OSWithSkip
      else if [] \<in> set ([ms_ZMap m, ms_RTBase m, ms_FixedMass m, ms_FixedBase m] @ (if ms_SkipOS m then [] else [ms_OS m]))
        then Inl IDRequired
      else case ParseMeasurementID (ms_ZMap m) of
        Inl _ \<Rightarrow> Inl InvalidZMapID
      | Inr (payload, port, _) \<Rightarrow>
          if length (ms_Repeats m) \<noteq> 0 \<and> length (ms_Repeats m) \<noteq> 5 then Inl FiveRepeats
          else if length (ms_Repeats m) = 5 \<and> (ms_MaximumTargets m < 0 \<or> ms_MaximumTargets m > 10000) then Inl MaximumRange
          else if length (ms_Repeats m) = 5 \<and> has_duplicate (ms_Repeats m) then Inl RepeatsUnique
          else if (ms_ConnectionRTBase m = []) \<noteq> (ms_ConnectionFIBase m = []) then Inl ConnectionTogether
          else if ms_ConnectionRTBase m \<noteq> [] \<and> payload \<noteq> ''tcp'' then Inl ConnectionOnlyTCP
          else if ms_ConnectionTarget m \<noteq> [] \<and> (payload \<noteq> ''tcp'' \<or> ms_ConnectionRTBase m = []) then Inl ConnectionTargetAlone
          else case check_ids payload port (all_ids m) of
            Some e \<Rightarrow> Inl e
          | None \<Rightarrow> Inr payload)"

record interval_measurements =
  im_RTBased :: "string \<times> string"
  im_FixedInterval :: "string \<times> string"

record reproducibility =
  rr_Baseline :: string
  rr_Repeats :: "string list"
  rr_TargetFile :: string
  rr_CohortFile :: string
  rr_PrepareMetadataFile :: string
  rr_SelectionSeed :: int
  rr_MaximumTargets :: int

record protocol_measurements =
  pm_OSStatus :: string
  pm_ConnectionTarget :: string
  pm_ZMap :: string
  pm_OS :: string
  pm_NoConnection :: interval_measurements
  pm_Connection :: "interval_measurements option"
  pm_RandomReproducibility :: "reproducibility option"

text \<open>A manifest is a map with one entry; the pairs of an interval are base and mass.\<close>

type_synonym manifest = "(string \<times> protocol_measurements) list"

definition BuildManifest :: "string \<Rightarrow> measurements \<Rightarrow> manifest" where
  "BuildManifest protocol m =
     [(protocol,
       \<lparr>pm_OSStatus = (if ms_SkipOS m then ''not_requested'' else []),
        pm_ConnectionTarget = (if ms_ConnectionTarget m \<noteq> [] then ''zmap-connection-sample.pq'' else []),
        pm_ZMap = ms_ZMap m,
        pm_OS = (if ms_SkipOS m then [] else ms_OS m),
        pm_NoConnection = \<lparr>im_RTBased = (ms_RTBase m, []), im_FixedInterval = (ms_FixedBase m, ms_FixedMass m)\<rparr>,
        pm_Connection = (if ms_ConnectionRTBase m \<noteq> []
          then Some \<lparr>im_RTBased = (ms_ConnectionRTBase m, []), im_FixedInterval = (ms_ConnectionFIBase m, [])\<rparr> else None),
        pm_RandomReproducibility = (if length (ms_Repeats m) = 5
          then Some \<lparr>rr_Baseline = ms_FixedMass m, rr_Repeats = ms_Repeats m,
            rr_TargetFile = ''random-reproducibility-targets.pq'', rr_CohortFile = ''random-reproducibility-cohort.pq'',
            rr_PrepareMetadataFile = ''random-reproducibility-prepare.json'',
            rr_SelectionSeed = ms_SelectionSeed m, rr_MaximumTargets = ms_MaximumTargets m\<rparr> else None)\<rparr>)]"


section \<open>Files and objects\<close>

record job_site =
  jb_local :: "string \<rightharpoonup> string"
  jb_remote :: store

record os_policy =
  op_Version :: int
  op_JobID :: string
  op_Status :: string

record job_request =
  rq_OSStatus :: string
  rq_ConnectionTargetURI :: string
  rq_Version :: int
  rq_JobID :: string
  rq_Protocol :: string
  rq_ManifestURI :: string
  rq_ZMapPrefix :: string
  rq_OSPrefix :: string
  rq_IPIDPrefix :: string
  rq_DoneURI :: string
  rq_FailedURI :: string
  rq_FixedBaseTargetURI :: string
  rq_CreatedAt :: string

text \<open>A configuration file: the upload destination and the prefix of the analysis workflow.\<close>

record upload_file =
  uf_S3Destination :: string
  uf_S3Prefix :: string

record job_library =
  jl_decode_policy :: "string \<Rightarrow> os_policy option"
  jl_encode_policy :: "os_policy \<Rightarrow> string"
  jl_decode_manifest :: "string \<Rightarrow> manifest option"
  jl_encode_manifest :: "manifest \<Rightarrow> string"
  jl_encode_request :: "job_request \<Rightarrow> string"
  jl_decode_config :: "string \<Rightarrow> upload_file option"
  jl_ls :: "store \<Rightarrow> string \<Rightarrow> string"

text \<open>
  What the code relies on: a value that was written is read back, and \<^verbatim>\<open>s3cmd ls\<close> lists an object under its URI if and
  only if it exists, for URIs without white space.
\<close>

definition job_library_ok :: "job_library \<Rightarrow> bool" where
  "job_library_ok L \<longleftrightarrow> (\<forall>p. jl_decode_policy L (jl_encode_policy L p) = Some p)
     \<and> (\<forall>m. jl_decode_manifest L (jl_encode_manifest L m) = Some m)
     \<and> (\<forall>s uri. uri \<noteq> [] \<longrightarrow> list_all (\<lambda>c. \<not> white c) uri \<longrightarrow>
          listed (jl_ls L s uri) uri = (s uri \<noteq> None))"

datatype job_operation = ReadJobFile string | MakeDirectory string | ListObject string | TempFile | GetObject string
  | WriteJobFile string | PutObject string | RegularJobFile string

datatype job_error = BadMeasurements measurements_error | BadZMapID | NotS3 | FileError string | ConfigUndecodable string
  | RemoteError string | PolicyUndecodable | PolicyDiffers | ManifestUndecodable | ManifestWrongProtocol
  | ManifestInvalidPolicy | ManifestInconsistentPolicy | ManifestPolicyDiffers | TargetName string | TargetNotRegular string

type_synonym job_outcomes = "job_operation \<Rightarrow> access"
type_synonym 'a job = "(job_site, job_error, 'a) traced"

definition read_file :: "job_outcomes \<Rightarrow> string \<Rightarrow> string option job" where
  "read_file ok path =
     (if ok (ReadJobFile path) = Works then tr_get (\<lambda>w. jb_local w path) else tr_fail (FileError path))"

definition put_object :: "job_outcomes \<Rightarrow> string \<Rightarrow> string \<Rightarrow> unit job" where
  "put_object ok content uri =
     (let put = tr_update (\<lambda>w. w\<lparr>jb_remote := (jb_remote w)(uri \<mapsto> content)\<rparr>)
      in case ok (PutObject uri) of
           Works \<Rightarrow> put
         | Fails \<Rightarrow> tr_fail (RemoteError uri)
         | FailsAfterEffect \<Rightarrow> tr_seq put (tr_fail (RemoteError uri)))"

text \<open>\<open>writeJSON\<close>: the file appears with its content by a rename.\<close>

definition write_file :: "job_outcomes \<Rightarrow> string \<Rightarrow> string \<Rightarrow> unit job" where
  "write_file ok path content =
     (let write = tr_update (\<lambda>w. w\<lparr>jb_local := (jb_local w)(path \<mapsto> content)\<rparr>)
      in case ok (WriteJobFile path) of
           Works \<Rightarrow> write
         | Fails \<Rightarrow> tr_fail (FileError path)
         | FailsAfterEffect \<Rightarrow> tr_seq write (tr_fail (FileError path)))"

text \<open>\<open>readRemoteObject\<close>: \<^verbatim>\<open>ls\<close>, then \<^verbatim>\<open>get\<close> into a temporary file.\<close>

definition readRemoteObject :: "job_library \<Rightarrow> job_outcomes \<Rightarrow> string \<Rightarrow> string option job" where
  "readRemoteObject L ok uri =
     tr_seq (tr_check (ok (ListObject uri) = Works) (RemoteError uri))
       (tr_bind (tr_get (\<lambda>w. listed (jl_ls L (jb_remote w) uri) uri)) (\<lambda>exists.
          if \<not> exists then tr_return None
          else tr_seq (tr_check (ok TempFile = Works) (FileError uri))
            (tr_bind (tr_get (\<lambda>w. jb_remote w uri)) (\<lambda>object.
               case object of
                 None \<Rightarrow> tr_fail (RemoteError uri)
               | Some data \<Rightarrow> tr_seq (tr_check (ok (GetObject uri) = Works) (RemoteError uri)) (tr_return (Some data))))))"


section \<open>The OS policy of a job\<close>

definition checkManifestPolicy :: "job_library \<Rightarrow> string \<Rightarrow> string \<Rightarrow> bool \<Rightarrow> job_error option" where
  "checkManifestPolicy L data protocol skip =
     (case jl_decode_manifest L data of
        None \<Rightarrow> Some ManifestUndecodable
      | Some m \<Rightarrow>
          (case map_of m protocol of
             None \<Rightarrow> Some ManifestWrongProtocol
           | Some s \<Rightarrow>
               if pm_OSStatus s \<noteq> [] \<and> pm_OSStatus s \<noteq> ''not_requested'' then Some ManifestInvalidPolicy
               else let disabled = (pm_OSStatus s = ''not_requested'') in
                 if disabled \<noteq> (pm_OS s = []) then Some ManifestInconsistentPolicy
                 else if disabled \<noteq> skip then Some ManifestPolicyDiffers
                 else None))"

definition expected_policy :: "string \<Rightarrow> bool \<Rightarrow> os_policy" where
  "expected_policy zmap skip =
     \<lparr>op_Version = 1, op_JobID = zmap, op_Status = (if skip then ''not_requested'' else ''requested'')\<rparr>"

definition check_policy :: "job_library \<Rightarrow> os_policy \<Rightarrow> string \<Rightarrow> job_error option" where
  "check_policy L expected data =
     (case jl_decode_policy L data of
        None \<Rightarrow> Some PolicyUndecodable
      | Some previous \<Rightarrow> if previous \<noteq> expected then Some PolicyDiffers else None)"

text \<open>A check of what was read, if it exists.\<close>

definition check_read :: "(string \<Rightarrow> job_error option) \<Rightarrow> string option \<Rightarrow> unit job" where
  "check_read check object =
     (case object of
        None \<Rightarrow> tr_return ()
      | Some data \<Rightarrow> (case check data of None \<Rightarrow> tr_return () | Some e \<Rightarrow> tr_fail e))"

definition job_prefix :: "string \<Rightarrow> string \<Rightarrow> string" where
  "job_prefix prefix zmap = joinS3 prefix [''analysis-jobs'', zmap]"

definition job_path :: "string \<Rightarrow> string \<Rightarrow> string \<Rightarrow> string" where
  "job_path outputRoot zmap name = outputRoot @ ''/'' @ zmap @ ''/'' @ name"

definition recordOSPolicy ::
  "job_library \<Rightarrow> job_outcomes \<Rightarrow> string \<Rightarrow> bool \<Rightarrow> string \<Rightarrow> string \<Rightarrow> string job" where
  "recordOSPolicy L ok zmap skip prefix outputRoot =
     (case ParseMeasurementID zmap of
        Inl _ \<Rightarrow> tr_fail BadZMapID
      | Inr (payload, _, _) \<Rightarrow>
          let expected = expected_policy zmap skip;
              path = job_path outputRoot zmap ''os-policy.json'';
              job = job_prefix prefix zmap;
              uri = joinS3 job [''os-policy.json'']
          in tr_seq (tr_check (requireS3 prefix) NotS3)
            (tr_seq (tr_check (ok (MakeDirectory zmap) = Works) (FileError zmap))
            (tr_seq (tr_bind (read_file ok path) (check_read (check_policy L expected)))
            (tr_seq (tr_bind (read_file ok (job_path outputRoot zmap ''manifest.json''))
                       (check_read (\<lambda>d. checkManifestPolicy L d payload skip)))
            (tr_bind (readRemoteObject L ok uri) (\<lambda>old.
             tr_seq (check_read (check_policy L expected) old)
            (tr_seq (tr_bind (readRemoteObject L ok (joinS3 job [''manifest.json'']))
                       (check_read (\<lambda>d. checkManifestPolicy L d payload skip)))
            (tr_seq (write_file ok path (jl_encode_policy L expected))
            (tr_seq (if old = None then put_object ok (jl_encode_policy L expected) uri else tr_return ())
            (tr_return uri))))))))))"


section \<open>Publication of a job\<close>

definition loadConfig :: "job_library \<Rightarrow> job_outcomes \<Rightarrow> string \<Rightarrow> upload_file job" where
  "loadConfig L ok path =
     tr_bind (read_file ok path) (\<lambda>content.
       case content of
         None \<Rightarrow> tr_fail (FileError path)
       | Some data \<Rightarrow>
           (case jl_decode_config L data of None \<Rightarrow> tr_fail (ConfigUndecodable path) | Some c \<Rightarrow> tr_return c))"

text \<open>A sampled target and its metadata, if there is one: checked, then uploaded; the result is its URI.\<close>

definition regular_file :: "job_outcomes \<Rightarrow> string \<Rightarrow> string job" where
  "regular_file ok path =
     tr_bind (tr_get (\<lambda>w. jb_local w path)) (\<lambda>content.
       case content of
         None \<Rightarrow> tr_fail (FileError path)
       | Some data \<Rightarrow>
           tr_seq (tr_check (ok (RegularJobFile path) = Works \<and> data \<noteq> []) (TargetNotRegular path)) (tr_return data))"

definition upload_target ::
  "job_outcomes \<Rightarrow> string \<Rightarrow> string \<Rightarrow> string \<times> string \<times> string \<Rightarrow> string job" where
  "upload_target ok destination zmap target =
     (case target of (path, name, metadata) \<Rightarrow>
        if path = [] then tr_return []
        else tr_seq (tr_check (base_name path = name) (TargetName name))
          (tr_bind (regular_file ok path) (\<lambda>data.
           tr_bind (regular_file ok (sibling path metadata)) (\<lambda>metadata_data.
           let uri = joinS3 destination [zmap, name] in
           tr_seq (put_object ok data uri)
          (tr_seq (put_object ok metadata_data (joinS3 destination [zmap, metadata]))
          (tr_return uri))))))"

record config_paths =
  cf_ZMap :: string
  cf_OS :: string
  cf_IPID :: string

definition job_request_of :: "measurements \<Rightarrow> string \<Rightarrow> upload_file \<Rightarrow> upload_file \<Rightarrow> upload_file \<Rightarrow> string \<Rightarrow> job_request" where
  "job_request_of m protocol zmapConfig osConfig ipidConfig now =
     (let prefix = job_prefix (uf_S3Prefix ipidConfig) (ms_ZMap m)
      in \<lparr>rq_OSStatus = (if ms_SkipOS m then ''not_requested'' else []), rq_ConnectionTargetURI = [],
          rq_Version = 1, rq_JobID = ms_ZMap m, rq_Protocol = protocol, rq_ManifestURI = joinS3 prefix [''manifest.json''],
          rq_ZMapPrefix = uf_S3Destination zmapConfig, rq_OSPrefix = uf_S3Destination osConfig,
          rq_IPIDPrefix = uf_S3Destination ipidConfig, rq_DoneURI = joinS3 prefix [''done.json''],
          rq_FailedURI = joinS3 prefix [''failed.json''], rq_FixedBaseTargetURI = [], rq_CreatedAt = now\<rparr>)"

definition publish_configured ::
  "job_library \<Rightarrow> job_outcomes \<Rightarrow> measurements \<Rightarrow> string \<Rightarrow> upload_file \<Rightarrow> upload_file \<Rightarrow> upload_file \<Rightarrow> string \<Rightarrow> string \<Rightarrow> string job" where
  "publish_configured L ok m protocol zmapConfig osConfig ipidConfig outputRoot now =
     (let prefix = uf_S3Prefix ipidConfig;
          job = job_prefix prefix (ms_ZMap m);
          request = job_request_of m protocol zmapConfig osConfig ipidConfig now;
          manifest = jl_encode_manifest L (BuildManifest protocol m);
          requestURI = joinS3 job [''request.json'']
      in tr_seq (tr_check (requireS3 (uf_S3Destination zmapConfig) \<and> requireS3 (uf_S3Destination ipidConfig)
              \<and> requireS3 prefix \<and> (ms_SkipOS m \<or> requireS3 (uf_S3Destination osConfig))) NotS3)
        (tr_seq (tr_check (ok (MakeDirectory (ms_ZMap m)) = Works) (FileError (ms_ZMap m)))
        (tr_seq (recordOSPolicy L ok (ms_ZMap m) (ms_SkipOS m) prefix outputRoot)
        (tr_bind (upload_target ok (uf_S3Destination zmapConfig) (ms_ZMap m)
            (ms_FixedBaseTarget m, ''zmap-fixed-base-sample.pq'', ''zmap-fixed-base-sample.json'')) (\<lambda>fixedURI.
         tr_bind (upload_target ok (uf_S3Destination zmapConfig) (ms_ZMap m)
            (ms_ConnectionTarget m, ''zmap-connection-sample.pq'', ''zmap-connection-sample.json'')) (\<lambda>connectionURI.
         let encoded = jl_encode_request L (request\<lparr>rq_FixedBaseTargetURI := fixedURI, rq_ConnectionTargetURI := connectionURI\<rparr>) in
         tr_seq (write_file ok (job_path outputRoot (ms_ZMap m) ''manifest.json'') manifest)
        (tr_seq (write_file ok (job_path outputRoot (ms_ZMap m) ''request.json'') encoded)
        (tr_seq (put_object ok manifest (rq_ManifestURI request))
        (tr_seq (put_object ok encoded requestURI)
        (tr_return requestURI))))))))))"

definition publish ::
  "job_library \<Rightarrow> job_outcomes \<Rightarrow> measurements \<Rightarrow> config_paths \<Rightarrow> string \<Rightarrow> string \<Rightarrow> string job" where
  "publish L ok m configs outputRoot now =
     (case validateMeasurements m of
        Inl e \<Rightarrow> tr_fail (BadMeasurements e)
      | Inr protocol \<Rightarrow>
          tr_bind (loadConfig L ok (cf_ZMap configs)) (\<lambda>zmapConfig.
          tr_bind (if ms_SkipOS m then tr_return \<lparr>uf_S3Destination = [], uf_S3Prefix = []\<rparr> else loadConfig L ok (cf_OS configs)) (\<lambda>osConfig.
          tr_bind (loadConfig L ok (cf_IPID configs)) (\<lambda>ipidConfig.
            publish_configured L ok m protocol zmapConfig osConfig ipidConfig outputRoot now))))"


section \<open>Validation\<close>

lemma has_duplicate_iff: "has_duplicate xs \<longleftrightarrow> \<not> distinct xs"
  by (induction xs) auto

lemma check_ids_None:
  "check_ids payload port ids = None \<longleftrightarrow> list_all (\<lambda>i. \<exists>t. ParseMeasurementID i = Inr (payload, port, t)) ids"
  by (induction ids) (auto split: sum.split)

lemma ParseMeasurementID_empty [simp]: "ParseMeasurementID [] = Inl InvalidFormat"
  by (simp add: ParseMeasurementID_def split_first_def)

lemma if_Inl: "(if b then Inl e else x) = Inr p \<longleftrightarrow> \<not> b \<and> x = Inr p"
  by simp

lemma validateMeasurements_accepts:
  "validateMeasurements m = Inr protocol \<longleftrightarrow>
     (\<exists>port t. ParseMeasurementID (ms_ZMap m) = Inr (protocol, port, t)
        \<and> list_all (\<lambda>i. \<exists>u. ParseMeasurementID i = Inr (protocol, port, u)) (all_ids m))
     \<and> (if ms_SkipOS m then ms_OS m = [] else ms_OS m \<noteq> [])
     \<and> (ms_Repeats m = [] \<or> length (ms_Repeats m) = 5 \<and> distinct (ms_Repeats m) \<and> ms_MaximumTargets m \<in> {0..10000})
     \<and> (if ms_ConnectionRTBase m = [] then ms_ConnectionFIBase m = [] \<and> ms_ConnectionTarget m = []
        else ms_ConnectionFIBase m \<noteq> [] \<and> protocol = ''tcp'')"
proof (cases "ParseMeasurementID (ms_ZMap m)")
  case (Inl e)
  then show ?thesis by (simp add: validateMeasurements_def)
next
  case (Inr r)
  obtain payload port t where r: "ParseMeasurementID (ms_ZMap m) = Inr (payload, port, t)" using Inr by (cases r) auto
  have ne: "ms_ZMap m \<noteq> []" using r by auto
  have required: "ms_RTBase m \<noteq> [] \<and> ms_FixedMass m \<noteq> [] \<and> ms_FixedBase m \<noteq> []"
    if "check_ids payload port (all_ids m) = None"
    using that unfolding check_ids_None by (auto simp: all_ids_def)
  show ?thesis
  proof (cases "check_ids payload port (all_ids m)")
    case None
    note ids = None [unfolded check_ids_None]
    have "validateMeasurements m = Inr protocol \<longleftrightarrow>
        (if ms_SkipOS m then ms_OS m = [] else ms_OS m \<noteq> [])
        \<and> (ms_Repeats m = [] \<or> length (ms_Repeats m) = 5 \<and> distinct (ms_Repeats m) \<and> ms_MaximumTargets m \<in> {0..10000})
        \<and> (if ms_ConnectionRTBase m = [] then ms_ConnectionFIBase m = [] \<and> ms_ConnectionTarget m = []
           else ms_ConnectionFIBase m \<noteq> [] \<and> payload = ''tcp'') \<and> payload = protocol"
      unfolding validateMeasurements_def r sum.case prod.case None option.case if_Inl has_duplicate_iff
      using ne required [OF None] by (cases "ms_SkipOS m"; cases "ms_ConnectionRTBase m = []"; cases "ms_Repeats m = []") auto
    then show ?thesis using r ids by auto
  next
    case (Some e)
    then have "\<not> list_all (\<lambda>i. \<exists>u. ParseMeasurementID i = Inr (payload, port, u)) (all_ids m)"
      unfolding check_ids_None [symmetric] by simp
    moreover have "validateMeasurements m \<noteq> Inr protocol"
      unfolding validateMeasurements_def r sum.case prod.case Some option.case if_Inl by simp
    ultimately show ?thesis using r by auto
  qed
qed

text \<open>
  Which measurements make a job. The measurements are accepted, under a protocol, if and only if all identifiers are
  measurements of that protocol and of the port of the discovery; an OS measurement is named exactly if it was
  not skipped; there are no or five different repeats, in range; and a TCP connection pair is complete,
  its target included only with it.
\<close>

theorem validateMeasurements_iff:
  "validateMeasurements m = Inr protocol \<longleftrightarrow>
     (\<exists>port t. ParseMeasurementID (ms_ZMap m) = Inr (protocol, port, t)
        \<and> list_all (\<lambda>i. \<exists>u. ParseMeasurementID i = Inr (protocol, port, u)) (all_ids m))
     \<and> (if ms_SkipOS m then ms_OS m = [] else ms_OS m \<noteq> [])
     \<and> (ms_Repeats m = [] \<or> length (ms_Repeats m) = 5 \<and> distinct (ms_Repeats m) \<and> ms_MaximumTargets m \<in> {0..10000})
     \<and> (if ms_ConnectionRTBase m = [] then ms_ConnectionFIBase m = [] \<and> ms_ConnectionTarget m = []
        else ms_ConnectionFIBase m \<noteq> [] \<and> protocol = ''tcp'')"
  by (rule validateMeasurements_accepts)


section \<open>The operations on the objects\<close>

abbreviation on_remote :: "(store \<Rightarrow> bool) \<Rightarrow> job_site \<Rightarrow> bool" where
  "on_remote P w \<equiv> P (jb_remote w)"

lemma read_file_ok: "traced_ok P (read_file ok path) I (\<lambda>content w. P w \<and> content = jb_local w path)"
  unfolding read_file_def by (intro traced_ok_if traced_ok_get traced_ok_fail) simp

lemma put_object_ok:
  "(\<And>s. R s \<Longrightarrow> I (s(uri \<mapsto> content)) \<and> R' (s(uri \<mapsto> content)))
     \<Longrightarrow> traced_ok (on_remote R) (put_object ok content uri) (on_remote I) (\<lambda>_. on_remote R')"
  by (cases "ok (PutObject uri)")
     (auto simp: put_object_def Let_def intro!: traced_ok_update traced_ok_fail traced_ok_seq [where Q = "on_remote R'"])

lemma write_file_ok:
  "(\<And>s. R s \<Longrightarrow> I s) \<Longrightarrow> traced_ok (on_remote R) (write_file ok path content) (on_remote I) (\<lambda>_. on_remote R)"
  by (cases "ok (WriteJobFile path)")
     (auto simp: write_file_def Let_def intro!: traced_ok_update traced_ok_fail traced_ok_seq [where Q = "on_remote R"])

lemma check_read_ok: "traced_ok P (check_read check object) I (\<lambda>_ w. P w \<and> (\<forall>d. object = Some d \<longrightarrow> check d = None))"
  by (auto simp: check_read_def split: option.split intro!: traced_ok_return traced_ok_fail)

lemma check_file_ok:
  "traced_ok (on_remote R) (tr_bind (read_file ok path) (check_read check)) I (\<lambda>_. on_remote R)"
  by (rule traced_ok_bind [OF read_file_ok]) (rule traced_ok_post [OF check_read_ok], auto)

lemma readRemoteObject_ok:
  assumes "job_library_ok L" "uri \<noteq> []" "list_all (\<lambda>c. \<not> white c) uri"
  shows "traced_ok P (readRemoteObject L ok uri) I (\<lambda>object w. P w \<and> object = jb_remote w uri)"
proof -
  have ls: "listed (jl_ls L s uri) uri = (s uri \<noteq> None)" for s using assms by (simp add: job_library_ok_def)
  have get: "traced_ok (\<lambda>w. P w \<and> object = jb_remote w uri) (case object of None \<Rightarrow> tr_fail (RemoteError uri)
      | Some data \<Rightarrow> tr_seq (tr_check (ok (GetObject uri) = Works) (RemoteError uri)) (tr_return (Some data))) I
      (\<lambda>object w. P w \<and> object = jb_remote w uri)" for object
    by (cases object)
       (auto intro!: traced_ok_fail traced_ok_seq [where Q = "\<lambda>w. P w \<and> object = jb_remote w uri"] traced_ok_check traced_ok_return)
  show ?thesis
    unfolding readRemoteObject_def
    by (rule traced_ok_seq [where Q = P], rule traced_ok_check, assumption,
        rule traced_ok_bind [where Q = "\<lambda>e w. P w \<and> e = (jb_remote w uri \<noteq> None)"], rule traced_ok_get, simp add: ls,
        rule traced_ok_if, rule traced_ok_return, simp,
        rule traced_ok_seq [where Q = P], rule traced_ok_check, simp,
        rule traced_ok_bind [where Q = "\<lambda>object w. P w \<and> object = jb_remote w uri"], rule traced_ok_get, simp, rule get)
qed

lemma joinS3_snoc: "joinS3 p (ps @ [n]) = joinS3 p ps @ ''/'' @ trim_slash n"
  by (simp add: joinS3_def)

lemma rev_differ: "rev s @ rev x \<noteq> rev t @ rev y \<Longrightarrow> x @ s \<noteq> y @ t"
  by (metis rev_append)


section \<open>A consistent job\<close>

definition policy_uri :: "string \<Rightarrow> string \<Rightarrow> string" where
  "policy_uri prefix zmap = joinS3 (job_prefix prefix zmap) [''os-policy.json'']"

definition manifest_uri :: "string \<Rightarrow> string \<Rightarrow> string" where
  "manifest_uri prefix zmap = joinS3 (job_prefix prefix zmap) [''manifest.json'']"

definition request_uri :: "string \<Rightarrow> string \<Rightarrow> string" where
  "request_uri prefix zmap = joinS3 (job_prefix prefix zmap) [''request.json'']"

lemmas job_uris = policy_uri_def manifest_uri_def request_uri_def

text \<open>The policy object says whether the OS measurement was requested.\<close>

definition policy_is :: "job_library \<Rightarrow> string \<Rightarrow> string \<Rightarrow> bool \<Rightarrow> store \<Rightarrow> bool" where
  "policy_is L prefix zmap skip s \<longleftrightarrow>
     (case s (policy_uri prefix zmap) of
        None \<Rightarrow> False
      | Some b \<Rightarrow> jl_decode_policy L b = Some (expected_policy zmap skip))"

text \<open>
  A policy object is a policy of this job; a manifest has the protocol and the OS status of the policy; a request has a
  manifest.
\<close>

definition job_consistent :: "job_library \<Rightarrow> string \<Rightarrow> string \<Rightarrow> string \<Rightarrow> store \<Rightarrow> bool" where
  "job_consistent L prefix zmap protocol s \<longleftrightarrow>
     (s (policy_uri prefix zmap) \<noteq> None \<longrightarrow> policy_is L prefix zmap True s \<or> policy_is L prefix zmap False s)
     \<and> (case s (manifest_uri prefix zmap) of
          None \<Rightarrow> True
        | Some d \<Rightarrow> (\<exists>skip \<in> {True, False}. policy_is L prefix zmap skip s \<and> checkManifestPolicy L d protocol skip = None))
     \<and> (s (request_uri prefix zmap) \<noteq> None \<longrightarrow> s (manifest_uri prefix zmap) \<noteq> None)"

lemma job_uris_differ [simp]:
  "policy_uri p z \<noteq> manifest_uri p z" "policy_uri p z \<noteq> request_uri p z" "manifest_uri p z \<noteq> request_uri p z"
  "manifest_uri p z \<noteq> policy_uri p z" "request_uri p z \<noteq> policy_uri p z" "request_uri p z \<noteq> manifest_uri p z"
  by (simp_all add: job_uris joinS3_def trim_slash_def trim_slashes_def)

definition target_names :: "string list" where
  "target_names = [''zmap-fixed-base-sample.pq'', ''zmap-fixed-base-sample.json'', ''zmap-connection-sample.pq'', ''zmap-connection-sample.json'']"

lemma target_uris_differ:
  assumes "name \<in> set target_names"
  shows "joinS3 d [z', name] \<noteq> policy_uri p z" "joinS3 d [z', name] \<noteq> manifest_uri p z" "joinS3 d [z', name] \<noteq> request_uri p z"
proof -
  have tail: "joinS3 d [z', n] = joinS3 d [z'] @ ''/'' @ trim_slash n" for n using joinS3_snoc [of d "[z']" n] by simp
  have job: "joinS3 j [n] = joinS3 j [] @ ''/'' @ trim_slash n" for j n using joinS3_snoc [of j "[]" n] by simp
  have ends: "\<forall>name \<in> set target_names. \<forall>n \<in> set [''os-policy.json'', ''manifest.json'', ''request.json''].
      6 \<le> length (trim_slash name) \<and> 6 \<le> length (trim_slash n) \<and> take 6 (rev (trim_slash name)) \<noteq> take 6 (rev (trim_slash n))"
    by code_simp
  have "x @ ''/'' @ trim_slash name \<noteq> y @ ''/'' @ trim_slash n"
    if n: "n \<in> set [''os-policy.json'', ''manifest.json'', ''request.json'']" for x y n
  proof
    assume "x @ ''/'' @ trim_slash name = y @ ''/'' @ trim_slash n"
    then have "take 6 (rev (x @ ''/'' @ trim_slash name)) = take 6 (rev (y @ ''/'' @ trim_slash n))" by (rule arg_cong)
    moreover have "take 6 (rev (v @ ''/'' @ m)) = take 6 (rev m)" if "6 \<le> length m" for v m using that by simp
    ultimately show False using ends assms n by metis
  qed
  then show "joinS3 d [z', name] \<noteq> policy_uri p z" "joinS3 d [z', name] \<noteq> manifest_uri p z" "joinS3 d [z', name] \<noteq> request_uri p z"
    unfolding tail [of name] job_uris job [of "job_prefix p z"] by simp_all
qed

lemma consistent_frame:
  assumes "uri \<noteq> policy_uri p z" "uri \<noteq> manifest_uri p z" "uri \<noteq> request_uri p z"
  shows "job_consistent L p z protocol (s(uri \<mapsto> c)) = job_consistent L p z protocol s"
    "policy_is L p z skip (s(uri \<mapsto> c)) = policy_is L p z skip s"
proof -
  have policy: "policy_is L p z b (s(uri \<mapsto> c)) = policy_is L p z b s" for b using assms by (simp add: policy_is_def)
  then show "policy_is L p z skip (s(uri \<mapsto> c)) = policy_is L p z skip s" .
  show "job_consistent L p z protocol (s(uri \<mapsto> c)) = job_consistent L p z protocol s"
    using assms by (cases "s (manifest_uri p z)") (simp_all add: job_consistent_def policy)
qed

definition plain_job :: "string \<Rightarrow> string \<Rightarrow> bool" where
  "plain_job prefix zmap \<longleftrightarrow> list_all (\<lambda>c. \<not> white c) prefix \<and> list_all (\<lambda>c. \<not> white c) zmap"

lemma plain_trim:
  assumes "list_all (\<lambda>c. \<not> white c) s"
  shows "list_all (\<lambda>c. \<not> white c) (trim_slashes s)" "list_all (\<lambda>c. \<not> white c) (trim_slash s)"
  using assms by (auto simp: trim_slashes_def trim_slash_def list_all_iff dest!: set_dropWhileD)

lemma plain_joinS3:
  assumes "list_all (\<lambda>c. \<not> white c) p" "list_all (list_all (\<lambda>c. \<not> white c)) ps"
  shows "list_all (\<lambda>c. \<not> white c) (joinS3 p ps)"
  using assms
proof (induction ps rule: rev_induct)
  case Nil
  then show ?case by (simp add: joinS3_def plain_trim)
next
  case (snoc n ps)
  moreover have "\<not> white (CHR ''/'')" by (simp add: white_def)
  ultimately show ?case unfolding joinS3_snoc by (simp add: plain_trim)
qed

lemma plain_uris:
  assumes "plain_job prefix zmap"
  shows "policy_uri prefix zmap \<noteq> []" "list_all (\<lambda>c. \<not> white c) (policy_uri prefix zmap)"
    "manifest_uri prefix zmap \<noteq> []" "list_all (\<lambda>c. \<not> white c) (manifest_uri prefix zmap)"
proof -
  show "policy_uri prefix zmap \<noteq> []" "manifest_uri prefix zmap \<noteq> []" by (simp_all add: job_uris joinS3_def)
  have "list_all (\<lambda>c. \<not> white c) ''analysis-jobs''" "list_all (\<lambda>c. \<not> white c) ''os-policy.json''"
    "list_all (\<lambda>c. \<not> white c) ''manifest.json''"
    by code_simp+
  then show "list_all (\<lambda>c. \<not> white c) (policy_uri prefix zmap)" "list_all (\<lambda>c. \<not> white c) (manifest_uri prefix zmap)"
    unfolding policy_uri_def manifest_uri_def job_prefix_def
    using assms by (auto simp only: plain_job_def list.pred_inject simp_thms intro!: plain_joinS3)
qed

text \<open>The policy is recorded, and agrees with the manifest if there is one.\<close>

lemma recordOSPolicy_ok:
  assumes "job_library_ok L" "plain_job prefix zmap" "ParseMeasurementID zmap = Inr (protocol, port, t)"
  shows "traced_ok (on_remote (job_consistent L prefix zmap protocol)) (recordOSPolicy L ok zmap skip prefix root)
    (on_remote (job_consistent L prefix zmap protocol))
    (\<lambda>_. on_remote (\<lambda>s. job_consistent L prefix zmap protocol s \<and> policy_is L prefix zmap skip s))"
proof -
  let ?J = "job_consistent L prefix zmap protocol"
  let ?policy = "policy_uri prefix zmap" and ?manifest = "manifest_uri prefix zmap"
  let ?enc = "jl_encode_policy L (expected_policy zmap skip)"
  define seen where "seen old s \<longleftrightarrow> ?J s \<and> old = s ?policy \<and> (\<forall>d. old = Some d \<longrightarrow> check_policy L (expected_policy zmap skip) d = None)
    \<and> (\<forall>d. s ?manifest = Some d \<longrightarrow> checkManifestPolicy L d protocol skip = None)" for old s
  have decode: "jl_decode_policy L ?enc = Some (expected_policy zmap skip)" using assms(1) by (simp add: job_library_ok_def)
  have known: "policy_is L prefix zmap skip s" if "seen (Some d) s" for d s
  proof -
    have "s ?policy = Some d" "check_policy L (expected_policy zmap skip) d = None" using that by (simp_all add: seen_def)
    then show ?thesis by (auto simp: policy_is_def check_policy_def split: option.splits if_splits)
  qed
  have put: "?J (s(?policy \<mapsto> ?enc)) \<and> policy_is L prefix zmap skip (s(?policy \<mapsto> ?enc))" if "seen None s" for s
  proof -
    have none: "s ?policy = None" using that by (simp add: seen_def)
    then have "s ?manifest = None" "s (request_uri prefix zmap) = None"
      using that by (auto simp: seen_def job_consistent_def policy_is_def split: option.splits)
    moreover have "policy_is L prefix zmap skip (s(?policy \<mapsto> ?enc))" by (simp add: policy_is_def decode)
    ultimately show ?thesis by (cases skip) (simp_all add: job_consistent_def)
  qed
  note uris = plain_uris [OF assms(2)]
  have store: "traced_ok (on_remote (seen old)) (if old = None then put_object ok ?enc ?policy else tr_return ()) (on_remote ?J)
      (\<lambda>_. on_remote (\<lambda>s. ?J s \<and> policy_is L prefix zmap skip s))" for old
  proof (cases old)
    case None
    then show ?thesis
      using put_object_ok [of "seen None" ?J ?policy ?enc "\<lambda>s. ?J s \<and> policy_is L prefix zmap skip s" ok] put by simp
  next
    case (Some d)
    then show ?thesis using known by (auto intro!: traced_ok_return simp: seen_def)
  qed
  have rest: "traced_ok (\<lambda>w. on_remote ?J w \<and> old = jb_remote w ?policy)
      (tr_seq (check_read (check_policy L (expected_policy zmap skip)) old)
      (tr_seq (tr_bind (readRemoteObject L ok ?manifest) (check_read (\<lambda>d. checkManifestPolicy L d protocol skip)))
      (tr_seq (write_file ok path ?enc)
      (tr_seq (if old = None then put_object ok ?enc ?policy else tr_return ())
      (tr_return ?policy))))) (on_remote ?J) (\<lambda>_. on_remote (\<lambda>s. ?J s \<and> policy_is L prefix zmap skip s))" for old path
  proof (rule traced_ok_seq [OF check_read_ok], rule traced_ok_seq [where Q = "on_remote (seen old)"])
    show "traced_ok (\<lambda>w. (on_remote ?J w \<and> old = jb_remote w ?policy)
          \<and> (\<forall>d. old = Some d \<longrightarrow> check_policy L (expected_policy zmap skip) d = None))
        (tr_bind (readRemoteObject L ok ?manifest) (check_read (\<lambda>d. checkManifestPolicy L d protocol skip)))
        (on_remote ?J) (\<lambda>_. on_remote (seen old))"
      by (rule traced_ok_bind [OF readRemoteObject_ok [OF assms(1) uris(3,4)]], rule traced_ok_post [OF check_read_ok])
         (auto simp: seen_def)
    show "traced_ok (on_remote (seen old)) (tr_seq (write_file ok path ?enc)
        (tr_seq (if old = None then put_object ok ?enc ?policy else tr_return ()) (tr_return ?policy)))
        (on_remote ?J) (\<lambda>_. on_remote (\<lambda>s. ?J s \<and> policy_is L prefix zmap skip s))"
      by (rule traced_ok_seq [OF write_file_ok], simp add: seen_def, rule traced_ok_seq [OF store], rule traced_ok_return)
  qed
  show ?thesis
    unfolding recordOSPolicy_def assms(3) sum.case prod.case Let_def job_uris [symmetric]
    by (rule traced_ok_seq [where Q = "on_remote ?J"], rule traced_ok_check, assumption,
        rule traced_ok_seq [where Q = "on_remote ?J"], rule traced_ok_check, assumption,
        rule traced_ok_seq [where Q = "on_remote ?J"], rule check_file_ok,
        rule traced_ok_seq [where Q = "on_remote ?J"], rule check_file_ok,
        rule traced_ok_bind [OF readRemoteObject_ok [OF assms(1) uris(1,2)]], rule rest)
qed


section \<open>Publication\<close>

lemma upload_target_ok:
  assumes "path = [] \<or> {name, metadata} \<subseteq> set target_names"
    and frame: "\<And>s n c. n \<in> set target_names \<Longrightarrow> R s \<Longrightarrow> R (s(joinS3 d [z, n] \<mapsto> c)) \<and> I (s(joinS3 d [z, n] \<mapsto> c))"
  shows "traced_ok (on_remote R) (upload_target ok d z (path, name, metadata)) (on_remote I) (\<lambda>_. on_remote R)"
proof -
  have regular: "traced_ok (on_remote R) (regular_file ok f) (on_remote I) (\<lambda>_. on_remote R)" for f
    unfolding regular_file_def
    by (rule traced_ok_bind [where Q = "\<lambda>_. on_remote R"], rule traced_ok_get, assumption)
       (auto split: option.split intro!: traced_ok_fail traced_ok_seq [where Q = "on_remote R"] traced_ok_check traced_ok_return)
  have put: "traced_ok (on_remote R) (put_object ok c (joinS3 d [z, n])) (on_remote I) (\<lambda>_. on_remote R)"
    if "n \<in> set target_names" for c n
    by (rule put_object_ok) (use frame that in blast)
  show ?thesis
  proof (cases "path = []")
    case True
    then show ?thesis by (simp add: upload_target_def traced_ok_return)
  next
    case False
    then have "name \<in> set target_names" "metadata \<in> set target_names" using assms(1) by auto
    then show ?thesis
      using False unfolding upload_target_def prod.case Let_def if_not_P [OF False]
      by (intro traced_ok_seq [where Q = "on_remote R"] traced_ok_bind [where Q = "\<lambda>_. on_remote R"] regular put
          traced_ok_check traced_ok_return) auto
  qed
qed

lemma BuildManifest_policy:
  assumes "job_library_ok L" "validateMeasurements m = Inr protocol"
  shows "checkManifestPolicy L (jl_encode_manifest L (BuildManifest protocol m)) protocol (ms_SkipOS m) = None"
  using assms(1) assms(2) [unfolded validateMeasurements_accepts]
  by (auto simp: job_library_ok_def checkManifestPolicy_def BuildManifest_def split: if_splits)

lemma publish_configured_ok:
  assumes "job_library_ok L" "plain_job prefix zmap" "ParseMeasurementID zmap = Inr (protocol, port, t)"
    and "validateMeasurements m = Inr protocol" "ms_ZMap m = zmap" "uf_S3Prefix ipidConfig = prefix"
  shows "traced_ok (on_remote (job_consistent L prefix zmap protocol))
    (publish_configured L ok m protocol zmapConfig osConfig ipidConfig root now)
    (on_remote (job_consistent L prefix zmap protocol)) (\<lambda>_. on_remote (job_consistent L prefix zmap protocol))"
proof -
  let ?J = "job_consistent L prefix zmap protocol"
  define R where "R s \<longleftrightarrow> ?J s \<and> policy_is L prefix zmap (ms_SkipOS m) s" for s
  define M where "M s \<longleftrightarrow> R s \<and> s (manifest_uri prefix zmap) \<noteq> None" for s
  let ?manifest = "jl_encode_manifest L (BuildManifest protocol m)"
  have frame: "R (s(joinS3 d [z', n] \<mapsto> c)) \<and> ?J (s(joinS3 d [z', n] \<mapsto> c))" if "n \<in> set target_names" "R s" for s n c d z'
    using that(2) consistent_frame [OF target_uris_differ [OF that(1)]] by (simp add: R_def)
  have target: "traced_ok (on_remote R) (upload_target ok d zmap (path, name, metadata)) (on_remote ?J) (\<lambda>_. on_remote R)"
    if "{name, metadata} \<subseteq> set target_names" for d path name metadata
  proof (rule upload_target_ok)
    show "path = [] \<or> {name, metadata} \<subseteq> set target_names" using that by simp
    show "R (s(joinS3 d [zmap, n] \<mapsto> c)) \<and> ?J (s(joinS3 d [zmap, n] \<mapsto> c))"
      if "n \<in> set target_names" "R s" for s n c
      by (rule frame [OF that])
  qed
  have put_manifest: "?J (s(manifest_uri prefix zmap \<mapsto> ?manifest)) \<and> M (s(manifest_uri prefix zmap \<mapsto> ?manifest))" if "R s" for s
  proof -
    have "policy_is L prefix zmap b (s(manifest_uri prefix zmap \<mapsto> ?manifest)) = policy_is L prefix zmap b s" for b
      by (simp add: policy_is_def)
    then show ?thesis
      using that BuildManifest_policy [OF assms(1,4)]
      by (cases "ms_SkipOS m") (auto simp: R_def M_def job_consistent_def)
  qed
  have put_request: "?J (s(request_uri prefix zmap \<mapsto> c)) \<and> ?J (s(request_uri prefix zmap \<mapsto> c))" if "M s" for s c
  proof -
    have "policy_is L prefix zmap b (s(request_uri prefix zmap \<mapsto> c)) = policy_is L prefix zmap b s" for b
      by (simp add: policy_is_def)
    then show ?thesis using that by (auto simp: R_def M_def job_consistent_def)
  qed
  have names: "{''zmap-fixed-base-sample.pq'', ''zmap-fixed-base-sample.json''} \<subseteq> set target_names"
    "{''zmap-connection-sample.pq'', ''zmap-connection-sample.json''} \<subseteq> set target_names"
    by (simp_all add: target_names_def)
  have uris: "rq_ManifestURI (job_request_of m protocol zmapConfig osConfig ipidConfig now) = manifest_uri prefix zmap"
    by (simp add: job_request_of_def Let_def assms manifest_uri_def)
  have recorded: "traced_ok (on_remote ?J) (recordOSPolicy L ok zmap (ms_SkipOS m) prefix root) (on_remote ?J) (\<lambda>_. on_remote R)"
    using recordOSPolicy_ok [OF assms(1-3)] unfolding R_def .
  show ?thesis
    unfolding publish_configured_def Let_def uris assms(5,6) request_uri_def [symmetric]
    by (rule traced_ok_seq [where Q = "on_remote ?J"], rule traced_ok_check, assumption,
        rule traced_ok_seq [where Q = "on_remote ?J"], rule traced_ok_check, assumption,
        rule traced_ok_seq [OF recorded],
        rule traced_ok_bind [OF target [OF names(1)]], rule traced_ok_bind [OF target [OF names(2)]],
        rule traced_ok_seq [OF write_file_ok], simp add: R_def, rule traced_ok_seq [OF write_file_ok], simp add: R_def,
        rule traced_ok_seq [OF put_object_ok [of R _ _ _ M]], erule put_manifest,
        rule traced_ok_seq [OF put_object_ok [of M _ _ _ ?J]], erule put_request, rule traced_ok_return)
qed

text \<open>The workflow prefix that a configuration file names.\<close>

definition names_prefix :: "job_library \<Rightarrow> string \<Rightarrow> string \<Rightarrow> job_site \<Rightarrow> bool" where
  "names_prefix L path prefix w \<longleftrightarrow>
     (case jb_local w path of
        None \<Rightarrow> True
      | Some data \<Rightarrow> (case jl_decode_config L data of None \<Rightarrow> True | Some c \<Rightarrow> uf_S3Prefix c = prefix))"

lemma loadConfig_ok: "traced_ok P (loadConfig L ok path) I (\<lambda>c w. P w \<and> (\<forall>prefix. names_prefix L path prefix w \<longrightarrow> uf_S3Prefix c = prefix))"
  unfolding loadConfig_def
  by (rule traced_ok_bind [OF read_file_ok])
     (auto simp: names_prefix_def split: option.split intro!: traced_ok_fail traced_ok_return)

lemma publish_ok:
  assumes "job_library_ok L" "plain_job prefix zmap" "ParseMeasurementID zmap = Inr (protocol, port, t)" "ms_ZMap m = zmap"
  shows "traced_ok (\<lambda>w. on_remote (job_consistent L prefix zmap protocol) w \<and> names_prefix L (cf_IPID configs) prefix w)
    (publish L ok m configs root now) (on_remote (job_consistent L prefix zmap protocol))
    (\<lambda>_. on_remote (job_consistent L prefix zmap protocol))"
proof (cases "validateMeasurements m")
  case (Inl e)
  then show ?thesis by (simp add: publish_def traced_ok_fail)
next
  case (Inr p)
  let ?J = "on_remote (job_consistent L prefix zmap protocol)"
  let ?P = "\<lambda>w. ?J w \<and> names_prefix L (cf_IPID configs) prefix w"
  have p: "p = protocol" using Inr assms(3,4) by (auto simp: validateMeasurements_accepts)
  have load: "traced_ok ?P (loadConfig L ok path) ?J (\<lambda>_. ?P)" for path
    by (rule traced_ok_post [OF loadConfig_ok]) auto
  have os: "traced_ok ?P (if ms_SkipOS m then tr_return x else loadConfig L ok path) ?J (\<lambda>_. ?P)" for x path
    by (intro traced_ok_if traced_ok_return load)
  have ipid: "traced_ok ?P (loadConfig L ok (cf_IPID configs)) ?J (\<lambda>c w. ?J w \<and> uf_S3Prefix c = prefix)"
    by (rule traced_ok_post [OF loadConfig_ok]) auto
  have final: "traced_ok (\<lambda>w. ?J w \<and> uf_S3Prefix c = prefix) (publish_configured L ok m protocol zc oc c root now) ?J (\<lambda>_. ?J)" for zc oc c
  proof (cases "uf_S3Prefix c = prefix")
    case True
    then show ?thesis using publish_configured_ok [OF assms(1-3) Inr [unfolded p] assms(4) True] by simp
  qed (simp add: traced_ok_def)
  show ?thesis
    unfolding publish_def Inr p sum.case
    by (rule traced_ok_bind [OF load], rule traced_ok_bind [OF os], rule traced_ok_bind [OF ipid], rule final)
qed


section \<open>All histories of a job\<close>

text \<open>
  The states of the job of one discovery: nothing of it published at first; then any calls of \<open>recordOSPolicy\<close>
  and \<open>publish\<close>, by operators who may change their mind about the OS measurement, each cut short anywhere; in
  between anything happens to the local files and to the other objects.
\<close>

inductive job_reachable :: "job_library \<Rightarrow> string \<Rightarrow> string \<Rightarrow> job_site \<Rightarrow> bool" for L prefix zmap where
  start: "jb_remote w (policy_uri prefix zmap) = None \<Longrightarrow> jb_remote w (manifest_uri prefix zmap) = None \<Longrightarrow>
     jb_remote w (request_uri prefix zmap) = None \<Longrightarrow> job_reachable L prefix zmap w"
| policy: "job_reachable L prefix zmap w \<Longrightarrow> w' \<in> set (snd (recordOSPolicy L ok zmap skip prefix root w)) \<Longrightarrow>
     job_reachable L prefix zmap w'"
| publish: "job_reachable L prefix zmap w \<Longrightarrow> ms_ZMap m = zmap \<Longrightarrow> names_prefix L (cf_IPID configs) prefix w \<Longrightarrow>
     w' \<in> set (snd (publish L ok m configs root now w)) \<Longrightarrow> job_reachable L prefix zmap w'"
| other: "job_reachable L prefix zmap w \<Longrightarrow> jb_remote w' (policy_uri prefix zmap) = jb_remote w (policy_uri prefix zmap) \<Longrightarrow>
     jb_remote w' (manifest_uri prefix zmap) = jb_remote w (manifest_uri prefix zmap) \<Longrightarrow>
     jb_remote w' (request_uri prefix zmap) = jb_remote w (request_uri prefix zmap) \<Longrightarrow> job_reachable L prefix zmap w'"

text \<open>
  C26: A job has one OS policy. In every state of its history, a published manifest has the protocol of the discovery and
  the OS status that the policy object records, and there is no request without a manifest; although each
  call may ask for the other policy and any of its commands may fail, with or without effect.
\<close>

theorem job_policy_consistent:
  assumes "job_library_ok L" "plain_job prefix zmap" "ParseMeasurementID zmap = Inr (protocol, port, t)"
    and "job_reachable L prefix zmap w"
  shows "(case jb_remote w (manifest_uri prefix zmap) of
            None \<Rightarrow> jb_remote w (request_uri prefix zmap) = None
          | Some d \<Rightarrow> (\<exists>skip \<in> {True, False}. policy_is L prefix zmap skip (jb_remote w)
              \<and> checkManifestPolicy L d protocol skip = None))"
proof -
  have "job_consistent L prefix zmap protocol (jb_remote w)"
    using assms(4)
  proof induction
    case (start w)
    then show ?case by (simp add: job_consistent_def)
  next
    case (policy w w' ok skip root)
    then show ?case using traced_ok_state [OF recordOSPolicy_ok [OF assms(1-3)]] by blast
  next
    case (publish w m configs w' ok root now)
    then show ?case using traced_ok_state [OF publish_ok [OF assms(1-3)]] by blast
  next
    case (other w w')
    then have "policy_is L prefix zmap skip (jb_remote w') = policy_is L prefix zmap skip (jb_remote w)" for skip
      by (simp add: policy_is_def)
    then show ?case
      using other by (cases "jb_remote w (manifest_uri prefix zmap)") (simp_all add: job_consistent_def)
  qed
  then show ?thesis by (auto simp: job_consistent_def split: option.split)
qed


section \<open>The theorems at work\<close>

definition policy_codec :: "os_policy codec" where
  "policy_codec = map_codec (\<lambda>p. (op_Version p, op_JobID p, op_Status p))
     (\<lambda>(v, j, s). \<lparr>op_Version = v, op_JobID = j, op_Status = s\<rparr>)
     (pair_codec int_codec (pair_codec string_codec string_codec))"

definition interval_codec :: "interval_measurements codec" where
  "interval_codec = map_codec (\<lambda>i. (im_RTBased i, im_FixedInterval i)) (\<lambda>(a, b). \<lparr>im_RTBased = a, im_FixedInterval = b\<rparr>)
     (pair_codec (pair_codec string_codec string_codec) (pair_codec string_codec string_codec))"

definition reproducibility_codec :: "reproducibility codec" where
  "reproducibility_codec = map_codec
     (\<lambda>r. ((rr_Baseline r, rr_Repeats r), (rr_TargetFile r, rr_CohortFile r, rr_PrepareMetadataFile r), rr_SelectionSeed r, rr_MaximumTargets r))
     (\<lambda>((b, r), (t, c, p), s, m). \<lparr>rr_Baseline = b, rr_Repeats = r, rr_TargetFile = t, rr_CohortFile = c,
        rr_PrepareMetadataFile = p, rr_SelectionSeed = s, rr_MaximumTargets = m\<rparr>)
     (pair_codec (pair_codec string_codec (list_codec string_codec))
       (pair_codec (pair_codec string_codec (pair_codec string_codec string_codec)) (pair_codec int_codec int_codec)))"

definition protocol_codec :: "protocol_measurements codec" where
  "protocol_codec = map_codec
     (\<lambda>p. ((pm_OSStatus p, pm_ConnectionTarget p, pm_ZMap p, pm_OS p), pm_NoConnection p, pm_Connection p, pm_RandomReproducibility p))
     (\<lambda>((s, t, z, x), n, c, r). \<lparr>pm_OSStatus = s, pm_ConnectionTarget = t, pm_ZMap = z, pm_OS = x, pm_NoConnection = n,
        pm_Connection = c, pm_RandomReproducibility = r\<rparr>)
     (pair_codec (pair_codec string_codec (pair_codec string_codec (pair_codec string_codec string_codec)))
       (pair_codec interval_codec (pair_codec (option_codec interval_codec) (option_codec reproducibility_codec))))"

definition manifest_codec :: "manifest codec" where
  "manifest_codec = list_codec (pair_codec string_codec protocol_codec)"

lemma policy_codec_ok [codecs]: "codec_ok policy_codec"
  unfolding policy_codec_def by (rule map_codec_ok) (simp_all add: codecs)

lemma interval_codec_ok [codecs]: "codec_ok interval_codec"
  unfolding interval_codec_def by (rule map_codec_ok) (simp_all add: codecs)

lemma reproducibility_codec_ok [codecs]: "codec_ok reproducibility_codec"
  unfolding reproducibility_codec_def by (rule map_codec_ok) (simp_all add: codecs)

lemma protocol_codec_ok [codecs]: "codec_ok protocol_codec"
  unfolding protocol_codec_def by (rule map_codec_ok) (simp_all add: codecs)

lemma manifest_codec_ok [codecs]: "codec_ok manifest_codec"
  unfolding manifest_codec_def by (simp add: codecs)

text \<open>A listing has one line with a date and the URI; a configuration file is its prefix.\<close>

definition demo_ls :: "store \<Rightarrow> string \<Rightarrow> string" where
  "demo_ls s uri = (if s uri = None then [] else ''2024 '' @ uri)"

definition demo_jobs :: job_library where
  "demo_jobs = \<lparr>jl_decode_policy = decode_with policy_codec, jl_encode_policy = encode_with policy_codec,
     jl_decode_manifest = decode_with manifest_codec, jl_encode_manifest = encode_with manifest_codec,
     jl_encode_request = rq_JobID, jl_decode_config = (\<lambda>s. Some \<lparr>uf_S3Destination = s, uf_S3Prefix = s\<rparr>), jl_ls = demo_ls\<rparr>"

lemma words_of_plain: "list_all (\<lambda>c. \<not> white c) s \<Longrightarrow> acc @ s \<noteq> [] \<Longrightarrow> words_of acc s = [acc @ s]"
  by (induction s arbitrary: acc) auto

lemma demo_jobs_ok: "job_library_ok demo_jobs"
proof -
  have "listed (demo_ls s uri) uri = (s uri \<noteq> None)" if uri: "uri \<noteq> []" "list_all (\<lambda>c. \<not> white c) uri" for s uri
  proof (cases "s uri = None")
    case True
    then show ?thesis by (simp add: demo_ls_def listed_def Fields_def)
  next
    case False
    have "white (char_of (10 :: nat))" by (simp add: white_def)
    then have "char_of (10 :: nat) \<notin> set uri" using uri(2) by (auto simp: list_all_iff)
    moreover have "char_of (10 :: nat) \<notin> set ''2024 ''" by code_simp
    ultimately have "char_of (10 :: nat) \<notin> set (''2024 '' @ uri)" by simp
    then have lines: "split_on (char_of (10 :: nat)) (''2024 '' @ uri) = [''2024 '' @ uri]" by (rule split_on_no_sep)
    have fields: "Fields (''2024 '' @ uri) = [''2024'', uri]"
      using words_of_plain [OF uri(2), of "[]"] uri(1) by (simp add: Fields_def white_def)
    have "demo_ls s uri = ''2024 '' @ uri" using False by (simp add: demo_ls_def)
    moreover have "list_ex (\<lambda>line. Fields line \<noteq> [] \<and> last (Fields line) = uri) [''2024 '' @ uri]"
      by (simp only: list_ex_iff) (use fields in simp)
    ultimately show ?thesis using False unfolding listed_def by (simp only: lines) simp
  qed
  then show ?thesis by (simp add: job_library_ok_def demo_jobs_def decode_encode_with codecs)
qed

definition demo_zmap :: string where "demo_zmap = ''icmp_2024-01-02_03-04-05''"

definition demo_measurements :: measurements where
  "demo_measurements = \<lparr>ms_SkipOS = True, ms_ZMap = demo_zmap, ms_OS = [], ms_RTBase = ''icmp_2024-01-02_04-00-00'',
     ms_FixedMass = ''icmp_2024-01-02_05-00-00'', ms_FixedBase = ''icmp_2024-01-02_06-00-00'', ms_ConnectionTarget = [],
     ms_FixedBaseTarget = [], ms_ConnectionRTBase = [], ms_ConnectionFIBase = [], ms_Repeats = [], ms_MaximumTargets = 0,
     ms_SelectionSeed = 0\<rparr>"

definition demo_job :: job_site where
  "demo_job = \<lparr>jb_local = [''c'' \<mapsto> ''s3://b/x''], jb_remote = (\<lambda>_. None)\<rparr>"

definition demo_publish :: "(job_error + string) \<times> job_site list" where
  "demo_publish = publish demo_jobs (\<lambda>_. Works) demo_measurements \<lparr>cf_ZMap = ''c'', cf_OS = ''c'', cf_IPID = ''c''\<rparr> ''jobs'' ''now'' demo_job"

theorem validateMeasurements_iff_witness:
  "validateMeasurements demo_measurements = Inr ''icmp'' \<and> ms_OS demo_measurements = []"
proof -
  have "validateMeasurements demo_measurements = Inr ''icmp''" by code_simp
  moreover have "ms_SkipOS demo_measurements" by (simp add: demo_measurements_def)
  ultimately show ?thesis using validateMeasurements_iff [of demo_measurements "''icmp''"] by simp
qed

text \<open>A first publication without an OS measurement, when everything works.\<close>

lemma publish_fresh:
  assumes "job_library_ok L" "plain_job prefix (ms_ZMap m)" "validateMeasurements m = Inr protocol" "ms_SkipOS m"
    and "ms_FixedBaseTarget m = []" "ms_ConnectionTarget m = []"
    and "jb_local w path = Some data" "jl_decode_config L data = Some \<lparr>uf_S3Destination = prefix, uf_S3Prefix = prefix\<rparr>" "requireS3 prefix"
    and "jb_local w (job_path root (ms_ZMap m) ''os-policy.json'') = None" "jb_local w (job_path root (ms_ZMap m) ''manifest.json'') = None"
    and "jb_remote w (policy_uri prefix (ms_ZMap m)) = None" "jb_remote w (manifest_uri prefix (ms_ZMap m)) = None"
  shows "\<exists>ws w'. publish L (\<lambda>_. Works) m \<lparr>cf_ZMap = path, cf_OS = path, cf_IPID = path\<rparr> root now w = (Inr (request_uri prefix (ms_ZMap m)), ws @ [w'])
    \<and> jb_remote w' (request_uri prefix (ms_ZMap m)) \<noteq> None
    \<and> jb_remote w' (policy_uri prefix (ms_ZMap m)) = Some (jl_encode_policy L (expected_policy (ms_ZMap m) True))"
proof -
  obtain port t where parse: "ParseMeasurementID (ms_ZMap m) = Inr (protocol, port, t)"
    using assms(3) unfolding validateMeasurements_accepts by blast
  note uris = plain_uris [OF assms(2)]
  have ls: "listed (jl_ls L (jb_remote w) (policy_uri prefix (ms_ZMap m))) (policy_uri prefix (ms_ZMap m)) = False"
    "listed (jl_ls L (jb_remote w) (manifest_uri prefix (ms_ZMap m))) (manifest_uri prefix (ms_ZMap m)) = False"
    using assms(1,12,13) uris by (simp_all add: job_library_ok_def)
  note ops = tr_bind_def tr_seq_def tr_check_def tr_return_def tr_get_def tr_update_def read_file_def write_file_def put_object_def
  have load: "loadConfig L (\<lambda>_. Works) path w = (Inr \<lparr>uf_S3Destination = prefix, uf_S3Prefix = prefix\<rparr>, [])"
    using assms by (simp add: loadConfig_def ops)
  define enc where "enc = jl_encode_policy L (expected_policy (ms_ZMap m) True)"
  define w1 where "w1 = w\<lparr>jb_local := (jb_local w)(job_path root (ms_ZMap m) ''os-policy.json'' \<mapsto> enc)\<rparr>"
  define w2 where "w2 = w1\<lparr>jb_remote := (jb_remote w1)(policy_uri prefix (ms_ZMap m) \<mapsto> enc)\<rparr>"
  have policy: "recordOSPolicy L (\<lambda>_. Works) (ms_ZMap m) True prefix root w = (Inr (policy_uri prefix (ms_ZMap m)), [w1, w2])"
    unfolding recordOSPolicy_def parse sum.case prod.case Let_def job_uris [symmetric] readRemoteObject_def check_read_def
    using assms ls by (simp add: ops enc_def w1_def w2_def)
  show ?thesis
    unfolding publish_def assms(3) sum.case publish_configured_def
    using assms load policy
    by (simp add: ops upload_target_def Let_def job_request_of_def job_uris [symmetric] w2_def w1_def enc_def)
qed

theorem job_policy_consistent_witness:
  "\<exists>w. job_reachable demo_jobs ''s3://b/x'' demo_zmap w \<and> jb_remote w (request_uri ''s3://b/x'' demo_zmap) \<noteq> None
    \<and> policy_is demo_jobs ''s3://b/x'' demo_zmap True (jb_remote w)
    \<and> (\<exists>d. jb_remote w (manifest_uri ''s3://b/x'' demo_zmap) = Some d \<and> checkManifestPolicy demo_jobs d ''icmp'' True = None)"
proof -
  have "ParseMeasurementID demo_zmap = Inr (''icmp'', None, \<lparr>ts_year = 2024, ts_month = 1, ts_day = 2, ts_hour = 3,
      ts_minute = 4, ts_second = 5, ts_nanos = 0\<rparr>)" by code_simp
  note parse = this
  have plain: "plain_job ''s3://b/x'' demo_zmap" by code_simp
  have valid: "validateMeasurements demo_measurements = Inr ''icmp''" by code_simp
  have s3: "requireS3 ''s3://b/x''" by code_simp
  have start: "job_reachable demo_jobs ''s3://b/x'' demo_zmap demo_job"
    by (rule job_reachable.start) (simp_all add: demo_job_def)
  have named: "names_prefix demo_jobs ''c'' ''s3://b/x'' demo_job" by (simp add: names_prefix_def demo_jobs_def demo_job_def)
  have zmap: "ms_ZMap demo_measurements = demo_zmap" by (simp add: demo_measurements_def)
  obtain ws w where run: "demo_publish = (Inr (request_uri ''s3://b/x'' demo_zmap), ws @ [w])"
    and w: "jb_remote w (request_uri ''s3://b/x'' demo_zmap) \<noteq> None"
      "jb_remote w (policy_uri ''s3://b/x'' demo_zmap) = Some (encode_with policy_codec (expected_policy demo_zmap True))"
    using publish_fresh [of demo_jobs "''s3://b/x''" demo_measurements "''icmp''" demo_job "''c''" "''s3://b/x''" "''jobs''" "''now''"]
      demo_jobs_ok plain valid s3 zmap
    by (auto simp: demo_job_def demo_jobs_def demo_measurements_def demo_publish_def job_path_def)
  have "job_reachable demo_jobs ''s3://b/x'' demo_zmap w"
    by (rule job_reachable.publish [OF start zmap, where configs = "\<lparr>cf_ZMap = ''c'', cf_OS = ''c'', cf_IPID = ''c''\<rparr>"
          and ok = "\<lambda>_. Works" and root = "''jobs''" and now = "''now''"])
       (use named run in \<open>simp_all add: demo_publish_def\<close>)
  then show ?thesis
    using job_policy_consistent [OF demo_jobs_ok plain parse, of w] w
    by (auto simp: policy_is_def demo_jobs_def decode_encode_with codecs expected_policy_def split: option.splits)
qed

end
