(* ===== verification/Continental.thy ===== *)
theory Continental
  imports Campaign Postprocess
begin

text \<open>
  The runs of a continental campaign: \<^verbatim>\<open>internal/continental/{runner,parallel,interprotocol,references}.go\<close>. A run is a
  sequence of resumable steps (\<^theory_text>\<open>Campaign\<close>), hand-overs to the analysis and immutable publications. The state is
  that of the site; what the tools, the analysis and the other machines do to it, which accesses fail, and the
  clock are parameters (fields of \<open>runner\<close>), as \<open>Execute\<close> and the overrides of \<open>Runner\<close> are in the code.
\<close>

section \<open>The runner\<close>

datatype json = JStr string | JInt int | JBool bool | JList "json list" | JObj "(string \<times> json) list"

text \<open>A file of a measurement: kind, measurement and name.\<close>

type_synonym raw_path = "string \<times> string \<times> string"

datatype run_error = StepError campaign_error | ReadError string | PublicationError string publish_error
  | HandoffError string | SamplerError | TargetUnreadable string | UnsupportedTarget string | PutFileError string
  | ControllerFailed | ProtocolFailed string | InvalidCompletion string | WaitTimedOut | ConfigUnreadable
  | PrepareError | SaveError | FinalError

type_synonym outside = "site \<Rightarrow> site list \<times> bool"

text \<open>A protocol completion, as the other controllers of the site publish it.\<close>

record completion =
  cn_Version :: int
  cn_Campaign :: string
  cn_Site :: string
  cn_Protocol :: string
  cn_Manifest :: string
  cn_Job :: string

record runner =
  rn_campaign :: campaign
  rn_lib :: library
  rn_json :: "json json_lib"
  rn_Prefix :: string
  rn_Workspace :: string
  rn_SkipOS :: bool
  rn_access :: "string \<Rightarrow> access \<times> access \<times> access"
  rn_read :: "string \<Rightarrow> bool"
  rn_outcomes :: "string \<Rightarrow> outcomes \<times> outcomes"
  rn_now :: "string \<Rightarrow> int"
  rn_tool :: "string \<Rightarrow> string list \<Rightarrow> step \<Rightarrow> outside"
  rn_sampler :: "string list \<Rightarrow> outside"
  rn_put_file :: "string \<Rightarrow> access"
  rn_handoff :: "string \<Rightarrow> bool \<Rightarrow> outside"
  rn_prepare :: "(string \<times> string) list \<Rightarrow> outside"
  rn_targets :: string
  rn_target_evidence :: "string \<Rightarrow> file_evidence option"
  rn_save :: "(string \<times> (string \<times> string) list) list \<Rightarrow> bool"
  rn_final :: "(string \<times> (string \<times> string) list) list \<Rightarrow> outside"
  rn_config :: bool
  rn_decode_completion :: "string \<Rightarrow> completion option"
  rn_others :: "nat \<Rightarrow> store \<Rightarrow> store"
  rn_polls :: nat

type_synonym 'a run = "(site, run_error, 'a) traced"

definition outside_run :: "outside \<Rightarrow> run_error \<Rightarrow> unit run" where
  "outside_run f e w = (case f w of (ws, success) \<Rightarrow> (if success then Inr () else Inl e, ws))"

definition read_run :: "runner \<Rightarrow> string \<Rightarrow> string option run" where
  "read_run R uri = (if rn_read R uri then tr_get (\<lambda>w. si_objects w uri) else tr_fail (ReadError uri))"

definition publish_run :: "runner \<Rightarrow> string \<Rightarrow> json \<Rightarrow> unit run" where
  "publish_run R uri v w =
     (case Immutable (rn_json R) uri v (rn_access R uri) (si_objects w) of
        (pc, s) \<Rightarrow> (case pc of Finished (Some e) \<Rightarrow> Inl (PublicationError uri e) | _ \<Rightarrow> Inr (), [w\<lparr>si_objects := s\<rparr>]))"

definition measure_run :: "runner \<Rightarrow> string \<Rightarrow> string \<Rightarrow> string \<Rightarrow> string list \<Rightarrow> string run" where
  "measure_run R name tool payload args w =
     (case measure_step (rn_lib R) (rn_campaign R) (fst (rn_outcomes R name)) (snd (rn_outcomes R name))
         (rn_tool R tool args) (rn_now R name) name tool payload args w of
        (Inl e, ws) \<Rightarrow> (Inl (StepError e), ws)
      | (Inr mid, ws) \<Rightarrow> (Inr mid, ws))"

definition sitePrefix :: "runner \<Rightarrow> string" where
  "sitePrefix R = Join (rn_Prefix R) [''continental'', cp_Campaign (rn_campaign R), ''sites'', cp_Site (rn_campaign R)]"

definition flowPrefix :: "runner \<Rightarrow> string" where
  "flowPrefix R =
     (if cp_Protocol (rn_campaign R) \<noteq> [] then Join (sitePrefix R) [''protocols'', cp_Protocol (rn_campaign R)] else sitePrefix R)"

definition rawPath :: "runner \<Rightarrow> raw_path \<Rightarrow> string" where
  "rawPath R p = (case p of (kind, mid, name) \<Rightarrow> join_parts [rn_Workspace R, kind, ''raw'', mid, name])"

definition raw_prefix :: "runner \<Rightarrow> string \<Rightarrow> string" where
  "raw_prefix R kind = rawPrefix (rn_campaign R) kind"

text \<open>The fields that every publication of the site carries.\<close>

definition site_fields :: "runner \<Rightarrow> (string \<times> json) list" where
  "site_fields R = [(''version'', JInt 1), (''campaign_id'', JStr (cp_Campaign (rn_campaign R))), (''site'', JStr (cp_Site (rn_campaign R)))]"

definition evidence_json :: "string \<Rightarrow> file_evidence \<Rightarrow> json" where
  "evidence_json uri e = JObj [(''uri'', JStr uri), (''size_bytes'', JInt (int (fe_Size e))), (''sha256'', JStr (fe_SHA256 e))]"


section \<open>Measurements, samples and hand-overs\<close>

definition has_suffix :: "string \<Rightarrow> string \<Rightarrow> bool" where
  "has_suffix s x \<longleftrightarrow> length s \<le> length x \<and> drop (length x - length s) x = s"

definition ipid_args :: "runner \<Rightarrow> string \<Rightarrow> string \<Rightarrow> raw_path option \<Rightarrow> bool \<Rightarrow> bool \<Rightarrow> string list" where
  "ipid_args R name zmap target mass connection =
     (let mode = (if has_suffix ''rt'' name then ''rt-based'' else ''fixed-interval'');
          requests = (if mass then ''25'' else ''4'');
          rate = (if mass then ''0.8'' else ''1.0'')
      in [''--zmap'', zmap, ''--connection_count'', ''4'', ''--requests_per_connection'', requests, ''--measurement_mode'', mode,
          ''--tcp.establish_connection'', if connection then ''true'' else ''false'', ''--analysis_workflow.enable'', ''false'']
         @ (if mode = ''fixed-interval''
            then [''--fixed_interval.request_interval'', ''20ms'', ''--fixed_interval.minimum_reply_rate'', rate] else [])
         @ (case target of None \<Rightarrow> [] | Some p \<Rightarrow> [''--target-file'', rawPath R p]))"

definition ipid :: "runner \<Rightarrow> string \<Rightarrow> string \<Rightarrow> string \<Rightarrow> raw_path option \<Rightarrow> bool \<Rightarrow> bool \<Rightarrow> string run" where
  "ipid R name payload zmap target mass connection =
     measure_run R name ''ipid'' payload (ipid_args R name zmap target mass connection)"

definition handoff :: "runner \<Rightarrow> string \<Rightarrow> bool \<Rightarrow> unit run" where
  "handoff R mid mass = outside_run (rn_handoff R mid mass) (HandoffError mid)"

text \<open>\<open>PutFile\<close> of a local file of the discovery.\<close>

definition put_file :: "runner \<Rightarrow> raw_path \<Rightarrow> unit run" where
  "put_file R p =
     (case p of (kind, mid, name) \<Rightarrow>
        let uri = Join (raw_prefix R kind) [mid, name]
        in tr_bind (tr_get (\<lambda>w. local_file w kind mid name)) (\<lambda>content.
             case content of
               None \<Rightarrow> tr_fail (PutFileError name)
             | Some data \<Rightarrow>
                 let put = tr_update (\<lambda>w. w\<lparr>si_objects := (si_objects w)(uri \<mapsto> data)\<rparr>)
                 in (case rn_put_file R uri of
                       Works \<Rightarrow> put
                     | Fails \<Rightarrow> tr_fail (PutFileError name)
                     | FailsAfterEffect \<Rightarrow> tr_seq put (tr_fail (PutFileError name)))))"

definition sample :: "runner \<Rightarrow> string \<Rightarrow> bool \<Rightarrow> raw_path run" where
  "sample R zmap connection =
     (let name = (if connection then ''zmap-connection-sample'' else ''zmap-fixed-base-sample'');
          args = [''--zmap'', zmap, ''--percent'', ''10'', ''--minimum'', ''1000000'']
            @ (if connection then [''--reply-type'', ''synack''] else [])
      in tr_seq (outside_run (rn_sampler R args) SamplerError)
        (tr_seq (put_file R (''zmap'', zmap, name @ ''.pq''))
        (tr_seq (put_file R (''zmap'', zmap, name @ ''.json''))
        (tr_return (''zmap'', zmap, name @ ''.pq'')))))"

text \<open>\<open>streamMeasurement\<close>: one finished measurement is handed to the analysis, with the evidence of its targets.\<close>

definition stream_uri :: "runner \<Rightarrow> string \<Rightarrow> raw_path \<Rightarrow> string option" where
  "stream_uri R zmap target =
     (case target of (kind, mid, name) \<Rightarrow>
        if name \<in> {''zmap.pq'', ''zmap-fixed-base-sample.pq'', ''zmap-connection-sample.pq''}
          then Some (Join (raw_prefix R ''zmap'') [zmap, name])
        else if name \<in> {''zmap_unclassified.pq'', ''random-reproducibility-targets.pq''}
          then Some (Join (raw_prefix R ''ipid'') [mid, name])
        else None)"

definition measurement_request_uri :: "runner \<Rightarrow> string \<Rightarrow> string" where
  "measurement_request_uri R mid = Join (flowPrefix R) [''measurement-jobs'', mid, ''request.json'']"

definition streamMeasurement :: "runner \<Rightarrow> string \<Rightarrow> string \<Rightarrow> raw_path option \<Rightarrow> string \<Rightarrow> unit run" where
  "streamMeasurement R mid zmap target variant =
     (let path = (case target of None \<Rightarrow> (''zmap'', zmap, ''zmap.pq'') | Some p \<Rightarrow> p)
      in tr_bind (tr_get (\<lambda>w. case path of (kind, m, name) \<Rightarrow> local_file w kind m name)) (\<lambda>content.
           case content of
             None \<Rightarrow> tr_fail (TargetUnreadable (rawPath R path))
           | Some data \<Rightarrow>
               (case stream_uri R zmap path of
                  None \<Rightarrow> tr_fail (UnsupportedTarget (rawPath R path))
                | Some uri \<Rightarrow>
                    publish_run R (measurement_request_uri R mid)
                      (JObj (site_fields R @
                        [(''protocol'', JStr (cp_Protocol (rn_campaign R))), (''measurement_id'', JStr mid), (''zmap_id'', JStr zmap),
                         (''variant'', JStr variant), (''raw_prefix'', JStr (raw_prefix R ''ipid'')),
                         (''zmap_prefix'', JStr (raw_prefix R ''zmap'')),
                         (''target'', evidence_json uri (Evidence (rn_lib R) data))])))))"


section \<open>Manifest and strategy request\<close>

definition text_field :: "string \<Rightarrow> string \<Rightarrow> (string \<times> json) list" where
  "text_field name s = (if s = [] then [] else [(name, JStr s)])"

definition scale_json :: "string \<times> string \<Rightarrow> json" where
  "scale_json x = JObj (text_field ''base'' (fst x) @ text_field ''mass'' (snd x))"

definition interval_json :: "interval_measurements \<Rightarrow> json" where
  "interval_json i = JObj [(''rt-based'', scale_json (im_RTBased i)), (''fixed-interval'', scale_json (im_FixedInterval i))]"

definition reproducibility_json :: "reproducibility \<Rightarrow> json" where
  "reproducibility_json r = JObj [(''baseline'', JStr (rr_Baseline r)), (''repeats'', JList (map JStr (rr_Repeats r))),
     (''target_file'', JStr (rr_TargetFile r)), (''cohort_file'', JStr (rr_CohortFile r)),
     (''prepare_metadata_file'', JStr (rr_PrepareMetadataFile r)), (''selection_seed'', JInt (rr_SelectionSeed r)),
     (''maximum_targets'', JInt (rr_MaximumTargets r))]"

definition protocol_json :: "protocol_measurements \<Rightarrow> json" where
  "protocol_json p = JObj (text_field ''os_status'' (pm_OSStatus p) @ text_field ''connection_target'' (pm_ConnectionTarget p)
     @ [(''zmap'', JStr (pm_ZMap p))] @ text_field ''os'' (pm_OS p)
     @ [(''ipid'', JObj ((''no-connection'', interval_json (pm_NoConnection p))
          # (case pm_Connection p of None \<Rightarrow> [] | Some i \<Rightarrow> [(''connection'', interval_json i)])))]
     @ (case pm_RandomReproducibility p of None \<Rightarrow> [] | Some r \<Rightarrow> [(''random_reproducibility'', reproducibility_json r)]))"

definition manifest_json :: "manifest \<Rightarrow> json" where
  "manifest_json m = JObj (map (\<lambda>(protocol, p). (protocol, protocol_json p)) m)"

definition request_json :: "job_request \<Rightarrow> json" where
  "request_json q = JObj (text_field ''os_status'' (rq_OSStatus q) @ text_field ''connection_target_uri'' (rq_ConnectionTargetURI q)
     @ [(''version'', JInt (rq_Version q)), (''job_id'', JStr (rq_JobID q)), (''protocol'', JStr (rq_Protocol q)),
        (''manifest_uri'', JStr (rq_ManifestURI q)), (''zmap_prefix'', JStr (rq_ZMapPrefix q)), (''os_prefix'', JStr (rq_OSPrefix q)),
        (''ipid_prefix'', JStr (rq_IPIDPrefix q)), (''done_uri'', JStr (rq_DoneURI q)), (''failed_uri'', JStr (rq_FailedURI q))]
     @ text_field ''fixed_base_target_uri'' (rq_FixedBaseTargetURI q) @ [(''created_at'', JStr (rq_CreatedAt q))])"

definition analysis_manifest_uri :: "runner \<Rightarrow> string \<Rightarrow> string" where
  "analysis_manifest_uri R zmap = Join (Join (flowPrefix R) [''analysis-jobs'', zmap]) [''manifest.json'']"

definition strategy_uri :: "runner \<Rightarrow> string \<Rightarrow> string" where
  "strategy_uri R zmap = Join (flowPrefix R) [''strategy-jobs'', zmap, ''request.json'']"

text \<open>The time of the discovery step; \<open>sampled\<close> is the name of the connection target, if there is one.\<close>

definition strategy_request :: "runner \<Rightarrow> string \<Rightarrow> string \<Rightarrow> raw_path \<Rightarrow> raw_path option \<Rightarrow> string \<Rightarrow> job_request" where
  "strategy_request R protocol zmap target connection created =
     (let job = Join (flowPrefix R) [''analysis-jobs'', zmap]; file = (\<lambda>p. Join (raw_prefix R ''zmap'') [zmap, snd (snd p)])
      in \<lparr>rq_OSStatus = (if rn_SkipOS R then ''not_requested'' else []),
          rq_ConnectionTargetURI = (case connection of None \<Rightarrow> [] | Some p \<Rightarrow> file p),
          rq_Version = 1, rq_JobID = zmap, rq_Protocol = protocol, rq_ManifestURI = analysis_manifest_uri R zmap,
          rq_ZMapPrefix = raw_prefix R ''zmap'',
          rq_OSPrefix = (if rn_SkipOS R then [] else Join (cp_RawRoot (rn_campaign R)) [''continental'', cp_Campaign (rn_campaign R), ''os'']),
          rq_IPIDPrefix = raw_prefix R ''ipid'', rq_DoneURI = Join job [''done.json''], rq_FailedURI = Join job [''failed.json''],
          rq_FixedBaseTargetURI = file target, rq_CreatedAt = created\<rparr>)"

definition discovery_time :: "string \<Rightarrow> site \<Rightarrow> string" where
  "discovery_time protocol w = (case map_of (si_steps w) (''zmap-'' @ protocol) of None \<Rightarrow> ''0001-01-01T00:00:00Z'' | Some s \<Rightarrow> sp_Stamp s)"

definition run_measurements ::
  "runner \<Rightarrow> string \<Rightarrow> string \<Rightarrow> string \<Rightarrow> string \<Rightarrow> raw_path \<Rightarrow> string list \<Rightarrow> (raw_path \<times> string \<times> string) option \<Rightarrow> measurements" where
  "run_measurements R zmap rt mass base target repeats connection =
     \<lparr>ms_SkipOS = rn_SkipOS R, ms_ZMap = zmap, ms_OS = (if rn_SkipOS R then [] else ''shared-os''), ms_RTBase = rt, ms_FixedMass = mass,
      ms_FixedBase = base,
      ms_ConnectionTarget = (case connection of None \<Rightarrow> [] | Some (p, _) \<Rightarrow> rawPath R p),
      ms_FixedBaseTarget = rawPath R target,
      ms_ConnectionRTBase = (case connection of None \<Rightarrow> [] | Some (_, crt, _) \<Rightarrow> crt),
      ms_ConnectionFIBase = (case connection of None \<Rightarrow> [] | Some (_, _, cfi) \<Rightarrow> cfi),
      ms_Repeats = repeats, ms_MaximumTargets = 10000, ms_SelectionSeed = 42\<rparr>"

text \<open>The manifest, then the strategy request that refers to it.\<close>

definition publish_job :: "runner \<Rightarrow> string \<Rightarrow> string \<Rightarrow> raw_path \<Rightarrow> raw_path option \<Rightarrow> measurements \<Rightarrow> unit run" where
  "publish_job R protocol zmap target connection m =
     tr_seq (publish_run R (analysis_manifest_uri R zmap) (manifest_json (BuildManifest protocol m)))
       (tr_bind (tr_get (discovery_time protocol)) (\<lambda>created.
        publish_run R (strategy_uri R zmap) (request_json (strategy_request R protocol zmap target connection created))))"


section \<open>The inter-protocol part\<close>

definition OrderedGroups :: "string list" where
  "OrderedGroups = [''icmp-tcp'', ''icmp-udp'', ''tcp-udp'', ''icmp-tcp-udp'']"

definition GroupProtocols :: "string \<Rightarrow> string list" where
  "GroupProtocols g =
     (if g = ''icmp-tcp'' then [''icmp'', ''tcp''] else if g = ''icmp-udp'' then [''icmp'', ''udp'']
      else if g = ''tcp-udp'' then [''tcp'', ''udp''] else if g = ''icmp-tcp-udp'' then [''icmp'', ''tcp'', ''udp''] else [])"

definition samples_of :: "string list \<Rightarrow> (string \<times> string) list" where
  "samples_of xs = concat (map (\<lambda>s. map (\<lambda>x. (s, x)) xs) [''base'', ''mass''])"

definition reference_name :: "string \<times> string \<Rightarrow> string" where
  "reference_name x = ''reference-'' @ snd x @ ''-'' @ fst x"

definition target_file :: "runner \<Rightarrow> string \<Rightarrow> string" where
  "target_file R name = rn_targets R @ ''/'' @ name @ ''-targets.pq''"

definition local_reference :: "runner \<Rightarrow> string \<times> string \<Rightarrow> unit run" where
  "local_reference R x =
     (let name = reference_name x; file = name @ ''-targets.pq''
      in case rn_target_evidence R file of
           None \<Rightarrow> tr_fail (TargetUnreadable file)
         | Some evidence \<Rightarrow>
             tr_bind (measure_run R name ''interprotocol'' (''interprotocol-'' @ snd x)
                 [''--local-reference'', ''--sample'', fst x, ''--target-file'', target_file R name, ''--protocols'', snd x,
                  ''--tcp-port'', ''80'', ''--udp-port'', ''53'']) (\<lambda>mid.
               publish_run R (Join (sitePrefix R) [''reference-jobs'', name, ''request.json''])
                 (JObj (site_fields R @
                   [(''protocol'', JStr (snd x)), (''sample'', JStr (fst x)), (''measurement_id'', JStr mid),
                    (''raw_prefix'', JStr (raw_prefix R ''ipid'')),
                    (''target'', evidence_json
                       (Join (sitePrefix R) [''interprotocol-target-jobs'', ''interprotocol'', ''targets'', file]) evidence)]))))"

definition localReferences :: "runner \<Rightarrow> unit run" where
  "localReferences R =
     tr_seq (tr_each (local_reference R) (samples_of [''icmp'', ''tcp'', ''udp'']))
       (publish_run R (Join (sitePrefix R) [''reference-comparison'', ''request.json'']) (JObj (site_fields R)))"

text \<open>What the manifest of the run says of its groups: the measurements by sample.\<close>

definition group_runs :: "string list \<Rightarrow> (string \<times> (string \<times> string) list) list" where
  "group_runs ids =
     map (\<lambda>g. (g, map (\<lambda>((s, _), i). (s, i)) (filter (\<lambda>((_, h), _). h = g) (zip (samples_of OrderedGroups) ids)))) OrderedGroups"

definition interprotocol :: "runner \<Rightarrow> (string \<times> string) list \<Rightarrow> unit run" where
  "interprotocol R manifests =
     tr_seq (outside_run (rn_prepare R manifests) PrepareError)
       (tr_seq (if cp_Protocol (rn_campaign R) \<noteq> [] then localReferences R else tr_return ())
       (tr_bind (tr_each (\<lambda>(s, g). measure_run R (''interprotocol-'' @ g @ ''-'' @ s) ''interprotocol'' (''interprotocol-'' @ g)
            [''--sample'', s, ''--target-file'', target_file R g, ''--protocols'', join_on (CHR '','') (GroupProtocols g),
             ''--tcp-port'', ''80'', ''--udp-port'', ''53'']) (samples_of OrderedGroups)) (\<lambda>ids.
        tr_seq (tr_check (rn_save R (group_runs ids)) SaveError)
       (tr_seq (outside_run (rn_final R (group_runs ids)) FinalError)
       (publish_run R (Join (sitePrefix R) [''final'', ''request.json''])
         (JObj (site_fields R @ [(''interprotocol_job'', JStr ''interprotocol'')])))))))"


section \<open>Waiting for the other controllers\<close>

definition manifest_key :: "string \<Rightarrow> string" where
  "manifest_key p = (if p = ''udp-dns'' then ''udp'' else p)"

fun poll_protocols :: "runner \<Rightarrow> string list \<Rightarrow> (string \<times> string) list \<Rightarrow> (string \<times> string) list run" where
  "poll_protocols R [] manifests = tr_return manifests"
| "poll_protocols R (p # ps) manifests =
     (let flow = Join (sitePrefix R) [''protocols'', p] in
      tr_bind (read_run R (Join flow [''done.json''])) (\<lambda>object.
        case object of
          None \<Rightarrow>
            tr_bind (read_run R (Join flow [''controller'', ''failed.json''])) (\<lambda>failed.
              if failed \<noteq> None then tr_fail (ProtocolFailed p) else poll_protocols R ps manifests)
        | Some data \<Rightarrow>
            (case rn_decode_completion R data of
               None \<Rightarrow> tr_fail (InvalidCompletion p)
             | Some v \<Rightarrow>
                 if cn_Version v \<noteq> 1 \<or> cn_Campaign v \<noteq> cp_Campaign (rn_campaign R) \<or> cn_Site v \<noteq> cp_Site (rn_campaign R)
                    \<or> cn_Protocol v \<noteq> p \<or> cn_Manifest v \<noteq> Join flow [''analysis-jobs'', cn_Job v, ''manifest.json'']
                 then tr_fail (InvalidCompletion p)
                 else poll_protocols R ps (manifests @ [(manifest_key p, cn_Manifest v)]))))"

text \<open>\<open>k\<close> more ticks before the deadline; the others act between two polls.\<close>

fun wait_polls :: "runner \<Rightarrow> nat \<Rightarrow> (string \<times> string) list run" where
  "wait_polls R k =
     tr_bind (poll_protocols R Protocols []) (\<lambda>manifests.
       if length manifests = 3 then tr_return manifests
       else case k of
         0 \<Rightarrow> tr_fail WaitTimedOut
       | Suc k' \<Rightarrow> tr_seq (tr_update (\<lambda>w. w\<lparr>si_objects := rn_others R k (si_objects w)\<rparr>)) (wait_polls R k'))"

declare wait_polls.simps [simp del]

definition waitProtocols :: "runner \<Rightarrow> (string \<times> string) list run" where
  "waitProtocols R = wait_polls R (rn_polls R)"


section \<open>The run of one protocol\<close>

definition payload_of :: "string \<Rightarrow> string" where
  "payload_of p =
     (if p = ''icmp'' then ''icmp'' else if p = ''tcp'' then ''tcp-80'' else if p = ''udp-dns'' then ''udp-dns-53'' else [])"

definition discovery_args :: "string \<Rightarrow> string list" where
  "discovery_args p = [''--payload'', p] @ (if p = ''tcp'' then [''--port'', ''80''] else [])
     @ (if p = ''udp-dns'' then [''--port'', ''53'', ''--probe-args'', ''A,www.example.com''] else [])"

definition measure_and_stream ::
  "runner \<Rightarrow> string \<Rightarrow> string \<Rightarrow> string \<Rightarrow> raw_path option \<Rightarrow> bool \<Rightarrow> bool \<Rightarrow> string \<Rightarrow> string run" where
  "measure_and_stream R name payload zmap target mass connection variant =
     tr_bind (ipid R name payload zmap target mass connection) (\<lambda>mid.
       tr_seq (streamMeasurement R mid zmap target variant) (tr_return mid))"

text \<open>The measurement, its hand-over to the analysis, which writes new targets, and the request for it.\<close>

definition measure_with_handoff ::
  "runner \<Rightarrow> string \<Rightarrow> string \<Rightarrow> string \<Rightarrow> raw_path option \<Rightarrow> bool \<Rightarrow> string \<Rightarrow> string run" where
  "measure_with_handoff R name payload zmap target mass variant =
     tr_bind (ipid R name payload zmap target mass False) (\<lambda>mid.
       tr_seq (handoff R mid mass)
         (tr_seq (streamMeasurement R mid zmap target variant) (tr_return mid)))"

definition repeat_steps :: "string \<Rightarrow> string list" where
  "repeat_steps p = map (\<lambda>n. p @ ''-repeat-'' @ dec_of_nat n) [1..<6]"

definition connection_steps :: "runner \<Rightarrow> string \<Rightarrow> string \<Rightarrow> (raw_path \<times> string \<times> string) option run" where
  "connection_steps R payload zmap =
     tr_bind (sample R zmap True) (\<lambda>target.
     tr_bind (measure_and_stream R ''tcp-connection-rt'' payload zmap (Some target) False True ''connection-rt-base'') (\<lambda>crt.
     tr_bind (measure_and_stream R ''tcp-connection-fi'' payload zmap (Some target) False True ''connection-fi-base'') (\<lambda>cfi.
     tr_return (Some (target, crt, cfi)))))"

definition controller_uri :: "runner \<Rightarrow> string \<Rightarrow> string" where
  "controller_uri R name = Join (flowPrefix R) [''controller'', name]"

definition done_uri :: "runner \<Rightarrow> string" where
  "done_uri R = Join (flowPrefix R) [''done.json'']"

definition protocol_field :: "runner \<Rightarrow> (string \<times> json) list" where
  "protocol_field R = site_fields R @ [(''protocol'', JStr (cp_Protocol (rn_campaign R)))]"

definition finish_protocol :: "runner \<Rightarrow> string \<Rightarrow> unit run" where
  "finish_protocol R zmap =
     tr_seq (publish_run R (done_uri R) (JObj (protocol_field R @
         [(''manifest_uri'', JStr (analysis_manifest_uri R zmap)), (''job_id'', JStr zmap)])))
       (tr_seq (if cp_Protocol (rn_campaign R) = ''udp-dns''
          then tr_bind (waitProtocols R) (\<lambda>manifests.
            tr_seq (tr_check (rn_config R) ConfigUnreadable) (interprotocol R manifests))
          else tr_return ())
       (publish_run R (controller_uri R ''done.json'') (JObj (protocol_field R))))"

definition protocol_steps :: "runner \<Rightarrow> string \<Rightarrow> unit run" where
  "protocol_steps R zmap =
     (let p = cp_Protocol (rn_campaign R); payload = payload_of p in
      tr_seq (publish_run R (Join (flowPrefix R) [''discovery.json'']) (JObj (protocol_field R @
          [(''measurement_id'', JStr zmap), (''raw_prefix'', JStr (raw_prefix R ''zmap''))])))
        (tr_bind (measure_with_handoff R (p @ ''-rt'') payload zmap None False ''rt-base'') (\<lambda>rt.
         tr_bind (measure_with_handoff R (p @ ''-mass'') payload zmap (Some (''ipid'', rt, ''zmap_unclassified.pq'')) True ''fi-mass'') (\<lambda>mass.
         tr_bind (tr_each (\<lambda>name. measure_and_stream R name payload zmap
             (Some (''ipid'', mass, ''random-reproducibility-targets.pq'')) True False ''repeat'') (repeat_steps p)) (\<lambda>repeats.
         tr_bind (sample R zmap False) (\<lambda>target.
         tr_bind (measure_and_stream R (p @ ''-base'') payload zmap (Some target) False False ''fi-base'') (\<lambda>base.
         tr_bind (if p = ''tcp'' then connection_steps R payload zmap else tr_return None) (\<lambda>connection.
         tr_seq (publish_job R p zmap target (map_option fst connection)
             (run_measurements R zmap rt mass base target repeats connection))
        (finish_protocol R zmap)))))))))"

definition runProtocol :: "runner \<Rightarrow> unit run" where
  "runProtocol R =
     tr_bind (read_run R (controller_uri R ''failed.json'')) (\<lambda>failed.
       if failed \<noteq> None then tr_fail ControllerFailed
       else tr_bind (read_run R (controller_uri R ''done.json'')) (\<lambda>finished.
         if finished \<noteq> None then tr_return ()
         else let p = cp_Protocol (rn_campaign R) in
           tr_bind (measure_run R (''zmap-'' @ p) ''zmap'' (payload_of p) (discovery_args p)) (protocol_steps R)))"


section \<open>The run of all protocols on one machine\<close>

definition legacy_protocol :: "runner \<Rightarrow> string \<times> string \<Rightarrow> (string \<times> string) run" where
  "legacy_protocol R x =
     (case x of (p, zmap) \<Rightarrow>
        let payload = payload_of p in
        tr_bind (ipid R (p @ ''-rt'') payload zmap None False False) (\<lambda>rt.
        tr_seq (handoff R rt False)
       (tr_bind (ipid R (p @ ''-mass'') payload zmap (Some (''ipid'', rt, ''zmap_unclassified.pq'')) True False) (\<lambda>mass.
        tr_seq (handoff R mass True)
       (tr_bind (tr_each (\<lambda>name. ipid R name payload zmap (Some (''ipid'', mass, ''random-reproducibility-targets.pq'')) True False)
            (repeat_steps p)) (\<lambda>repeats.
        tr_bind (sample R zmap False) (\<lambda>target.
        tr_bind (ipid R (p @ ''-base'') payload zmap (Some target) False False) (\<lambda>base.
        tr_bind (if p = ''tcp''
            then tr_bind (sample R zmap True) (\<lambda>ct.
              tr_bind (ipid R ''tcp-connection-rt'' payload zmap (Some ct) False True) (\<lambda>crt.
              tr_bind (ipid R ''tcp-connection-fi'' payload zmap (Some ct) False True) (\<lambda>cfi.
              tr_return (Some (ct, crt, cfi)))))
            else tr_return None) (\<lambda>connection.
        tr_seq (publish_job R p zmap target (map_option fst connection)
            (run_measurements R zmap rt mass base target repeats connection))
       (tr_return (manifest_key p, analysis_manifest_uri R zmap)))))))))))"

definition Run :: "runner \<Rightarrow> unit run" where
  "Run R =
     (if cp_Protocol (rn_campaign R) \<noteq> [] then runProtocol R
      else tr_bind (read_run R (Join (sitePrefix R) [''final'', ''request.json''])) (\<lambda>final.
        if final \<noteq> None then tr_return ()
        else tr_bind (tr_each (\<lambda>p. measure_run R (''zmap-'' @ p) ''zmap'' (payload_of p) (discovery_args p)) Protocols) (\<lambda>discovery.
          tr_seq (publish_run R (Join (sitePrefix R) [''discovery.json'']) (JObj (site_fields R @
              [(''zmap'', JObj (zip Protocols (map JStr discovery))), (''raw_prefix'', JStr (raw_prefix R ''zmap''))])))
            (tr_bind (tr_each (legacy_protocol R) (zip Protocols discovery)) (interprotocol R)))))"

end
