(* ===== verification/Continental_Safety.thy ===== *)
theory Continental_Safety
  imports Continental
begin

text \<open>
  What the publications of a site promise: analysis is requested only of measurements that are durable. The
  invariant is kept by every access, so it holds after any history of runs, failures and crashes.
\<close>

section \<open>The promise\<close>

definition durable :: "runner \<Rightarrow> string \<Rightarrow> string \<Rightarrow> store \<Rightarrow> bool" where
  "durable R kind mid s \<longleftrightarrow> s (marker_uri (rn_campaign R) kind mid) \<noteq> None"

definition named_measurements :: "measurements \<Rightarrow> string list" where
  "named_measurements m = [ms_RTBase m, ms_FixedMass m, ms_FixedBase m] @ ms_Repeats m
     @ (if ms_ConnectionRTBase m = [] then [] else [ms_ConnectionRTBase m, ms_ConnectionFIBase m])"

definition manifest_durable :: "runner \<Rightarrow> store \<Rightarrow> measurements \<Rightarrow> bool" where
  "manifest_durable R s m \<longleftrightarrow> durable R ''zmap'' (ms_ZMap m) s \<and> list_all (\<lambda>i. durable R ''ipid'' i s) (named_measurements m)"

text \<open>
  A measurement request names a durable measurement; a manifest only durable ones; a strategy request a durable
  discovery and a manifest; the completion comes after a strategy request, and the end of the controller after it.
\<close>

definition promise :: "runner \<Rightarrow> store \<Rightarrow> bool" where
  "promise R s \<longleftrightarrow>
     (\<forall>mid. s (measurement_request_uri R mid) \<noteq> None \<longrightarrow> durable R ''ipid'' mid s)
     \<and> (\<forall>z b. s (analysis_manifest_uri R z) = Some b \<longrightarrow>
          (\<exists>p m. b = Encode (rn_json R) (manifest_json (BuildManifest p m)) \<and> manifest_durable R s m))
     \<and> (\<forall>z. s (strategy_uri R z) \<noteq> None \<longrightarrow> durable R ''zmap'' z s \<and> s (analysis_manifest_uri R z) \<noteq> None)
     \<and> (s (done_uri R) \<noteq> None \<longrightarrow> (\<exists>z. s (strategy_uri R z) \<noteq> None))
     \<and> (s (controller_uri R ''done.json'') \<noteq> None \<longrightarrow> s (done_uri R) \<noteq> None)"

definition control :: "runner \<Rightarrow> string \<Rightarrow> bool" where
  "control R u \<longleftrightarrow> (\<exists>x. u = measurement_request_uri R x) \<or> (\<exists>x. u = analysis_manifest_uri R x) \<or> (\<exists>x. u = strategy_uri R x)
     \<or> u = done_uri R \<or> u = controller_uri R ''done.json''"

text \<open>What others may do: remove no object, and leave the controls of this run alone.\<close>

definition tame :: "runner \<Rightarrow> store \<Rightarrow> store \<Rightarrow> bool" where
  "tame R s s' \<longleftrightarrow> (\<forall>u. (s u \<noteq> None \<longrightarrow> s' u \<noteq> None) \<and> (control R u \<longrightarrow> s' u = s u))"

lemma tame_refl [simp]: "tame R s s"
  by (simp add: tame_def)

lemma tame_trans: "tame R s t \<Longrightarrow> tame R t u \<Longrightarrow> tame R s u"
  by (auto simp: tame_def)

lemma tame_put: "\<not> control R uri \<Longrightarrow> tame R s (s(uri \<mapsto> c))"
  by (auto simp: tame_def)

lemma tame_durable: "tame R s s' \<Longrightarrow> durable R k m s \<Longrightarrow> durable R k m s'"
  unfolding tame_def durable_def by blast

lemma grow_durable: "durable R k m s \<Longrightarrow> durable R k m (s(uri \<mapsto> c))"
  by (simp add: durable_def)

lemma durable_manifest:
  "(\<And>k i. durable R k i s \<Longrightarrow> durable R k i s') \<Longrightarrow> manifest_durable R s m \<Longrightarrow> manifest_durable R s' m"
  by (auto simp: manifest_durable_def list_all_iff)

lemma tame_promise:
  assumes "tame R s s'" "promise R s"
  shows "promise R s'"
proof -
  have same: "s' (measurement_request_uri R x) = s (measurement_request_uri R x)"
    "s' (analysis_manifest_uri R x) = s (analysis_manifest_uri R x)" "s' (strategy_uri R x) = s (strategy_uri R x)"
    "s' (done_uri R) = s (done_uri R)" "s' (controller_uri R ''done.json'') = s (controller_uri R ''done.json'')" for x
    using assms(1) by (auto simp: tame_def control_def)
  note keep = tame_durable [OF assms(1)]
  note keeps = durable_manifest [OF keep]
  show ?thesis
    using assms(2) unfolding promise_def same by (meson keep keeps)
qed


section \<open>The operations\<close>

definition tame_outside :: "runner \<Rightarrow> outside \<Rightarrow> bool" where
  "tame_outside R f \<longleftrightarrow> (\<forall>w. list_all (\<lambda>v. tame R (si_objects w) (si_objects v)) (fst (f w)))"

definition environment_ok :: "runner \<Rightarrow> bool" where
  "environment_ok R \<longleftrightarrow> library_ok (rn_lib R) \<and> cp_Protocol (rn_campaign R) \<in> set ([] # Protocols)
     \<and> (\<forall>tool args. tool_keeps_steps (rn_tool R tool args) \<and> (\<forall>s. tame_outside R (rn_tool R tool args s)))
     \<and> (\<forall>args. tame_outside R (rn_sampler R args)) \<and> (\<forall>mid mass. tame_outside R (rn_handoff R mid mass))
     \<and> (\<forall>m. tame_outside R (rn_prepare R m)) \<and> (\<forall>g. tame_outside R (rn_final R g))
     \<and> (\<forall>n s. tame R s (rn_others R n s))"

text \<open>The promise holds, and these objects exist.\<close>

definition inv :: "runner \<Rightarrow> string set \<Rightarrow> site \<Rightarrow> bool" where
  "inv R D w \<longleftrightarrow> promise R (si_objects w) \<and> (\<forall>u \<in> D. si_objects w u \<noteq> None)"

lemma inv_tame: "inv R D w \<Longrightarrow> tame R (si_objects w) (si_objects v) \<Longrightarrow> inv R D v"
  using tame_promise unfolding inv_def tame_def by blast

lemma inv_subset: "inv R E w \<Longrightarrow> D \<subseteq> E \<Longrightarrow> inv R D w"
  by (auto simp: inv_def)

text \<open>Triples in which the set of existing objects grows.\<close>

definition keeps :: "runner \<Rightarrow> string set \<Rightarrow> 'a run \<Rightarrow> ('a \<Rightarrow> string set) \<Rightarrow> bool" where
  "keeps R D m E \<longleftrightarrow> traced_ok (inv R D) m (inv R {}) (\<lambda>a. inv R (E a))"

named_theorems keeps_rules

lemma keeps_bind: "keeps R D m E \<Longrightarrow> (\<And>a. keeps R (E a) (f a) F) \<Longrightarrow> keeps R D (tr_bind m f) F"
  unfolding keeps_def by (rule traced_ok_bind)

lemma keeps_seq: "keeps R D m (\<lambda>_. E) \<Longrightarrow> keeps R E n F \<Longrightarrow> keeps R D (tr_seq m n) F"
  unfolding keeps_def by (rule traced_ok_seq)

lemma keeps_fail: "keeps R D (tr_fail e) E"
  by (simp add: keeps_def traced_ok_fail)

lemma keeps_return: "E a \<subseteq> D \<Longrightarrow> keeps R D (tr_return a) E"
  unfolding keeps_def by (rule traced_ok_return) (rule inv_subset)

lemma keeps_get: "keeps R D (tr_get f) (\<lambda>_. D)"
  by (simp add: keeps_def traced_ok_get)

lemma keeps_check: "keeps R D (tr_check b e) (\<lambda>_. D)"
  unfolding keeps_def by (rule traced_ok_check)

lemma keeps_weaken: "keeps R D m E \<Longrightarrow> D \<subseteq> D' \<Longrightarrow> (\<And>a. E' a \<subseteq> E a) \<Longrightarrow> keeps R D' m E'"
  unfolding keeps_def traced_ok_def by (meson inv_subset)

lemma keeps_tame:
  assumes "\<And>w w'. w' \<in> set (snd (m w)) \<Longrightarrow> tame R (si_objects w) (si_objects w')"
  shows "keeps R D m (\<lambda>_. D)"
  unfolding keeps_def
proof (rule traced_okI)
  show "inv R {} w'" if "inv R D w" "w' \<in> set (snd (m w))" for w w'
    using inv_tame [OF that(1) assms [OF that(2)]] inv_subset by blast
  show "inv R D (last (w # snd (m w)))" if "inv R D w" for w
  proof (cases "snd (m w) = []")
    case False
    then show ?thesis using inv_tame [OF that assms [OF last_in_set]] by simp
  qed (use that in simp)
qed

lemma keeps_outside [keeps_rules]: "tame_outside R f \<Longrightarrow> keeps R D (outside_run f e) (\<lambda>_. D)"
  by (rule keeps_tame) (auto simp: outside_run_def tame_outside_def list_all_iff split: prod.splits if_splits; force)

lemma keeps_read [keeps_rules]: "keeps R D (read_run R' uri) (\<lambda>_. D)"
  by (simp add: read_run_def keeps_get keeps_fail)

text \<open>A publication: nothing happened, or the object is new.\<close>

lemma publish_run_cases:
  obtains (same) r where "publish_run R uri v w = (r, [w\<lparr>si_objects := si_objects w\<rparr>])"
      "r = Inr () \<longrightarrow> si_objects w uri \<noteq> None"
  | (new) r where "publish_run R uri v w = (r, [w\<lparr>si_objects := (si_objects w)(uri \<mapsto> Encode (rn_json R) v)\<rparr>])"
      "si_objects w uri = None"
proof -
  obtain r s' where im: "Immutable (rn_json R) uri v (rn_access R uri) (si_objects w) = (Finished r, s')"
    "s' = si_objects w \<or> si_objects w uri = None \<and> s' = (si_objects w)(uri \<mapsto> Encode (rn_json R) v)"
    "r = None \<longrightarrow> (\<exists>b. s' uri = Some b \<and> JSONEqual (rn_json R) b (Encode (rn_json R) v))"
    using Immutable_once [of "rn_json R" uri v "rn_access R uri" "si_objects w"] by blast
  have run: "publish_run R uri v w = (case r of None \<Rightarrow> Inr () | Some e \<Rightarrow> Inl (PublicationError uri e), [w\<lparr>si_objects := s'\<rparr>])"
    using im(1) by (simp add: publish_run_def split: option.split)
  show ?thesis
  proof (cases "s' = si_objects w")
    case True
    then show ?thesis using same [of "case r of None \<Rightarrow> Inr () | Some e \<Rightarrow> Inl (PublicationError uri e)"] run im(3)
      by (auto split: option.splits)
  next
    case False
    then show ?thesis using new [of "case r of None \<Rightarrow> Inr () | Some e \<Rightarrow> Inl (PublicationError uri e)"] run im(2) by simp
  qed
qed

lemma keeps_publish:
  assumes "\<And>s. promise R s \<Longrightarrow> \<forall>u \<in> D. s u \<noteq> None \<Longrightarrow> promise R (s(uri \<mapsto> Encode (rn_json R) v))"
  shows "keeps R D (publish_run R uri v) (\<lambda>_. insert uri D)"
  unfolding keeps_def
proof (rule traced_okI)
  have ok: "inv R D w' \<and> (fst (publish_run R uri v w) = Inr () \<longrightarrow> si_objects w' uri \<noteq> None)"
    if w: "inv R D w" "w' \<in> set (snd (publish_run R uri v w))" for w w'
  proof (cases rule: publish_run_cases [of R uri v w])
    case (same r)
    then show ?thesis using w by (auto simp: inv_def)
  next
    case (new r)
    then show ?thesis using w assms [of "si_objects w"] by (auto simp: inv_def)
  qed
  show "inv R {} w'" if "inv R D w" "w' \<in> set (snd (publish_run R uri v w))" for w w'
    using ok [OF that] by (simp add: inv_def)
  show "inv R (insert uri D) (last (w # snd (publish_run R uri v w)))"
    if w: "inv R D w" and r: "fst (publish_run R uri v w) = Inr a" for w a
  proof -
    have "snd (publish_run R uri v w) \<noteq> []"
      by (cases rule: publish_run_cases [of R uri v w]) simp_all
    then have "last (w # snd (publish_run R uri v w)) \<in> set (snd (publish_run R uri v w))" by simp
    then show ?thesis using ok [OF w] r by (simp add: inv_def)
  qed
qed

lemma keeps_publish_other: "\<not> control R uri \<Longrightarrow> keeps R D (publish_run R uri v) (\<lambda>_. D)"
  by (rule keeps_weaken [OF keeps_publish]) (rule tame_promise [OF tame_put], auto)


section \<open>A measuring step\<close>

lemma attempt_objects:
  assumes "\<And>s. tame_outside R (tool_run s)"
    and "w' \<in> set (snd (attempt L c ok ok' tool_run now name kind tool payload args signature w))"
  shows "tame R (si_objects w) (si_objects w')"
proof -
  obtain t where t: "next_stamp L now (map snd (si_steps w)) = Some t"
    using assms(2) by (auto simp: attempt_def split: option.splits)
  let ?s = "new_step L t tool payload args signature"
  let ?w1 = "put_step name ?s w"
  obtain ws success where run: "tool_run ?s ?w1 = (ws, success)" by fastforce
  have obj: "si_objects ?w1 = si_objects w" by (simp add: put_step_def)
  have tame: "tame R (si_objects w) (si_objects v)" if "v \<in> set (?w1 # ws)" for v
  proof -
    have "list_all (\<lambda>v. tame R (si_objects ?w1) (si_objects v)) ws"
      using assms(1) run unfolding tame_outside_def by (metis fst_conv)
    then show ?thesis using that obj by (auto simp: list_all_iff)
  qed
  have last: "tame R (si_objects w) (si_objects (last (?w1 # ws)))" by (rule tame) (rule last_in_set, simp)
  have "w' \<in> set (?w1 # ws) \<or> w' \<in> set (snd (committed L c ok' kind ?s (last (?w1 # ws))))"
    using assms(2) t run
    by (cases "committed L c ok' kind ?s (last (?w1 # ws))")
       (auto simp: attempt_def Let_def split: if_splits sum.splits)
  then show ?thesis
  proof
    assume "w' \<in> set (snd (committed L c ok' kind ?s (last (?w1 # ws))))"
    then show ?thesis using committed_keeps last by metis
  qed (rule tame)
qed

lemma measure_step_objects:
  assumes "\<And>s. tame_outside R (tool_run s)"
    and "w' \<in> set (snd (measure_step L c ok ok' tool_run now name tool payload args w))"
  shows "tame R (si_objects w) (si_objects w')"
  using assms(2)
proof (cases rule: measure_step_states)
  case attempt
  then show ?thesis by (rule attempt_objects [OF assms(1)])
next
  case (committed s)
  then show ?thesis using committed_keeps by (metis tame_refl)
next
  case (archived mid)
  then show ?thesis by (simp add: archive_dir_def)
next
  case (retried mid)
  then show ?thesis using attempt_objects [OF assms(1) retried] by (simp add: archive_dir_def)
qed

lemma step_done_durable:
  assumes "step_done L (rn_campaign R) name tool args mid w"
  shows "durable R (tool_kind tool) mid (si_objects w)"
  using assms unfolding step_done_iff committed_iff_verified verified_def durable_def by auto

lemma keeps_measure:
  assumes "environment_ok R"
  shows "keeps R D (measure_run R name tool payload args) (\<lambda>mid. insert (marker_uri (rn_campaign R) (tool_kind tool) mid) D)"
  unfolding keeps_def
proof (rule traced_okI)
  let ?m = "measure_step (rn_lib R) (rn_campaign R) (fst (rn_outcomes R name)) (snd (rn_outcomes R name))
    (rn_tool R tool args) (rn_now R name) name tool payload args"
  have env: "library_ok (rn_lib R)" "tool_keeps_steps (rn_tool R tool args)" "\<And>s. tame_outside R (rn_tool R tool args s)"
    using assms by (simp_all add: environment_ok_def)
  have trace: "snd (measure_run R name tool payload args w) = snd (?m w)" for w
    by (simp add: measure_run_def split: prod.split sum.split)
  have keep: "inv R D w'" if "inv R D w" "w' \<in> set (snd (?m w))" for w w'
    by (rule inv_tame [OF that(1) measure_step_objects [OF env(3) that(2)]])
  show "inv R {} w'" if "inv R D w" "w' \<in> set (snd (measure_run R name tool payload args w))" for w w'
    using keep that trace inv_subset by (metis empty_subsetI)
  show "inv R (insert (marker_uri (rn_campaign R) (tool_kind tool) mid) D) (last (w # snd (measure_run R name tool payload args w)))"
    if w: "inv R D w" and mid: "fst (measure_run R name tool payload args w) = Inr mid" for w mid
  proof -
    obtain ws where m: "?m w = (Inr mid, ws)"
      using mid by (auto simp: measure_run_def split: prod.splits sum.splits)
    have "step_done (rn_lib R) (rn_campaign R) name tool args mid (last (w # ws))"
      by (rule measure_step_done [OF env(1,2) m])
    moreover have "inv R D (last (w # ws))"
    proof (cases "ws = []")
      case False
      then show ?thesis using keep [OF w] m by simp
    qed (use w in simp)
    ultimately show ?thesis using step_done_durable trace m by (simp add: inv_def durable_def)
  qed
qed

lemma keeps_ipid:
  "environment_ok R \<Longrightarrow> keeps R D (ipid R name payload zmap target mass connection) (\<lambda>mid. insert (marker_uri (rn_campaign R) ''ipid'' mid) D)"
  using keeps_measure [of R D name "''ipid''"] by (simp add: ipid_def tool_kind_def)


section \<open>The objects of a run\<close>

lemma flow_trimmed:
  assumes "environment_ok R"
  shows "cp_Protocol (rn_campaign R) \<noteq> [] \<Longrightarrow>
    trim_slashes (flowPrefix R) = trim_slashes (sitePrefix R) @ ''/protocols/'' @ cp_Protocol (rn_campaign R)"
proof -
  assume "cp_Protocol (rn_campaign R) \<noteq> []"
  then have "cp_Protocol (rn_campaign R) \<in> {''icmp'', ''tcp'', ''udp-dns''}"
    using assms by (auto simp: environment_ok_def Protocols_def)
  then show ?thesis by (auto simp: flowPrefix_def Join_def trim_slashes_def)
qed

lemmas control_uris = control_def measurement_request_uri_def analysis_manifest_uri_def strategy_uri_def done_uri_def controller_uri_def

text \<open>\<open>analysis_manifest_uri\<close> without what is trimmed from the job.\<close>

lemma analysis_manifest_shape:
  "\<exists>y. analysis_manifest_uri R z = trim_slashes (flowPrefix R) @ ''/analysis-jobs'' @ y \<and> (\<exists>x. y = x @ ''/manifest.json'')"
proof -
  have drop: "trim_slashes (x @ s @ y) = x @ s @ trim_slashes y \<or> trim_slashes (x @ s @ y) = x @ s"
    if "s \<noteq> []" "last s \<noteq> CHR ''/''" for x s y
  proof (cases "\<forall>c \<in> set y. c = CHR ''/''")
    case True
    have "rev s \<noteq> []" "hd (rev s) \<noteq> CHR ''/''" using that by (simp_all add: hd_rev)
    then have "dropWhile (\<lambda>c. c = CHR ''/'') (rev s @ rev x) = rev s @ rev x" by (cases "rev s") auto
    moreover have "dropWhile (\<lambda>c. c = CHR ''/'') (rev y @ rev s @ rev x) = dropWhile (\<lambda>c. c = CHR ''/'') (rev s @ rev x)"
      by (rule dropWhile_append2) (use True in auto)
    ultimately show ?thesis by (simp add: trim_slashes_def)
  next
    case False
    then show ?thesis by (auto simp: trim_slashes_def dropWhile_append1)
  qed
  have "Join (flowPrefix R) [''analysis-jobs'', z] = trim_slashes (flowPrefix R) @ ''/analysis-jobs'' @ ''/'' @ z"
    by (simp add: Join_def)
  then show ?thesis
    using drop [of "''/analysis-jobs''" "trim_slashes (flowPrefix R)" "''/'' @ z"]
    by (auto simp: analysis_manifest_uri_def Join_def [of _ "[''manifest.json'']"])
qed

lemma control_head:
  assumes "control R u"
  shows "\<exists>y z. y \<in> {''m'', ''a'', ''s'', ''do'', ''c''} \<and> u = trim_slashes (flowPrefix R) @ ''/'' @ y @ z"
proof -
  have "\<exists>y. analysis_manifest_uri R z = trim_slashes (flowPrefix R) @ ''/'' @ ''a'' @ y" for z
    using analysis_manifest_shape [of R z] by auto
  then show ?thesis
    using assms unfolding control_def measurement_request_uri_def strategy_uri_def done_uri_def controller_uri_def
    by (auto simp: Join_def)
qed

lemma control_tail:
  assumes "control R u"
  shows "take 8 (rev u) \<in> {rev ''est.json'', rev ''one.json''}"
  using assms unfolding control_def measurement_request_uri_def strategy_uri_def done_uri_def controller_uri_def
  by (elim disjE exE) (auto simp: Join_def analysis_manifest_uri_def)

lemma flow_not_control: "\<not> control R (Join (flowPrefix R) [''discovery.json''])"
  using control_head [of R "Join (flowPrefix R) [''discovery.json'']"] by (auto simp: Join_def)

lemma site_not_control:
  assumes "environment_ok R" "c \<in> {CHR ''r'', CHR ''f''}" "\<exists>r. join_parts ps = c # r"
  shows "\<not> control R (Join (sitePrefix R) ps)"
proof
  obtain r where ps: "join_parts ps = c # r" using assms(3) by blast
  assume "control R (Join (sitePrefix R) ps)"
  from control_head [OF this] obtain y z where y: "y \<in> {''m'', ''a'', ''s'', ''do'', ''c''}"
    "Join (sitePrefix R) ps = trim_slashes (flowPrefix R) @ ''/'' @ y @ z" by blast
  show False
  proof (cases "cp_Protocol (rn_campaign R) = []")
    case True
    then have "flowPrefix R = sitePrefix R" by (simp add: flowPrefix_def)
    then show ?thesis using y assms(2) ps by (auto simp: Join_def)
  next
    case False
    then show ?thesis using y flow_trimmed [OF assms(1) False] assms(2) ps by (auto simp: Join_def)
  qed
qed

lemma control_uris_differ [simp]:
  "measurement_request_uri R x \<noteq> strategy_uri R y" "measurement_request_uri R x \<noteq> done_uri R"
  "measurement_request_uri R x \<noteq> controller_uri R n" "strategy_uri R x \<noteq> done_uri R" "strategy_uri R x \<noteq> controller_uri R n"
  "done_uri R \<noteq> controller_uri R n"
  "strategy_uri R y \<noteq> measurement_request_uri R x" "done_uri R \<noteq> measurement_request_uri R x"
  "controller_uri R n \<noteq> measurement_request_uri R x" "done_uri R \<noteq> strategy_uri R x" "controller_uri R n \<noteq> strategy_uri R x"
  "controller_uri R n \<noteq> done_uri R"
  by (simp_all add: measurement_request_uri_def strategy_uri_def done_uri_def controller_uri_def Join_def)

lemma manifest_uris_differ [simp]:
  "analysis_manifest_uri R z \<noteq> measurement_request_uri R x" "analysis_manifest_uri R z \<noteq> strategy_uri R y"
  "analysis_manifest_uri R z \<noteq> done_uri R" "analysis_manifest_uri R z \<noteq> controller_uri R n"
  "measurement_request_uri R x \<noteq> analysis_manifest_uri R z" "strategy_uri R y \<noteq> analysis_manifest_uri R z"
  "done_uri R \<noteq> analysis_manifest_uri R z" "controller_uri R n \<noteq> analysis_manifest_uri R z"
proof -
  obtain y where y: "analysis_manifest_uri R z = trim_slashes (flowPrefix R) @ ''/analysis-jobs'' @ y"
    using analysis_manifest_shape by blast
  show "analysis_manifest_uri R z \<noteq> measurement_request_uri R x" "analysis_manifest_uri R z \<noteq> strategy_uri R y"
    "analysis_manifest_uri R z \<noteq> done_uri R" "analysis_manifest_uri R z \<noteq> controller_uri R n" for x y n
    unfolding y by (simp_all add: measurement_request_uri_def strategy_uri_def done_uri_def controller_uri_def Join_def)
  then show "measurement_request_uri R x \<noteq> analysis_manifest_uri R z" "strategy_uri R y \<noteq> analysis_manifest_uri R z"
    "done_uri R \<noteq> analysis_manifest_uri R z" "controller_uri R n \<noteq> analysis_manifest_uri R z" for x y n
    by metis+
qed

lemma request_uris_inj [simp]:
  "measurement_request_uri R x = measurement_request_uri R y \<longleftrightarrow> x = y" "strategy_uri R x = strategy_uri R y \<longleftrightarrow> x = y"
  by (simp_all add: measurement_request_uri_def strategy_uri_def Join_def)


section \<open>The publications of a run\<close>

lemma promise_put:
  assumes "promise R s"
    and "\<And>mid. uri = measurement_request_uri R mid \<Longrightarrow> durable R ''ipid'' mid s"
    and "\<And>z. uri = analysis_manifest_uri R z \<Longrightarrow> \<exists>p m. c = Encode (rn_json R) (manifest_json (BuildManifest p m)) \<and> manifest_durable R s m"
    and "\<And>z. uri = strategy_uri R z \<Longrightarrow> durable R ''zmap'' z s \<and> s (analysis_manifest_uri R z) \<noteq> None"
    and "uri = done_uri R \<Longrightarrow> \<exists>z. s (strategy_uri R z) \<noteq> None"
    and "uri = controller_uri R ''done.json'' \<Longrightarrow> s (done_uri R) \<noteq> None"
  shows "promise R (s(uri \<mapsto> c))"
proof -
  let ?t = "s(uri \<mapsto> c)"
  have grow: "durable R k i ?t" if "durable R k i s" for k i by (rule grow_durable [OF that])
  have grows: "manifest_durable R ?t m" if "manifest_durable R s m" for m by (rule durable_manifest [OF grow that])
  have "durable R ''ipid'' mid ?t" if "?t (measurement_request_uri R mid) \<noteq> None" for mid
    using that assms(1,2) grow by (cases "uri = measurement_request_uri R mid") (auto simp: promise_def)
  moreover have "\<exists>p m. b = Encode (rn_json R) (manifest_json (BuildManifest p m)) \<and> manifest_durable R ?t m"
    if "?t (analysis_manifest_uri R z) = Some b" for z b
  proof (cases "uri = analysis_manifest_uri R z")
    case True
    then show ?thesis using that assms(3) [OF True] grows by auto
  next
    case False
    then have "s (analysis_manifest_uri R z) = Some b" using that by simp
    then show ?thesis using assms(1) grows unfolding promise_def by blast
  qed
  moreover have "durable R ''zmap'' z ?t \<and> ?t (analysis_manifest_uri R z) \<noteq> None" if "?t (strategy_uri R z) \<noteq> None" for z
    using that assms(1,4) grow by (cases "uri = strategy_uri R z") (auto simp: promise_def)
  moreover have "\<exists>z. ?t (strategy_uri R z) \<noteq> None" if "?t (done_uri R) \<noteq> None"
    using that assms(1,5) by (cases "uri = done_uri R") (auto simp: promise_def)
  moreover have "?t (done_uri R) \<noteq> None" if "?t (controller_uri R ''done.json'') \<noteq> None"
    using that assms(1,6) by (cases "uri = controller_uri R ''done.json''") (auto simp: promise_def)
  ultimately show ?thesis unfolding promise_def by blast
qed

abbreviation marker_of :: "runner \<Rightarrow> string \<Rightarrow> string \<Rightarrow> string" where
  "marker_of R \<equiv> marker_uri (rn_campaign R)"

lemma keeps_stream:
  assumes "marker_of R ''ipid'' mid \<in> D"
  shows "keeps R D (streamMeasurement R mid zmap target variant) (\<lambda>_. D)"
proof -
  have "keeps R D (publish_run R (measurement_request_uri R mid) v) (\<lambda>_. D)" for v
    by (rule keeps_weaken [OF keeps_publish [where D = D]], rule promise_put) (use assms in \<open>auto simp: durable_def\<close>)
  then show ?thesis
    unfolding streamMeasurement_def Let_def
    by (intro keeps_bind [OF keeps_get]) (simp add: keeps_fail split: option.split)
qed

lemma durable_ids:
  assumes "marker_of R ''zmap'' (ms_ZMap m) \<in> D" "\<forall>i \<in> set (named_measurements m). marker_of R ''ipid'' i \<in> D"
    and "\<forall>u \<in> D. s u \<noteq> None"
  shows "manifest_durable R s m"
  using assms by (auto simp: manifest_durable_def durable_def list_all_iff)

lemma keeps_publish_job:
  assumes "marker_of R ''zmap'' zmap \<in> D" "ms_ZMap m = zmap" "\<forall>i \<in> set (named_measurements m). marker_of R ''ipid'' i \<in> D"
  shows "keeps R D (publish_job R protocol zmap target connection m) (\<lambda>_. insert (strategy_uri R zmap) D)"
  unfolding publish_job_def
proof (rule keeps_seq [OF keeps_publish])
  show "promise R (s(analysis_manifest_uri R zmap \<mapsto> Encode (rn_json R) (manifest_json (BuildManifest protocol m))))"
    if "promise R s" "\<forall>u \<in> D. s u \<noteq> None" for s
    using that durable_ids [of R m D s] assms by (intro promise_put) auto
  show "keeps R (insert (analysis_manifest_uri R zmap) D)
      (tr_bind (tr_get (discovery_time protocol)) (\<lambda>created. publish_run R (strategy_uri R zmap)
        (request_json (strategy_request R protocol zmap target connection created)))) (\<lambda>_. insert (strategy_uri R zmap) D)"
    by (rule keeps_bind [OF keeps_get],
        rule keeps_weaken [OF keeps_publish [where D = "insert (analysis_manifest_uri R zmap) D"]], rule promise_put)
       (use assms in \<open>auto simp: durable_def\<close>)
qed

lemma putfile_not_control:
  assumes "name \<in> {''zmap-connection-sample.pq'', ''zmap-connection-sample.json'', ''zmap-fixed-base-sample.pq'', ''zmap-fixed-base-sample.json''}"
  shows "\<not> control R (Join p [mid, name])"
proof
  assume "control R (Join p [mid, name])"
  from control_tail [OF this] assms show False by (auto simp: Join_def)
qed

lemma keeps_put_file:
  assumes "name \<in> {''zmap-connection-sample.pq'', ''zmap-connection-sample.json'', ''zmap-fixed-base-sample.pq'', ''zmap-fixed-base-sample.json''}"
  shows "keeps R D (put_file R (kind, mid, name)) (\<lambda>_. D)"
proof -
  let ?uri = "Join (raw_prefix R kind) [mid, name]"
  have "keeps R D (tr_update (\<lambda>w. w\<lparr>si_objects := (si_objects w)(?uri \<mapsto> data)\<rparr>)) (\<lambda>_. D)" for data
    by (rule keeps_tame) (auto simp: tr_update_def intro!: tame_put putfile_not_control [OF assms])
  then show ?thesis
    unfolding put_file_def prod.case Let_def
    by (intro keeps_bind [OF keeps_get]) (auto split: option.split access.split intro: keeps_fail keeps_seq)
qed

lemma keeps_sample:
  assumes "environment_ok R"
  shows "keeps R D (sample R zmap connection) (\<lambda>_. D)"
proof -
  have "tame_outside R (rn_sampler R args)" for args using assms by (simp add: environment_ok_def)
  then show ?thesis
    unfolding sample_def Let_def
    by (intro keeps_seq [where E = D] keeps_outside keeps_put_file keeps_return) auto
qed

lemma keeps_handoff: "environment_ok R \<Longrightarrow> keeps R D (handoff R mid mass) (\<lambda>_. D)"
  unfolding handoff_def by (rule keeps_outside) (simp add: environment_ok_def)

lemma keeps_measure_and_stream:
  assumes "environment_ok R"
  shows "keeps R D (measure_and_stream R name payload zmap target mass connection variant) (\<lambda>mid. insert (marker_of R ''ipid'' mid) D)"
  unfolding measure_and_stream_def
  by (rule keeps_bind [OF keeps_ipid [OF assms]], rule keeps_seq [OF keeps_stream], simp, rule keeps_return, simp)

lemma keeps_measure_with_handoff:
  assumes "environment_ok R"
  shows "keeps R D (measure_with_handoff R name payload zmap target mass variant) (\<lambda>mid. insert (marker_of R ''ipid'' mid) D)"
  unfolding measure_with_handoff_def
  by (rule keeps_bind [OF keeps_ipid [OF assms]], rule keeps_seq [OF keeps_handoff [OF assms]],
      rule keeps_seq [OF keeps_stream], simp, rule keeps_return, simp)

lemma keeps_each:
  assumes "\<And>x D. x \<in> set xs \<Longrightarrow> keeps R D (f x) (\<lambda>y. insert (g y) D)"
  shows "keeps R D (tr_each f xs) (\<lambda>ys. g ` set ys \<union> D)"
  using assms
proof (induction xs arbitrary: D)
  case Nil
  then show ?case by (simp add: keeps_return)
next
  case (Cons x xs)
  show ?case
    unfolding tr_each.simps
    by (rule keeps_bind [OF Cons.prems], simp, rule keeps_bind [OF Cons.IH], simp add: Cons.prems, rule keeps_return, auto)
qed

lemma keeps_each_same:
  assumes "\<And>x. x \<in> set xs \<Longrightarrow> keeps R D (f x) (\<lambda>_. D)"
  shows "keeps R D (tr_each f xs) (\<lambda>_. D)"
  using assms unfolding keeps_def
proof (induction xs)
  case Nil
  then show ?case by (simp add: traced_ok_return)
next
  case (Cons x xs)
  then show ?case by (auto intro!: traced_ok_bind [where Q = "\<lambda>_. inv R D"] traced_ok_return)
qed

lemma keeps_if: "(b \<Longrightarrow> keeps R D m E) \<Longrightarrow> (\<not> b \<Longrightarrow> keeps R D n E) \<Longrightarrow> keeps R D (if b then m else n) E"
  by simp

text \<open>The publications of the site, below no control.\<close>

lemma keeps_publish_site:
  assumes "environment_ok R" "\<exists>r. join_parts ps = CHR ''r'' # r \<or> join_parts ps = CHR ''f'' # r"
  shows "keeps R D (publish_run R (Join (sitePrefix R) ps) v) (\<lambda>_. D)"
  by (rule keeps_publish_other) (use assms(2) site_not_control [OF assms(1)] in blast)

lemma keeps_localReferences:
  assumes "environment_ok R"
  shows "keeps R D (localReferences R) (\<lambda>_. D)"
proof -
  have "keeps R D (local_reference R x) (\<lambda>_. D)" for x
  proof (cases "rn_target_evidence R (reference_name x @ ''-targets.pq'')")
    case None
    then show ?thesis by (simp add: local_reference_def keeps_fail)
  next
    case (Some e)
    show ?thesis
      unfolding local_reference_def Let_def Some option.case
      by (rule keeps_bind [OF keeps_measure [OF assms]], rule keeps_weaken [OF keeps_publish_site [OF assms]]) auto
  qed
  then show ?thesis
    unfolding localReferences_def
    by (intro keeps_seq [OF keeps_each_same] keeps_publish_site [OF assms]) auto
qed

lemma keeps_interprotocol:
  assumes "environment_ok R"
  shows "keeps R D (interprotocol R manifests) (\<lambda>_. D)"
proof -
  have env: "tame_outside R (rn_prepare R m)" "tame_outside R (rn_final R g)" for m g
    using assms by (simp_all add: environment_ok_def)
  have measures: "keeps R D (tr_each (\<lambda>(s, g). measure_run R (n s g) tool (q s g) (a s g)) xs) (\<lambda>_. D)" for n tool q a xs
    by (rule keeps_each_same) (auto split: prod.split intro: keeps_weaken [OF keeps_measure [OF assms]])
  show ?thesis
    unfolding interprotocol_def
    by (rule keeps_seq [OF keeps_outside [OF env(1)]], rule keeps_seq [OF keeps_if],
        rule keeps_localReferences [OF assms], rule keeps_return, simp, rule keeps_bind [OF measures],
        rule keeps_seq [OF keeps_check], rule keeps_seq [OF keeps_outside [OF env(2)]], rule keeps_publish_site [OF assms], simp)
qed

lemma keeps_poll: "keeps R D (poll_protocols R' ps manifests) (\<lambda>_. D)"
proof (induction ps arbitrary: manifests)
  case Nil
  then show ?case by (simp add: keeps_return)
next
  case (Cons p ps)
  then show ?case
    unfolding poll_protocols.simps Let_def
    by (intro keeps_bind [OF keeps_read])
       (auto split: option.split intro!: keeps_bind [OF keeps_read] keeps_if keeps_fail)
qed

lemma keeps_wait:
  assumes "environment_ok R"
  shows "keeps R D (wait_polls R k) (\<lambda>_. D)"
proof (induction k)
  case 0
  then show ?case
    by (subst wait_polls.simps) (auto intro!: keeps_bind [OF keeps_poll] keeps_if keeps_return keeps_fail)
next
  case (Suc k)
  have others: "tame R s (rn_others R n s)" for n s using assms by (simp add: environment_ok_def)
  have "keeps R D (tr_update (\<lambda>w. w\<lparr>si_objects := rn_others R n (si_objects w)\<rparr>)) (\<lambda>_. D)" for n
    by (rule keeps_tame) (simp add: tr_update_def others)
  then show ?case
    unfolding wait_polls.simps [of R "Suc k"] nat.case
    by (intro keeps_bind [OF keeps_poll] keeps_if keeps_return keeps_seq [where E = D] Suc.IH) auto
qed

lemma keeps_finish:
  assumes "environment_ok R" "strategy_uri R zmap \<in> D"
  shows "keeps R D (finish_protocol R zmap) (\<lambda>_. D)"
proof -
  have wait: "keeps R E (if b then tr_bind (waitProtocols R) (\<lambda>m. tr_seq (tr_check c e) (interprotocol R m)) else tr_return ()) (\<lambda>_. E)"
    for E b c e
    unfolding waitProtocols_def
    by (intro keeps_if keeps_return keeps_bind [OF keeps_wait [OF assms(1)]] keeps_seq [OF keeps_check]
        keeps_interprotocol [OF assms(1)]) simp
  show ?thesis
    unfolding finish_protocol_def
  proof (rule keeps_seq [OF keeps_publish [where D = D]])
    show "promise R (s(done_uri R \<mapsto> v))" if "promise R s" "\<forall>u \<in> D. s u \<noteq> None" for s v
    proof (rule promise_put [OF that(1)])
      show "\<exists>z. s (strategy_uri R z) \<noteq> None" using that(2) assms(2) by blast
    qed auto
    show "keeps R (insert (done_uri R) D) (tr_seq (if cp_Protocol (rn_campaign R) = ''udp-dns''
        then tr_bind (waitProtocols R) (\<lambda>m. tr_seq (tr_check (rn_config R) ConfigUnreadable) (interprotocol R m))
        else tr_return ()) (publish_run R (controller_uri R ''done.json'') (JObj (protocol_field R)))) (\<lambda>_. D)"
      by (rule keeps_seq [OF wait], rule keeps_weaken [OF keeps_publish [where D = "insert (done_uri R) D"]], rule promise_put)
         auto
  qed
qed

lemma keeps_connection:
  assumes "environment_ok R"
  shows "keeps R D (connection_steps R payload zmap)
    (\<lambda>c. case c of None \<Rightarrow> D | Some (_, crt, cfi) \<Rightarrow> {marker_of R ''ipid'' crt, marker_of R ''ipid'' cfi} \<union> D)"
  unfolding connection_steps_def
  by (rule keeps_bind [OF keeps_sample [OF assms]], rule keeps_bind [OF keeps_measure_and_stream [OF assms]],
      rule keeps_bind [OF keeps_measure_and_stream [OF assms]], rule keeps_return) auto

lemma keeps_protocol_steps:
  assumes "environment_ok R" "marker_of R ''zmap'' zmap \<in> D"
  shows "keeps R D (protocol_steps R zmap) (\<lambda>_. {})"
  unfolding protocol_steps_def Let_def
proof (rule keeps_seq [OF keeps_publish_other [OF flow_not_control]],
    rule keeps_bind [OF keeps_measure_with_handoff [OF assms(1)]],
    rule keeps_bind [OF keeps_measure_with_handoff [OF assms(1)]],
    rule keeps_bind [OF keeps_each [OF keeps_measure_and_stream [OF assms(1)]]],
    rule keeps_bind [OF keeps_sample [OF assms(1)]],
    rule keeps_bind [OF keeps_measure_and_stream [OF assms(1)]], goal_cases)
  case (1 rt mass repeats target base)
  let ?E = "insert (marker_of R ''ipid'' base) (marker_of R ''ipid'' ` set repeats \<union>
    insert (marker_of R ''ipid'' mass) (insert (marker_of R ''ipid'' rt) D))"
  let ?F = "\<lambda>c. case c of None \<Rightarrow> ?E | Some (_, crt, cfi) \<Rightarrow> {marker_of R ''ipid'' crt, marker_of R ''ipid'' cfi} \<union> ?E"
  let ?p = "cp_Protocol (rn_campaign R)"
  have conn: "keeps R ?E (if ?p = ''tcp'' then connection_steps R (payload_of ?p) zmap else tr_return None) ?F"
    by (intro keeps_if keeps_connection [OF assms(1)] keeps_return) simp
  have rest: "keeps R (?F c) (tr_seq (publish_job R ?p zmap target (map_option fst c)
      (run_measurements R zmap rt mass base target repeats c)) (finish_protocol R zmap)) (\<lambda>_. {})" for c
  proof (rule keeps_seq [OF keeps_publish_job])
    show "marker_of R ''zmap'' zmap \<in> ?F c" using assms(2) by (auto split: option.split)
    show "ms_ZMap (run_measurements R zmap rt mass base target repeats c) = zmap" by (simp add: run_measurements_def)
    show "\<forall>i \<in> set (named_measurements (run_measurements R zmap rt mass base target repeats c)). marker_of R ''ipid'' i \<in> ?F c"
      by (auto simp: named_measurements_def run_measurements_def split: option.split)
    show "keeps R (insert (strategy_uri R zmap) (?F c)) (finish_protocol R zmap) (\<lambda>_. {})"
      by (rule keeps_weaken [OF keeps_finish [OF assms(1)]]) auto
  qed
  show ?case by (rule keeps_bind [OF conn rest])
qed

lemma keeps_runProtocol:
  assumes "environment_ok R"
  shows "keeps R {} (runProtocol R) (\<lambda>_. {})"
proof -
  have zmap: "tool_kind ''zmap'' = ''zmap''" by (simp add: tool_kind_def)
  show ?thesis
    unfolding runProtocol_def Let_def
    by (rule keeps_bind [OF keeps_read], rule keeps_if [OF keeps_fail], rule keeps_bind [OF keeps_read],
        rule keeps_if [OF keeps_return], simp, rule keeps_bind [OF keeps_measure [OF assms]], unfold zmap,
        rule keeps_protocol_steps [OF assms], simp)
qed

lemma keeps_legacy:
  assumes "environment_ok R" "marker_of R ''zmap'' (snd x) \<in> D"
  shows "keeps R D (legacy_protocol R x) (\<lambda>_. D)"
proof -
  obtain p zmap where x: "x = (p, zmap)" by (cases x)
  have connection: "keeps R E (if p = ''tcp''
      then tr_bind (sample R zmap True) (\<lambda>ct.
        tr_bind (ipid R ''tcp-connection-rt'' payload zmap (Some ct) False True) (\<lambda>crt.
        tr_bind (ipid R ''tcp-connection-fi'' payload zmap (Some ct) False True) (\<lambda>cfi. tr_return (Some (ct, crt, cfi)))))
      else tr_return None)
      (\<lambda>c. case c of None \<Rightarrow> E | Some (_, crt, cfi) \<Rightarrow> {marker_of R ''ipid'' crt, marker_of R ''ipid'' cfi} \<union> E)" for E payload
    by (rule keeps_if, rule keeps_bind [OF keeps_sample [OF assms(1)]], rule keeps_bind [OF keeps_ipid [OF assms(1)]],
        rule keeps_bind [OF keeps_ipid [OF assms(1)]]) (auto intro: keeps_return)
  show ?thesis
    unfolding x legacy_protocol_def prod.case Let_def
  proof (rule keeps_bind [OF keeps_ipid [OF assms(1)]], rule keeps_seq [OF keeps_handoff [OF assms(1)]],
      rule keeps_bind [OF keeps_ipid [OF assms(1)]], rule keeps_seq [OF keeps_handoff [OF assms(1)]],
      rule keeps_bind [OF keeps_each [OF keeps_ipid [OF assms(1)]]], rule keeps_bind [OF keeps_sample [OF assms(1)]],
      rule keeps_bind [OF keeps_ipid [OF assms(1)]], rule keeps_bind [OF connection], goal_cases)
    case (1 rt mass repeats target base c)
    let ?E = "insert (marker_of R ''ipid'' base) (marker_of R ''ipid'' ` set repeats \<union>
      insert (marker_of R ''ipid'' mass) (insert (marker_of R ''ipid'' rt) D))"
    let ?F = "case c of None \<Rightarrow> ?E | Some (_, crt, cfi) \<Rightarrow> {marker_of R ''ipid'' crt, marker_of R ''ipid'' cfi} \<union> ?E"
    show ?case
    proof (rule keeps_seq [OF keeps_publish_job])
      show "marker_of R ''zmap'' zmap \<in> ?F" using assms(2) x by (auto split: option.split)
      show "ms_ZMap (run_measurements R zmap rt mass base target repeats c) = zmap" by (simp add: run_measurements_def)
      show "\<forall>i \<in> set (named_measurements (run_measurements R zmap rt mass base target repeats c)). marker_of R ''ipid'' i \<in> ?F"
        by (auto simp: named_measurements_def run_measurements_def split: option.split)
      show "keeps R (insert (strategy_uri R zmap) ?F) (tr_return (manifest_key p, analysis_manifest_uri R zmap)) (\<lambda>_. D)"
        by (rule keeps_return) (auto split: option.split)
    qed
  qed
qed

lemma keeps_Run:
  assumes "environment_ok R"
  shows "keeps R {} (Run R) (\<lambda>_. {})"
proof (cases "cp_Protocol (rn_campaign R) = []")
  case True
  have flow: "sitePrefix R = flowPrefix R" using True by (simp add: flowPrefix_def)
  have zmap: "tool_kind ''zmap'' = ''zmap''" by (simp add: tool_kind_def)
  have legacy: "keeps R D (tr_bind (tr_each (legacy_protocol R) (zip Protocols discovery)) (interprotocol R)) (\<lambda>_. {})"
    if D: "marker_of R ''zmap'' ` set discovery \<subseteq> D" for D discovery
  proof (rule keeps_bind [OF keeps_each_same])
    show "keeps R D (legacy_protocol R x) (\<lambda>_. D)" if "x \<in> set (zip Protocols discovery)" for x
    proof (rule keeps_legacy [OF assms])
      have "snd x \<in> set discovery" using that set_zip_rightD [of "fst x" "snd x"] by simp
      then show "marker_of R ''zmap'' (snd x) \<in> D" using D by blast
    qed
    show "keeps R D (interprotocol R m) (\<lambda>_. {})" for m
      by (rule keeps_weaken [OF keeps_interprotocol [OF assms]]) auto
  qed
  have discover: "keeps R {} (tr_each (\<lambda>p. measure_run R (''zmap-'' @ p) ''zmap'' (payload_of p) (discovery_args p)) Protocols)
      (\<lambda>ids. marker_of R ''zmap'' ` set ids \<union> {})"
    by (rule keeps_each) (rule keeps_measure [OF assms, of _ _ "''zmap''", unfolded zmap])
  show ?thesis
    unfolding Run_def if_not_P [OF notI [OF True [THEN notE [rotated]]]] using True
    by (simp, unfold flow, intro keeps_bind [OF keeps_read] keeps_if [OF keeps_return] keeps_bind [OF discover]
        keeps_seq [OF keeps_publish_other [OF flow_not_control]] legacy) auto
next
  case False
  then show ?thesis using keeps_runProtocol [OF assms] by (simp add: Run_def)
qed


section \<open>Every history of a site\<close>

text \<open>The runs of one site agree on the names and the JSON library; all else may differ from run to run.\<close>

definition same_run :: "runner \<Rightarrow> runner \<Rightarrow> bool" where
  "same_run R R' \<longleftrightarrow> rn_Prefix R = rn_Prefix R' \<and> rn_json R = rn_json R'
     \<and> cp_RawRoot (rn_campaign R) = cp_RawRoot (rn_campaign R') \<and> cp_Campaign (rn_campaign R) = cp_Campaign (rn_campaign R')
     \<and> cp_Site (rn_campaign R) = cp_Site (rn_campaign R') \<and> cp_Protocol (rn_campaign R) = cp_Protocol (rn_campaign R')"

inductive run_reachable :: "runner \<Rightarrow> site \<Rightarrow> bool" for R where
  start: "\<forall>u. control R u \<longrightarrow> si_objects w u = None \<Longrightarrow> run_reachable R w"
| run: "run_reachable R w \<Longrightarrow> same_run R R' \<Longrightarrow> environment_ok R' \<Longrightarrow> w' \<in> set (snd (Run R' w)) \<Longrightarrow> run_reachable R w'"
| others: "run_reachable R w \<Longrightarrow> tame R (si_objects w) (si_objects w') \<Longrightarrow> run_reachable R w'"

lemma same_run_promise:
  assumes "same_run R R'"
  shows "promise R' s = promise R s"
proof -
  have "marker_uri (rn_campaign R') = marker_uri (rn_campaign R)"
    by (intro ext) (use assms in \<open>simp add: same_run_def marker_uri_def rawPrefix_def\<close>)
  then have "durable R' = durable R" by (intro ext) (simp add: durable_def)
  moreover have "flowPrefix R' = flowPrefix R" using assms by (simp add: same_run_def flowPrefix_def sitePrefix_def)
  ultimately show ?thesis
    using assms by (simp add: promise_def manifest_durable_def control_uris same_run_def)
qed

text \<open>
  C4: Analysis is requested only of durable data. After any history of runs of a site, whichever steps, publications or
  tools fail and wherever the runs crash, a measurement request names a measurement whose completion
  marker is in S3; a manifest names only such measurements; a strategy request has its manifest and a durable
  discovery; and the completion of the protocol and the end of its controller come in this order after it.
\<close>

theorem requests_are_durable:
  assumes "run_reachable R w"
  shows "promise R (si_objects w)"
  using assms
proof induction
  case (start w)
  then have "si_objects w (measurement_request_uri R x) = None" "si_objects w (analysis_manifest_uri R x) = None"
    "si_objects w (strategy_uri R x) = None" "si_objects w (done_uri R) = None"
    "si_objects w (controller_uri R ''done.json'') = None" for x
    by (auto simp: control_def)
  then show ?case by (simp add: promise_def)
next
  case (run w R' w')
  have "inv R' {} w" using run.IH same_run_promise [OF run.hyps(2)] by (simp add: inv_def)
  then have "inv R' {} w'"
    using keeps_Run [OF run.hyps(3)] run.hyps(4) unfolding keeps_def by (blast dest: traced_ok_state)
  then show ?case using same_run_promise [OF run.hyps(2)] by (simp add: inv_def)
next
  case (others w w')
  then show ?case by (blast intro: tame_promise)
qed


section \<open>The theorem at work\<close>

text \<open>A run that stops after its first measurement: the state cannot be saved for the second one.\<close>

definition demo_markers :: "string \<Rightarrow> marker option" where
  "demo_markers s = Some \<lparr>mk_Version = 1, mk_ID = tl s,
     mk_Files = [((if hd s = CHR ''z'' then ''zmap.pq'' else ''ipid.pq''), \<lparr>fe_Size = 1, fe_SHA256 = ''d''\<rparr>),
       ((if hd s = CHR ''z'' then ''zmap.snapshot.yaml'' else ''ipid.snapshot.yaml''), \<lparr>fe_Size = 1, fe_SHA256 = ''d''\<rparr>)]\<rparr>"

definition demo_measure :: "string \<Rightarrow> string list \<Rightarrow> step \<Rightarrow> outside" where
  "demo_measure tool args s w =
     ([w\<lparr>si_dirs := (si_dirs w)((tool, sp_ID s) \<mapsto> (\<lambda>name. if drop 5 name = ''.json'' then None else Some ''d'')),
         si_objects := (si_objects w)(marker_uri demo_campaign tool (sp_ID s) \<mapsto> hd tool # sp_ID s)\<rparr>], True)"

definition demo_runner :: runner where
  "demo_runner = \<lparr>rn_campaign = demo_campaign, rn_lib = demo_library\<lparr>lb_decode_marker := demo_markers\<rparr>,
     rn_json = \<lparr>json_decode = (\<lambda>_. Some (JInt 0)), json_marshal = (\<lambda>_. ''j'')\<rparr>, rn_Prefix = ''s3://p'', rn_Workspace = ''w'',
     rn_SkipOS = True, rn_access = (\<lambda>_. (Works, Works, Works)), rn_read = (\<lambda>_. True),
     rn_outcomes = (\<lambda>name. if name = ''icmp-mass'' then (\<lambda>_. False, works) else (works, works)), rn_now = (\<lambda>_. 7),
     rn_tool = demo_measure, rn_sampler = (\<lambda>_ _. ([], True)), rn_put_file = (\<lambda>_. Works), rn_handoff = (\<lambda>_ _ _. ([], True)),
     rn_prepare = (\<lambda>_ _. ([], True)), rn_targets = ''t'', rn_target_evidence = (\<lambda>_. None), rn_save = (\<lambda>_. True),
     rn_final = (\<lambda>_ _. ([], True)), rn_config = True, rn_decode_completion = (\<lambda>_. None), rn_others = (\<lambda>_ s. s), rn_polls = 0\<rparr>"

lemma demo_campaign_fields [simp]:
  "cp_Protocol demo_campaign = ''icmp''" "cp_RawRoot demo_campaign = ''s3://b''" "cp_Campaign demo_campaign = ''c''" "cp_Site demo_campaign = ''eu''"
  by (simp_all add: demo_campaign_def)

lemma demo_marker_not_control: "\<not> control demo_runner (marker_uri demo_campaign kind mid)"
proof
  assume "control demo_runner (marker_uri demo_campaign kind mid)"
  from control_tail [OF this] show False by (auto simp: marker_uri_def Join_def)
qed

lemma demo_runner_ok: "environment_ok demo_runner"
proof -
  have lib: "library_ok (rn_lib demo_runner)"
    using demo_library_ok by (simp add: demo_runner_def library_ok_def)
  have tool: "tool_keeps_steps (demo_measure tool args)" "tame_outside demo_runner (demo_measure tool args s)" for tool args s
    by (simp_all add: tool_keeps_steps_def tame_outside_def demo_measure_def tame_put demo_marker_not_control)
  have "tame_outside demo_runner (\<lambda>_. ([], b))" for b by (simp add: tame_outside_def)
  then show ?thesis using lib tool
    by (simp add: environment_ok_def Protocols_def) (simp add: demo_runner_def)
qed

theorem requests_are_durable_witness:
  "\<exists>w. run_reachable demo_runner w \<and> si_objects w (measurement_request_uri demo_runner ''icmp_8_'') \<noteq> None
    \<and> durable demo_runner ''ipid'' ''icmp_8_'' (si_objects w)"
proof -
  have "list_ex (\<lambda>v. si_objects v (measurement_request_uri demo_runner ''icmp_8_'') \<noteq> None) (snd (Run demo_runner demo_site))"
    by code_simp
  then obtain w where w: "w \<in> set (snd (Run demo_runner demo_site))"
    "si_objects w (measurement_request_uri demo_runner ''icmp_8_'') \<noteq> None"
    unfolding list_ex_iff by blast
  have "run_reachable demo_runner demo_site" by (rule run_reachable.start) (simp add: demo_site_def)
  then have reach: "run_reachable demo_runner w"
    by (rule run_reachable.run [OF _ _ demo_runner_ok w(1)]) (simp add: same_run_def)
  then show ?thesis using requests_are_durable [OF reach] w(2) unfolding promise_def by blast
qed

end
