(* ===== verification/S3Client.thy ===== *)
theory S3Client
  imports Postprocess
begin

text \<open>
  The client side of a workflow over marker objects, as \<^verbatim>\<open>internal/analysisworkflow\<close> and
  \<^verbatim>\<open>internal/interprotocolworkflow\<close> have it: local files, and an object store that others change between any two
  commands. Each \<^verbatim>\<open>s3cmd\<close> command takes one tick; what the others do before it and how it ends are functions of
  the tick.
\<close>

section \<open>State\<close>

record client =
  cl_local :: "string \<rightharpoonup> string"
  cl_remote :: store
  cl_clock :: nat

text \<open>A failed download may leave part of the object, or anything, in the local file.\<close>

record s3_world =
  wd_change :: "nat \<Rightarrow> store \<Rightarrow> store"
  wd_access :: "nat \<Rightarrow> access"
  wd_partial :: "nat \<Rightarrow> string option"
  wd_ls :: "store \<Rightarrow> string \<Rightarrow> string"
  wd_file :: "string \<Rightarrow> access"
  wd_short :: "string \<Rightarrow> nat"

text \<open>What can be wrong with an inter-protocol manifest.\<close>

datatype manifest_error = UnsupportedVersion int | UnsafeIdentifiers | NoGroups | UnknownGroup string | WrongOrder string
  | IncompleteGroup string

datatype workflow_error = ListFailed string | GetFailed string | PutFailedAt string | LocalFile string | Undecodable string
  | BadMeasurement | InvalidFailureMarker | JobFailed string | InvalidDoneMarker | WrongSize | WrongDigest | NegativeRows
  | TimedOut | MaximumOutOfRange | BadManifest manifest_error | BadConfig string | BadReadiness | BaseFailed string
  | BaseCount | BaseManifestURI string | BadRunID | MeasurementFailed string string | NoIdentifier string | NilGroup string

type_synonym 'a workflow = "(client, workflow_error, 'a) traced"


section \<open>Commands\<close>

definition tick :: "s3_world \<Rightarrow> client \<Rightarrow> client" where
  "tick W w = w\<lparr>cl_remote := wd_change W (cl_clock w) (cl_remote w), cl_clock := Suc (cl_clock w)\<rparr>"

text \<open>A command: the others act, then it ends as its tick says.\<close>

definition command :: "s3_world \<Rightarrow> (access \<Rightarrow> nat \<Rightarrow> 'a workflow) \<Rightarrow> 'a workflow" where
  "command W f = tr_bind (tr_get cl_clock) (\<lambda>n. tr_seq (tr_update (tick W)) (f (wd_access W n) n))"

definition set_local :: "string \<Rightarrow> string option \<Rightarrow> unit workflow" where
  "set_local path content = tr_update (\<lambda>w. w\<lparr>cl_local := (cl_local w)(path := content)\<rparr>)"

definition objectExists :: "s3_world \<Rightarrow> string \<Rightarrow> bool workflow" where
  "objectExists W uri = command W (\<lambda>a _.
     if a \<noteq> Works then tr_fail (ListFailed uri) else tr_get (\<lambda>w. listed (wd_ls W (cl_remote w) uri) uri))"

definition s3_get :: "s3_world \<Rightarrow> string \<Rightarrow> string \<Rightarrow> unit workflow" where
  "s3_get W uri path = command W (\<lambda>a n.
     case a of
       Fails \<Rightarrow> tr_fail (GetFailed uri)
     | FailsAfterEffect \<Rightarrow> tr_seq (set_local path (wd_partial W n)) (tr_fail (GetFailed uri))
     | Works \<Rightarrow> tr_bind (tr_get (\<lambda>w. cl_remote w uri)) (\<lambda>object.
         case object of None \<Rightarrow> tr_fail (GetFailed uri) | Some content \<Rightarrow> set_local path (Some content)))"

definition s3_put :: "s3_world \<Rightarrow> string \<Rightarrow> string \<Rightarrow> unit workflow" where
  "s3_put W path uri = command W (\<lambda>a n.
     tr_bind (tr_get (\<lambda>w. cl_local w path)) (\<lambda>content.
       case content of
         None \<Rightarrow> tr_fail (PutFailedAt uri)
       | Some data \<Rightarrow>
           let put = tr_update (\<lambda>w. w\<lparr>cl_remote := (cl_remote w)(uri \<mapsto> data)\<rparr>)
           in (case a of
                 Works \<Rightarrow> put
               | Fails \<Rightarrow> tr_fail (PutFailedAt uri)
               | FailsAfterEffect \<Rightarrow> tr_seq put (tr_fail (PutFailedAt uri)))))"

text \<open>
  Local files. \<open>os.WriteFile\<close> truncates the file and then writes it piece by piece: it goes through every prefix of the
  content, so that a crash leaves any of them, and so does an error after \<open>wd_short\<close> characters. Reading and
  renaming are one step each.
\<close>

definition write_prefixes :: "string \<Rightarrow> string \<Rightarrow> nat \<Rightarrow> unit workflow" where
  "write_prefixes path content n =
     tr_seq (tr_each (\<lambda>k. set_local path (Some (take k content))) [0..<Suc n]) (tr_return ())"

definition write_local :: "s3_world \<Rightarrow> string \<Rightarrow> string \<Rightarrow> unit workflow" where
  "write_local W path content =
     (case wd_file W path of
        Works \<Rightarrow> write_prefixes path content (length content)
      | Fails \<Rightarrow> tr_fail (LocalFile path)
      | FailsAfterEffect \<Rightarrow> tr_seq (write_prefixes path content (wd_short W path)) (tr_fail (LocalFile path)))"

definition read_local :: "s3_world \<Rightarrow> string \<Rightarrow> string workflow" where
  "read_local W path =
     tr_seq (tr_check (wd_file W path = Works) (LocalFile path))
       (tr_bind (tr_get (\<lambda>w. cl_local w path)) (\<lambda>content.
         case content of None \<Rightarrow> tr_fail (LocalFile path) | Some data \<Rightarrow> tr_return data))"

definition rename_local :: "s3_world \<Rightarrow> string \<Rightarrow> string \<Rightarrow> unit workflow" where
  "rename_local W from to =
     tr_seq (tr_check (wd_file W to = Works) (LocalFile to))
       (tr_update (\<lambda>w. w\<lparr>cl_local := (cl_local w)(to := cl_local w from, from := None)\<rparr>))"

text \<open>\<open>getJSON\<close>: downloaded, read back and decoded.\<close>

definition getJSON :: "s3_world \<Rightarrow> (string \<Rightarrow> 'a option) \<Rightarrow> string \<Rightarrow> string \<Rightarrow> 'a workflow" where
  "getJSON W decode uri path =
     tr_seq (s3_get W uri path)
       (tr_bind (read_local W path) (\<lambda>data.
         case decode data of None \<Rightarrow> tr_fail (Undecodable uri) | Some v \<Rightarrow> tr_return v))"


definition in_dir :: "string \<Rightarrow> string \<Rightarrow> string" where
  "in_dir dir name = dir @ ''/'' @ name"

text \<open>Polls until one has a result; \<open>k\<close> more ticks of the poll interval before the deadline.\<close>

fun wait_poll :: "'a option workflow \<Rightarrow> nat \<Rightarrow> 'a workflow" where
  "wait_poll m k =
     tr_bind m (\<lambda>result.
       case result of
         Some a \<Rightarrow> tr_return a
       | None \<Rightarrow> (case k of 0 \<Rightarrow> tr_fail TimedOut | Suc k' \<Rightarrow> wait_poll m k'))"

declare wait_poll.simps [simp del]

text \<open>An operation whose error is ignored.\<close>

definition tr_ignore :: "'a workflow \<Rightarrow> unit workflow" where
  "tr_ignore m w = (Inr (), snd (m w))"


section \<open>Triples\<close>

text \<open>A condition that is about local files only is kept by what happens in the store.\<close>

abbreviation on_local :: "((string \<rightharpoonup> string) \<Rightarrow> bool) \<Rightarrow> client \<Rightarrow> bool" where
  "on_local P w \<equiv> P (cl_local w)"

lemma command_ok:
  assumes "\<And>l. P l \<Longrightarrow> I l" "\<And>a n. traced_ok (on_local P) (f a n) (on_local I) Q"
  shows "traced_ok (on_local P) (command W f) (on_local I) Q"
  unfolding command_def
  by (rule traced_ok_bind [where Q = "\<lambda>_. on_local P"], rule traced_ok_get, assumption,
      rule traced_ok_seq [where Q = "on_local P"], rule traced_ok_update, simp add: tick_def assms(1), rule assms(2))

lemma objectExists_ok:
  "(\<And>l. P l \<Longrightarrow> I l) \<Longrightarrow> traced_ok (on_local P) (objectExists W uri) (on_local I) (\<lambda>_. on_local P)"
  unfolding objectExists_def by (rule command_ok) (auto intro!: traced_ok_fail traced_ok_get)

lemma set_local_ok:
  "(\<And>l. P l \<Longrightarrow> I (l(path := c)) \<and> Q (l(path := c))) \<Longrightarrow> traced_ok (on_local P) (set_local path c) (on_local I) (\<lambda>_. on_local Q)"
  unfolding set_local_def by (rule traced_ok_update) simp

lemma s3_get_ok:
  assumes "\<And>l. P l \<Longrightarrow> I l" "\<And>l c. P l \<Longrightarrow> I (l(path := c)) \<and> Q (l(path := c))"
  shows "traced_ok (on_local P) (s3_get W uri path) (on_local I) (\<lambda>_. on_local Q)"
  unfolding s3_get_def
proof (rule command_ok [OF assms(1)])
  fix a n
  have set_it: "traced_ok (on_local P) (set_local path c) (on_local I) (\<lambda>_. on_local Q)" for c
    by (rule set_local_ok) (rule assms(2))
  show "traced_ok (on_local P) (case a of Fails \<Rightarrow> tr_fail (GetFailed uri)
     | FailsAfterEffect \<Rightarrow> tr_seq (set_local path (wd_partial W n)) (tr_fail (GetFailed uri))
     | Works \<Rightarrow> tr_bind (tr_get (\<lambda>w. cl_remote w uri)) (\<lambda>object.
         case object of None \<Rightarrow> tr_fail (GetFailed uri) | Some content \<Rightarrow> set_local path (Some content)))
     (on_local I) (\<lambda>_. on_local Q)"
    by (cases a) (auto intro!: traced_ok_fail traced_ok_seq [OF set_it] set_it
        traced_ok_bind [where Q = "\<lambda>_. on_local P"] traced_ok_get split: option.split)
qed assumption

lemma s3_put_ok:
  assumes "\<And>l. P l \<Longrightarrow> I l"
  shows "traced_ok (on_local P) (s3_put W path uri) (on_local I) (\<lambda>_. on_local P)"
proof -
  have put: "traced_ok (on_local P) (tr_update (\<lambda>w. w\<lparr>cl_remote := f w\<rparr>)) (on_local I) (\<lambda>_. on_local P)" for f
    by (rule traced_ok_update) (simp add: assms)
  show ?thesis
    unfolding s3_put_def
    by (rule command_ok [OF assms])
       (auto simp: Let_def split: option.split access.split
         intro!: traced_ok_bind [where Q = "\<lambda>_. on_local P"] traced_ok_get traced_ok_fail put traced_ok_seq [OF put])
qed

text \<open>A written file: on the way it holds a prefix of the content, at the end all of it.\<close>

lemma write_prefixes_run:
  "write_prefixes path content n w =
     (Inr (), map (\<lambda>k. w\<lparr>cl_local := (cl_local w)(path \<mapsto> take k content)\<rparr>) [0..<Suc n])"
proof -
  have each: "\<exists>us. tr_each (\<lambda>k. set_local path (Some (take k content))) ks w =
      (Inr us, map (\<lambda>k. w\<lparr>cl_local := (cl_local w)(path \<mapsto> take k content)\<rparr>) ks)" for ks
  proof (induction ks arbitrary: w)
    case (Cons k ks)
    obtain us where "tr_each (\<lambda>k. set_local path (Some (take k content))) ks (w\<lparr>cl_local := (cl_local w)(path \<mapsto> take k content)\<rparr>) =
        (Inr us, map (\<lambda>j. w\<lparr>cl_local := (cl_local w)(path \<mapsto> take j content)\<rparr>) ks)"
      using Cons [of "w\<lparr>cl_local := (cl_local w)(path \<mapsto> take k content)\<rparr>"]
      by (auto simp: fun_upd_def cong: if_cong)
    moreover have "set_local path (Some (take k content)) w = (Inr (), [w\<lparr>cl_local := (cl_local w)(path \<mapsto> take k content)\<rparr>])"
      by (simp add: set_local_def tr_update_def)
    ultimately show ?case
      by (simp add: tr_bind_def tr_return_def fun_upd_def)
  qed (simp add: tr_return_def)
  show ?thesis
    using each [of "[0..<Suc n]"]
    by (auto simp: write_prefixes_def tr_seq_def tr_bind_def tr_return_def simp del: upt_Suc)
qed

lemma write_local_works: "wd_file W path = Works \<Longrightarrow> write_local W path content w =
    (Inr (), map (\<lambda>k. w\<lparr>cl_local := (cl_local w)(path \<mapsto> take k content)\<rparr>) [0..<Suc (length content)])"
  by (simp add: write_local_def write_prefixes_run del: upt_Suc)

lemma write_local_last: "wd_file W path = Works \<Longrightarrow>
    \<exists>us. write_local W path content w = (Inr (), us @ [w\<lparr>cl_local := (cl_local w)(path \<mapsto> content)\<rparr>])"
  by (simp add: write_local_works)

lemma write_local_Inr:
  assumes "write_local W path content w = (Inr u, ws)"
  shows "ws = map (\<lambda>k. w\<lparr>cl_local := (cl_local w)(path \<mapsto> take k content)\<rparr>) [0..<Suc (length content)]"
    "last (w # ws) = w\<lparr>cl_local := (cl_local w)(path \<mapsto> content)\<rparr>"
proof -
  show ws: "ws = map (\<lambda>k. w\<lparr>cl_local := (cl_local w)(path \<mapsto> take k content)\<rparr>) [0..<Suc (length content)]"
    using assms
    by (auto simp: write_local_def write_prefixes_run tr_seq_def tr_bind_def tr_fail_def simp del: upt_Suc split: access.splits)
  show "last (w # ws) = w\<lparr>cl_local := (cl_local w)(path \<mapsto> content)\<rparr>"
    by (simp add: ws)
qed

lemma write_local_ok:
  assumes "\<And>l k. P l \<Longrightarrow> I (l(path \<mapsto> take k c))" "\<And>l. P l \<Longrightarrow> Q (l(path \<mapsto> c))"
  shows "traced_ok (on_local P) (write_local W path c) (on_local I) (\<lambda>_. on_local Q)"
proof (rule traced_okI)
  fix w a
  assume "on_local P w" "fst (write_local W path c w) = Inr a"
  then show "on_local Q (last (w # snd (write_local W path c w)))"
    using write_local_Inr(2) [of W path c w a "snd (write_local W path c w)"] assms(2)
    by (cases "write_local W path c w") simp
next
  fix w w'
  assume "on_local P w" "w' \<in> set (snd (write_local W path c w))"
  then show "on_local I w'"
    using assms(1)
    by (auto simp: write_local_def write_prefixes_run tr_seq_def tr_bind_def tr_fail_def simp del: upt_Suc split: access.splits)
qed

lemma read_local_ok: "traced_ok (on_local P) (read_local W path) I (\<lambda>data w. on_local P w \<and> cl_local w path = Some data)"
  unfolding read_local_def
  by (rule traced_ok_seq [where Q = "on_local P"], rule traced_ok_check, assumption,
      rule traced_ok_bind [where Q = "\<lambda>c w. on_local P w \<and> c = cl_local w path"], rule traced_ok_get, simp)
     (auto split: option.split intro!: traced_ok_fail traced_ok_return)

lemma rename_local_ok:
  assumes "\<And>l. P l \<Longrightarrow> I (l(to := l from, from := None)) \<and> Q (l(to := l from, from := None))"
  shows "traced_ok (on_local P) (rename_local W from to) (on_local I) (\<lambda>_. on_local Q)"
  unfolding rename_local_def
  by (rule traced_ok_seq [where Q = "on_local P"], rule traced_ok_check, assumption, rule traced_ok_update) (simp add: assms)

lemma getJSON_ok:
  assumes "\<And>l. P l \<Longrightarrow> I l" "\<And>l c. P l \<Longrightarrow> I (l(path := c)) \<and> Q (l(path := c))"
  shows "traced_ok (on_local P) (getJSON W decode uri path) (on_local I)
    (\<lambda>v w. on_local Q w \<and> (\<exists>data. cl_local w path = Some data \<and> decode data = Some v))"
proof -
  have get: "traced_ok (on_local P) (s3_get W uri path) (on_local I) (\<lambda>_. on_local Q)"
    by (rule s3_get_ok) (use assms in blast)+
  show ?thesis
    unfolding getJSON_def
    by (rule traced_ok_seq [OF get], rule traced_ok_bind [OF read_local_ok])
       (auto split: option.split intro!: traced_ok_fail traced_ok_return)
qed

lemma wait_poll_ok:
  assumes "traced_ok P m I (\<lambda>r w. case r of None \<Rightarrow> P w | Some a \<Rightarrow> Q a w)"
  shows "traced_ok P (wait_poll m k) I Q"
proof (induction k)
  case 0
  show ?case
    by (subst wait_poll.simps, rule traced_ok_bind [OF assms]) (auto split: option.split intro: traced_ok_return traced_ok_fail)
next
  case (Suc k)
  then show ?case
    by (subst wait_poll.simps, intro traced_ok_bind [OF assms]) (auto split: option.split intro: traced_ok_return)
qed


section \<open>Commands that work\<close>

lemma tick_sel [simp]:
  "cl_local (tick W w) = cl_local w" "cl_clock (tick W w) = Suc (cl_clock w)"
  "cl_remote (tick W w) = wd_change W (cl_clock w) (cl_remote w)"
  by (simp_all add: tick_def)

lemma command_works: "wd_access W (cl_clock w) = Works \<Longrightarrow> command W f w =
    (case f Works (cl_clock w) (tick W w) of (r, ws) \<Rightarrow> (r, tick W w # ws))"
  by (simp add: command_def tr_bind_def tr_seq_def tr_get_def tr_update_def split: prod.split)

lemma objectExists_works: "wd_access W (cl_clock w) = Works \<Longrightarrow> objectExists W uri w =
    (Inr (listed (wd_ls W (cl_remote (tick W w)) uri) uri), [tick W w])"
  by (simp add: objectExists_def command_works tr_get_def)

lemma s3_get_works: "wd_access W (cl_clock w) = Works \<Longrightarrow> cl_remote (tick W w) uri = Some c \<Longrightarrow> s3_get W uri path w =
    (Inr (), [tick W w, (tick W w)\<lparr>cl_local := (cl_local w)(path \<mapsto> c)\<rparr>])"
  by (simp add: s3_get_def command_works tr_bind_def tr_get_def set_local_def tr_update_def)

lemma s3_put_works: "wd_access W (cl_clock w) = Works \<Longrightarrow> cl_local w path = Some c \<Longrightarrow> s3_put W path uri w =
    (Inr (), [tick W w, (tick W w)\<lparr>cl_remote := (cl_remote (tick W w))(uri \<mapsto> c)\<rparr>])"
  by (simp add: s3_put_def command_works tr_bind_def tr_get_def tr_update_def)

lemma getJSON_works: "wd_access W (cl_clock w) = Works \<Longrightarrow> wd_file W path = Works \<Longrightarrow> cl_remote (tick W w) uri = Some c \<Longrightarrow>
    decode c = Some v \<Longrightarrow> getJSON W decode uri path w =
    (Inr v, [tick W w, (tick W w)\<lparr>cl_local := (cl_local w)(path \<mapsto> c)\<rparr>])"
  by (simp add: getJSON_def s3_get_works read_local_def tr_seq_def tr_bind_def tr_check_def tr_return_def tr_get_def)


text \<open>A poll of two listings: nothing before tick \<open>M\<close>, the result after it.\<close>

lemma wait_poll_returns:
  assumes "\<And>w. M \<le> Suc (cl_clock w) \<Longrightarrow> \<exists>ws. m w = (Inr (Some a), ws) \<and> Q (last (w # ws))"
    and "\<And>w. Suc (cl_clock w) < M \<Longrightarrow> m w = (Inr None, [tick W w, tick W (tick W w)])"
  shows "M \<le> cl_clock w + 2 * k + 1 \<Longrightarrow> \<exists>ws. wait_poll m k w = (Inr a, ws) \<and> Q (last (w # ws))"
proof (induction k arbitrary: w)
  case 0
  then obtain ws where "m w = (Inr (Some a), ws)" "Q (last (w # ws))" using assms(1) [of w] by auto
  then show ?case by (subst wait_poll.simps) (simp add: tr_bind_def tr_return_def)
next
  case (Suc k)
  show ?case
  proof (cases "M \<le> Suc (cl_clock w)")
    case True
    then obtain ws where "m w = (Inr (Some a), ws)" "Q (last (w # ws))" using assms(1) [of w] by auto
    then show ?thesis by (subst wait_poll.simps) (simp add: tr_bind_def tr_return_def)
  next
    case False
    then have "m w = (Inr None, [tick W w, tick W (tick W w)])" using assms(2) by simp
    moreover obtain ws where "wait_poll m k (tick W (tick W w)) = (Inr a, ws)" "Q (last (tick W (tick W w) # ws))"
      using Suc.IH [of "tick W (tick W w)"] Suc.prems by auto
    ultimately show ?thesis by (subst wait_poll.simps) (simp add: tr_bind_def)
  qed
qed

end
