(* ===== verification/Analysis.thy ===== *)
theory Analysis
  imports S3Client
begin

text \<open>
  \<^verbatim>\<open>internal/analysisworkflow\<close>: the request for the analysis of one measurement and the wait for its result. The
  request is uploaded; then the failure marker and the completion marker are polled, and the result is downloaded,
  verified against the marker and renamed to its name. The deadline is the number of polls left.
\<close>

section \<open>Requests and markers\<close>

record analysis_request =
  ar_Version :: int
  ar_JobID :: string
  ar_Protocol :: string
  ar_MeasurementID :: string
  ar_IPIDURI :: string
  ar_SnapshotURI :: string
  ar_ResultURI :: string
  ar_DoneURI :: string
  ar_FailedURI :: string
  ar_CreatedAt :: string
  ar_Purpose :: string
  ar_MaximumTargets :: int
  ar_SelectionSeed :: int

record analysis_done =
  ad_Version :: int
  ad_JobID :: string
  ad_ResultURI :: string
  ad_Rows :: int
  ad_SizeBytes :: int
  ad_SHA256 :: string

record analysis_failed =
  af_Version :: int
  af_JobID :: string
  af_Error :: string

record analysis_library =
  al_encode_request :: "analysis_request \<Rightarrow> string"
  al_decode_done :: "string \<Rightarrow> analysis_done option"
  al_decode_failed :: "string \<Rightarrow> analysis_failed option"
  al_sha :: "string \<Rightarrow> string"

text \<open>The configuration, the measurement and its directory.\<close>

record analysis_job =
  aj_S3Prefix :: string
  aj_S3Destination :: string
  aj_ID :: string
  aj_Path :: string

definition AnalysisVersion :: int where "AnalysisVersion = 2"
definition PurposeRTUnclassified :: string where "PurposeRTUnclassified = ''rt-unclassified''"
definition PurposeRandomReproducibility :: string where "PurposeRandomReproducibility = ''random-reproducibility''"
definition MaximumReproducibilityTargets :: int where "MaximumReproducibilityTargets = 10000"

definition result_name :: "string \<Rightarrow> string" where
  "result_name purpose =
     (if purpose = PurposeRandomReproducibility then ''random-reproducibility-targets.pq'' else ''zmap_unclassified.pq'')"

definition RemoteMeasurementURI :: "string \<Rightarrow> string \<Rightarrow> string" where
  "RemoteMeasurementURI destination mid = trim_slashes destination @ ''/'' @ mid"

definition newRequestForPurpose :: "analysis_job \<Rightarrow> string \<Rightarrow> int \<Rightarrow> int \<Rightarrow> string \<Rightarrow> workflow_error + analysis_request" where
  "newRequestForPurpose j purpose maximumTargets selectionSeed now =
     (case ParseMeasurementID (aj_ID j) of
        Inl _ \<Rightarrow> Inl BadMeasurement
      | Inr (payload, _, _) \<Rightarrow>
          let jobPrefix = joinS3 (aj_S3Prefix j) [''jobs'', aj_ID j];
              inputPrefix = RemoteMeasurementURI (aj_S3Destination j) (aj_ID j)
          in Inr \<lparr>ar_Version = AnalysisVersion, ar_JobID = aj_ID j, ar_Protocol = payload, ar_MeasurementID = aj_ID j,
            ar_IPIDURI = joinS3 inputPrefix [''ipid.pq''], ar_SnapshotURI = joinS3 inputPrefix [''ipid.snapshot.yaml''],
            ar_ResultURI = joinS3 inputPrefix [result_name purpose], ar_DoneURI = joinS3 jobPrefix [''done.json''],
            ar_FailedURI = joinS3 jobPrefix [''failed.json''], ar_CreatedAt = now, ar_Purpose = purpose,
            ar_MaximumTargets = maximumTargets, ar_SelectionSeed = selectionSeed\<rparr>)"


section \<open>Verification of a result\<close>

definition lower :: "char \<Rightarrow> char" where
  "lower c = (let n = of_char c :: nat in if 65 \<le> n \<and> n \<le> 90 then char_of (n + 32) else c)"

definition EqualFold :: "string \<Rightarrow> string \<Rightarrow> bool" where
  "EqualFold a b \<longleftrightarrow> map lower a = map lower b"

text \<open>What a completion marker says of the content of the result.\<close>

definition verified_content :: "analysis_library \<Rightarrow> analysis_done \<Rightarrow> string \<Rightarrow> bool" where
  "verified_content L d content \<longleftrightarrow>
     int (length content) = ad_SizeBytes d \<and> EqualFold (al_sha L content) (ad_SHA256 d) \<and> 0 \<le> ad_Rows d"

definition verifyFile :: "analysis_library \<Rightarrow> s3_world \<Rightarrow> string \<Rightarrow> analysis_done \<Rightarrow> unit workflow" where
  "verifyFile L W path d =
     tr_bind (tr_get (\<lambda>w. cl_local w path)) (\<lambda>content.
       case content of
         None \<Rightarrow> tr_fail (LocalFile path)
       | Some data \<Rightarrow>
           tr_seq (tr_check (int (length data) = ad_SizeBytes d) WrongSize)
          (tr_seq (tr_check (wd_file W path = Works) (LocalFile path))
          (tr_seq (tr_check (EqualFold (al_sha L data) (ad_SHA256 d)) WrongDigest)
          (tr_check (0 \<le> ad_Rows d) NegativeRows))))"


section \<open>Polling\<close>

definition poll :: "analysis_library \<Rightarrow> s3_world \<Rightarrow> analysis_request \<Rightarrow> string \<Rightarrow> string option workflow" where
  "poll L W request dir =
     tr_bind (objectExists W (ar_FailedURI request)) (\<lambda>failed.
       if failed then
         tr_bind (getJSON W (al_decode_failed L) (ar_FailedURI request) (in_dir dir ''analysis-failed.json'')) (\<lambda>marker.
           if af_Version marker \<noteq> AnalysisVersion \<or> af_JobID marker \<noteq> ar_JobID request then tr_fail InvalidFailureMarker
           else tr_fail (JobFailed (af_Error marker)))
       else tr_bind (objectExists W (ar_DoneURI request)) (\<lambda>doneExists.
         if \<not> doneExists then tr_return None
         else tr_bind (getJSON W (al_decode_done L) (ar_DoneURI request) (in_dir dir ''analysis-done.json'')) (\<lambda>d.
           if ad_Version d \<noteq> AnalysisVersion \<or> ad_JobID d \<noteq> ar_JobID request \<or> ad_ResultURI d \<noteq> ar_ResultURI request
             then tr_fail InvalidDoneMarker
           else let resultPath = in_dir dir (base_name (ar_ResultURI request)); temporaryPath = resultPath @ ''.part'' in
             tr_seq (s3_get W (ar_ResultURI request) temporaryPath)
            (tr_seq (verifyFile L W temporaryPath d)
            (tr_seq (rename_local W temporaryPath resultPath)
            (tr_return (Some resultPath)))))))"

definition requestAndWaitForPurpose ::
  "analysis_library \<Rightarrow> s3_world \<Rightarrow> analysis_job \<Rightarrow> string \<Rightarrow> int \<Rightarrow> int \<Rightarrow> string \<Rightarrow> nat \<Rightarrow> string workflow" where
  "requestAndWaitForPurpose L W j purpose maximumTargets selectionSeed now k =
     (case newRequestForPurpose j purpose maximumTargets selectionSeed now of
        Inl e \<Rightarrow> tr_fail e
      | Inr request \<Rightarrow>
          let requestPath = in_dir (aj_Path j) ''analysis-request.json'' in
          tr_seq (write_local W requestPath (al_encode_request L request))
         (tr_seq (s3_put W requestPath (joinS3 (aj_S3Prefix j) [''jobs'', ar_JobID request, ''request.json'']))
         (wait_poll (poll L W request (aj_Path j)) k)))"

definition RequestAndWait :: "analysis_library \<Rightarrow> s3_world \<Rightarrow> analysis_job \<Rightarrow> string \<Rightarrow> nat \<Rightarrow> string workflow" where
  "RequestAndWait L W j now k = requestAndWaitForPurpose L W j PurposeRTUnclassified 0 0 now k"

definition RequestRandomReproducibilityAndWait ::
  "analysis_library \<Rightarrow> s3_world \<Rightarrow> analysis_job \<Rightarrow> int \<Rightarrow> int \<Rightarrow> string \<Rightarrow> nat \<Rightarrow> string workflow" where
  "RequestRandomReproducibilityAndWait L W j maximumTargets selectionSeed now k =
     (if maximumTargets < 0 \<or> maximumTargets > MaximumReproducibilityTargets then tr_fail MaximumOutOfRange
      else requestAndWaitForPurpose L W j PurposeRandomReproducibility maximumTargets selectionSeed now k)"


section \<open>Only verified results\<close>

definition result_path :: "analysis_job \<Rightarrow> string \<Rightarrow> string" where
  "result_path j purpose = in_dir (aj_Path j) (result_name purpose)"

text \<open>The result file is what the completion marker next to it says; and that marker is for this job and this result.\<close>

definition result_verified :: "analysis_library \<Rightarrow> analysis_job \<Rightarrow> string \<Rightarrow> (string \<rightharpoonup> string) \<Rightarrow> bool" where
  "result_verified L j purpose l \<longleftrightarrow>
     (case (l (result_path j purpose), l (in_dir (aj_Path j) ''analysis-done.json'')) of
        (Some content, Some marker) \<Rightarrow>
          (case al_decode_done L marker of
             None \<Rightarrow> False
           | Some d \<Rightarrow> ad_Version d = AnalysisVersion \<and> ad_JobID d = aj_ID j
               \<and> ad_ResultURI d = joinS3 (RemoteMeasurementURI (aj_S3Destination j) (aj_ID j)) [result_name purpose]
               \<and> verified_content L d content)
      | _ \<Rightarrow> False)"

lemma result_names: "result_name purpose \<in> {''random-reproducibility-targets.pq'', ''zmap_unclassified.pq''}"
  by (simp add: result_name_def)

lemma base_name_append:
  assumes "n \<noteq> []" "CHR ''/'' \<notin> set n"
  shows "base_name (x @ ''/'' @ n) = n"
proof -
  obtain c m where n: "rev n = c # m" using assms(1) by (cases "rev n") auto
  have c: "c \<noteq> CHR ''/''" using assms(2) n by (metis list.set_intros(1) set_rev)
  have whole: "trim_slashes (x @ ''/'' @ n) = x @ ''/'' @ n" 
  proof -
    have "dropWhile (\<lambda>c. c = CHR ''/'') (rev (x @ ''/'' @ n)) = rev (x @ ''/'' @ n)" by (simp add: n c)
    then show ?thesis unfolding trim_slashes_def by (simp only: rev_rev_ident)
  qed
  have "takeWhile (\<lambda>c. c \<noteq> CHR ''/'') (rev n @ CHR ''/'' # rev x) = rev n"
    by (subst takeWhile_append2) (use assms(2) in auto)
  moreover have "rev (x @ ''/'' @ n) = rev n @ CHR ''/'' # rev x" by simp
  ultimately have "rev (takeWhile (\<lambda>c. c \<noteq> CHR ''/'') (rev (x @ ''/'' @ n))) = n" by (simp only: rev_rev_ident)
  then show ?thesis using whole by (simp add: base_name_def Let_def del: rev_append)
qed

lemma base_name_joinS3:
  assumes "n \<in> {''random-reproducibility-targets.pq'', ''zmap_unclassified.pq''}"
  shows "base_name (joinS3 p [n]) = n"
proof -
  have "n \<noteq> [] \<and> CHR ''/'' \<notin> set n \<and> trim_slash n = n"
    using assms by (elim insertE emptyE; simp add: trim_slash_def trim_slashes_def)
  moreover from this have "joinS3 p [n] = trim_slashes p @ ''/'' @ n" by (simp add: joinS3_def)
  ultimately show ?thesis by (simp only: base_name_append simp_thms)
qed

lemma paths_differ [simp]:
  assumes "n \<in> {''random-reproducibility-targets.pq'', ''zmap_unclassified.pq''}"
  shows "in_dir dir n \<noteq> in_dir dir ''analysis-done.json''" "in_dir dir n \<noteq> in_dir dir ''analysis-failed.json''"
    "in_dir dir n \<noteq> in_dir dir ''analysis-request.json''" "in_dir dir n \<noteq> in_dir dir n @ ''.part''"
    "in_dir dir n @ ''.part'' \<noteq> in_dir dir ''analysis-done.json''"
proof -
  show "in_dir dir n \<noteq> in_dir dir n @ ''.part''" by simp
  have "n \<noteq> ''analysis-done.json''" "n \<noteq> ''analysis-failed.json''" "n \<noteq> ''analysis-request.json''"
    "n @ ''.part'' \<noteq> ''analysis-done.json''"
    using assms by (elim insertE emptyE; simp)+
  then show "in_dir dir n \<noteq> in_dir dir ''analysis-done.json''" "in_dir dir n \<noteq> in_dir dir ''analysis-failed.json''"
    "in_dir dir n \<noteq> in_dir dir ''analysis-request.json''" "in_dir dir n @ ''.part'' \<noteq> in_dir dir ''analysis-done.json''"
    unfolding in_dir_def append_assoc same_append_eq by simp_all
qed

lemma verifyFile_ok:
  "traced_ok (on_local P) (verifyFile L W path d) I (\<lambda>_ w. on_local P w \<and> (\<exists>data. cl_local w path = Some data \<and> verified_content L d data))"
proof -
  have "traced_ok (\<lambda>w. on_local P w \<and> Some data = cl_local w path)
      (tr_seq (tr_check (int (length data) = ad_SizeBytes d) WrongSize)
        (tr_seq (tr_check (wd_file W path = Works) (LocalFile path))
        (tr_seq (tr_check (EqualFold (al_sha L data) (ad_SHA256 d)) WrongDigest) (tr_check (0 \<le> ad_Rows d) NegativeRows))))
      I (\<lambda>_ w. on_local P w \<and> (\<exists>data. cl_local w path = Some data \<and> verified_content L d data))" for data
    by (intro traced_ok_seq [where Q = "\<lambda>w. on_local P w \<and> Some data = cl_local w path \<and> int (length data) = ad_SizeBytes d"]
        traced_ok_seq [where Q = "\<lambda>w. on_local P w \<and> Some data = cl_local w path \<and> int (length data) = ad_SizeBytes d \<and>
          EqualFold (al_sha L data) (ad_SHA256 d)"] traced_ok_check)
      (auto simp: verified_content_def intro!: exI [of _ data] sym [of "Some data"])
  then show ?thesis
    unfolding verifyFile_def
    by (intro traced_ok_bind [where Q = "\<lambda>c w. on_local P w \<and> c = cl_local w path"] traced_ok_get)
       (auto split: option.split intro: traced_ok_fail)
qed

text \<open>One poll: no result yet and the result file untouched, or the verified result.\<close>

definition request_for :: "analysis_job \<Rightarrow> string \<Rightarrow> analysis_request \<Rightarrow> bool" where
  "request_for j purpose request \<longleftrightarrow> ar_JobID request = aj_ID j
     \<and> ar_ResultURI request = joinS3 (RemoteMeasurementURI (aj_S3Destination j) (aj_ID j)) [result_name purpose]"

lemma newRequestForPurpose_for: "newRequestForPurpose j purpose m seed now = Inr request \<Longrightarrow> request_for j purpose request"
  by (auto simp: newRequestForPurpose_def request_for_def Let_def split: sum.splits prod.splits)

lemma poll_ok:
  fixes before :: "string option"
  assumes "request_for j purpose request"
  defines "P \<equiv> \<lambda>l. l (result_path j purpose) = before"
  shows "traced_ok (on_local P) (poll L W request (aj_Path j))
    (on_local (\<lambda>l. P l \<or> result_verified L j purpose l))
    (\<lambda>r w. case r of None \<Rightarrow> on_local P w | Some path \<Rightarrow> path = result_path j purpose \<and> result_verified L j purpose (cl_local w))"
proof -
  let ?I = "\<lambda>l. P l \<or> result_verified L j purpose l"
  let ?rp = "result_path j purpose" and ?dp = "in_dir (aj_Path j) ''analysis-done.json''"
  let ?R = "\<lambda>r w. case r of None \<Rightarrow> on_local P w | Some path \<Rightarrow> path = ?rp \<and> result_verified L j purpose (cl_local w)"
  have paths: "?rp \<noteq> ?dp" "?rp \<noteq> in_dir (aj_Path j) ''analysis-failed.json''" "?rp \<noteq> ?rp @ ''.part''" "?rp @ ''.part'' \<noteq> ?dp"
    unfolding result_path_def by (rule paths_differ, rule result_names)+
  have name: "in_dir (aj_Path j) (base_name (ar_ResultURI request)) = ?rp"
    using assms(1) by (simp add: request_for_def result_path_def base_name_joinS3 [OF result_names])
  have see: "traced_ok (on_local P) (objectExists W uri) (on_local ?I) (\<lambda>_. on_local P)" for uri
    by (rule objectExists_ok) simp
  have failed: "traced_ok (on_local P) (getJSON W (al_decode_failed L) (ar_FailedURI request) (in_dir (aj_Path j) ''analysis-failed.json''))
      (on_local ?I) (\<lambda>v w. on_local P w \<and> (\<exists>data. cl_local w (in_dir (aj_Path j) ''analysis-failed.json'') = Some data \<and> al_decode_failed L data = Some v))"
    by (rule getJSON_ok) (use paths in \<open>simp_all add: P_def\<close>)
  have marker: "traced_ok (on_local P) (getJSON W (al_decode_done L) (ar_DoneURI request) ?dp)
      (on_local ?I) (\<lambda>v w. on_local P w \<and> (\<exists>data. cl_local w ?dp = Some data \<and> al_decode_done L data = Some v))"
    by (rule getJSON_ok) (use paths in \<open>simp_all add: P_def\<close>)
  let ?P2 = "\<lambda>d l. P l \<and> (\<exists>data. l ?dp = Some data \<and> al_decode_done L data = Some d)"
  have fetch: "traced_ok (on_local (?P2 d)) (s3_get W uri (?rp @ ''.part'')) (on_local ?I) (\<lambda>_. on_local (?P2 d))" for d uri
    by (rule s3_get_ok) (use paths in \<open>simp_all add: P_def\<close>)
  have install: "traced_ok (\<lambda>w. on_local (?P2 d) w \<and> (\<exists>data. cl_local w (?rp @ ''.part'') = Some data \<and> verified_content L d data))
      (rename_local W (?rp @ ''.part'') ?rp) (on_local ?I) (\<lambda>_. on_local (result_verified L j purpose))"
    if "ad_Version d = AnalysisVersion" "ad_JobID d = ar_JobID request" "ad_ResultURI d = ar_ResultURI request" for d
    by (rule rename_local_ok [where P = "\<lambda>l. ?P2 d l \<and> (\<exists>data. l (?rp @ ''.part'') = Some data \<and> verified_content L d data)"])
       (use paths that assms(1) in \<open>auto simp: result_verified_def request_for_def\<close>)
  have body: "traced_ok (on_local (?P2 d))
      (if ad_Version d \<noteq> AnalysisVersion \<or> ad_JobID d \<noteq> ar_JobID request \<or> ad_ResultURI d \<noteq> ar_ResultURI request
         then tr_fail InvalidDoneMarker
       else let resultPath = in_dir (aj_Path j) (base_name (ar_ResultURI request)); temporaryPath = resultPath @ ''.part'' in
         tr_seq (s3_get W (ar_ResultURI request) temporaryPath)
        (tr_seq (verifyFile L W temporaryPath d)
        (tr_seq (rename_local W temporaryPath resultPath)
        (tr_return (Some resultPath))))) (on_local ?I) ?R" for d
    unfolding Let_def name
    by (rule traced_ok_if, rule traced_ok_fail, rule traced_ok_seq [OF fetch], rule traced_ok_seq [OF verifyFile_ok],
        rule traced_ok_seq [OF install]) (auto intro: traced_ok_return)
  show ?thesis
    unfolding poll_def
    apply (rule traced_ok_bind [OF see])
    apply (rule traced_ok_if)
     apply (rule traced_ok_bind [OF failed])
     apply (rule traced_ok_if; rule traced_ok_fail)
    apply (rule traced_ok_bind [OF see])
    apply (rule traced_ok_if)
     apply (rule traced_ok_return, simp)
    apply (rule traced_ok_bind [OF marker])
    apply (rule body)
    done
qed

section \<open>A result that is delivered is returned\<close>

text \<open>No command fails and \<open>s3cmd ls\<close> lists a marker exactly if it is there.\<close>

definition world_works :: "s3_world \<Rightarrow> analysis_request \<Rightarrow> bool" where
  "world_works W request \<longleftrightarrow> (\<forall>n. wd_access W n = Works) \<and> (\<forall>p. wd_file W p = Works)
     \<and> (\<forall>r. \<forall>uri \<in> {ar_FailedURI request, ar_DoneURI request}. listed (wd_ls W r uri) uri = (r uri \<noteq> None))"

text \<open>The analysis does not fail; from tick \<open>M\<close> on its marker and its result are there, and before \<open>M\<close> the marker is not.\<close>

definition delivers :: "s3_world \<Rightarrow> analysis_request \<Rightarrow> string \<Rightarrow> string \<Rightarrow> nat \<Rightarrow> bool" where
  "delivers W request marker content M \<longleftrightarrow> (\<forall>n r. wd_change W n r (ar_FailedURI request) = None
     \<and> wd_change W n r (ar_DoneURI request) = (if n < M then None else Some marker)
     \<and> (M \<le> n \<longrightarrow> wd_change W n r (ar_ResultURI request) = Some content))"

definition marker_fits :: "analysis_library \<Rightarrow> analysis_request \<Rightarrow> string \<Rightarrow> string \<Rightarrow> bool" where
  "marker_fits L request marker content =
     (case al_decode_done L marker of
        None \<Rightarrow> False
      | Some d \<Rightarrow> ad_Version d = AnalysisVersion \<and> ad_JobID d = ar_JobID request \<and> ad_ResultURI d = ar_ResultURI request
          \<and> verified_content L d content)"

lemma poll_waits:
  assumes "world_works W request" "delivers W request marker content M" "Suc (cl_clock w) < M"
  shows "poll L W request dir w = (Inr None, [tick W w, tick W (tick W w)])"
  using assms by (simp add: poll_def world_works_def delivers_def objectExists_works tr_bind_def tr_return_def)

lemma verifyFile_works:
  "wd_file W path = Works \<Longrightarrow> cl_local w path = Some data \<Longrightarrow> verified_content L d data \<Longrightarrow> verifyFile L W path d w = (Inr (), [])"
  by (simp add: verifyFile_def verified_content_def tr_bind_def tr_seq_def tr_get_def tr_check_def tr_return_def)

lemma poll_returns:
  assumes "world_works W request" "delivers W request marker content M" "M \<le> Suc (cl_clock w)"
    "marker_fits L request marker content" "request_for j purpose request"
  shows "\<exists>ws. poll L W request (aj_Path j) w = (Inr (Some (result_path j purpose)), ws)
    \<and> cl_local (last (w # ws)) (result_path j purpose) = Some content"
proof -
  have name: "in_dir (aj_Path j) (base_name (ar_ResultURI request)) = result_path j purpose"
    using assms(5) by (simp add: request_for_def result_path_def base_name_joinS3 [OF result_names])
  obtain d where d: "al_decode_done L marker = Some d" "ad_Version d = AnalysisVersion" "ad_JobID d = ar_JobID request"
      "ad_ResultURI d = ar_ResultURI request" "verified_content L d content"
    using assms(4) by (auto simp: marker_fits_def split: option.splits)
  have works: "wd_access W n = Works" "wd_file W p = Works" for n p using assms(1) by (simp_all add: world_works_def)
  have ls: "listed (wd_ls W r (ar_FailedURI request)) (ar_FailedURI request) = (r (ar_FailedURI request) \<noteq> None)"
    "listed (wd_ls W r (ar_DoneURI request)) (ar_DoneURI request) = (r (ar_DoneURI request) \<noteq> None)" for r
    using assms(1) by (simp_all add: world_works_def)
  have there: "wd_change W n r (ar_FailedURI request) = None"
    "Suc (cl_clock w) \<le> n \<Longrightarrow> wd_change W n r (ar_DoneURI request) = Some marker"
    "Suc (cl_clock w) \<le> n \<Longrightarrow> wd_change W n r (ar_ResultURI request) = Some content" for n r
    using assms(2,3) by (auto simp: delivers_def)
  let ?dp = "in_dir (aj_Path j) ''analysis-done.json''" and ?rp = "result_path j purpose"
  define w2 where "w2 = tick W (tick W w)"
  define w3 where "w3 = (tick W w2)\<lparr>cl_local := (cl_local w2)(?dp \<mapsto> marker)\<rparr>"
  define w4 where "w4 = (tick W w3)\<lparr>cl_local := (cl_local w3)(?rp @ ''.part'' \<mapsto> content)\<rparr>"
  define w5 where "w5 = w4\<lparr>cl_local := (cl_local w4)(?rp \<mapsto> content, ?rp @ ''.part'' := None)\<rparr>"
  have clocks: "cl_clock w2 = Suc (Suc (cl_clock w))" "cl_clock w3 = Suc (cl_clock w2)" by (simp_all add: w2_def w3_def)
  have "objectExists W (ar_FailedURI request) w = (Inr False, [tick W w])"
    by (simp add: objectExists_works works ls there)
  moreover have "objectExists W (ar_DoneURI request) (tick W w) = (Inr True, [w2])"
    by (simp add: objectExists_works works ls there w2_def)
  moreover have "getJSON W (al_decode_done L) (ar_DoneURI request) ?dp w2 = (Inr d, [tick W w2, w3])"
    unfolding w3_def by (rule getJSON_works) (simp_all add: works there clocks d)
  moreover have "s3_get W (ar_ResultURI request) (?rp @ ''.part'') w3 = (Inr (), [tick W w3, w4])"
    unfolding w4_def by (rule s3_get_works) (simp_all add: works there clocks)
  moreover have "verifyFile L W (?rp @ ''.part'') d w4 = (Inr (), [])"
    by (rule verifyFile_works [where data = content]) (simp_all add: works w4_def d)
  moreover have "rename_local W (?rp @ ''.part'') ?rp w4 = (Inr (), [w5])"
    by (simp add: rename_local_def tr_seq_def tr_bind_def tr_check_def tr_return_def tr_update_def works w5_def w4_def)
  moreover have "cl_local w5 ?rp = Some content" by (simp add: w5_def)
  ultimately show ?thesis
    unfolding poll_def Let_def name tr_seq_def tr_bind_def tr_return_def by (simp add: d)
qed

lemma polls_return:
  assumes "world_works W request" "delivers W request marker content M" "marker_fits L request marker content"
    "request_for j purpose request" "M \<le> cl_clock w + 2 * k + 1"
  shows "\<exists>ws. wait_poll (poll L W request (aj_Path j)) k w = (Inr (result_path j purpose), ws)
    \<and> cl_local (last (w # ws)) (result_path j purpose) = Some content"
  by (rule wait_poll_returns [OF _ _ assms(5), where Q = "\<lambda>w. cl_local w (result_path j purpose) = Some content"],
      rule poll_returns [OF assms(1,2) _ assms(3,4)], assumption, rule poll_waits [OF assms(1,2)])

lemma wait_returns:
  assumes "newRequestForPurpose j purpose m seed now = Inr request" "world_works W request"
    "delivers W request marker content M" "marker_fits L request marker content" "M \<le> cl_clock w + 2 * k + 2"
  shows "\<exists>ws. requestAndWaitForPurpose L W j purpose m seed now k w = (Inr (result_path j purpose), ws)
    \<and> cl_local (last (w # ws)) (result_path j purpose) = Some content"
proof -
  let ?p = "in_dir (aj_Path j) ''analysis-request.json''" and ?c = "al_encode_request L request"
  let ?u = "joinS3 (aj_S3Prefix j) [''jobs'', ar_JobID request, ''request.json'']"
  have works: "wd_access W n = Works" "wd_file W p = Works" for n p using assms(2) by (simp_all add: world_works_def)
  let ?w1 = "w\<lparr>cl_local := (cl_local w)(?p \<mapsto> ?c)\<rparr>"
  let ?w2 = "(tick W ?w1)\<lparr>cl_remote := (cl_remote (tick W ?w1))(?u \<mapsto> ?c)\<rparr>"
  obtain us where "write_local W ?p ?c w = (Inr (), us @ [?w1])" using write_local_last [OF works(2)] by blast
  moreover have "s3_put W ?p ?u ?w1 = (Inr (), [tick W ?w1, ?w2])" by (rule s3_put_works) (simp_all add: works)
  moreover obtain ws where "wait_poll (poll L W request (aj_Path j)) k ?w2 = (Inr (result_path j purpose), ws)"
      "cl_local (last (?w2 # ws)) (result_path j purpose) = Some content"
    using polls_return [OF assms(2,3,4) newRequestForPurpose_for [OF assms(1)], of ?w2 k] assms(5) by auto
  ultimately show ?thesis
    unfolding requestAndWaitForPurpose_def assms(1) sum.case Let_def tr_seq_def tr_bind_def by simp
qed


section \<open>A concrete job\<close>

definition demo_analysis :: analysis_job where
  "demo_analysis = \<lparr>aj_S3Prefix = ''s3://w/'', aj_S3Destination = ''s3://d'', aj_ID = demo_zmap, aj_Path = ''/m''\<rparr>"

definition demo_analysis_request :: analysis_request where
  "demo_analysis_request =
     \<lparr>ar_Version = 2, ar_JobID = demo_zmap, ar_Protocol = ''icmp'', ar_MeasurementID = demo_zmap,
      ar_IPIDURI = ''s3://d/'' @ demo_zmap @ ''/ipid.pq'', ar_SnapshotURI = ''s3://d/'' @ demo_zmap @ ''/ipid.snapshot.yaml'',
      ar_ResultURI = ''s3://d/'' @ demo_zmap @ ''/zmap_unclassified.pq'',
      ar_DoneURI = ''s3://w/jobs/'' @ demo_zmap @ ''/done.json'', ar_FailedURI = ''s3://w/jobs/'' @ demo_zmap @ ''/failed.json'',
      ar_CreatedAt = ''now'', ar_Purpose = PurposeRTUnclassified, ar_MaximumTargets = 0, ar_SelectionSeed = 0\<rparr>"

definition demo_analysis_library :: analysis_library where
  "demo_analysis_library =
     \<lparr>al_encode_request = ar_JobID,
      al_decode_done = (\<lambda>s. Some \<lparr>ad_Version = 2, ad_JobID = demo_zmap, ad_ResultURI = ar_ResultURI demo_analysis_request,
        ad_Rows = 1, ad_SizeBytes = 3, ad_SHA256 = ''AB''\<rparr>),
      al_decode_failed = (\<lambda>_. None), al_sha = (\<lambda>_. ''ab'')\<rparr>"

text \<open>The analysis ends at tick 5.\<close>

definition demo_s3_world :: s3_world where
  "demo_s3_world =
     \<lparr>wd_change = (\<lambda>n r. r(ar_FailedURI demo_analysis_request := None,
        ar_DoneURI demo_analysis_request := (if n < 5 then None else Some ''done''),
        ar_ResultURI demo_analysis_request := (if n < 5 then None else Some ''pqt''))),
      wd_access = (\<lambda>_. Works), wd_partial = (\<lambda>_. None), wd_ls = (\<lambda>r uri. if r uri = None then [] else uri),
      wd_file = (\<lambda>_. Works), wd_short = (\<lambda>_. 0)\<rparr>"

definition demo_client :: client where
  "demo_client = \<lparr>cl_local = Map.empty, cl_remote = Map.empty, cl_clock = 0\<rparr>"

lemma demo_analysis_facts:
  "newRequestForPurpose demo_analysis PurposeRTUnclassified 0 0 ''now'' = Inr demo_analysis_request"
  "world_works demo_s3_world demo_analysis_request" "delivers demo_s3_world demo_analysis_request ''done'' ''pqt'' 5"
  "marker_fits demo_analysis_library demo_analysis_request ''done'' ''pqt''"
  "result_path demo_analysis PurposeRTUnclassified = ''/m/zmap_unclassified.pq''"
proof -
  show "newRequestForPurpose demo_analysis PurposeRTUnclassified 0 0 ''now'' = Inr demo_analysis_request" by code_simp
  have "listed [] uri \<longleftrightarrow> False" if "uri \<noteq> []" for uri using that by (simp add: listed_def Fields_def)
  moreover have "listed (ar_FailedURI demo_analysis_request) (ar_FailedURI demo_analysis_request)"
    "listed (ar_DoneURI demo_analysis_request) (ar_DoneURI demo_analysis_request)" by code_simp+
  moreover have "ar_FailedURI demo_analysis_request \<noteq> []" "ar_DoneURI demo_analysis_request \<noteq> []" by code_simp+
  ultimately show "world_works demo_s3_world demo_analysis_request" by (auto simp: world_works_def demo_s3_world_def)
  have "ar_FailedURI demo_analysis_request \<noteq> ar_DoneURI demo_analysis_request"
    "ar_FailedURI demo_analysis_request \<noteq> ar_ResultURI demo_analysis_request"
    "ar_DoneURI demo_analysis_request \<noteq> ar_ResultURI demo_analysis_request" by code_simp+
  then show "delivers demo_s3_world demo_analysis_request ''done'' ''pqt'' 5" by (auto simp: delivers_def demo_s3_world_def)
  show "marker_fits demo_analysis_library demo_analysis_request ''done'' ''pqt''" by code_simp
  show "result_path demo_analysis PurposeRTUnclassified = ''/m/zmap_unclassified.pq''" by code_simp
qed


section \<open>Properties\<close>

text \<open>
  C9: While a request waits, and after a crash in any of its steps, the result file is the one of before or one that
  the downloaded completion marker of this job vouches for, in size and digest; what is returned is its path.\<close>

theorem result_is_verified:
  "(\<forall>w' \<in> set (snd (requestAndWaitForPurpose L W j purpose m seed now k w)).
      cl_local w' (result_path j purpose) = cl_local w (result_path j purpose) \<or> result_verified L j purpose (cl_local w'))
   \<and> (\<forall>path ws. requestAndWaitForPurpose L W j purpose m seed now k w = (Inr path, ws) \<longrightarrow>
      path = result_path j purpose \<and> result_verified L j purpose (cl_local (last (w # ws))))"
proof -
  let ?P = "on_local (\<lambda>l. l (result_path j purpose) = cl_local w (result_path j purpose))"
  let ?I = "on_local (\<lambda>l. l (result_path j purpose) = cl_local w (result_path j purpose) \<or> result_verified L j purpose l)"
  have other: "result_path j purpose \<noteq> in_dir (aj_Path j) ''analysis-request.json''"
    unfolding result_path_def by (rule paths_differ, rule result_names)
  have "traced_ok ?P (requestAndWaitForPurpose L W j purpose m seed now k) ?I
    (\<lambda>path w. path = result_path j purpose \<and> result_verified L j purpose (cl_local w))"
  proof (cases "newRequestForPurpose j purpose m seed now")
    case (Inl e)
    then show ?thesis unfolding requestAndWaitForPurpose_def by (simp add: traced_ok_fail)
  next
    case (Inr request)
    have written: "traced_ok ?P (write_local W (in_dir (aj_Path j) ''analysis-request.json'') c) ?I (\<lambda>_. ?P)" for c
      by (rule write_local_ok) (use other in simp_all)
    have put: "traced_ok ?P (s3_put W a b) ?I (\<lambda>_. ?P)" for a b by (rule s3_put_ok) simp
    show ?thesis
      unfolding requestAndWaitForPurpose_def Inr sum.case Let_def
      by (rule traced_ok_seq [OF written], rule traced_ok_seq [OF put],
          rule wait_poll_ok [OF poll_ok [OF newRequestForPurpose_for [OF Inr]]])
  qed
  note ok = this
  show ?thesis
    by (intro conjI ballI allI impI; (drule traced_ok_state [OF ok, rotated] | drule traced_ok_result [OF ok, rotated]); simp)
qed


theorem result_is_verified_witness:
  "\<exists>ws. requestAndWaitForPurpose demo_analysis_library demo_s3_world demo_analysis PurposeRTUnclassified 0 0 ''now'' 2 demo_client
      = (Inr ''/m/zmap_unclassified.pq'', ws)
    \<and> result_verified demo_analysis_library demo_analysis PurposeRTUnclassified (cl_local (last (demo_client # ws)))"
proof -
  obtain ws where ws: "requestAndWaitForPurpose demo_analysis_library demo_s3_world demo_analysis PurposeRTUnclassified 0 0 ''now'' 2 demo_client
      = (Inr ''/m/zmap_unclassified.pq'', ws)"
    using wait_returns [OF demo_analysis_facts(1-4), of demo_client 2] unfolding demo_analysis_facts(5)
    by (auto simp: demo_client_def)
  then show ?thesis
    using result_is_verified [of demo_analysis_library demo_s3_world demo_analysis PurposeRTUnclassified 0 0 "''now''" 2 demo_client]
    by blast
qed

text \<open>
  C10: An analysis that succeeds is noticed: if no command fails and a marker and a result that fit the request appear
  at tick \<open>M\<close>, then the wait returns the path of the result with its content, given enough polls before the deadline.\<close>

theorem analysis_returns:
  assumes "newRequestForPurpose j purpose m seed now = Inr request" "world_works W request"
    "delivers W request marker content M" "marker_fits L request marker content" "M \<le> cl_clock w + 2 * k + 2"
  shows "\<exists>ws. requestAndWaitForPurpose L W j purpose m seed now k w = (Inr (result_path j purpose), ws)
    \<and> cl_local (last (w # ws)) (result_path j purpose) = Some content"
  by (rule wait_returns) (rule assms)+

theorem analysis_returns_witness:
  "\<exists>ws. requestAndWaitForPurpose demo_analysis_library demo_s3_world demo_analysis PurposeRTUnclassified 0 0 ''now'' 2 demo_client
      = (Inr ''/m/zmap_unclassified.pq'', ws)
    \<and> cl_local (last (demo_client # ws)) ''/m/zmap_unclassified.pq'' = Some ''pqt''"
  using analysis_returns [OF demo_analysis_facts(1-4), of demo_client 2] unfolding demo_analysis_facts(5)
  by (simp add: demo_client_def)

end
