(* ===== verification/Interprotocol.thy ===== *)
theory Interprotocol
  imports S3Client Continental "HOL-Library.AList"
begin

text \<open>
  \<^verbatim>\<open>internal/interprotocolworkflow\<close>: the manifest of an inter-protocol run, its validation and its file; the wait for
  the analyses of the three protocols and the request for the target intersections; the publication of the final
  job and the wait for its result. A Go map is the list of its entries in the order in which it is ranged over.
\<close>

section \<open>The manifest\<close>

record group_run =
  gr_Protocols :: "string list"
  gr_TargetFile :: string
  gr_Status :: string
  gr_MeasurementID :: string
  gr_Measurements :: "(string \<times> string) list"
  gr_StartedAt :: string
  gr_CompletedAt :: string
  gr_Error :: string

text \<open>A group without a value is a nil pointer (\<open>null\<close> in the file).\<close>

record ip_manifest =
  im_Version :: int
  im_CampaignID :: string
  im_RunID :: string
  im_CreatedAt :: string
  im_UpdatedAt :: string
  im_Config :: string
  im_TargetsDir :: string
  im_TCPPort :: u16
  im_UDPPort :: u16
  im_BaseManifests :: "(string \<times> string) list"
  im_Groups :: "(string \<times> group_run option) list"

definition Version :: int where "Version = 1"
definition ManifestVersion :: int where "ManifestVersion = 2"

definition SafeID :: "string \<Rightarrow> bool" where
  "SafeID s \<longleftrightarrow> s \<noteq> [] \<and> list_all (\<lambda>c. id_char c \<or> c \<in> {CHR ''.'', CHR ''_'', CHR ''-''}) s"

definition map_get :: "(string \<times> string) list \<Rightarrow> string \<Rightarrow> string" where
  "map_get m k = (case map_of m k of None \<Rightarrow> [] | Some v \<Rightarrow> v)"

definition valid_ids :: "int \<Rightarrow> string \<Rightarrow> group_run \<Rightarrow> bool" where
  "valid_ids version grp g \<longleftrightarrow>
     (let named = ''interprotocol-'' @ grp @ ''_'' in
      if version = ManifestVersion then
        length (gr_Measurements g) = 2
        \<and> list_all (\<lambda>sample. let i = map_get (gr_Measurements g) sample in
             SafeID i \<and> has_prefix named i \<and> has_suffix (CHR ''_'' # sample) i) [''base'', ''mass'']
      else has_prefix named (gr_MeasurementID g))"

definition check_group :: "int \<Rightarrow> bool \<Rightarrow> string \<times> group_run option \<Rightarrow> manifest_error option" where
  "check_group version requireComplete = (\<lambda>(grp, state).
     if GroupProtocols grp = [] then Some (UnknownGroup grp)
     else case state of
       None \<Rightarrow> Some (WrongOrder grp)
     | Some g \<Rightarrow>
         if join_on (CHR '','') (gr_Protocols g) \<noteq> join_on (CHR '','') (GroupProtocols grp) then Some (WrongOrder grp)
         else if requireComplete \<and> (gr_Status g \<noteq> ''complete'' \<or> \<not> valid_ids version grp g) then Some (IncompleteGroup grp)
         else None)"

fun check_groups :: "int \<Rightarrow> bool \<Rightarrow> (string \<times> group_run option) list \<Rightarrow> manifest_error option" where
  "check_groups version requireComplete [] = None"
| "check_groups version requireComplete (g # gs) =
     (case check_group version requireComplete g of Some e \<Rightarrow> Some e | None \<Rightarrow> check_groups version requireComplete gs)"

definition ValidateManifest :: "ip_manifest \<Rightarrow> bool \<Rightarrow> manifest_error option" where
  "ValidateManifest m requireComplete =
     (if im_Version m \<noteq> Version \<and> im_Version m \<noteq> ManifestVersion then Some (UnsupportedVersion (im_Version m))
      else if \<not> SafeID (im_CampaignID m) \<or> \<not> SafeID (im_RunID m) then Some UnsafeIdentifiers
      else if im_Groups m = [] then Some NoGroups
      else check_groups (im_Version m) requireComplete (im_Groups m))"


section \<open>Files\<close>

record ip_config =
  ic_S3Destination :: string
  ic_S3Prefix :: string
  ic_PollInterval :: string
  ic_Timeout :: string

record ip_request =
  ir_Version :: int
  ir_JobID :: string
  ir_CampaignID :: string
  ir_ManifestURI :: string
  ir_IPIDPrefix :: string
  ir_ResultPrefix :: string
  ir_DoneURI :: string
  ir_FailedURI :: string
  ir_CreatedAt :: string

record ip_done =
  id_Version :: int
  id_JobID :: string
  id_CampaignID :: string
  id_ResultPrefix :: string
  id_Rows :: int
  id_CompletedAt :: string

record ip_failed =
  if_Version :: int
  if_JobID :: string
  if_Error :: string

record target_request =
  tq_Version :: int
  tq_JobID :: string
  tq_CampaignID :: string
  tq_Manifests :: "(string \<times> string) list"
  tq_TargetPrefix :: string
  tq_DoneURI :: string
  tq_FailedURI :: string
  tq_CreatedAt :: string
  tq_LocalReferences :: bool

record target_done =
  td_Version :: int
  td_JobID :: string
  td_CampaignID :: string
  td_TargetPrefix :: string
  td_Rows :: "(string \<times> int) list"
  td_CompletedAt :: string

text \<open>JSON and YAML, and \<open>time.ParseDuration\<close>.\<close>

record ip_library =
  il_decode_config :: "string \<Rightarrow> ip_config option"
  il_encode_manifest :: "ip_manifest \<Rightarrow> string"
  il_decode_manifest :: "string \<Rightarrow> ip_manifest option"
  il_encode_request :: "ip_request \<Rightarrow> string"
  il_decode_request :: "string \<Rightarrow> ip_request option"
  il_encode_targets :: "target_request \<Rightarrow> string"
  il_decode_targets :: "string \<Rightarrow> target_done option"
  il_decode_done :: "string \<Rightarrow> ip_done option"
  il_decode_failed :: "string \<Rightarrow> ip_failed option"
  il_duration :: "string \<Rightarrow> int option"

text \<open>\<open>filepath.Join(filepath.Dir(path), name)\<close> for a clean path.\<close>

definition beside :: "string \<Rightarrow> string \<Rightarrow> string" where
  "beside path name = rev (dropWhile (\<lambda>c. c \<noteq> CHR ''/'') (rev path)) @ name"

definition read_as :: "s3_world \<Rightarrow> (string \<Rightarrow> 'a option) \<Rightarrow> string \<Rightarrow> 'a workflow" where
  "read_as W decode path =
     tr_bind (read_local W path) (\<lambda>data. case decode data of None \<Rightarrow> tr_fail (Undecodable path) | Some v \<Rightarrow> tr_return v)"

definition validated :: "ip_manifest \<Rightarrow> bool \<Rightarrow> unit workflow" where
  "validated m requireComplete = (case ValidateManifest m requireComplete of None \<Rightarrow> tr_return () | Some e \<Rightarrow> tr_fail (BadManifest e))"

definition LoadManifest :: "ip_library \<Rightarrow> s3_world \<Rightarrow> string \<Rightarrow> ip_manifest workflow" where
  "LoadManifest L W path =
     tr_bind (read_as W (il_decode_manifest L) path) (\<lambda>m. tr_seq (validated m False) (tr_return m))"

text \<open>The directory is made, the new content is written next to the file and renamed to it.\<close>

definition SaveManifest :: "ip_library \<Rightarrow> s3_world \<Rightarrow> string \<Rightarrow> string \<Rightarrow> ip_manifest \<Rightarrow> ip_manifest workflow" where
  "SaveManifest L W now path m =
     tr_seq (validated m False)
       (let m' = m\<lparr>im_UpdatedAt := now\<rparr>; temporary = path @ ''.part'' in
        tr_seq (tr_check (wd_file W (beside path []) = Works) (LocalFile (beside path [])))
       (tr_seq (write_local W temporary (il_encode_manifest L m'))
       (tr_seq (rename_local W temporary path)
       (tr_return m'))))"


section \<open>Configuration\<close>

definition validateS3 :: "string \<Rightarrow> string \<Rightarrow> unit workflow" where
  "validateS3 value field = tr_check (requireS3 value) (BadConfig field)"

definition loadWorkflowConfig :: "ip_library \<Rightarrow> s3_world \<Rightarrow> string \<Rightarrow> ip_config workflow" where
  "loadWorkflowConfig L W path =
     tr_bind (read_as W (il_decode_config L) path) (\<lambda>c.
       tr_seq (validateS3 (ic_S3Destination c) ''upload.s3_destination'')
      (tr_seq (validateS3 (ic_S3Prefix c) ''analysis_workflow.s3_prefix'')
      (tr_return c)))"

definition positive_duration :: "ip_library \<Rightarrow> string \<Rightarrow> int \<Rightarrow> string \<Rightarrow> int workflow" where
  "positive_duration L value fallback field =
     (if value = [] then tr_return fallback
      else case il_duration L value of
        None \<Rightarrow> tr_fail (BadConfig field)
      | Some d \<Rightarrow> if d \<le> 0 then tr_fail (BadConfig field) else tr_return d)"

text \<open>Nanoseconds of 30 seconds and of 24 hours. What of the two durations matters is the number of polls.\<close>

definition check_durations :: "ip_library \<Rightarrow> ip_config \<Rightarrow> unit workflow" where
  "check_durations L c =
     tr_seq (positive_duration L (ic_PollInterval c) 30000000000 ''analysis_workflow.poll_interval'')
    (tr_seq (positive_duration L (ic_Timeout c) 86400000000000 ''analysis_workflow.timeout'')
    (tr_return ()))"


section \<open>Waiting for the analyses of the protocols\<close>

definition base_manifest_uri :: "string \<Rightarrow> bool" where
  "base_manifest_uri uri \<longleftrightarrow>
     (let parts = split_on (CHR ''/'') (trim_slashes uri); n = length parts in
      has_prefix ''s3://'' uri \<and> 3 \<le> n \<and> parts ! (n - 1) = ''manifest.json'' \<and> parts ! (n - 3) = ''analysis-jobs''
      \<and> SafeID (parts ! (n - 2)))"

definition base_protocols :: "string list" where "base_protocols = [''icmp'', ''tcp'', ''udp'']"

definition validateBaseManifests :: "(string \<times> string) list \<Rightarrow> workflow_error option" where
  "validateBaseManifests manifests =
     (if length manifests \<noteq> 3 then Some BaseCount
      else map_option BaseManifestURI (List.find (\<lambda>p. \<not> base_manifest_uri (map_get manifests p)) base_protocols))"

definition trim_suffix :: "string \<Rightarrow> string \<Rightarrow> string" where
  "trim_suffix s x = (if has_suffix x s then take (length s - length x) s else s)"

definition markerSibling :: "string \<Rightarrow> string \<Rightarrow> string" where
  "markerSibling manifestURI name = trim_suffix manifestURI ''/manifest.json'' @ ''/'' @ name"

text \<open>\<open>strings.Replace(s, old, new, 1)\<close>.\<close>

fun replace_first :: "string \<Rightarrow> string \<Rightarrow> string \<Rightarrow> string" where
  "replace_first old new [] = (if old = [] then new else [])"
| "replace_first old new (c # s) =
     (if has_prefix old (c # s) then new @ drop (length old) (c # s) else c # replace_first old new s)"

definition base_failed_uri :: "string \<Rightarrow> string \<Rightarrow> string" where
  "base_failed_uri marker uri =
     (let failedURI = markerSibling uri ''failed.json'' in
      if marker = ''strategies-ready.json'' then replace_first ''/analysis-jobs/'' ''/strategy-jobs/'' failedURI else failedURI)"

text \<open>One round over the manifests that are not ready; the result are those that still are not.\<close>

fun readiness_round :: "s3_world \<Rightarrow> string \<Rightarrow> (string \<times> string) list \<Rightarrow> (string \<times> string) list workflow" where
  "readiness_round W marker [] = tr_return []"
| "readiness_round W marker ((protocol, uri) # rest) =
     tr_bind (objectExists W (base_failed_uri marker uri)) (\<lambda>failed.
       if failed then tr_fail (BaseFailed (base_failed_uri marker uri))
       else tr_bind (objectExists W (markerSibling uri marker)) (\<lambda>done.
         tr_bind (readiness_round W marker rest) (\<lambda>remaining.
           tr_return (if done then remaining else (protocol, uri) # remaining))))"

text \<open>
  Rounds until all are ready, \<open>k\<close> more ticks before the deadline; \<open>ord k\<close> is the order of the round. The result is the
  number of ticks left, as the deadline is also that of what follows.\<close>

type_synonym map_order = "nat \<Rightarrow> (string \<times> string) list \<Rightarrow> (string \<times> string) list"

fun readiness_rounds :: "s3_world \<Rightarrow> map_order \<Rightarrow> string \<Rightarrow> (string \<times> string) list \<Rightarrow> nat \<Rightarrow> nat workflow" where
  "readiness_rounds W ord marker remaining k =
     (if remaining = [] then tr_return k
      else tr_bind (readiness_round W marker (ord k remaining)) (\<lambda>remaining'.
        if remaining' = [] then tr_return k
        else case k of 0 \<Rightarrow> tr_fail TimedOut | Suc k' \<Rightarrow> readiness_rounds W ord marker remaining' k'))"

declare readiness_rounds.simps [simp del]

definition waitForReadiness :: "s3_world \<Rightarrow> map_order \<Rightarrow> (string \<times> string) list \<Rightarrow> string \<Rightarrow> nat \<Rightarrow> nat workflow" where
  "waitForReadiness W ord manifests marker k =
     (if marker \<notin> {''done.json'', ''strategies-ready.json''} then tr_fail BadReadiness
      else readiness_rounds W ord marker manifests k)"


section \<open>The targets\<close>

definition target_request_of :: "ip_config \<Rightarrow> string \<Rightarrow> (string \<times> string) list \<Rightarrow> bool \<Rightarrow> string \<Rightarrow> target_request" where
  "target_request_of c runID manifests references now =
     (let jobPrefix = joinS3 (ic_S3Prefix c) [''interprotocol-target-jobs'', runID] in
      \<lparr>tq_Version = Version, tq_JobID = runID, tq_CampaignID = runID, tq_Manifests = manifests,
       tq_TargetPrefix = joinS3 jobPrefix [''targets''], tq_DoneURI = joinS3 jobPrefix [''done.json''],
       tq_FailedURI = joinS3 jobPrefix [''failed.json''], tq_CreatedAt = now, tq_LocalReferences = references\<rparr>)"

definition target_file_names :: "target_request \<Rightarrow> string list" where
  "target_file_names request =
     map (\<lambda>grp. grp @ ''-targets.pq'') OrderedGroups
     @ (if tq_LocalReferences request
        then map (\<lambda>(protocol, sample). ''reference-'' @ protocol @ ''-'' @ sample @ ''-targets.pq'')
               (List.product base_protocols [''base'', ''mass''])
        else [])"

definition poll_targets :: "ip_library \<Rightarrow> s3_world \<Rightarrow> target_request \<Rightarrow> string \<Rightarrow> string option workflow" where
  "poll_targets L W request runDirectory =
     tr_bind (objectExists W (tq_FailedURI request)) (\<lambda>failed.
       if failed then tr_fail (JobFailed (tq_FailedURI request))
       else tr_bind (objectExists W (tq_DoneURI request)) (\<lambda>doneExists.
         if \<not> doneExists then tr_return None
         else tr_bind (getJSON W (il_decode_targets L) (tq_DoneURI request) (in_dir runDirectory ''target-done.json'')) (\<lambda>d.
           if td_Version d \<noteq> Version \<or> td_JobID d \<noteq> tq_JobID request \<or> td_CampaignID d \<noteq> tq_JobID request
              \<or> td_TargetPrefix d \<noteq> tq_TargetPrefix request
             then tr_fail InvalidDoneMarker
           else let targetsDir = in_dir runDirectory ''targets'' in
             tr_seq (tr_check (wd_file W targetsDir = Works) (LocalFile targetsDir))
            (tr_seq (tr_each (\<lambda>name. s3_get W (joinS3 (tq_TargetPrefix request) [name]) (in_dir targetsDir name)) (target_file_names request))
            (tr_return (Some targetsDir))))))"

definition request_targets :: "ip_library \<Rightarrow> s3_world \<Rightarrow> ip_config \<Rightarrow> target_request \<Rightarrow> string \<Rightarrow> nat \<Rightarrow> string workflow" where
  "request_targets L W c request runDirectory k =
     (let requestPath = in_dir runDirectory ''target-request.json'';
          requestURI = joinS3 (joinS3 (ic_S3Prefix c) [''interprotocol-target-jobs'', tq_JobID request]) [''request.json''] in
      tr_seq (tr_check (wd_file W runDirectory = Works) (LocalFile runDirectory))
     (tr_seq (write_local W requestPath (il_encode_targets L request))
     (tr_seq (s3_put W requestPath requestURI)
     (wait_poll (poll_targets L W request runDirectory) k))))"

definition prepareTargetsReady ::
  "ip_library \<Rightarrow> s3_world \<Rightarrow> map_order \<Rightarrow> string \<Rightarrow> string \<Rightarrow> (string \<times> string) list \<Rightarrow> string \<Rightarrow> string \<Rightarrow> bool \<Rightarrow> string \<Rightarrow> nat
     \<Rightarrow> string workflow" where
  "prepareTargetsReady L W ord configPath runID manifests runDirectory marker references now k =
     tr_seq (tr_check (SafeID runID) BadRunID)
       (case validateBaseManifests manifests of
          Some e \<Rightarrow> tr_fail e
        | None \<Rightarrow>
            tr_bind (loadWorkflowConfig L W configPath) (\<lambda>c.
              tr_seq (check_durations L c)
             (tr_bind (waitForReadiness W ord manifests marker k) (\<lambda>left.
               request_targets L W c (target_request_of c runID manifests references now) runDirectory left))))"


section \<open>The final job\<close>

definition ip_request_of :: "ip_config \<Rightarrow> ip_manifest \<Rightarrow> string \<Rightarrow> ip_request" where
  "ip_request_of c m now =
     (let jobPrefix = joinS3 (ic_S3Prefix c) [''interprotocol-jobs'', im_RunID m] in
      \<lparr>ir_Version = Version, ir_JobID = im_RunID m, ir_CampaignID = im_CampaignID m,
       ir_ManifestURI = joinS3 jobPrefix [''manifest.json''], ir_IPIDPrefix = trim_slashes (ic_S3Destination c),
       ir_ResultPrefix = joinS3 jobPrefix [''results''], ir_DoneURI = joinS3 jobPrefix [''done.json''],
       ir_FailedURI = joinS3 jobPrefix [''failed.json''], ir_CreatedAt = now\<rparr>)"

definition ip_request_uri :: "ip_config \<Rightarrow> ip_manifest \<Rightarrow> string" where
  "ip_request_uri c m = joinS3 (joinS3 (ic_S3Prefix c) [''interprotocol-jobs'', im_RunID m]) [''request.json'']"

definition publish_final :: "ip_library \<Rightarrow> s3_world \<Rightarrow> string \<Rightarrow> string \<Rightarrow> string \<Rightarrow> string workflow" where
  "publish_final L W configPath manifestPath now =
     tr_bind (LoadManifest L W manifestPath) (\<lambda>m.
       tr_seq (validated m True)
      (tr_bind (loadWorkflowConfig L W configPath) (\<lambda>c.
        let request = ip_request_of c m now; requestPath = beside manifestPath ''request.json'' in
        tr_seq (write_local W requestPath (il_encode_request L request))
       (tr_seq (s3_put W manifestPath (ir_ManifestURI request))
       (tr_seq (s3_put W requestPath (ip_request_uri c m))
       (tr_return (ip_request_uri c m)))))))"

definition poll_final :: "ip_library \<Rightarrow> s3_world \<Rightarrow> ip_request \<Rightarrow> string \<Rightarrow> ip_done option workflow" where
  "poll_final L W request manifestPath =
     tr_bind (objectExists W (ir_FailedURI request)) (\<lambda>failedExists.
       if failedExists then
         tr_bind (getJSON W (il_decode_failed L) (ir_FailedURI request) (beside manifestPath ''analysis-failed.json'')) (\<lambda>failed.
           tr_fail (JobFailed (if_Error failed)))
       else tr_bind (objectExists W (ir_DoneURI request)) (\<lambda>doneExists.
         if \<not> doneExists then tr_return None
         else tr_bind (getJSON W (il_decode_done L) (ir_DoneURI request) (beside manifestPath ''analysis-done.json'')) (\<lambda>d.
           if id_Version d \<noteq> Version \<or> id_JobID d \<noteq> ir_JobID request \<or> id_CampaignID d \<noteq> ir_CampaignID request
              \<or> id_ResultPrefix d \<noteq> ir_ResultPrefix request
             then tr_fail InvalidDoneMarker
           else tr_return (Some d))))"

definition wait_final :: "ip_library \<Rightarrow> s3_world \<Rightarrow> string \<Rightarrow> string \<Rightarrow> nat \<Rightarrow> ip_done workflow" where
  "wait_final L W configPath manifestPath k =
     tr_bind (read_as W (il_decode_request L) (beside manifestPath ''request.json'')) (\<lambda>request.
       tr_bind (read_as W (il_decode_config L) configPath) (\<lambda>c.
         tr_seq (check_durations L c) (wait_poll (poll_final L W request manifestPath) k)))"


section \<open>A run on one machine\<close>

text \<open>
  \<^verbatim>\<open>cmd/run-interprotocol-campaign\<close>: the eight measurements of a run, the manifest saved around each. The measurement
  command gets its arguments and gives an error or its output; it may change files and objects. The target files are
  named in the manifest by their absolute paths and are the same files as those below the run directory.\<close>

record ip_tools =
  it_measure :: "string list \<Rightarrow> client \<Rightarrow> (string + string) \<times> client"
  it_now :: "client \<Rightarrow> string"
  it_abs :: "string \<Rightarrow> string"

definition trim_white :: "string \<Rightarrow> string" where
  "trim_white s = rev (dropWhile white (rev (dropWhile white s)))"

definition measurementID :: "string \<Rightarrow> string \<Rightarrow> string option" where
  "measurementID output name =
     List.find (\<lambda>candidate. has_prefix (''interprotocol-'' @ name @ ''_'') candidate
                 \<and> CHR '' '' \<notin> set candidate \<and> char_of (9 :: nat) \<notin> set candidate)
       (map trim_white (rev (split_on (char_of (10 :: nat)) (trim_white output))))"

definition pending_group :: "ip_tools \<Rightarrow> string \<Rightarrow> string \<Rightarrow> group_run" where
  "pending_group T targetsDir name =
     \<lparr>gr_Protocols = GroupProtocols name, gr_TargetFile = it_abs T (in_dir targetsDir (name @ ''-targets.pq'')),
      gr_Status = ''pending'', gr_MeasurementID = [], gr_Measurements = [], gr_StartedAt = [], gr_CompletedAt = [], gr_Error = []\<rparr>"

definition new_manifest :: "ip_tools \<Rightarrow> string \<Rightarrow> string \<Rightarrow> (string \<times> string) list \<Rightarrow> string \<Rightarrow> string \<Rightarrow> ip_manifest" where
  "new_manifest T runID configPath manifests targetsDir now =
     \<lparr>im_Version = ManifestVersion, im_CampaignID = runID, im_RunID = runID, im_CreatedAt = now, im_UpdatedAt = [],
      im_Config = configPath, im_TargetsDir = targetsDir, im_TCPPort = 80, im_UDPPort = 53, im_BaseManifests = manifests,
      im_Groups = map (\<lambda>name. (name, Some (pending_group T targetsDir name))) OrderedGroups\<rparr>"

definition update_group :: "string \<Rightarrow> (group_run \<Rightarrow> group_run) \<Rightarrow> ip_manifest \<Rightarrow> ip_manifest" where
  "update_group name f m = m\<lparr>im_Groups := map (\<lambda>(n, g). (n, if n = name then map_option f g else g)) (im_Groups m)\<rparr>"

definition group_of :: "ip_manifest \<Rightarrow> string \<Rightarrow> group_run option" where
  "group_of m name = (case map_of (im_Groups m) name of Some g \<Rightarrow> g | None \<Rightarrow> None)"

definition map_put :: "string \<Rightarrow> string \<Rightarrow> (string \<times> string) list \<Rightarrow> (string \<times> string) list" where
  "map_put k v m = AList.update k v m"

definition measure_args :: "string \<Rightarrow> string \<Rightarrow> group_run \<Rightarrow> string list" where
  "measure_args configPath kind g =
     [''--sample'', kind, ''--config'', configPath, ''--target-file'', gr_TargetFile g,
      ''--protocols'', join_on (CHR '','') (gr_Protocols g), ''--tcp-port'', ''80'', ''--udp-port'', ''53'', ''--print-id'']"

definition run_tool :: "ip_tools \<Rightarrow> string list \<Rightarrow> (string + string) workflow" where
  "run_tool T args = tr_bind (tr_get (\<lambda>w. fst (it_measure T args w))) (\<lambda>out.
     tr_seq (tr_update (\<lambda>w. snd (it_measure T args w))) (tr_return out))"

definition measured_group :: "string \<Rightarrow> string \<Rightarrow> string \<Rightarrow> group_run \<Rightarrow> group_run" where
  "measured_group kind i now g =
     g\<lparr>gr_Measurements := map_put kind i (gr_Measurements g),
       gr_Status := (if kind = ''mass'' then ''complete'' else ''base-complete''), gr_CompletedAt := now\<rparr>"

definition measure_group ::
  "ip_library \<Rightarrow> s3_world \<Rightarrow> ip_tools \<Rightarrow> string \<Rightarrow> string \<Rightarrow> string \<Rightarrow> string \<Rightarrow> ip_manifest \<Rightarrow> ip_manifest workflow" where
  "measure_group L W T configPath manifestPath kind name m =
     (let save = (\<lambda>m. tr_bind (tr_get (it_now T)) (\<lambda>now. SaveManifest L W now manifestPath m)) in
      tr_bind (tr_get (it_now T)) (\<lambda>started.
      tr_bind (save (update_group name (\<lambda>g. g\<lparr>gr_Status := ''running'', gr_StartedAt := started\<rparr>) m)) (\<lambda>m1.
        case group_of m1 name of
          None \<Rightarrow> tr_fail (NilGroup name)
        | Some g \<Rightarrow>
            tr_bind (run_tool T (measure_args configPath kind g)) (\<lambda>out.
              case out of
                Inl e \<Rightarrow>
                  tr_seq (tr_ignore (save (update_group name (\<lambda>g. g\<lparr>gr_Status := ''failed'', gr_Error := e\<rparr>) m1)))
                    (tr_fail (MeasurementFailed name kind))
              | Inr output \<Rightarrow>
                  (case measurementID output name of
                     None \<Rightarrow> tr_fail (NoIdentifier name)
                   | Some i \<Rightarrow> tr_bind (tr_get (it_now T)) (\<lambda>completed.
                       save (update_group name (measured_group kind i completed) m1)))))))"

fun measure_groups ::
  "ip_library \<Rightarrow> s3_world \<Rightarrow> ip_tools \<Rightarrow> string \<Rightarrow> string \<Rightarrow> (string \<times> string) list \<Rightarrow> ip_manifest \<Rightarrow> ip_manifest workflow" where
  "measure_groups L W T configPath manifestPath [] m = tr_return m"
| "measure_groups L W T configPath manifestPath ((kind, name) # rest) m =
     tr_bind (measure_group L W T configPath manifestPath kind name m) (\<lambda>m'.
       measure_groups L W T configPath manifestPath rest m')"

definition stat_local :: "s3_world \<Rightarrow> string \<Rightarrow> unit workflow" where
  "stat_local W path = tr_bind (tr_get (\<lambda>w. cl_local w path)) (\<lambda>c. tr_check (c \<noteq> None) (LocalFile path))"

definition run_measurements_of ::
  "ip_library \<Rightarrow> s3_world \<Rightarrow> ip_tools \<Rightarrow> string \<Rightarrow> string \<Rightarrow> (string \<times> string) list \<Rightarrow> string \<Rightarrow> string \<Rightarrow> ip_manifest workflow" where
  "run_measurements_of L W T configPath runID manifests runDirectory targetsDir =
     tr_bind (tr_get (it_now T)) (\<lambda>now.
       let manifestPath = in_dir runDirectory ''manifest.json'' in
       tr_seq (tr_each (\<lambda>name. stat_local W (in_dir targetsDir (name @ ''-targets.pq''))) OrderedGroups)
      (tr_bind (tr_bind (tr_get (it_now T)) (\<lambda>now'. SaveManifest L W now' manifestPath
          (new_manifest T runID configPath manifests targetsDir now))) (\<lambda>m.
       measure_groups L W T configPath manifestPath (samples_of OrderedGroups) m)))"

text \<open>\<open>k\<close> and \<open>k'\<close>: the polls of the two waits.\<close>

definition run_campaign ::
  "ip_library \<Rightarrow> s3_world \<Rightarrow> ip_tools \<Rightarrow> map_order \<Rightarrow> string \<Rightarrow> string \<Rightarrow> (string \<times> string) list \<Rightarrow> string \<Rightarrow> nat \<Rightarrow> nat \<Rightarrow> ip_done workflow" where
  "run_campaign L W T ord configPath runID manifests runDirectory k k' =
     tr_bind (tr_get (it_now T)) (\<lambda>created.
     tr_bind (prepareTargetsReady L W ord configPath runID manifests runDirectory ''done.json'' False created k) (\<lambda>targetsDir.
     tr_bind (run_measurements_of L W T configPath runID manifests runDirectory targetsDir) (\<lambda>_.
     tr_bind (tr_get (it_now T)) (\<lambda>now.
     tr_bind (publish_final L W configPath (in_dir runDirectory ''manifest.json'') now) (\<lambda>_.
     wait_final L W configPath (in_dir runDirectory ''manifest.json'') k')))))"

end
