(* ===== verification/Interprotocol_Safety.thy ===== *)
theory Interprotocol_Safety
  imports Interprotocol "HOL-Library.Multiset"
begin

text \<open>
  Properties of the inter-protocol workflow: the manifest on disk is always a whole one, targets are requested only
  after the analyses of all protocols, the wait for them ends, and the result of a run is its own.
\<close>

section \<open>Saving\<close>

lemma part_differs [simp]: "path @ ''.part'' \<noteq> path" "path \<noteq> path @ ''.part''"
  by simp_all

lemma validated_Inr [simp]: "validated m b w = (Inr u, ws) \<longleftrightarrow> ValidateManifest m b = None \<and> ws = []"
  by (auto simp: validated_def tr_Inr split: option.split)

lemma validated_run: "validated m b w = (case ValidateManifest m b of None \<Rightarrow> (Inr (), []) | Some e \<Rightarrow> (Inl (BadManifest e), []))"
  by (auto simp: validated_def tr_return_def tr_fail_def split: option.split)

lemma validated_ok: "traced_ok P (validated m b) I (\<lambda>_ w. P w \<and> ValidateManifest m b = None)"
  by (auto simp: traced_ok_def validated_run split: option.split)

lemma ValidateManifest_updated [simp]: "ValidateManifest (m\<lparr>im_UpdatedAt := now\<rparr>) b = ValidateManifest m b"
  by (simp add: ValidateManifest_def)

text \<open>What a load finds depends on the file alone.\<close>

definition loaded :: "ip_library \<Rightarrow> s3_world \<Rightarrow> string \<Rightarrow> string option \<Rightarrow> workflow_error + ip_manifest" where
  "loaded L W path content =
     (if wd_file W path \<noteq> Works then Inl (LocalFile path)
      else case content of
        None \<Rightarrow> Inl (LocalFile path)
      | Some data \<Rightarrow> (case il_decode_manifest L data of
            None \<Rightarrow> Inl (Undecodable path)
          | Some m \<Rightarrow> (case ValidateManifest m False of None \<Rightarrow> Inr m | Some e \<Rightarrow> Inl (BadManifest e))))"

lemma LoadManifest_run: "LoadManifest L W path w = (loaded L W path (cl_local w path), [])"
  by (auto simp: LoadManifest_def loaded_def read_as_def read_local_def tr_seq_def tr_bind_def tr_check_def tr_get_def
      tr_return_def tr_fail_def validated_run split: option.split)

lemma SaveManifest_ok:
  fixes before :: "string option"
  shows "traced_ok (on_local (\<lambda>l. l path = before)) (SaveManifest L W now path m)
    (on_local (\<lambda>l. l path = before \<or>
       (l path = Some (il_encode_manifest L (m\<lparr>im_UpdatedAt := now\<rparr>)) \<and> wd_file W path = Works \<and> ValidateManifest m False = None)))
    (\<lambda>m' w. m' = m\<lparr>im_UpdatedAt := now\<rparr> \<and> cl_local w path = Some (il_encode_manifest L m') \<and> wd_file W path = Works
       \<and> ValidateManifest m False = None)"
proof -
  let ?m = "m\<lparr>im_UpdatedAt := now\<rparr>" and ?t = "path @ ''.part''"
  let ?P = "\<lambda>l. l path = before"
  let ?new = "\<lambda>l. l path = Some (il_encode_manifest L ?m) \<and> wd_file W path = Works \<and> ValidateManifest m False = None"
  let ?I = "on_local (\<lambda>l. ?P l \<or> ?new l)"
  let ?T = "\<lambda>l. ?P l \<and> ValidateManifest m False = None \<and> l ?t = Some (il_encode_manifest L ?m)"
  have written: "traced_ok (on_local (\<lambda>l. ?P l \<and> ValidateManifest m False = None)) (write_local W ?t (il_encode_manifest L ?m)) ?I
      (\<lambda>_. on_local ?T)"
    by (rule write_local_ok) simp_all
  have install: "traced_ok (on_local ?T) (rename_local W ?t path) ?I (\<lambda>_. on_local ?new)"
    unfolding rename_local_def
    by (rule traced_ok_seq [where Q = "\<lambda>w. on_local ?T w \<and> wd_file W path = Works"], rule traced_ok_check, simp,
        rule traced_ok_update) simp
  show ?thesis
    unfolding SaveManifest_def Let_def
    apply (rule traced_ok_seq [where Q = "on_local (\<lambda>l. ?P l \<and> ValidateManifest m False = None)"])
     apply (rule traced_ok_post [OF validated_ok], simp, assumption)
    apply (rule traced_ok_seq [where Q = "on_local (\<lambda>l. ?P l \<and> ValidateManifest m False = None)"])
     apply (rule traced_ok_check, assumption)
    apply (rule traced_ok_seq [OF written])
    apply (rule traced_ok_seq [OF install])
    apply (rule traced_ok_return, simp)
    done
qed

text \<open>
  C14: Saving the manifest is atomic, although writing a file is not: a crash in the middle of \<open>os.WriteFile\<close>
  leaves any prefix of its content, and so does a write that fails. Whenever the save stops, the manifest that
  is then loaded from its path is the one of before or the whole new one, never a part of it; after a save that
  returns it is the new one. What is assumed of JSON is that the new manifest is decoded from its encoding.\<close>

theorem SaveManifest_atomic:
  assumes "il_decode_manifest L (il_encode_manifest L (m\<lparr>im_UpdatedAt := now\<rparr>)) = Some (m\<lparr>im_UpdatedAt := now\<rparr>)"
  shows "(\<forall>w' \<in> set (snd (SaveManifest L W now path m w)).
      fst (LoadManifest L W path w') \<in> {fst (LoadManifest L W path w), Inr (m\<lparr>im_UpdatedAt := now\<rparr>)})
    \<and> (\<forall>m' ws. SaveManifest L W now path m w = (Inr m', ws) \<longrightarrow>
      m' = m\<lparr>im_UpdatedAt := now\<rparr> \<and> fst (LoadManifest L W path (last (w # ws))) = Inr m')"
proof -
  note ok = SaveManifest_ok [of path "cl_local w path" L W now m]
  have new: "loaded L W path (Some (il_encode_manifest L (m\<lparr>im_UpdatedAt := now\<rparr>))) = Inr (m\<lparr>im_UpdatedAt := now\<rparr>)"
    if "wd_file W path = Works" "ValidateManifest m False = None"
    using assms that by (simp add: loaded_def)
  show ?thesis
    unfolding LoadManifest_run fst_conv
    by (intro conjI ballI allI impI; (drule traced_ok_state [OF ok, rotated] | drule traced_ok_result [OF ok, rotated]))
       (auto simp: new)
qed



section \<open>Readiness\<close>

text \<open>The listing of some state on the way showed the object.\<close>

definition seen :: "s3_world \<Rightarrow> client list \<Rightarrow> string \<Rightarrow> bool" where
  "seen W ws uri \<longleftrightarrow> (\<exists>v \<in> set ws. listed (wd_ls W (cl_remote v) uri) uri)"

lemma seen_append [simp]: "seen W (us @ vs) uri \<longleftrightarrow> seen W us uri \<or> seen W vs uri"
  by (auto simp: seen_def)

lemma objectExists_run:
  "objectExists W uri w =
     (if wd_access W (cl_clock w) = Works then Inr (listed (wd_ls W (cl_remote (tick W w)) uri) uri) else Inl (ListFailed uri), [tick W w])"
  by (simp add: objectExists_def command_def tr_bind_def tr_seq_def tr_get_def tr_update_def tr_fail_def)

lemma objectExists_seen: "objectExists W uri w = (Inr True, ws) \<Longrightarrow> seen W ws uri"
  by (auto simp: objectExists_run seen_def split: if_splits)

lemma readiness_round_seen:
  "readiness_round W marker xs w = (Inr rem, ws) \<Longrightarrow>
     set rem \<subseteq> set xs \<and> (\<forall>(p, u) \<in> set xs. (p, u) \<in> set rem \<or> seen W ws (markerSibling u marker))"
proof (induction W marker xs arbitrary: w rem ws rule: readiness_round.induct)
  case (1 W marker)
  then show ?case by (simp add: tr_Inr)
next
  case (2 W marker p u rest)
  obtain a us vs where a: "objectExists W (base_failed_uri marker u) w = (Inr a, us)" "ws = us @ vs"
    "(if a then tr_fail (BaseFailed (base_failed_uri marker u))
      else tr_bind (objectExists W (markerSibling u marker)) (\<lambda>done.
        tr_bind (readiness_round W marker rest) (\<lambda>remaining. tr_return (if done then remaining else (p, u) # remaining)))) (last (w # us))
      = (Inr rem, vs)"
    using "2.prems" unfolding readiness_round.simps by (rule tr_bind_InrE)
  then have "\<not> a" by (auto simp: tr_Inr split: if_splits)
  with a obtain b us' vs' where b: "objectExists W (markerSibling u marker) (last (w # us)) = (Inr b, us')" "vs = us' @ vs'"
    "tr_bind (readiness_round W marker rest) (\<lambda>remaining. tr_return (if b then remaining else (p, u) # remaining))
       (last (last (w # us) # us')) = (Inr rem, vs')"
    by (auto elim: tr_bind_InrE simp del: last.simps)
  from b(3) obtain r us2 where r: "readiness_round W marker rest (last (last (w # us) # us')) = (Inr r, us2)" "vs' = us2"
    "rem = (if b then r else (p, u) # r)"
    by (auto elim!: tr_bind_InrE simp: tr_Inr simp del: last.simps)
  have "set r \<subseteq> set rest \<and> (\<forall>(p, u) \<in> set rest. (p, u) \<in> set r \<or> seen W us2 (markerSibling u marker))"
    by (rule "2.IH" [OF \<open>\<not> a\<close> r(1)])
  moreover have "b \<Longrightarrow> seen W us' (markerSibling u marker)" using b(1) objectExists_seen by (cases b) auto
  ultimately show ?case using a(2) b(2) r(2,3) by (auto split: if_splits)
qed

definition permutes :: "map_order \<Rightarrow> bool" where
  "permutes ord \<longleftrightarrow> (\<forall>k xs. mset (ord k xs) = mset xs)"

lemma permutes_set: "permutes ord \<Longrightarrow> set (ord k xs) = set xs" "permutes ord \<Longrightarrow> (ord k xs = []) = (xs = [])"
  unfolding permutes_def by (metis set_mset_mset, metis mset_zero_iff)

lemma readiness_rounds_seen:
  "permutes ord \<Longrightarrow> readiness_rounds W ord marker xs k w = (Inr n, ws) \<Longrightarrow> (p, u) \<in> set xs \<Longrightarrow> seen W ws (markerSibling u marker)"
proof (induction k arbitrary: xs w ws)
  case 0
  then have "xs \<noteq> []" by auto
  then obtain rem us vs where rem: "readiness_round W marker (ord 0 xs) w = (Inr rem, us)" "ws = us @ vs"
      "(if rem = [] then tr_return 0 else tr_fail TimedOut) (last (w # us)) = (Inr n, vs)"
  proof -
    have "tr_bind (readiness_round W marker (ord 0 xs)) (\<lambda>rem. if rem = [] then tr_return 0 else tr_fail TimedOut) w = (Inr n, ws)"
      using "0.prems"(2) \<open>xs \<noteq> []\<close> by (simp add: readiness_rounds.simps [of _ _ _ _ 0] cong: if_cong)
    then show thesis by (rule tr_bind_InrE) (rule that)
  qed
  then have "rem = []" by (auto simp: tr_Inr split: if_splits)
  then show ?case using readiness_round_seen [OF rem(1)] permutes_set(1) [OF "0.prems"(1)] "0.prems"(3) rem(2) by auto
next
  case (Suc k)
  then have "xs \<noteq> []" by auto
  then obtain rem us vs where rem: "readiness_round W marker (ord (Suc k) xs) w = (Inr rem, us)" "ws = us @ vs"
      "(if rem = [] then tr_return (Suc k) else readiness_rounds W ord marker rem k) (last (w # us)) = (Inr n, vs)"
  proof -
    have "tr_bind (readiness_round W marker (ord (Suc k) xs))
        (\<lambda>rem. if rem = [] then tr_return (Suc k) else readiness_rounds W ord marker rem k) w = (Inr n, ws)"
      using Suc.prems(2) \<open>xs \<noteq> []\<close> by (simp add: readiness_rounds.simps [of _ _ _ _ "Suc k"] cong: if_cong)
    then show thesis by (rule tr_bind_InrE) (rule that)
  qed
  have first: "(p, u) \<in> set rem \<or> seen W us (markerSibling u marker)"
    using readiness_round_seen [OF rem(1)] permutes_set(1) [OF Suc.prems(1)] Suc.prems(3) by auto
  show ?case
  proof (cases "(p, u) \<in> set rem")
    case True
    then have "rem \<noteq> []" by auto
    then have "readiness_rounds W ord marker rem k (last (w # us)) = (Inr n, vs)" using rem(3) by (simp del: last.simps)
    from Suc.IH [OF Suc.prems(1) this True] rem(2) show ?thesis by simp
  qed (use first rem(2) in simp)
qed

text \<open>Waiting leaves the local files alone.\<close>

lemma objectExists_local: "traced_ok (on_local P) (objectExists W uri) (on_local P) (\<lambda>_. on_local P)"
  by (rule objectExists_ok) simp

lemma readiness_round_local:
  "traced_ok (on_local P) (readiness_round W marker xs) (on_local P) (\<lambda>_. on_local P)"
proof (induction W marker xs rule: readiness_round.induct)
  case (1 W marker)
  show ?case by (simp add: traced_ok_return)
next
  case (2 W marker p u rest)
  show ?case
    unfolding readiness_round.simps
    by (rule traced_ok_bind [OF objectExists_local], rule traced_ok_if, rule traced_ok_fail,
        rule traced_ok_bind [OF objectExists_local], rule traced_ok_bind [OF "2.IH"], assumption, rule traced_ok_return)
qed

lemma readiness_rounds_local:
  "traced_ok (on_local P) (readiness_rounds W ord marker xs k) (on_local P) (\<lambda>_. on_local P)"
proof (induction k arbitrary: xs)
  case 0
  show ?case
    by (subst readiness_rounds.simps)
       (auto intro!: traced_ok_return traced_ok_fail traced_ok_bind [OF readiness_round_local])
next
  case (Suc k)
  show ?case
    by (subst readiness_rounds.simps)
       (auto intro!: traced_ok_return Suc.IH traced_ok_bind [OF readiness_round_local])
qed



section \<open>Targets\<close>

text \<open>Reading the configuration changes nothing.\<close>

lemma read_as_states [simp]: "snd (read_as W decode path w) = []"
  by (simp add: read_as_def read_local_def tr_seq_def tr_bind_def tr_check_def tr_return_def tr_fail_def tr_get_def
      split: option.split)

lemma validateS3_run: "validateS3 v field w = (if requireS3 v then Inr () else Inl (BadConfig field), [])"
  by (simp add: validateS3_def tr_check_def tr_return_def tr_fail_def)

lemma tr_bind_quiet: "snd (m w) = [] \<Longrightarrow> (\<And>a. snd (f a w) = []) \<Longrightarrow> snd (tr_bind m f w) = []"
  by (auto simp: tr_bind_def split: prod.split sum.split)

lemma tr_seq_quiet: "snd (m w) = [] \<Longrightarrow> snd (n w) = [] \<Longrightarrow> snd (tr_seq m n w) = []"
  unfolding tr_seq_def by (rule tr_bind_quiet)

lemma tr_seq_return: "tr_seq (tr_return a) m = m"
  by (rule ext) (simp add: tr_seq_def tr_bind_def tr_return_def split: prod.split)

lemma loadWorkflowConfig_states [simp]: "snd (loadWorkflowConfig L W path w) = []"
  unfolding loadWorkflowConfig_def
  by (intro tr_bind_quiet tr_seq_quiet) (simp_all add: validateS3_run tr_return_def)

lemma check_durations_states [simp]: "snd (check_durations L c w) = []"
  unfolding check_durations_def positive_duration_def
  by (intro tr_seq_quiet) (simp_all add: tr_return_def tr_fail_def split: option.split)

lemma tr_bind_quiet_cases:
  assumes "snd (m w) = []"
  obtains e where "m w = (Inl e, [])" "tr_bind m f w = (Inl e, [])" | a where "m w = (Inr a, [])" "tr_bind m f w = f a w"
proof (cases "fst (m w)")
  case (Inl e)
  then have "m w = (Inl e, [])" using assms by (metis prod.collapse)
  then show thesis using that(1) by (simp add: tr_bind_def)
next
  case (Inr a)
  then have "m w = (Inr a, [])" using assms by (metis prod.collapse)
  then show thesis using that(2) by (simp add: tr_bind_def split: prod.split)
qed

lemma prepareTargetsReady_cases:
  obtains e where "prepareTargetsReady L W ord configPath runID manifests runDirectory marker references now k w = (Inl e, [])"
  | c where "SafeID runID" "validateBaseManifests manifests = None" "loadWorkflowConfig L W configPath w = (Inr c, [])"
      "prepareTargetsReady L W ord configPath runID manifests runDirectory marker references now k w =
         tr_bind (waitForReadiness W ord manifests marker k) (\<lambda>left.
           request_targets L W c (target_request_of c runID manifests references now) runDirectory left) w"
proof -
  let ?run = "\<lambda>c. tr_bind (waitForReadiness W ord manifests marker k) (\<lambda>left.
           request_targets L W c (target_request_of c runID manifests references now) runDirectory left)"
  show thesis
  proof (cases "SafeID runID \<and> validateBaseManifests manifests = None")
    case False
    then have "\<exists>e. prepareTargetsReady L W ord configPath runID manifests runDirectory marker references now k w = (Inl e, [])"
      by (auto simp: prepareTargetsReady_def tr_seq_def tr_bind_def tr_check_def tr_return_def tr_fail_def split: option.splits)
    then show thesis using that(1) by blast
  next
    case True
    then have start: "prepareTargetsReady L W ord configPath runID manifests runDirectory marker references now k w =
        tr_bind (loadWorkflowConfig L W configPath) (\<lambda>c. tr_seq (check_durations L c) (?run c)) w"
      by (simp add: prepareTargetsReady_def tr_check_def tr_seq_return)
    show thesis
    proof (rule tr_bind_quiet_cases [of "loadWorkflowConfig L W configPath" w "\<lambda>c. tr_seq (check_durations L c) (?run c)"])
      show "snd (loadWorkflowConfig L W configPath w) = []" by simp
    next
      fix e
      assume "tr_bind (loadWorkflowConfig L W configPath) (\<lambda>c. tr_seq (check_durations L c) (?run c)) w = (Inl e, [])"
      then show thesis using start that(1) by simp
    next
      fix c
      assume c: "loadWorkflowConfig L W configPath w = (Inr c, [])"
        "tr_bind (loadWorkflowConfig L W configPath) (\<lambda>c. tr_seq (check_durations L c) (?run c)) w = tr_seq (check_durations L c) (?run c) w"
      show thesis
        by (rule tr_bind_quiet_cases [of "check_durations L c" w "\<lambda>_. ?run c"])
           (use that True c start in \<open>simp_all add: tr_seq_def\<close>)
    qed
  qed
qed

lemma waitForReadiness_local: "traced_ok (on_local P) (waitForReadiness W ord manifests marker k) (on_local P) (\<lambda>_. on_local P)"
  by (auto simp: waitForReadiness_def intro: traced_ok_fail readiness_rounds_local)

lemma waitForReadiness_seen:
  "permutes ord \<Longrightarrow> waitForReadiness W ord manifests marker k w = (Inr n, ws) \<Longrightarrow> (p, u) \<in> set manifests
     \<Longrightarrow> seen W ws (markerSibling u marker)"
  by (auto simp: waitForReadiness_def tr_Inr split: if_splits intro: readiness_rounds_seen)

lemma base_manifest_entry:
  assumes "validateBaseManifests manifests = None" "p \<in> set base_protocols"
  shows "(p, map_get manifests p) \<in> set manifests" "base_manifest_uri (map_get manifests p)"
proof -
  show uri: "base_manifest_uri (map_get manifests p)"
    using assms by (auto simp: validateBaseManifests_def find_None_iff split: if_splits)
  then have "map_get manifests p \<noteq> []" by (auto simp: base_manifest_uri_def has_prefix_def)
  then show "(p, map_get manifests p) \<in> set manifests"
    by (auto simp: map_get_def split: option.splits dest: map_of_SomeD)
qed

text \<open>
  A manifest URI with a trailing slash passes the validation, which trims it, but not the derivation of the markers,
  which does not: the marker that is waited for is none the analysis writes.\<close>

lemma trailing_slash_marker:
  "base_manifest_uri ''s3://b/analysis-jobs/x/manifest.json/''"
  "markerSibling ''s3://b/analysis-jobs/x/manifest.json/'' ''done.json'' = ''s3://b/analysis-jobs/x/manifest.json//done.json''"
  by code_simp+

text \<open>
  C11: The targets of an inter-protocol run are requested only after the analyses of all three protocols: whatever the
  outcome, the states the preparation goes through are those of a wait that touches no local file, and then, only if
  the marker of each of the three manifests has been listed in the wait, those of the request.\<close>

theorem targets_after_analyses:
  assumes "permutes ord"
    and "prepareTargetsReady L W ord configPath runID manifests runDirectory marker references now k w = (r, ws)"
  shows "\<exists>us vs. ws = us @ vs \<and> (\<forall>v \<in> set us. cl_local v = cl_local w)
    \<and> (vs \<noteq> [] \<longrightarrow> (\<forall>p \<in> {''icmp'', ''tcp'', ''udp''}. seen W us (markerSibling (map_get manifests p) marker)))"
proof (rule prepareTargetsReady_cases [of L W ord configPath runID manifests runDirectory marker references now k w])
  fix e
  assume "prepareTargetsReady L W ord configPath runID manifests runDirectory marker references now k w = (Inl e, [])"
  then show ?thesis using assms(2) by simp
next
  fix c
  let ?wait = "waitForReadiness W ord manifests marker k"
  let ?rest = "\<lambda>left. request_targets L W c (target_request_of c runID manifests references now) runDirectory left"
  assume c: "validateBaseManifests manifests = None"
    "prepareTargetsReady L W ord configPath runID manifests runDirectory marker references now k w = tr_bind ?wait ?rest w"
  obtain r' us where wait: "?wait w = (r', us)" by fastforce
  have same: "\<forall>v \<in> set us. cl_local v = cl_local w"
    using traced_ok_state [OF waitForReadiness_local [of "\<lambda>l. l = cl_local w"], of w _ W ord manifests marker k] wait by simp
  show ?thesis
  proof (cases r')
    case (Inl e)
    then have "ws = us @ []" using c(2) assms(2) wait by (simp add: tr_bind_def)
    then show ?thesis using same by blast
  next
    case (Inr left)
    then have "ws = us @ snd (?rest left (last (w # us)))"
      using c(2) assms(2) wait by (simp add: tr_bind_def del: last.simps split: prod.splits)
    moreover have "\<forall>p \<in> {''icmp'', ''tcp'', ''udp''}. seen W us (markerSibling (map_get manifests p) marker)"
      using waitForReadiness_seen [OF assms(1) wait [unfolded Inr]] base_manifest_entry(1) [OF c(1)]
      by (auto simp: base_protocols_def)
    ultimately show ?thesis using same by blast
  qed
qed



section \<open>The preparation ends\<close>

text \<open>No analysis fails, and from tick \<open>M\<close> on the marker of each manifest is listed.\<close>

definition analyses_ready :: "s3_world \<Rightarrow> (string \<times> string) list \<Rightarrow> string \<Rightarrow> nat \<Rightarrow> bool" where
  "analyses_ready W manifests marker M \<longleftrightarrow> (\<forall>n r. \<forall>(p, u) \<in> set manifests.
     \<not> listed (wd_ls W (wd_change W n r) (base_failed_uri marker u)) (base_failed_uri marker u)
     \<and> (M \<le> n \<longrightarrow> listed (wd_ls W (wd_change W n r) (markerSibling u marker)) (markerSibling u marker)))"

lemma tr_bind_Inr: "m w = (Inr a, us) \<Longrightarrow> f a (last (w # us)) = (r, vs) \<Longrightarrow> tr_bind m f w = (r, us @ vs)"
  by (simp add: tr_bind_def del: last.simps)

lemma tr_seq_Inr: "m w = (Inr a, us) \<Longrightarrow> n (last (w # us)) = (r, vs) \<Longrightarrow> tr_seq m n w = (r, us @ vs)"
  unfolding tr_seq_def by (rule tr_bind_Inr)

lemma readiness_round_returns:
  assumes "\<forall>n. wd_access W n = Works" "analyses_ready W manifests marker M" "set xs \<subseteq> set manifests"
  shows "\<exists>rem ws. readiness_round W marker xs w = (Inr rem, ws) \<and> set rem \<subseteq> set xs
    \<and> cl_clock (last (w # ws)) = cl_clock w + 2 * length xs \<and> (M \<le> cl_clock w \<longrightarrow> rem = [])"
  using assms(3)
proof (induction xs arbitrary: w)
  case Nil
  then show ?case by (simp add: tr_return_def)
next
  case (Cons x xs)
  obtain p u where x: "x = (p, u)" by fastforce
  let ?f = "base_failed_uri marker u" and ?m = "markerSibling u marker" and ?w = "tick W (tick W w)"
  have ready: "\<not> listed (wd_ls W (wd_change W n r) ?f) ?f" "M \<le> n \<Longrightarrow> listed (wd_ls W (wd_change W n r) ?m) ?m" for n r
    using assms(2) Cons.prems x unfolding analyses_ready_def by (metis (no_types, lifting) case_prodD list.set_intros(1) subsetD)+
  have failed: "objectExists W ?f w = (Inr False, [tick W w])" using assms(1) ready(1) by (simp add: objectExists_run)
  obtain b where b: "objectExists W ?m (tick W w) = (Inr b, [?w])" "M \<le> cl_clock w \<Longrightarrow> b"
    using assms(1) ready(2) by (simp add: objectExists_run)
  obtain rem ws where IH: "readiness_round W marker xs ?w = (Inr rem, ws)" "set rem \<subseteq> set xs"
      "cl_clock (last (?w # ws)) = cl_clock ?w + 2 * length xs" "M \<le> cl_clock ?w \<longrightarrow> rem = []"
    using Cons.IH [of ?w] Cons.prems by auto
  have "readiness_round W marker (x # xs) w = (Inr (if b then rem else x # rem), tick W w # ?w # ws)"
    using failed b(1) IH(1) by (simp add: x tr_bind_def tr_return_def)
  then show ?case
    using b(2) IH(2-4)
    by (intro exI [of _ "if b then rem else x # rem"] exI [of _ "tick W w # ?w # ws"]) auto
qed

lemma readiness_rounds_return:
  assumes "\<forall>n. wd_access W n = Works" "analyses_ready W manifests marker M" "permutes ord"
  shows "set xs \<subseteq> set manifests \<Longrightarrow> M \<le> cl_clock w + 2 * k \<Longrightarrow>
    \<exists>n ws. readiness_rounds W ord marker xs k w = (Inr n, ws) \<and> cl_clock w + 2 * k \<le> cl_clock (last (w # ws)) + 2 * n"
proof (induction k arbitrary: xs w)
  case 0
  have "set (ord 0 xs) \<subseteq> set manifests" using "0.prems"(1) permutes_set(1) [OF assms(3)] by simp
  then obtain rem ws where "readiness_round W marker (ord 0 xs) w = (Inr rem, ws)" "rem = []"
      "cl_clock (last (w # ws)) = cl_clock w + 2 * length (ord 0 xs)"
    using readiness_round_returns [OF assms(1,2), of "ord 0 xs" w] "0.prems"(2) by auto
  then show ?case
    by (cases "xs = []"; subst readiness_rounds.simps) (auto simp: tr_bind_def tr_return_def simp del: last.simps simp: last_ConsL)
next
  case (Suc k)
  have sub: "set (ord (Suc k) xs) \<subseteq> set manifests" using Suc.prems(1) permutes_set(1) [OF assms(3)] by simp
  then obtain rem ws where rem: "readiness_round W marker (ord (Suc k) xs) w = (Inr rem, ws)" "set rem \<subseteq> set (ord (Suc k) xs)"
      "cl_clock (last (w # ws)) = cl_clock w + 2 * length (ord (Suc k) xs)"
    using readiness_round_returns [OF assms(1,2), of "ord (Suc k) xs" w] by auto
  show ?case
  proof (cases "xs = [] \<or> rem = []")
    case True
    then show ?thesis
      using rem
      by (cases "xs = []"; subst readiness_rounds.simps) (auto simp: tr_bind_def tr_return_def last_ConsL simp del: last.simps)
  next
    case False
    let ?v = "last (w # ws)"
    have "1 \<le> length (ord (Suc k) xs)" using False permutes_set(2) [OF assms(3), of "Suc k" xs] by (cases "ord (Suc k) xs") auto
    then have later: "cl_clock w + 2 \<le> cl_clock ?v" using rem(3) by linarith
    then obtain n vs where IH: "readiness_rounds W ord marker rem k ?v = (Inr n, vs)" "cl_clock ?v + 2 * k \<le> cl_clock (last (?v # vs)) + 2 * n"
      using Suc.IH [of rem ?v] Suc.prems(2) rem(2) sub by auto
    have "readiness_rounds W ord marker xs (Suc k) w = (Inr n, ws @ vs)"
    proof -
      have "readiness_rounds W ord marker xs (Suc k) w = tr_bind (readiness_round W marker (ord (Suc k) xs))
          (\<lambda>rem. if rem = [] then tr_return (Suc k) else readiness_rounds W ord marker rem k) w"
        using False by (simp add: readiness_rounds.simps [of _ _ _ xs] cong: if_cong)
      also have "\<dots> = (Inr n, ws @ vs)"
        by (rule tr_bind_Inr [where a = rem and us = ws], rule rem(1)) (use False IH(1) in \<open>simp del: last.simps\<close>)
      finally show ?thesis .
    qed
    moreover have "last (w # ws @ vs) = last (?v # vs)" by (cases vs) simp_all
    ultimately show ?thesis using IH(2) later by (intro exI [of _ n] exI [of _ "ws @ vs"]) (simp del: last.simps)
  qed
qed


text \<open>The builder does not fail; from tick \<open>M\<close> on its marker and all its targets are there, and before \<open>M\<close> the marker is not.\<close>

definition targets_delivered :: "s3_world \<Rightarrow> target_request \<Rightarrow> string \<Rightarrow> nat \<Rightarrow> bool" where
  "targets_delivered W request marker M \<longleftrightarrow> (\<forall>n r.
     \<not> listed (wd_ls W (wd_change W n r) (tq_FailedURI request)) (tq_FailedURI request)
     \<and> listed (wd_ls W (wd_change W n r) (tq_DoneURI request)) (tq_DoneURI request) = (M \<le> n)
     \<and> (M \<le> n \<longrightarrow> wd_change W n r (tq_DoneURI request) = Some marker
         \<and> (\<forall>name \<in> set (target_file_names request). wd_change W n r (joinS3 (tq_TargetPrefix request) [name]) \<noteq> None)))"

definition targets_marker_fits :: "ip_library \<Rightarrow> target_request \<Rightarrow> string \<Rightarrow> bool" where
  "targets_marker_fits L request marker =
     (case il_decode_targets L marker of
        None \<Rightarrow> False
      | Some d \<Rightarrow> td_Version d = Version \<and> td_JobID d = tq_JobID request \<and> td_CampaignID d = tq_JobID request
          \<and> td_TargetPrefix d = tq_TargetPrefix request)"

lemma fetch_all_works:
  assumes "\<forall>n. wd_access W n = Works"
    and "\<And>n r name. cl_clock w \<le> n \<Longrightarrow> name \<in> set names \<Longrightarrow> wd_change W n r (uri name) \<noteq> None"
  shows "\<exists>us ws. tr_each (\<lambda>name. s3_get W (uri name) (in_dir dir name)) names w = (Inr us, ws)
    \<and> (\<forall>path. cl_local w path \<noteq> None \<longrightarrow> cl_local (last (w # ws)) path \<noteq> None)
    \<and> (\<forall>name \<in> set names. cl_local (last (w # ws)) (in_dir dir name) \<noteq> None)"
  using assms(2)
proof (induction names arbitrary: w)
  case Nil
  then show ?case by (simp add: tr_return_def)
next
  case (Cons name names)
  have "wd_change W (cl_clock w) (cl_remote w) (uri name) \<noteq> None" using Cons.prems by simp
  then obtain c where c: "cl_remote (tick W w) (uri name) = Some c" by auto
  let ?v = "(tick W w)\<lparr>cl_local := (cl_local w)(in_dir dir name \<mapsto> c)\<rparr>"
  have get: "s3_get W (uri name) (in_dir dir name) w = (Inr (), [tick W w, ?v])"
    by (rule s3_get_works [OF _ c]) (simp add: assms(1))
  obtain us ws where IH: "tr_each (\<lambda>name. s3_get W (uri name) (in_dir dir name)) names ?v = (Inr us, ws)"
      "\<forall>path. cl_local ?v path \<noteq> None \<longrightarrow> cl_local (last (?v # ws)) path \<noteq> None"
      "\<forall>name \<in> set names. cl_local (last (?v # ws)) (in_dir dir name) \<noteq> None"
    using Cons.IH [of ?v] Cons.prems by force
  have "tr_each (\<lambda>name. s3_get W (uri name) (in_dir dir name)) (name # names) w = (Inr (() # us), tick W w # ?v # ws)"
    using get IH(1) by (simp add: tr_bind_def tr_return_def)
  then show ?case using IH(2,3) by (intro exI [of _ "() # us"] exI [of _ "tick W w # ?v # ws"]) auto
qed

lemma poll_targets_waits:
  assumes "\<forall>n. wd_access W n = Works" "targets_delivered W request marker M" "Suc (cl_clock w) < M"
  shows "poll_targets L W request dir w = (Inr None, [tick W w, tick W (tick W w)])"
  using assms by (simp add: poll_targets_def targets_delivered_def objectExists_run tr_bind_def tr_return_def)

lemma poll_targets_returns:
  assumes "\<forall>n. wd_access W n = Works" "\<forall>p. wd_file W p = Works" "targets_delivered W request marker M" "M \<le> Suc (cl_clock w)"
    "targets_marker_fits L request marker"
  shows "\<exists>ws. poll_targets L W request dir w = (Inr (Some (in_dir dir ''targets'')), ws)
    \<and> (\<forall>name \<in> set (target_file_names request). cl_local (last (w # ws)) (in_dir (in_dir dir ''targets'') name) \<noteq> None)"
proof -
  let ?dp = "in_dir dir ''target-done.json''" and ?td = "in_dir dir ''targets''"
  obtain d where d: "il_decode_targets L marker = Some d" "td_Version d = Version" "td_JobID d = tq_JobID request"
      "td_CampaignID d = tq_JobID request" "td_TargetPrefix d = tq_TargetPrefix request"
    using assms(5) by (auto simp: targets_marker_fits_def split: option.splits)
  have there: "\<not> listed (wd_ls W (wd_change W n r) (tq_FailedURI request)) (tq_FailedURI request)"
    "Suc (cl_clock w) \<le> n \<Longrightarrow> listed (wd_ls W (wd_change W n r) (tq_DoneURI request)) (tq_DoneURI request)"
    "Suc (cl_clock w) \<le> n \<Longrightarrow> wd_change W n r (tq_DoneURI request) = Some marker"
    "Suc (cl_clock w) \<le> n \<Longrightarrow> name \<in> set (target_file_names request) \<Longrightarrow> wd_change W n r (joinS3 (tq_TargetPrefix request) [name]) \<noteq> None"
    for n r name
    using assms(3,4) by (simp_all add: targets_delivered_def)
  define w2 where "w2 = tick W (tick W w)"
  define w3 where "w3 = (tick W w2)\<lparr>cl_local := (cl_local w2)(?dp \<mapsto> marker)\<rparr>"
  have clocks: "cl_clock w2 = Suc (Suc (cl_clock w))" "cl_clock w3 = Suc (cl_clock w2)" by (simp_all add: w2_def w3_def)
  obtain us ws where fetch: "tr_each (\<lambda>name. s3_get W (joinS3 (tq_TargetPrefix request) [name]) (in_dir ?td name))
      (target_file_names request) w3 = (Inr us, ws)"
    "\<forall>name \<in> set (target_file_names request). cl_local (last (w3 # ws)) (in_dir ?td name) \<noteq> None"
    using fetch_all_works [OF assms(1), of w3 "target_file_names request" "\<lambda>name. joinS3 (tq_TargetPrefix request) [name]" ?td]
      there(4) clocks by force
  have "objectExists W (tq_FailedURI request) w = (Inr False, [tick W w])"
    using assms(1) there(1) by (simp add: objectExists_run)
  moreover have "objectExists W (tq_DoneURI request) (tick W w) = (Inr True, [w2])"
    using assms(1) there(2) by (simp add: objectExists_run w2_def)
  moreover have "getJSON W (il_decode_targets L) (tq_DoneURI request) ?dp w2 = (Inr d, [tick W w2, w3])"
    unfolding w3_def by (rule getJSON_works) (simp_all add: assms there clocks d)
  ultimately show ?thesis
    using fetch assms(2) unfolding poll_targets_def Let_def tr_seq_def tr_bind_def
    by (simp add: d tr_check_def tr_return_def)
qed

lemma wait_poll_targets_returns:
  assumes "\<forall>n. wd_access W n = Works" "\<forall>p. wd_file W p = Works" "targets_delivered W request marker M"
    "targets_marker_fits L request marker" "M \<le> cl_clock w + 2 * k + 1"
  shows "\<exists>ws. wait_poll (poll_targets L W request dir) k w = (Inr (in_dir dir ''targets''), ws)
    \<and> (\<forall>name \<in> set (target_file_names request). cl_local (last (w # ws)) (in_dir (in_dir dir ''targets'') name) \<noteq> None)"
  by (rule wait_poll_returns [OF _ _ assms(5), where Q = "\<lambda>w. \<forall>name \<in> set (target_file_names request).
          cl_local w (in_dir (in_dir dir ''targets'') name) \<noteq> None"],
      rule poll_targets_returns [OF assms(1-3) _ assms(4)], assumption, rule poll_targets_waits [OF assms(1,3)])

lemma request_targets_returns:
  assumes "\<forall>n. wd_access W n = Works" "\<forall>p. wd_file W p = Works" "targets_delivered W request marker M"
    "targets_marker_fits L request marker" "M \<le> cl_clock w + 2 * k + 2"
  shows "\<exists>ws. request_targets L W c request dir k w = (Inr (in_dir dir ''targets''), ws) \<and> ws \<noteq> []
    \<and> (\<forall>name \<in> set (target_file_names request). cl_local (last ws) (in_dir (in_dir dir ''targets'') name) \<noteq> None)"
proof -
  let ?p = "in_dir dir ''target-request.json''" and ?c = "il_encode_targets L request"
  let ?u = "joinS3 (joinS3 (ic_S3Prefix c) [''interprotocol-target-jobs'', tq_JobID request]) [''request.json'']"
  define v1 where "v1 = w\<lparr>cl_local := (cl_local w)(?p \<mapsto> ?c)\<rparr>"
  define v2 where "v2 = (tick W v1)\<lparr>cl_remote := (cl_remote (tick W v1))(?u \<mapsto> ?c)\<rparr>"
  obtain us where written: "write_local W ?p ?c w = (Inr (), us @ [v1])"
    using write_local_last [OF spec [OF assms(2)]] unfolding v1_def by blast
  have put: "s3_put W ?p ?u v1 = (Inr (), [tick W v1, v2])"
    unfolding v2_def by (rule s3_put_works) (simp_all add: assms(1) v1_def)
  have "cl_clock v2 = Suc (cl_clock w)" by (simp add: v2_def v1_def)
  then obtain vs where vs: "wait_poll (poll_targets L W request dir) k v2 = (Inr (in_dir dir ''targets''), vs)"
      "\<forall>name \<in> set (target_file_names request). cl_local (last (v2 # vs)) (in_dir (in_dir dir ''targets'') name) \<noteq> None"
    using wait_poll_targets_returns [OF assms(1-4), of v2 k dir] assms(5) by auto
  have "request_targets L W c request dir k w = (Inr (in_dir dir ''targets''), us @ v1 # tick W v1 # v2 # vs)"
    unfolding request_targets_def Let_def tr_seq_def tr_bind_def
    by (simp add: tr_check_def tr_return_def assms(2) written put vs(1))
  then show ?thesis using vs(2) by (intro exI [of _ "us @ v1 # tick W v1 # v2 # vs"]) simp
qed

lemma preparation_ends:
  assumes "\<forall>n. wd_access W n = Works" "\<forall>p. wd_file W p = Works" "permutes ord"
    and "SafeID runID" "validateBaseManifests manifests = None" "marker \<in> {''done.json'', ''strategies-ready.json''}"
    and "loadWorkflowConfig L W configPath w = (Inr c, [])" "check_durations L c w = (Inr (), [])"
    and "analyses_ready W manifests marker M" "M \<le> cl_clock w + 2 * k"
    and "targets_delivered W (target_request_of c runID manifests references now) d N" "N \<le> cl_clock w + 2 * k + 1"
    and "targets_marker_fits L (target_request_of c runID manifests references now) d"
  shows "\<exists>ws. prepareTargetsReady L W ord configPath runID manifests runDirectory marker references now k w
      = (Inr (in_dir runDirectory ''targets''), ws)
    \<and> (\<forall>name \<in> set (target_file_names (target_request_of c runID manifests references now)).
        cl_local (last (w # ws)) (in_dir (in_dir runDirectory ''targets'') name) \<noteq> None)"
proof -
  let ?q = "target_request_of c runID manifests references now"
  let ?rest = "\<lambda>left. request_targets L W c ?q runDirectory left"
  obtain n us where wait: "waitForReadiness W ord manifests marker k w = (Inr n, us)"
      "cl_clock w + 2 * k \<le> cl_clock (last (w # us)) + 2 * n"
    using readiness_rounds_return [OF assms(1,9,3) order_refl assms(10)] assms(6) by (auto simp: waitForReadiness_def)
  define v where "v = last (w # us)"
  obtain vs where vs: "?rest n v = (Inr (in_dir runDirectory ''targets''), vs)" "vs \<noteq> []"
      "\<forall>name \<in> set (target_file_names ?q). cl_local (last vs) (in_dir (in_dir runDirectory ''targets'') name) \<noteq> None"
    using request_targets_returns [OF assms(1,2,11,13), of v n c runDirectory] assms(12) wait(2) v_def by auto
  have "tr_bind (waitForReadiness W ord manifests marker k) ?rest w = (Inr (in_dir runDirectory ''targets''), us @ vs)"
    by (rule tr_bind_Inr [where a = n]) (use wait(1) vs(1) v_def in simp_all)
  then have "prepareTargetsReady L W ord configPath runID manifests runDirectory marker references now k w
      = (Inr (in_dir runDirectory ''targets''), us @ vs)"
    using assms(4,5,7,8) unfolding prepareTargetsReady_def
    by (simp add: tr_check_def tr_seq_return tr_bind_def [of "loadWorkflowConfig L W configPath"] tr_seq_def [of "check_durations L c"]
        tr_bind_def [of "check_durations L c"])
  then show ?thesis using vs(2,3) by (intro exI [of _ "us @ vs"]) (cases vs, auto)
qed

text \<open>
  C13: A preparation ends: if no command fails, the configuration is valid, no analysis fails and all are done by
  tick \<open>M\<close>, and the builder has delivered by tick \<open>N\<close>, then, given enough polls before the one deadline of both waits, the
  preparation returns the directory of the targets, and every target file is in it.\<close>

theorem prepareTargetsReady_returns:
  assumes "\<forall>n. wd_access W n = Works" "\<forall>p. wd_file W p = Works" "permutes ord"
    and "SafeID runID" "validateBaseManifests manifests = None" "marker \<in> {''done.json'', ''strategies-ready.json''}"
    and "loadWorkflowConfig L W configPath w = (Inr c, [])" "check_durations L c w = (Inr (), [])"
    and "analyses_ready W manifests marker M" "M \<le> cl_clock w + 2 * k"
    and "targets_delivered W (target_request_of c runID manifests references now) d N" "N \<le> cl_clock w + 2 * k + 1"
    and "targets_marker_fits L (target_request_of c runID manifests references now) d"
  shows "\<exists>ws. prepareTargetsReady L W ord configPath runID manifests runDirectory marker references now k w
      = (Inr (in_dir runDirectory ''targets''), ws)
    \<and> (\<forall>name \<in> set (target_file_names (target_request_of c runID manifests references now)).
        cl_local (last (w # ws)) (in_dir (in_dir runDirectory ''targets'') name) \<noteq> None)"
  by (rule preparation_ends) (rule assms)+


section \<open>The final job\<close>

lemma s3_put_Inr:
  "s3_put W path uri w = (Inr u, ws) \<Longrightarrow>
     \<exists>c. cl_local w path = Some c \<and> ws = [tick W w, (tick W w)\<lparr>cl_remote := (cl_remote (tick W w))(uri \<mapsto> c)\<rparr>]"
  by (auto simp: s3_put_def command_def tr_update_def tr_fail_def tr_seq_def tr_bind_def tr_get_def Let_def
      split: access.splits option.splits)

lemma getJSON_Inr:
  "getJSON W decode uri path w = (Inr v, ws) \<Longrightarrow>
     \<exists>c. cl_remote (tick W w) uri = Some c \<and> decode c = Some v
       \<and> ws = [tick W w, (tick W w)\<lparr>cl_local := (cl_local w)(path \<mapsto> c)\<rparr>]"
  by (auto simp: getJSON_def s3_get_def command_def read_local_def set_local_def tr_update_def tr_fail_def tr_seq_def tr_bind_def
      tr_get_def tr_check_def tr_return_def split: access.splits option.splits if_splits)

lemma read_as_Inr: "read_as W decode path w = (Inr v, ws) \<longleftrightarrow>
    wd_file W path = Works \<and> (\<exists>c. cl_local w path = Some c \<and> decode c = Some v) \<and> ws = []"
  by (auto simp: read_as_def read_local_def tr_fail_def tr_seq_def tr_bind_def tr_get_def tr_check_def tr_return_def
      split: option.splits)

lemma beside_in_dir:
  assumes "CHR ''/'' \<notin> set name"
  shows "beside (in_dir dir name) x = in_dir dir x"
proof -
  have "rev (in_dir dir name) = rev name @ CHR ''/'' # rev dir" by (simp add: in_dir_def)
  moreover have "dropWhile (\<lambda>c. c \<noteq> CHR ''/'') (rev name @ CHR ''/'' # rev dir) = CHR ''/'' # rev dir"
    by (subst dropWhile_append2) (use assms in auto)
  ultimately show ?thesis by (simp add: beside_def in_dir_def)
qed

lemma wait_poll_Inr: "wait_poll m k w = (Inr a, ws) \<Longrightarrow> \<exists>v us. m v = (Inr (Some a), us)"
proof (induction k arbitrary: w ws)
  case 0
  then obtain r us vs where "m w = (Inr r, us)" "(case r of Some a \<Rightarrow> tr_return a | None \<Rightarrow> tr_fail TimedOut) (last (w # us)) = (Inr a, vs)"
    by (subst (asm) wait_poll.simps) (auto elim!: tr_bind_InrE simp del: last.simps cong: option.case_cong)
  then show ?case by (cases r) (auto simp: tr_Inr)
next
  case (Suc k)
  then obtain r us vs where r: "m w = (Inr r, us)"
      "(case r of Some a \<Rightarrow> tr_return a | None \<Rightarrow> wait_poll m k) (last (w # us)) = (Inr a, vs)"
    by (subst (asm) wait_poll.simps) (auto elim!: tr_bind_InrE simp del: last.simps cong: option.case_cong)
  then show ?case using Suc.IH by (cases r) (auto simp: tr_Inr simp del: last.simps)
qed

text \<open>A completion that belongs to a request.\<close>

definition done_fits :: "ip_request \<Rightarrow> ip_done \<Rightarrow> bool" where
  "done_fits request d \<longleftrightarrow> id_Version d = Version \<and> id_JobID d = ir_JobID request \<and> id_CampaignID d = ir_CampaignID request
     \<and> id_ResultPrefix d = ir_ResultPrefix request"

lemma poll_final_fits: "poll_final L W request path w = (Inr (Some d), ws) \<Longrightarrow> done_fits request d"
  unfolding poll_final_def
  by (auto elim!: tr_bind_InrE simp: tr_Inr done_fits_def simp del: last.simps split: if_splits)

lemma wait_final_fits:
  assumes "wait_final L W configPath path k w = (Inr d, ws)"
  shows "\<exists>data request. cl_local w (beside path ''request.json'') = Some data \<and> il_decode_request L data = Some request
    \<and> done_fits request d"
proof -
  obtain request us where "read_as W (il_decode_request L) (beside path ''request.json'') w = (Inr request, us)"
      "\<exists>v us. wait_poll (poll_final L W request path) k v = (Inr d, us)"
    using assms unfolding wait_final_def by (auto elim!: tr_bind_InrE tr_seq_InrE simp del: last.simps) 
  then show ?thesis using wait_poll_Inr poll_final_fits unfolding read_as_Inr by metis
qed


text \<open>What a publication that returns has done.\<close>

lemma publish_final_Inr:
  assumes "publish_final L W configPath (in_dir dir ''manifest.json'') now w = (Inr uri, ws)"
  obtains data m c v where "cl_local w (in_dir dir ''manifest.json'') = Some data" "il_decode_manifest L data = Some m"
    "ValidateManifest m True = None" "loadWorkflowConfig L W configPath w = (Inr c, [])" "uri = ip_request_uri c m"
    "v \<in> set ws" "cl_remote v (ir_ManifestURI (ip_request_of c m now)) = Some data"
    "cl_remote (last ws) uri = Some (il_encode_request L (ip_request_of c m now))"
    "cl_local (last (w # ws)) (in_dir dir ''request.json'') = Some (il_encode_request L (ip_request_of c m now))"
proof -
  let ?p = "in_dir dir ''manifest.json''" and ?q = "in_dir dir ''request.json''"
  have req: "beside ?p ''request.json'' = ?q" by (rule beside_in_dir) simp
  have differ: "?p \<noteq> ?q" by (simp add: in_dir_def)
  obtain m us1 vs1 where m: "LoadManifest L W ?p w = (Inr m, us1)" "ws = us1 @ vs1" "tr_seq (validated m True)
      (tr_bind (loadWorkflowConfig L W configPath) (\<lambda>c.
        let request = ip_request_of c m now; requestPath = beside ?p ''request.json'' in
        tr_seq (write_local W requestPath (il_encode_request L request))
       (tr_seq (s3_put W ?p (ir_ManifestURI request))
       (tr_seq (s3_put W requestPath (ip_request_uri c m))
       (tr_return (ip_request_uri c m)))))) (last (w # us1)) = (Inr uri, vs1)"
    using assms unfolding publish_final_def by (rule tr_bind_InrE)
  have u1: "us1 = []" and loaded: "loaded L W ?p (cl_local w ?p) = Inr m" using m(1) by (simp_all add: LoadManifest_run)
  from m(3) u1 obtain c us2 us3 us4 us5 where c: "ValidateManifest m True = None" "loadWorkflowConfig L W configPath w = (Inr c, us2)"
      "vs1 = us2 @ us3 @ us4 @ us5" "uri = ip_request_uri c m"
      "write_local W ?q (il_encode_request L (ip_request_of c m now)) (last (w # us2)) = (Inr (), us3)"
      "s3_put W ?p (ir_ManifestURI (ip_request_of c m now)) (last (last (w # us2) # us3)) = (Inr (), us4)"
      "s3_put W ?q (ip_request_uri c m) (last (last (last (w # us2) # us3) # us4)) = (Inr (), us5)"
    by (auto elim!: tr_seq_InrE tr_bind_InrE simp: req Let_def tr_Inr simp del: last.simps simp: last_ConsL)
  have u2: "us2 = []" using c(2) by (metis loadWorkflowConfig_states snd_conv)
  let ?r = "ip_request_of c m now" and ?e = "il_encode_request L (ip_request_of c m now)"
  have parts: "write_local W ?q ?e w = (Inr (), us3)" "s3_put W ?p (ir_ManifestURI ?r) (last (w # us3)) = (Inr (), us4)"
      "s3_put W ?q (ip_request_uri c m) (last (last (w # us3) # us4)) = (Inr (), us5)"
    using c(5-7) u2 by (simp_all del: last.simps add: last_ConsL)
  define w1 where "w1 = w\<lparr>cl_local := (cl_local w)(?q \<mapsto> ?e)\<rparr>"
  have w1: "last (w # us3) = w1" using write_local_Inr(2) [OF parts(1)] by (simp add: w1_def)
  obtain data where data: "cl_local w1 ?p = Some data"
      "us4 = [tick W w1, (tick W w1)\<lparr>cl_remote := (cl_remote (tick W w1))(ir_ManifestURI ?r \<mapsto> data)\<rparr>]"
    using s3_put_Inr [OF parts(2)] w1 by auto
  define w2 where "w2 = (tick W w1)\<lparr>cl_remote := (cl_remote (tick W w1))(ir_ManifestURI ?r \<mapsto> data)\<rparr>"
  have "s3_put W ?q (ip_request_uri c m) w2 = (Inr (), us5)" using parts(3) w1 data(2) by (simp add: w2_def)
  moreover have "cl_local w2 ?q = Some ?e" by (simp add: w2_def w1_def)
  ultimately have us5: "us5 = [tick W w2, (tick W w2)\<lparr>cl_remote := (cl_remote (tick W w2))(ip_request_uri c m \<mapsto> ?e)\<rparr>]"
    using s3_put_Inr by fastforce
  have ws: "ws = us3 @ tick W w1 # w2 # us5" using m(2) u1 c(3) u2 data(2) by (simp add: w2_def)
  have local: "cl_local w ?p = Some data" using data(1) differ by (simp add: w1_def)
  show thesis
  proof (rule that [of data m c w2])
    show "il_decode_manifest L data = Some m"
      using loaded local by (auto simp: loaded_def split: if_splits option.splits)
  qed (use local c(1,2,4) u2 ws us5 in \<open>simp_all add: w2_def w1_def\<close>)
qed

text \<open>
  C12: A final result is the own one of its run: when the publication and then the wait return, the published manifest
  is a complete one and was uploaded as it is on disk, the request was uploaded after it, and the result that the wait
  gives names the run, the campaign and the result directory of that request. What is assumed of JSON is that the
  request is decoded from its encoding.\<close>

theorem final_result_is_its_own:
  assumes "\<And>r. il_decode_request L (il_encode_request L r) = Some r"
    and "publish_final L W configPath (in_dir dir ''manifest.json'') now w = (Inr uri, us)"
    and "wait_final L W configPath (in_dir dir ''manifest.json'') k (last (w # us)) = (Inr d, vs)"
  shows "\<exists>data m c v. cl_local w (in_dir dir ''manifest.json'') = Some data \<and> il_decode_manifest L data = Some m
    \<and> ValidateManifest m True = None \<and> v \<in> set us \<and> cl_remote v (ir_ManifestURI (ip_request_of c m now)) = Some data
    \<and> cl_remote (last us) uri = Some (il_encode_request L (ip_request_of c m now))
    \<and> id_JobID d = im_RunID m \<and> id_CampaignID d = im_CampaignID m
    \<and> id_ResultPrefix d = joinS3 (joinS3 (ic_S3Prefix c) [''interprotocol-jobs'', im_RunID m]) [''results'']"
proof (rule publish_final_Inr [OF assms(2)])
  fix data m c v
  assume p: "cl_local w (in_dir dir ''manifest.json'') = Some data" "il_decode_manifest L data = Some m"
    "ValidateManifest m True = None" "v \<in> set us" "cl_remote v (ir_ManifestURI (ip_request_of c m now)) = Some data"
    "cl_remote (last us) uri = Some (il_encode_request L (ip_request_of c m now))"
    "cl_local (last (w # us)) (in_dir dir ''request.json'') = Some (il_encode_request L (ip_request_of c m now))"
  have "beside (in_dir dir ''manifest.json'') ''request.json'' = in_dir dir ''request.json''" by (rule beside_in_dir) simp
  then have "done_fits (ip_request_of c m now) d"
    using wait_final_fits [OF assms(3)] p(7) assms(1) by auto
  then show ?thesis
    using p(1-6) by (intro exI [of _ data] exI [of _ m] exI [of _ c] exI [of _ v])
      (simp add: done_fits_def ip_request_of_def Let_def)
qed

end
