(* ===== verification/Interprotocol_Campaign.thy ===== *)
theory Interprotocol_Campaign
  imports Interprotocol_Safety
begin

text \<open>
  The measurements of an inter-protocol run: what the manifest says after each of them, and that the manifest of a
  run that finished is the one the publication accepts. Then concrete runs.
\<close>

section \<open>Groups and their measurements\<close>

definition id_fits :: "string \<Rightarrow> string \<Rightarrow> string \<Rightarrow> bool" where
  "id_fits name kind i \<longleftrightarrow> SafeID i \<and> has_prefix (''interprotocol-'' @ name @ ''_'') i \<and> has_suffix (CHR ''_'' # kind) i"

text \<open>\<open>D\<close>: the pairs of sample and group that are measured.\<close>

definition group_inv :: "(string \<times> string) set \<Rightarrow> string \<Rightarrow> group_run \<Rightarrow> bool" where
  "group_inv D name g \<longleftrightarrow> gr_Protocols g = GroupProtocols name
     \<and> distinct (map fst (gr_Measurements g)) \<and> dom (map_of (gr_Measurements g)) = {kind. (kind, name) \<in> D}
     \<and> (\<forall>kind i. map_of (gr_Measurements g) kind = Some i \<longrightarrow> id_fits name kind i)
     \<and> ((''mass'', name) \<in> D \<longrightarrow> gr_Status g = ''complete'')"

definition manifest_inv :: "(string \<times> string) set \<Rightarrow> string \<Rightarrow> ip_manifest \<Rightarrow> bool" where
  "manifest_inv D runID m \<longleftrightarrow> im_Version m = ManifestVersion \<and> im_CampaignID m = runID \<and> im_RunID m = runID
     \<and> map fst (im_Groups m) = OrderedGroups \<and> (\<forall>(name, g) \<in> set (im_Groups m). \<exists>g'. g = Some g' \<and> group_inv D name g')"

lemma new_manifest_inv: "manifest_inv {} runID (new_manifest T runID configPath manifests targetsDir now)"
  by (auto simp: manifest_inv_def new_manifest_def group_inv_def pending_group_def comp_def)

lemma manifest_inv_updated [simp]: "manifest_inv D runID (m\<lparr>im_UpdatedAt := now\<rparr>) = manifest_inv D runID m"
  by (simp add: manifest_inv_def)

lemma manifest_inv_group:
  assumes "manifest_inv D runID m" "(name, g) \<in> set (im_Groups m)"
  obtains g' where "g = Some g'" "group_inv D name g'"
  using assms unfolding manifest_inv_def by blast

lemma manifest_inv_fields:
  "manifest_inv D runID m \<Longrightarrow> im_Version m = ManifestVersion" "manifest_inv D runID m \<Longrightarrow> im_CampaignID m = runID"
  "manifest_inv D runID m \<Longrightarrow> im_RunID m = runID" "manifest_inv D runID m \<Longrightarrow> map fst (im_Groups m) = OrderedGroups"
  by (simp_all add: manifest_inv_def)

lemma update_group_inv:
  assumes "manifest_inv D runID m" "\<And>g. group_inv D name g \<Longrightarrow> group_inv D' name (f g)"
    and "\<And>n g. n \<noteq> name \<Longrightarrow> group_inv D n g \<Longrightarrow> group_inv D' n g"
  shows "manifest_inv D' runID (update_group name f m)"
proof -
  have "map fst (im_Groups (update_group name f m)) = map fst (im_Groups m)"
    by (simp add: update_group_def case_prod_beta comp_def)
  moreover have "\<exists>g'. g = Some g' \<and> group_inv D' n g'" if "(n, g) \<in> set (im_Groups (update_group name f m))" for n g
  proof -
    note entry = that
    obtain h where h: "(n, h) \<in> set (im_Groups m)" "g = (if n = name then map_option f h else h)"
      using entry unfolding update_group_def by fastforce
    obtain h' where "h = Some h'" "group_inv D n h'" by (rule manifest_inv_group [OF assms(1) h(1)])
    then show ?thesis using h(2) assms(2,3) by auto
  qed
  moreover have "im_Version (update_group name f m) = im_Version m" "im_CampaignID (update_group name f m) = im_CampaignID m"
    "im_RunID (update_group name f m) = im_RunID m"
    by (simp_all add: update_group_def)
  ultimately show ?thesis using manifest_inv_fields [OF assms(1)] unfolding manifest_inv_def by (auto simp only: split_paired_all)
qed

lemma measured_group_inv:
  assumes "group_inv D name g" "id_fits name kind i" "(''mass'', name) \<notin> D"
  shows "group_inv (insert (kind, name) D) name (measured_group kind i now g)"
  using assms by (auto simp: group_inv_def measured_group_def map_put_def update_conv' distinct_update)

lemma group_inv_other: "n \<noteq> name \<Longrightarrow> group_inv D n g \<Longrightarrow> group_inv (insert (kind, name) D) n g"
  by (auto simp: group_inv_def)

lemma known_group:
  assumes "name \<in> set OrderedGroups"
  shows "GroupProtocols name \<noteq> []" "(kind, name) \<in> set (samples_of OrderedGroups) \<longleftrightarrow> kind \<in> {''base'', ''mass''}"
proof -
  have "list_all (\<lambda>g. GroupProtocols g \<noteq> []) OrderedGroups" by code_simp
  then show "GroupProtocols name \<noteq> []" using assms by (simp add: list_all_iff)
  have "set (samples_of xs) = {''base'', ''mass''} \<times> set xs" for xs by (auto simp: samples_of_def)
  then show "(kind, name) \<in> set (samples_of OrderedGroups) \<longleftrightarrow> kind \<in> {''base'', ''mass''}" using assms by simp
qed

lemma complete_manifest_valid:
  assumes "manifest_inv (set (samples_of OrderedGroups)) runID m" "SafeID runID"
  shows "ValidateManifest m True = None"
proof -
  let ?D = "set (samples_of OrderedGroups)"
  have groups: "check_group ManifestVersion True (name, g) = None" if "(name, g) \<in> set (im_Groups m)" for name g
  proof -
    note entry = that
    obtain h where h: "g = Some h" "group_inv ?D name h" by (rule manifest_inv_group [OF assms(1) entry])
    have "name \<in> set (map fst (im_Groups m))" using entry by force
    then have "name \<in> set OrderedGroups" using manifest_inv_fields(4) [OF assms(1)] by simp
    then have known: "GroupProtocols name \<noteq> []" "(kind, name) \<in> ?D \<longleftrightarrow> kind \<in> {''base'', ''mass''}" for kind
      by (rule known_group)+
    have keys: "dom (map_of (gr_Measurements h)) = {''base'', ''mass''}" "distinct (map fst (gr_Measurements h))"
      using h(2) known(2) by (auto simp: group_inv_def)
    have "length (gr_Measurements h) = card (set (map fst (gr_Measurements h)))" using keys(2) by (metis distinct_card length_map)
    also have "set (map fst (gr_Measurements h)) = {''base'', ''mass''}" using keys(1) by (simp add: dom_map_of_conv_image_fst)
    also have "card {''base'', ''mass''} = 2" by simp
    finally have two: "length (gr_Measurements h) = 2" .
    have "id_fits name kind (map_get (gr_Measurements h) kind)" if "kind \<in> {''base'', ''mass''}" for kind
    proof -
      have "kind \<in> dom (map_of (gr_Measurements h))" using that unfolding keys(1) .
      then obtain i where "map_of (gr_Measurements h) kind = Some i" by blast
      then show ?thesis using h(2) by (simp add: group_inv_def map_get_def)
    qed
    then have "valid_ids ManifestVersion name h" using two by (simp add: valid_ids_def id_fits_def)
    then show ?thesis using h known by (auto simp: check_group_def group_inv_def)
  qed
  have "check_groups ManifestVersion True gs = None" if "set gs \<subseteq> set (im_Groups m)" for gs
    using that by (induction gs) (auto simp: groups split: option.split)
  moreover have "im_Groups m \<noteq> []" using manifest_inv_fields(4) [OF assms(1)] by (auto simp: OrderedGroups_def)
  ultimately show ?thesis
    using manifest_inv_fields(1-3) [OF assms(1)] assms(2) by (simp add: ValidateManifest_def)
qed


section \<open>The run\<close>

text \<open>
  The measurement command prints, for a sample, an identifier of that sample in the safe alphabet, as
  \<^verbatim>\<open>paths.NewInterProtocolMeasurement\<close> makes it.\<close>

definition tool_ok :: "ip_tools \<Rightarrow> bool" where
  "tool_ok T \<longleftrightarrow> (\<forall>configPath kind g w out name i. fst (it_measure T (measure_args configPath kind g) w) = Inr out \<longrightarrow>
     measurementID out name = Some i \<longrightarrow> SafeID i \<and> has_suffix (CHR ''_'' # kind) i)"

lemma measurementID_prefix: "measurementID out name = Some i \<Longrightarrow> has_prefix (''interprotocol-'' @ name @ ''_'') i"
  by (auto simp: measurementID_def find_Some_iff)

lemma SaveManifest_Inr:
  "SaveManifest L W now path m w = (Inr m', ws) \<Longrightarrow>
     m' = m\<lparr>im_UpdatedAt := now\<rparr> \<and> cl_local (last (w # ws)) path = Some (il_encode_manifest L m')"
  using traced_ok_result [OF SaveManifest_ok [of path "cl_local w path" L W now m], of w m' ws] by auto

lemma measure_group_inv:
  assumes "measure_group L W T configPath path kind name m w = (Inr m', ws)" "manifest_inv D runID m" "tool_ok T"
    "(''mass'', name) \<notin> D"
  shows "manifest_inv (insert (kind, name) D) runID m' \<and> cl_local (last (w # ws)) path = Some (il_encode_manifest L m')"
proof -
  let ?running = "update_group name (\<lambda>g. g\<lparr>gr_Status := ''running'', gr_StartedAt := it_now T w\<rparr>) m"
  obtain m1 us1 g us2 out i us3 where run: "SaveManifest L W (it_now T w) path ?running w = (Inr m1, us1)"
      "group_of m1 name = Some g" "run_tool T (measure_args configPath kind g) (last (w # us1)) = (Inr (Inr out), us2)"
      "measurementID out name = Some i"
      "SaveManifest L W (it_now T (last (last (w # us1) # us2))) path
        (update_group name (measured_group kind i (it_now T (last (last (w # us1) # us2)))) m1) (last (last (w # us1) # us2))
       = (Inr m', us3)"
      "ws = us1 @ us2 @ us3"
    using assms(1) unfolding measure_group_def Let_def
    by (auto elim!: tr_bind_InrE tr_seq_InrE simp: tr_Inr last_ConsL simp del: last.simps split: option.splits sum.splits)
  have "group_inv D name (g\<lparr>gr_Status := ''running'', gr_StartedAt := t\<rparr>)" if "group_inv D name g" for g t
    using that assms(4) by (simp add: group_inv_def)
  then have "manifest_inv D runID ?running" by (intro update_group_inv [OF assms(2)])
  then have m1: "manifest_inv D runID m1" using SaveManifest_Inr [OF run(1)] by (simp del: last.simps)
  have "fst (it_measure T (measure_args configPath kind g) (last (w # us1))) = Inr out"
    using run(3) unfolding run_tool_def by (auto elim!: tr_seq_InrE simp: tr_Inr simp del: last.simps)
  then have "id_fits name kind i"
    using assms(3) run(4) measurementID_prefix [OF run(4)] unfolding tool_ok_def id_fits_def by blast
  then have "manifest_inv (insert (kind, name) D) runID (update_group name (measured_group kind i t) m1)" for t
    by (intro update_group_inv [OF m1] measured_group_inv group_inv_other assms(4))
  moreover have "last (w # ws) = last (last (last (w # us1) # us2) # us3)" using run(6) by (cases us3; cases us2) simp_all
  ultimately show ?thesis using SaveManifest_Inr [OF run(5)] by simp
qed

text \<open>Each group is measured once per sample, the fixed-interval sample last.\<close>

fun order_ok :: "(string \<times> string) set \<Rightarrow> (string \<times> string) list \<Rightarrow> bool" where
  "order_ok D [] \<longleftrightarrow> True"
| "order_ok D ((kind, name) # rest) \<longleftrightarrow> (''mass'', name) \<notin> D \<and> order_ok (insert (kind, name) D) rest"

lemma samples_order: "order_ok {} (samples_of OrderedGroups)"
  by (simp add: samples_of_def OrderedGroups_def)

lemma measure_groups_inv:
  assumes "measure_groups L W T configPath path rest m w = (Inr m', ws)" "manifest_inv D runID m" "tool_ok T" "order_ok D rest"
    "cl_local w path = Some (il_encode_manifest L m)"
  shows "manifest_inv (D \<union> set rest) runID m' \<and> cl_local (last (w # ws)) path = Some (il_encode_manifest L m')"
  using assms
proof (induction rest arbitrary: m w ws D)
  case Nil
  then show ?case by (simp add: tr_Inr)
next
  case (Cons x rest)
  obtain kind name where x: "x = (kind, name)" by fastforce
  obtain m1 us vs where m1: "measure_group L W T configPath path kind name m w = (Inr m1, us)"
      "measure_groups L W T configPath path rest m1 (last (w # us)) = (Inr m', vs)" "ws = us @ vs"
    using Cons.prems(1) unfolding x measure_groups.simps by (rule tr_bind_InrE)
  have "manifest_inv (insert (kind, name) D) runID m1 \<and> cl_local (last (w # us)) path = Some (il_encode_manifest L m1)"
    using Cons.prems(4) x by (intro measure_group_inv [OF m1(1) Cons.prems(2,3)]) simp
  then have "manifest_inv (insert (kind, name) D \<union> set rest) runID m'
      \<and> cl_local (last (last (w # us) # vs)) path = Some (il_encode_manifest L m')"
    using Cons.prems(4) x by (intro Cons.IH [OF m1(2) _ Cons.prems(3)]) simp_all
  moreover have "last (w # ws) = last (last (w # us) # vs)" using m1(3) by (cases vs) simp_all
  ultimately show ?case by (simp add: x del: last.simps)
qed

text \<open>
  C15: A run that has finished its eight measurements leaves a manifest that the publication accepts: every group is
  complete, in the order of its protocols, with a safe identifier for each of the two samples; it is the manifest on
  disk, and it is that of this run.\<close>

theorem campaign_manifest_complete:
  assumes "tool_ok T" "SafeID runID"
    and "run_measurements_of L W T configPath runID manifests dir targetsDir w = (Inr m, ws)"
  shows "ValidateManifest m True = None \<and> im_RunID m = runID
    \<and> cl_local (last (w # ws)) (in_dir dir ''manifest.json'') = Some (il_encode_manifest L m)"
proof -
  let ?path = "in_dir dir ''manifest.json''"
  let ?new = "new_manifest T runID configPath manifests targetsDir (it_now T w)"
  obtain us1 m0 us2 vs where run: "SaveManifest L W (it_now T (last (w # us1))) ?path ?new (last (w # us1)) = (Inr m0, us2)"
      "measure_groups L W T configPath ?path (samples_of OrderedGroups) m0 (last (last (w # us1) # us2)) = (Inr m, vs)"
      "ws = us1 @ us2 @ vs"
    using assms(3) unfolding run_measurements_of_def Let_def
    by (auto elim!: tr_bind_InrE tr_seq_InrE simp: tr_Inr last_ConsL simp del: last.simps)
  have m0: "manifest_inv {} runID m0" "cl_local (last (last (w # us1) # us2)) ?path = Some (il_encode_manifest L m0)"
    using SaveManifest_Inr [OF run(1)] new_manifest_inv by auto
  have "manifest_inv ({} \<union> set (samples_of OrderedGroups)) runID m
      \<and> cl_local (last (last (last (w # us1) # us2) # vs)) ?path = Some (il_encode_manifest L m)"
    by (rule measure_groups_inv [OF run(2) m0(1) assms(1) samples_order m0(2)])
  moreover have "last (w # ws) = last (last (last (w # us1) # us2) # vs)" using run(3) by (cases vs; cases us2) simp_all
  ultimately show ?thesis using complete_manifest_valid [OF _ assms(2)] by (simp add: manifest_inv_def del: last.simps)
qed



section \<open>A run that finishes\<close>

lemma SaveManifest_works:
  assumes "\<forall>p. wd_file W p = Works" "ValidateManifest m False = None"
  shows "\<exists>ws. SaveManifest L W now path m w = (Inr (m\<lparr>im_UpdatedAt := now\<rparr>), ws)"
  using assms by (simp add: SaveManifest_def Let_def tr_seq_def tr_bind_def validated_run tr_check_def tr_return_def write_local_works
      set_local_def tr_update_def rename_local_def)

lemma manifest_inv_valid:
  assumes "manifest_inv D runID m" "SafeID runID"
  shows "ValidateManifest m False = None"
proof -
  have groups: "check_group v False (name, g) = None" if "(name, g) \<in> set (im_Groups m)" for v name g
  proof -
    note entry = that
    obtain h where h: "g = Some h" "group_inv D name h" by (rule manifest_inv_group [OF assms(1) entry])
    have "name \<in> set (map fst (im_Groups m))" using entry by force
    then have "name \<in> set OrderedGroups" using manifest_inv_fields(4) [OF assms(1)] by simp
    then show ?thesis using h known_group(1) by (simp add: check_group_def group_inv_def)
  qed
  have "check_groups v False gs = None" if "set gs \<subseteq> set (im_Groups m)" for v gs
    using that by (induction gs) (auto simp: groups split: option.split)
  moreover have "im_Groups m \<noteq> []" using manifest_inv_fields(4) [OF assms(1)] by (auto simp: OrderedGroups_def)
  ultimately show ?thesis
    using manifest_inv_fields(1-3) [OF assms(1)] assms(2) by (simp add: ValidateManifest_def)
qed

text \<open>The measurement command succeeds for every group and sample, and prints an identifier of the group.\<close>

definition tool_works :: "ip_tools \<Rightarrow> bool" where
  "tool_works T \<longleftrightarrow> (\<forall>configPath kind name g w. kind \<in> {''base'', ''mass''} \<longrightarrow> name \<in> set OrderedGroups \<longrightarrow>
     gr_Protocols g = GroupProtocols name \<longrightarrow>
     (\<exists>out i. fst (it_measure T (measure_args configPath kind g) w) = Inr out \<and> measurementID out name = Some i))"

lemma group_of_inv:
  assumes "manifest_inv D runID m" "name \<in> set OrderedGroups"
  obtains g where "group_of m name = Some g" "group_inv D name g"
proof -
  have "name \<in> set (map fst (im_Groups m))" using assms(2) manifest_inv_fields(4) [OF assms(1)] by simp
  then have "name \<in> dom (map_of (im_Groups m))" by (simp add: dom_map_of_conv_image_fst)
  then obtain h where h: "map_of (im_Groups m) name = Some h" by blast
  obtain g where "h = Some g" "group_inv D name g" by (rule manifest_inv_group [OF assms(1) map_of_SomeD [OF h]])
  then show thesis using that h by (simp add: group_of_def)
qed

lemma measure_group_returns:
  assumes "\<forall>p. wd_file W p = Works" "tool_works T" "tool_ok T" "SafeID runID" "manifest_inv D runID m" "(''mass'', name) \<notin> D"
    "kind \<in> {''base'', ''mass''}" "name \<in> set OrderedGroups"
  shows "\<exists>m' ws. measure_group L W T configPath path kind name m w = (Inr m', ws)"
proof -
  define r where "r = update_group name (\<lambda>g. g\<lparr>gr_Status := ''running'', gr_StartedAt := it_now T w\<rparr>) m"
  have keep: "group_inv D name (g\<lparr>gr_Status := ''running'', gr_StartedAt := it_now T w\<rparr>)" if "group_inv D name g" for g
    using that assms(6) by (simp add: group_inv_def)
  then have r: "manifest_inv D runID r" unfolding r_def by (intro update_group_inv [OF assms(5)])
  define m1 where "m1 = r\<lparr>im_UpdatedAt := it_now T w\<rparr>"
  have m1: "manifest_inv D runID m1" using r by (simp add: m1_def)
  obtain us where us: "SaveManifest L W (it_now T w) path r w = (Inr m1, us)"
    using SaveManifest_works [OF assms(1) manifest_inv_valid [OF r assms(4)]] m1_def by blast
  obtain g where g: "group_of m1 name = Some g" "group_inv D name g" by (rule group_of_inv [OF m1 assms(8)])
  define v where "v = last (w # us)"
  have "gr_Protocols g = GroupProtocols name" using g(2) by (simp add: group_inv_def)
  note tool = assms(2) [unfolded tool_works_def, rule_format, OF assms(7,8) this]
  obtain out i where out: "fst (it_measure T (measure_args configPath kind g) v) = Inr out" "measurementID out name = Some i"
    using tool [of configPath v] by (elim exE conjE)
  define u where "u = snd (it_measure T (measure_args configPath kind g) v)"
  have ran: "run_tool T (measure_args configPath kind g) v = (Inr (Inr out), [u])"
    by (simp add: run_tool_def out tr_seq_def tr_bind_def tr_get_def tr_update_def tr_return_def u_def)
  have "id_fits name kind i"
    using assms(3) out measurementID_prefix [OF out(2)] unfolding tool_ok_def id_fits_def by blast
  then have "manifest_inv (insert (kind, name) D) runID (update_group name (measured_group kind i (it_now T u)) m1)"
    by (intro update_group_inv [OF m1] measured_group_inv group_inv_other assms(6))
  then obtain m' vs where "SaveManifest L W (it_now T u) path (update_group name (measured_group kind i (it_now T u)) m1) u = (Inr m', vs)"
    using SaveManifest_works [OF assms(1) manifest_inv_valid [OF _ assms(4)]] by blast
  then have "measure_group L W T configPath path kind name m w = (Inr m', us @ [u] @ vs)"
    unfolding measure_group_def Let_def tr_bind_get r_def [symmetric]
    by (simp add: tr_bind_def us g(1) ran v_def [symmetric] out(2) tr_get_def del: last.simps) (simp add: last_ConsL)
  then show ?thesis by blast
qed

lemma measure_groups_return:
  assumes "\<forall>p. wd_file W p = Works" "tool_works T" "tool_ok T" "SafeID runID"
  shows "manifest_inv D runID m \<Longrightarrow> order_ok D rest \<Longrightarrow> set rest \<subseteq> {''base'', ''mass''} \<times> set OrderedGroups \<Longrightarrow>
    cl_local w path = Some (il_encode_manifest L m) \<Longrightarrow>
    \<exists>m' ws. measure_groups L W T configPath path rest m w = (Inr m', ws)"
proof (induction rest arbitrary: m w D)
  case Nil
  then show ?case by (simp add: tr_return_def)
next
  case (Cons x rest)
  obtain kind name where x: "x = (kind, name)" by fastforce
  have c: "(''mass'', name) \<notin> D" "kind \<in> {''base'', ''mass''}" "name \<in> set OrderedGroups" using Cons.prems(2,3) x by auto
  obtain m1 us where m1: "measure_group L W T configPath path kind name m w = (Inr m1, us)"
    using measure_group_returns [OF assms Cons.prems(1) c] by blast
  have "manifest_inv (insert (kind, name) D) runID m1 \<and> cl_local (last (w # us)) path = Some (il_encode_manifest L m1)"
    by (rule measure_group_inv [OF m1 Cons.prems(1) assms(3) c(1)])
  then obtain m' vs where "measure_groups L W T configPath path rest m1 (last (w # us)) = (Inr m', vs)"
    using Cons.IH [of "insert (kind, name) D" m1 "last (w # us)"] Cons.prems(2,3) x by auto
  then have "measure_groups L W T configPath path (x # rest) m w = (Inr m', us @ vs)"
    unfolding x measure_groups.simps by (rule tr_bind_Inr [where a = m1, rotated]) (rule m1)
  then show ?case by blast
qed

lemma stat_all: "\<forall>n \<in> set ns. cl_local w (f n) \<noteq> None \<Longrightarrow> \<exists>us. tr_each (\<lambda>n. stat_local W (f n)) ns w = (Inr us, [])"
  by (induction ns) (auto simp: stat_local_def tr_return_def tr_bind_def tr_get_def tr_check_def)

lemma run_measurements_return:
  assumes "\<forall>p. wd_file W p = Works" "tool_works T" "tool_ok T" "SafeID runID"
    and "\<forall>name \<in> set OrderedGroups. cl_local w (in_dir targetsDir (name @ ''-targets.pq'')) \<noteq> None"
  shows "\<exists>m ws. run_measurements_of L W T configPath runID manifests dir targetsDir w = (Inr m, ws)"
proof -
  let ?path = "in_dir dir ''manifest.json''" and ?new = "new_manifest T runID configPath manifests targetsDir (it_now T w)"
  obtain us where stat: "tr_each (\<lambda>name. stat_local W (in_dir targetsDir (name @ ''-targets.pq''))) OrderedGroups w = (Inr us, [])"
    using stat_all [of OrderedGroups w "\<lambda>name. in_dir targetsDir (name @ ''-targets.pq'')"] assms(5) by blast
  obtain m0 vs where m0: "SaveManifest L W (it_now T w) ?path ?new w = (Inr m0, vs)"
    using SaveManifest_works [OF assms(1) manifest_inv_valid [OF new_manifest_inv assms(4)]] by blast
  have "manifest_inv {} runID m0" "cl_local (last (w # vs)) ?path = Some (il_encode_manifest L m0)"
    using SaveManifest_Inr [OF m0] new_manifest_inv by auto
  moreover have "set (samples_of OrderedGroups) \<subseteq> {''base'', ''mass''} \<times> set OrderedGroups" by (auto simp: samples_of_def)
  ultimately obtain m ws where m: "measure_groups L W T configPath ?path (samples_of OrderedGroups) m0 (last (w # vs)) = (Inr m, ws)"
    using measure_groups_return [OF assms(1-4) _ samples_order] by blast
  have "run_measurements_of L W T configPath runID manifests dir targetsDir w = (Inr m, vs @ ws)"
  proof -
    have "tr_bind (tr_bind (tr_get (it_now T)) (\<lambda>now'. SaveManifest L W now' ?path ?new))
        (\<lambda>m. measure_groups L W T configPath ?path (samples_of OrderedGroups) m) w = (Inr m, vs @ ws)"
      by (rule tr_bind_Inr [where a = m0]) (simp_all add: tr_bind_get m0 m del: last.simps)
    then show ?thesis
      unfolding run_measurements_of_def Let_def tr_bind_get tr_seq_def by (simp add: tr_bind_def [of "tr_each _ _"] stat)
  qed
  then show ?thesis by blast
qed



section \<open>A final job that finishes\<close>

lemma publish_final_returns:
  assumes "\<forall>n. wd_access W n = Works" "\<forall>p. wd_file W p = Works" "cl_local w (in_dir dir ''manifest.json'') = Some data"
    "il_decode_manifest L data = Some m" "ValidateManifest m False = None" "ValidateManifest m True = None"
    "loadWorkflowConfig L W configPath w = (Inr c, [])"
  shows "\<exists>us. publish_final L W configPath (in_dir dir ''manifest.json'') now w = (Inr (ip_request_uri c m), us) \<and> us \<noteq> []
    \<and> cl_local (last us) = (cl_local w)(in_dir dir ''request.json'' \<mapsto> il_encode_request L (ip_request_of c m now))
    \<and> cl_clock (last us) = cl_clock w + 2"
proof -
  let ?p = "in_dir dir ''manifest.json''" and ?q = "in_dir dir ''request.json''"
  let ?r = "ip_request_of c m now" and ?e = "il_encode_request L (ip_request_of c m now)"
  have req: "beside ?p ''request.json'' = ?q" by (rule beside_in_dir) simp
  have differ: "?p \<noteq> ?q" by (simp add: in_dir_def)
  define w1 where "w1 = w\<lparr>cl_local := (cl_local w)(?q \<mapsto> ?e)\<rparr>"
  define w2 where "w2 = (tick W w1)\<lparr>cl_remote := (cl_remote (tick W w1))(ir_ManifestURI ?r \<mapsto> data)\<rparr>"
  define w3 where "w3 = (tick W w2)\<lparr>cl_remote := (cl_remote (tick W w2))(ip_request_uri c m \<mapsto> ?e)\<rparr>"
  have load: "LoadManifest L W ?p w = (Inr m, [])" using assms(2-5) by (simp add: LoadManifest_run loaded_def)
  obtain vs where written: "write_local W ?q ?e w = (Inr (), vs @ [w1])"
    using write_local_last [OF spec [OF assms(2)]] unfolding w1_def by blast
  have put1: "s3_put W ?p (ir_ManifestURI ?r) w1 = (Inr (), [tick W w1, w2])"
    unfolding w2_def by (rule s3_put_works) (use differ in \<open>simp_all add: assms(1,3) w1_def\<close>)
  have put2: "s3_put W ?q (ip_request_uri c m) w2 = (Inr (), [tick W w2, w3])"
    unfolding w3_def by (rule s3_put_works) (simp_all add: assms(1) w2_def w1_def)
  have "publish_final L W configPath ?p now w = (Inr (ip_request_uri c m), vs @ [w1, tick W w1, w2, tick W w2, w3])"
    unfolding publish_final_def Let_def req tr_seq_def tr_bind_def
    by (simp add: load validated_run assms(6,7) written put1 put2 tr_return_def)
  then show ?thesis
    by (intro exI [of _ "vs @ [w1, tick W w1, w2, tick W w2, w3]"]) (simp add: w3_def w2_def w1_def)
qed

lemma wait_final_returns:
  assumes "\<forall>n. wd_access W n = Works" "\<forall>p. wd_file W p = Works"
    and "cl_local w (in_dir dir ''request.json'') = Some data" "il_decode_request L data = Some request"
    and "cl_local w configPath = Some conf" "il_decode_config L conf = Some c" "check_durations L c w = (Inr (), [])"
    and "\<And>n r. \<not> listed (wd_ls W (wd_change W n r) (ir_FailedURI request)) (ir_FailedURI request)"
    and "\<And>n r. listed (wd_ls W (wd_change W n r) (ir_DoneURI request)) (ir_DoneURI request) = (M \<le> n)"
    and "\<And>n r. M \<le> n \<Longrightarrow> wd_change W n r (ir_DoneURI request) = Some marker"
    and "il_decode_done L marker = Some d" "done_fits request d" "M \<le> cl_clock w + 2 * k + 1"
  shows "\<exists>ws. wait_final L W configPath (in_dir dir ''manifest.json'') k w = (Inr d, ws)"
proof -
  let ?p = "in_dir dir ''manifest.json''"
  have beside: "beside ?p x = in_dir dir x" for x by (rule beside_in_dir) simp
  have "\<exists>ws. poll_final L W request ?p v = (Inr (Some d), ws) \<and> True" if "M \<le> Suc (cl_clock v)" for v
  proof -
    let ?m = "in_dir dir ''analysis-done.json''" and ?v = "tick W (tick W v)"
    have "objectExists W (ir_FailedURI request) v = (Inr False, [tick W v])"
      using assms(1,8) by (simp add: objectExists_run)
    moreover have "objectExists W (ir_DoneURI request) (tick W v) = (Inr True, [?v])"
      using assms(1,9) that by (simp add: objectExists_run)
    moreover have "getJSON W (il_decode_done L) (ir_DoneURI request) ?m ?v
        = (Inr d, [tick W ?v, (tick W ?v)\<lparr>cl_local := (cl_local ?v)(?m \<mapsto> marker)\<rparr>])"
      by (rule getJSON_works) (use assms(1,2,10,11) that in simp_all)
    ultimately show ?thesis
      using assms(12) unfolding poll_final_def beside by (simp add: tr_bind_def done_fits_def tr_return_def)
  qed
  moreover have "poll_final L W request ?p v = (Inr None, [tick W v, tick W (tick W v)])" if "Suc (cl_clock v) < M" for v
    using that assms(1,8,9) unfolding poll_final_def by (simp add: objectExists_run tr_bind_def tr_return_def)
  ultimately obtain ws where ws: "wait_poll (poll_final L W request ?p) k w = (Inr d, ws)"
    using wait_poll_returns [of M "poll_final L W request ?p" d "\<lambda>_. True" W w k] assms(13) by blast
  have "read_as W (il_decode_request L) (in_dir dir ''request.json'') w = (Inr request, [])"
    "read_as W (il_decode_config L) configPath w = (Inr c, [])"
    using assms(2-6) by (simp_all add: read_as_Inr)
  then show ?thesis
    using ws assms(7) unfolding wait_final_def beside by (simp add: tr_bind_def tr_seq_def)
qed


section \<open>Concrete runs\<close>

definition demo_ip_id :: "string \<Rightarrow> string \<Rightarrow> string" where
  "demo_ip_id name kind = ''interprotocol-'' @ name @ ''_1_'' @ kind"

definition demo_complete :: ip_manifest where
  "demo_complete =
     \<lparr>im_Version = 2, im_CampaignID = ''r1'', im_RunID = ''r1'', im_CreatedAt = ''t'', im_UpdatedAt = ''t'', im_Config = ''c'',
      im_TargetsDir = ''/r/targets'', im_TCPPort = 80, im_UDPPort = 53, im_BaseManifests = [],
      im_Groups = map (\<lambda>name. (name, Some
        \<lparr>gr_Protocols = GroupProtocols name, gr_TargetFile = ''/r/targets/'' @ name @ ''-targets.pq'', gr_Status = ''complete'',
         gr_MeasurementID = [], gr_Measurements = [(''base'', demo_ip_id name ''base''), (''mass'', demo_ip_id name ''mass'')],
         gr_StartedAt = ''t'', gr_CompletedAt = ''t'', gr_Error = []\<rparr>)) OrderedGroups\<rparr>"

definition ip_request_codec :: "ip_request codec" where
  "ip_request_codec =
     map_codec (\<lambda>r. (ir_Version r, ir_JobID r, ir_CampaignID r, ir_ManifestURI r, ir_IPIDPrefix r, ir_ResultPrefix r, ir_DoneURI r,
          ir_FailedURI r, ir_CreatedAt r))
       (\<lambda>(v, j, c, m, i, p, d, f, t). \<lparr>ir_Version = v, ir_JobID = j, ir_CampaignID = c, ir_ManifestURI = m, ir_IPIDPrefix = i,
          ir_ResultPrefix = p, ir_DoneURI = d, ir_FailedURI = f, ir_CreatedAt = t\<rparr>)
       (pair_codec int_codec (pair_codec string_codec (pair_codec string_codec (pair_codec string_codec (pair_codec string_codec
         (pair_codec string_codec (pair_codec string_codec (pair_codec string_codec string_codec))))))))"

lemma ip_request_codec_ok [codecs]: "codec_ok ip_request_codec"
  unfolding ip_request_codec_def by (rule map_codec_ok) (simp_all add: codecs)

definition demo_ip_config :: ip_config where
  "demo_ip_config = \<lparr>ic_S3Destination = ''s3://d'', ic_S3Prefix = ''s3://w'', ic_PollInterval = [], ic_Timeout = []\<rparr>"

definition demo_ip_library :: ip_library where
  "demo_ip_library =
     \<lparr>il_decode_config = (\<lambda>_. Some demo_ip_config), il_encode_manifest = (\<lambda>_. ''m''), il_decode_manifest = (\<lambda>_. Some demo_complete),
      il_encode_request = encode_with ip_request_codec, il_decode_request = decode_with ip_request_codec,
      il_encode_targets = (\<lambda>_. ''t''),
      il_decode_targets = (\<lambda>_. Some \<lparr>td_Version = 1, td_JobID = ''r1'', td_CampaignID = ''r1'',
        td_TargetPrefix = ''s3://w/interprotocol-target-jobs/r1/targets'', td_Rows = [], td_CompletedAt = ''t''\<rparr>),
      il_decode_done = (\<lambda>_. Some \<lparr>id_Version = 1, id_JobID = ''r1'', id_CampaignID = ''r1'',
        id_ResultPrefix = ''s3://w/interprotocol-jobs/r1/results'', id_Rows = 4, id_CompletedAt = ''t''\<rparr>),
      il_decode_failed = (\<lambda>_. None), il_duration = (\<lambda>_. None)\<rparr>"

text \<open>All markers are there from tick 9 on, none of a failure ever.\<close>

definition demo_ip_change :: "nat \<Rightarrow> store \<Rightarrow> store" where
  "demo_ip_change n r = (\<lambda>uri. if has_suffix ''failed.json'' uri then None
     else if has_suffix ''.json'' uri then (if n < 9 then None else Some ''done'') else Some ''pq'')"

definition demo_ip_world :: s3_world where
  "demo_ip_world = \<lparr>wd_change = demo_ip_change, wd_access = (\<lambda>_. Works), wd_partial = (\<lambda>_. None),
     wd_ls = (\<lambda>r uri. if r uri = None then [] else uri), wd_file = (\<lambda>_. Works), wd_short = (\<lambda>_. 0)\<rparr>"

definition demo_base_manifests :: "(string \<times> string) list" where
  "demo_base_manifests = [(''icmp'', ''s3://w/analysis-jobs/i/manifest.json''), (''tcp'', ''s3://w/analysis-jobs/t/manifest.json''),
     (''udp'', ''s3://w/analysis-jobs/u/manifest.json'')]"

definition demo_ip_client :: client where
  "demo_ip_client = \<lparr>cl_local = [''c'' \<mapsto> ''yaml'', ''/r/manifest.json'' \<mapsto> ''m''], cl_remote = Map.empty, cl_clock = 0\<rparr>"

text \<open>The command measures the groups it is asked for, under a fixed time.\<close>

definition demo_ip_tools :: ip_tools where
  "demo_ip_tools =
     \<lparr>it_measure = (\<lambda>args w.
        (let i = demo_ip_id (map (\<lambda>c. if c = CHR '','' then CHR ''-'' else c) (args ! 7)) (args ! 1)
         in if SafeID i then Inr i else Inl ''invalid group'', w)),
      it_now = (\<lambda>_. ''t''), it_abs = id\<rparr>"

lemma plain_listed: "uri \<noteq> [] \<Longrightarrow> list_all (\<lambda>c. \<not> white c) uri \<Longrightarrow> listed uri uri"
proof -
  assume plain: "uri \<noteq> []" "list_all (\<lambda>c. \<not> white c) uri"
  have "char_of (10 :: nat) \<notin> set uri" using plain(2) by (auto simp: list_all_iff white_def)
  then have "split_on (char_of (10 :: nat)) uri = [uri]" by (rule split_on_no_sep)
  moreover have "Fields uri = [uri]" using words_of_plain [of uri "[]"] plain by (simp add: Fields_def)
  ultimately show "listed uri uri" by (simp add: listed_def)
qed

lemma demo_listed:
  assumes "uri \<noteq> []" "list_all (\<lambda>c. \<not> white c) uri"
  shows "listed (wd_ls demo_ip_world (wd_change demo_ip_world n r) uri) uri = (demo_ip_change n r uri \<noteq> None)"
proof (cases "demo_ip_change n r uri")
  case None
  have "\<not> listed [] uri" using assms(1) by (simp add: listed_def Fields_def)
  then show ?thesis using None by (simp add: demo_ip_world_def)
next
  case (Some c)
  then show ?thesis using plain_listed [OF assms] by (simp add: demo_ip_world_def)
qed


lemma safe_plain: "SafeID s \<Longrightarrow> list_all (\<lambda>c. \<not> white c) s"
proof -
  have "\<not> white c" if "id_char c \<or> c \<in> {CHR ''.'', CHR ''_'', CHR ''-''}" for c
    using that by (auto simp: white_def id_char_def Let_def)
  then show "SafeID s \<Longrightarrow> list_all (\<lambda>c. \<not> white c) s" by (auto simp: SafeID_def list_all_iff)
qed

lemma measurementID_safe:
  assumes "SafeID out" "measurementID out name = Some i"
  shows "i = out"
proof -
  have plain: "list_all (\<lambda>c. \<not> white c) out" by (rule safe_plain [OF assms(1)])
  then have "char_of (10 :: nat) \<notin> set out" by (auto simp: list_all_iff white_def)
  moreover have "dropWhile white xs = xs" if "list_all (\<lambda>c. \<not> white c) xs" for xs using that by (cases xs) auto
  then have "trim_white out = out" using plain by (simp add: trim_white_def)
  ultimately show ?thesis using assms(2) by (auto simp: measurementID_def split_on_no_sep split: if_splits)
qed

lemma has_suffix_append [simp]: "has_suffix s (x @ s)"
  by (simp add: has_suffix_def)

lemma demo_tools_ok: "tool_ok demo_ip_tools"
proof -
  have "SafeID i \<and> has_suffix (CHR ''_'' # kind) i"
    if "measurementID out name = Some i" "out = demo_ip_id x kind" "SafeID out" for out name i x kind
  proof -
    have "i = out" by (rule measurementID_safe [OF that(3,1)])
    moreover have "out = (''interprotocol-'' @ x @ ''_1'') @ CHR ''_'' # kind" using that(2) by (simp add: demo_ip_id_def)
    then have "has_suffix (CHR ''_'' # kind) out" by (simp only: has_suffix_append)
    ultimately show ?thesis using that(3) by simp
  qed
  then show ?thesis
    by (auto simp: tool_ok_def demo_ip_tools_def measure_args_def Let_def split: if_splits)
qed

lemma demo_tools_work: "tool_works demo_ip_tools"
proof -
  have names: "list_all (\<lambda>(kind, name). map (\<lambda>c. if c = CHR '','' then CHR ''-'' else c) (join_on (CHR '','') (GroupProtocols name)) = name
      \<and> SafeID (demo_ip_id name kind) \<and> measurementID (demo_ip_id name kind) name = Some (demo_ip_id name kind)) (samples_of OrderedGroups)"
    by code_simp
  have samples: "(kind, name) \<in> set (samples_of OrderedGroups)" if "kind \<in> {''base'', ''mass''}" "name \<in> set OrderedGroups" for kind name
    using known_group(2) [OF that(2)] that(1) by blast
  have "fst (it_measure demo_ip_tools (measure_args configPath kind g) w) = Inr (demo_ip_id name kind)
      \<and> measurementID (demo_ip_id name kind) name = Some (demo_ip_id name kind)"
    if "kind \<in> {''base'', ''mass''}" "name \<in> set OrderedGroups" "gr_Protocols g = GroupProtocols name" for configPath kind name g w
    using names samples [OF that(1,2)] that(3)
    by (auto simp: list_all_iff demo_ip_tools_def measure_args_def Let_def)
  then show ?thesis unfolding tool_works_def by blast
qed

theorem SaveManifest_atomic_witness:
  "\<exists>m' ws. SaveManifest demo_ip_library demo_ip_world ''t'' ''/r/manifest.json'' demo_complete demo_ip_client = (Inr m', ws)
    \<and> fst (LoadManifest demo_ip_library demo_ip_world ''/r/manifest.json'' (last (demo_ip_client # ws))) = Inr m'"
proof -
  have "il_decode_manifest demo_ip_library (il_encode_manifest demo_ip_library (demo_complete\<lparr>im_UpdatedAt := ''t''\<rparr>))
      = Some (demo_complete\<lparr>im_UpdatedAt := ''t''\<rparr>)"
    by (simp add: demo_ip_library_def demo_complete_def)
  note atomic = SaveManifest_atomic [OF this, of demo_ip_world "''/r/manifest.json''" demo_ip_client]
  have "ValidateManifest demo_complete False = None" by code_simp
  moreover have "\<forall>p. wd_file demo_ip_world p = Works" by (simp add: demo_ip_world_def)
  ultimately obtain ws where "SaveManifest demo_ip_library demo_ip_world ''t'' ''/r/manifest.json'' demo_complete demo_ip_client
        = (Inr (demo_complete\<lparr>im_UpdatedAt := ''t''\<rparr>), ws)"
    using SaveManifest_works by blast
  then show ?thesis using atomic by blast
qed

lemma demo_works: "\<forall>n. wd_access demo_ip_world n = Works" "\<forall>p. wd_file demo_ip_world p = Works" "permutes (\<lambda>_ xs. xs)"
  by (simp_all add: demo_ip_world_def permutes_def)

definition demo_targets_client :: client where
  "demo_targets_client = demo_ip_client\<lparr>cl_local := (\<lambda>path. Some ''pq'')\<rparr>"

theorem campaign_manifest_complete_witness:
  "\<exists>m ws. run_measurements_of demo_ip_library demo_ip_world demo_ip_tools ''c'' ''r1'' demo_base_manifests ''/r'' ''/r/targets'' demo_targets_client
      = (Inr m, ws) \<and> ValidateManifest m True = None \<and> im_RunID m = ''r1''"
proof -
  have safe: "SafeID ''r1''" by code_simp
  obtain m ws where "run_measurements_of demo_ip_library demo_ip_world demo_ip_tools ''c'' ''r1'' demo_base_manifests ''/r'' ''/r/targets''
      demo_targets_client = (Inr m, ws)"
  proof -
    have "\<forall>name \<in> set OrderedGroups. cl_local demo_targets_client (in_dir ''/r/targets'' (name @ ''-targets.pq'')) \<noteq> None"
      by (simp add: demo_targets_client_def)
    then show thesis using run_measurements_return [OF demo_works(2) demo_tools_work demo_tools_ok safe] that by blast
  qed
  then show ?thesis using campaign_manifest_complete [OF demo_tools_ok safe] by blast
qed

lemma demo_config:
  "cl_local w ''c'' = Some ''yaml'' \<Longrightarrow> loadWorkflowConfig demo_ip_library demo_ip_world ''c'' w = (Inr demo_ip_config, [])"
  "check_durations demo_ip_library demo_ip_config w = (Inr (), [])"
proof -
  have "requireS3 ''s3://d''" "requireS3 ''s3://w''" by code_simp+
  then show "cl_local w ''c'' = Some ''yaml'' \<Longrightarrow> loadWorkflowConfig demo_ip_library demo_ip_world ''c'' w = (Inr demo_ip_config, [])"
    by (simp add: loadWorkflowConfig_def read_as_def read_local_def tr_seq_def tr_bind_def tr_check_def tr_get_def tr_return_def
        validateS3_def demo_ip_library_def demo_ip_world_def demo_ip_config_def)
  show "check_durations demo_ip_library demo_ip_config w = (Inr (), [])"
    by (simp add: check_durations_def positive_duration_def demo_ip_config_def tr_seq_def tr_bind_def tr_return_def)
qed

lemma demo_published: "ValidateManifest demo_complete False = None" "ValidateManifest demo_complete True = None"
  by code_simp+

theorem final_result_is_its_own_witness:
  "\<exists>us vs d. publish_final demo_ip_library demo_ip_world ''c'' (in_dir ''/r'' ''manifest.json'') ''t'' demo_ip_client
      = (Inr (ip_request_uri demo_ip_config demo_complete), us)
    \<and> wait_final demo_ip_library demo_ip_world ''c'' (in_dir ''/r'' ''manifest.json'') 5 (last (demo_ip_client # us)) = (Inr d, vs)
    \<and> id_JobID d = ''r1''"
proof -
  let ?L = demo_ip_library and ?W = demo_ip_world and ?r = "ip_request_of demo_ip_config demo_complete ''t''"
  obtain us where us: "publish_final ?L ?W ''c'' (in_dir ''/r'' ''manifest.json'') ''t'' demo_ip_client
      = (Inr (ip_request_uri demo_ip_config demo_complete), us)" "us \<noteq> []"
      "cl_local (last us) = (cl_local demo_ip_client)(in_dir ''/r'' ''request.json'' \<mapsto> il_encode_request ?L ?r)" "cl_clock (last us) = 2"
    using publish_final_returns [OF demo_works(1,2) _ _ demo_published demo_config(1), of demo_ip_client "''/r''" "''m''" "''t''"]
    by (auto simp: demo_ip_client_def demo_ip_library_def in_dir_def)
  have roundtrip: "il_decode_request ?L (il_encode_request ?L r) = Some r" for r
    by (simp add: demo_ip_library_def decode_encode_with codecs)
  have uris: "ir_FailedURI ?r = ''s3://w/interprotocol-jobs/r1/failed.json''" "ir_DoneURI ?r = ''s3://w/interprotocol-jobs/r1/done.json''"
    by code_simp+
  have failed: "demo_ip_change n r ''s3://w/interprotocol-jobs/r1/failed.json'' = None" for n r
    by (simp add: demo_ip_change_def has_suffix_def)
  have "''s3://w/interprotocol-jobs/r1/done.json'' \<noteq> [] \<and> list_all (\<lambda>c. \<not> white c) ''s3://w/interprotocol-jobs/r1/done.json''
      \<and> ''s3://w/interprotocol-jobs/r1/failed.json'' \<noteq> [] \<and> list_all (\<lambda>c. \<not> white c) ''s3://w/interprotocol-jobs/r1/failed.json''"
    by code_simp
  note plain = this
  have finish: "demo_ip_change n r ''s3://w/interprotocol-jobs/r1/done.json'' = (if n < 9 then None else Some ''done'')" for n r
    by (simp add: demo_ip_change_def has_suffix_def)
  define d where "d = \<lparr>id_Version = 1, id_JobID = ''r1'', id_CampaignID = ''r1'',
        id_ResultPrefix = ''s3://w/interprotocol-jobs/r1/results'', id_Rows = 4, id_CompletedAt = ''t''\<rparr>"
  have "\<exists>vs. wait_final ?L ?W ''c'' (in_dir ''/r'' ''manifest.json'') 5 (last us) = (Inr d, vs)"
  proof (rule wait_final_returns [OF demo_works(1,2), where M = 9 and marker = "''done''" and c = demo_ip_config and conf = "''yaml''"])
    show "cl_local (last us) (in_dir ''/r'' ''request.json'') = Some (il_encode_request ?L ?r)" using us(3) by simp
    show "il_decode_request ?L (il_encode_request ?L ?r) = Some ?r" by (rule roundtrip)
    show "cl_local (last us) ''c'' = Some ''yaml''" using us(3) by (simp add: demo_ip_client_def in_dir_def)
    show "il_decode_config ?L ''yaml'' = Some demo_ip_config" by (simp add: demo_ip_library_def)
    show "check_durations ?L demo_ip_config (last us) = (Inr (), [])" by (rule demo_config)
    show "\<not> listed (wd_ls ?W (wd_change ?W n r) (ir_FailedURI ?r)) (ir_FailedURI ?r)" for n r
      unfolding uris using demo_listed plain failed by simp
    show "listed (wd_ls ?W (wd_change ?W n r) (ir_DoneURI ?r)) (ir_DoneURI ?r) = (9 \<le> n)" for n r
      unfolding uris using demo_listed plain finish by simp
    show "9 \<le> n \<Longrightarrow> wd_change ?W n r (ir_DoneURI ?r) = Some ''done''" for n r
      unfolding uris using finish by (simp add: demo_ip_world_def)
    show "il_decode_done ?L ''done'' = Some d" by (simp add: demo_ip_library_def d_def)
    show "done_fits ?r d" unfolding d_def by code_simp
    show "9 \<le> cl_clock (last us) + 2 * 5 + 1" using us(4) by simp
  qed
  then obtain vs where vs: "wait_final ?L ?W ''c'' (in_dir ''/r'' ''manifest.json'') 5 (last (demo_ip_client # us)) = (Inr d, vs)"
    using us(2) by auto
  have "il_decode_manifest ?L data = Some m \<Longrightarrow> m = demo_complete" for data m by (simp add: demo_ip_library_def)
  then have "id_JobID d = im_RunID demo_complete"
    using final_result_is_its_own [OF roundtrip us(1) vs] by metis
  then show ?thesis using us(1) vs by (auto simp: demo_complete_def)
qed


definition demo_target_request :: target_request where
  "demo_target_request = target_request_of demo_ip_config ''r1'' demo_base_manifests True ''t''"

lemma demo_prepare:
  "validateBaseManifests demo_base_manifests = None" "SafeID ''r1''"
  "analyses_ready demo_ip_world demo_base_manifests ''done.json'' 9"
  "targets_delivered demo_ip_world demo_target_request ''done'' 9"
  "targets_marker_fits demo_ip_library demo_target_request ''done''"
proof -
  show "validateBaseManifests demo_base_manifests = None" "SafeID ''r1''" by code_simp+
  have uris: "list_all (\<lambda>(p, u). base_failed_uri ''done.json'' u \<noteq> [] \<and> list_all (\<lambda>c. \<not> white c) (base_failed_uri ''done.json'' u)
      \<and> has_suffix ''failed.json'' (base_failed_uri ''done.json'' u)
      \<and> markerSibling u ''done.json'' \<noteq> [] \<and> list_all (\<lambda>c. \<not> white c) (markerSibling u ''done.json'')
      \<and> \<not> has_suffix ''failed.json'' (markerSibling u ''done.json'') \<and> has_suffix ''.json'' (markerSibling u ''done.json''))
    demo_base_manifests"
    by code_simp
  show "analyses_ready demo_ip_world demo_base_manifests ''done.json'' 9"
    unfolding analyses_ready_def
  proof (intro allI ballI, clarify)
    fix n r p u
    assume "(p, u) \<in> set demo_base_manifests"
    then have u: "base_failed_uri ''done.json'' u \<noteq> []" "list_all (\<lambda>c. \<not> white c) (base_failed_uri ''done.json'' u)"
      "has_suffix ''failed.json'' (base_failed_uri ''done.json'' u)"
      "markerSibling u ''done.json'' \<noteq> []" "list_all (\<lambda>c. \<not> white c) (markerSibling u ''done.json'')"
      "\<not> has_suffix ''failed.json'' (markerSibling u ''done.json'')" "has_suffix ''.json'' (markerSibling u ''done.json'')"
      using uris by (auto simp: list_all_iff)
    show "\<not> listed (wd_ls demo_ip_world (wd_change demo_ip_world n r) (base_failed_uri ''done.json'' u)) (base_failed_uri ''done.json'' u)
      \<and> (9 \<le> n \<longrightarrow> listed (wd_ls demo_ip_world (wd_change demo_ip_world n r) (markerSibling u ''done.json'')) (markerSibling u ''done.json''))"
      unfolding demo_listed [OF u(1,2)] demo_listed [OF u(4,5)] using u(3,6,7) by (simp add: demo_ip_change_def)
  qed
  have q: "tq_FailedURI demo_target_request \<noteq> []" "list_all (\<lambda>c. \<not> white c) (tq_FailedURI demo_target_request)"
    "has_suffix ''failed.json'' (tq_FailedURI demo_target_request)" "tq_DoneURI demo_target_request \<noteq> []"
    "list_all (\<lambda>c. \<not> white c) (tq_DoneURI demo_target_request)" "\<not> has_suffix ''failed.json'' (tq_DoneURI demo_target_request)"
    "has_suffix ''.json'' (tq_DoneURI demo_target_request)"
    by code_simp+
  have names: "list_all (\<lambda>name. \<not> has_suffix ''.json'' (joinS3 (tq_TargetPrefix demo_target_request) [name])
      \<and> \<not> has_suffix ''failed.json'' (joinS3 (tq_TargetPrefix demo_target_request) [name])) (target_file_names demo_target_request)"
    by code_simp
  show "targets_delivered demo_ip_world demo_target_request ''done'' 9"
    unfolding targets_delivered_def demo_listed [OF q(1,2)] demo_listed [OF q(4,5)]
    using q(3,6,7) names by (auto simp: demo_ip_world_def demo_ip_change_def list_all_iff)
  show "targets_marker_fits demo_ip_library demo_target_request ''done''" by code_simp
qed

lemma demo_preparation:
  "loadWorkflowConfig demo_ip_library demo_ip_world ''c'' demo_ip_client = (Inr demo_ip_config, [])"
  "9 \<le> cl_clock demo_ip_client + 2 * 5" "9 \<le> cl_clock demo_ip_client + 2 * 5 + 1"
  "''done.json'' \<in> {''done.json'', ''strategies-ready.json''}"
  by (rule demo_config) (simp_all add: demo_ip_client_def)

lemmas demo_preparation_ends = demo_works demo_prepare(2,1) demo_preparation(4,1) demo_config(2) demo_prepare(3) demo_preparation(2)
  demo_prepare(4) [unfolded demo_target_request_def] demo_preparation(3) demo_prepare(5) [unfolded demo_target_request_def]

lemma demo_target: "''reference-udp-mass-targets.pq'' \<in> set (target_file_names demo_target_request)"
  "in_dir ''/r'' ''targets'' = ''/r/targets''"
  "in_dir ''/r/targets'' ''reference-udp-mass-targets.pq'' = ''/r/targets/reference-udp-mass-targets.pq''"
  by code_simp+

theorem prepareTargetsReady_returns_witness:
  "\<exists>ws. prepareTargetsReady demo_ip_library demo_ip_world (\<lambda>_ xs. xs) ''c'' ''r1'' demo_base_manifests ''/r'' ''done.json'' True ''t'' 5 demo_ip_client
      = (Inr ''/r/targets'', ws)
    \<and> cl_local (last (demo_ip_client # ws)) ''/r/targets/reference-udp-mass-targets.pq'' \<noteq> None"
proof -
  obtain ws where ws: "prepareTargetsReady demo_ip_library demo_ip_world (\<lambda>_ xs. xs) ''c'' ''r1'' demo_base_manifests ''/r'' ''done.json'' True ''t''
        5 demo_ip_client = (Inr (in_dir ''/r'' ''targets''), ws)"
      "\<forall>name \<in> set (target_file_names demo_target_request). cl_local (last (demo_ip_client # ws)) (in_dir (in_dir ''/r'' ''targets'') name) \<noteq> None"
    using prepareTargetsReady_returns [OF demo_preparation_ends, of "''/r''"] unfolding demo_target_request_def by (elim exE conjE)
  show ?thesis using ws(1) bspec [OF ws(2) demo_target(1)] unfolding demo_target(2,3) by (intro exI conjI)
qed

theorem targets_after_analyses_witness:
  "\<exists>us vs. snd (prepareTargetsReady demo_ip_library demo_ip_world (\<lambda>_ xs. xs) ''c'' ''r1'' demo_base_manifests ''/r'' ''done.json'' True ''t'' 5
      demo_ip_client) = us @ vs \<and> vs \<noteq> [] \<and> list_all (\<lambda>v. cl_local v = cl_local demo_ip_client) us
    \<and> list_all (\<lambda>p. seen demo_ip_world us (markerSibling (map_get demo_base_manifests p) ''done.json'')) [''icmp'', ''tcp'', ''udp'']"
proof -
  obtain ws where ws: "prepareTargetsReady demo_ip_library demo_ip_world (\<lambda>_ xs. xs) ''c'' ''r1'' demo_base_manifests ''/r'' ''done.json'' True ''t''
        5 demo_ip_client = (Inr (in_dir ''/r'' ''targets''), ws)"
      "\<forall>name \<in> set (target_file_names demo_target_request). cl_local (last (demo_ip_client # ws)) (in_dir (in_dir ''/r'' ''targets'') name) \<noteq> None"
    using preparation_ends [OF demo_preparation_ends, of "''/r''"] unfolding demo_target_request_def by (elim exE conjE)
  obtain us vs where split: "ws = us @ vs" "\<forall>v \<in> set us. cl_local v = cl_local demo_ip_client"
      "vs \<noteq> [] \<longrightarrow> (\<forall>p \<in> {''icmp'', ''tcp'', ''udp''}. seen demo_ip_world us (markerSibling (map_get demo_base_manifests p) ''done.json''))"
    using targets_after_analyses [OF demo_works(3) ws(1)] by (elim exE conjE)
  have "vs \<noteq> []"
  proof
    assume "vs = []"
    then have "cl_local (last (demo_ip_client # ws)) = cl_local demo_ip_client" using split(1,2) by simp
    then show False using bspec [OF ws(2) demo_target(1)] unfolding demo_target(2,3) by (simp add: demo_ip_client_def)
  qed
  then show ?thesis using ws(1) split by (intro exI [of _ us] exI [of _ vs]) (simp add: list_all_iff)
qed

end
