(* ===== verification/OsWorker.thy ===== *)
theory OsWorker
  imports Continental Interprotocol
begin

text \<open>
  The shared OS measurement of a campaign and its late enrichment: \<^verbatim>\<open>internal/continental/{osworker,enrichment,os_failure}.go\<close>,
  the retries of \<^verbatim>\<open>internal/continental/store.go\<close> and \<^verbatim>\<open>cmd/continental-os-worker\<close>. The worker has files in its workspace and an
  object store that others change. Every access to either takes one tick; what the others do before it, how it
  ends and the clocks are functions of the tick. The measuring tool is another process and a parameter, as \<open>Execute\<close>
  is in the code; so are JSON, YAML, hashing and the formatting of times.
\<close>

section \<open>Data\<close>

record os_target =
  ot_URI :: string
  ot_Size :: int
  ot_SHA256 :: string
  ot_Rows :: int

type_synonym os_member = "(string \<times> string) list"

record os_request =
  or_Version :: int
  or_Campaign :: string
  or_Target :: os_target
  or_RawRoot :: string
  or_ZMap :: string
  or_Members :: "os_member list"

record descriptor =
  ds_OSMode :: string
  ds_Version :: int
  ds_Campaign :: string
  ds_Sites :: "string list"
  ds_Protocols :: "string list"
  ds_RawRoot :: string

record enrichment_intent =
  en_Version :: int
  en_Core :: string
  en_SHA :: string
  en_Vantage :: string

record protocol_binding =
  pb_Job :: string
  pb_OSStatus :: string
  pb_ZMapPrefix :: string

text \<open>
  The files of the workspace by their names, the directories of \<^verbatim>\<open>os/raw\<close> by the measurement, the store, and the tick.
\<close>

record os_site =
  wk_files :: "string \<rightharpoonup> string"
  wk_raw :: "string \<rightharpoonup> (string \<rightharpoonup> string)"
  wk_objects :: store
  wk_clock :: nat

type_synonym json_object = "(string \<times> json) list"

text \<open>A YAML document may leave the map of a configuration nil.\<close>

record os_library =
  ol_json :: "json json_lib"
  ol_sha :: "string \<Rightarrow> string"
  ol_descriptor :: "string \<Rightarrow> descriptor option"
  ol_request :: "string \<Rightarrow> os_request option"
  ol_step :: "string \<Rightarrow> step option"
  ol_marker :: "string \<Rightarrow> marker option"
  ol_intent :: "string \<Rightarrow> enrichment_intent option"
  ol_protocol :: "string \<Rightarrow> protocol_binding option"
  ol_object :: "string \<Rightarrow> json_object option"
  ol_yaml :: "string \<Rightarrow> json_object option option"
  ol_unyaml :: "json_object \<Rightarrow> string option"
  ol_workflow_prefix :: "string \<Rightarrow> string option"
  ol_parse_stamp :: "string \<Rightarrow> int option"
  ol_format_stamp :: "int \<Rightarrow> string"
  ol_layout :: "int \<Rightarrow> string"

datatype worker_error = StoreError string | FileError string | BadJSON string | Unpublished string publish_error
  | BadCampaign validate_error | UnknownMode string | BadBinding | BadParticipants | TerminalFailure | BadRequest
  | BadDigest | BadMember | BadReference | RequestChanged | UnionMismatch | IncompleteAttempt string | BadConfigFile | NilConfig
  | ToolFailure | NoCompletion | CompletionMismatch | SourceChanged string | NoHostname
  | NoIdentity | BadIdentity | CoreIncomplete | CoreHasOS | NoVantage | RequestDiffers | BadIntent | BadMembership
  | MissingPolicy | MissingCoreRequest | BadProtocolBinding | BadPort | BadMeasurementID
  | MissingDescriptor | NotRequested | MissingScanRequest | AlreadyCompleted | NothingToRetry
  | ModeConflict | ZMapNeedsMode | RetryNeedsWorker | BadPrefix

record os_world =
  ow_change :: "nat \<Rightarrow> store \<Rightarrow> store"
  ow_access :: "nat \<Rightarrow> access"
  ow_partial :: "nat \<Rightarrow> string option"
  ow_now :: "nat \<Rightarrow> int"
  ow_nanos :: "nat \<Rightarrow> int"
  ow_modified :: "nat \<Rightarrow> int"
  ow_hostname :: "string option"
  ow_config :: "string option"
  ow_ipid_config :: "string option"
  ow_environ :: "string list"
  ow_repo :: string
  ow_workspace :: string
  ow_tool :: "string \<Rightarrow> string list \<Rightarrow> string list \<Rightarrow> os_site \<Rightarrow> os_site list \<times> bool"
  ow_cancelled :: "nat \<Rightarrow> bool"
  ow_message :: "worker_error \<Rightarrow> string"

type_synonym 'a os_run = "(os_site, worker_error, 'a) traced"


section \<open>Accesses\<close>

definition os_tick :: "os_world \<Rightarrow> os_site \<Rightarrow> os_site" where
  "os_tick W w = w\<lparr>wk_objects := ow_change W (wk_clock w) (wk_objects w), wk_clock := Suc (wk_clock w)\<rparr>"

definition os_command :: "os_world \<Rightarrow> (access \<Rightarrow> nat \<Rightarrow> 'a os_run) \<Rightarrow> 'a os_run" where
  "os_command W f = tr_bind (tr_get wk_clock) (\<lambda>n. tr_seq (tr_update (os_tick W)) (f (ow_access W n) n))"

text \<open>A look that may fail, and a change that may fail before or after its effect.\<close>

definition os_look :: "os_world \<Rightarrow> worker_error \<Rightarrow> (os_site \<Rightarrow> 'a) \<Rightarrow> 'a os_run" where
  "os_look W e f = os_command W (\<lambda>a _. if a \<noteq> Works then tr_fail e else tr_get f)"

definition os_change :: "os_world \<Rightarrow> worker_error \<Rightarrow> (os_site \<Rightarrow> os_site) \<Rightarrow> unit os_run" where
  "os_change W e f = os_command W (\<lambda>a _.
     case a of
       Works \<Rightarrow> tr_update f
     | Fails \<Rightarrow> tr_fail e
     | FailsAfterEffect \<Rightarrow> tr_seq (tr_update f) (tr_fail e))"

text \<open>The store: \<open>Read\<close>, \<open>Put\<close>, \<open>PutFile\<close>, \<open>GetFile\<close> and the deletion of an object.\<close>

definition set_object :: "string \<Rightarrow> string option \<Rightarrow> os_site \<Rightarrow> os_site" where
  "set_object uri content w = w\<lparr>wk_objects := (wk_objects w)(uri := content)\<rparr>"

definition put_named :: "string \<Rightarrow> string option \<Rightarrow> os_site \<Rightarrow> os_site" where
  "put_named name content w = w\<lparr>wk_files := (wk_files w)(name := content)\<rparr>"

definition raw_file :: "string \<Rightarrow> string \<Rightarrow> os_site \<Rightarrow> string option" where
  "raw_file mid name w = (case wk_raw w mid of None \<Rightarrow> None | Some d \<Rightarrow> d name)"

definition store_read :: "os_world \<Rightarrow> string \<Rightarrow> string option os_run" where
  "store_read W uri = os_look W (StoreError uri) (\<lambda>w. wk_objects w uri)"

definition store_put :: "os_world \<Rightarrow> string \<Rightarrow> string \<Rightarrow> unit os_run" where
  "store_put W uri data = os_change W (StoreError uri) (set_object uri (Some data))"

definition store_delete :: "os_world \<Rightarrow> string \<Rightarrow> unit os_run" where
  "store_delete W uri = os_change W (StoreError uri) (set_object uri None)"

definition store_put_raw :: "os_world \<Rightarrow> string \<Rightarrow> string \<Rightarrow> string \<Rightarrow> unit os_run" where
  "store_put_raw W uri mid name =
     tr_bind (tr_get (raw_file mid name)) (\<lambda>content.
       case content of None \<Rightarrow> tr_fail (StoreError uri) | Some data \<Rightarrow> store_put W uri data)"

definition rename_file :: "os_world \<Rightarrow> string \<Rightarrow> string \<Rightarrow> unit os_run" where
  "rename_file W from to =
     os_change W (FileError to) (\<lambda>w. w\<lparr>wk_files := (wk_files w)(to := wk_files w from, from := None)\<rparr>)"

definition store_get :: "os_world \<Rightarrow> string \<Rightarrow> string \<Rightarrow> unit os_run" where
  "store_get W uri name =
     tr_seq (os_command W (\<lambda>a n.
       case a of
         Fails \<Rightarrow> tr_fail (StoreError uri)
       | FailsAfterEffect \<Rightarrow> tr_seq (tr_update (put_named (name @ ''.part'') (ow_partial W n))) (tr_fail (StoreError uri))
       | Works \<Rightarrow> tr_bind (tr_get (\<lambda>w. wk_objects w uri)) (\<lambda>object.
           case object of
             None \<Rightarrow> tr_fail (StoreError uri)
           | Some data \<Rightarrow> tr_update (put_named (name @ ''.part'') (Some data)))))
       (rename_file W (name @ ''.part'') name)"

text \<open>An immutable publication, one access at a time.\<close>

definition publish_access :: "os_library \<Rightarrow> os_world \<Rightarrow> string \<Rightarrow> json \<Rightarrow> publish_pc \<Rightarrow> publish_pc os_run" where
  "publish_access L W uri v pc =
     (case pc of
        Finished r \<Rightarrow> tr_return pc
      | _ \<Rightarrow> os_command W (\<lambda>a _. tr_bind (tr_get (\<lambda>w. publish_act (ol_json L) uri v a (pc, wk_objects w))) (\<lambda>r.
               tr_seq (tr_update (\<lambda>w. w\<lparr>wk_objects := snd r\<rparr>)) (tr_return (fst r)))))"

definition os_publish :: "os_library \<Rightarrow> os_world \<Rightarrow> string \<Rightarrow> json \<Rightarrow> unit os_run" where
  "os_publish L W uri v =
     tr_bind (publish_access L W uri v AtRead) (\<lambda>p.
     tr_bind (publish_access L W uri v p) (\<lambda>q.
     tr_bind (publish_access L W uri v q) (\<lambda>r.
       case r of Finished (Some e) \<Rightarrow> tr_fail (Unpublished uri e) | _ \<Rightarrow> tr_return ())))"

text \<open>Files of the workspace. A write that fails may leave anything.\<close>

definition file_read :: "os_world \<Rightarrow> string \<Rightarrow> string option os_run" where
  "file_read W name = os_look W (FileError name) (\<lambda>w. wk_files w name)"

definition file_write :: "os_world \<Rightarrow> string \<Rightarrow> string \<Rightarrow> unit os_run" where
  "file_write W name content = os_command W (\<lambda>a n.
     case a of
       Works \<Rightarrow> tr_update (put_named name (Some content))
     | Fails \<Rightarrow> tr_fail (FileError name)
     | FailsAfterEffect \<Rightarrow> tr_seq (tr_update (put_named name (ow_partial W n))) (tr_fail (FileError name)))"

definition make_directory :: "os_world \<Rightarrow> string \<Rightarrow> unit os_run" where
  "make_directory W name = os_look W (FileError name) (\<lambda>_. ())"

definition AtomicJSON :: "os_library \<Rightarrow> os_world \<Rightarrow> string \<Rightarrow> json \<Rightarrow> unit os_run" where
  "AtomicJSON L W name v =
     tr_seq (make_directory W name)
    (tr_seq (file_write W (name @ ''.part'') (Encode (ol_json L) v))
    (rename_file W (name @ ''.part'') name))"

text \<open>\<open>upload.Evidence\<close> of a file of the workspace or of a measurement.\<close>

definition file_evidence_of :: "os_library \<Rightarrow> os_world \<Rightarrow> string \<Rightarrow> (os_site \<Rightarrow> string option) \<Rightarrow> file_evidence os_run" where
  "file_evidence_of L W name f =
     tr_bind (os_look W (FileError name) f) (\<lambda>content.
       case content of
         None \<Rightarrow> tr_fail (FileError name)
       | Some data \<Rightarrow> tr_return \<lparr>fe_Size = length data, fe_SHA256 = ol_sha L data\<rparr>)"

definition decoded :: "string \<Rightarrow> 'a option \<Rightarrow> 'a os_run" where
  "decoded name v = (case v of None \<Rightarrow> tr_fail (BadJSON name) | Some x \<Rightarrow> tr_return x)"


section \<open>The records as JSON\<close>

definition target_json :: "os_target \<Rightarrow> json" where
  "target_json t = JObj [(''uri'', JStr (ot_URI t)), (''size_bytes'', JInt (ot_Size t)), (''sha256'', JStr (ot_SHA256 t)),
     (''rows'', JInt (ot_Rows t))]"

definition member_json :: "os_member \<Rightarrow> json" where
  "member_json m = JObj (map (\<lambda>(k, v). (k, JStr v)) m)"

definition os_request_json :: "os_request \<Rightarrow> json" where
  "os_request_json q = JObj [(''version'', JInt (or_Version q)), (''campaign_id'', JStr (or_Campaign q)),
     (''target'', target_json (or_Target q)), (''raw_root'', JStr (or_RawRoot q)), (''reference_zmap'', JStr (or_ZMap q)),
     (''members'', JList (map member_json (or_Members q)))]"

definition step_json :: "step \<Rightarrow> json" where
  "step_json s = JObj [(''id'', JStr (sp_ID s)), (''stamp'', JStr (sp_Stamp s)), (''signature'', JStr (sp_Signature s))]"

definition files_json :: "(string \<times> file_evidence) list \<Rightarrow> json" where
  "files_json fs = JObj (map (\<lambda>(name, e).
     (name, JObj [(''size_bytes'', JInt (int (fe_Size e))), (''sha256'', JStr (fe_SHA256 e))])) fs)"


section \<open>The scan: closed files, recovery, publication\<close>

text \<open>The request is pinned before the start; a changed one is never adopted.\<close>

definition pin_request :: "os_library \<Rightarrow> os_world \<Rightarrow> string \<Rightarrow> os_request \<Rightarrow> unit os_run" where
  "pin_request L W data request =
     tr_seq (make_directory W (ow_workspace W))
       (tr_bind (file_read W ''request.json'') (\<lambda>old.
         case old of
           Some b \<Rightarrow> tr_check (JSONEqual (ol_json L) b data) RequestChanged
         | None \<Rightarrow> AtomicJSON L W ''request.json'' (os_request_json request)))"

text \<open>The targets are downloaded if they are missing, and once more if they are not those of the request.\<close>

definition is_target :: "os_target \<Rightarrow> file_evidence \<Rightarrow> bool" where
  "is_target t e \<longleftrightarrow> int (fe_Size e) = ot_Size t \<and> fe_SHA256 e = ot_SHA256 t"

definition local_targets :: "os_library \<Rightarrow> os_world \<Rightarrow> file_evidence os_run" where
  "local_targets L W = file_evidence_of L W ''targets.pq'' (\<lambda>w. wk_files w ''targets.pq'')"

definition fetch_targets :: "os_library \<Rightarrow> os_world \<Rightarrow> os_target \<Rightarrow> unit os_run" where
  "fetch_targets L W t =
     tr_bind (os_command W (\<lambda>a _. tr_get (\<lambda>w. a = Works \<and> wk_files w ''targets.pq'' = None))) (\<lambda>missing.
       tr_seq (if missing then store_get W (ot_URI t) ''targets.pq'' else tr_return ())
         (tr_bind (local_targets L W) (\<lambda>actual.
           if is_target t actual then tr_return ()
           else tr_seq (store_get W (ot_URI t) ''targets.pq'')
             (tr_bind (local_targets L W) (\<lambda>again. tr_check (is_target t again) UnionMismatch)))))"

text \<open>The step on disk, or a new one.\<close>

definition scan_step :: "os_library \<Rightarrow> int \<Rightarrow> step" where
  "scan_step L t = \<lparr>sp_ID = ''tcp-80_'' @ ol_layout L t, sp_Stamp = ol_format_stamp L t, sp_Signature = []\<rparr>"

definition save_step :: "os_library \<Rightarrow> os_world \<Rightarrow> step \<Rightarrow> step os_run" where
  "save_step L W s = tr_seq (AtomicJSON L W ''scan.json'' (step_json s)) (tr_return s)"

definition load_step :: "os_library \<Rightarrow> os_world \<Rightarrow> step os_run" where
  "load_step L W =
     tr_bind (file_read W ''scan.json'') (\<lambda>value.
       case value of
         Some b \<Rightarrow> decoded ''scan.json'' (ol_step L b)
       | None \<Rightarrow> tr_bind (tr_get (\<lambda>w. ow_now W (wk_clock w))) (\<lambda>t. save_step L W (scan_step L t)))"

text \<open>
  A directory without completion marker is kept; only an explicit retry moves it away and takes a new, later step. A
  stamp that cannot be parsed counts as Go's zero time, in the year 1.
\<close>

definition zero_time :: int where "zero_time = - 62135596800"

definition later_stamp :: "os_library \<Rightarrow> step \<Rightarrow> int \<Rightarrow> int" where
  "later_stamp L step t =
     (let previous = (case ol_parse_stamp L (sp_Stamp step) of None \<Rightarrow> zero_time | Some p \<Rightarrow> p) in
      if t > previous then t else previous + 1)"

definition move_raw :: "string \<Rightarrow> string \<Rightarrow> os_site \<Rightarrow> os_site" where
  "move_raw from to w = w\<lparr>wk_raw := (wk_raw w)(to := wk_raw w from, from := None)\<rparr>"

definition fresh_attempt :: "os_library \<Rightarrow> os_world \<Rightarrow> bool \<Rightarrow> step \<Rightarrow> step os_run" where
  "fresh_attempt L W retry step =
     tr_bind (os_look W (FileError (sp_ID step)) (\<lambda>w. wk_raw w (sp_ID step) \<noteq> None)) (\<lambda>exists.
       if \<not> exists then tr_return step
       else if \<not> retry then tr_fail (IncompleteAttempt (sp_ID step))
       else tr_bind (tr_get (\<lambda>w. ow_nanos W (wk_clock w))) (\<lambda>nanos.
         let archive = sp_ID step @ ''-attempt-'' @ dec_of_int nanos in
         tr_seq (os_change W (FileError archive) (move_raw (sp_ID step) archive))
           (tr_bind (tr_get (\<lambda>w. ow_now W (wk_clock w))) (\<lambda>t.
             save_step L W (scan_step L (later_stamp L step t))))))"

text \<open>
  The configuration with uploading switched off and target status switched on. An entry cannot be set in a nil map: the
  code panics, \<open>NilConfig\<close> here.
\<close>

definition set_entry :: "string \<Rightarrow> json \<Rightarrow> json_object \<Rightarrow> json_object" where
  "set_entry k v m = (if k \<in> set (map fst m) then map (\<lambda>(k', v'). (k', if k' = k then v else v')) m else m @ [(k, v)])"

definition scan_config :: "json_object \<Rightarrow> json_object" where
  "scan_config m =
     set_entry ''record_target_status'' (JBool True)
       (set_entry ''upload'' (JObj [(''enable'', JBool False), (''delete_local'', JBool False)]) m)"

definition write_config :: "os_library \<Rightarrow> os_world \<Rightarrow> unit os_run" where
  "write_config L W =
     tr_bind (os_look W BadConfigFile (\<lambda>_. ow_config W)) (\<lambda>content.
       case content of
         None \<Rightarrow> tr_fail BadConfigFile
       | Some data \<Rightarrow>
           (case ol_yaml L data of
              None \<Rightarrow> tr_fail BadConfigFile
            | Some None \<Rightarrow> tr_fail NilConfig
            | Some (Some m) \<Rightarrow>
                (case ol_unyaml L (scan_config m) of
                   None \<Rightarrow> tr_fail BadConfigFile
                 | Some out \<Rightarrow> file_write W ''os.yaml'' out)))"

definition in_workspace :: "os_world \<Rightarrow> string \<Rightarrow> string" where
  "in_workspace W name = join_parts [ow_workspace W, name]"

definition tool_env :: "os_world \<Rightarrow> string \<Rightarrow> string list" where
  "tool_env W stamp =
     filter (\<lambda>v. \<not> has_prefix ''IPID_MEASURE_WORKSPACE='' v \<and> \<not> has_prefix ''IPID_MEASUREMENT_TIME='' v) (ow_environ W)
     @ [''IPID_MEASURE_WORKSPACE='' @ ow_workspace W, ''IPID_MEASUREMENT_TIME='' @ stamp]"

definition scan_args :: "os_world \<Rightarrow> os_request \<Rightarrow> string list" where
  "scan_args W request = [''--config'', in_workspace W ''os.yaml'', ''--zmap'', or_ZMap request, ''--target-file'',
     in_workspace W ''targets.pq'', ''--record-target-status'', ''--print-id'']"

definition execute_tool :: "os_world \<Rightarrow> os_request \<Rightarrow> step \<Rightarrow> unit os_run" where
  "execute_tool W request step w =
     (case ow_tool W (join_parts [ow_repo W, ''bin'', ''measure-os'']) (scan_args W request) (tool_env W (sp_Stamp step)) w of
        (ws, success) \<Rightarrow> (if success then Inr () else Inl ToolFailure, ws))"

definition scan_unless_complete :: "os_library \<Rightarrow> os_world \<Rightarrow> os_request \<Rightarrow> bool \<Rightarrow> step \<Rightarrow> step os_run" where
  "scan_unless_complete L W request retry step =
     tr_bind (os_look W (FileError (sp_ID step)) (\<lambda>w. raw_file (sp_ID step) ''measurement-complete.json'' w \<noteq> None)) (\<lambda>complete.
       if complete then tr_return step
       else tr_bind (fresh_attempt L W retry step) (\<lambda>fresh.
         tr_seq (write_config L W) (tr_seq (execute_tool W request fresh) (tr_return fresh))))"

text \<open>
  The four files, each compared with the completion marker before it is uploaded, and the marker of the job after them. A
  file the marker does not name has the zero evidence.
\<close>

definition raw_names :: "string list" where
  "raw_names = [''os.pq'', ''os-coverage.json'', ''os-observations.pq'', ''os.snapshot.yaml'']"

definition marker_evidence :: "marker \<Rightarrow> string \<Rightarrow> file_evidence" where
  "marker_evidence m name = (case map_of (mk_Files m) name of None \<Rightarrow> \<lparr>fe_Size = 0, fe_SHA256 = []\<rparr> | Some e \<Rightarrow> e)"

definition upload_raw :: "os_library \<Rightarrow> os_world \<Rightarrow> string \<Rightarrow> marker \<Rightarrow> string \<Rightarrow> string \<Rightarrow> (string \<times> file_evidence) os_run" where
  "upload_raw L W raw m mid name =
     tr_bind (file_evidence_of L W name (raw_file mid name)) (\<lambda>e.
       tr_seq (tr_check (marker_evidence m name = e) (SourceChanged name))
      (tr_seq (store_put_raw W (Join raw [name]) mid name)
      (tr_return (name, e))))"

definition read_marker :: "os_library \<Rightarrow> os_world \<Rightarrow> string \<Rightarrow> marker os_run" where
  "read_marker L W mid =
     tr_bind (os_look W NoCompletion (raw_file mid ''measurement-complete.json'')) (\<lambda>value.
       case value of
         None \<Rightarrow> tr_fail NoCompletion
       | Some b \<Rightarrow> tr_bind (decoded ''measurement-complete.json'' (ol_marker L b)) (\<lambda>m.
           tr_seq (tr_check (mk_Version m = 1 \<and> mk_ID m = mid) CompletionMismatch) (tr_return m)))"

definition done_fields :: "string \<Rightarrow> string \<Rightarrow> os_request \<Rightarrow> string \<Rightarrow> (string \<times> file_evidence) list \<Rightarrow> json_object" where
  "done_fields campaign mid request vantage fs =
     [(''version'', JInt 1), (''campaign_id'', JStr campaign), (''measurement_id'', JStr mid),
      (''target'', target_json (or_Target request)), (''members'', JList (map member_json (or_Members request))),
      (''vantage'', JStr vantage), (''files'', files_json fs)]"

definition late_fields :: "os_library \<Rightarrow> os_world \<Rightarrow> string \<Rightarrow> step \<Rightarrow> json_object os_run" where
  "late_fields L W raw step =
     tr_bind (os_command W (\<lambda>a n. tr_get (\<lambda>w.
         if a = Works \<and> raw_file (sp_ID step) ''measurement-complete.json'' w \<noteq> None then Some (ow_modified W n) else None))) (\<lambda>closed.
       case closed of
         None \<Rightarrow> tr_fail (FileError ''measurement-complete.json'')
       | Some t \<Rightarrow>
           (case ow_hostname W of
              None \<Rightarrow> tr_fail NoHostname
            | Some hostname \<Rightarrow> tr_return [(''late_enrichment'', JBool True), (''started_at'', JStr (sp_Stamp step)),
                (''completed_at'', JStr (ol_format_stamp L t)), (''raw_prefix'', JStr raw),
                (''executor_hostname'', JStr hostname)]))"

definition publish_scan ::
  "os_library \<Rightarrow> os_world \<Rightarrow> string \<Rightarrow> string \<Rightarrow> string \<Rightarrow> os_request \<Rightarrow> bool \<Rightarrow> string \<Rightarrow> step \<Rightarrow> bool os_run" where
  "publish_scan L W job raw campaign request late vantage step =
     tr_bind (read_marker L W (sp_ID step)) (\<lambda>m.
     tr_bind (tr_each (upload_raw L W raw m (sp_ID step)) raw_names) (\<lambda>fs.
     tr_bind (if late then late_fields L W raw step else tr_return []) (\<lambda>extra.
     tr_seq (os_publish L W (Join job [''done.json'']) (JObj (done_fields campaign (sp_ID step) request vantage fs @ extra)))
    (tr_return True))))"

definition runOSScan ::
  "os_library \<Rightarrow> os_world \<Rightarrow> string \<Rightarrow> string \<Rightarrow> string \<Rightarrow> string \<Rightarrow> os_request \<Rightarrow> bool \<Rightarrow> string \<Rightarrow> bool \<Rightarrow> bool os_run" where
  "runOSScan L W job raw campaign data request late vantage retry =
     tr_seq (pin_request L W data request)
    (tr_seq (fetch_targets L W (or_Target request))
    (tr_bind (load_step L W) (\<lambda>step.
     tr_bind (scan_unless_complete L W request retry step) (\<lambda>scanned.
     publish_scan L W job raw campaign request late vantage scanned))))"


section \<open>The OS measurement of a campaign\<close>

text \<open>Without a mode the measurement is enabled.\<close>

definition OSDisabled :: "descriptor \<Rightarrow> bool os_run" where
  "OSDisabled d =
     (if ds_OSMode d = [] \<or> ds_OSMode d = ''enabled'' then tr_return False
      else if ds_OSMode d = ''disabled'' then tr_return True
      else tr_fail (UnknownMode (ds_OSMode d)))"

definition campaign_uri :: "string \<Rightarrow> string \<Rightarrow> string" where
  "campaign_uri prefix campaign = Join prefix [''continental'', campaign, ''campaign.json'']"

definition os_job :: "string \<Rightarrow> string \<Rightarrow> string" where
  "os_job prefix campaign = Join prefix [''continental'', campaign, ''os'']"

definition PublishOSNotRequested :: "os_library \<Rightarrow> os_world \<Rightarrow> string \<Rightarrow> string \<Rightarrow> unit os_run" where
  "PublishOSNotRequested L W prefix campaign =
     os_publish L W (Join prefix [''continental'', campaign, ''os'', ''not-requested.json''])
       (JObj [(''version'', JInt 1), (''campaign_id'', JStr campaign), (''status'', JStr ''not_requested'')])"

text \<open>\<open>strings.Join(_, ",")\<close>, and what \<open>hex.DecodeString\<close> accepts.\<close>

fun with_commas :: "string list \<Rightarrow> string" where
  "with_commas [] = []"
| "with_commas [p] = p"
| "with_commas (p # ps) = p @ '','' @ with_commas ps"

definition participants :: "descriptor \<Rightarrow> bool" where
  "participants d \<longleftrightarrow> with_commas (ds_Sites d) = with_commas Sites \<and> with_commas (ds_Protocols d) = with_commas Protocols"

definition hex_string :: "string \<Rightarrow> bool" where
  "hex_string s \<longleftrightarrow> even (length s)
     \<and> list_all (\<lambda>c. let n = of_char c :: nat in (48 \<le> n \<and> n \<le> 57) \<or> (65 \<le> n \<and> n \<le> 70) \<or> (97 \<le> n \<and> n \<le> 102)) s"

definition expected_port :: "string \<Rightarrow> u16" where
  "expected_port protocol = (if protocol = ''tcp'' then 80 else if protocol = ''udp-dns'' then 53 else 0)"

definition port_fits :: "u16 option \<Rightarrow> u16 \<Rightarrow> bool" where
  "port_fits port expected \<longleftrightarrow> (case port of None \<Rightarrow> expected = 0 | Some p \<Rightarrow> p = expected)"

text \<open>One discovery per site and protocol; the reference is that of TCP in Europe.\<close>

definition campaign_member :: "descriptor \<Rightarrow> string \<Rightarrow> nat \<Rightarrow> os_member \<Rightarrow> bool" where
  "campaign_member d campaign i m =
     (let site = Sites ! (i div 3); protocol = Protocols ! (i mod 3); mid = map_get m ''measurement_id'' in
      case ParseMeasurementID mid of
        Inl _ \<Rightarrow> False
      | Inr (payload, port, _) \<Rightarrow>
          payload = protocol \<and> port_fits port (expected_port protocol) \<and> map_get m ''site'' = site
          \<and> map_get m ''protocol'' = protocol
          \<and> map_get m ''uri'' = Join (ds_RawRoot d) [''continental'', campaign, site, ''zmap'', mid, ''zmap.pq'']
          \<and> length (map_get m ''sha256'') = 64)"

fun check_members :: "descriptor \<Rightarrow> string \<Rightarrow> string \<Rightarrow> nat \<Rightarrow> os_member list \<Rightarrow> worker_error option" where
  "check_members d campaign zmap i [] = None"
| "check_members d campaign zmap i (m # ms) =
     (if \<not> campaign_member d campaign i m then Some BadMember
      else if Sites ! (i div 3) = ''eu'' \<and> Protocols ! (i mod 3) = ''tcp'' \<and> zmap \<noteq> map_get m ''measurement_id''
        then Some BadReference
      else check_members d campaign zmap (Suc i) ms)"

definition target_fits :: "string \<Rightarrow> os_target \<Rightarrow> bool" where
  "target_fits job t \<longleftrightarrow> ot_URI t = Join job [''targets.pq''] \<and> 1 \<le> ot_Rows t \<and> 1 \<le> ot_Size t \<and> length (ot_SHA256 t) = 64"

definition request_fits :: "descriptor \<Rightarrow> string \<Rightarrow> string \<Rightarrow> os_request \<Rightarrow> bool" where
  "request_fits d campaign job q \<longleftrightarrow>
     or_Version q = 1 \<and> ds_Version d = 1 \<and> or_Campaign q = campaign \<and> ds_Campaign d = campaign \<and> or_RawRoot q = ds_RawRoot d
     \<and> target_fits job (or_Target q) \<and> length (or_Members q) = 18"

definition failing :: "worker_error option \<Rightarrow> unit os_run" where
  "failing e = (case e of None \<Rightarrow> tr_return () | Some x \<Rightarrow> tr_fail x)"

definition check_request :: "descriptor \<Rightarrow> string \<Rightarrow> string \<Rightarrow> os_request \<Rightarrow> unit os_run" where
  "check_request d campaign job q =
     tr_seq (tr_check (request_fits d campaign job q) BadRequest)
    (tr_seq (tr_check (participants d) BadParticipants)
    (tr_seq (tr_check (hex_string (ot_SHA256 (or_Target q))) BadDigest)
    (failing (check_members d campaign (or_ZMap q) 0 (or_Members q)))))"

definition run_request :: "os_library \<Rightarrow> os_world \<Rightarrow> descriptor \<Rightarrow> string \<Rightarrow> string \<Rightarrow> bool \<Rightarrow> bool os_run" where
  "run_request L W d campaign job retry =
     tr_bind (store_read W (Join job [''done.json''])) (\<lambda>finished.
       if finished \<noteq> None then tr_return True
       else tr_bind (store_read W (Join job [''failed.json''])) (\<lambda>failed.
         if failed \<noteq> None then tr_fail TerminalFailure
         else tr_bind (store_read W (Join job [''request.json''])) (\<lambda>requested.
           case requested of
             None \<Rightarrow> tr_return False
           | Some data \<Rightarrow> tr_bind (decoded ''request.json'' (ol_request L data)) (\<lambda>q.
               tr_seq (check_request d campaign job q)
                 (runOSScan L W job (Join (or_RawRoot q) [''continental'', campaign, ''os'', ''shared-os'']) campaign data q
                   False ''shared-os-vm'' retry)))))"

definition run_campaign_os :: "os_library \<Rightarrow> os_world \<Rightarrow> string \<Rightarrow> string \<Rightarrow> bool \<Rightarrow> descriptor \<Rightarrow> bool os_run" where
  "run_campaign_os L W prefix campaign retry d =
     tr_bind (OSDisabled d) (\<lambda>disabled.
     tr_seq (tr_check (ds_Version d = 1 \<and> ds_Campaign d = campaign) BadBinding)
    (tr_seq (tr_check (participants d \<and> has_prefix ''s3://'' (ds_RawRoot d)) BadParticipants)
    (if disabled then tr_seq (PublishOSNotRequested L W prefix campaign) (tr_return True)
     else run_request L W d campaign (os_job prefix campaign) retry)))"

definition RunOS :: "os_library \<Rightarrow> os_world \<Rightarrow> string \<Rightarrow> string \<Rightarrow> bool \<Rightarrow> bool os_run" where
  "RunOS L W prefix campaign retry =
     (case Validate campaign ''eu'' of
        Some e \<Rightarrow> tr_fail (BadCampaign e)
      | None \<Rightarrow>
          tr_bind (store_read W (campaign_uri prefix campaign)) (\<lambda>data.
            case data of
              None \<Rightarrow> tr_return False
            | Some b \<Rightarrow> tr_bind (decoded ''campaign.json'' (ol_descriptor L b)) (run_campaign_os L W prefix campaign retry)))"


section \<open>Failures and retries\<close>

text \<open>A failure is published only for a requested job without an outcome.\<close>

definition publish_failure :: "os_library \<Rightarrow> os_world \<Rightarrow> string \<Rightarrow> json \<Rightarrow> unit os_run" where
  "publish_failure L W job v =
     tr_bind (store_read W (Join job [''request.json''])) (\<lambda>requested.
       if requested = None then tr_return ()
       else tr_bind (store_read W (Join job [''done.json''])) (\<lambda>finished.
         if finished \<noteq> None then tr_return ()
         else tr_bind (store_read W (Join job [''failed.json''])) (\<lambda>failed.
           if failed \<noteq> None then tr_return () else os_publish L W (Join job [''failed.json'']) v)))"

definition PublishOSFailure :: "os_library \<Rightarrow> os_world \<Rightarrow> string \<Rightarrow> string \<Rightarrow> worker_error \<Rightarrow> unit os_run" where
  "PublishOSFailure L W prefix campaign cause =
     tr_bind (store_read W (campaign_uri prefix campaign)) (\<lambda>data.
       case data of
         None \<Rightarrow> tr_return ()
       | Some b \<Rightarrow> tr_bind (decoded ''campaign.json'' (ol_descriptor L b)) (\<lambda>d.
           tr_seq (tr_check (ds_Version d = 1 \<and> ds_Campaign d = campaign) BadBinding)
             (tr_bind (OSDisabled d) (\<lambda>disabled.
               if disabled then tr_return ()
               else publish_failure L W (os_job prefix campaign)
                 (JObj [(''version'', JInt 1), (''campaign_id'', JStr campaign), (''error'', JStr (ow_message W cause))])))))"

text \<open>The failure is archived before it is deleted, and never when the scan is done.\<close>

definition retryScanFailure :: "os_world \<Rightarrow> string \<Rightarrow> unit os_run" where
  "retryScanFailure W job =
     tr_bind (store_read W (Join job [''done.json''])) (\<lambda>finished.
       if finished \<noteq> None then tr_fail AlreadyCompleted
       else tr_bind (store_read W (Join job [''failed.json''])) (\<lambda>failed.
         case failed of
           None \<Rightarrow> tr_fail NothingToRetry
         | Some data \<Rightarrow> tr_bind (tr_get (\<lambda>w. ow_nanos W (wk_clock w))) (\<lambda>nanos.
             tr_seq (store_put W (Join job [''attempts'', dec_of_int nanos, ''failed.json'']) data)
               (store_delete W (Join job [''failed.json''])))))"

text \<open>The campaign is that of the job without \<open>/os\<close> at its end.\<close>

definition RetryOSFailure :: "os_library \<Rightarrow> os_world \<Rightarrow> string \<Rightarrow> unit os_run" where
  "RetryOSFailure L W job =
     tr_bind (store_read W (Join (trim_suffix job ''/os'') [''campaign.json''])) (\<lambda>data.
       case data of
         None \<Rightarrow> tr_fail MissingDescriptor
       | Some b \<Rightarrow> tr_bind (decoded ''campaign.json'' (ol_descriptor L b)) (\<lambda>d.
           tr_bind (OSDisabled d) (\<lambda>disabled.
             if disabled then tr_fail NotRequested else retryScanFailure W job)))"


section \<open>Late enrichment\<close>

definition EnrichmentCore :: "string \<Rightarrow> string \<Rightarrow> string \<Rightarrow> worker_error + string" where
  "EnrichmentCore prefix campaign zmap =
     (if (campaign = []) = (zmap = []) then Inl NoIdentity
      else if \<not> safeID (if zmap \<noteq> [] then zmap else campaign) then Inl BadIdentity
      else if campaign \<noteq> [] then Inr (Join prefix [''continental'', campaign])
      else Inr (Join prefix [''analysis-jobs'', zmap]))"

definition enrichment_root :: "string \<Rightarrow> string" where
  "enrichment_root core = Join core [''enrichments'', ''os'']"

definition scan_job :: "string \<Rightarrow> string" where
  "scan_job core = Join (enrichment_root core) [''scan'']"

definition readNoOSCore :: "os_library \<Rightarrow> os_world \<Rightarrow> string \<Rightarrow> string os_run" where
  "readNoOSCore L W core =
     tr_bind (store_read W (Join core [''done.json''])) (\<lambda>data.
       case data of
         None \<Rightarrow> tr_fail CoreIncomplete
       | Some b \<Rightarrow> tr_bind (decoded ''done.json'' (ol_object L b)) (\<lambda>o'.
           tr_seq (tr_check (map_of o' ''version'' = Some (JInt 1) \<and> map_of o' ''os_status'' = Some (JStr ''not_requested'')) CoreHasOS)
             (tr_return b)))"

definition RequestOSEnrichment :: "os_library \<Rightarrow> os_world \<Rightarrow> string \<Rightarrow> string \<Rightarrow> unit os_run" where
  "RequestOSEnrichment L W core vantage =
     tr_seq (tr_check (trim_white vantage \<noteq> []) NoVantage)
    (tr_bind (readNoOSCore L W core) (\<lambda>data.
     let uri = Join core [''enrichments'', ''os'', ''request.json''] in
     tr_bind (store_read W uri) (\<lambda>old.
       case old of
         Some b \<Rightarrow> tr_bind (decoded ''request.json'' (ol_object L b)) (\<lambda>o'.
           tr_check (map_of o' ''version'' = Some (JInt 1) \<and> map_of o' ''core_prefix'' = Some (JStr core)
             \<and> map_of o' ''core_done_sha256'' = Some (JStr (ol_sha L data)) \<and> map_of o' ''vantage'' = Some (JStr vantage)) RequestDiffers)
       | None \<Rightarrow> tr_bind (tr_get (\<lambda>w. ow_now W (wk_clock w))) (\<lambda>t.
           os_publish L W uri (JObj [(''version'', JInt 1), (''core_prefix'', JStr core), (''core_done_sha256'', JStr (ol_sha L data)),
             (''vantage'', JStr vantage), (''requested_at'', JStr (ol_format_stamp L t)), (''status'', JStr ''requested'')])))))"


text \<open>The members of an enrichment scan: one, or one per site and protocol.\<close>

definition after_last_slash :: "string \<Rightarrow> string" where
  "after_last_slash s = rev (takeWhile (\<lambda>c. c \<noteq> CHR ''/'') (rev s))"

definition enrichmentCampaign :: "string \<Rightarrow> bool" where
  "enrichmentCampaign core =
     (let parts = split_on (CHR ''/'') (trim_slashes core); n = length parts in n > 1 \<and> parts ! (n - 2) = ''continental'')"

definition campaign_policy :: "os_library \<Rightarrow> os_world \<Rightarrow> string \<Rightarrow> string \<Rightarrow> string os_run" where
  "campaign_policy L W core identity =
     tr_bind (store_read W (Join core [''campaign.json''])) (\<lambda>data.
       case data of
         None \<Rightarrow> tr_fail MissingPolicy
       | Some b \<Rightarrow> tr_bind (decoded ''campaign.json'' (ol_descriptor L b)) (\<lambda>d.
           tr_bind (OSDisabled d) (\<lambda>disabled.
           tr_seq (tr_check (disabled \<and> ds_Version d = 1 \<and> ds_Campaign d = identity \<and> participants d) BadBinding)
          (tr_return (Join (ds_RawRoot d) [''continental'', identity])))))"

definition protocol_policy :: "os_library \<Rightarrow> os_world \<Rightarrow> string \<Rightarrow> string \<Rightarrow> string os_run" where
  "protocol_policy L W core identity =
     tr_bind (store_read W (Join core [''request.json''])) (\<lambda>data.
       case data of
         None \<Rightarrow> tr_fail MissingCoreRequest
       | Some b \<Rightarrow> tr_bind (decoded ''request.json'' (ol_protocol L b)) (\<lambda>p.
           tr_seq (tr_check (pb_Job p = identity \<and> pb_OSStatus p = ''not_requested'' \<and> has_prefix ''s3://'' (pb_ZMapPrefix p))
             BadProtocolBinding)
          (tr_return (pb_ZMapPrefix p))))"

definition enrichment_member :: "string \<Rightarrow> string \<Rightarrow> nat \<Rightarrow> nat \<Rightarrow> os_member \<Rightarrow> worker_error option" where
  "enrichment_member identity raw n i m =
     (let source = map_get m ''measurement_id'' in
      case ParseMeasurementID source of
        Inl _ \<Rightarrow> Some BadMeasurementID
      | Inr (protocol, port, _) \<Rightarrow>
          let site = Sites ! (i div 3); p = Protocols ! (i mod 3);
              uri = (if n = 18 then Join raw [site, ''zmap'', source, ''zmap.pq''] else Join raw [source, ''zmap.pq'']) in
          if \<not> port_fits port (expected_port protocol) then Some BadPort
          else if n = 18 \<and> \<not> (map_get m ''site'' = site \<and> map_get m ''protocol'' = p \<and> protocol = p) then Some BadMember
          else if n \<noteq> 18 \<and> \<not> (source = identity \<and> map_get m ''protocol'' = protocol) then Some BadMember
          else if map_get m ''uri'' \<noteq> uri \<or> length (map_get m ''sha256'') \<noteq> 64 then Some BadMember
          else if \<not> hex_string (map_get m ''sha256'') then Some BadDigest
          else None)"

fun enrichment_members :: "string \<Rightarrow> string \<Rightarrow> nat \<Rightarrow> nat \<Rightarrow> string \<Rightarrow> os_member list \<Rightarrow> worker_error + string" where
  "enrichment_members identity raw n i reference [] = Inr reference"
| "enrichment_members identity raw n i reference (m # ms) =
     (case enrichment_member identity raw n i m of
        Some e \<Rightarrow> Inl e
      | None \<Rightarrow>
          enrichment_members identity raw n (Suc i)
            (if n \<noteq> 18 \<or> Sites ! (i div 3) = ''eu'' \<and> Protocols ! (i mod 3) = ''tcp'' then map_get m ''measurement_id''
             else reference) ms)"

definition validateEnrichmentMembers :: "os_library \<Rightarrow> os_world \<Rightarrow> string \<Rightarrow> os_request \<Rightarrow> unit os_run" where
  "validateEnrichmentMembers L W core q =
     (let identity = after_last_slash core in
      tr_seq (tr_check (or_Campaign q = identity) BadIdentity)
        (tr_bind (if enrichmentCampaign core then campaign_policy L W core identity else protocol_policy L W core identity) (\<lambda>raw.
          case enrichment_members identity raw (length (or_Members q)) 0 [] (or_Members q) of
            Inl e \<Rightarrow> tr_fail e
          | Inr reference \<Rightarrow> tr_check (or_ZMap q = reference) BadReference)))"

definition check_enrichment :: "os_library \<Rightarrow> os_world \<Rightarrow> string \<Rightarrow> os_request \<Rightarrow> unit os_run" where
  "check_enrichment L W core q =
     tr_seq (tr_check (or_Version q = 1 \<and> or_RawRoot q = Join (enrichment_root core) [''raw'']
         \<and> target_fits (scan_job core) (or_Target q) \<and> or_Members q \<noteq> []) BadRequest)
    (tr_seq (tr_check (hex_string (ot_SHA256 (or_Target q))) BadDigest)
    (tr_seq (tr_check (length (or_Members q) = (if enrichmentCampaign core then 18 else 1)) BadMembership)
    (validateEnrichmentMembers L W core q)))"

definition scan_enrichment :: "os_library \<Rightarrow> os_world \<Rightarrow> string \<Rightarrow> string \<Rightarrow> bool \<Rightarrow> bool os_run" where
  "scan_enrichment L W core vantage retry =
     tr_bind (store_read W (Join (scan_job core) [''request.json''])) (\<lambda>requested.
       case requested of
         None \<Rightarrow> tr_return False
       | Some data \<Rightarrow> tr_bind (decoded ''request.json'' (ol_request L data)) (\<lambda>q.
           tr_seq (check_enrichment L W core q)
          (tr_seq (os_publish L W (Join (enrichment_root core) [''running.json''])
              (JObj [(''version'', JInt 1), (''status'', JStr ''running''), (''core_prefix'', JStr core),
                (''scan_request_sha256'', JStr (ol_sha L data))]))
          (runOSScan L W (scan_job core) (Join (enrichment_root core) [''raw'']) (or_Campaign q) data q True vantage retry))))"

definition RunOSEnrichment :: "os_library \<Rightarrow> os_world \<Rightarrow> string \<Rightarrow> bool \<Rightarrow> bool os_run" where
  "RunOSEnrichment L W core retry =
     tr_bind (readNoOSCore L W core) (\<lambda>coreData.
     tr_bind (store_read W (Join (enrichment_root core) [''request.json''])) (\<lambda>data.
       case data of
         None \<Rightarrow> tr_return False
       | Some b \<Rightarrow> tr_bind (decoded ''request.json'' (ol_intent L b)) (\<lambda>intent.
           tr_seq (tr_check (en_Version intent = 1 \<and> en_Core intent = core \<and> en_SHA intent = ol_sha L coreData
               \<and> trim_white (en_Vantage intent) \<noteq> []) BadIntent)
          (tr_bind (store_read W (Join (enrichment_root core) [''done.json''])) (\<lambda>finished.
             if finished \<noteq> None then tr_return True
             else tr_bind (store_read W (Join (scan_job core) [''done.json''])) (\<lambda>scanned.
               if scanned \<noteq> None then tr_return True
               else tr_bind (store_read W (Join (enrichment_root core) [''failed.json''])) (\<lambda>failed.
                 if failed \<noteq> None then tr_fail TerminalFailure
                 else tr_bind (store_read W (Join (scan_job core) [''failed.json''])) (\<lambda>failed.
                   if failed \<noteq> None then tr_fail TerminalFailure
                   else scan_enrichment L W core (en_Vantage intent) retry))))))))"

definition PublishEnrichmentScanFailure :: "os_library \<Rightarrow> os_world \<Rightarrow> string \<Rightarrow> worker_error \<Rightarrow> unit os_run" where
  "PublishEnrichmentScanFailure L W core cause =
     publish_failure L W (Join core [''enrichments'', ''os'', ''scan''])
       (JObj [(''version'', JInt 1), (''status'', JStr ''failed''), (''error'', JStr (ow_message W cause))])"

definition RetryEnrichmentScanFailure :: "os_library \<Rightarrow> os_world \<Rightarrow> string \<Rightarrow> unit os_run" where
  "RetryEnrichmentScanFailure L W core =
     tr_seq (readNoOSCore L W core)
    (tr_bind (store_read W (Join core [''enrichments'', ''os'', ''scan'', ''request.json''])) (\<lambda>requested.
       if requested = None then tr_fail MissingScanRequest
       else tr_bind (store_read W (Join core [''enrichments'', ''os'', ''done.json''])) (\<lambda>finished.
         if finished \<noteq> None then tr_fail AlreadyCompleted
         else retryScanFailure W (Join core [''enrichments'', ''os'', ''scan'']))))"


section \<open>The worker process\<close>

text \<open>
  \<^verbatim>\<open>cmd/continental-os-worker\<close>. It polls until the measurement is done, or \<open>k\<close> more polls until it is interrupted; an error
  that is not an interrupt is published as a failure and ends it. A panic ends it at once.
\<close>

record worker_flags =
  wf_campaign :: string
  wf_prefix :: string
  wf_enrichment :: bool
  wf_request :: bool
  wf_zmap :: string
  wf_vantage :: string
  wf_retry :: bool
  wf_retry_incomplete :: bool
  wf_once :: bool
  wf_poll :: int

definition tr_catch :: "('s, 'e, 'a) traced \<Rightarrow> ('e \<Rightarrow> ('s, 'e, 'a) traced) \<Rightarrow> ('s, 'e, 'a) traced" where
  "tr_catch m h w =
     (case m w of
        (Inl e, ws) \<Rightarrow> (case h e (last (w # ws)) of (r, vs) \<Rightarrow> (r, ws @ vs))
      | (Inr a, ws) \<Rightarrow> (Inr a, ws))"

definition worker_round :: "os_world \<Rightarrow> bool os_run \<Rightarrow> (worker_error \<Rightarrow> unit os_run) \<Rightarrow> bool option os_run" where
  "worker_round W run report =
     tr_catch (tr_bind run (\<lambda>d. tr_return (Some d))) (\<lambda>e.
       tr_bind (tr_get (\<lambda>w. ow_cancelled W (wk_clock w))) (\<lambda>cancelled.
         if cancelled then tr_return None
         else if e = NilConfig then tr_fail e
         else tr_seq (tr_catch (report e) (\<lambda>_. tr_return ())) (tr_fail e)))"

fun worker_loop :: "os_world \<Rightarrow> bool \<Rightarrow> bool os_run \<Rightarrow> (worker_error \<Rightarrow> unit os_run) \<Rightarrow> nat \<Rightarrow> unit os_run" where
  "worker_loop W once run report k =
     tr_bind (worker_round W run report) (\<lambda>r.
       if r \<noteq> Some False \<or> once then tr_return ()
       else (case k of 0 \<Rightarrow> tr_return () | Suc k' \<Rightarrow> worker_loop W once run report k'))"

declare worker_loop.simps [simp del]

definition check_flags :: "worker_flags \<Rightarrow> worker_error option" where
  "check_flags F =
     (if wf_enrichment F \<and> wf_request F then Some ModeConflict
      else if wf_zmap F \<noteq> [] \<and> \<not> wf_enrichment F \<and> \<not> wf_request F then Some ZMapNeedsMode
      else if wf_request F \<and> (wf_retry F \<or> wf_retry_incomplete F) then Some RetryNeedsWorker
      else if \<not> wf_enrichment F \<and> \<not> wf_request F then map_option BadCampaign (Validate (wf_campaign F) ''eu'')
      else None)"

definition worker_prefix :: "os_library \<Rightarrow> os_world \<Rightarrow> worker_flags \<Rightarrow> string os_run" where
  "worker_prefix L W F =
     tr_bind (if wf_prefix F \<noteq> [] then tr_return (wf_prefix F)
              else tr_bind (os_look W BadConfigFile (\<lambda>_. ow_ipid_config W)) (\<lambda>content.
                case content of
                  None \<Rightarrow> tr_fail BadConfigFile
                | Some data \<Rightarrow> decoded ''config/ipid.yaml'' (ol_workflow_prefix L data))) (\<lambda>prefix.
       tr_seq (tr_check (6 \<le> length prefix \<and> take 5 prefix = ''s3://'' \<and> 1000000000 \<le> wf_poll F) BadPrefix) (tr_return prefix))"

definition worker_workspace :: "string \<Rightarrow> worker_flags \<Rightarrow> string" where
  "worker_workspace repo F =
     (if wf_enrichment F \<or> wf_request F
      then join_parts [repo, ''enrichments'', if wf_zmap F \<noteq> [] then ''protocol'' else ''continental'',
        if wf_zmap F \<noteq> [] then wf_zmap F else wf_campaign F, ''os'']
      else join_parts [repo, ''continental'', wf_campaign F, ''os''])"

definition enter_workspace :: "os_world \<Rightarrow> unit os_run" where
  "enter_workspace W = tr_seq (make_directory W (ow_workspace W)) (os_look W (FileError ''.runner.lock'') (\<lambda>_. ()))"

definition campaign_worker :: "os_library \<Rightarrow> os_world \<Rightarrow> worker_flags \<Rightarrow> string \<Rightarrow> nat \<Rightarrow> unit os_run" where
  "campaign_worker L W F prefix k =
     tr_seq (enter_workspace W)
    (tr_seq (if wf_retry F then RetryOSFailure L W (os_job prefix (wf_campaign F)) else tr_return ())
    (worker_loop W (wf_once F) (RunOS L W prefix (wf_campaign F) (wf_retry_incomplete F)) (PublishOSFailure L W prefix (wf_campaign F)) k))"

definition enrichment_worker :: "os_library \<Rightarrow> os_world \<Rightarrow> worker_flags \<Rightarrow> string \<Rightarrow> nat \<Rightarrow> unit os_run" where
  "enrichment_worker L W F core k =
     tr_seq (enter_workspace W)
    (if wf_request F then RequestOSEnrichment L W core (wf_vantage F)
     else tr_seq (if wf_retry F then RetryEnrichmentScanFailure L W core else tr_return ())
      (worker_loop W (wf_once F) (RunOSEnrichment L W core (wf_retry_incomplete F)) (PublishEnrichmentScanFailure L W core) k))"

definition os_worker :: "os_library \<Rightarrow> os_world \<Rightarrow> worker_flags \<Rightarrow> nat \<Rightarrow> unit os_run" where
  "os_worker L W F k =
     tr_seq (failing (check_flags F))
    (tr_bind (worker_prefix L W F) (\<lambda>prefix.
     let V = W\<lparr>ow_workspace := worker_workspace (ow_repo W) F\<rparr> in
     if wf_enrichment F \<or> wf_request F
     then (case EnrichmentCore prefix (wf_campaign F) (wf_zmap F) of
             Inl e \<Rightarrow> tr_fail e
           | Inr core \<Rightarrow> enrichment_worker L V F core k)
     else campaign_worker L V F prefix k))"

end
