(* ===== verification/OsWorker_Safety.thy ===== *)
theory OsWorker_Safety
  imports OsWorker
begin

text \<open>
  What the OS worker keeps of the store: an operation keeps a condition that the environment keeps and that no write of
  the operation breaks. The outcome of a job is unique, it is published after the data it names, and a late
  enrichment leaves the core alone.
\<close>

section \<open>Conditions that are kept\<close>

definition holds :: "('s \<Rightarrow> bool) \<Rightarrow> ('s, 'e, 'a) traced \<Rightarrow> bool" where
  "holds P m \<longleftrightarrow> traced_ok P m P (\<lambda>_. P)"

named_theorems holds_rules

lemma holds_return [holds_rules]: "holds P (tr_return a)"
  by (simp add: holds_def traced_ok_return)

lemma holds_fail [holds_rules]: "holds P (tr_fail e)"
  by (simp add: holds_def traced_ok_fail)

lemma holds_get [holds_rules]: "holds P (tr_get f)"
  by (simp add: holds_def traced_ok_get)

lemma holds_check [holds_rules]: "holds P (tr_check b e)"
  by (simp add: holds_def traced_ok_check)

lemma holds_update: "(\<And>w. P w \<Longrightarrow> P (f w)) \<Longrightarrow> holds P (tr_update f)"
  by (simp add: holds_def traced_ok_update)

lemma holds_bind [holds_rules]: "holds P m \<Longrightarrow> (\<And>a. holds P (f a)) \<Longrightarrow> holds P (tr_bind m f)"
  unfolding holds_def by (rule traced_ok_bind)

lemma holds_seq [holds_rules]: "holds P m \<Longrightarrow> holds P n \<Longrightarrow> holds P (tr_seq m n)"
  unfolding tr_seq_def by (rule holds_bind)

lemma holds_if [holds_rules]: "(b \<Longrightarrow> holds P m) \<Longrightarrow> (\<not> b \<Longrightarrow> holds P n) \<Longrightarrow> holds P (if b then m else n)"
  by simp

lemma holds_option [holds_rules]:
  "(x = None \<Longrightarrow> holds P m) \<Longrightarrow> (\<And>a. x = Some a \<Longrightarrow> holds P (f a)) \<Longrightarrow> holds P (case x of None \<Rightarrow> m | Some a \<Rightarrow> f a)"
  by (cases x) simp_all

lemma holds_sum [holds_rules]:
  "(\<And>a. x = Inl a \<Longrightarrow> holds P (f a)) \<Longrightarrow> (\<And>a. x = Inr a \<Longrightarrow> holds P (g a)) \<Longrightarrow> holds P (case x of Inl a \<Rightarrow> f a | Inr a \<Rightarrow> g a)"
  by (cases x) simp_all

lemma holds_each: "(\<And>x. x \<in> set xs \<Longrightarrow> holds P (f x)) \<Longrightarrow> holds P (tr_each f xs)"
  unfolding holds_def by (rule traced_ok_each)

lemma traced_ok_catch:
  assumes "traced_ok P m I Q" "\<And>w. P w \<Longrightarrow> I w" "\<And>e. traced_ok I (h e) I Q"
  shows "traced_ok P (tr_catch m h) I Q"
proof (rule traced_okI)
  fix w w'
  assume w: "P w" "w' \<in> set (snd (tr_catch m h w))"
  obtain r ws where m: "m w = (r, ws)" by fastforce
  have ws: "\<And>v. v \<in> set ws \<Longrightarrow> I v" using traced_ok_state [OF assms(1) w(1)] m by simp
  then have "I (last (w # ws))" using assms(2) [OF w(1)] last_in_set [of "w # ws"] by auto
  show "I w'"
  proof (cases r)
    case (Inl e)
    obtain s vs where h: "h e (last (w # ws)) = (s, vs)" by fastforce
    then have "w' \<in> set ws \<or> w' \<in> set vs" using w(2) m Inl by (simp add: tr_catch_def del: last.simps)
    moreover have "w' \<in> set vs \<Longrightarrow> I w'"
      using traced_ok_state [OF assms(3) \<open>I (last (w # ws))\<close>, of w' e] h by (simp del: last.simps)
    ultimately show ?thesis using ws by blast
  next
    case (Inr b)
    then show ?thesis using w(2) m ws by (simp add: tr_catch_def)
  qed
next
  fix w a
  assume w: "P w" "fst (tr_catch m h w) = Inr a"
  obtain r ws where m: "m w = (r, ws)" by fastforce
  have ws: "\<And>v. v \<in> set ws \<Longrightarrow> I v" using traced_ok_state [OF assms(1) w(1)] m by simp
  then have I: "I (last (w # ws))" using assms(2) [OF w(1)] last_in_set [of "w # ws"] by auto
  show "Q a (last (w # snd (tr_catch m h w)))"
  proof (cases r)
    case (Inl e)
    obtain s vs where h: "h e (last (w # ws)) = (s, vs)" by fastforce
    then have "s = Inr a" using w(2) m Inl by (simp add: tr_catch_def)
    then have "Q a (last (last (w # ws) # vs))" using traced_ok_result [OF assms(3) I] h by blast
    then show ?thesis using m Inl h by (simp add: tr_catch_def last_append split: if_splits)
  next
    case (Inr b)
    then show ?thesis using w m traced_ok_result [OF assms(1) w(1)] by (simp add: tr_catch_def)
  qed
qed

lemma holds_catch [holds_rules]: "holds P m \<Longrightarrow> (\<And>e. holds P (h e)) \<Longrightarrow> holds P (tr_catch m h)"
  unfolding holds_def by (rule traced_ok_catch)

lemma holds_state: "holds P m \<Longrightarrow> P w \<Longrightarrow> w' \<in> set (snd (m w)) \<Longrightarrow> P w'"
  unfolding holds_def by (rule traced_ok_state)

text \<open>
  What the environment keeps: the others' changes, the tool, and the files that are not the targets.
\<close>

definition unaffected :: "os_world \<Rightarrow> (os_site \<Rightarrow> bool) \<Rightarrow> bool" where
  "unaffected W P \<longleftrightarrow>
     (\<forall>w. P w \<longrightarrow> P (os_tick W w)) \<and> (\<forall>w r. P w \<longrightarrow> P (w\<lparr>wk_raw := r\<rparr>))
     \<and> (\<forall>w name c. P w \<longrightarrow> name \<noteq> ''targets.pq'' \<longrightarrow> name \<noteq> ''targets.pq.part'' \<longrightarrow> P (put_named name c w))
     \<and> (\<forall>p a e w w'. P w \<longrightarrow> w' \<in> set (fst (ow_tool W p a e w)) \<longrightarrow> P w')"

lemma unaffected_tick: "unaffected W P \<Longrightarrow> P w \<Longrightarrow> P (os_tick W w)"
  by (simp add: unaffected_def)

lemma unaffected_raw: "unaffected W P \<Longrightarrow> P w \<Longrightarrow> P (w\<lparr>wk_raw := r\<rparr>)"
  by (simp add: unaffected_def)

lemma unaffected_file: "unaffected W P \<Longrightarrow> P w \<Longrightarrow> name \<noteq> ''targets.pq'' \<Longrightarrow> name \<noteq> ''targets.pq.part'' \<Longrightarrow> P (put_named name c w)"
  by (simp add: unaffected_def)

lemma unaffected_tool: "unaffected W P \<Longrightarrow> P w \<Longrightarrow> w' \<in> set (fst (ow_tool W p a e w)) \<Longrightarrow> P w'"
  by (auto simp: unaffected_def)

lemma holds_command: "unaffected W P \<Longrightarrow> (\<And>a n. holds P (f a n)) \<Longrightarrow> holds P (os_command W f)"
  unfolding os_command_def by (intro holds_rules holds_update) (auto intro: unaffected_tick)

lemma holds_look [holds_rules]: "unaffected W P \<Longrightarrow> holds P (os_look W e f)"
  unfolding os_look_def by (intro holds_command holds_rules)

lemma holds_change: "unaffected W P \<Longrightarrow> (\<And>w. P w \<Longrightarrow> P (f w)) \<Longrightarrow> holds P (os_change W e f)"
  unfolding os_change_def
proof (rule holds_command)
  fix a and n :: nat
  assume "\<And>w. P w \<Longrightarrow> P (f w)"
  then show "holds P (case a of Works \<Rightarrow> tr_update f | Fails \<Rightarrow> tr_fail e | FailsAfterEffect \<Rightarrow> tr_seq (tr_update f) (tr_fail e))"
    by (cases a) (auto intro!: holds_rules holds_update)
qed

lemma look_ok:
  assumes "\<And>w. P w \<Longrightarrow> P (os_tick W w)" "\<And>w. P w \<Longrightarrow> I w" "\<And>w. P w \<Longrightarrow> Q (f w) w"
  shows "traced_ok P (os_look W e f) I Q"
  unfolding os_look_def os_command_def
  by (rule traced_ok_bind [where Q = "\<lambda>_. P"], rule traced_ok_get, assumption,
      rule traced_ok_seq [where Q = P], rule traced_ok_update, simp add: assms(1,2))
     (auto intro!: traced_ok_fail traced_ok_get assms(3))

lemma change_ok:
  assumes "\<And>w. P w \<Longrightarrow> P (os_tick W w)" "\<And>w. P w \<Longrightarrow> I w" "\<And>w. P w \<Longrightarrow> I (f w) \<and> Q (f w)"
  shows "traced_ok P (os_change W e f) I (\<lambda>_. Q)"
  unfolding os_change_def os_command_def
proof (rule traced_ok_bind [where Q = "\<lambda>_. P"], rule traced_ok_get, assumption,
    rule traced_ok_seq [where Q = P], rule traced_ok_update, simp add: assms(1,2))
  fix n
  show "traced_ok P (case ow_access W n of Works \<Rightarrow> tr_update f | Fails \<Rightarrow> tr_fail e
      | FailsAfterEffect \<Rightarrow> tr_seq (tr_update f) (tr_fail e)) I (\<lambda>_. Q)"
    by (cases "ow_access W n") (auto intro!: traced_ok_fail traced_ok_update assms(3) traced_ok_seq [where Q = Q])
qed

lemma holds_read [holds_rules]: "unaffected W P \<Longrightarrow> holds P (store_read W uri)"
  unfolding store_read_def by (rule holds_look)

lemma holds_put: "unaffected W P \<Longrightarrow> (\<And>w. P w \<Longrightarrow> P (set_object uri (Some data) w)) \<Longrightarrow> holds P (store_put W uri data)"
  unfolding store_put_def by (rule holds_change)

lemma holds_delete: "unaffected W P \<Longrightarrow> (\<And>w. P w \<Longrightarrow> P (set_object uri None w)) \<Longrightarrow> holds P (store_delete W uri)"
  unfolding store_delete_def by (rule holds_change)

lemma holds_put_raw:
  "unaffected W P \<Longrightarrow> (\<And>w data. P w \<Longrightarrow> P (set_object uri (Some data) w)) \<Longrightarrow> holds P (store_put_raw W uri mid name)"
  unfolding store_put_raw_def by (intro holds_rules holds_put)

text \<open>Renaming is two changes of a file.\<close>

lemma rename_is_put:
  "from \<noteq> to \<Longrightarrow> w\<lparr>wk_files := (wk_files w)(to := wk_files w from, from := None)\<rparr> = put_named from None (put_named to (wk_files w from) w)"
  by (simp add: put_named_def)

lemma holds_rename:
  assumes "unaffected W P" "from \<noteq> to" "\<And>w c. P w \<Longrightarrow> P (put_named from c w)" "\<And>w c. P w \<Longrightarrow> P (put_named to c w)"
  shows "holds P (rename_file W from to)"
  unfolding rename_file_def by (rule holds_change [OF assms(1)]) (simp add: rename_is_put [OF assms(2)] assms(3,4))

lemma holds_write:
  assumes "unaffected W P" "\<And>w c. P w \<Longrightarrow> P (put_named name c w)"
  shows "holds P (file_write W name content)"
  unfolding file_write_def
proof (rule holds_command [OF assms(1)])
  fix a n
  show "holds P (case a of Works \<Rightarrow> tr_update (put_named name (Some content)) | Fails \<Rightarrow> tr_fail (FileError name)
     | FailsAfterEffect \<Rightarrow> tr_seq (tr_update (put_named name (ow_partial W n))) (tr_fail (FileError name)))"
    by (cases a) (auto intro!: holds_rules holds_update assms(2))
qed

lemma holds_store_get:
  assumes "unaffected W P" "\<And>w c. P w \<Longrightarrow> P (put_named (name @ ''.part'') c w)" "\<And>w c. P w \<Longrightarrow> P (put_named name c w)"
  shows "holds P (store_get W uri name)"
  unfolding store_get_def
proof (rule holds_seq [OF holds_command [OF assms(1)]])
  fix a n
  show "holds P (case a of Fails \<Rightarrow> tr_fail (StoreError uri)
     | FailsAfterEffect \<Rightarrow> tr_seq (tr_update (put_named (name @ ''.part'') (ow_partial W n))) (tr_fail (StoreError uri))
     | Works \<Rightarrow> tr_bind (tr_get (\<lambda>w. wk_objects w uri)) (\<lambda>object.
         case object of None \<Rightarrow> tr_fail (StoreError uri) | Some data \<Rightarrow> tr_update (put_named (name @ ''.part'') (Some data))))"
    by (cases a) (auto intro!: holds_rules holds_update assms(2))
  show "holds P (rename_file W (name @ ''.part'') name)"
    by (rule holds_rename [OF assms(1) _ assms(2,3)]) simp
qed

lemma holds_publish_access:
  assumes "unaffected W P" "\<And>w. P w \<Longrightarrow> P (set_object uri (Some (Encode (ol_json L) v)) w)"
  shows "holds P (publish_access L W uri v pc)"
proof -
  have act: "P (w\<lparr>wk_objects := snd (publish_act (ol_json L) uri v a (pc, wk_objects w))\<rparr>)" if "P w" for w a
    using that assms(2) [OF that] by (cases pc; cases a) (auto simp: set_object_def split: option.split)
  have "holds P (os_command W (\<lambda>a _. tr_bind (tr_get (\<lambda>w. publish_act (ol_json L) uri v a (pc, wk_objects w))) (\<lambda>r.
               tr_seq (tr_update (\<lambda>w. w\<lparr>wk_objects := snd r\<rparr>)) (tr_return (fst r)))))"
  proof (rule holds_command [OF assms(1)])
    fix a n
    show "holds P (tr_bind (tr_get (\<lambda>w. publish_act (ol_json L) uri v a (pc, wk_objects w)))
        (\<lambda>r. tr_seq (tr_update (\<lambda>w. w\<lparr>wk_objects := snd r\<rparr>)) (tr_return (fst r))))"
      by (simp add: holds_def traced_ok_def tr_bind_def tr_get_def tr_seq_def tr_update_def tr_return_def act)
  qed
  then show ?thesis by (cases pc) (simp_all add: publish_access_def holds_return)
qed

lemma holds_publish:
  assumes "unaffected W P" "\<And>w. P w \<Longrightarrow> P (set_object uri (Some (Encode (ol_json L) v)) w)"
  shows "holds P (os_publish L W uri v)"
  unfolding os_publish_def
  by (intro holds_bind holds_publish_access assms) (auto intro!: holds_rules split: publish_pc.split option.split)


section \<open>What the scan keeps\<close>

lemma holds_AtomicJSON:
  assumes "unaffected W P" "name \<noteq> ''targets.pq''" "name \<noteq> ''targets.pq.part''" "name @ ''.part'' \<noteq> ''targets.pq.part''"
  shows "holds P (AtomicJSON L W name v)"
proof -
  have "name @ ''.part'' \<noteq> ''targets.pq''" by (auto simp: append_eq_Cons_conv)
  then have put: "P w \<Longrightarrow> P (put_named (name @ ''.part'') c w)" "P w \<Longrightarrow> P (put_named name c w)" for w c
    using assms(2-4) by (auto intro: unaffected_file [OF assms(1)])
  show ?thesis
    unfolding AtomicJSON_def make_directory_def
    by (intro holds_rules holds_write holds_rename assms(1) put) simp_all
qed

lemma holds_decoded [holds_rules]: "holds P (decoded name v)"
  unfolding decoded_def by (intro holds_rules)

lemma holds_evidence [holds_rules]: "unaffected W P \<Longrightarrow> holds P (file_evidence_of L W name f)"
  unfolding file_evidence_of_def by (intro holds_rules)

lemma holds_pin [holds_rules]: "unaffected W P \<Longrightarrow> holds P (pin_request L W data q)"
  unfolding pin_request_def make_directory_def file_read_def by (intro holds_rules holds_AtomicJSON) simp_all

lemma holds_save_step [holds_rules]: "unaffected W P \<Longrightarrow> holds P (save_step L W s)"
  unfolding save_step_def by (intro holds_rules holds_AtomicJSON) simp_all

lemma holds_load_step [holds_rules]: "unaffected W P \<Longrightarrow> holds P (load_step L W)"
  unfolding load_step_def file_read_def by (intro holds_rules)

lemma holds_fresh_attempt [holds_rules]: "unaffected W P \<Longrightarrow> holds P (fresh_attempt L W retry step)"
  unfolding fresh_attempt_def Let_def by (intro holds_rules holds_change) (simp_all add: move_raw_def unaffected_raw)

lemma holds_write_config [holds_rules]: "unaffected W P \<Longrightarrow> holds P (write_config L W)"
  unfolding write_config_def by (intro holds_rules holds_write) (simp_all add: unaffected_file)

lemma holds_execute [holds_rules]:
  assumes "unaffected W P"
  shows "holds P (execute_tool W q step)"
proof -
  obtain p a e where x: "\<And>w. execute_tool W q step w = (case ow_tool W p a e w of (ws, b) \<Rightarrow> (if b then Inr () else Inl ToolFailure, ws))"
    unfolding execute_tool_def by blast
  show ?thesis
    unfolding holds_def
  proof (rule traced_okI)
    fix w w'
    assume w: "P w" "w' \<in> set (snd (execute_tool W q step w))"
    then have "w' \<in> set (fst (ow_tool W p a e w))" by (auto simp: x split: prod.splits)
    then show "P w'" by (rule unaffected_tool [OF assms w(1)])
  next
    fix w u
    assume w: "P w" "fst (execute_tool W q step w) = Inr u"
    have "snd (execute_tool W q step w) = fst (ow_tool W p a e w)" by (simp add: x split: prod.split)
    moreover have "P (last (w # ws))" if "\<And>v. v \<in> set ws \<Longrightarrow> P v" for ws
      using that w(1) last_in_set [of "w # ws"] by auto
    ultimately show "P (last (w # snd (execute_tool W q step w)))" using unaffected_tool [OF assms w(1)] by metis
  qed
qed

lemma holds_scan [holds_rules]: "unaffected W P \<Longrightarrow> holds P (scan_unless_complete L W q retry step)"
  unfolding scan_unless_complete_def by (intro holds_rules)

lemma holds_read_marker [holds_rules]: "unaffected W P \<Longrightarrow> holds P (read_marker L W mid)"
  unfolding read_marker_def by (intro holds_rules)

lemma holds_late_fields [holds_rules]: "unaffected W P \<Longrightarrow> holds P (late_fields L W raw step)"
  unfolding late_fields_def by (intro holds_rules holds_command)

lemma holds_fetch_targets:
  assumes "unaffected W P" "\<And>w c. P w \<Longrightarrow> P (put_named ''targets.pq'' c w)" "\<And>w c. P w \<Longrightarrow> P (put_named ''targets.pq.part'' c w)"
  shows "holds P (fetch_targets L W t)"
  unfolding fetch_targets_def local_targets_def
  by (intro holds_rules holds_command holds_store_get) (simp_all add: assms)

lemma holds_upload_raw:
  "unaffected W P \<Longrightarrow> (\<And>w data. P w \<Longrightarrow> P (set_object (Join raw [name]) (Some data) w)) \<Longrightarrow> holds P (upload_raw L W raw m mid name)"
  unfolding upload_raw_def by (intro holds_rules holds_put_raw)

lemma holds_publish_scan:
  assumes "unaffected W P" "\<And>w name data. P w \<Longrightarrow> name \<in> set raw_names \<Longrightarrow> P (set_object (Join raw [name]) (Some data) w)"
    and "\<And>w data. P w \<Longrightarrow> P (set_object (Join job [''done.json'']) (Some data) w)"
  shows "holds P (publish_scan L W job raw campaign q late vantage step)"
  unfolding publish_scan_def by (intro holds_rules holds_each holds_upload_raw holds_publish assms)

lemma holds_runOSScan:
  assumes "unaffected W P" "\<And>w name data. P w \<Longrightarrow> name \<in> set raw_names \<Longrightarrow> P (set_object (Join raw [name]) (Some data) w)"
    and "\<And>w data. P w \<Longrightarrow> P (set_object (Join job [''done.json'']) (Some data) w)"
    and "\<And>w c. P w \<Longrightarrow> P (put_named ''targets.pq'' c w)" "\<And>w c. P w \<Longrightarrow> P (put_named ''targets.pq.part'' c w)"
  shows "holds P (runOSScan L W job raw campaign data q late vantage retry)"
  unfolding runOSScan_def by (intro holds_rules holds_fetch_targets holds_publish_scan assms)


section \<open>The outcome of a campaign's job is unique\<close>

text \<open>Nobody else, and not the tool, writes this object.\<close>

definition leaves :: "os_world \<Rightarrow> string \<Rightarrow> bool" where
  "leaves W u \<longleftrightarrow> (\<forall>n s. ow_change W n s u = s u)
     \<and> (\<forall>p a e w. \<forall>w' \<in> set (fst (ow_tool W p a e w)). wk_objects w' u = wk_objects w u)"

lemma unaffected_leaves: "leaves W u \<Longrightarrow> unaffected W (\<lambda>w. X (wk_objects w u))"
  by (auto simp: leaves_def unaffected_def os_tick_def put_named_def)

lemma unaffected_leaves2: "leaves W u \<Longrightarrow> leaves W v \<Longrightarrow> unaffected W (\<lambda>w. X (wk_objects w u) (wk_objects w v))"
  by (auto simp: leaves_def unaffected_def os_tick_def put_named_def)

lemma tick_leaves: "leaves W u \<Longrightarrow> wk_objects (os_tick W w) u = wk_objects w u"
  by (simp add: leaves_def os_tick_def)

text \<open>What comes after the last slash tells objects apart.\<close>

lemma after_last_slash_append: "CHR ''/'' \<notin> set n \<Longrightarrow> after_last_slash (p @ CHR ''/'' # n) = n"
proof -
  assume "CHR ''/'' \<notin> set n"
  then have "takeWhile (\<lambda>c. c \<noteq> CHR ''/'') (rev n @ CHR ''/'' # rev p) = rev n"
    by (induction "rev n" arbitrary: n) (auto simp: takeWhile_append takeWhile_eq_all_conv)
  then show ?thesis by (simp add: after_last_slash_def)
qed

lemma after_last_slash_Join:
  "CHR ''/'' \<notin> set n \<Longrightarrow> after_last_slash (Join p [n]) = n"
  "CHR ''/'' \<notin> set n \<Longrightarrow> after_last_slash (Join p [a, n]) = n"
  "CHR ''/'' \<notin> set n \<Longrightarrow> after_last_slash (Join p [a, b, n]) = n"
  "CHR ''/'' \<notin> set n \<Longrightarrow> after_last_slash (Join p [a, b, c, n]) = n"
  using after_last_slash_append [of n "trim_slashes p"] after_last_slash_append [of n "trim_slashes p @ ''/'' @ a"]
    after_last_slash_append [of n "trim_slashes p @ ''/'' @ a @ ''/'' @ b"]
    after_last_slash_append [of n "trim_slashes p @ ''/'' @ a @ ''/'' @ b @ ''/'' @ c"]
  by (simp_all add: Join_def)

lemma other_last: "after_last_slash u \<noteq> after_last_slash v \<Longrightarrow> u \<noteq> v"
  by auto

lemma raw_name_plain: "name \<in> set raw_names \<Longrightarrow> CHR ''/'' \<notin> set name"
  by (auto simp: raw_names_def)

lemma other_raw: "name \<in> set raw_names \<Longrightarrow> CHR ''/'' \<notin> set n \<Longrightarrow> n \<notin> set raw_names \<Longrightarrow> Join raw [name] \<noteq> Join job [n]"
  using after_last_slash_Join(1) [of name raw] after_last_slash_Join(1) [of n job] raw_name_plain by metis

lemma other_name:
  assumes "name \<in> set raw_names"
  shows "Join raw [name] \<noteq> Join job [''done.json'']" "Join raw [name] \<noteq> Join job [''failed.json'']"
    "Join raw [name] \<noteq> Join job [''request.json'']"
  by (rule other_raw [OF assms], simp, simp add: raw_names_def)+

abbreviation done_marker :: "string \<Rightarrow> string" where "done_marker job \<equiv> Join job [''done.json'']"
abbreviation failed_marker :: "string \<Rightarrow> string" where "failed_marker job \<equiv> Join job [''failed.json'']"

definition one_outcome :: "string \<Rightarrow> os_site \<Rightarrow> bool" where
  "one_outcome job w \<longleftrightarrow> wk_objects w (done_marker job) = None \<or> wk_objects w (failed_marker job) = None"

lemma one_outcome_unaffected: "leaves W (done_marker job) \<Longrightarrow> leaves W (failed_marker job) \<Longrightarrow> unaffected W (one_outcome job)"
  unfolding one_outcome_def [abs_def] by (rule unaffected_leaves2)

lemma done_not_failed [simp]: "done_marker job \<noteq> failed_marker job" "failed_marker job \<noteq> done_marker job"
  by (simp_all add: Join_def)

lemma holds_traced: "holds P m \<Longrightarrow> (\<And>w. P' w \<Longrightarrow> P w) \<Longrightarrow> (\<And>w. P w \<Longrightarrow> I w) \<Longrightarrow> traced_ok P' m I (\<lambda>_. I)"
  unfolding holds_def by (rule traced_ok_pre [of P], erule traced_ok_post) simp_all

text \<open>After a look at an object that is not there, an operation that keeps it absent.\<close>

lemma read_absent:
  assumes "leaves W u" "unaffected W P" "\<And>x. x \<noteq> None \<Longrightarrow> holds P (f x)"
    and "traced_ok (\<lambda>w. P w \<and> wk_objects w u = None) (f None) P (\<lambda>_. P)"
  shows "holds P (tr_bind (store_read W u) f)"
  unfolding holds_def
proof (rule traced_ok_bind)
  show "traced_ok P (store_read W u) P (\<lambda>x w. P w \<and> wk_objects w u = x)"
    unfolding store_read_def by (rule look_ok) (simp_all add: unaffected_tick [OF assms(2)])
  fix x
  show "traced_ok (\<lambda>w. P w \<and> wk_objects w u = x) (f x) P (\<lambda>_. P)"
  proof (cases x)
    case None
    then show ?thesis using assms(4) by simp
  next
    case (Some b)
    then show ?thesis using assms(3) [of x] unfolding holds_def by (auto elim: traced_ok_pre)
  qed
qed

lemma holds_scan_outcome:
  assumes "leaves W (failed_marker job)"
  shows "holds (\<lambda>w. wk_objects w (failed_marker job) = None) (runOSScan L W job raw campaign data q late vantage retry)"
  by (rule holds_runOSScan) (auto intro: unaffected_leaves [OF assms] simp: set_object_def put_named_def other_name [symmetric])

lemma holds_failing [holds_rules]: "holds P (failing e)"
  unfolding failing_def by (intro holds_rules)

lemma holds_OSDisabled [holds_rules]: "holds P (OSDisabled d)"
  unfolding OSDisabled_def by (intro holds_rules)

lemma holds_check_request [holds_rules]: "holds P (check_request d campaign job q)"
  unfolding check_request_def by (intro holds_rules)


lemma holds_run_request:
  assumes "leaves W (done_marker job)" "leaves W (failed_marker job)"
  shows "holds (one_outcome job) (run_request L W d campaign job retry)"
proof -
  note st = one_outcome_unaffected [OF assms]
  have F: "unaffected W (\<lambda>w. wk_objects w (failed_marker job) = None)" by (rule unaffected_leaves [OF assms(2)])
  show ?thesis
    unfolding run_request_def
  proof (rule holds_bind [OF holds_read [OF st]], rule holds_if, rule holds_return,
      rule read_absent [OF assms(2) st], simp add: holds_fail,
      simp only: simp_thms if_False, rule holds_traced [where P = "\<lambda>w. wk_objects w (failed_marker job) = None"])
  qed (auto intro!: holds_rules F holds_scan_outcome [OF assms(2)] simp: one_outcome_def)
qed

lemma holds_not_requested:
  assumes "unaffected W P" "\<And>w data. P w \<Longrightarrow> P (set_object (Join prefix [''continental'', campaign, ''os'', ''not-requested.json'']) (Some data) w)"
  shows "holds P (PublishOSNotRequested L W prefix campaign)"
  unfolding PublishOSNotRequested_def by (rule holds_publish [OF assms])

lemma os_job_uris:
  "Join prefix [''continental'', campaign, ''os'', ''not-requested.json''] \<noteq> Join job [''done.json'']"
  "Join prefix [''continental'', campaign, ''os'', ''not-requested.json''] \<noteq> Join job [''failed.json'']"
  by (rule other_last, simp add: after_last_slash_Join)+

lemma holds_RunOS:
  assumes "leaves W (done_marker (os_job prefix campaign))" "leaves W (failed_marker (os_job prefix campaign))"
  shows "holds (one_outcome (os_job prefix campaign)) (RunOS L W prefix campaign retry)"
  unfolding RunOS_def run_campaign_os_def
  by (intro holds_rules holds_run_request holds_not_requested one_outcome_unaffected assms)
     (auto simp: one_outcome_def set_object_def os_job_uris os_job_uris [symmetric])

text \<open>A failure is written where no outcome was, a retry only deletes one.\<close>

lemma holds_publish_failure:
  assumes "leaves W (done_marker job)" "leaves W (failed_marker job)"
  shows "holds (one_outcome job) (publish_failure L W job v)"
proof -
  note st = one_outcome_unaffected [OF assms]
  have D: "unaffected W (\<lambda>w. wk_objects w (done_marker job) = None)" by (rule unaffected_leaves [OF assms(1)])
  show ?thesis
    unfolding publish_failure_def
  proof (rule holds_bind [OF holds_read [OF st]], rule holds_if, rule holds_return,
      rule read_absent [OF assms(1) st], simp add: holds_return,
      simp only: simp_thms if_False, rule holds_traced [where P = "\<lambda>w. wk_objects w (done_marker job) = None"])
  qed (auto intro!: holds_rules D holds_publish simp: one_outcome_def set_object_def)
qed

lemma holds_PublishOSFailure:
  assumes "leaves W (done_marker (os_job prefix campaign))" "leaves W (failed_marker (os_job prefix campaign))"
  shows "holds (one_outcome (os_job prefix campaign)) (PublishOSFailure L W prefix campaign e)"
  unfolding PublishOSFailure_def by (intro holds_rules holds_publish_failure one_outcome_unaffected assms)

lemma archived_uris:
  "Join job [''attempts'', n, ''failed.json''] \<noteq> Join job [''done.json'']" "Join job [''attempts'', n, ''failed.json''] \<noteq> Join job [''failed.json'']"
  by (simp_all add: Join_def)

lemma holds_retry:
  assumes "leaves W (done_marker job)" "leaves W (failed_marker job)"
  shows "holds (one_outcome job) (retryScanFailure W job)"
  unfolding retryScanFailure_def
  by (intro holds_rules holds_put holds_delete one_outcome_unaffected assms)
     (auto simp: one_outcome_def set_object_def archived_uris archived_uris [symmetric])

lemma holds_RetryOSFailure:
  assumes "leaves W (done_marker job)" "leaves W (failed_marker job)"
  shows "holds (one_outcome job) (RetryOSFailure L W job)"
  unfolding RetryOSFailure_def by (intro holds_rules holds_retry one_outcome_unaffected assms)

lemma holds_worker_round: "holds P run \<Longrightarrow> (\<And>e. holds P (report e)) \<Longrightarrow> holds P (worker_round W run report)"
  unfolding worker_round_def by (intro holds_rules)

lemma holds_worker_loop: "holds P run \<Longrightarrow> (\<And>e. holds P (report e)) \<Longrightarrow> holds P (worker_loop W once run report k)"
proof (induction k)
  case 0
  then show ?case by (subst worker_loop.simps) (auto intro!: holds_rules holds_worker_round)
next
  case (Suc k)
  then show ?case by (subst worker_loop.simps) (auto intro!: holds_rules holds_worker_round)
qed

lemma holds_enter [holds_rules]: "unaffected W P \<Longrightarrow> holds P (enter_workspace W)"
  unfolding enter_workspace_def make_directory_def by (intro holds_rules)

lemma holds_campaign_worker:
  assumes "leaves W (done_marker (os_job prefix (wf_campaign F)))" "leaves W (failed_marker (os_job prefix (wf_campaign F)))"
  shows "holds (one_outcome (os_job prefix (wf_campaign F))) (campaign_worker L W F prefix k)"
  unfolding campaign_worker_def
  by (intro holds_rules holds_worker_loop holds_RunOS holds_PublishOSFailure holds_RetryOSFailure one_outcome_unaffected assms)

lemma leaves_workspace [simp]: "leaves (W\<lparr>ow_workspace := d\<rparr>) u \<longleftrightarrow> leaves W u"
  by (simp add: leaves_def)

lemma holds_worker_prefix [holds_rules]: "unaffected W P \<Longrightarrow> holds P (worker_prefix L W F)"
  unfolding worker_prefix_def by (intro holds_rules)

text \<open>
  What the store of a campaign goes through: runs of its worker with any flags, each ended by a crash or a return at any
  point, and what others do in between, as long as the worker is the only one that writes the outcome.
\<close>

inductive os_history :: "os_library \<Rightarrow> string \<Rightarrow> string \<Rightarrow> os_site \<Rightarrow> bool" for L prefix campaign where
  start: "one_outcome (os_job prefix campaign) w \<Longrightarrow> os_history L prefix campaign w"
| run: "os_history L prefix campaign w \<Longrightarrow> wf_prefix F = prefix \<Longrightarrow> wf_campaign F = campaign \<Longrightarrow> prefix \<noteq> [] \<Longrightarrow>
     \<not> wf_enrichment F \<Longrightarrow> \<not> wf_request F \<Longrightarrow>
     leaves W (done_marker (os_job prefix campaign)) \<Longrightarrow> leaves W (failed_marker (os_job prefix campaign)) \<Longrightarrow>
     w' \<in> set (snd (os_worker L W F k w)) \<Longrightarrow> os_history L prefix campaign w'"
| outside: "os_history L prefix campaign w \<Longrightarrow>
     wk_objects w' (done_marker (os_job prefix campaign)) = wk_objects w (done_marker (os_job prefix campaign)) \<Longrightarrow>
     wk_objects w' (failed_marker (os_job prefix campaign)) = wk_objects w (failed_marker (os_job prefix campaign)) \<Longrightarrow>
     os_history L prefix campaign w'"

lemma os_worker_state:
  assumes "w' \<in> set (snd (os_worker L W F k w))" "wf_prefix F \<noteq> []"
  shows "\<exists>V. V = W\<lparr>ow_workspace := worker_workspace (ow_repo W) F\<rparr> \<and>
    (if wf_enrichment F \<or> wf_request F
     then \<exists>core. EnrichmentCore (wf_prefix F) (wf_campaign F) (wf_zmap F) = Inr core \<and> w' \<in> set (snd (enrichment_worker L V F core k w))
     else w' \<in> set (snd (campaign_worker L V F (wf_prefix F) k w)))"
  using assms
  by (auto simp: os_worker_def tr_seq_def tr_bind_def failing_def worker_prefix_def tr_check_def tr_return_def tr_fail_def Let_def
      split: option.splits if_splits sum.splits prod.splits)

text \<open>
  C7: The OS measurement of a campaign has one outcome. After any history of runs of the worker with any flags, retries
  included, each cut off at any point and whatever access failed, \<open>done.json\<close> and \<open>failed.json\<close> are never both
  there, provided nobody else writes these two objects.
\<close>

theorem os_outcome_unique:
  assumes "os_history L prefix campaign w"
  shows "wk_objects w (Join (os_job prefix campaign) [''done.json'']) = None
    \<or> wk_objects w (Join (os_job prefix campaign) [''failed.json'']) = None"
proof -
  have "one_outcome (os_job prefix campaign) w"
    using assms
  proof induction
    case (run w F W w' k)
    let ?V = "W\<lparr>ow_workspace := worker_workspace (ow_repo W) F\<rparr>"
    have w': "w' \<in> set (snd (campaign_worker L ?V F prefix k w))"
      using os_worker_state [OF run.hyps(9)] run.hyps(2,4,5,6) by simp
    have "holds (one_outcome (os_job prefix campaign)) (campaign_worker L ?V F prefix k)"
      using holds_campaign_worker [of ?V prefix F] run.hyps(3,7,8) by simp
    from holds_state [OF this run.IH w'] show ?case .
  qed (simp_all add: one_outcome_def)
  then show ?thesis by (simp add: one_outcome_def)
qed


section \<open>A published outcome is backed by its data\<close>

definition evidence_of :: "os_library \<Rightarrow> string \<Rightarrow> file_evidence" where
  "evidence_of L c = \<lparr>fe_Size = length c, fe_SHA256 = ol_sha L c\<rparr>"

definition uploaded :: "os_library \<Rightarrow> string \<Rightarrow> (string \<times> file_evidence) list \<Rightarrow> os_site \<Rightarrow> bool" where
  "uploaded L raw fs w \<longleftrightarrow>
     list_all (\<lambda>(name, e). case wk_objects w (Join raw [name]) of None \<Rightarrow> False | Some c \<Rightarrow> e = evidence_of L c) fs"

definition target_there :: "os_library \<Rightarrow> os_target \<Rightarrow> os_site \<Rightarrow> bool" where
  "target_there L t w \<longleftrightarrow> (case wk_files w ''targets.pq'' of None \<Rightarrow> False | Some c \<Rightarrow> is_target t (evidence_of L c))"

definition tool_keeps_files :: "os_world \<Rightarrow> bool" where
  "tool_keeps_files W \<longleftrightarrow> (\<forall>p a e w. \<forall>w' \<in> set (fst (ow_tool W p a e w)). wk_files w' = wk_files w)"

lemma unaffected_conj: "unaffected W P \<Longrightarrow> unaffected W Q \<Longrightarrow> unaffected W (\<lambda>w. P w \<and> Q w)"
  by (subst unaffected_def) (simp add: unaffected_tick unaffected_raw unaffected_file, blast intro: unaffected_tool)

lemma unaffected_const: "unaffected W (\<lambda>_. b)"
  by (simp add: unaffected_def)

lemma unaffected_target: "tool_keeps_files W \<Longrightarrow> unaffected W (target_there L t)"
  by (auto simp: unaffected_def tool_keeps_files_def target_there_def os_tick_def put_named_def)

lemma uploaded_cong: "(\<And>name e. (name, e) \<in> set fs \<Longrightarrow> wk_objects w' (Join raw [name]) = wk_objects w (Join raw [name])) \<Longrightarrow>
    uploaded L raw fs w' = uploaded L raw fs w"
  by (auto simp: uploaded_def list_all_iff)

lemma unaffected_uploaded:
  assumes "\<And>name e. (name, e) \<in> set fs \<Longrightarrow> leaves W (Join raw [name])"
  shows "unaffected W (uploaded L raw fs)"
proof -
  have eq: "uploaded L raw fs w' = uploaded L raw fs w" if "\<And>u. leaves W u \<Longrightarrow> wk_objects w' u = wk_objects w u" for w w'
    by (rule uploaded_cong) (use that assms in blast)
  have "uploaded L raw fs (os_tick W w) = uploaded L raw fs w" for w by (rule eq) (rule tick_leaves)
  moreover have "uploaded L raw fs (w\<lparr>wk_raw := r\<rparr>) = uploaded L raw fs w" for w r by (rule eq) simp
  moreover have "uploaded L raw fs (put_named name c w) = uploaded L raw fs w" for w name c by (rule eq) (simp add: put_named_def)
  moreover have "uploaded L raw fs w' = uploaded L raw fs w" if "w' \<in> set (fst (ow_tool W p a e w))" for w w' p a e
    by (rule eq) (use that in \<open>auto simp: leaves_def\<close>)
  ultimately show ?thesis by (auto simp: unaffected_def)
qed

lemma traced_ok_pure: "(b \<Longrightarrow> traced_ok P m I Q) \<Longrightarrow> traced_ok (\<lambda>w. b \<and> P w) m I Q"
  by (auto simp: traced_ok_def)

lemma evidence_ok:
  assumes "\<And>w. P w \<Longrightarrow> P (os_tick W w)" "\<And>w. P w \<Longrightarrow> I w"
  shows "traced_ok P (file_evidence_of L W name f) I (\<lambda>e w. P w \<and> (\<exists>c. f w = Some c \<and> e = evidence_of L c))"
  unfolding file_evidence_of_def
proof (rule traced_ok_bind [where Q = "\<lambda>x w. P w \<and> f w = x"], rule look_ok)
  fix x
  show "traced_ok (\<lambda>w. P w \<and> f w = x) (case x of None \<Rightarrow> tr_fail (FileError name)
      | Some data \<Rightarrow> tr_return \<lparr>fe_Size = length data, fe_SHA256 = ol_sha L data\<rparr>) I (\<lambda>e w. P w \<and> (\<exists>c. f w = Some c \<and> e = evidence_of L c))"
    by (cases x) (auto intro: traced_ok_fail intro!: traced_ok_return simp: evidence_of_def)
qed (use assms in simp_all)

lemma uploaded_put:
  assumes "uploaded L raw fs w" "name \<notin> set (map fst fs)"
  shows "uploaded L raw (fs @ [(name, evidence_of L c)]) (set_object (Join raw [name]) (Some c) w)"
proof -
  have "Join raw [n] \<noteq> Join raw [name]" if "(n, e) \<in> set fs" for n e
    using that assms(2) by (force simp: Join_def)
  then have "uploaded L raw fs (set_object (Join raw [name]) (Some c) w) = uploaded L raw fs w"
    by (intro uploaded_cong) (auto simp: set_object_def)
  then show ?thesis using assms(1) by (simp add: uploaded_def set_object_def)
qed

lemma tick_raw [simp]: "raw_file mid name (os_tick W w) = raw_file mid name w"
  by (simp add: raw_file_def os_tick_def)

lemma upload_raw_ok:
  assumes "unaffected W B" "\<And>w data. B w \<Longrightarrow> B (set_object (Join raw [name]) (Some data) w)"
    and "\<And>n e. (n, e) \<in> set fs \<Longrightarrow> leaves W (Join raw [n])" "name \<notin> set (map fst fs)"
  shows "traced_ok (\<lambda>w. B w \<and> uploaded L raw fs w) (upload_raw L W raw m mid name) B
    (\<lambda>r w. fst r = name \<and> B w \<and> uploaded L raw (fs @ [r]) w)"
proof -
  let ?P = "\<lambda>w. B w \<and> uploaded L raw fs w"
  have st: "unaffected W ?P" by (rule unaffected_conj [OF assms(1) unaffected_uploaded [OF assms(3)]])
  have tick: "\<And>w. ?P w \<Longrightarrow> ?P (os_tick W w)" by (rule unaffected_tick [OF st])
  have ev: "traced_ok ?P (file_evidence_of L W name (raw_file mid name)) B
      (\<lambda>e w. ?P w \<and> (\<exists>c. raw_file mid name w = Some c \<and> e = evidence_of L c))"
    by (rule evidence_ok) (use tick in simp_all)
  have put: "traced_ok (\<lambda>w. ?P w \<and> (\<exists>c. raw_file mid name w = Some c \<and> e = evidence_of L c))
      (store_put_raw W (Join raw [name]) mid name) B (\<lambda>_ w. B w \<and> uploaded L raw (fs @ [(name, e)]) w)" for e
    unfolding store_put_raw_def store_put_def
  proof (rule traced_ok_bind [where Q = "\<lambda>x w. ?P w \<and> x = raw_file mid name w \<and> (\<exists>c. x = Some c \<and> e = evidence_of L c)"],
      rule traced_ok_get, simp)
    fix x
    show "traced_ok (\<lambda>w. ?P w \<and> x = raw_file mid name w \<and> (\<exists>c. x = Some c \<and> e = evidence_of L c))
       (case x of None \<Rightarrow> tr_fail (StoreError (Join raw [name]))
        | Some data \<Rightarrow> os_change W (StoreError (Join raw [name])) (set_object (Join raw [name]) (Some data))) B
       (\<lambda>_ w. B w \<and> uploaded L raw (fs @ [(name, e)]) w)"
      by (cases x) (auto intro!: traced_ok_fail change_ok intro: tick [THEN conjunct1] tick [THEN conjunct2] assms(2) uploaded_put [OF _ assms(4)])
  qed
  show ?thesis
    unfolding upload_raw_def
    by (rule traced_ok_bind [OF ev], rule traced_ok_seq, rule traced_ok_check, assumption, rule traced_ok_seq [OF put],
        rule traced_ok_return) simp
qed

lemma upload_all_ok:
  assumes "unaffected W B" "\<And>w data name. B w \<Longrightarrow> name \<in> set names \<Longrightarrow> B (set_object (Join raw [name]) (Some data) w)"
  shows "(\<And>n. n \<in> set (map fst fs) \<Longrightarrow> leaves W (Join raw [n])) \<Longrightarrow> (\<And>n. n \<in> set names \<Longrightarrow> leaves W (Join raw [n])) \<Longrightarrow>
    distinct (map fst fs @ names) \<Longrightarrow>
    traced_ok (\<lambda>w. B w \<and> uploaded L raw fs w) (tr_each (upload_raw L W raw m mid) names) B
      (\<lambda>gs w. map fst gs = names \<and> B w \<and> uploaded L raw (fs @ gs) w)"
  using assms(2)
proof (induction names arbitrary: fs)
  case Nil
  then show ?case by (auto intro: traced_ok_return)
next
  case (Cons name names)
  have one: "traced_ok (\<lambda>w. B w \<and> uploaded L raw fs w) (upload_raw L W raw m mid name) B
      (\<lambda>r w. fst r = name \<and> B w \<and> uploaded L raw (fs @ [r]) w)"
  proof (rule upload_raw_ok [OF assms(1)])
    show "B (set_object (Join raw [name]) (Some data) w)" if "B w" for w data using Cons.prems(4) [OF that] by simp
    show "leaves W (Join raw [n])" if "(n, e) \<in> set fs" for n e using Cons.prems(1) that by force
    show "name \<notin> set (map fst fs)" using Cons.prems(3) by auto
  qed
  have rest: "traced_ok (\<lambda>w. fst r = name \<and> B w \<and> uploaded L raw (fs @ [r]) w) (tr_each (upload_raw L W raw m mid) names) B
      (\<lambda>gs w. fst r = name \<and> map fst gs = names \<and> B w \<and> uploaded L raw (fs @ r # gs) w)" for r
  proof (rule traced_ok_pure)
    assume r: "fst r = name"
    have "traced_ok (\<lambda>w. B w \<and> uploaded L raw (fs @ [r]) w) (tr_each (upload_raw L W raw m mid) names) B
      (\<lambda>gs w. map fst gs = names \<and> B w \<and> uploaded L raw ((fs @ [r]) @ gs) w)"
    proof (rule Cons.IH)
      show "leaves W (Join raw [n])" if "n \<in> set (map fst (fs @ [r]))" for n
        using that r Cons.prems(1,2) by auto
      show "leaves W (Join raw [n])" if "n \<in> set names" for n using that Cons.prems(2) by simp
      show "distinct (map fst (fs @ [r]) @ names)" using Cons.prems(3) r by simp
      show "B (set_object (Join raw [n]) (Some data) w)" if "B w" "n \<in> set names" for w data n
        using Cons.prems(4) that by simp
    qed
    then show "traced_ok (\<lambda>w. B w \<and> uploaded L raw (fs @ [r]) w) (tr_each (upload_raw L W raw m mid) names) B
      (\<lambda>gs w. fst r = name \<and> map fst gs = names \<and> B w \<and> uploaded L raw (fs @ r # gs) w)" using r by simp
  qed
  show ?case
    by (simp, rule traced_ok_bind [OF one], rule traced_ok_bind [OF rest], rule traced_ok_return) auto
qed


lemma holds_post: "holds P m \<Longrightarrow> (\<And>w. P w \<Longrightarrow> Q w) \<Longrightarrow> traced_ok P m Q (\<lambda>_. P)"
  unfolding holds_def by (erule traced_ok_post)

lemma fetch_targets_ok:
  assumes "unaffected W P" "\<And>w c. P w \<Longrightarrow> P (put_named ''targets.pq'' c w)" "\<And>w c. P w \<Longrightarrow> P (put_named ''targets.pq.part'' c w)"
  shows "traced_ok P (fetch_targets L W t) P (\<lambda>_ w. P w \<and> target_there L t w)"
proof -
  have get: "traced_ok P (store_get W u ''targets.pq'') P (\<lambda>_. P)" for u
    using holds_store_get [OF assms(1), of "''targets.pq''"] assms(2,3) by (simp add: holds_def)
  have look: "traced_ok P (local_targets L W) P (\<lambda>e w. P w \<and> (\<exists>c. wk_files w ''targets.pq'' = Some c \<and> e = evidence_of L c))"
    unfolding local_targets_def by (rule evidence_ok) (simp_all add: unaffected_tick [OF assms(1)])
  have there: "P w \<and> target_there L t w" if "P w \<and> (\<exists>c. wk_files w ''targets.pq'' = Some c \<and> e = evidence_of L c)" "is_target t e" for e w
    using that by (auto simp: target_there_def)
  have again: "traced_ok P (tr_seq (store_get W u ''targets.pq'') (tr_bind (local_targets L W) (\<lambda>a. tr_check (is_target t a) UnionMismatch)))
      P (\<lambda>_ w. P w \<and> target_there L t w)" for u
    by (rule traced_ok_seq [OF get], rule traced_ok_bind [OF look], rule traced_ok_check, rule there)
  show ?thesis
    unfolding fetch_targets_def
  proof (rule traced_ok_bind [where Q = "\<lambda>_. P"])
    show "traced_ok P (os_command W (\<lambda>a _. tr_get (\<lambda>w. a = Works \<and> wk_files w ''targets.pq'' = None))) P (\<lambda>_. P)"
      unfolding holds_def [symmetric] by (rule holds_command [OF assms(1) holds_get])
    fix missing
    show "traced_ok P (tr_seq (if missing then store_get W (ot_URI t) ''targets.pq'' else tr_return ()) (tr_bind (local_targets L W)
        (\<lambda>actual. if is_target t actual then tr_return () else tr_seq (store_get W (ot_URI t) ''targets.pq'')
             (tr_bind (local_targets L W) (\<lambda>a. tr_check (is_target t a) UnionMismatch))))) P (\<lambda>_ w. P w \<and> target_there L t w)"
    proof (rule traced_ok_seq [where Q = P], rule traced_ok_if, rule get, rule traced_ok_return, assumption,
        rule traced_ok_bind [OF look], rule traced_ok_if)
      fix e
      assume "is_target t e"
      then show "traced_ok (\<lambda>w. P w \<and> (\<exists>c. wk_files w ''targets.pq'' = Some c \<and> e = evidence_of L c)) (tr_return ()) P
          (\<lambda>_ w. P w \<and> target_there L t w)" by (intro traced_ok_return there)
    next
      fix e
      show "traced_ok (\<lambda>w. P w \<and> (\<exists>c. wk_files w ''targets.pq'' = Some c \<and> e = evidence_of L c)) (tr_seq (store_get W (ot_URI t) ''targets.pq'')
             (tr_bind (local_targets L W) (\<lambda>a. tr_check (is_target t a) UnionMismatch))) P (\<lambda>_ w. P w \<and> target_there L t w)"
        by (rule traced_ok_pre [OF again]) simp
    qed
  qed
qed

text \<open>The outcome, if there is one, names files that are in the store, and the targets in the workspace are those of the request.\<close>

definition backed :: "os_library \<Rightarrow> string \<Rightarrow> string \<Rightarrow> string \<Rightarrow> os_request \<Rightarrow> os_site \<Rightarrow> bool" where
  "backed L job raw campaign q w \<longleftrightarrow> (\<forall>b. wk_objects w (done_marker job) = Some b \<longrightarrow> (\<exists>mid fs.
     b = Encode (ol_json L) (JObj (done_fields campaign mid q ''shared-os-vm'' fs)) \<and> map fst fs = raw_names \<and> uploaded L raw fs w
     \<and> target_there L (or_Target q) w))"

lemma tr_bind_return: "tr_bind (tr_return a) f = f a"
  by (rule ext) (simp add: tr_bind_def tr_return_def split: prod.split)

lemma publish_scan_backed:
  fixes L :: os_library and q :: os_request and raw job campaign :: string and K :: "os_site \<Rightarrow> bool"
  assumes "unaffected W K" "leaves W (done_marker job)" "\<And>n. n \<in> set raw_names \<Longrightarrow> leaves W (Join raw [n])" "tool_keeps_files W"
    and "\<And>w data name. K w \<Longrightarrow> name \<in> set raw_names \<Longrightarrow> K (set_object (Join raw [name]) (Some data) w)"
    and "\<And>w data. K w \<Longrightarrow> K (set_object (done_marker job) (Some data) w)"
  defines "D \<equiv> \<lambda>w. (K w \<and> target_there L (or_Target q) w) \<and> wk_objects w (done_marker job) = None"
    and "G \<equiv> \<lambda>w. K w \<and> backed L job raw campaign q w"
  shows "traced_ok D (publish_scan L W job raw campaign q False ''shared-os-vm'' step) G (\<lambda>_. G)"
proof -
  let ?T = "target_there L (or_Target q)"
  have stKT: "unaffected W (\<lambda>w. K w \<and> ?T w)" by (rule unaffected_conj [OF assms(1) unaffected_target [OF assms(4)]])
  have st: "unaffected W D" unfolding D_def by (rule unaffected_conj [OF stKT unaffected_leaves [OF assms(2)]])
  have DG: "G w" if "D w" for w using that by (simp add: D_def G_def backed_def)
  have putD: "D (set_object (Join raw [name]) (Some data) w)" if "D w" "name \<in> set raw_names" for w data name
    using that assms(5) [OF _ that(2)] other_name(1) [OF that(2), of raw job] by (simp add: D_def target_there_def set_object_def)
  have files: "traced_ok D (tr_each (upload_raw L W raw m mid) raw_names) G
      (\<lambda>fs w. map fst fs = raw_names \<and> D w \<and> uploaded L raw fs w)" for m mid
  proof -
    have "traced_ok (\<lambda>w. D w \<and> uploaded L raw [] w) (tr_each (upload_raw L W raw m mid) raw_names) D
      (\<lambda>fs w. map fst fs = raw_names \<and> D w \<and> uploaded L raw ([] @ fs) w)"
      by (rule upload_all_ok [OF st]) (use putD assms(3) in \<open>simp_all add: raw_names_def\<close>)
    then have "traced_ok D (tr_each (upload_raw L W raw m mid) raw_names) D (\<lambda>fs w. map fst fs = raw_names \<and> D w \<and> uploaded L raw fs w)"
      by (simp add: uploaded_def)
    then show ?thesis by (rule traced_ok_post) (simp_all add: DG)
  qed
  have publish: "traced_ok (\<lambda>w. map fst fs = raw_names \<and> D w \<and> uploaded L raw fs w)
      (os_publish L W (done_marker job) (JObj (done_fields campaign mid q ''shared-os-vm'' fs))) G (\<lambda>_. G)" for fs mid
  proof (rule traced_ok_pure)
    assume fs: "map fst fs = raw_names"
    let ?v = "Encode (ol_json L) (JObj (done_fields campaign mid q ''shared-os-vm'' fs))"
    let ?P = "\<lambda>w. ((K w \<and> ?T w) \<and> uploaded L raw fs w) \<and> (wk_objects w (done_marker job) = None \<or> wk_objects w (done_marker job) = Some ?v)"
    have names: "n \<in> set raw_names" if "(n, e) \<in> set fs" for n e
      using that arg_cong [OF fs, of set] by force
    have stP: "unaffected W ?P"
      by (rule unaffected_conj [OF unaffected_conj [OF stKT unaffected_uploaded] unaffected_leaves [OF assms(2)]]) (rule assms(3) [OF names])
    have "uploaded L raw fs (set_object (done_marker job) (Some ?v) w) = uploaded L raw fs w" for w
      by (rule uploaded_cong) (use other_name names in \<open>auto simp: set_object_def\<close>)
    then have "holds ?P (os_publish L W (done_marker job) (JObj (done_fields campaign mid q ''shared-os-vm'' fs)))"
      by (intro holds_publish [OF stP]) (use assms(6) in \<open>auto simp: target_there_def set_object_def\<close>)
    then show "traced_ok (\<lambda>w. D w \<and> uploaded L raw fs w)
      (os_publish L W (done_marker job) (JObj (done_fields campaign mid q ''shared-os-vm'' fs))) G (\<lambda>_. G)"
      by (rule holds_traced) (use fs in \<open>auto simp: D_def G_def backed_def, blast\<close>)
  qed
  have mark: "traced_ok D (read_marker L W mid) G (\<lambda>_. D)" for mid
    by (rule holds_post [OF holds_read_marker [OF st]]) (rule DG)
  have finish: "traced_ok (\<lambda>w. map fst fs = raw_names \<and> D w \<and> uploaded L raw fs w)
      (tr_seq (os_publish L W (done_marker job) (JObj (done_fields campaign mid q ''shared-os-vm'' fs))) (tr_return True)) G (\<lambda>_. G)" for fs mid
    by (rule traced_ok_seq [OF publish], rule traced_ok_return)
  show ?thesis
    unfolding publish_scan_def
    by (rule traced_ok_bind [OF mark], rule traced_ok_bind [OF files], simp only: if_False tr_bind_return append_Nil2, rule finish)
qed

lemma runOSScan_backed:
  fixes L :: os_library and q :: os_request and raw job campaign :: string and K :: "os_site \<Rightarrow> bool"
  assumes "unaffected W K" "leaves W (done_marker job)" "\<And>n. n \<in> set raw_names \<Longrightarrow> leaves W (Join raw [n])" "tool_keeps_files W"
    and "\<And>w data name. K w \<Longrightarrow> name \<in> set raw_names \<Longrightarrow> K (set_object (Join raw [name]) (Some data) w)"
    and "\<And>w data. K w \<Longrightarrow> K (set_object (done_marker job) (Some data) w)"
    and "\<And>w name c. K w \<Longrightarrow> K (put_named name c w)"
  defines "E \<equiv> \<lambda>w. K w \<and> wk_objects w (done_marker job) = None"
    and "G \<equiv> \<lambda>w. K w \<and> backed L job raw campaign q w"
  shows "traced_ok E (runOSScan L W job raw campaign data q False ''shared-os-vm'' retry) G (\<lambda>_. G)"
proof -
  have stE: "unaffected W E" unfolding E_def by (rule unaffected_conj [OF assms(1) unaffected_leaves [OF assms(2)]])
  have stT: "unaffected W (\<lambda>w. E w \<and> target_there L (or_Target q) w)" by (rule unaffected_conj [OF stE unaffected_target [OF assms(4)]])
  have EG: "G w" if "E w" for w using that by (simp add: E_def G_def backed_def)
  have putE: "E (put_named name c w)" if "E w" for w name c using that assms(7) by (simp add: E_def put_named_def)
  have fetch: "traced_ok E (fetch_targets L W (or_Target q)) G (\<lambda>_ w. E w \<and> target_there L (or_Target q) w)"
    using fetch_targets_ok [OF stE putE putE] by (rule traced_ok_post) (simp_all add: EG)
  have scan: "traced_ok (\<lambda>w. E w \<and> target_there L (or_Target q) w)
      (publish_scan L W job raw campaign q False ''shared-os-vm'' step) G (\<lambda>_. G)" for step
    unfolding G_def E_def by (rule traced_ok_pre [OF publish_scan_backed [OF assms(1-6)]]) simp_all
  have pin: "traced_ok E (pin_request L W data q) G (\<lambda>_. E)" by (rule holds_post [OF holds_pin [OF stE]]) (rule EG)
  have load: "traced_ok (\<lambda>w. E w \<and> target_there L (or_Target q) w) (load_step L W) G (\<lambda>_ w. E w \<and> target_there L (or_Target q) w)"
    by (rule holds_post [OF holds_load_step [OF stT]]) (simp add: EG)
  have scanned: "traced_ok (\<lambda>w. E w \<and> target_there L (or_Target q) w) (scan_unless_complete L W q retry step) G
      (\<lambda>_ w. E w \<and> target_there L (or_Target q) w)" for step
    by (rule holds_post [OF holds_scan [OF stT]]) (simp add: EG)
  show ?thesis
    unfolding runOSScan_def
    by (rule traced_ok_seq [OF pin], rule traced_ok_seq [OF fetch], rule traced_ok_bind [OF load], rule traced_ok_bind [OF scanned], rule scan)
qed

text \<open>Where the raw data of a campaign goes.\<close>

definition shared_prefix :: "string \<Rightarrow> string \<Rightarrow> string" where
  "shared_prefix root campaign = Join root [''continental'', campaign, ''os'', ''shared-os'']"

lemma read_value_ok:
  assumes "unaffected W E" "leaves W u" "\<And>w. E w \<Longrightarrow> G w"
  shows "traced_ok E (store_read W u) G (\<lambda>x w. E w \<and> wk_objects w u = x)"
  unfolding store_read_def
  by (rule look_ok) (simp_all add: unaffected_tick [OF assms(1)] assms(3))

lemma pure_holds: "traced_ok P (tr_check b e) G (\<lambda>_ w. b \<and> P w)"
  by (rule traced_ok_check) simp

lemma decoded_ok: "traced_ok P (decoded name v) G (\<lambda>x w. v = Some x \<and> P w)"
  unfolding decoded_def by (cases v) (simp_all add: traced_ok_fail traced_ok_return)

lemma check_request_ok:
  "traced_ok P (check_request d campaign job q) G
     (\<lambda>_ w. (request_fits d campaign job q \<and> check_members d campaign (or_ZMap q) 0 (or_Members q) = None) \<and> P w)"
  by (auto simp: traced_ok_def check_request_def failing_def tr_seq_def tr_bind_def tr_check_def tr_return_def tr_fail_def
      split: option.splits if_splits)

text \<open>What an outcome must have behind it, in terms of the objects in the store.\<close>

definition outcome_backed :: "os_library \<Rightarrow> string \<Rightarrow> string \<Rightarrow> os_site \<Rightarrow> bool" where
  "outcome_backed L prefix campaign w \<longleftrightarrow> wk_objects w (done_marker (os_job prefix campaign)) = None \<or> (\<exists>a d data q.
     wk_objects w (campaign_uri prefix campaign) = Some a \<and> ol_descriptor L a = Some d
     \<and> wk_objects w (Join (os_job prefix campaign) [''request.json'']) = Some data \<and> ol_request L data = Some q
     \<and> request_fits d campaign (os_job prefix campaign) q \<and> check_members d campaign (or_ZMap q) 0 (or_Members q) = None
     \<and> backed L (os_job prefix campaign) (shared_prefix (or_RawRoot q) campaign) campaign q w)"

lemma campaign_uris:
  shows "name \<in> set raw_names \<Longrightarrow> Join raw [name] \<noteq> campaign_uri prefix campaign"
    and "done_marker job \<noteq> campaign_uri prefix campaign" "done_marker job \<noteq> Join job' [''request.json'']"
proof -
  have c: "after_last_slash (campaign_uri prefix campaign) = ''campaign.json''"
    by (simp add: campaign_uri_def after_last_slash_Join)
  show "name \<in> set raw_names \<Longrightarrow> Join raw [name] \<noteq> campaign_uri prefix campaign"
    by (rule other_last) (use raw_name_plain [of name] in \<open>auto simp: c after_last_slash_Join raw_names_def\<close>)
qed (rule other_last, simp add: after_last_slash_Join campaign_uri_def)+

lemma RunOS_backed:
  assumes "leaves W (campaign_uri prefix campaign)" "leaves W (Join (os_job prefix campaign) [''request.json''])"
    and "leaves W (done_marker (os_job prefix campaign))" "tool_keeps_files W"
    and "\<And>root n. n \<in> set raw_names \<Longrightarrow> leaves W (Join (shared_prefix root campaign) [n])"
  defines "E \<equiv> \<lambda>w. wk_objects w (done_marker (os_job prefix campaign)) = None"
  shows "traced_ok E (RunOS L W prefix campaign retry) (outcome_backed L prefix campaign) (\<lambda>_. outcome_backed L prefix campaign)"
proof -
  let ?job = "os_job prefix campaign"
  let ?G = "outcome_backed L prefix campaign"
  have EG: "?G w" if "E w" for w using that by (simp add: E_def outcome_backed_def)
  have stE: "unaffected W E" unfolding E_def by (rule unaffected_leaves [OF assms(3)])
  define C where "C a w \<longleftrightarrow> wk_objects w (campaign_uri prefix campaign) = a" for a and w :: os_site
  define Q where "Q x w \<longleftrightarrow> wk_objects w (Join ?job [''request.json'']) = x" for x and w :: os_site
  have stC: "unaffected W (C a)" and stQ: "unaffected W (Q x)" for a x
    unfolding C_def Q_def by (rule unaffected_leaves assms)+
  note stEC = unaffected_conj [OF stE stC]
  have run: "traced_ok (\<lambda>w. (E w \<and> C (Some a) w) \<and> Q (Some data) w)
      (tr_seq (check_request d campaign ?job q) (runOSScan L W ?job (Join (or_RawRoot q) [''continental'', campaign, ''os'', ''shared-os''])
        campaign data q False ''shared-os-vm'' retry)) ?G (\<lambda>_. ?G)"
    if a: "ol_descriptor L a = Some d" and data: "ol_request L data = Some q" for a d data q
  proof (rule traced_ok_seq [OF check_request_ok], rule traced_ok_pure)
    assume fits: "request_fits d campaign ?job q \<and> check_members d campaign (or_ZMap q) 0 (or_Members q) = None"
    let ?K = "\<lambda>w. C (Some a) w \<and> Q (Some data) w" and ?raw = "shared_prefix (or_RawRoot q) campaign"
    have put: "?K (set_object (Join raw [name]) (Some x) w)" if "?K w" "name \<in> set raw_names" for w name x raw
      using that campaign_uris(1) [OF that(2), of raw prefix campaign] other_name(3) [OF that(2), of raw ?job]
      by (simp add: C_def Q_def set_object_def)
    have "traced_ok (\<lambda>w. ?K w \<and> wk_objects w (done_marker ?job) = None) (runOSScan L W ?job ?raw campaign data q False ''shared-os-vm'' retry)
       (\<lambda>w. ?K w \<and> backed L ?job ?raw campaign q w) (\<lambda>_ w. ?K w \<and> backed L ?job ?raw campaign q w)"
      by (rule runOSScan_backed [OF unaffected_conj [OF stC stQ] assms(3) assms(5) assms(4) put])
         (use campaign_uris(2) [of ?job prefix campaign] campaign_uris(3) [of ?job ?job] in \<open>auto simp: C_def Q_def set_object_def put_named_def\<close>)
    then have "traced_ok (\<lambda>w. ?K w \<and> wk_objects w (done_marker ?job) = None)
        (runOSScan L W ?job ?raw campaign data q False ''shared-os-vm'' retry) ?G (\<lambda>_. ?G)"
    proof (rule traced_ok_post)
      show "?G w" if "?K w \<and> backed L ?job ?raw campaign q w" for w
        using that a data fits unfolding outcome_backed_def C_def Q_def by blast
      then show "?G w" if "?K w \<and> backed L ?job ?raw campaign q w" for w using that by blast
    qed
    then show "traced_ok (\<lambda>w. (E w \<and> C (Some a) w) \<and> Q (Some data) w) (runOSScan L W ?job (Join (or_RawRoot q) [''continental'', campaign, ''os'', ''shared-os''])
        campaign data q False ''shared-os-vm'' retry) ?G (\<lambda>_. ?G)"
      unfolding shared_prefix_def [symmetric] by (rule traced_ok_pre) (simp add: E_def)
  qed
  have request: "traced_ok (\<lambda>w. E w \<and> C (Some a) w) (run_request L W d campaign ?job retry) ?G (\<lambda>_. ?G)"
    if a: "ol_descriptor L a = Some d" for a d
  proof -
    have EC: "?G w" if "E w \<and> C (Some a) w" for w using that EG by simp
    have look: "traced_ok (\<lambda>w. E w \<and> C (Some a) w) (store_read W u) ?G (\<lambda>_ w. E w \<and> C (Some a) w)" for u
      by (rule holds_post [OF holds_read [OF stEC]]) (rule EC)
    have requested: "traced_ok (\<lambda>w. E w \<and> C (Some a) w) (store_read W (Join ?job [''request.json''])) ?G
        (\<lambda>x w. (E w \<and> C (Some a) w) \<and> Q x w)"
      unfolding Q_def by (rule read_value_ok [OF stEC assms(2)]) (rule EC)
    show ?thesis
      unfolding run_request_def
    proof (rule traced_ok_bind [OF look], rule traced_ok_if, rule traced_ok_return, rule EC, assumption,
        rule traced_ok_bind [OF look], rule traced_ok_if, rule traced_ok_fail, rule traced_ok_bind [OF requested])
      fix x
      show "traced_ok (\<lambda>w. (E w \<and> C (Some a) w) \<and> Q x w) (case x of None \<Rightarrow> tr_return False
          | Some data \<Rightarrow> tr_bind (decoded ''request.json'' (ol_request L data)) (\<lambda>q.
              tr_seq (check_request d campaign ?job q) (runOSScan L W ?job (Join (or_RawRoot q) [''continental'', campaign, ''os'', ''shared-os''])
                campaign data q False ''shared-os-vm'' retry))) ?G (\<lambda>_. ?G)"
        by (cases x) (auto intro!: traced_ok_return EG traced_ok_bind [OF decoded_ok] traced_ok_pure run [OF a, unfolded conj_assoc])
    qed
  qed
  have off: "traced_ok (\<lambda>w. E w \<and> C (Some a) w) (tr_seq (PublishOSNotRequested L W prefix campaign) (tr_return True)) ?G (\<lambda>_. ?G)" for a
  proof (rule traced_ok_seq [where Q = ?G])
    have "holds E (PublishOSNotRequested L W prefix campaign)"
      by (rule holds_not_requested [OF stE]) (use os_job_uris(1) [of prefix campaign ?job] in \<open>simp add: E_def set_object_def\<close>)
    then show "traced_ok (\<lambda>w. E w \<and> C (Some a) w) (PublishOSNotRequested L W prefix campaign) ?G (\<lambda>_. ?G)"
      by (rule holds_traced) (simp_all add: EG)
  qed (rule traced_ok_return, assumption)
  have bound: "traced_ok E (store_read W (campaign_uri prefix campaign)) ?G (\<lambda>x w. E w \<and> C x w)"
    unfolding C_def by (rule read_value_ok [OF stE assms(1)]) (rule EG)
  have campaign: "traced_ok (\<lambda>w. E w \<and> C (Some a) w) (run_campaign_os L W prefix campaign retry d) ?G (\<lambda>_. ?G)"
    if a: "ol_descriptor L a = Some d" for a d
  proof -
    have mode: "traced_ok P (OSDisabled d) I (\<lambda>_. P)" for P I :: "os_site \<Rightarrow> bool"
      by (simp add: OSDisabled_def traced_ok_return traced_ok_fail)
    show ?thesis
      unfolding run_campaign_os_def
      by (rule traced_ok_bind [OF mode], rule traced_ok_seq, rule traced_ok_check, assumption, rule traced_ok_seq,
          rule traced_ok_check, assumption, rule traced_ok_if, rule off, rule request [OF a])
  qed
  have cases: "traced_ok (\<lambda>w. E w \<and> C x w) (case x of None \<Rightarrow> tr_return False
      | Some b \<Rightarrow> tr_bind (decoded ''campaign.json'' (ol_descriptor L b)) (run_campaign_os L W prefix campaign retry)) ?G (\<lambda>_. ?G)" for x
    by (cases x) (auto intro!: traced_ok_return EG traced_ok_bind [OF decoded_ok] traced_ok_pure campaign)
  show ?thesis
    unfolding RunOS_def
    by (cases "Validate campaign ''eu''") (simp_all add: traced_ok_fail traced_ok_bind [OF bound cases])
qed


text \<open>
  C6: A published outcome is backed by its data. If a run of \<open>RunOS\<close>, from a job without outcome, leaves \<open>done.json\<close> in
  the store, at whatever point it is cut off and whatever fails, then it names the request and the campaign that are in the
  store and that passed every check, the targets that were scanned have the size and digest of that request, and
  each of the four files it names is in the store under the shared prefix with exactly the size and digest it
  gives. (Nobody else writes these objects, and the tool leaves the target file alone.)
\<close>

theorem os_outcome_backed:
  assumes "leaves W (campaign_uri prefix campaign)" "leaves W (Join (os_job prefix campaign) [''request.json''])"
    and "leaves W (Join (os_job prefix campaign) [''done.json''])" "tool_keeps_files W"
    and "\<And>root n. n \<in> set raw_names \<Longrightarrow> leaves W (Join (shared_prefix root campaign) [n])"
    and "wk_objects w (Join (os_job prefix campaign) [''done.json'']) = None"
    and "w' \<in> set (snd (RunOS L W prefix campaign retry w))"
    and "wk_objects w' (Join (os_job prefix campaign) [''done.json'']) = Some b"
  shows "\<exists>policy d data q mid fs targets.
     b = Encode (ol_json L) (JObj (done_fields campaign mid q ''shared-os-vm'' fs))
     \<and> wk_objects w' (campaign_uri prefix campaign) = Some policy \<and> ol_descriptor L policy = Some d
     \<and> wk_objects w' (Join (os_job prefix campaign) [''request.json'']) = Some data \<and> ol_request L data = Some q
     \<and> request_fits d campaign (os_job prefix campaign) q \<and> check_members d campaign (or_ZMap q) 0 (or_Members q) = None
     \<and> wk_files w' ''targets.pq'' = Some targets \<and> is_target (or_Target q) (evidence_of L targets)
     \<and> map fst fs = raw_names
     \<and> (\<forall>(name, e) \<in> set fs. \<exists>content. wk_objects w' (Join (shared_prefix (or_RawRoot q) campaign) [name]) = Some content
          \<and> e = evidence_of L content)"
proof -
  have "outcome_backed L prefix campaign w'"
    by (rule traced_ok_state [OF RunOS_backed [OF assms(1-5)] assms(6,7)])
  then obtain policy d data q where q: "wk_objects w' (campaign_uri prefix campaign) = Some policy" "ol_descriptor L policy = Some d"
      "wk_objects w' (Join (os_job prefix campaign) [''request.json'']) = Some data" "ol_request L data = Some q"
      "request_fits d campaign (os_job prefix campaign) q" "check_members d campaign (or_ZMap q) 0 (or_Members q) = None"
    and "backed L (os_job prefix campaign) (shared_prefix (or_RawRoot q) campaign) campaign q w'"
    using assms(8) unfolding outcome_backed_def by auto
  then obtain mid fs where fs: "b = Encode (ol_json L) (JObj (done_fields campaign mid q ''shared-os-vm'' fs))" "map fst fs = raw_names"
      "uploaded L (shared_prefix (or_RawRoot q) campaign) fs w'" "target_there L (or_Target q) w'"
    using assms(8) unfolding backed_def by blast
  obtain targets where t: "wk_files w' ''targets.pq'' = Some targets" "is_target (or_Target q) (evidence_of L targets)"
    using fs(4) by (auto simp: target_there_def split: option.splits)
  have "\<forall>(name, e) \<in> set fs. \<exists>content. wk_objects w' (Join (shared_prefix (or_RawRoot q) campaign) [name]) = Some content
          \<and> e = evidence_of L content"
    using fs(3) by (auto simp: uploaded_def list_all_iff split: option.splits)
  with q fs t show ?thesis by blast
qed


section \<open>A late enrichment leaves the core alone\<close>

lemma trim_slashes_id: "s = [] \<or> last s \<noteq> CHR ''/'' \<Longrightarrow> trim_slashes s = s"
  by (cases s rule: rev_cases) (simp_all add: trim_slashes_def)

definition enrichment_space :: "string \<Rightarrow> string" where
  "enrichment_space core = core @ ''/enrichments/os/''"

lemma has_prefix_append [simp]: "has_prefix p (p @ s)"
  by (simp add: has_prefix_def)

text \<open>Every object that is written has this prefix.\<close>

lemma enrichment_uris:
  assumes "trim_slashes core = core"
  shows "has_prefix (enrichment_space core) (Join core [''enrichments'', ''os'', n])"
    and "has_prefix (enrichment_space core) (Join (enrichment_root core) [n])"
    and "has_prefix (enrichment_space core) (Join (Join (enrichment_root core) [''raw'']) [n])"
    and "has_prefix (enrichment_space core) (Join (scan_job core) [n])"
    and "has_prefix (enrichment_space core) (Join (Join core [''enrichments'', ''os'', ''scan'']) [n])"
    and "has_prefix (enrichment_space core) (Join (Join core [''enrichments'', ''os'', ''scan'']) [m, n, l])"
proof -
  have root: "enrichment_root core = core @ ''/enrichments/os''" by (simp add: enrichment_root_def Join_def assms)
  then have r: "trim_slashes (enrichment_root core) = core @ ''/enrichments/os''" by (simp add: trim_slashes_id)
  have scan: "trim_slashes (scan_job core) = core @ ''/enrichments/os/scan''"
    "trim_slashes (Join core [''enrichments'', ''os'', ''scan'']) = core @ ''/enrichments/os/scan''"
    and raw: "trim_slashes (Join (enrichment_root core) [''raw'']) = core @ ''/enrichments/os/raw''"
    by (simp_all add: scan_job_def Join_def assms r trim_slashes_id)
  have p: "has_prefix (enrichment_space core) (core @ ''/enrichments/os/'' @ s)" for s
    using has_prefix_append [of "enrichment_space core" s] by (simp add: enrichment_space_def)
  show "has_prefix (enrichment_space core) (Join core [''enrichments'', ''os'', n])" using p [of n] by (simp add: Join_def assms)
  show "has_prefix (enrichment_space core) (Join (enrichment_root core) [n])" using p [of n] by (simp add: Join_def r)
  show "has_prefix (enrichment_space core) (Join (Join (enrichment_root core) [''raw'']) [n])"
    using p [of "''raw/'' @ n"] by (simp add: Join_def [of "Join _ _"] raw)
  show "has_prefix (enrichment_space core) (Join (scan_job core) [n])"
    using p [of "''scan/'' @ n"] by (simp add: Join_def scan)
  show "has_prefix (enrichment_space core) (Join (Join core [''enrichments'', ''os'', ''scan'']) [n])"
    "has_prefix (enrichment_space core) (Join (Join core [''enrichments'', ''os'', ''scan'']) [m, n, l])"
    using p [of "''scan/'' @ n"] p [of "''scan/'' @ m @ ''/'' @ n @ ''/'' @ l"] by (simp_all add: Join_def [of "Join _ _"] scan)
qed

text \<open>An object outside of it that nobody else writes keeps its content.\<close>

definition beyond :: "os_world \<Rightarrow> string \<Rightarrow> string \<Rightarrow> bool" where
  "beyond W core u \<longleftrightarrow> leaves W u \<and> trim_slashes core = core \<and> \<not> has_prefix (enrichment_space core) u"

definition same :: "string \<Rightarrow> string option \<Rightarrow> os_site \<Rightarrow> bool" where
  "same u x w \<longleftrightarrow> wk_objects w u = x"

lemma same_unaffected: "beyond W core u \<Longrightarrow> unaffected W (same u x)"
  unfolding same_def [abs_def] beyond_def by (rule unaffected_leaves) simp

lemma same_put: "beyond W core u \<Longrightarrow> same u x w \<Longrightarrow> has_prefix (enrichment_space core) v \<Longrightarrow> same u x (set_object v c w)"
  by (auto simp: beyond_def same_def set_object_def)

lemma same_named: "same u x w \<Longrightarrow> same u x (put_named n c w)"
  by (simp add: same_def put_named_def)

lemma beyond_tidy: "beyond W core u \<Longrightarrow> trim_slashes core = core"
  by (simp add: beyond_def)

lemmas inside_uris = enrichment_uris [OF beyond_tidy]

lemma holds_no_os [holds_rules]: "unaffected W P \<Longrightarrow> holds P (readNoOSCore L W core)"
  unfolding readNoOSCore_def by (intro holds_rules)

lemma holds_enrichment_request:
  assumes "beyond W core u"
  shows "holds (same u x) (RequestOSEnrichment L W core vantage)"
  unfolding RequestOSEnrichment_def Let_def
  by (intro holds_rules holds_publish same_unaffected [OF assms] same_put [OF assms] inside_uris [OF assms])

lemma holds_check_enrichment [holds_rules]: "unaffected W P \<Longrightarrow> holds P (check_enrichment L W core q)"
  unfolding check_enrichment_def validateEnrichmentMembers_def campaign_policy_def protocol_policy_def Let_def
  by (intro holds_rules)

lemma holds_RunOSEnrichment:
  assumes "beyond W core u"
  shows "holds (same u x) (RunOSEnrichment L W core retry)"
  unfolding RunOSEnrichment_def scan_enrichment_def
  by (intro holds_rules holds_publish holds_runOSScan same_unaffected [OF assms] same_put [OF assms] same_named inside_uris [OF assms])

lemma holds_enrichment_failure:
  assumes "beyond W core u"
  shows "holds (same u x) (PublishEnrichmentScanFailure L W core e)"
  unfolding PublishEnrichmentScanFailure_def publish_failure_def
  by (intro holds_rules holds_publish same_unaffected [OF assms] same_put [OF assms] inside_uris [OF assms])

lemma holds_enrichment_retry:
  assumes "beyond W core u"
  shows "holds (same u x) (RetryEnrichmentScanFailure L W core)"
  unfolding RetryEnrichmentScanFailure_def retryScanFailure_def
  by (intro holds_rules holds_put holds_delete same_unaffected [OF assms] same_put [OF assms] inside_uris [OF assms])

lemma holds_enrichment_worker:
  assumes "beyond W core u"
  shows "holds (same u x) (enrichment_worker L W F core k)"
  unfolding enrichment_worker_def
  by (intro holds_rules holds_enrichment_request holds_worker_loop holds_RunOSEnrichment holds_enrichment_failure
      holds_enrichment_retry same_unaffected [OF assms] assms)

lemma safe_id_end: "safeID s \<Longrightarrow> s \<noteq> [] \<and> last s \<noteq> CHR ''/''"
proof -
  assume s: "safeID s"
  then have "s \<noteq> []" "list_all (\<lambda>c. id_char c \<or> c = CHR ''_'' \<or> c = CHR ''-'') s"
    by (auto simp: safeID_def split: list.splits)
  then have "id_char (last s) \<or> last s = CHR ''_'' \<or> last s = CHR ''-''" by (simp add: list_all_iff)
  then show ?thesis using \<open>s \<noteq> []\<close> by (auto simp: id_char_def)
qed

lemma core_tidy:
  assumes "EnrichmentCore prefix campaign zmap = Inr core"
  shows "trim_slashes core = core"
proof -
  obtain d i where "core = Join prefix [d, i]" "safeID i"
    using assms by (auto simp: EnrichmentCore_def split: if_splits)
  then have "core = (trim_slashes prefix @ ''/'' @ d @ ''/'') @ i" "i \<noteq> []" "last i \<noteq> CHR ''/''"
    using safe_id_end [of i] by (simp_all add: Join_def)
  then have "last core \<noteq> CHR ''/''" by (simp only: last_append if_False not_False_eq_True)
  then show ?thesis by (simp only: trim_slashes_id simp_thms)
qed

text \<open>
  C8: A late enrichment leaves the core alone. Whatever the worker does in enrichment mode, requesting, scanning, reporting
  a failure or retrying, whatever fails and wherever it is cut off: an object that is not below
  \<^verbatim>\<open>enrichments/os/\<close> of the core, and that nobody else writes, is as it was. So a campaign's policy, its completion
  and the results of its sites stay what they were.
\<close>

theorem enrichment_keeps_core:
  assumes "wf_enrichment F \<or> wf_request F" "wf_prefix F \<noteq> []"
    and "EnrichmentCore (wf_prefix F) (wf_campaign F) (wf_zmap F) = Inr core"
    and "leaves W u" "\<not> has_prefix (core @ ''/enrichments/os/'') u"
    and "w' \<in> set (snd (os_worker L W F k w))"
  shows "wk_objects w' u = wk_objects w u"
proof -
  let ?V = "W\<lparr>ow_workspace := worker_workspace (ow_repo W) F\<rparr>"
  have "w' \<in> set (snd (enrichment_worker L ?V F core k w))"
    using os_worker_state [OF assms(6,2)] assms(1,3) by simp
  moreover have "beyond ?V core u"
    using assms(4,5) core_tidy [OF assms(3)] by (simp add: beyond_def enrichment_space_def)
  ultimately have "same u (wk_objects w u) w'"
    using holds_state [OF holds_enrichment_worker, of ?V core u "wk_objects w u" w w' L F k] by (simp add: same_def)
  then show ?thesis by (simp add: same_def)
qed

end
