(* ===== verification/OsWorker_Runs.thy ===== *)
theory OsWorker_Runs
  imports OsWorker_Safety
begin

text \<open>
  Runs of the OS worker on concrete inputs: a measurement of a campaign that succeeds, one whose tool fails, and the request
  of a late enrichment. The theorems of \<^theory_text>\<open>OsWorker_Safety\<close> are tried on them.
\<close>

section \<open>A campaign\<close>

text \<open>JSON of which only the keys are kept; texts stand for themselves.\<close>

definition demo_marshal :: "json \<Rightarrow> string" where
  "demo_marshal v = (case v of JStr s \<Rightarrow> s | JObj fs \<Rightarrow> concat (map fst fs) | _ \<Rightarrow> ''j'')"

definition demo_ids :: "string list" where
  "demo_ids = [GetMeasurementID ''icmp'' None demo_time, GetMeasurementID ''tcp'' (Some 80) demo_time,
     GetMeasurementID ''udp-dns'' (Some 53) demo_time]"

definition demo_member :: "nat \<Rightarrow> os_member" where
  "demo_member i = [(''measurement_id'', demo_ids ! (i mod 3)), (''site'', Sites ! (i div 3)), (''protocol'', Protocols ! (i mod 3)),
     (''uri'', Join ''s3://r'' [''continental'', ''c'', Sites ! (i div 3), ''zmap'', demo_ids ! (i mod 3), ''zmap.pq'']),
     (''sha256'', replicate 64 (CHR ''0''))]"

definition demo_digest :: "string \<Rightarrow> string" where
  "demo_digest s = replicate 64 (if even (length s) then CHR ''a'' else CHR ''b'')"

definition demo_target :: os_target where
  "demo_target = \<lparr>ot_URI = ''s3://p/continental/c/os/targets.pq'', ot_Size = 2, ot_SHA256 = demo_digest ''ab'', ot_Rows = 1\<rparr>"

definition demo_os_request :: os_request where
  "demo_os_request = \<lparr>or_Version = 1, or_Campaign = ''c'',
     or_Target = demo_target,
     or_RawRoot = ''s3://r'', or_ZMap = demo_ids ! 1, or_Members = map demo_member [0..<18]\<rparr>"

definition demo_descriptor :: descriptor where
  "demo_descriptor = \<lparr>ds_OSMode = [], ds_Version = 1, ds_Campaign = ''c'', ds_Sites = Sites, ds_Protocols = Protocols, ds_RawRoot = ''s3://r''\<rparr>"

definition demo_scanned :: "string \<Rightarrow> string option" where
  "demo_scanned name = (if name \<in> set raw_names then Some name else if name = ''measurement-complete.json'' then Some ''m'' else None)"

definition demo_read_request :: "string \<Rightarrow> os_request option" where
  "demo_read_request s = (if s = ''q'' then Some demo_os_request else None)"

definition demo_read_descriptor :: "string \<Rightarrow> descriptor option" where
  "demo_read_descriptor s = (if s = ''d'' then Some demo_descriptor else None)"

definition demo_read_marker :: "string \<Rightarrow> marker option" where
  "demo_read_marker s = (if s = ''m'' then Some \<lparr>mk_Version = 1, mk_ID = ''tcp-80_t7'',
     mk_Files = map (\<lambda>n. (n, \<lparr>fe_Size = length n, fe_SHA256 = demo_digest n\<rparr>)) raw_names\<rparr> else None)"

definition demo_read_object :: "string \<Rightarrow> json_object option" where
  "demo_read_object s = (if s = ''f'' then Some [(''version'', JInt 1), (''os_status'', JStr ''not_requested'')] else None)"

definition demo_read_json :: "string \<Rightarrow> json option" where
  "demo_read_json s = Some (JStr (if s \<noteq> [] \<and> last s = char_of (10 :: nat) then butlast s else s))"

definition demo_layout :: "int \<Rightarrow> string" where
  "demo_layout t = ''t'' @ dec_of_int t"

definition demo_unyaml :: "json_object \<Rightarrow> string option" where
  "demo_unyaml m = Some (demo_marshal (JObj m))"

definition demo_os_library :: os_library where
  "demo_os_library = \<lparr>ol_json = \<lparr>json_decode = demo_read_json, json_marshal = demo_marshal\<rparr>,
     ol_sha = demo_digest, ol_descriptor = demo_read_descriptor, ol_request = demo_read_request, ol_step = (\<lambda>_. None),
     ol_marker = demo_read_marker, ol_intent = (\<lambda>_. None), ol_protocol = (\<lambda>_. None), ol_object = demo_read_object,
     ol_yaml = (\<lambda>_. Some (Some [])), ol_unyaml = demo_unyaml, ol_workflow_prefix = (\<lambda>_. None),
     ol_parse_stamp = (\<lambda>_. None), ol_format_stamp = dec_of_int, ol_layout = demo_layout\<rparr>"

text \<open>Nobody else acts, every access works, the tool leaves its files or fails.\<close>

definition demo_tool :: "bool \<Rightarrow> string \<Rightarrow> string list \<Rightarrow> string list \<Rightarrow> os_site \<Rightarrow> os_site list \<times> bool" where
  "demo_tool b p a e w = ([w\<lparr>wk_raw := (wk_raw w)(''tcp-80_t7'' \<mapsto> demo_scanned)\<rparr>], b)"

definition demo_os_world :: "bool \<Rightarrow> os_world" where
  "demo_os_world b = \<lparr>ow_change = (\<lambda>_ s. s), ow_access = (\<lambda>_. Works), ow_partial = (\<lambda>_. None), ow_now = (\<lambda>_. 7), ow_nanos = (\<lambda>_. 0),
     ow_modified = (\<lambda>_. 9), ow_hostname = Some ''h'', ow_config = Some [], ow_ipid_config = None, ow_environ = [], ow_repo = ''/r'',
     ow_workspace = ''/r/continental/c/os'', ow_tool = demo_tool b, ow_cancelled = (\<lambda>_. False), ow_message = (\<lambda>_. ''e'')\<rparr>"

definition demo_os_site :: os_site where
  "demo_os_site = \<lparr>wk_files = (\<lambda>_. None), wk_raw = (\<lambda>_. None),
     wk_objects = [''s3://p/continental/c/campaign.json'' \<mapsto> ''d'', ''s3://p/continental/c/os/request.json'' \<mapsto> ''q'',
       ''s3://p/continental/c/os/targets.pq'' \<mapsto> ''ab'', ''s3://p/continental/c/done.json'' \<mapsto> ''f''], wk_clock = 0\<rparr>"

lemma demo_leaves: "leaves (demo_os_world b) u"
  by (simp add: leaves_def demo_os_world_def demo_tool_def)

lemma demo_keeps_files: "tool_keeps_files (demo_os_world b)"
  by (simp add: tool_keeps_files_def demo_os_world_def demo_tool_def)


lemma demo_parses:
  "ParseMeasurementID (demo_ids ! 0) = Inr (''icmp'', None, demo_time)"
  "ParseMeasurementID (demo_ids ! Suc 0) = Inr (''tcp'', Some 80, demo_time)"
  "ParseMeasurementID (demo_ids ! 2) = Inr (''udp-dns'', Some 53, demo_time)"
  by (simp_all add: demo_ids_def ParseMeasurementID_Get demo_time_def valid_time_def days_in_def leap_year_def)

lemma demo_members_fit: "campaign_member demo_descriptor ''c'' i (demo_member i)"
proof -
  have "i mod 3 = 0 \<or> i mod 3 = Suc 0 \<or> i mod 3 = 2" by linarith
  then show ?thesis
    by (elim disjE) (simp_all add: campaign_member_def demo_member_def map_get_def Let_def demo_parses Protocols_def port_fits_def
      expected_port_def demo_descriptor_def)
qed

lemma demo_members_checked: "check_members demo_descriptor ''c'' (demo_ids ! 1) i (map demo_member [i..<n]) = None"
proof (induction "n - i" arbitrary: i)
  case 0
  then show ?case by simp
next
  case (Suc k)
  then have "map demo_member [i..<n] = demo_member i # map demo_member [Suc i..<n]" by (simp add: upt_rec)
  moreover have "Protocols ! (i mod 3) = ''tcp'' \<Longrightarrow> demo_ids ! 1 = map_get (demo_member i) ''measurement_id''"
  proof -
    have "i mod 3 = 0 \<or> i mod 3 = Suc 0 \<or> i mod 3 = 2" by linarith
    then show "Protocols ! (i mod 3) = ''tcp'' \<Longrightarrow> demo_ids ! 1 = map_get (demo_member i) ''measurement_id''"
      by (elim disjE) (simp_all add: Protocols_def demo_member_def map_get_def)
  qed
  ultimately show ?case using Suc.hyps(1) [of "Suc i"] Suc.hyps(2) by (simp add: demo_members_fit)
qed

lemma demo_request_checked: "check_request demo_descriptor ''c'' (os_job ''s3://p'' ''c'') demo_os_request w = (Inr (), [])"
proof -
  have "request_fits demo_descriptor ''c'' (os_job ''s3://p'' ''c'') demo_os_request"
    by (simp add: request_fits_def demo_descriptor_def demo_os_request_def demo_target_def target_fits_def os_job_def Join_def trim_slashes_def demo_digest_def)
  moreover have "participants demo_descriptor" by (simp add: participants_def demo_descriptor_def)
  moreover have "hex_string (ot_SHA256 (or_Target demo_os_request))"
    by (simp add: hex_string_def demo_os_request_def demo_target_def demo_digest_def list_all_iff)
  moreover have "check_members demo_descriptor ''c'' (or_ZMap demo_os_request) 0 (or_Members demo_os_request) = None"
    using demo_members_checked [of 0 18] by (simp add: demo_os_request_def)
  ultimately show ?thesis
    by (simp add: check_request_def tr_seq_def tr_bind_def tr_check_def tr_return_def failing_def)
qed

text \<open>The result of an operation and the state it leaves behind.\<close>

definition outcome_of :: "'a os_run \<Rightarrow> os_site \<Rightarrow> (worker_error + 'a) \<times> os_site" where
  "outcome_of m w = (fst (m w), last (w # snd (m w)))"

lemma outcome_bind: "outcome_of (tr_bind m f) w = (case outcome_of m w of (Inl e, v) \<Rightarrow> (Inl e, v) | (Inr a, v) \<Rightarrow> outcome_of (f a) v)"
  by (auto simp: outcome_of_def tr_bind_def last_append split: prod.split sum.split)

lemma outcome_seq: "outcome_of (tr_seq m n) w = (case outcome_of m w of (Inl e, v) \<Rightarrow> (Inl e, v) | (Inr a, v) \<Rightarrow> outcome_of n v)"
  by (simp add: tr_seq_def outcome_bind)

lemma outcome_simple:
  "outcome_of (tr_return a) w = (Inr a, w)" "outcome_of (tr_fail e) w = (Inl e, w)" "outcome_of (tr_get f) w = (Inr (f w), w)"
  "outcome_of (tr_update g) w = (Inr (), g w)" "outcome_of (tr_check b e) w = (if b then Inr () else Inl e, w)"
  by (simp_all add: outcome_of_def tr_return_def tr_fail_def tr_get_def tr_update_def tr_check_def)

lemma outcome_catch:
  "outcome_of (tr_catch m h) w = (case outcome_of m w of (Inl e, v) \<Rightarrow> outcome_of (h e) v | (Inr a, v) \<Rightarrow> (Inr a, v))"
  by (auto simp: outcome_of_def tr_catch_def last_append split: prod.split sum.split)

lemmas outcomes = outcome_bind outcome_seq outcome_simple outcome_catch

lemma outcome_state: "outcome_of m w = (r, v) \<Longrightarrow> v \<noteq> w \<Longrightarrow> v \<in> set (snd (m w))"
  by (auto simp: outcome_of_def split: if_splits)

text \<open>In the world of the example only the clock runs on.\<close>

definition later :: "os_site \<Rightarrow> os_site" where
  "later w = w\<lparr>wk_clock := Suc (wk_clock w)\<rparr>"

lemma demo_tick: "os_tick (demo_os_world b) w = later w"
  by (simp add: os_tick_def demo_os_world_def later_def)

lemma demo_command: "outcome_of (os_command (demo_os_world b) f) w = outcome_of (f Works (wk_clock w)) (later w)"
  by (simp add: os_command_def outcomes demo_tick) (simp add: demo_os_world_def)

lemma demo_look: "outcome_of (os_look (demo_os_world b) e f) w = (Inr (f (later w)), later w)"
  by (simp add: os_look_def demo_command outcomes)

lemma demo_change: "outcome_of (os_change (demo_os_world b) e f) w = (Inr (), f (later w))"
  by (simp add: os_change_def demo_command outcomes)

lemma demo_json_equal: "JSONEqual (ol_json demo_os_library) (Encode (ol_json demo_os_library) v) (Encode (ol_json demo_os_library) v)"
  by (simp add: JSONEqual_def demo_os_library_def demo_read_json_def)

lemma demo_publish:
  assumes "wk_objects w uri = None"
  shows "outcome_of (os_publish demo_os_library (demo_os_world b) uri v) w
    = (Inr (), later (set_object uri (Some (Encode (ol_json demo_os_library) v)) (later (later w))))"
  using assms demo_json_equal [of v]
  by (simp add: os_publish_def publish_access_def outcomes demo_command later_def set_object_def)

lemma later_sel [simp]:
  "wk_files (later w) = wk_files w" "wk_raw (later w) = wk_raw w" "wk_objects (later w) = wk_objects w"
  "raw_file mid name (later w) = raw_file mid name w"
  by (simp_all add: later_def raw_file_def)

lemma put_sel [simp]:
  "wk_files (put_named n c w) = (wk_files w)(n := c)" "wk_raw (put_named n c w) = wk_raw w"
  "wk_objects (put_named n c w) = wk_objects w" "raw_file mid name (put_named n c w) = raw_file mid name w"
  "wk_files (set_object u c w) = wk_files w" "wk_raw (set_object u c w) = wk_raw w"
  "wk_objects (set_object u c w) = (wk_objects w)(u := c)" "raw_file mid name (set_object u c w) = raw_file mid name w"
  by (simp_all add: put_named_def set_object_def raw_file_def)

text \<open>A rename, as the two changes it is.\<close>

lemma demo_rename: "from \<noteq> to \<Longrightarrow> outcome_of (rename_file (demo_os_world b) from to) w
    = (Inr (), put_named from None (put_named to (wk_files w from) (later w)))"
  by (simp add: rename_file_def demo_change rename_is_put)

lemma demo_atomic:
  "outcome_of (AtomicJSON L (demo_os_world b) name v) w
    = (Inr (), put_named (name @ ''.part'') None (put_named name (Some (Encode (ol_json L) v))
        (later (put_named (name @ ''.part'') (Some (Encode (ol_json L) v)) (later (later w))))))"
  by (simp add: AtomicJSON_def make_directory_def file_write_def outcomes demo_look demo_command demo_rename)

lemma demo_get:
  assumes "wk_objects w uri = Some c"
  shows "outcome_of (store_get (demo_os_world b) uri name) w
    = (Inr (), put_named (name @ ''.part'') None (put_named name (Some c) (later (put_named (name @ ''.part'') (Some c) (later w)))))"
  using assms by (simp add: store_get_def outcomes demo_command demo_rename)

section \<open>The scan\<close>

definition fresh :: "os_site \<Rightarrow> bool" where
  "fresh w \<longleftrightarrow> wk_files w = (\<lambda>_. None) \<and> wk_raw w = (\<lambda>_. None) \<and> wk_objects w = wk_objects demo_os_site"

lemma fresh_later [simp]: "fresh (later w) = fresh w"
  by (simp add: fresh_def)

lemma demo_pin:
  assumes "fresh w"
  shows "\<exists>v. outcome_of (pin_request demo_os_library (demo_os_world b) data q) w = (Inr (), v)
    \<and> wk_files v ''targets.pq'' = None \<and> wk_files v ''scan.json'' = None \<and> wk_raw v = (\<lambda>_. None) \<and> wk_objects v = wk_objects demo_os_site"
  using assms by (simp add: pin_request_def make_directory_def file_read_def outcomes demo_look demo_atomic fresh_def)

lemma demo_fetch:
  assumes "wk_objects w = wk_objects demo_os_site" "wk_files w ''targets.pq'' = None"
  shows "\<exists>v. outcome_of (fetch_targets demo_os_library (demo_os_world b) demo_target) w = (Inr (), v)
    \<and> wk_files v ''scan.json'' = wk_files w ''scan.json'' \<and> wk_raw v = wk_raw w \<and> wk_objects v = wk_objects w"
proof -
  have "wk_objects w (ot_URI demo_target) = Some ''ab''" by (simp add: assms(1) demo_os_site_def demo_target_def)
  moreover have "is_target demo_target \<lparr>fe_Size = Suc (Suc 0), fe_SHA256 = ol_sha demo_os_library ''ab''\<rparr>"
    by (simp add: is_target_def demo_target_def demo_os_library_def)
  ultimately show ?thesis
    using assms(2) by (simp add: fetch_targets_def local_targets_def file_evidence_of_def outcomes demo_command demo_look demo_get)
qed

lemma demo_load:
  assumes "wk_files w ''scan.json'' = None"
  shows "\<exists>v. outcome_of (load_step demo_os_library (demo_os_world b)) w = (Inr (scan_step demo_os_library 7), v)
    \<and> wk_raw v = wk_raw w \<and> wk_objects v = wk_objects w"
proof -
  have "ow_now (demo_os_world b) n = 7" for n by (simp add: demo_os_world_def)
  then show ?thesis using assms by (simp add: load_step_def file_read_def save_step_def outcomes demo_look demo_atomic)
qed

lemma demo_execute:
  "outcome_of (execute_tool (demo_os_world b) q step) w = (if b then Inr () else Inl ToolFailure, w\<lparr>wk_raw := (wk_raw w)(''tcp-80_t7'' \<mapsto> demo_scanned)\<rparr>)"
  by (simp add: outcome_of_def execute_tool_def demo_os_world_def demo_tool_def)

lemma demo_measured:
  assumes "wk_raw w = (\<lambda>_. None)"
  shows "\<exists>v. outcome_of (scan_unless_complete demo_os_library (demo_os_world b) q retry (scan_step demo_os_library 7)) w
      = (if b then Inr (scan_step demo_os_library 7) else Inl ToolFailure, v)
    \<and> wk_raw v = [''tcp-80_t7'' \<mapsto> demo_scanned] \<and> wk_objects v = wk_objects w"
proof -
  have "ow_config (demo_os_world b) = Some []" "ol_yaml demo_os_library [] = Some (Some [])" "\<exists>t. ol_unyaml demo_os_library m = Some t" for m
    by (simp_all add: demo_os_world_def demo_os_library_def demo_unyaml_def)
  then show ?thesis
    using assms
    by (auto simp: scan_unless_complete_def fresh_attempt_def write_config_def file_write_def outcomes demo_look demo_command demo_execute
      raw_file_def split: option.split)
qed


lemma demo_upload:
  assumes "wk_raw w = [''tcp-80_t7'' \<mapsto> demo_scanned]" "name \<in> set raw_names"
    and "marker_evidence m name = \<lparr>fe_Size = length name, fe_SHA256 = ol_sha demo_os_library name\<rparr>"
  shows "\<exists>e v. outcome_of (upload_raw demo_os_library (demo_os_world b) raw m ''tcp-80_t7'' name) w = (Inr (name, e), v)
    \<and> wk_raw v = wk_raw w \<and> (\<forall>u. u \<noteq> Join raw [name] \<longrightarrow> wk_objects v u = wk_objects w u)"
proof -
  have there: "raw_file ''tcp-80_t7'' name v = Some name" if "wk_raw v = wk_raw w" for v
    using that assms(1,2) by (simp add: raw_file_def demo_scanned_def)
  show ?thesis
    using assms(3) by (simp add: upload_raw_def file_evidence_of_def store_put_raw_def store_put_def outcomes demo_look demo_change there)
qed

lemma demo_uploads:
  assumes "\<And>n. n \<in> set names \<Longrightarrow> n \<in> set raw_names"
    and "\<And>n. n \<in> set names \<Longrightarrow> marker_evidence m n = \<lparr>fe_Size = length n, fe_SHA256 = ol_sha demo_os_library n\<rparr>"
  shows "wk_raw w = [''tcp-80_t7'' \<mapsto> demo_scanned] \<Longrightarrow>
    \<exists>fs v. outcome_of (tr_each (upload_raw demo_os_library (demo_os_world b) raw m ''tcp-80_t7'') names) w = (Inr fs, v)
      \<and> wk_objects v (done_marker job) = wk_objects w (done_marker job)"
  using assms
proof (induction names arbitrary: w)
  case Nil
  then show ?case by (simp add: outcomes)
next
  case (Cons n names)
  obtain e v where v: "outcome_of (upload_raw demo_os_library (demo_os_world b) raw m ''tcp-80_t7'' n) w = (Inr (n, e), v)"
    "wk_raw v = wk_raw w" "\<forall>u. u \<noteq> Join raw [n] \<longrightarrow> wk_objects v u = wk_objects w u"
    using demo_upload [OF Cons.prems(1), where name = n and m = m and b = b and raw = raw] Cons.prems(2,3) by auto
  obtain fs x where "outcome_of (tr_each (upload_raw demo_os_library (demo_os_world b) raw m ''tcp-80_t7'') names) v = (Inr fs, x)"
    "wk_objects x (done_marker job) = wk_objects v (done_marker job)"
    using Cons.IH [of v] Cons.prems v(2) by auto
  moreover have "wk_objects v (done_marker job) = wk_objects w (done_marker job)"
    using v(3) other_name(1) [of n raw job] Cons.prems(2) by auto
  ultimately show ?case using v(1) by (simp add: outcomes)
qed

lemma demo_os_published:
  assumes "wk_raw w = [''tcp-80_t7'' \<mapsto> demo_scanned]" "wk_objects w (done_marker job) = None"
  shows "\<exists>v. outcome_of (publish_scan demo_os_library (demo_os_world b) job raw ''c'' q False ''shared-os-vm'' (scan_step demo_os_library 7)) w
      = (Inr True, v) \<and> wk_objects v (done_marker job) \<noteq> None"
proof -
  have id: "sp_ID (scan_step demo_os_library 7) = ''tcp-80_t7''" by code_simp
  let ?e = "\<lambda>n. \<lparr>fe_Size = length n, fe_SHA256 = demo_digest n\<rparr>"
  define m where "m = \<lparr>mk_Version = 1, mk_ID = ''tcp-80_t7'', mk_Files = map (\<lambda>n. (n, ?e n)) raw_names\<rparr>"
  have m: "ol_marker demo_os_library ''m'' = Some m" "mk_Version m = 1" "mk_ID m = ''tcp-80_t7''"
    by (simp_all add: m_def demo_os_library_def demo_read_marker_def)
  have evidence: "marker_evidence m n = \<lparr>fe_Size = length n, fe_SHA256 = ol_sha demo_os_library n\<rparr>" if "n \<in> set raw_names" for n
    using that by (simp add: m_def marker_evidence_def map_of_map_restrict demo_os_library_def)
  have there: "raw_file ''tcp-80_t7'' ''measurement-complete.json'' v = Some ''m''" if "wk_raw v = wk_raw w" for v
    using that assms(1) by (simp add: raw_file_def demo_scanned_def raw_names_def)
  obtain fs x where x: "outcome_of (tr_each (upload_raw demo_os_library (demo_os_world b) raw m ''tcp-80_t7'') raw_names) (later w) = (Inr fs, x)"
    "wk_objects x (done_marker job) = wk_objects (later w) (done_marker job)"
    using demo_uploads [of raw_names m "later w" b raw job] evidence assms(1) by auto
  have "wk_objects x (done_marker job) = None" using x(2) assms(2) by simp
  then show ?thesis
    using x(1) by (simp add: publish_scan_def read_marker_def decoded_def outcomes demo_look id there m demo_publish)
qed

lemma demo_objects: "wk_objects demo_os_site (Join (os_job ''s3://p'' ''c'') [n]) =
    (if n = ''request.json'' then Some ''q'' else if n = ''targets.pq'' then Some ''ab'' else None)"
  by (simp add: demo_os_site_def os_job_def Join_def trim_slashes_def)

lemma demo_scan:
  assumes "or_Target q = demo_target" "fresh w"
  shows "\<exists>v. outcome_of (runOSScan demo_os_library (demo_os_world b) (os_job ''s3://p'' ''c'') raw ''c'' data q False ''shared-os-vm'' retry)
      w = (if b then Inr True else Inl ToolFailure, v)
    \<and> (if b then wk_objects v (done_marker (os_job ''s3://p'' ''c'')) \<noteq> None else wk_objects v = wk_objects demo_os_site)"
proof -
  obtain v1 where v1: "outcome_of (pin_request demo_os_library (demo_os_world b) data q) w = (Inr (), v1)"
    "wk_files v1 ''targets.pq'' = None" "wk_files v1 ''scan.json'' = None" "wk_raw v1 = (\<lambda>_. None)" "wk_objects v1 = wk_objects demo_os_site"
    using demo_pin [OF assms(2)] by blast
  obtain v2 where v2: "outcome_of (fetch_targets demo_os_library (demo_os_world b) demo_target) v1 = (Inr (), v2)"
    "wk_files v2 ''scan.json'' = None" "wk_raw v2 = (\<lambda>_. None)" "wk_objects v2 = wk_objects demo_os_site"
    using demo_fetch [OF v1(5,2)] v1 by auto
  obtain v3 where v3: "outcome_of (load_step demo_os_library (demo_os_world b)) v2 = (Inr (scan_step demo_os_library 7), v3)"
    "wk_raw v3 = (\<lambda>_. None)" "wk_objects v3 = wk_objects demo_os_site"
    using demo_load [OF v2(2)] v2 by auto
  obtain v4 where v4: "outcome_of (scan_unless_complete demo_os_library (demo_os_world b) q retry (scan_step demo_os_library 7)) v3
      = (if b then Inr (scan_step demo_os_library 7) else Inl ToolFailure, v4)"
    "wk_raw v4 = [''tcp-80_t7'' \<mapsto> demo_scanned]" "wk_objects v4 = wk_objects demo_os_site"
    using demo_measured [OF v3(2), where b = b and q = q and retry = retry] v3 by auto
  show ?thesis
  proof (cases b)
    case True
    have "wk_objects v4 (done_marker (os_job ''s3://p'' ''c'')) = None" by (simp add: v4(3) demo_objects)
    then obtain v where "outcome_of (publish_scan demo_os_library (demo_os_world b) (os_job ''s3://p'' ''c'') raw ''c'' q False ''shared-os-vm''
        (scan_step demo_os_library 7)) v4 = (Inr True, v)" "wk_objects v (done_marker (os_job ''s3://p'' ''c'')) \<noteq> None"
      using demo_os_published [OF v4(2)] by blast
    then show ?thesis using v1(1) v2(1) v3(1) v4(1) True by (simp add: runOSScan_def outcomes assms)
  next
    case False
    then show ?thesis using v1(1) v2(1) v3(1) v4(1,3) by (simp add: runOSScan_def outcomes assms)
  qed
qed

lemma demo_campaign_uri: "wk_objects demo_os_site (campaign_uri ''s3://p'' ''c'') = Some ''d''"
  by (simp add: demo_os_site_def campaign_uri_def Join_def trim_slashes_def)

lemma demo_read: "outcome_of (store_read (demo_os_world b) u) w = (Inr (wk_objects w u), later w)"
  by (simp add: store_read_def demo_look)

lemma demo_decoders: "ol_descriptor demo_os_library ''d'' = Some demo_descriptor" "ol_request demo_os_library ''q'' = Some demo_os_request"
  by (simp_all add: demo_os_library_def demo_read_descriptor_def demo_read_request_def)

lemma demo_descriptor_sel: "ds_OSMode demo_descriptor = []" "ds_Version demo_descriptor = 1" "ds_Campaign demo_descriptor = ''c''"
    "participants demo_descriptor" "has_prefix ''s3://'' (ds_RawRoot demo_descriptor)"
  by (simp_all add: demo_descriptor_def participants_def has_prefix_def)

lemma demo_RunOS:
  assumes "fresh w"
  shows "\<exists>v. outcome_of (RunOS demo_os_library (demo_os_world b) ''s3://p'' ''c'' retry) w = (if b then Inr True else Inl ToolFailure, v)
    \<and> (if b then wk_objects v (done_marker (os_job ''s3://p'' ''c'')) \<noteq> None else wk_objects v = wk_objects demo_os_site)"
proof -
  have objects: "wk_objects w = wk_objects demo_os_site" using assms by (simp add: fresh_def)
  have valid: "Validate ''c'' ''eu'' = None" by code_simp
  have target: "or_Target demo_os_request = demo_target" by (simp add: demo_os_request_def)
  have check: "outcome_of (check_request demo_descriptor ''c'' (os_job ''s3://p'' ''c'') demo_os_request) v = (Inr (), v)" for v
    by (simp add: outcome_of_def demo_request_checked)
  show ?thesis
    using demo_scan [OF target, of "later (later (later (later w)))" b "Join (or_RawRoot demo_os_request) [''continental'', ''c'', ''os'', ''shared-os'']"
        "''q''" retry] assms
    by (simp add: RunOS_def run_campaign_os_def run_request_def outcomes valid demo_read decoded_def OSDisabled_def objects demo_campaign_uri
        demo_objects demo_decoders demo_descriptor_sel check)
qed


section \<open>The theorems at work\<close>

lemma demo_os_site_fresh: "fresh demo_os_site"
  by (simp add: fresh_def demo_os_site_def)

theorem os_outcome_backed_witness:
  "\<exists>w b mid fs. w \<in> set (snd (RunOS demo_os_library (demo_os_world True) ''s3://p'' ''c'' False demo_os_site))
    \<and> wk_objects w (Join (os_job ''s3://p'' ''c'') [''done.json'']) = Some b
    \<and> b = Encode (ol_json demo_os_library) (JObj (done_fields ''c'' mid demo_os_request ''shared-os-vm'' fs)) \<and> map fst fs = raw_names"
proof -
  let ?R = "RunOS demo_os_library (demo_os_world True) ''s3://p'' ''c'' False"
  obtain w b where R: "outcome_of ?R demo_os_site = (Inr True, w)" and b: "wk_objects w (Join (os_job ''s3://p'' ''c'') [''done.json'']) = Some b"
    using demo_RunOS [OF demo_os_site_fresh, of True False] by auto
  have none: "wk_objects demo_os_site (Join (os_job ''s3://p'' ''c'') [''done.json'']) = None" by (simp add: demo_objects)
  then have "w \<noteq> demo_os_site" using b by auto
  then have w: "w \<in> set (snd (?R demo_os_site))" by (rule outcome_state [OF R])
  have "ol_request demo_os_library data = Some q \<Longrightarrow> q = demo_os_request" for data q
    by (simp add: demo_os_library_def demo_read_request_def split: if_splits)
  then show ?thesis
    using os_outcome_backed [OF demo_leaves demo_leaves demo_leaves demo_keeps_files demo_leaves none w b] w b by blast
qed

text \<open>A run whose tool fails: the failure is published.\<close>

definition demo_flags :: worker_flags where
  "demo_flags = \<lparr>wf_campaign = ''c'', wf_prefix = ''s3://p'', wf_enrichment = False, wf_request = False, wf_zmap = [], wf_vantage = [],
     wf_retry = False, wf_retry_incomplete = False, wf_once = True, wf_poll = 1000000000\<rparr>"

lemma demo_failed_run:
  "\<exists>v. outcome_of (os_worker demo_os_library (demo_os_world False) demo_flags 0) demo_os_site = (Inl ToolFailure, v)
    \<and> wk_objects v (failed_marker (os_job ''s3://p'' ''c'')) \<noteq> None"
proof -
  let ?W = "demo_os_world False"
  have world: "?W\<lparr>ow_workspace := worker_workspace (ow_repo ?W) demo_flags\<rparr> = ?W"
    by (simp add: demo_os_world_def worker_workspace_def demo_flags_def)
  obtain v where v: "outcome_of (RunOS demo_os_library ?W ''s3://p'' ''c'' False) (later (later demo_os_site)) = (Inl ToolFailure, v)"
    "wk_objects v = wk_objects demo_os_site"
    using demo_RunOS [of "later (later demo_os_site)" False False] demo_os_site_fresh by auto
  have cancelled: "ow_cancelled ?W n = False" for n by (simp add: demo_os_world_def)
  have valid: "Validate ''c'' ''eu'' = None" by code_simp
  have flags: "check_flags demo_flags = None" by (simp add: check_flags_def demo_flags_def valid)
  have "outcome_of (worker_loop ?W True (RunOS demo_os_library ?W ''s3://p'' ''c'' False) (PublishOSFailure demo_os_library ?W ''s3://p'' ''c'') 0)
      (later (later demo_os_site)) = (Inl ToolFailure, x) \<longleftrightarrow>
      snd (outcome_of (PublishOSFailure demo_os_library ?W ''s3://p'' ''c'' ToolFailure) v) = x" for x
    by (subst worker_loop.simps) (auto simp: worker_round_def outcomes v(1) cancelled split: prod.splits sum.splits)
  moreover have "wk_objects (snd (outcome_of (PublishOSFailure demo_os_library ?W ''s3://p'' ''c'' ToolFailure) v))
      (failed_marker (os_job ''s3://p'' ''c'')) \<noteq> None"
    by (simp add: PublishOSFailure_def publish_failure_def outcomes demo_read v(2) demo_campaign_uri decoded_def demo_decoders OSDisabled_def
        demo_descriptor_sel demo_objects demo_publish)
  moreover have "outcome_of (os_worker demo_os_library ?W demo_flags 0) demo_os_site
      = outcome_of (worker_loop ?W True (RunOS demo_os_library ?W ''s3://p'' ''c'' False) (PublishOSFailure demo_os_library ?W ''s3://p'' ''c'') 0)
          (later (later demo_os_site))"
    by (simp add: os_worker_def flags failing_def outcomes worker_prefix_def Let_def world campaign_worker_def enter_workspace_def
        make_directory_def demo_look) (simp add: demo_flags_def outcomes)
  ultimately show ?thesis by auto
qed

theorem os_outcome_unique_witness:
  "\<exists>w. os_history demo_os_library ''s3://p'' ''c'' w \<and> wk_objects w (Join (os_job ''s3://p'' ''c'') [''failed.json'']) \<noteq> None
    \<and> wk_objects w (Join (os_job ''s3://p'' ''c'') [''done.json'']) = None"
proof -
  obtain v where v: "outcome_of (os_worker demo_os_library (demo_os_world False) demo_flags 0) demo_os_site = (Inl ToolFailure, v)"
    "wk_objects v (failed_marker (os_job ''s3://p'' ''c'')) \<noteq> None"
    using demo_failed_run by blast
  then have "v \<noteq> demo_os_site" by (auto simp: demo_objects)
  then have w: "v \<in> set (snd (os_worker demo_os_library (demo_os_world False) demo_flags 0 demo_os_site))" by (rule outcome_state [OF v(1)])
  have "os_history demo_os_library ''s3://p'' ''c'' demo_os_site"
    by (rule os_history.start) (simp add: one_outcome_def demo_objects)
  then have "os_history demo_os_library ''s3://p'' ''c'' v"
    by (rule os_history.run [OF _ _ _ _ _ _ demo_leaves demo_leaves w]) (simp_all add: demo_flags_def)
  then show ?thesis using os_outcome_unique [of demo_os_library "''s3://p''" "''c''" v] v(2) by auto
qed


text \<open>The request of an enrichment.\<close>

definition demo_late_flags :: worker_flags where
  "demo_late_flags = demo_flags\<lparr>wf_request := True, wf_vantage := ''v''\<rparr>"

lemma demo_core: "EnrichmentCore ''s3://p'' ''c'' [] = Inr ''s3://p/continental/c''"
  by (simp add: EnrichmentCore_def safeID_def id_char_def Join_def trim_slashes_def)

lemma workspace_command: "os_command (W\<lparr>ow_workspace := d\<rparr>) f = os_command W f"
proof -
  have "os_tick (W\<lparr>ow_workspace := d\<rparr>) = os_tick W" by (rule ext) (simp add: os_tick_def)
  then show ?thesis by (simp add: os_command_def)
qed

lemma workspace_look: "os_look (W\<lparr>ow_workspace := d\<rparr>) e f = os_look W e f"
  by (simp add: os_look_def workspace_command)

lemma workspace_publish: "os_publish L (W\<lparr>ow_workspace := d\<rparr>) uri v = os_publish L W uri v"
proof -
  have "publish_access L (W\<lparr>ow_workspace := d\<rparr>) uri v pc = publish_access L W uri v pc" for pc
    by (cases pc) (simp_all add: publish_access_def workspace_command)
  then show ?thesis by (simp add: os_publish_def)
qed

lemma demo_late_run:
  "\<exists>v. outcome_of (os_worker demo_os_library (demo_os_world True) demo_late_flags 0) demo_os_site = (Inr (), v)
    \<and> wk_objects v ''s3://p/continental/c/enrichments/os/request.json'' \<noteq> None"
proof -
  have flags: "check_flags demo_late_flags = None" by (simp add: check_flags_def demo_late_flags_def demo_flags_def)
  have object: "ol_object demo_os_library ''f'' = Some [(''version'', JInt 1), (''os_status'', JStr ''not_requested'')]"
    by (simp add: demo_os_library_def demo_read_object_def)
  have uris: "Join ''s3://p/continental/c'' [''done.json''] = ''s3://p/continental/c/done.json''"
    "Join ''s3://p/continental/c'' [''enrichments'', ''os'', ''request.json''] = ''s3://p/continental/c/enrichments/os/request.json''"
    by (simp_all add: Join_def trim_slashes_def)
  have white: "trim_white ''v'' \<noteq> []" by (simp add: trim_white_def white_def)
  show ?thesis
    by (simp add: os_worker_def flags failing_def outcomes worker_prefix_def Let_def)
       (simp add: demo_late_flags_def demo_flags_def outcomes demo_core enrichment_worker_def enter_workspace_def make_directory_def workspace_look
        demo_look RequestOSEnrichment_def readNoOSCore_def store_read_def decoded_def white Let_def uris object workspace_publish demo_publish
        demo_os_site_def)
qed

theorem enrichment_keeps_core_witness:
  "\<exists>w. w \<in> set (snd (os_worker demo_os_library (demo_os_world True) demo_late_flags 0 demo_os_site))
    \<and> wk_objects w ''s3://p/continental/c/enrichments/os/request.json'' \<noteq> None
    \<and> wk_objects w ''s3://p/continental/c/campaign.json'' = Some ''d''"
proof -
  obtain v where v: "outcome_of (os_worker demo_os_library (demo_os_world True) demo_late_flags 0) demo_os_site = (Inr (), v)"
    "wk_objects v ''s3://p/continental/c/enrichments/os/request.json'' \<noteq> None"
    using demo_late_run by blast
  then have "v \<noteq> demo_os_site" by (auto simp: demo_os_site_def)
  then have w: "v \<in> set (snd (os_worker demo_os_library (demo_os_world True) demo_late_flags 0 demo_os_site))" by (rule outcome_state [OF v(1)])
  have core: "EnrichmentCore (wf_prefix demo_late_flags) (wf_campaign demo_late_flags) (wf_zmap demo_late_flags) = Inr ''s3://p/continental/c''"
    by (simp add: demo_late_flags_def demo_flags_def demo_core)
  have "wk_objects v ''s3://p/continental/c/campaign.json'' = wk_objects demo_os_site ''s3://p/continental/c/campaign.json''"
    by (rule enrichment_keeps_core [OF _ _ core demo_leaves _ w]) (simp_all add: demo_late_flags_def demo_flags_def has_prefix_def)
  then show ?thesis using w v(2) by (auto simp: demo_os_site_def)
qed

end
